(* ===== verification/Prelude.thy ===== *)
theory Prelude
  imports Complex_Main "HOL-Library.AList"
begin

text \<open>
  The shared vocabulary of the development: the hint collections the component theories fill,
  lemmas on association lists (the model of JavaScript objects) and on tables of rows (the model
  of the SQLite tables), and the state-and-exception monad in which the asynchronous parts of the
  program are written.
\<close>

named_theorems path_simps "laws of dotted paths into JSON values"
named_theorems table_simps "reads of a table after an update"
named_theorems status_intros "facts about run and step statuses"

section \<open>Association lists\<close>

lemma map_of_update: "map_of (AList.update k v xs) = (map_of xs)(k \<mapsto> v)"
  by (rule AList.update_conv')

lemma map_of_update_same [simp]: "map_of (AList.update k v xs) k = Some v"
  by (simp add: map_of_update)

lemma map_of_update_other [simp]: "j \<noteq> k \<Longrightarrow> map_of (AList.update k v xs) j = map_of xs j"
  by (simp add: map_of_update)

lemma distinct_keys_update [simp]:
  "distinct (map fst xs) \<Longrightarrow> distinct (map fst (AList.update k v xs))"
  by (rule AList.distinct_update)

lemma length_update_le: "length xs \<le> length (AList.update k v xs)"
  by (induction xs) auto

text \<open>Entries of the second list win; a key already present keeps its position.\<close>

definition overwrite :: "('k \<times> 'v) list \<Rightarrow> ('k \<times> 'v) list \<Rightarrow> ('k \<times> 'v) list" where
  "overwrite xs ys = fold (\<lambda>(k, v) acc. AList.update k v acc) ys xs"

lemma overwrite_Nil [simp]: "overwrite xs [] = xs"
  by (simp add: overwrite_def)

lemma overwrite_Cons [simp]: "overwrite xs ((k, v) # ys) = overwrite (AList.update k v xs) ys"
  by (simp add: overwrite_def)

lemma map_of_overwrite:
  "distinct (map fst ys) \<Longrightarrow> map_of (overwrite xs ys) = map_of xs ++ map_of ys"
proof (induction ys arbitrary: xs)
  case Nil
  then show ?case by simp
next
  case (Cons p ys)
  obtain k v where p: "p = (k, v)" by (cases p)
  from Cons.prems p have k: "map_of ys k = None" and d: "distinct (map fst ys)"
    by (simp_all add: map_of_eq_None_iff)
  have "map_of (overwrite xs (p # ys)) = (map_of xs)(k \<mapsto> v) ++ map_of ys"
    using Cons.IH [OF d, of "AList.update k v xs"] by (simp only: p overwrite_Cons map_of_update)
  also have "\<dots> = map_of xs ++ map_of (p # ys)"
    using k p map_add_upd_left [of k "map_of ys" "map_of xs" v]
    by (simp add: domIff)
  finally show ?case .
qed

section \<open>Tables of rows\<close>

text \<open>
  A table is the list of its rows in insertion order; \<open>row\<close> is the read by primary key and
  \<open>change\<close> the statement \<open>UPDATE ... WHERE id = k AND g\<close>.
\<close>

definition row :: "('r \<Rightarrow> 'k) \<Rightarrow> 'k \<Rightarrow> 'r list \<Rightarrow> 'r option" where
  "row key k rs = find (\<lambda>r. key r = k) rs"

definition change :: "('r \<Rightarrow> 'k) \<Rightarrow> 'k \<Rightarrow> ('r \<Rightarrow> bool) \<Rightarrow> ('r \<Rightarrow> 'r) \<Rightarrow> 'r list \<Rightarrow> 'r list" where
  "change key k g f rs = map (\<lambda>r. if key r = k \<and> g r then f r else r) rs"

lemma row_Nil [simp]: "row key k [] = None"
  by (simp add: row_def)

lemma row_Cons [simp]: "row key k (r # rs) = (if key r = k then Some r else row key k rs)"
  by (simp add: row_def)

lemma row_append:
  "row key k (rs @ qs) = (case row key k rs of None \<Rightarrow> row key k qs | Some r \<Rightarrow> Some r)"
  by (induction rs) auto

lemma row_map:
  "(\<And>r. key (f r) = key r) \<Longrightarrow> row key k (map f rs) = map_option f (row key k rs)"
  by (induction rs) auto

lemma row_Some_iff_ex: "(\<exists>r. row key k rs = Some r) \<longleftrightarrow> k \<in> key ` set rs"
  by (induction rs) auto

lemma row_None_iff: "row key k rs = None \<longleftrightarrow> k \<notin> key ` set rs"
  by (induction rs) auto

lemma row_SomeD: "row key k rs = Some r \<Longrightarrow> key r = k \<and> r \<in> set rs"
  by (induction rs) (auto split: if_splits)

lemma row_distinct:
  "distinct (map key rs) \<Longrightarrow> r \<in> set rs \<Longrightarrow> row key (key r) rs = Some r"
  by (induction rs) (auto simp: image_iff)

lemma change_Nil [simp]: "change key k g f [] = []"
  by (simp add: change_def)

lemma length_change [simp]: "length (change key k g f rs) = length rs"
  by (simp add: change_def)

text \<open>
  The contract of an UPDATE: the columns it assigns do not include the primary key. The reads
  after it, the frame and the key set follow once for all statements of the store.
\<close>

locale key_preserving =
  fixes key :: "'r \<Rightarrow> 'k" and upd :: "'a \<Rightarrow> 'r \<Rightarrow> 'r"
  assumes key_upd: "key (upd a r) = key r"
begin

lemma row_change_same:
  "row key k (change key k g (upd a) rs) =
     map_option (\<lambda>r. if g r then upd a r else r) (row key k rs)"
  by (induction rs) (auto simp: change_def key_upd)

lemma row_change_other:
  "j \<noteq> k \<Longrightarrow> row key j (change key k g (upd a) rs) = row key j rs"
  by (induction rs) (auto simp: change_def key_upd)

lemma keys_change: "map key (change key k g (upd a) rs) = map key rs"
  by (induction rs) (auto simp: change_def key_upd)

lemma row_change:
  "row key j (change key k g (upd a) rs) =
     map_option (\<lambda>r. if j = k \<and> g r then upd a r else r) (row key j rs)"
  by (cases "j = k") (simp_all add: row_change_same row_change_other option.map_ident)

end

section \<open>The state-and-exception monad\<close>

text \<open>
  An asynchronous method of the program is a function from the state of the world to a result and
  the state it leaves. \<open>Inl\<close> is a thrown exception; the state changes made before the throw
  stay, as they do in the code.
\<close>

type_synonym ('e, 'a, 's) sx = "'s \<Rightarrow> ('e + 'a) \<times> 's"

definition ret :: "'a \<Rightarrow> ('e, 'a, 's) sx" where
  "ret x = (\<lambda>s. (Inr x, s))"

definition throw :: "'e \<Rightarrow> ('e, 'a, 's) sx" where
  "throw e = (\<lambda>s. (Inl e, s))"

definition bnd :: "('e, 'a, 's) sx \<Rightarrow> ('a \<Rightarrow> ('e, 'b, 's) sx) \<Rightarrow> ('e, 'b, 's) sx" where
  "bnd m f = (\<lambda>s. case m s of (Inl e, s') \<Rightarrow> (Inl e, s') | (Inr x, s') \<Rightarrow> f x s')"

definition reads :: "('s \<Rightarrow> 'a) \<Rightarrow> ('e, 'a, 's) sx" where
  "reads f = (\<lambda>s. (Inr (f s), s))"

definition modify :: "('s \<Rightarrow> 's) \<Rightarrow> ('e, unit, 's) sx" where
  "modify f = (\<lambda>s. (Inr (), f s))"

definition lift_sum :: "'e + 'a \<Rightarrow> ('e, 'a, 's) sx" where
  "lift_sum r = (\<lambda>s. (r, s))"

text \<open>\<open>try m catch h\<close>: the handler decides by the exception, and re-throws what it does not take.\<close>

definition handle :: "('e, 'a, 's) sx \<Rightarrow> ('e \<Rightarrow> ('e, 'a, 's) sx) \<Rightarrow> ('e, 'a, 's) sx" where
  "handle m h = (\<lambda>s. case m s of (Inl e, s') \<Rightarrow> h e s' | (Inr x, s') \<Rightarrow> (Inr x, s'))"

text \<open>\<open>try m finally k\<close>: \<open>k\<close> runs on both exits; an exception of \<open>k\<close> replaces the outcome.\<close>

definition finally_do :: "('e, 'a, 's) sx \<Rightarrow> ('e, unit, 's) sx \<Rightarrow> ('e, 'a, 's) sx" where
  "finally_do m k = (\<lambda>s. case m s of (r, s') \<Rightarrow>
     (case k s' of (Inl e, s'') \<Rightarrow> (Inl e, s'') | (Inr _, s'') \<Rightarrow> (r, s'')))"

text \<open>
  \<open>transaction(f).immediate()\<close> of the database library: an exception takes back what was written.
\<close>

definition transaction :: "('e, 'a, 's) sx \<Rightarrow> ('e, 'a, 's) sx" where
  "transaction m = (\<lambda>s. case m s of (Inl e, _) \<Rightarrow> (Inl e, s) | (Inr x, s') \<Rightarrow> (Inr x, s'))"

lemma transaction_run: "transaction m s = (case m s of (Inl e, _) \<Rightarrow> (Inl e, s) | r \<Rightarrow> r)"
  by (auto simp: transaction_def split: sum.split prod.split)

lemma bnd_ret [simp]: "bnd (ret x) f = f x"
  by (simp add: bnd_def ret_def)

lemma bnd_throw [simp]: "bnd (throw e) f = throw e"
  by (simp add: bnd_def throw_def)

lemma bnd_assoc: "bnd (bnd m f) g = bnd m (\<lambda>x. bnd (f x) g)"
  by (auto simp: bnd_def fun_eq_iff split: prod.splits sum.splits)

lemma bnd_run:
  "bnd m f s = (case m s of (Inl e, s') \<Rightarrow> (Inl e, s') | (Inr x, s') \<Rightarrow> f x s')"
  by (simp add: bnd_def)

lemma handle_run:
  "handle m h s = (case m s of (Inl e, s') \<Rightarrow> h e s' | (Inr x, s') \<Rightarrow> (Inr x, s'))"
  by (simp add: handle_def)

lemma finally_run:
  "finally_do m k s = (case m s of (r, s') \<Rightarrow>
     (case k s' of (Inl e, s'') \<Rightarrow> (Inl e, s'') | (Inr _, s'') \<Rightarrow> (r, s'')))"
  by (simp add: finally_do_def)

lemma ret_run [simp]: "ret x s = (Inr x, s)"
  by (simp add: ret_def)

lemma throw_run [simp]: "throw e s = (Inl e, s)"
  by (simp add: throw_def)

lemma reads_run [simp]: "reads f s = (Inr (f s), s)"
  by (simp add: reads_def)

lemma modify_run [simp]: "modify f s = (Inr (), f s)"
  by (simp add: modify_def)

lemma lift_sum_run [simp]: "lift_sum r s = (r, s)"
  by (simp add: lift_sum_def)

lemmas sx_run = bnd_run handle_run finally_run

text \<open>
  A relation between the states before and after. Every construct of the monad keeps a reflexive
  and transitive one, so a claim of the form ``whatever happens, the end state is related to the
  start state'' is proved statement by statement.
\<close>

definition keeps :: "('s \<Rightarrow> 's \<Rightarrow> bool) \<Rightarrow> ('e, 'a, 's) sx \<Rightarrow> bool" where
  "keeps R m \<longleftrightarrow> (\<forall>s. R s (snd (m s)))"

locale progress_order =
  fixes R :: "'s \<Rightarrow> 's \<Rightarrow> bool"
  assumes R_refl: "R s s" and R_trans: "R s t \<Longrightarrow> R t u \<Longrightarrow> R s u"
begin

lemma keeps_ret: "keeps R (ret x)"
  by (simp add: keeps_def R_refl)

lemma keeps_throw: "keeps R (throw e)"
  by (simp add: keeps_def R_refl)

lemma keeps_reads: "keeps R (reads f)"
  by (simp add: keeps_def R_refl)

lemma keeps_lift_sum: "keeps R (lift_sum r)"
  by (simp add: keeps_def R_refl)

lemma keeps_modify: "(\<And>s. R s (f s)) \<Longrightarrow> keeps R (modify f)"
  by (simp add: keeps_def)

lemma keeps_bnd:
  assumes "keeps R m" and "\<And>x. keeps R (f x)"
  shows "keeps R (bnd m f)"
  unfolding keeps_def
proof
  fix s
  show "R s (snd (bnd m f s))"
  proof (cases "m s")
    case (Pair r s')
    then have 1: "R s s'" using assms(1) by (auto simp: keeps_def dest: spec [of _ s])
    show ?thesis
    proof (cases r)
      case (Inl e)
      with Pair 1 show ?thesis by (simp add: bnd_run)
    next
      case (Inr x)
      with Pair have "snd (bnd m f s) = snd (f x s')" by (simp add: bnd_run)
      moreover have "R s' (snd (f x s'))" using assms(2) by (simp add: keeps_def)
      ultimately show ?thesis using 1 R_trans by metis
    qed
  qed
qed

lemma keeps_handle:
  assumes "keeps R m" and "\<And>e. keeps R (h e)"
  shows "keeps R (handle m h)"
  unfolding keeps_def
proof
  fix s
  show "R s (snd (handle m h s))"
  proof (cases "m s")
    case (Pair r s')
    then have 1: "R s s'" using assms(1) by (auto simp: keeps_def dest: spec [of _ s])
    show ?thesis
    proof (cases r)
      case (Inl e)
      with Pair have "snd (handle m h s) = snd (h e s')" by (simp add: handle_run)
      moreover have "R s' (snd (h e s'))" using assms(2) by (simp add: keeps_def)
      ultimately show ?thesis using 1 R_trans by metis
    next
      case (Inr x)
      with Pair 1 show ?thesis by (simp add: handle_run)
    qed
  qed
qed

lemma keeps_finally:
  assumes "keeps R m" and "keeps R k"
  shows "keeps R (finally_do m k)"
  unfolding keeps_def
proof
  fix s
  obtain r s' where m: "m s = (r, s')" by (cases "m s")
  obtain r2 s'' where k: "k s' = (r2, s'')" by (cases "k s'")
  have "R s s'" using assms(1) m by (auto simp: keeps_def dest: spec [of _ s])
  moreover have "R s' s''" using assms(2) k by (auto simp: keeps_def dest: spec [of _ s'])
  ultimately have "R s s''" by (rule R_trans)
  with m k show "R s (snd (finally_do m k s))"
    by (auto simp: finally_run split: sum.splits)
qed

lemma keeps_if: "(b \<Longrightarrow> keeps R m) \<Longrightarrow> (\<not> b \<Longrightarrow> keeps R n) \<Longrightarrow> keeps R (if b then m else n)"
  by simp

lemma keeps_case_option:
  "(x = None \<Longrightarrow> keeps R m) \<Longrightarrow> (\<And>y. x = Some y \<Longrightarrow> keeps R (f y)) \<Longrightarrow>
   keeps R (case x of None \<Rightarrow> m | Some y \<Rightarrow> f y)"
  by (cases x) auto

lemma keeps_case_list:
  "(x = [] \<Longrightarrow> keeps R m) \<Longrightarrow> (\<And>y ys. x = y # ys \<Longrightarrow> keeps R (f y ys)) \<Longrightarrow>
   keeps R (case x of [] \<Rightarrow> m | y # ys \<Rightarrow> f y ys)"
  by (cases x) auto

lemma keeps_case_prod:
  "(\<And>a b. x = (a, b) \<Longrightarrow> keeps R (f a b)) \<Longrightarrow> keeps R (case x of (a, b) \<Rightarrow> f a b)"
  by (cases x) auto

lemmas keeps_intros =
  keeps_ret keeps_throw keeps_reads keeps_lift_sum keeps_bnd keeps_handle keeps_finally
  keeps_if keeps_case_option keeps_case_list keeps_case_prod

end

end
