(* ===== verification/Js_Values.thy ===== *)
theory Js_Values
  imports Prelude
begin

text \<open>
  JavaScript values as the pipeline engine handles them: JSON values with \<open>undefined\<close>, and the
  operators of the language and its standard library that the engine applies to them (truthiness,
  strict equality, property reads and writes, spread, \<open>Number()\<close>, \<open>String()\<close>, \<open>Math.floor\<close>,
  the JSON round trip to the database and back). A finite number is a rational; rounding of doubles
  and the sign of zero are not modelled. A string is a list of code units below 256. An object is
  the list of its own properties in insertion order; the enumeration of integer-like keys before
  the others, and the members inherited from \<open>Object.prototype\<close>, are not modelled.
\<close>

section \<open>Values\<close>

datatype jnum = Fin rat | PosInf | NegInf | NaN

datatype jval =
    JUndef
  | JNull
  | JBool bool
  | JNum jnum
  | JStr string
  | JArr "jval list"
  | JObj "(string \<times> jval) list"

text \<open>\<open>JsonObject\<close>\<close>

type_synonym obj = "(string \<times> jval) list"

abbreviation jint :: "int \<Rightarrow> jval" where
  "jint n \<equiv> JNum (Fin (of_int n))"

abbreviation jnat :: "nat \<Rightarrow> jval" where
  "jnat n \<equiv> JNum (Fin (of_nat n))"

fun truthy :: "jval \<Rightarrow> bool" where
  "truthy JUndef = False"
| "truthy JNull = False"
| "truthy (JBool b) = b"
| "truthy (JNum (Fin q)) = (q \<noteq> 0)"
| "truthy (JNum NaN) = False"
| "truthy (JNum _) = True"
| "truthy (JStr s) = (s \<noteq> [])"
| "truthy (JArr _) = True"
| "truthy (JObj _) = True"

text \<open>\<open>value && typeof value === "object" && !Array.isArray(value)\<close>\<close>

fun plain_object :: "jval \<Rightarrow> obj option" where
  "plain_object (JObj o') = Some o'"
| "plain_object _ = None"

text \<open>\<open>a ?? b\<close>\<close>

fun nullish :: "jval \<Rightarrow> bool" where
  "nullish JUndef = True"
| "nullish JNull = True"
| "nullish _ = False"

definition coalesce :: "jval \<Rightarrow> jval \<Rightarrow> jval" where
  "coalesce a b = (if nullish a then b else a)"

text \<open>An optional field as the value its read gives.\<close>

definition or_undef :: "jval option \<Rightarrow> jval" where
  "or_undef x = (case x of None \<Rightarrow> JUndef | Some v \<Rightarrow> v)"

definition or_null :: "jval option \<Rightarrow> jval" where
  "or_null x = (case x of None \<Rightarrow> JNull | Some v \<Rightarrow> v)"

definition str_or_null :: "string option \<Rightarrow> jval" where
  "str_or_null x = (case x of None \<Rightarrow> JNull | Some s \<Rightarrow> JStr s)"

lemma or_null_simps [simp]: "or_null None = JNull" "or_null (Some v) = v"
  by (simp_all add: or_null_def)

lemma str_or_null_simps [simp]: "str_or_null None = JNull" "str_or_null (Some s) = JStr s"
  by (simp_all add: str_or_null_def)

section \<open>Properties\<close>

text \<open>\<open>o[k]\<close> for an object, \<open>undefined\<close> where there is no such property.\<close>

definition get :: "obj \<Rightarrow> string \<Rightarrow> jval" where
  "get ps k = (case map_of ps k of None \<Rightarrow> JUndef | Some v \<Rightarrow> v)"

lemma get_update_same [simp]: "get (AList.update k v ps) k = v"
  by (simp add: get_def)

lemma get_update_other [simp]: "j \<noteq> k \<Longrightarrow> get (AList.update k v ps) j = get ps j"
  by (simp add: get_def)

lemma get_Nil [simp]: "get [] k = JUndef"
  by (simp add: get_def)

lemma get_Cons [simp]: "get ((k, v) # ps) j = (if j = k then v else get ps j)"
  by (simp add: get_def)

text \<open>A property read that is applied to any value: \<open>undefined\<close> unless it is an object.\<close>

definition field :: "jval \<Rightarrow> string \<Rightarrow> jval" where
  "field v k = (case plain_object v of None \<Rightarrow> JUndef | Some ps \<Rightarrow> get ps k)"

lemma field_obj [simp]: "field (JObj ps) k = get ps k"
  by (simp add: field_def)

text \<open>\<open>{ ...a, ...b }\<close>\<close>

definition spread :: "obj \<Rightarrow> obj \<Rightarrow> obj" where
  "spread a b = overwrite a b"

lemma get_spread:
  "distinct (map fst b) \<Longrightarrow>
     get (spread a b) k = (case map_of b k of None \<Rightarrow> get a k | Some v \<Rightarrow> v)"
  by (simp add: spread_def get_def map_of_overwrite map_add_def split: option.splits)

text \<open>
  \<open>===\<close>: objects and arrays are compared by identity, and the two sides the engine compares
  never are the same object, so a comparison that meets one is false.
\<close>

fun strict_eq :: "jval \<Rightarrow> jval \<Rightarrow> bool" where
  "strict_eq JUndef JUndef = True"
| "strict_eq JNull JNull = True"
| "strict_eq (JBool a) (JBool b) = (a = b)"
| "strict_eq (JNum NaN) _ = False"
| "strict_eq (JNum a) (JNum b) = (a = b)"
| "strict_eq (JStr a) (JStr b) = (a = b)"
| "strict_eq _ _ = False"

lemma strict_eq_imp_eq: "strict_eq a b \<Longrightarrow> a = b"
  by (induction a b rule: strict_eq.induct) auto

section \<open>Numbers\<close>

text \<open>\<open>Math.floor\<close>\<close>

fun jfloor :: "jnum \<Rightarrow> jnum" where
  "jfloor (Fin q) = Fin (of_int \<lfloor>q\<rfloor>)"
| "jfloor n = n"

text \<open>The integer in a finite number that \<open>Math.floor\<close> gave, \<open>None\<close> for the others.\<close>

fun finite_floor :: "jnum \<Rightarrow> int option" where
  "finite_floor (Fin q) = Some \<lfloor>q\<rfloor>"
| "finite_floor _ = None"

definition is_space :: "char \<Rightarrow> bool" where
  "is_space c = (c \<in> set [CHR '' '', CHR 0x09, CHR 0x0A, CHR 0x0B, CHR 0x0C, CHR 0x0D, CHR 0xA0])"

text \<open>An optional string as a condition: absent and empty are false.\<close>

definition nonempty :: "string option \<Rightarrow> string option" where
  "nonempty x = (case x of None \<Rightarrow> None | Some s \<Rightarrow> if s = [] then None else Some s)"

text \<open>\<open>s.trim()\<close>\<close>

definition trim :: "string \<Rightarrow> string" where
  "trim s = rev (dropWhile is_space (rev (dropWhile is_space s)))"

definition is_digit :: "char \<Rightarrow> bool" where
  "is_digit c = (let n = of_char c :: nat in 48 \<le> n \<and> n \<le> 57)"

definition digit :: "char \<Rightarrow> nat" where
  "digit c = of_char c - 48"

fun digits_value :: "nat \<Rightarrow> nat \<Rightarrow> string \<Rightarrow> nat" where
  "digits_value base acc [] = acc"
| "digits_value base acc (c # cs) =
     digits_value base (base * acc +
       (let n = of_char c :: nat in
        if n \<le> 57 then n - 48 else if n \<le> 90 then n - 55 else n - 87)) cs"

definition radix_digits :: "nat \<Rightarrow> string \<Rightarrow> bool" where
  "radix_digits base s = (s \<noteq> [] \<and> list_all (\<lambda>c. let n = of_char c :: nat in
     (48 \<le> n \<and> n \<le> 57 \<and> n - 48 < base) \<or>
     (65 \<le> n \<and> n \<le> 70 \<and> n - 55 < base) \<or> (97 \<le> n \<and> n \<le> 102 \<and> n - 87 < base)) s)"

text \<open>The unsigned decimal literal: digits with an optional fraction and exponent.\<close>

definition unsigned_decimal :: "string \<Rightarrow> rat option" where
  "unsigned_decimal s =
     (let ip = takeWhile is_digit s; r1 = dropWhile is_digit s;
          dot = (case r1 of c # _ \<Rightarrow> c = CHR ''.'' | [] \<Rightarrow> False);
          fp = (if dot then takeWhile is_digit (tl r1) else []);
          r2 = (if dot then dropWhile is_digit (tl r1) else r1);
          ex = (case r2 of c # _ \<Rightarrow> c = CHR ''e'' \<or> c = CHR ''E'' | [] \<Rightarrow> False);
          r3 = (if ex then tl r2 else r2);
          neg = (case r3 of c # _ \<Rightarrow> ex \<and> c = CHR ''-'' | [] \<Rightarrow> False);
          pos = (case r3 of c # _ \<Rightarrow> ex \<and> c = CHR ''+'' | [] \<Rightarrow> False);
          r4 = (if neg \<or> pos then tl r3 else r3);
          mant = (of_nat (digits_value 10 0 (ip @ fp)) :: rat) / 10 ^ length fp
      in if ip = [] \<and> fp = [] then None
         else if ex then
           (if r4 \<noteq> [] \<and> list_all is_digit r4
            then Some (if neg then mant / 10 ^ digits_value 10 0 r4
                       else mant * 10 ^ digits_value 10 0 r4)
            else None)
         else if r2 = [] then Some mant else None)"

text \<open>\<open>Number(s)\<close> for a string: trimmed, empty is 0, then the numeric literal grammar.\<close>

definition number_of_string :: "string \<Rightarrow> jnum" where
  "number_of_string s0 =
     (let s = trim s0 in
      if s = [] then Fin 0
      else if take 2 s \<in> {''0x'', ''0X''} then
        (if radix_digits 16 (drop 2 s) then Fin (of_nat (digits_value 16 0 (drop 2 s))) else NaN)
      else if take 2 s \<in> {''0o'', ''0O''} then
        (if radix_digits 8 (drop 2 s) then Fin (of_nat (digits_value 8 0 (drop 2 s))) else NaN)
      else if take 2 s \<in> {''0b'', ''0B''} then
        (if radix_digits 2 (drop 2 s) then Fin (of_nat (digits_value 2 0 (drop 2 s))) else NaN)
      else
        (let neg = (hd s = CHR ''-''); t = (if hd s = CHR ''-'' \<or> hd s = CHR ''+'' then tl s else s)
         in if t = ''Infinity'' then (if neg then NegInf else PosInf)
            else (case unsigned_decimal t of
                    None \<Rightarrow> NaN | Some q \<Rightarrow> Fin (if neg then - q else q))))"

section \<open>Strings of values\<close>

fun nat_digits :: "nat \<Rightarrow> string" where
  "nat_digits n = (if n < 10 then [char_of (48 + n)]
                   else nat_digits (n div 10) @ [char_of (48 + n mod 10)])"

declare nat_digits.simps [simp del]

definition int_digits :: "int \<Rightarrow> string" where
  "int_digits n = (if n < 0 then CHR ''-'' # nat_digits (nat (- n)) else nat_digits (nat n))"

text \<open>The fraction digits of a terminating decimal, at most seventeen of them.\<close>

fun fraction_digits :: "nat \<Rightarrow> rat \<Rightarrow> string" where
  "fraction_digits 0 q = []"
| "fraction_digits (Suc k) q =
     (if q = 0 then [] else char_of (48 + nat \<lfloor>q * 10\<rfloor>) # fraction_digits k (q * 10 - of_int \<lfloor>q * 10\<rfloor>))"

definition rat_string :: "rat \<Rightarrow> string" where
  "rat_string q = (if q = of_int \<lfloor>q\<rfloor> then int_digits \<lfloor>q\<rfloor>
     else (if q < 0 then ''-'' else []) @ nat_digits (nat \<lfloor>\<bar>q\<bar>\<rfloor>) @ ''.'' @
          fraction_digits 17 (\<bar>q\<bar> - of_int \<lfloor>\<bar>q\<bar>\<rfloor>))"

fun num_string :: "jnum \<Rightarrow> string" where
  "num_string (Fin q) = rat_string q"
| "num_string PosInf = ''Infinity''"
| "num_string NegInf = ''-Infinity''"
| "num_string NaN = ''NaN''"

definition nat_string :: "nat \<Rightarrow> string" where
  "nat_string n = nat_digits n"

fun join :: "string \<Rightarrow> string list \<Rightarrow> string" where
  "join sep [] = []"
| "join sep [s] = s"
| "join sep (s # t # ts) = s @ sep @ join sep (t # ts)"

text \<open>\<open>String(v)\<close>; an array joins its elements with commas, nullish ones as the empty string.\<close>

fun js_string :: "jval \<Rightarrow> string" where
  "js_string JUndef = ''undefined''"
| "js_string JNull = ''null''"
| "js_string (JBool b) = (if b then ''true'' else ''false'')"
| "js_string (JNum n) = num_string n"
| "js_string (JStr s) = s"
| "js_string (JArr vs) = join '','' (map (\<lambda>v. if nullish v then [] else js_string v) vs)"
| "js_string (JObj _) = ''[object Object]''"

text \<open>\<open>Number(v)\<close>; an object converts through its string.\<close>

fun js_number :: "jval \<Rightarrow> jnum" where
  "js_number JUndef = NaN"
| "js_number JNull = Fin 0"
| "js_number (JBool b) = Fin (if b then 1 else 0)"
| "js_number (JNum n) = n"
| "js_number (JStr s) = number_of_string s"
| "js_number v = number_of_string (js_string v)"

text \<open>\<open>Math.floor(Number(v))\<close> when it is finite: the check every numeric setting goes through.\<close>

definition whole :: "jval \<Rightarrow> int option" where
  "whole v = finite_floor (js_number v)"

lemma whole_jint [simp]: "whole (jint n) = Some n"
  by (simp add: whole_def)

lemma whole_undef [simp]: "whole JUndef = None"
  by (simp add: whole_def)

section \<open>JSON\<close>

text \<open>
  \<open>JSON.parse(JSON.stringify(v))\<close>: undefined properties disappear, undefined elements and
  non-finite numbers become null. A top-level undefined has no text; the callers replace it first.
\<close>

fun json_copy :: "jval \<Rightarrow> jval" where
  "json_copy JUndef = JNull"
| "json_copy (JNum (Fin q)) = JNum (Fin q)"
| "json_copy (JNum _) = JNull"
| "json_copy (JArr vs) = JArr (map json_copy vs)"
| "json_copy (JObj ps) = JObj (map (\<lambda>(k, v). (k, json_copy v)) (filter (\<lambda>(k, v). v \<noteq> JUndef) ps))"
| "json_copy v = v"

text \<open>Values that the database returns as they were stored.\<close>

fun json_clean :: "jval \<Rightarrow> bool" where
  "json_clean JUndef = False"
| "json_clean (JNum (Fin q)) = True"
| "json_clean (JNum _) = False"
| "json_clean (JArr vs) = (\<forall>v \<in> set vs. json_clean v)"
| "json_clean (JObj ps) = (\<forall>(k, v) \<in> set ps. json_clean v)"
| "json_clean v = True"

lemma json_clean_copy: "json_clean v \<Longrightarrow> json_copy v = v"
proof (induction v rule: json_clean.induct)
  case (4 vs)
  then show ?case by (simp add: map_idI)
next
  case (5 ps)
  have "\<forall>p \<in> set ps. json_copy (snd p) = snd p \<and> snd p \<noteq> JUndef"
    using 5 by (fastforce split: prod.splits)
  then have "filter (\<lambda>(k, v). v \<noteq> JUndef) ps = ps"
    and "map (\<lambda>(k, v). (k, json_copy v)) ps = ps"
    by (auto intro!: filter_True map_idI split: prod.splits)
  then show ?case by simp
qed auto

lemma json_copy_clean: "json_clean (json_copy v)"
proof (induction v rule: json_copy.induct)
  case (5 ps)
  have "json_clean (json_copy v)" if "(k, v) \<in> set ps" "v \<noteq> JUndef" for k v
    using 5 that by fastforce
  then show ?case by auto
qed auto

lemma json_copy_idem [simp]: "json_copy (json_copy v) = json_copy v"
  by (rule json_clean_copy [OF json_copy_clean])

text \<open>\<open>JSON.stringify(v)\<close>, for the byte counts the event log keeps.\<close>

definition hex_digit :: "nat \<Rightarrow> char" where
  "hex_digit n = char_of (if n < 10 then 48 + n else 87 + n)"

definition escape_char :: "char \<Rightarrow> string" where
  "escape_char c =
     (let n = of_char c :: nat in
      if n = 34 then [CHR 0x5C, CHR 0x22]
      else if n = 92 then [CHR 0x5C, CHR 0x5C]
      else if n = 8 then CHR 0x5C # ''b'' else if n = 12 then CHR 0x5C # ''f''
      else if n = 10 then CHR 0x5C # ''n'' else if n = 13 then CHR 0x5C # ''r''
      else if n = 9 then CHR 0x5C # ''t''
      else if n < 32 then CHR 0x5C # ''u00'' @ [hex_digit (n div 16), hex_digit (n mod 16)]
      else [c])"

definition quote :: "string \<Rightarrow> string" where
  "quote s = [CHR 0x22] @ concat (map escape_char s) @ [CHR 0x22]"

fun stringify :: "jval \<Rightarrow> string" where
  "stringify JUndef = ''null''"
| "stringify JNull = ''null''"
| "stringify (JBool b) = (if b then ''true'' else ''false'')"
| "stringify (JNum (Fin q)) = rat_string q"
| "stringify (JNum _) = ''null''"
| "stringify (JStr s) = quote s"
| "stringify (JArr vs) = ''['' @ join '','' (map stringify vs) @ '']''"
| "stringify (JObj ps) = ''{'' @
     join '','' (map (\<lambda>(k, v). quote k @ '':'' @ stringify v) (filter (\<lambda>(k, v). v \<noteq> JUndef) ps)) @ ''}''"

text \<open>\<open>Buffer.byteLength(s, "utf8")\<close>: a code unit from 128 on takes two bytes.\<close>

definition utf8_bytes :: "string \<Rightarrow> nat" where
  "utf8_bytes s = sum_list (map (\<lambda>c. if (of_char c :: nat) < 128 then 1 else 2) s)"

section \<open>Text helpers\<close>

text \<open>\<open>s.split(c)\<close> on one separator character.\<close>

fun split_on :: "char \<Rightarrow> string \<Rightarrow> string list" where
  "split_on c [] = [[]]"
| "split_on c (x # xs) =
     (if x = c then [] # split_on c xs
      else (case split_on c xs of [] \<Rightarrow> [[x]] | p # ps \<Rightarrow> (x # p) # ps))"

lemma split_on_nonempty [simp]: "split_on c s \<noteq> []"
  by (induction s) (auto split: list.splits)

lemma split_on_no_sep: "c \<notin> set s \<Longrightarrow> split_on c s = [s]"
  by (induction s) auto

lemma split_on_append: "c \<notin> set a \<Longrightarrow> split_on c (a @ c # b) = a # split_on c b"
  by (induction a) auto

lemma split_on_pieces: "p \<in> set (split_on c s) \<Longrightarrow> c \<notin> set p"
  by (induction s arbitrary: p) (auto split: list.splits if_splits)

definition starts_with :: "string \<Rightarrow> string \<Rightarrow> bool" where
  "starts_with p s = (take (length p) s = p)"

text \<open>\<open>toLowerCase()\<close> on ASCII, and \<open>hay.includes(needle)\<close>, in SQL \<open>instr(hay, needle) > 0\<close>.\<close>

definition to_lower :: "string \<Rightarrow> string" where
  "to_lower s = map (\<lambda>c. let n = of_char c :: nat in if 65 \<le> n \<and> n \<le> 90 then char_of (n + 32) else c) s"

definition instr :: "string \<Rightarrow> string \<Rightarrow> bool" where
  "instr hay needle = list_ex (\<lambda>i. take (length needle) (drop i hay) = needle) [0..<Suc (length hay)]"

definition is_word :: "char \<Rightarrow> bool" where
  "is_word c = (let n = of_char c :: nat in
     (48 \<le> n \<and> n \<le> 57) \<or> (65 \<le> n \<and> n \<le> 90) \<or> (97 \<le> n \<and> n \<le> 122) \<or> n = 95)"

text \<open>\<open>s.replace(/[^a-zA-Z0-9_]+/g, "_")\<close>\<close>

function squash :: "string \<Rightarrow> string" where
  "squash [] = []"
| "squash (c # cs) = (if is_word c then c # squash cs
                      else CHR ''_'' # squash (dropWhile (\<lambda>d. \<not> is_word d) cs))"
  by pat_completeness auto
termination
  by (relation "measure length") (auto simp: le_imp_less_Suc length_dropWhile_le)

lemma squash_word: "list_all is_word (squash s)"
  by (induction s rule: squash.induct) (auto simp: is_word_def)

lemma squash_no_dot: "CHR ''.'' \<notin> set (squash s)"
  using squash_word [of s] by (auto simp: list_all_iff is_word_def dest!: bspec)

end
