(* ===== verification/Declarative.thy ===== *)
theory Declarative
  imports Js_Values
begin

text \<open>
  The declarative pipeline language of \<open>src/pipelines/declarative.ts\<close>: the step types, and the
  functions that read a step's input out of the run's state, write its output back, and decide
  whether it runs. Paths are dotted; the laws of reading and writing one are at the end.
\<close>

section \<open>Pipeline definitions\<close>

text \<open>\<open>SelectorSpec\<close>: a path, or an object with \<open>pick\<close> and \<open>value\<close>.\<close>

datatype selector =
    SelPath string
  | SelSpec (sel_pick: "(string \<times> string) list option") (sel_value: "obj option")

record condition =
  cond_path :: string
  cond_equals :: jval

text \<open>A setting that is a number or a path to one.\<close>

datatype num_or_path = NumLit jnum | NumPath string

datatype failure_policy = Fail | RecordError

text \<open>The fields every step type has.\<close>

record step_base =
  sb_id :: "string option"
  sb_name :: string
  sb_title :: "string option"
  sb_description :: "string option"
  sb_display :: "jval option"
  sb_input :: "selector option"
  sb_assign :: "string option"
  sb_when :: "condition option"

record child_spec =
  ch_pipeline :: string
  ch_version :: "jval option"
  ch_timeoutMs :: "jnum option"
  ch_failurePolicy :: "failure_policy option"

record block_spec =
  bl_block :: string
  bl_config :: "obj option"

record code_spec =
  co_function :: string
  co_activityWebhook :: "jval option"
  co_agentTools :: "(string \<times> string) list option"

record agent_spec =
  ag_prompt :: string
  ag_activityWebhook :: "jval option"
  ag_agent :: "string option"
  ag_model :: "string option"
  ag_directory :: "string option"
  ag_timeoutMs :: "num_or_path option"

record classifier_spec =
  cl_inputFunction :: "string option"
  cl_prompt :: string
  cl_provider :: "string option"
  cl_mode :: "string option"
  cl_questions :: "jval option"
  cl_failurePolicy :: "failure_policy option"
  cl_model :: "string option"
  cl_temperature :: "jnum option"
  cl_maxTokens :: "jnum option"
  cl_timeoutMs :: "num_or_path option"
  cl_retries :: "num_or_path option"

record loop_spec =
  lo_iterations :: "num_or_path option"
  lo_target :: "string option"
  lo_history :: "string option"
  lo_capture :: "(string \<times> string) list option"
  lo_counter :: "string option"

datatype parallel_policy = CollectErrors | FailFast

record parallel_spec =
  pa_source :: string
  pa_maxConcurrency :: "num_or_path option"
  pa_agentLaunchConcurrency :: "num_or_path option"
  pa_agentStartupRetries :: "num_or_path option"
  pa_agentStartupRetryBackoffMs :: "num_or_path option"
  pa_itemKey :: "string option"
  pa_itemInput :: "selector option"
  pa_failurePolicy :: "parallel_policy option"

text \<open>\<open>DeclarativeStep\<close>; only a loop and a parallel step hold other steps.\<close>

datatype dstep =
    PipelineStep (base: step_base) child_spec
  | BlockStep (base: step_base) block_spec
  | CodeStep (base: step_base) code_spec
  | AgentStep (base: step_base) agent_spec
  | ClassifierStep (base: step_base) classifier_spec
  | LoopStep (base: step_base) loop_spec "dstep list option"
  | ParallelStep (base: step_base) parallel_spec dstep

record pipeline =
  dp_enabled :: "bool option"
  dp_name :: string
  dp_description :: "string option"
  dp_version :: "jval option"
  dp_supersedes :: "string option"
  dp_defaultAgent :: "string option"
  dp_input :: "obj option"
  dp_steps :: "dstep list"

section \<open>Reading and writing the run's state\<close>

text \<open>\<open>assertObject\<close>: the message of the error, or the object.\<close>

definition assertObject :: "jval \<Rightarrow> string \<Rightarrow> string + obj" where
  "assertObject v label = (case plain_object v of
     None \<Rightarrow> Inl (label @ '' must be a JSON object'') | Some ps \<Rightarrow> Inr ps)"

definition objectOrWrapped :: "jval \<Rightarrow> obj" where
  "objectOrWrapped v = (case plain_object v of Some ps \<Rightarrow> ps | None \<Rightarrow> [(''value'', v)])"

definition normalize_path :: "string \<Rightarrow> string" where
  "normalize_path path = (if starts_with ''$.'' path then drop 2 path else path)"

fun follow :: "string list \<Rightarrow> jval \<Rightarrow> jval" where
  "follow [] v = v"
| "follow (k # ks) v = follow ks (case plain_object v of None \<Rightarrow> JUndef | Some ps \<Rightarrow> get ps k)"

definition resolvePath :: "obj \<Rightarrow> string \<Rightarrow> jval" where
  "resolvePath input path =
     (let normalized = normalize_path path in
      if normalized = ''$'' \<or> normalized = [] then JObj input
      else follow (split_on (CHR ''.'') normalized) (JObj input))"

fun set_parts :: "string list \<Rightarrow> jval \<Rightarrow> obj \<Rightarrow> obj" where
  "set_parts [] v cursor = cursor"
| "set_parts [k] v cursor = AList.update k v cursor"
| "set_parts (k # k' # ks) v cursor =
     AList.update k (JObj (set_parts (k' # ks) v
       (case plain_object (get cursor k) of None \<Rightarrow> [] | Some ps \<Rightarrow> ps))) cursor"

definition setPath :: "obj \<Rightarrow> string \<Rightarrow> jval \<Rightarrow> string + obj" where
  "setPath target path v =
     (let parts = filter (\<lambda>p. p \<noteq> []) (split_on (CHR ''.'') (normalize_path path)) in
      if parts = [] then Inl ''assign path cannot be root''
      else Inr (set_parts parts v target))"

definition selectInput :: "obj \<Rightarrow> selector option \<Rightarrow> obj" where
  "selectInput input sel = (case sel of
     None \<Rightarrow> input
   | Some (SelPath p) \<Rightarrow> if p = [] then input else objectOrWrapped (resolvePath input p)
   | Some (SelSpec pick val) \<Rightarrow>
       (case val of Some v \<Rightarrow> v
        | None \<Rightarrow> (case pick of
            Some kps \<Rightarrow> fold (\<lambda>(k, p) out. AList.update k (resolvePath input p) out) kps []
          | None \<Rightarrow> input)))"

text \<open>\<open>assignOutput\<close>; a missing or empty \<open>assign\<close> replaces the state by the result.\<close>

definition assignOutput :: "obj \<Rightarrow> obj \<Rightarrow> string option \<Rightarrow> string + obj" where
  "assignOutput input result assign = (case assign of
     None \<Rightarrow> Inr result
   | Some p \<Rightarrow> if p = [] then Inr result else setPath input p (JObj result))"

definition shouldRunStep :: "obj \<Rightarrow> condition option \<Rightarrow> bool" where
  "shouldRunStep input c = (case c of
     None \<Rightarrow> True | Some cd \<Rightarrow> strict_eq (resolvePath input (cond_path cd)) (cond_equals cd))"

section \<open>Laws of paths\<close>

lemma follow_append: "follow (ks @ ls) v = follow ls (follow ks v)"
  by (induction ks arbitrary: v) auto

lemma follow_undef [simp]: "follow ks JUndef = JUndef"
  by (induction ks) auto

lemma follow_set_parts [path_simps]:
  "ks \<noteq> [] \<Longrightarrow> follow ks (JObj (set_parts ks v ps)) = v"
  by (induction ks v ps rule: set_parts.induct) auto

lemma set_parts_set_parts [path_simps]:
  "set_parts ks w (set_parts ks v ps) = set_parts ks w ps"
  by (induction ks v ps rule: set_parts.induct) (auto simp: update_triv AList.update_last)

text \<open>Two paths neither of which is a prefix of the other part at some segment.\<close>

fun fork :: "string list \<Rightarrow> string list \<Rightarrow> bool" where
  "fork (k # ks) (l # ls) = (k \<noteq> l \<or> fork ks ls)"
| "fork _ _ = False"

lemma follow_set_parts_fork [path_simps]:
  "fork ks ls \<Longrightarrow> follow ls (JObj (set_parts ks v ps)) = follow ls (JObj ps)"
proof (induction ks v ps arbitrary: ls rule: set_parts.induct)
  case (2 k v cursor)
  then show ?case by (cases ls) auto
next
  case (3 k k' ks v cursor)
  obtain l ls' where ls: "ls = l # ls'" using 3(2) by (cases ls) auto
  show ?case
  proof (cases "k = l")
    case True
    with 3(2) ls have f: "fork (k' # ks) ls'" by simp
    then obtain m ms where ls': "ls' = m # ms" by (cases ls') auto
    let ?inner = "case plain_object (get cursor k) of None \<Rightarrow> [] | Some ps \<Rightarrow> ps"
    have "follow ls' (JObj (set_parts (k' # ks) v ?inner)) = follow ls' (JObj ?inner)"
      by (rule 3(1) [OF f])
    also have "\<dots> = follow ls' (get cursor k)"
      using ls' by (auto split: option.splits)
    finally show ?thesis using True ls by simp
  next
    case False
    then show ?thesis using ls by simp
  qed
qed auto

text \<open>
  A path that names a position below the root and is read as it is written: no empty segment,
  and not the bare root sign.
\<close>

definition proper_path :: "string \<Rightarrow> bool" where
  "proper_path path \<longleftrightarrow>
     normalize_path path \<noteq> ''$'' \<and> [] \<notin> set (split_on (CHR ''.'') (normalize_path path))"

definition segments :: "string \<Rightarrow> string list" where
  "segments path = split_on (CHR ''.'') (normalize_path path)"

lemma segments_nonempty [simp]: "segments path \<noteq> []"
  by (simp add: segments_def)

lemma resolvePath_proper:
  assumes "proper_path path"
  shows "resolvePath input path = follow (segments path) (JObj input)"
proof -
  have "normalize_path path \<noteq> []"
    using assms by (auto simp: proper_path_def)
  then show ?thesis
    using assms by (simp add: resolvePath_def proper_path_def segments_def Let_def)
qed

lemma setPath_proper:
  assumes "proper_path path"
  shows "setPath target path v = Inr (set_parts (segments path) v target)"
proof -
  have "filter (\<lambda>p. p \<noteq> []) (segments path) = segments path"
    using assms by (auto intro!: filter_True simp: proper_path_def segments_def)
  then show ?thesis by (simp add: setPath_def segments_def [symmetric] Let_def)
qed

lemma proper_path_nonempty: "proper_path path \<Longrightarrow> path \<noteq> []"
  by (auto simp: proper_path_def normalize_path_def starts_with_def)

lemma assignOutput_proper:
  "proper_path path \<Longrightarrow> assignOutput input result (Some path) =
     Inr (set_parts (segments path) (JObj result) input)"
  by (simp add: assignOutput_def proper_path_nonempty setPath_proper)

text \<open>
  The contract of a position in a state: what is read after a write there, after a second write,
  and at a position apart from it. The loop lemmas rest on it; dotted paths provide it.
\<close>

locale position =
  fixes rd :: "'p \<Rightarrow> 's \<Rightarrow> 'v" and wr :: "'p \<Rightarrow> 'v \<Rightarrow> 's \<Rightarrow> 's"
    and ok :: "'p \<Rightarrow> bool" and apart :: "'p \<Rightarrow> 'p \<Rightarrow> bool"
  assumes rd_wr: "ok p \<Longrightarrow> rd p (wr p v s) = v"
    and wr_wr: "wr p w (wr p v s) = wr p w s"
    and rd_wr_apart: "apart p q \<Longrightarrow> rd q (wr p v s) = rd q s"
begin

lemma rd_fold_wr_apart:
  "(\<And>i. i \<in> set is \<Longrightarrow> apart (f i) q) \<Longrightarrow> rd q (fold (\<lambda>i s. wr (f i) (g i) s) is s) = rd q s"
  by (induction "is" arbitrary: s) (auto simp: rd_wr_apart)

lemma rd_last_wr:
  "ok p \<Longrightarrow> is \<noteq> [] \<Longrightarrow> rd p (fold (\<lambda>i s. wr p (g i) s) is s) = g (last is)"
  by (induction "is" arbitrary: s rule: rev_induct) (auto simp: rd_wr)

lemma fold_wr_same:
  "is \<noteq> [] \<Longrightarrow> fold (\<lambda>i s. wr p (g i) s) is s = wr p (g (last is)) s"
proof (induction "is" arbitrary: s rule: rev_induct)
  case (snoc x xs)
  then show ?case by (cases "xs = []") (simp_all add: wr_wr)
qed simp

end

interpretation path_pos: position
  "\<lambda>ks s. follow ks (JObj s)" "\<lambda>ks v s. set_parts ks v s" "\<lambda>ks. ks \<noteq> []" fork
  by unfold_locales (auto simp: path_simps)

section \<open>Well-formed objects\<close>

text \<open>
  The type invariant of the encoding: no object anywhere in the value has two entries for one key, as
  in an object of the program. The operations on the state keep it.
\<close>

fun wf_jval :: "jval \<Rightarrow> bool" where
  "wf_jval (JArr vs) = (\<forall>v \<in> set vs. wf_jval v)"
| "wf_jval (JObj ps) = (distinct (map fst ps) \<and> (\<forall>(k, v) \<in> set ps. wf_jval v))"
| "wf_jval _ = True"

abbreviation wf_obj :: "obj \<Rightarrow> bool" where
  "wf_obj ps \<equiv> wf_jval (JObj ps)"

lemma wf_get: "wf_obj ps \<Longrightarrow> wf_jval (get ps k)"
  by (auto simp: get_def split: option.splits dest: map_of_SomeD)

lemma set_update_subset: "set (AList.update k v ps) \<subseteq> insert (k, v) (set ps)"
  by (induction ps) auto

lemma wf_update: "wf_obj ps \<Longrightarrow> wf_jval v \<Longrightarrow> wf_obj (AList.update k v ps)"
  using set_update_subset [of k v ps] by fastforce

lemma wf_follow: "wf_jval v \<Longrightarrow> wf_jval (follow ks v)"
  by (induction ks arbitrary: v)
    (auto split: option.splits elim!: plain_object.elims simp: wf_get simp del: wf_jval.simps(2))

lemma wf_set_parts: "wf_obj ps \<Longrightarrow> wf_jval v \<Longrightarrow> wf_obj (set_parts ks v ps)"
proof (induction ks v ps rule: set_parts.induct)
  case (3 k k' ks v cursor)
  have "wf_obj (case plain_object (get cursor k) of None \<Rightarrow> [] | Some ps \<Rightarrow> ps)"
    using wf_get [OF 3(2), of k] by (cases "get cursor k") auto
  with 3 show ?case by (simp add: wf_update del: wf_jval.simps(2))
qed (auto intro: wf_update simp del: wf_jval.simps(2))

lemma wf_resolvePath: "wf_obj input \<Longrightarrow> wf_jval (resolvePath input p)"
  by (simp add: resolvePath_def Let_def wf_follow del: wf_jval.simps(2))

lemma wf_objectOrWrapped: "wf_jval v \<Longrightarrow> wf_obj (objectOrWrapped v)"
  by (cases v) (auto simp: objectOrWrapped_def)

lemma wf_assignOutput:
  "wf_obj input \<Longrightarrow> wf_obj result \<Longrightarrow> assignOutput input result a = Inr out \<Longrightarrow> wf_obj out"
  by (auto simp: assignOutput_def setPath_def Let_def wf_set_parts
      split: option.splits if_splits simp del: wf_jval.simps(2))

lemma wf_selectInput:
  assumes "wf_obj input"
    and "\<And>pick val. sel = Some (SelSpec pick (Some val)) \<Longrightarrow> wf_obj val"
  shows "wf_obj (selectInput input sel)"
proof -
  have pick: "wf_obj (fold (\<lambda>(k, p) out. AList.update k (resolvePath input p) out) kps out)"
    if "wf_obj out" for kps out
    using that by (induction kps arbitrary: out)
      (auto simp: wf_update wf_resolvePath [OF assms(1)] simp del: wf_jval.simps(2))
  have "wf_obj []" by simp
  from pick [OF this] show ?thesis
    using assms
    by (auto simp: selectInput_def wf_objectOrWrapped wf_resolvePath
        split: option.splits selector.splits simp del: wf_jval.simps(2))
qed

end
