(* ===== verification/Step_Metadata.thy ===== *)
theory Step_Metadata
  imports Declarative
begin

text \<open>
  What a step record keeps of its definition (\<open>src/pipelines/pipeline-step-metadata.ts\<close>) and the
  domain verdict a completed step publishes (\<open>src/pipelines/pipeline-control-flow.ts\<close>).
\<close>

section \<open>Definitions as JSON\<close>

definition paths_json :: "(string \<times> string) list \<Rightarrow> jval" where
  "paths_json kps = JObj (map (\<lambda>(k, p). (k, JStr p)) kps)"

fun selector_json :: "selector \<Rightarrow> jval" where
  "selector_json (SelPath p) = JStr p"
| "selector_json (SelSpec pick val) = JObj
     ((case pick of None \<Rightarrow> [] | Some kps \<Rightarrow> [(''pick'', paths_json kps)]) @
      (case val of None \<Rightarrow> [] | Some v \<Rightarrow> [(''value'', JObj v)]))"

definition condition_json :: "condition \<Rightarrow> jval" where
  "condition_json c = JObj [(''path'', JStr (cond_path c)), (''equals'', cond_equals c)]"

fun setting_json :: "num_or_path \<Rightarrow> jval" where
  "setting_json (NumLit n) = JNum n"
| "setting_json (NumPath p) = JStr p"

fun policy_json :: "failure_policy \<Rightarrow> jval" where
  "policy_json Fail = JStr ''fail''"
| "policy_json RecordError = JStr ''record_error''"

fun parallel_policy_json :: "parallel_policy \<Rightarrow> jval" where
  "parallel_policy_json CollectErrors = JStr ''collect_errors''"
| "parallel_policy_json FailFast = JStr ''fail_fast''"

definition opt_json :: "('a \<Rightarrow> jval) \<Rightarrow> 'a option \<Rightarrow> jval" where
  "opt_json f x = or_null (map_option f x)"

lemma opt_json_simps [simp]: "opt_json f None = JNull" "opt_json f (Some a) = f a"
  by (simp_all add: opt_json_def)

text \<open>\<open>compactObject\<close>: the entries that are not undefined.\<close>

definition compactObject :: "obj \<Rightarrow> obj" where
  "compactObject ps = filter (\<lambda>(k, v). v \<noteq> JUndef) ps"

fun step_type :: "dstep \<Rightarrow> string" where
  "step_type (PipelineStep _ _) = ''pipeline''"
| "step_type (BlockStep _ _) = ''block''"
| "step_type (CodeStep _ _) = ''code''"
| "step_type (AgentStep _ _) = ''agent''"
| "step_type (ClassifierStep _ _) = ''classifier''"
| "step_type (LoopStep _ _ _) = ''loop''"
| "step_type (ParallelStep _ _ _) = ''parallel''"

fun step_webhook :: "dstep \<Rightarrow> jval option" where
  "step_webhook (CodeStep _ s) = co_activityWebhook s"
| "step_webhook (AgentStep _ s) = ag_activityWebhook s"
| "step_webhook _ = None"

fun step_agentTools :: "dstep \<Rightarrow> (string \<times> string) list option" where
  "step_agentTools (CodeStep _ s) = co_agentTools s"
| "step_agentTools _ = None"

section \<open>Metadata\<close>

function buildExecutorMetadata :: "dstep \<Rightarrow> obj" and summarizeChildStep :: "dstep \<Rightarrow> obj" where
  "buildExecutorMetadata (PipelineStep b s) =
     [(''kind'', JStr ''pipeline''), (''target'', JStr (ch_pipeline s)),
      (''version'', or_null (ch_version s)), (''timeoutMs'', opt_json JNum (ch_timeoutMs s)),
      (''failurePolicy'', policy_json (case ch_failurePolicy s of None \<Rightarrow> Fail | Some p \<Rightarrow> p))]"
| "buildExecutorMetadata (CodeStep b s) =
     compactObject [(''kind'', JStr ''function''), (''function'', JStr (co_function s))]"
| "buildExecutorMetadata (AgentStep b s) =
     compactObject [(''kind'', JStr ''agent''), (''agent'', str_or_null (ag_agent s)),
       (''model'', str_or_null (ag_model s)), (''directory'', str_or_null (ag_directory s)),
       (''timeoutMs'', opt_json setting_json (ag_timeoutMs s)), (''prompt'', JStr (ag_prompt s))]"
| "buildExecutorMetadata (ClassifierStep b s) =
     compactObject [(''kind'', JStr ''classifier''),
       (''provider'', JStr (case cl_provider s of None \<Rightarrow> ''openrouter'' | Some p \<Rightarrow> p)),
       (''mode'', JStr (case cl_mode s of None \<Rightarrow> ''chat-json'' | Some m \<Rightarrow> m)),
       (''model'', str_or_null (cl_model s)),
       (''timeoutMs'', opt_json setting_json (cl_timeoutMs s)),
       (''retries'', opt_json setting_json (cl_retries s)),
       (''failurePolicy'', policy_json (case cl_failurePolicy s of None \<Rightarrow> Fail | Some p \<Rightarrow> p)),
       (''questions'', or_null (cl_questions s)), (''prompt'', JStr (cl_prompt s))]"
| "buildExecutorMetadata (BlockStep b s) =
     compactObject [(''kind'', JStr ''block''), (''block'', JStr (bl_block s)),
       (''config'', opt_json JObj (bl_config s))]"
| "buildExecutorMetadata (LoopStep b s steps) =
     compactObject [(''kind'', JStr ''loop''),
       (''iterations'', opt_json setting_json (lo_iterations s)),
       (''target'', str_or_null (lo_target s)), (''history'', str_or_null (lo_history s)),
       (''capture'', opt_json paths_json (lo_capture s)),
       (''counter'', str_or_null (lo_counter s)),
       (''nestedStepCount'', jnat (case steps of None \<Rightarrow> 0 | Some ss \<Rightarrow> length ss))]"
| "buildExecutorMetadata (ParallelStep b s child) =
     compactObject [(''kind'', JStr ''parallel''), (''source'', JStr (pa_source s)),
       (''itemKey'', str_or_null (pa_itemKey s)),
       (''itemInput'', opt_json selector_json (pa_itemInput s)),
       (''maxConcurrency'', opt_json setting_json (pa_maxConcurrency s)),
       (''agentLaunchConcurrency'', opt_json setting_json (pa_agentLaunchConcurrency s)),
       (''agentStartupRetries'', opt_json setting_json (pa_agentStartupRetries s)),
       (''agentStartupRetryBackoffMs'', opt_json setting_json (pa_agentStartupRetryBackoffMs s)),
       (''failurePolicy'', opt_json parallel_policy_json (pa_failurePolicy s)),
       (''childStep'', JObj (summarizeChildStep child))]"
| "summarizeChildStep step =
     compactObject [(''definitionStepId'', str_or_null (sb_id (base step))),
       (''name'', JStr (sb_name (base step))),
       (''description'', str_or_null (sb_description (base step))),
       (''display'', or_null (sb_display (base step))), (''type'', JStr (step_type step)),
       (''input'', opt_json selector_json (sb_input (base step))),
       (''assign'', str_or_null (sb_assign (base step))),
       (''executor'', JObj (buildExecutorMetadata step))]"
  by pat_completeness auto
termination
  by (relation "measure (case_sum (\<lambda>s. 2 * size s) (\<lambda>s. 2 * size s + 1))") auto

definition buildPipelineStepMetadata :: "dstep \<Rightarrow> selector option \<Rightarrow> obj option \<Rightarrow> obj" where
  "buildPipelineStepMetadata step inputSelector parent =
     (let b = base step;
          sel = (case inputSelector of Some s \<Rightarrow> Some s | None \<Rightarrow> sb_input b)
      in compactObject
       [(''definitionStepId'', str_or_null (sb_id b)), (''name'', JStr (sb_name b)),
        (''title'', JStr (case sb_title b of None \<Rightarrow> sb_name b | Some t \<Rightarrow> t)),
        (''description'', str_or_null (sb_description b)), (''display'', or_null (sb_display b)),
        (''type'', JStr (step_type step)), (''input'', opt_json selector_json sel),
        (''assign'', str_or_null (sb_assign b)), (''when'', opt_json condition_json (sb_when b)),
        (''activityWebhook'', or_null (step_webhook step)),
        (''agentTools'', opt_json paths_json (step_agentTools step)),
        (''parent'', opt_json JObj parent), (''executor'', JObj (buildExecutorMetadata step))])"

lemma map_of_compactObject:
  "distinct (map fst ps) \<Longrightarrow> get (compactObject ps) k = get ps k"
proof (induction ps)
  case (Cons p ps)
  obtain j v where p: "p = (j, v)" by (cases p)
  show ?case
  proof (cases "v = JUndef \<and> j = k")
    case True
    with Cons p have "map_of ps k = None" by (auto simp: map_of_eq_None_iff)
    then have "get (compactObject ps) k = JUndef"
      using Cons p by (simp add: get_def)
    with True p show ?thesis by (simp add: compactObject_def)
  next
    case False
    with Cons p show ?thesis by (auto simp: compactObject_def)
  qed
qed (simp add: compactObject_def)

lemma metadata_parent:
  "get (buildPipelineStepMetadata step sel (Some par)) ''parent'' = JObj par"
  by (simp add: buildPipelineStepMetadata_def Let_def map_of_compactObject)

lemma metadata_no_parent:
  "get (buildPipelineStepMetadata step sel None) ''parent'' = JNull"
  by (simp add: buildPipelineStepMetadata_def Let_def map_of_compactObject)

section \<open>Domain verdicts\<close>

text \<open>
  \<open>pipelineControlFlow\<close>. The reads \<open>output.retrieval\<close> and \<open>nested?.retrieval\<close> are of any
  value; a property read of a candidate that is no object gives undefined, so no verdict.
\<close>

definition pipelineControlFlow :: "obj option \<Rightarrow> obj option" where
  "pipelineControlFlow output = (case output of
     None \<Rightarrow> None
   | Some out \<Rightarrow>
      (let nested = get out ''current'';
           candidate = coalesce (coalesce (get out ''retrieval'') (field nested ''retrieval'')) (JObj out)
       in (case (field candidate ''verdict'', field candidate ''reason'') of
             (JStr verdict, JStr reason) \<Rightarrow>
               (let r = (if reason = [] then JNull else JStr reason) in
                Some [(''verdict'', JStr verdict), (''reason'', JStr reason),
                      (''attempt'', coalesce (field candidate ''attempt'') JNull),
                      (''continuationReason'', if verdict = ''running'' then r else JNull),
                      (''exitReason'', if verdict \<noteq> ''running'' then r else JNull)])
           | _ \<Rightarrow> None)))"

lemma control_flow_exclusive:
  "pipelineControlFlow output = Some cf \<Longrightarrow>
     get cf ''continuationReason'' = JNull \<or> get cf ''exitReason'' = JNull"
  by (auto simp: pipelineControlFlow_def Let_def split: option.splits jval.splits prod.splits)

end
