(* ===== verification/Pipeline_Store.thy ===== *)
theory Pipeline_Store
  imports Step_Metadata "HOL-Library.Sublist"
begin

text \<open>
  The pipeline database of \<open>src/pipelines/pipeline-store.ts\<close>: runs, steps, events and callbacks,
  with one definition per statement group of \<open>PipelineStore\<close>. A table is the list of its rows in
  insertion order; a text column that holds JSON is the value its decoding gives. Identifiers
  drawn from \<open>crypto.randomUUID()\<close> are naturals from a counter, their text the decimal numeral;
times are milliseconds read from a clock that only the environment advances. Redaction
  (\<open>pipeline-evidence-redaction.ts\<close>, with the flag that it changed something) and the digest of
  \<open>node:crypto\<close> are functions carried by the store; of the evidence log the reference rows are
  kept.
\<close>

section \<open>Rows\<close>

type_synonym uuid = nat

datatype scope = Shared | User

datatype step_kind = KCode | KAgent | KClassifier | KLoop | KBlock | KParallel | KPipeline

datatype status = Queued | Running | Ok | NeedsInput | Errored | Skipped | Cancelled

record run_row =
  r_id :: uuid
  r_definitionId :: string
  r_definitionPath :: "string option"
  r_name :: string
  r_status :: status
  r_ownerNpub :: "string option"
  r_ownerAlias :: "string option"
  r_scope :: scope
  r_input :: obj
  r_current :: obj
  r_cursorIndex :: nat
  r_activeStepId :: "uuid option"
  r_result :: "obj option"
  r_error :: "string option"
  r_startedAt :: nat
  r_completedAt :: "nat option"

record step_row =
  st_id :: uuid
  st_runId :: uuid
  st_stepIndex :: nat
  st_name :: string
  st_kind :: step_kind
  st_status :: status
  st_input :: obj
  st_result :: "obj option"
  st_error :: "string option"
  st_wingmanSessionId :: "string option"
  st_parentStepId :: "uuid option"
  st_logicalKey :: "string option"
  st_callbackToken :: "string option"
  st_output :: "obj option"
  st_metadata :: "obj option"
  st_startedAt :: nat
  st_completedAt :: "nat option"

datatype level = Debug | Info | Warn | ErrorLevel

record event_row =
  e_id :: uuid
  e_runId :: "uuid option"
  e_stepId :: "uuid option"
  e_ts :: nat
  e_level :: level
  e_type :: string
  e_message :: "string option"
  e_data :: obj

record callback_row =
  cb_id :: uuid
  cb_stepId :: uuid
  cb_receivedAt :: nat
  cb_accepted :: bool
  cb_payload :: obj
  cb_error :: "string option"

datatype evidence_kind =
  ResolvedInput | ExecutorRequest | ReturnedOutput | StateWrite | SideEffectConfirmation

record evidence_row =
  ev_runId :: uuid
  ev_stepId :: uuid
  ev_attempt :: nat
  ev_kind :: evidence_kind
  ev_scope :: string
  ev_value :: jval

record learning_row =
  le_key :: "string \<times> string \<times> string"
  le_inputHash :: string
  le_runId :: "uuid option"
  le_createdAt :: nat

record decision_row =
  de_sourceMessageId :: string
  de_agentNpub :: string
  de_status :: string
  de_runId :: "uuid option"
  de_evidence :: obj
  de_createdAt :: nat
  de_updatedAt :: nat

text \<open>A pinned definition with its context, and the link of a child run to its parent's step.\<close>

record definition_record =
  pd_id :: string
  pd_slug :: string
  pd_name :: string
  pd_scope :: scope
  pd_ownerAlias :: "string option"
  pd_path :: string
  pd_spec :: pipeline

record block_expansion =
  bx_scratchPath :: string
  bx_inputPath :: string
  bx_outputPath :: string
  bx_steps :: "dstep list"

record run_context =
  cx_blockExpansions :: "(string \<times> block_expansion) list"
  cx_functionHashes :: "(string \<times> string) list option"
  cx_initiatingAgentProfileId :: "string option"
  cx_initiatingAgentNpub :: "string option"

record snapshot_row =
  sn_runId :: uuid
  sn_definition :: definition_record
  sn_context :: run_context

record child_link =
  lk_parentRunId :: uuid
  lk_parentStepId :: uuid
  lk_childRunId :: uuid
  lk_deadline :: nat

record pstore =
  db_runs :: "run_row list"
  db_steps :: "step_row list"
  db_events :: "event_row list"
  db_callbacks :: "callback_row list"
  db_evidence :: "evidence_row list"
  db_learning :: "learning_row list"
  db_decisions :: "decision_row list"
  db_snapshots :: "snapshot_row list"
  db_links :: "child_link list"
  db_nextId :: uuid
  db_clock :: nat
  db_secrets :: "string list"
  db_redact :: "string list \<Rightarrow> jval \<Rightarrow> jval \<times> bool"
  db_digest :: "string \<Rightarrow> string"

definition uuid_text :: "uuid \<Rightarrow> string" where
  "uuid_text u = nat_string u"

definition fresh_uuid :: "pstore \<Rightarrow> uuid \<times> pstore" where
  "fresh_uuid s = (db_nextId s, s\<lparr>db_nextId := Suc (db_nextId s)\<rparr>)"

section \<open>Columns that hold JSON\<close>

text \<open>\<open>decodeJsonObject(encodeJson(o))\<close>\<close>

definition stored :: "obj \<Rightarrow> obj" where
  "stored ps = map (\<lambda>(k, v). (k, json_copy v)) (filter (\<lambda>(k, v). v \<noteq> JUndef) ps)"

lemma stored_json_copy: "JObj (stored ps) = json_copy (JObj ps)"
  by (simp add: stored_def)

lemma stored_stored [simp]: "stored (stored ps) = stored ps"
  using json_copy_idem [of "JObj ps"] by (simp only: stored_json_copy [symmetric] jval.inject)

lemma stored_clean: "json_clean (JObj ps) \<Longrightarrow> stored ps = ps"
  using json_clean_copy [of "JObj ps"] stored_json_copy [of ps] by simp

definition jsonByteLength :: "obj \<Rightarrow> nat" where
  "jsonByteLength ps = utf8_bytes (stringify (JObj ps))"

text \<open>\<open>this.evidence.sanitize(value, secrets)\<close> with the secrets the process has registered.\<close>

definition sanitize :: "pstore \<Rightarrow> string list \<Rightarrow> jval \<Rightarrow> jval" where
  "sanitize s extra v = fst (db_redact s (db_secrets s @ extra) v)"

definition sanitize_text :: "pstore \<Rightarrow> string list \<Rightarrow> string option \<Rightarrow> string option" where
  "sanitize_text s extra t = (case t of None \<Rightarrow> None
     | Some x \<Rightarrow> (case sanitize s extra (JStr x) of JStr y \<Rightarrow> Some y | _ \<Rightarrow> None))"

definition sanitize_obj :: "pstore \<Rightarrow> string list \<Rightarrow> obj \<Rightarrow> obj" where
  "sanitize_obj s extra ps = (case sanitize s extra (JObj ps) of JObj qs \<Rightarrow> qs | _ \<Rightarrow> [])"

section \<open>Reads\<close>

definition getRun :: "pstore \<Rightarrow> uuid \<Rightarrow> run_row option" where
  "getRun s i = row r_id i (db_runs s)"

definition getStep :: "pstore \<Rightarrow> uuid \<Rightarrow> step_row option" where
  "getStep s i = row st_id i (db_steps s)"

definition listSteps :: "pstore \<Rightarrow> uuid \<Rightarrow> step_row list" where
  "listSteps s i = sort_key st_stepIndex (filter (\<lambda>st. st_runId st = i) (db_steps s))"

definition listChildSteps :: "pstore \<Rightarrow> uuid \<Rightarrow> step_row list" where
  "listChildSteps s i = sort_key st_stepIndex (filter (\<lambda>st. st_parentStepId st = Some i) (db_steps s))"

definition listRunningRuns :: "pstore \<Rightarrow> run_row list" where
  "listRunningRuns s = sort_key r_startedAt (filter (\<lambda>r. r_status r = Running) (db_runs s))"

definition listEvents :: "pstore \<Rightarrow> uuid \<Rightarrow> event_row list" where
  "listEvents s i = sort_key e_ts (filter (\<lambda>e. e_runId e = Some i) (db_events s))"

definition listEventsForStep :: "pstore \<Rightarrow> uuid \<Rightarrow> event_row list" where
  "listEventsForStep s i = sort_key e_ts (filter (\<lambda>e. e_stepId e = Some i) (db_events s))"

definition listCallbacksForStep :: "pstore \<Rightarrow> uuid \<Rightarrow> callback_row list" where
  "listCallbacksForStep s i = sort_key cb_receivedAt (filter (\<lambda>c. cb_stepId c = i) (db_callbacks s))"

text \<open>\<open>listRuns\<close>: newest first, an owner's own runs and, when asked, the shared ones.\<close>

definition newest_first :: "run_row list \<Rightarrow> run_row list" where
  "newest_first rs = sort_key (\<lambda>r. - int (r_startedAt r)) rs"

definition listRuns :: "pstore \<Rightarrow> string option \<Rightarrow> bool \<Rightarrow> nat option \<Rightarrow> run_row list" where
  "listRuns s ownerNpub includeShared limit =
     take (case limit of None \<Rightarrow> 100 | Some l \<Rightarrow> l) (newest_first
       (case ownerNpub of
          Some owner \<Rightarrow> if owner \<noteq> []
            then filter (\<lambda>r. r_ownerNpub r = Some owner \<or> (includeShared \<and> r_scope r = Shared)) (db_runs s)
            else db_runs s
        | None \<Rightarrow> db_runs s))"

section \<open>Summaries\<close>

record run_summary =
  rs_id :: uuid
  rs_definitionId :: string
  rs_definitionPath :: "string option"
  rs_name :: string
  rs_status :: status
  rs_ownerNpub :: "string option"
  rs_ownerAlias :: "string option"
  rs_scope :: scope
  rs_cursorIndex :: nat
  rs_activeStepId :: "uuid option"
  rs_error :: "string option"
  rs_startedAt :: nat
  rs_completedAt :: "nat option"
  rs_inputBytes :: nat
  rs_currentBytes :: nat
  rs_resultBytes :: nat
  rs_hasInput :: bool
  rs_hasCurrent :: bool
  rs_hasResult :: bool

record step_summary =
  ss_id :: uuid
  ss_runId :: uuid
  ss_stepIndex :: nat
  ss_name :: string
  ss_kind :: step_kind
  ss_status :: status
  ss_error :: "string option"
  ss_wingmanSessionId :: "string option"
  ss_parentStepId :: "uuid option"
  ss_logicalKey :: "string option"
  ss_callbackToken :: "string option"
  ss_metadata :: "obj option"
  ss_startedAt :: nat
  ss_completedAt :: "nat option"
  ss_inputBytes :: nat
  ss_resultBytes :: nat
  ss_outputBytes :: nat
  ss_hasInput :: bool
  ss_hasResult :: bool
  ss_hasOutput :: bool

text \<open>SQLite's \<open>length(coalesce(column, ''))\<close> of a JSON column.\<close>

definition column_length :: "obj option \<Rightarrow> nat" where
  "column_length c = (case c of None \<Rightarrow> 0 | Some ps \<Rightarrow> length (stringify (JObj ps)))"

definition mapRunSummary :: "run_row \<Rightarrow> run_summary" where
  "mapRunSummary r =
     (let inputBytes = column_length (Some (r_input r));
          currentBytes = column_length (Some (r_current r));
          resultBytes = column_length (r_result r)
      in \<lparr>rs_id = r_id r, rs_definitionId = r_definitionId r, rs_definitionPath = r_definitionPath r,
          rs_name = r_name r, rs_status = r_status r, rs_ownerNpub = r_ownerNpub r,
          rs_ownerAlias = r_ownerAlias r, rs_scope = r_scope r, rs_cursorIndex = r_cursorIndex r,
          rs_activeStepId = r_activeStepId r, rs_error = r_error r, rs_startedAt = r_startedAt r,
          rs_completedAt = r_completedAt r, rs_inputBytes = inputBytes,
          rs_currentBytes = currentBytes, rs_resultBytes = resultBytes,
          rs_hasInput = (inputBytes > 0), rs_hasCurrent = (currentBytes > 0),
          rs_hasResult = (resultBytes > 0)\<rparr>)"

definition mapStepSummary :: "step_row \<Rightarrow> step_summary" where
  "mapStepSummary st =
     (let inputBytes = column_length (Some (st_input st));
          resultBytes = column_length (st_result st);
          outputBytes = column_length (st_output st)
      in \<lparr>ss_id = st_id st, ss_runId = st_runId st, ss_stepIndex = st_stepIndex st,
          ss_name = st_name st, ss_kind = st_kind st, ss_status = st_status st,
          ss_error = st_error st, ss_wingmanSessionId = st_wingmanSessionId st,
          ss_parentStepId = st_parentStepId st, ss_logicalKey = st_logicalKey st,
          ss_callbackToken = st_callbackToken st, ss_metadata = st_metadata st,
          ss_startedAt = st_startedAt st, ss_completedAt = st_completedAt st,
          ss_inputBytes = inputBytes, ss_resultBytes = resultBytes, ss_outputBytes = outputBytes,
          ss_hasInput = (inputBytes > 0), ss_hasResult = (resultBytes > 0),
          ss_hasOutput = (outputBytes > 0)\<rparr>)"

definition getRunSummary :: "pstore \<Rightarrow> uuid \<Rightarrow> run_summary option" where
  "getRunSummary s i = map_option mapRunSummary (getRun s i)"

definition listStepSummaries :: "pstore \<Rightarrow> uuid \<Rightarrow> step_summary list" where
  "listStepSummaries s i = map mapStepSummary (listSteps s i)"

definition listRunSummaries ::
  "pstore \<Rightarrow> string list \<Rightarrow> string option \<Rightarrow> bool \<Rightarrow> nat option \<Rightarrow> run_summary list" where
  "listRunSummaries s additionalOwnerNpubs ownerNpub includeShared limit =
     map mapRunSummary (take (case limit of None \<Rightarrow> 100 | Some l \<Rightarrow> l) (newest_first
       (case ownerNpub of
          Some owner \<Rightarrow> if owner \<noteq> []
            then filter (\<lambda>r. (\<exists>x \<in> set (owner # additionalOwnerNpubs). r_ownerNpub r = Some x)
                   \<or> (includeShared \<and> r_scope r = Shared)) (db_runs s)
            else db_runs s
        | None \<Rightarrow> db_runs s)))"

text \<open>\<open>pageOwnerRuns\<close>: the rows after \<open>before\<close> in the order newest first, then largest id.\<close>

definition page_key :: "run_row \<Rightarrow> nat \<times> nat" where
  "page_key r = (r_startedAt r, r_id r)"

definition page_after :: "(nat \<times> uuid) option \<Rightarrow> run_row \<Rightarrow> bool" where
  "page_after before r = (case before of None \<Rightarrow> True
     | Some (t, i) \<Rightarrow> r_startedAt r < t \<or> (r_startedAt r = t \<and> r_id r < i))"

definition pageOwnerRuns ::
  "pstore \<Rightarrow> string \<Rightarrow> (nat \<times> uuid) option \<Rightarrow> nat \<Rightarrow> run_summary list" where
  "pageOwnerRuns s ownerNpub before limit = map mapRunSummary (take limit
     (sort_key (\<lambda>r. - int (r_startedAt r)) (sort_key (\<lambda>r. - int (r_id r))
       (filter (\<lambda>r. r_ownerNpub r = Some ownerNpub \<and> page_after before r) (db_runs s)))))"

end
