(* ===== verification/Pipeline_Blocks.thy ===== *)
theory Pipeline_Blocks
  imports Pipeline_Store
begin

text \<open>
  The built-in blocks of \<open>src/pipelines/pipeline-blocks.ts\<close>: a block step stands for a fixed short
  list of steps whose paths live under a scratch area of the run's state. Then the three walks
  over a pipeline's steps: the snapshot of all expansions taken when a run is created
  (\<open>pipeline-block-snapshot.ts\<close>), the hashes of the functions a run is pinned to
  (\<open>pipeline-function-pins.ts\<close>), and the checks on child-pipeline steps (\<open>child-pipeline.ts\<close>).
\<close>

section \<open>Expansion\<close>

text \<open>\<open>value.replace(/^_+|_+$/g, "")\<close>\<close>

definition strip_underscores :: "string \<Rightarrow> string" where
  "strip_underscores s = rev (dropWhile (\<lambda>c. c = CHR ''_'') (rev (dropWhile (\<lambda>c. c = CHR ''_'') s)))"

definition sanitizePathPart :: "string \<Rightarrow> string" where
  "sanitizePathPart v = (let sanitized = strip_underscores (squash v) in
     if sanitized = [] then ''block'' else sanitized)"

definition defaultBlockOutputPath :: "string \<Rightarrow> string" where
  "defaultBlockOutputPath b =
     (if b = ''flightdeck.threadInvocation'' then ''$.flightDeckInvocation''
      else if b = ''jev.rerankCandidates'' then ''$.jevRerank''
      else if b = ''flightdeck.sendDirectMessage'' then ''$.directMessage''
      else if b = ''flightdeck.returnToThread'' then ''$.threadDelivery''
      else ''$.graphMemory'')"

text \<open>A port of a display: its label, its path and the other settings.\<close>

definition port :: "string \<Rightarrow> string \<Rightarrow> obj \<Rightarrow> jval" where
  "port label path rest = JObj ([(''label'', JStr label), (''path'', JStr path)] @ rest)"

abbreviation fmt :: "string \<Rightarrow> obj" where
  "fmt f \<equiv> [(''format'', JStr f)]"

abbreviation records20 :: obj where
  "records20 \<equiv> [(''format'', JStr ''records''), (''limit'', jnat 20)]"

definition ports :: "jval list \<Rightarrow> jval list \<Rightarrow> jval option" where
  "ports ins outs = Some (JObj [(''in'', JArr ins), (''out'', JArr outs)])"

definition pick_under :: "string \<Rightarrow> string list \<Rightarrow> selector option" where
  "pick_under path names =
     Some (SelSpec (Some (map (\<lambda>f. (f, path @ ''.'' @ f)) names)) None)"

definition pick_paths :: "(string \<times> string) list \<Rightarrow> selector option" where
  "pick_paths kps = Some (SelSpec (Some kps) None)"

definition named :: "string \<Rightarrow> string \<Rightarrow> selector option \<Rightarrow> string option \<Rightarrow> jval option \<Rightarrow> step_base" where
  "named name description input assign display =
     \<lparr>sb_id = None, sb_name = name, sb_title = None, sb_description = Some description,
      sb_display = display, sb_input = input, sb_assign = assign, sb_when = None\<rparr>"

definition code_call :: "string \<Rightarrow> code_spec" where
  "code_call f = \<lparr>co_function = f, co_activityWebhook = None, co_agentTools = None\<rparr>"

definition threadInvocation_steps :: "string \<Rightarrow> string \<Rightarrow> string \<Rightarrow> dstep list" where
  "threadInvocation_steps name inputPath outputPath =
     (let shown = [port ''Thread'' ''$.threadId'' (fmt ''text''),
                   port ''Chat Message'' ''$.prompt'' (fmt ''text'')] in
      [CodeStep (named (name @ '' / normalise-thread-invocation'')
         ''Validate and normalise the reusable four-field Flight Deck thread invocation contract.''
         (pick_under inputPath [''workspaceId'', ''threadId'', ''frmNpub'', ''prompt'', ''threadContext''])
         (Some outputPath) (ports shown shown))
       (code_call ''flightdeck.threadInvocation'')])"

definition returnToThread_steps :: "string \<Rightarrow> string \<Rightarrow> string \<Rightarrow> dstep list" where
  "returnToThread_steps name inputPath outputPath =
     [CodeStep (named (name @ '' / return-to-thread'')
        ''Resolve the source Flight Deck thread and post the final Markdown as the configured managed agent.''
        (pick_under inputPath [''workspaceId'', ''threadId'', ''frmNpub'', ''prompt'', ''message''])
        (Some outputPath)
        (ports [port ''Thread'' ''$.threadId'' (fmt ''text''), port ''Response'' ''$.message'' (fmt ''text'')]
           [port ''Delivered'' ''$.delivered'' [], port ''Thread'' ''$.threadId'' (fmt ''text''),
            port ''Message ID'' ''$.messageId'' (fmt ''text'')]))
      (code_call ''flightdeck.returnToThread'')]"

definition sendDirectMessage_steps :: "string \<Rightarrow> string \<Rightarrow> string \<Rightarrow> dstep list" where
  "sendDirectMessage_steps name inputPath outputPath =
     [CodeStep (named (name @ '' / send-direct-message'')
        ''Validate the sender as an active Autopilot agent and deliver the Markdown message to the exact two-party Flight Deck DM.''
        (pick_under inputPath [''fromNpub'', ''toNpub'', ''message''])
        (Some outputPath)
        (ports [port ''From Agent'' ''$.fromNpub'' (fmt ''text''), port ''To'' ''$.toNpub'' (fmt ''text''),
            port ''Message'' ''$.message'' (fmt ''text'')]
           [port ''Delivered'' ''$.delivered'' [], port ''Channel'' ''$.channelId'' (fmt ''text''),
            port ''Message ID'' ''$.messageId'' (fmt ''text'')]))
      (code_call ''flightdeck.sendDirectMessage'')]"

definition judge_child :: dstep where
  "judge_child = ClassifierStep
     (named ''judge-candidate-relevance''
       ''Judge only whether this candidate would materially help satisfy the supplied brief in light of compact prior context.''
       None None None)
     \<lparr>cl_inputFunction = None,
      cl_prompt = ''Use only query, priorContext and candidate. Do not research, select, summarize or infer missing facts. Return the configured narrow relevance judgment.'',
      cl_provider = Some ''openrouter'', cl_mode = Some ''decisions'',
      cl_questions = Some (JObj [(''relevance'', JObj [(''type'', JStr ''noul''),
        (''instructions'', JStr ''Would `candidate` materially help satisfy `query`, considering `priorContext` only to avoid already-covered or mismatched material?''),
        (''criteria'', JObj
          [(''true'', JStr ''The candidate provides directly useful, material evidence or coverage for the supplied brief.''),
           (''false'', JStr ''The candidate is irrelevant, duplicative of prior coverage, too weakly connected, or would not materially help satisfy the brief.'')])])]),
      cl_failurePolicy = Some RecordError, cl_model = Some ''~typesafe/jev-latest'',
      cl_temperature = None, cl_maxTokens = None, cl_timeoutMs = Some (NumLit (Fin 15000)),
      cl_retries = Some (NumLit (Fin 1))\<rparr>"

definition judge_step :: "string \<Rightarrow> string \<Rightarrow> string \<Rightarrow> dstep" where
  "judge_step name scratchPath inputPath =
     (let below = (\<lambda>f. inputPath @ ''.'' @ f) in
      ParallelStep (named (name @ '' / judge-candidates'')
         ''Obtain one independent Jev Noul relevance probability for every query-candidate pair; errors remain explicit for fail-open composition.''
         None (Some (scratchPath @ ''.judgments''))
         (ports [port ''Editorial Brief'' (below ''query'') (fmt ''text''),
                 port ''Candidates'' (below ''candidates'') records20]
            [port ''Jev Results'' ''$.items'' records20, port ''Completed'' ''$.ok'' (fmt ''count''),
             port ''Errors'' ''$.error'' (fmt ''count'')]))
       \<lparr>pa_source = below ''candidates'', pa_maxConcurrency = Some (NumPath (below ''maxConcurrency'')),
        pa_agentLaunchConcurrency = None, pa_agentStartupRetries = None,
        pa_agentStartupRetryBackoffMs = None, pa_itemKey = Some ''id'',
        pa_itemInput = pick_paths [(''query'', below ''query''), (''priorContext'', below ''priorContext''),
          (''candidate'', ''$item'')],
        pa_failurePolicy = None\<rparr> judge_child)"

definition compose_step :: "string \<Rightarrow> string \<Rightarrow> string \<Rightarrow> string \<Rightarrow> dstep" where
  "compose_step name scratchPath inputPath outputPath =
     CodeStep (named (name @ '' / compose-rerank'')
        ''Deterministically sort stable ties, enforce threshold/count/context budgets, calculate replay metrics, and restore the complete original set on any incomplete Jev result.''
        (pick_paths [(''candidates'', inputPath @ ''.candidates''),
           (''knownSelectedIds'', inputPath @ ''.knownSelectedIds''),
           (''config'', inputPath @ ''.config''), (''judgments'', scratchPath @ ''.judgments'')])
        (Some outputPath)
        (ports [port ''Candidates'' ''$.candidates'' records20,
                port ''Jev Results'' ''$.judgments.items'' records20]
           [port ''Mode'' ''$.mode'' (fmt ''text''),
            port ''Selected Candidates'' ''$.selectedCandidates'' records20,
            port ''Metrics'' ''$.metrics'' (fmt ''json''),
            port ''Warnings'' ''$.warnings'' [(''format'', JStr ''list''), (''empty'', JStr ''None'')]]))
      (code_call ''jev.composeRerank'')"

definition rerankCandidates_steps :: "string \<Rightarrow> string \<Rightarrow> string \<Rightarrow> string \<Rightarrow> dstep list" where
  "rerankCandidates_steps name scratchPath inputPath outputPath =
     [judge_step name scratchPath inputPath, compose_step name scratchPath inputPath outputPath]"

definition extraction_prompt :: string where
  \<open>extraction_prompt =
     ''Extract entities, concepts, projects, files, people, systems, decisions, and constraints worth searching long-term graph memory for. '' @
     ''Return a JSON result object with this exact shape: '' @
     ''{ "entities": [{ "name": "...", "type": "project|file|person|system|decision|constraint|concept|other", "reason": "why this may matter", "query": "search query text" }] } '' @
     ''Keep entities specific and useful. Prefer 3-8 entities. Do not include prose outside the JSON result.''\<close>

definition graphContext_steps :: "string \<Rightarrow> string \<Rightarrow> string \<Rightarrow> string \<Rightarrow> dstep list" where
  "graphContext_steps name scratchPath inputPath outputPath =
     [AgentStep (named (name @ '' / extract-memory-entities'')
        ''Extract searchable long-term-memory entities from the current prompt.''
        (pick_under inputPath [''prompt'', ''entityLimit''])
        (Some (scratchPath @ ''.entityExtraction'')) None)
      \<lparr>ag_prompt = extraction_prompt, ag_activityWebhook = None,
       ag_agent = Some (inputPath @ ''.agent''), ag_model = None,
       ag_directory = Some (inputPath @ ''.directory''), ag_timeoutMs = None\<rparr>,
      CodeStep (named (name @ '' / search-graph-memory'')
        ''Run parallel vector searches for the extracted entities.''
        (pick_paths [(''prompt'', inputPath @ ''.prompt''),
           (''entities'', scratchPath @ ''.entityExtraction.entities''),
           (''topKPerEntity'', inputPath @ ''.topKPerEntity''),
           (''maxEntities'', inputPath @ ''.maxEntities''),
           (''maxMatches'', inputPath @ ''.maxMatches''),
           (''index'', inputPath @ ''.index''), (''ownerNpub'', inputPath @ ''.ownerNpub'')])
        (Some (scratchPath @ ''.rawMatches'')) None)
      (code_call ''memory.searchEntities''),
      CodeStep (named (name @ '' / consolidate-graph-context'')
        ''Consolidate graph memory matches into agent-consumable graphContext.''
        (pick_paths [(''prompt'', inputPath @ ''.prompt''),
           (''entities'', scratchPath @ ''.entityExtraction.entities''),
           (''matches'', scratchPath @ ''.rawMatches.matches''),
           (''warnings'', scratchPath @ ''.rawMatches.warnings''),
           (''maxChars'', inputPath @ ''.maxChars'')])
        (Some outputPath) None)
      (code_call ''memory.consolidateGraphContext'')]"

definition block_scratchPath :: "step_base \<Rightarrow> block_spec \<Rightarrow> string" where
  "block_scratchPath b s =
     ''$.blocks.'' @ sanitizePathPart (if sb_name b = [] then bl_block s else sb_name b)"

definition block_steps ::
  "string \<Rightarrow> string \<Rightarrow> string \<Rightarrow> string \<Rightarrow> string \<Rightarrow> string + dstep list" where
  "block_steps blk name scratchPath inputPath outputPath =
     (if blk = ''flightdeck.threadInvocation'' then Inr (threadInvocation_steps name inputPath outputPath)
      else if blk = ''flightdeck.returnToThread'' then Inr (returnToThread_steps name inputPath outputPath)
      else if blk = ''flightdeck.sendDirectMessage'' then Inr (sendDirectMessage_steps name inputPath outputPath)
      else if blk = ''jev.rerankCandidates'' then
        Inr (rerankCandidates_steps name scratchPath inputPath outputPath)
      else if blk \<noteq> ''memory.graphContext'' then Inl (''Unknown pipeline block: '' @ blk)
      else Inr (graphContext_steps name scratchPath inputPath outputPath))"

definition expandPipelineBlock :: "step_base \<Rightarrow> block_spec \<Rightarrow> string + block_expansion" where
  "expandPipelineBlock b s =
     (let scratchPath = block_scratchPath b s;
          inputPath = scratchPath @ ''.input'';
          outputPath = (case sb_assign b of Some p \<Rightarrow> p | None \<Rightarrow> defaultBlockOutputPath (bl_block s))
      in case block_steps (bl_block s) (sb_name b) scratchPath inputPath outputPath of
           Inl e \<Rightarrow> Inl e
         | Inr steps \<Rightarrow> Inr \<lparr>bx_scratchPath = scratchPath, bx_inputPath = inputPath,
             bx_outputPath = outputPath, bx_steps = steps\<rparr>)"

text \<open>An expansion holds code, agent and parallel steps only, at most three of them.\<close>

fun flat_step :: "dstep \<Rightarrow> bool" where
  "flat_step (CodeStep _ _) = True"
| "flat_step (AgentStep _ _) = True"
| "flat_step (ParallelStep _ _ (ClassifierStep _ _)) = True"
| "flat_step _ = False"

lemma block_steps_flat:
  "block_steps blk name sp ip out = Inr steps \<Longrightarrow> list_all flat_step steps \<and> length steps \<le> 3"
  by (auto simp: block_steps_def threadInvocation_steps_def returnToThread_steps_def
      sendDirectMessage_steps_def rerankCandidates_steps_def judge_step_def compose_step_def
      judge_child_def graphContext_steps_def Let_def split: if_splits)

lemma expandPipelineBlock_flat:
  "expandPipelineBlock b s = Inr e \<Longrightarrow> list_all flat_step (bx_steps e) \<and> length (bx_steps e) \<le> 3"
  by (auto simp: expandPipelineBlock_def Let_def split: sum.splits dest: block_steps_flat)

end
