(* ===== verification/Pipeline_Pins.thy ===== *)
theory Pipeline_Pins
  imports Pipeline_Blocks
begin

text \<open>
  The walks over a pipeline's steps that fix a run when it is created: the snapshot of the block
  expansions (\<open>pipeline-block-snapshot.ts\<close>), the hashes of the functions the run is pinned to
  (\<open>pipeline-function-pins.ts\<close>), the checks on activity webhooks (\<open>activity-webhook-contract.ts\<close>)
  and on child-pipeline steps (\<open>child-pipeline.ts\<close>).
\<close>

section \<open>The size of a step\<close>

text \<open>A block counts for more than all steps of its expansion, so every walk below ends.\<close>

fun weight :: "dstep \<Rightarrow> nat" where
  "weight (BlockStep _ _) = 20"
| "weight (LoopStep _ _ steps) =
     (case steps of None \<Rightarrow> 1 | Some ss \<Rightarrow> 1 + sum_list (map (\<lambda>s. Suc (weight s)) ss))"
| "weight (ParallelStep _ _ child) = 2 + weight child"
| "weight _ = 1"

abbreviation weights :: "dstep list \<Rightarrow> nat" where
  "weights ss \<equiv> sum_list (map (\<lambda>s. Suc (weight s)) ss)"

lemma flat_weight: "flat_step s \<Longrightarrow> weight s \<le> 3"
  by (induction s rule: flat_step.induct) auto

lemma flat_weights: "list_all flat_step ss \<Longrightarrow> weights ss \<le> 4 * length ss"
  by (induction ss) (auto dest: flat_weight)

lemma expansion_weights: "expandPipelineBlock b s = Inr e \<Longrightarrow> weights (bx_steps e) < 20"
  using expandPipelineBlock_flat [of b s e] flat_weights [of "bx_steps e"] by simp

definition step_key :: "step_base \<Rightarrow> string" where
  "step_key b = (case sb_id b of Some i \<Rightarrow> i | None \<Rightarrow> sb_name b)"

section \<open>Block snapshots\<close>

type_synonym snapshots = "(string \<times> block_expansion) list"

function snap_steps :: "string \<Rightarrow> dstep list \<Rightarrow> snapshots \<Rightarrow> string + snapshots"
  and snap_step :: "string \<Rightarrow> dstep \<Rightarrow> snapshots \<Rightarrow> string + snapshots" where
  "snap_steps pre [] acc = Inr acc"
| "snap_steps pre (s # ss) acc = (case snap_step pre s acc of
     Inl e \<Rightarrow> Inl e | Inr acc' \<Rightarrow> snap_steps pre ss acc')"
| "snap_step pre (BlockStep b s) acc =
     (let k = pre @ step_key b in
      case expandPipelineBlock b s of
        Inl e \<Rightarrow> Inl e
      | Inr ex \<Rightarrow> snap_steps (k @ ''/'') (bx_steps ex) (AList.update k ex acc))"
| "snap_step pre (LoopStep b s steps) acc =
     (case steps of None \<Rightarrow> Inr acc | Some ss \<Rightarrow> snap_steps (pre @ step_key b @ ''/'') ss acc)"
| "snap_step pre (ParallelStep b s child) acc = snap_steps (pre @ step_key b @ ''/'') [child] acc"
| "snap_step pre (PipelineStep b s) acc = Inr acc"
| "snap_step pre (CodeStep b c) acc = Inr acc"
| "snap_step pre (AgentStep b a) acc = Inr acc"
| "snap_step pre (ClassifierStep b cl) acc = Inr acc"
  by pat_completeness auto
termination
  by (relation "measure (case_sum (\<lambda>(_, ss, _). weights ss) (\<lambda>(_, s, _). weight s))")
    (auto dest: expansion_weights)

definition snapshotPipelineBlocks :: "dstep list \<Rightarrow> string + snapshots" where
  "snapshotPipelineBlocks steps = snap_steps [] steps []"

section \<open>Function pins\<close>

text \<open>\<open>/^[a-zA-Z][a-zA-Z0-9._-]{0,79}$/\<close>\<close>

definition is_letter :: "char \<Rightarrow> bool" where
  "is_letter c = (let n = of_char c :: nat in (65 \<le> n \<and> n \<le> 90) \<or> (97 \<le> n \<and> n \<le> 122))"

definition tool_name :: "string \<Rightarrow> bool" where
  "tool_name s = (case s of [] \<Rightarrow> False | c # cs \<Rightarrow> is_letter c \<and> length cs \<le> 79 \<and>
     list_all (\<lambda>d. is_word d \<or> d = CHR ''.'' \<or> d = CHR ''-'') cs)"

type_synonym hashes = "(string \<times> string) list"

definition agent_tools_ok :: "code_spec \<Rightarrow> (string \<times> string) list \<Rightarrow> bool" where
  "agent_tools_ok c tools = (co_function c = ''session.completedTurn'' \<and> tools \<noteq> [] \<and>
     length tools \<le> 16 \<and> list_all (\<lambda>(n, v). tool_name n \<and> v \<noteq> []) tools)"

text \<open>The hash of a registered function; \<open>None\<close> where the registry has none.\<close>

fun pin_tools :: "(string \<Rightarrow> string option) \<Rightarrow> string list \<Rightarrow> hashes \<Rightarrow> string + hashes" where
  "pin_tools hash_of [] acc = Inr acc"
| "pin_tools hash_of (n # ns) acc = (case hash_of n of
     None \<Rightarrow> Inl (''Agent tool function must be hash pinned: '' @ n)
   | Some h \<Rightarrow> pin_tools hash_of ns (AList.update n h acc))"

definition pin_function :: "(string \<Rightarrow> string option) \<Rightarrow> string option \<Rightarrow> hashes \<Rightarrow> hashes" where
  "pin_function hash_of f acc = (case f of
     None \<Rightarrow> acc
   | Some n \<Rightarrow> (if n = [] then acc
       else (case hash_of n of None \<Rightarrow> acc | Some h \<Rightarrow> AList.update n h acc)))"

function hash_steps :: "(string \<Rightarrow> string option) \<Rightarrow> dstep list \<Rightarrow> hashes \<Rightarrow> string + hashes"
  and hash_step :: "(string \<Rightarrow> string option) \<Rightarrow> dstep \<Rightarrow> hashes \<Rightarrow> string + hashes" where
  "hash_steps hash_of [] acc = Inr acc"
| "hash_steps hash_of (s # ss) acc = (case hash_step hash_of s acc of
     Inl e \<Rightarrow> Inl e | Inr acc' \<Rightarrow> hash_steps hash_of ss acc')"
| "hash_step hash_of (CodeStep b c) acc =
     (case (case co_agentTools c of None \<Rightarrow> Inr acc
            | Some tools \<Rightarrow> if \<not> agent_tools_ok c tools then Inl ''Invalid native project tool definition''
                else pin_tools hash_of (map snd tools) acc) of
        Inl e \<Rightarrow> Inl e
      | Inr acc' \<Rightarrow> Inr (pin_function hash_of (Some (co_function c)) acc'))"
| "hash_step hash_of (ClassifierStep b cl) acc = Inr (pin_function hash_of (cl_inputFunction cl) acc)"
| "hash_step hash_of (BlockStep b s) acc = (case expandPipelineBlock b s of
     Inl e \<Rightarrow> Inl e | Inr ex \<Rightarrow> hash_steps hash_of (bx_steps ex) acc)"
| "hash_step hash_of (LoopStep b s steps) acc =
     (case steps of None \<Rightarrow> Inr acc | Some ss \<Rightarrow> hash_steps hash_of ss acc)"
| "hash_step hash_of (ParallelStep b s child) acc = hash_steps hash_of [child] acc"
| "hash_step hash_of (PipelineStep b s) acc = Inr acc"
| "hash_step hash_of (AgentStep b a) acc = Inr acc"
  by pat_completeness auto
termination
  by (relation "measure (case_sum (\<lambda>(_, ss, _). weights ss) (\<lambda>(_, s, _). weight s))")
    (auto dest: expansion_weights)

definition pipelineFunctionHashes :: "(string \<Rightarrow> string option) \<Rightarrow> pipeline \<Rightarrow> string + hashes" where
  "pipelineFunctionHashes hash_of spec = hash_steps hash_of (dp_steps spec) []"

text \<open>\<open>assertPipelineFunctionPins\<close>: the error, if there is one.\<close>

definition assertPipelineFunctionPins :: "(string \<Rightarrow> string option) \<Rightarrow> hashes option \<Rightarrow> string option" where
  "assertPipelineFunctionPins hash_of pins = (case pins of
     None \<Rightarrow> None
   | Some ps \<Rightarrow> map_option (\<lambda>(n, _). ''Pinned pipeline function changed or is unavailable: '' @ n @
       ''. Start a new run to use the new implementation.'') (find (\<lambda>(n, h). hash_of n \<noteq> Some h) ps))"

section \<open>Activity webhooks\<close>

text \<open>The parts of a parsed URL the check reads; the parser of the standard library is a parameter.\<close>

record url_parts =
  u_protocol :: string
  u_port :: string
  u_username :: string
  u_password :: string
  u_hash :: string
  u_href :: string

definition alnum :: "char \<Rightarrow> bool" where
  "alnum c = (is_word c \<and> c \<noteq> CHR ''_'')"

text \<open>\<open>/^[A-Za-z][A-Za-z0-9]{0,63}$/\<close> and \<open>/^\$\.[A-Za-z0-9_.]+$/\<close> with at most 256 characters\<close>

definition correlation_key :: "string \<Rightarrow> bool" where
  "correlation_key s = (case s of [] \<Rightarrow> False | c # cs \<Rightarrow> is_letter c \<and> length cs \<le> 63 \<and> list_all alnum cs)"

definition correlation_path :: "string \<Rightarrow> bool" where
  "correlation_path p = (starts_with ''$.'' p \<and> drop 2 p \<noteq> [] \<and>
     list_all (\<lambda>d. is_word d \<or> d = CHR ''.'') (drop 2 p) \<and> length p \<le> 256)"

definition url_error :: "(string \<Rightarrow> url_parts option) \<Rightarrow> string \<Rightarrow> string option" where
  "url_error parse u = (case parse u of
     None \<Rightarrow> Some ''Invalid URL''
   | Some p \<Rightarrow> (if u_protocol p \<noteq> ''https:'' \<or> (u_port p \<noteq> [] \<and> u_port p \<noteq> ''443'') \<or> u_username p \<noteq> [] \<or>
         u_password p \<noteq> [] \<or> u_hash p \<noteq> [] \<or> u \<noteq> u_href p
       then Some ''activityWebhook URL must be a canonical literal HTTPS:443 URL without credentials or fragment''
       else None))"

definition correlation_entry_ok :: "string \<times> jval \<Rightarrow> bool" where
  "correlation_entry_ok = (\<lambda>(k, p). correlation_key k \<and>
     (case p of JStr path \<Rightarrow> correlation_path path | _ \<Rightarrow> False))"

definition correlation_error :: "jval \<Rightarrow> string option" where
  "correlation_error v = (case plain_object v of
     None \<Rightarrow> Some ''Invalid activityWebhook correlation selectors''
   | Some ps \<Rightarrow> (if length ps > 16 then Some ''Invalid activityWebhook correlation selectors''
       else if list_all correlation_entry_ok ps then None
       else Some ''Invalid activityWebhook correlation selector''))"

definition validateActivityWebhookSpec :: "(string \<Rightarrow> url_parts option) \<Rightarrow> jval \<Rightarrow> string option" where
  "validateActivityWebhookSpec parse v = (case plain_object v of
     None \<Rightarrow> Some ''activityWebhook must be an object''
   | Some ps \<Rightarrow> (case get ps ''url'' of
       JStr u \<Rightarrow> (if list_all (\<lambda>(k, _). k \<in> {''url'', ''correlation''}) ps \<and> length u \<le> 2048
           then (case url_error parse u of Some e \<Rightarrow> Some e | None \<Rightarrow> correlation_error (get ps ''correlation''))
           else Some ''Invalid activityWebhook configuration'')
     | _ \<Rightarrow> Some ''Invalid activityWebhook configuration''))"

text \<open>The first error of a walk.\<close>

definition first_error :: "string option list \<Rightarrow> string option" where
  "first_error es = (case List.find (\<lambda>e. e \<noteq> None) es of None \<Rightarrow> None | Some e \<Rightarrow> e)"

lemma first_error_None: "first_error es = None \<longleftrightarrow> (\<forall>e \<in> set es. e = None)"
  by (induction es) (auto simp: first_error_def)

fun step_webhook_error :: "(string \<Rightarrow> url_parts option) \<Rightarrow> dstep \<Rightarrow> string option" where
  "step_webhook_error parse (AgentStep b a) = (case ag_activityWebhook a of
     None \<Rightarrow> None | Some v \<Rightarrow> validateActivityWebhookSpec parse v)"
| "step_webhook_error parse (CodeStep b c) = (case co_activityWebhook c of
     None \<Rightarrow> None
   | Some v \<Rightarrow> if co_function c \<noteq> ''session.completedTurn''
       then Some ''activityWebhook requires an agent or session.completedTurn step''
       else validateActivityWebhookSpec parse v)"
| "step_webhook_error parse (LoopStep b l steps) = (case steps of None \<Rightarrow> None
   | Some ss \<Rightarrow> first_error (map (step_webhook_error parse) ss))"
| "step_webhook_error parse (ParallelStep b p child) = step_webhook_error parse child"
| "step_webhook_error parse _ = None"

definition validateActivityWebhookSteps :: "(string \<Rightarrow> url_parts option) \<Rightarrow> pipeline \<Rightarrow> string option" where
  "validateActivityWebhookSteps parse spec = first_error (map (step_webhook_error parse) (dp_steps spec))"

section \<open>Child-pipeline steps\<close>

text \<open>\<open>/^[A-Za-z0-9][A-Za-z0-9_.:-]*$/\<close>\<close>

definition child_target :: "string \<Rightarrow> bool" where
  "child_target s = (case s of [] \<Rightarrow> False | c # cs \<Rightarrow> alnum c \<and>
     list_all (\<lambda>d. is_word d \<or> d \<in> {CHR ''.'', CHR '':'', CHR ''-''}) cs)"

definition child_timeout_ok :: "jnum \<Rightarrow> bool" where
  "child_timeout_ok n = (case n of Fin q \<Rightarrow> q = of_int \<lfloor>q\<rfloor> \<and> 1 \<le> q \<and> q \<le> 86400000 | _ \<Rightarrow> False)"

definition child_step_error :: "child_spec \<Rightarrow> string option" where
  "child_step_error c =
     (if \<not> child_target (ch_pipeline c)
      then Some ''Child pipeline target must be a name or definition ID, never a path''
      else if (case ch_version c of None \<Rightarrow> False | Some (JStr _) \<Rightarrow> False | Some (JNum _) \<Rightarrow> False | _ \<Rightarrow> True)
      then Some ''Invalid child pipeline version''
      else (case ch_timeoutMs c of None \<Rightarrow> None
            | Some n \<Rightarrow> if child_timeout_ok n then None else Some ''Child timeoutMs must be 1..86400000''))"

fun visit_child_step :: "bool \<Rightarrow> dstep \<Rightarrow> string option" where
  "visit_child_step nested (PipelineStep b c) =
     (if nested then Some ''Pipeline steps must be top-level (durable cursor required)''
      else child_step_error c)"
| "visit_child_step nested (LoopStep b l steps) =
     (case steps of None \<Rightarrow> None | Some ss \<Rightarrow> first_error (map (visit_child_step True) ss))"
| "visit_child_step nested (ParallelStep b p child) = visit_child_step True child"
| "visit_child_step nested _ = None"

definition validateChildPipelineSteps :: "(string \<Rightarrow> url_parts option) \<Rightarrow> pipeline \<Rightarrow> string option" where
  "validateChildPipelineSteps parse spec = (case validateActivityWebhookSteps parse spec of
     Some e \<Rightarrow> Some e
   | None \<Rightarrow> first_error (map (visit_child_step False) (dp_steps spec)))"

section \<open>Laws\<close>

text \<open>What a step list pins is what the registry has.\<close>

definition pins_true :: "(string \<Rightarrow> string option) \<Rightarrow> hashes \<Rightarrow> bool" where
  "pins_true hash_of acc = list_all (\<lambda>(n, h). hash_of n = Some h) acc"

lemma pins_update: "pins_true hash_of acc \<Longrightarrow> hash_of n = Some h \<Longrightarrow> pins_true hash_of (AList.update n h acc)"
  using set_update_subset [of n h] by (induction acc) (auto simp: pins_true_def)

lemma pin_tools_true: "pin_tools hash_of ns acc = Inr out \<Longrightarrow> pins_true hash_of acc \<Longrightarrow> pins_true hash_of out"
  by (induction hash_of ns acc arbitrary: out rule: pin_tools.induct) (auto split: option.splits intro: pins_update)

lemma pin_function_true: "pins_true hash_of acc \<Longrightarrow> pins_true hash_of (pin_function hash_of f acc)"
  by (auto simp: pin_function_def split: option.splits intro: pins_update)

lemma hash_true:
  "hash_steps hash_of ss acc = Inr out \<Longrightarrow> pins_true hash_of acc \<Longrightarrow> pins_true hash_of out"
  "hash_step hash_of s acc = Inr out \<Longrightarrow> pins_true hash_of acc \<Longrightarrow> pins_true hash_of out"
proof (induction hash_of ss acc and hash_of s acc arbitrary: out and out rule: hash_steps_hash_step.induct)
  case (3 hash_of b c acc)
  then show ?case
    by (auto split: option.splits sum.splits if_splits intro: pin_function_true pin_tools_true)
qed (auto split: sum.splits option.splits intro: pin_function_true)

lemma pins_accept:
  "pins_true hash_of ps \<longleftrightarrow> assertPipelineFunctionPins hash_of (Some ps) = None"
  by (auto simp: pins_true_def assertPipelineFunctionPins_def find_None_iff list_all_iff)

end
