(* ===== verification/Store_Ops.thy ===== *)
theory Store_Ops
  imports Pipeline_Store
begin

text \<open>
  The writes of \<open>PipelineStore\<close> and of \<open>PipelineCompositionStore\<close>, one definition per method with
  its statements, guards and events, and what they keep: a settled run never changes again but by
  a reopening, a cancelled step stays cancelled, the logs only grow, and the composition links
  form a forest.
\<close>

section \<open>Events, callbacks and evidence\<close>

definition addEvent ::
  "uuid option \<Rightarrow> uuid option \<Rightarrow> level \<Rightarrow> string \<Rightarrow> string option \<Rightarrow> obj \<Rightarrow> pstore \<Rightarrow> pstore" where
  "addEvent runId stepId lvl type message data s =
     s\<lparr>db_events := db_events s @ [\<lparr>e_id = db_nextId s, e_runId = runId, e_stepId = stepId,
         e_ts = db_clock s, e_level = lvl, e_type = type, e_message = message,
         e_data = stored data\<rparr>],
       db_nextId := Suc (db_nextId s)\<rparr>"

text \<open>\<open>addCallback\<close>; a callback for an unknown step violates the foreign key.\<close>

definition addCallback ::
  "uuid \<Rightarrow> bool \<Rightarrow> obj \<Rightarrow> string option \<Rightarrow> pstore \<Rightarrow> pstore option" where
  "addCallback stepId accepted payload error s =
     (if getStep s stepId = None then None
      else Some (s\<lparr>db_callbacks := db_callbacks s @ [\<lparr>cb_id = db_nextId s, cb_stepId = stepId,
             cb_receivedAt = db_clock s, cb_accepted = accepted, cb_payload = stored payload,
             cb_error = error\<rparr>],
           db_nextId := Suc (db_nextId s)\<rparr>))"

definition registerSecret :: "string \<Rightarrow> pstore \<Rightarrow> pstore" where
  "registerSecret secret s =
     (if secret \<noteq> [] \<and> secret \<notin> set (db_secrets s)
      then s\<lparr>db_secrets := db_secrets s @ [secret]\<rparr> else s)"

definition lastExecutorAttempt :: "pstore \<Rightarrow> uuid \<Rightarrow> nat" where
  "lastExecutorAttempt s stepId =
     fold max (map ev_attempt (filter (\<lambda>e. ev_stepId e = stepId \<and> ev_kind e = ExecutorRequest)
       (db_evidence s))) 0"

definition nextExecutorAttempt :: "pstore \<Rightarrow> uuid \<Rightarrow> nat" where
  "nextExecutorAttempt s stepId = lastExecutorAttempt s stepId + 1"

definition currentAttempt :: "pstore \<Rightarrow> uuid \<Rightarrow> nat" where
  "currentAttempt s stepId = max 1 (lastExecutorAttempt s stepId)"

definition capture ::
  "uuid \<Rightarrow> uuid \<Rightarrow> nat option \<Rightarrow> evidence_kind \<Rightarrow> string \<Rightarrow> jval \<Rightarrow> string list \<Rightarrow> pstore \<Rightarrow> pstore" where
  "capture runId stepId attempt kind scp v secrets s =
     s\<lparr>db_evidence := db_evidence s @ [\<lparr>ev_runId = runId, ev_stepId = stepId,
         ev_attempt = (case attempt of None \<Rightarrow> currentAttempt s stepId | Some a \<Rightarrow> a),
         ev_kind = kind, ev_scope = scp, ev_value = json_copy (sanitize s secrets v)\<rparr>]\<rparr>"

section \<open>Event data\<close>

fun status_text :: "status \<Rightarrow> string" where
  "status_text Queued = ''queued''"
| "status_text Running = ''running''"
| "status_text Ok = ''ok''"
| "status_text NeedsInput = ''needs_input''"
| "status_text Errored = ''error''"
| "status_text Skipped = ''skipped''"
| "status_text Cancelled = ''cancelled''"

text \<open>The store's \<open>compactObject\<close> drops null as well as undefined.\<close>

definition compactNullish :: "obj \<Rightarrow> obj" where
  "compactNullish ps = filter (\<lambda>(k, v). \<not> nullish v) ps"

definition compactStepEventData ::
  "string \<Rightarrow> status option \<Rightarrow> nat option \<Rightarrow> nat option \<Rightarrow> nat option \<Rightarrow> obj option \<Rightarrow> obj" where
  "compactStepEventData phase st inputBytes resultBytes outputBytes metadata =
     (let md = (case metadata of None \<Rightarrow> [] | Some m \<Rightarrow> m);
          num = (\<lambda>b. or_undef (map_option jnat b)) in
      compactNullish
       [(''storage'', JStr ''compact''), (''phase'', JStr phase),
        (''status'', or_undef (map_option (JStr \<circ> status_text) st)),
        (''inputBytes'', num inputBytes), (''resultBytes'', num resultBytes),
        (''outputBytes'', num outputBytes),
        (''hasInput'', or_undef (map_option (\<lambda>b. JBool (b > 2)) inputBytes)),
        (''hasResult'', or_undef (map_option (\<lambda>b. JBool (b > 0)) resultBytes)),
        (''hasOutput'', or_undef (map_option (\<lambda>b. JBool (b > 0)) outputBytes)),
        (''assign'', get md ''assign''), (''logicalKey'', get md ''logicalKey'')])"

text \<open>
  \<open>preparePreviewMetadata\<close>: the metadata is redacted together with the step's input, and a
  display with ports gets the capture marker.
\<close>

fun has_items :: "jval \<Rightarrow> bool" where
  "has_items (JArr vs) = (vs \<noteq> [])"
| "has_items _ = False"

definition hasPorts :: "obj \<Rightarrow> bool" where
  "hasPorts metadata = (let display = get metadata ''display'' in
     has_items (field display ''in'') \<or> has_items (field display ''out''))"

definition preparePreviewMetadata :: "pstore \<Rightarrow> string list \<Rightarrow> obj \<Rightarrow> obj \<Rightarrow> obj" where
  "preparePreviewMetadata s secrets metadata val =
     (let source = filter (\<lambda>(k, v). k \<noteq> ''previewCaptureMetadata'') metadata;
          safe = db_redact s (db_secrets s @ secrets)
                   (JObj [(''metadata'', JObj source), (''value'', JObj val)]);
          md = (case plain_object (field (fst safe) ''metadata'') of None \<Rightarrow> [] | Some m \<Rightarrow> m)
      in if hasPorts md then
           AList.update ''previewCaptureMetadata''
             (JObj [(''displayHash'', JStr (db_digest s (stringify (coalesce (get md ''display'') JNull)))),
                    (''sourceHash'', JStr (db_digest s (stringify (JObj val)))),
                    (''verified'', JBool False), (''redacted'', JBool (snd safe))]) md
         else md)"

section \<open>Runs\<close>

record create_run =
  cr_definitionId :: string
  cr_definitionPath :: "string option"
  cr_name :: string
  cr_ownerNpub :: "string option"
  cr_ownerAlias :: "string option"
  cr_scope :: scope
  cr_input :: obj

definition createRun :: "create_run \<Rightarrow> pstore \<Rightarrow> uuid \<times> pstore" where
  "createRun c s =
     (let i = db_nextId s in
      (i, s\<lparr>db_runs := db_runs s @ [\<lparr>r_id = i, r_definitionId = cr_definitionId c,
              r_definitionPath = cr_definitionPath c, r_name = cr_name c, r_status = Running,
              r_ownerNpub = cr_ownerNpub c, r_ownerAlias = cr_ownerAlias c, r_scope = cr_scope c,
              r_input = stored (cr_input c), r_current = stored (cr_input c), r_cursorIndex = 0,
              r_activeStepId = None, r_result = None, r_error = None,
              r_startedAt = db_clock s, r_completedAt = None\<rparr>],
            db_nextId := Suc i\<rparr>))"

definition set_outcome ::
  "status \<times> obj option \<times> string option \<times> nat \<Rightarrow> run_row \<Rightarrow> run_row" where
  "set_outcome = (\<lambda>(st, result, error, t) r. r\<lparr>r_status := st, r_result := result,
      r_error := error, r_activeStepId := None, r_completedAt := Some t\<rparr>)"

definition completeRun ::
  "uuid \<Rightarrow> status \<Rightarrow> obj option \<Rightarrow> string option \<Rightarrow> pstore \<Rightarrow> pstore" where
  "completeRun i st result error s =
     s\<lparr>db_runs := change r_id i (\<lambda>r. r_status r = Running)
         (set_outcome (st, map_option stored result, sanitize_text s [] error, db_clock s))
         (db_runs s)\<rparr>"

definition set_cancelled :: "string \<times> nat \<Rightarrow> step_row \<Rightarrow> step_row" where
  "set_cancelled = (\<lambda>(reason, t) st. st\<lparr>st_status := Cancelled, st_error := Some reason,
      st_completedAt := Some t\<rparr>)"

definition open_step :: "step_row \<Rightarrow> bool" where
  "open_step st \<longleftrightarrow> st_status st = Running \<or> st_status st = Queued"

text \<open>The part of \<open>cancelRun\<close> after the children: the steps and the run in one transaction, then the events.\<close>

definition cancel_rows :: "uuid \<Rightarrow> string \<Rightarrow> run_row \<Rightarrow> pstore \<Rightarrow> pstore" where
  "cancel_rows i reason run s =
     (let runningSteps = filter open_step (listSteps s i);
          s1 = s\<lparr>db_steps := fold (\<lambda>st rows. change st_id (st_id st) open_step
                    (set_cancelled (reason, db_clock s)) rows) runningSteps (db_steps s),
                 db_runs := change r_id i (\<lambda>r. r_status r = Running)
                    (set_outcome (Cancelled, Some (stored (r_current run)), Some reason, db_clock s))
                    (db_runs s)\<rparr>;
          s2 = fold (\<lambda>st. addEvent (Some (st_runId st)) (Some (st_id st)) Warn ''step_cancelled''
                    (Some reason) []) runningSteps s1
      in addEvent (Some i) None Warn ''run_cancelled'' (Some reason)
           [(''activeStepId'', case r_activeStepId run of None \<Rightarrow> JNull | Some a \<Rightarrow> JStr (uuid_text a))] s2)"

text \<open>
  \<open>cancelRun\<close> descends into the child runs first. The recursion follows the composition links; a
  fuel of one more than their number reaches every leaf of a forest, and running out of it
  (\<open>None\<close>) stands for the endless recursion a cyclic link table would cause.
\<close>

definition children :: "pstore \<Rightarrow> uuid \<Rightarrow> child_link list" where
  "children s i = filter (\<lambda>l. lk_parentRunId l = i) (db_links s)"

fun fold_opt :: "('a \<Rightarrow> 's \<Rightarrow> 's option) \<Rightarrow> 'a list \<Rightarrow> 's \<Rightarrow> 's option" where
  "fold_opt f [] s = Some s"
| "fold_opt f (x # xs) s = (case f x s of None \<Rightarrow> None | Some s' \<Rightarrow> fold_opt f xs s')"

fun cancelRun_fuel :: "nat \<Rightarrow> uuid \<Rightarrow> string \<Rightarrow> pstore \<Rightarrow> pstore option" where
  "cancelRun_fuel 0 i reason s = None"
| "cancelRun_fuel (Suc n) i reason s =
     (case getRun s i of
        None \<Rightarrow> Some s
      | Some run \<Rightarrow> if r_status run \<noteq> Running then Some s
          else (case fold_opt (\<lambda>c. cancelRun_fuel n (lk_childRunId c) reason) (children s i) s of
                  None \<Rightarrow> None
                | Some s' \<Rightarrow> Some (cancel_rows i reason run s')))"

definition cancelRun :: "uuid \<Rightarrow> string \<Rightarrow> pstore \<Rightarrow> pstore option" where
  "cancelRun i reason s = cancelRun_fuel (Suc (length (db_links s))) i reason s"

definition set_reopened :: "unit \<Rightarrow> run_row \<Rightarrow> run_row" where
  "set_reopened = (\<lambda>_ r. r\<lparr>r_status := Running, r_result := None, r_error := None,
      r_activeStepId := None, r_completedAt := None\<rparr>)"

definition reopenErroredRun :: "uuid \<Rightarrow> pstore \<Rightarrow> pstore" where
  "reopenErroredRun i s = (case getRun s i of
     None \<Rightarrow> s
   | Some run \<Rightarrow> if r_status run \<noteq> Errored then s
       else addEvent (Some i) None Warn ''run_reopened'' (Some ''Manual resume from failed step'')
              [(''cursorIndex'', jnat (r_cursorIndex run)), (''previousError'', str_or_null (r_error run))]
              (s\<lparr>db_runs := change r_id i (\<lambda>r. r_status r = Errored) (set_reopened ()) (db_runs s)\<rparr>))"

definition set_progress :: "obj \<times> nat \<Rightarrow> run_row \<Rightarrow> run_row" where
  "set_progress = (\<lambda>(current, cursor) r. r\<lparr>r_current := current, r_cursorIndex := cursor,
      r_activeStepId := None\<rparr>)"

definition updateRunProgress :: "uuid \<Rightarrow> obj \<Rightarrow> nat \<Rightarrow> pstore \<Rightarrow> pstore" where
  "updateRunProgress i current cursor s =
     s\<lparr>db_runs := change r_id i (\<lambda>_. True) (set_progress (stored current, cursor)) (db_runs s)\<rparr>"

definition set_active :: "uuid option \<Rightarrow> run_row \<Rightarrow> run_row" where
  "set_active a r = r\<lparr>r_activeStepId := a\<rparr>"

definition setRunActiveStep :: "uuid \<Rightarrow> uuid option \<Rightarrow> pstore \<Rightarrow> pstore" where
  "setRunActiveStep i stepId s =
     s\<lparr>db_runs := change r_id i (\<lambda>_. True) (set_active stepId) (db_runs s)\<rparr>"

section \<open>Steps\<close>

record create_step =
  cs_runId :: uuid
  cs_stepIndex :: nat
  cs_name :: string
  cs_kind :: step_kind
  cs_input :: obj
  cs_status :: "status option"
  cs_parentStepId :: "uuid option"
  cs_logicalKey :: "string option"
  cs_callbackToken :: "string option"
  cs_metadata :: "obj option"

definition token_or_empty :: "string option \<Rightarrow> string" where
  "token_or_empty t = (case t of None \<Rightarrow> [] | Some x \<Rightarrow> x)"

text \<open>\<open>createStep\<close>; \<open>None\<close> is the violated foreign key of an unknown run, rolled back.\<close>

definition createStep :: "create_step \<Rightarrow> pstore \<Rightarrow> (uuid \<times> pstore) option" where
  "createStep c s0 =
     (if getRun s0 (cs_runId c) = None then None
      else
       (let (i, s) = fresh_uuid s0;
            st = (case cs_status c of None \<Rightarrow> Running | Some x \<Rightarrow> x);
            token = token_or_empty (cs_callbackToken c);
            md = map_option (\<lambda>m. preparePreviewMetadata s [token] m (cs_input c)) (cs_metadata c);
            s1 = s\<lparr>db_steps := db_steps s @ [\<lparr>st_id = i, st_runId = cs_runId c,
                   st_stepIndex = cs_stepIndex c, st_name = cs_name c, st_kind = cs_kind c,
                   st_status = st, st_input = stored (cs_input c), st_result = None,
                   st_error = None, st_wingmanSessionId = None,
                   st_parentStepId = cs_parentStepId c, st_logicalKey = cs_logicalKey c,
                   st_callbackToken = cs_callbackToken c, st_output = None,
                   st_metadata = map_option stored md, st_startedAt = db_clock s,
                   st_completedAt = None\<rparr>]\<rparr>;
            s2 = addEvent (Some (cs_runId c)) (Some i) Info
                   (if st = Queued then ''step_queued'' else ''step_started'') (Some (cs_name c))
                   (compactStepEventData ''started'' None (Some (jsonByteLength (cs_input c)))
                     None None md) s1;
            s3 = registerSecret token s2;
            s4 = (if st \<noteq> Skipped
                  then capture (cs_runId c) i None ResolvedInput ''selected_step_input''
                         (JObj (cs_input c)) [token] s3
                  else s3)
        in Some (i, s4)))"

definition set_started :: "unit \<Rightarrow> step_row \<Rightarrow> step_row" where
  "set_started = (\<lambda>_ st. st\<lparr>st_status := Running\<rparr>)"

text \<open>\<open>startStep\<close>; \<open>None\<close> is the type error on a step that does not exist.\<close>

definition startStep :: "uuid \<Rightarrow> pstore \<Rightarrow> pstore option" where
  "startStep i s =
     (let s1 = s\<lparr>db_steps := change st_id i (\<lambda>_. True) (set_started ()) (db_steps s)\<rparr> in
      case getStep s1 i of
        None \<Rightarrow> None
      | Some st \<Rightarrow> Some (addEvent (Some (st_runId st)) (Some i) Info ''step_started'' (Some (st_name st))
          (compactStepEventData ''started'' None (Some (jsonByteLength (st_input st))) None None
            (st_metadata st)) s1))"

record complete_step =
  cp_id :: uuid
  cp_status :: status
  cp_result :: "obj option"
  cp_output :: "obj option"
  cp_error :: "string option"
  cp_session :: "string option"

definition or_else :: "'a option \<Rightarrow> 'a option \<Rightarrow> 'a option" where
  "or_else a b = (case a of None \<Rightarrow> b | Some x \<Rightarrow> Some x)"

definition set_completed ::
  "status \<times> obj option \<times> obj option \<times> string option \<times> string option \<times> nat \<Rightarrow> step_row \<Rightarrow> step_row" where
  "set_completed = (\<lambda>(stat, result, out, error, session, t) st. st\<lparr>st_status := stat,
      st_result := result, st_output := or_else out (st_output st), st_error := error,
      st_wingmanSessionId := or_else session (st_wingmanSessionId st), st_completedAt := Some t\<rparr>)"

definition set_metadata :: "obj \<Rightarrow> step_row \<Rightarrow> step_row" where
  "set_metadata md st = st\<lparr>st_metadata := Some md\<rparr>"

definition wrapper_kind :: "step_kind \<Rightarrow> bool" where
  "wrapper_kind k = (k \<in> {KBlock, KPipeline, KLoop, KParallel})"

text \<open>The evidence of a completion: the output, then the state written.\<close>

definition capture_completion :: "complete_step \<Rightarrow> step_row \<Rightarrow> pstore \<Rightarrow> pstore" where
  "capture_completion c st s =
     (if st_status st \<noteq> Cancelled \<and> st_status st \<noteq> Skipped then
        (let secrets = [token_or_empty (st_callbackToken st)];
             s1 = (case cp_output c of None \<Rightarrow> s | Some out \<Rightarrow>
                     capture (st_runId st) (st_id st) None ReturnedOutput
                       (if wrapper_kind (st_kind st) then ''wrapper_output_child_evidence_separate''
                        else ''executor_return'') (JObj out) secrets s)
         in (case cp_result c of None \<Rightarrow> s1 | Some res \<Rightarrow>
               capture (st_runId st) (st_id st) None StateWrite ''state_after_assignment''
                 (JObj res) secrets s1))
      else s)"

text \<open>The three statements of \<open>completeStep\<close> around the evidence: the UPDATE, the control flow, the event.\<close>

definition complete_update :: "complete_step \<Rightarrow> pstore \<Rightarrow> pstore" where
  "complete_update c s =
     (let token = (case getStep s (cp_id c) of None \<Rightarrow> [] | Some st \<Rightarrow> token_or_empty (st_callbackToken st))
      in s\<lparr>db_steps := change st_id (cp_id c) (\<lambda>st. st_status st \<noteq> Cancelled)
            (set_completed (cp_status c, map_option stored (cp_result c),
               map_option stored (cp_output c), sanitize_text s [token] (cp_error c),
               cp_session c, db_clock s)) (db_steps s)\<rparr>)"

definition write_control_flow :: "complete_step \<Rightarrow> step_row \<Rightarrow> pstore \<Rightarrow> pstore" where
  "write_control_flow c st s = (case pipelineControlFlow (cp_output c) of
     None \<Rightarrow> s
   | Some cf \<Rightarrow> s\<lparr>db_steps := change st_id (st_id st) (\<lambda>_. True)
       (set_metadata (stored (sanitize_obj s [] (AList.update ''controlFlow'' (JObj cf)
          (case st_metadata st of None \<Rightarrow> [] | Some m \<Rightarrow> m))))) (db_steps s)\<rparr>)"

definition complete_event :: "complete_step \<Rightarrow> step_row \<Rightarrow> pstore \<Rightarrow> pstore" where
  "complete_event c st s =
     addEvent (Some (st_runId st)) (Some (cp_id c)) (if cp_status c = Ok then Info else Warn)
       ''step_completed'' (Some (status_text (cp_status c)))
       (compactStepEventData ''completed'' (Some (cp_status c))
         (Some (jsonByteLength (st_input st)))
         (Some (case cp_result c of None \<Rightarrow> 0 | Some res \<Rightarrow> jsonByteLength res))
         (Some (case cp_output c of None \<Rightarrow> 0 | Some out \<Rightarrow> jsonByteLength out))
         (case getStep s (cp_id c) of None \<Rightarrow> None | Some st' \<Rightarrow> st_metadata st')) s"

text \<open>\<open>completeStep\<close>; \<open>None\<close> is the type error on a step that does not exist, rolled back.\<close>

definition completeStep :: "complete_step \<Rightarrow> pstore \<Rightarrow> pstore option" where
  "completeStep c s =
     (let s1 = complete_update c s in
      case getStep s1 (cp_id c) of
        None \<Rightarrow> None
      | Some st \<Rightarrow> Some (complete_event c st (capture_completion c st (write_control_flow c st s1))))"

definition set_session :: "string \<Rightarrow> step_row \<Rightarrow> step_row" where
  "set_session i st = st\<lparr>st_wingmanSessionId := Some i\<rparr>"

definition setStepSession :: "uuid \<Rightarrow> string \<Rightarrow> pstore \<Rightarrow> pstore" where
  "setStepSession i session s =
     s\<lparr>db_steps := change st_id i (\<lambda>_. True) (set_session session) (db_steps s)\<rparr>"

definition set_token :: "string \<Rightarrow> step_row \<Rightarrow> step_row" where
  "set_token t st = st\<lparr>st_callbackToken := Some t\<rparr>"

definition setStepCallbackToken :: "uuid \<Rightarrow> string \<Rightarrow> pstore \<Rightarrow> pstore" where
  "setStepCallbackToken i token s =
     s\<lparr>db_steps := change st_id i (\<lambda>_. True) (set_token token) (db_steps s)\<rparr>"

section \<open>Idempotency and router claims\<close>

datatype reservation = New | Pending | Existing uuid | Conflict

definition learning_lookup :: "pstore \<Rightarrow> string \<times> string \<times> string \<Rightarrow> learning_row option" where
  "learning_lookup s k = row le_key k (db_learning s)"

definition reserveLearningRun ::
  "string \<Rightarrow> string \<Rightarrow> string \<Rightarrow> string \<Rightarrow> pstore \<Rightarrow> reservation \<times> pstore" where
  "reserveLearningRun ownerNpub definitionId key inputHash s =
     (let k = (ownerNpub, definitionId, key);
          inserted = (learning_lookup s k = None);
          s1 = (if inserted then s\<lparr>db_learning := db_learning s @
                  [\<lparr>le_key = k, le_inputHash = inputHash, le_runId = None, le_createdAt = db_clock s\<rparr>]\<rparr>
                else s)
      in case learning_lookup s1 k of
           None \<Rightarrow> (Conflict, s1)
         | Some e \<Rightarrow>
            (if le_inputHash e \<noteq> inputHash then (Conflict, s1)
             else (case le_runId e of Some r \<Rightarrow> (Existing r, s1)
                   | None \<Rightarrow> (if inserted then New else Pending, s1))))"

definition set_learning_run :: "uuid \<Rightarrow> learning_row \<Rightarrow> learning_row" where
  "set_learning_run r e = e\<lparr>le_runId := Some r\<rparr>"

definition bindLearningRun :: "string \<Rightarrow> string \<Rightarrow> string \<Rightarrow> uuid \<Rightarrow> pstore \<Rightarrow> pstore" where
  "bindLearningRun ownerNpub definitionId key runId s =
     s\<lparr>db_learning := change le_key (ownerNpub, definitionId, key) (\<lambda>e. le_runId e = None)
         (set_learning_run runId) (db_learning s)\<rparr>"

definition releaseLearningRun :: "string \<Rightarrow> string \<Rightarrow> string \<Rightarrow> pstore \<Rightarrow> pstore" where
  "releaseLearningRun ownerNpub definitionId key s =
     s\<lparr>db_learning := filter (\<lambda>e. \<not> (le_key e = (ownerNpub, definitionId, key) \<and> le_runId e = None))
         (db_learning s)\<rparr>"

definition claimFlightDeckRouterSource :: "string \<Rightarrow> string \<Rightarrow> pstore \<Rightarrow> bool \<times> pstore" where
  "claimFlightDeckRouterSource sourceMessageId agentNpub s =
     (if row de_sourceMessageId sourceMessageId (db_decisions s) = None
      then (True, s\<lparr>db_decisions := db_decisions s @ [\<lparr>de_sourceMessageId = sourceMessageId,
              de_agentNpub = agentNpub, de_status = ''routing'', de_runId = None, de_evidence = [],
              de_createdAt = db_clock s, de_updatedAt = db_clock s\<rparr>]\<rparr>)
      else (False, s))"

definition set_decision :: "string \<times> uuid option \<times> obj \<times> nat \<Rightarrow> decision_row \<Rightarrow> decision_row" where
  "set_decision = (\<lambda>(st, runId, ev, t) d. d\<lparr>de_status := st, de_runId := runId, de_evidence := ev,
      de_updatedAt := t\<rparr>)"

definition completeFlightDeckRouterDecision ::
  "string \<Rightarrow> string \<Rightarrow> uuid option \<Rightarrow> obj \<Rightarrow> pstore \<Rightarrow> pstore" where
  "completeFlightDeckRouterDecision sourceMessageId st runId ev s =
     s\<lparr>db_decisions := change de_sourceMessageId sourceMessageId (\<lambda>_. True)
         (set_decision (st, runId, stored ev, db_clock s)) (db_decisions s)\<rparr>"

section \<open>Composition\<close>

definition snapshot :: "pstore \<Rightarrow> uuid \<Rightarrow> snapshot_row option" where
  "snapshot s i = row sn_runId i (db_snapshots s)"

text \<open>\<open>pin\<close>: a run is pinned once; a second pin changes nothing.\<close>

definition pin :: "uuid \<Rightarrow> definition_record \<Rightarrow> run_context \<Rightarrow> pstore \<Rightarrow> pstore" where
  "pin i d cx s = (if snapshot s i \<noteq> None then s
     else s\<lparr>db_snapshots := db_snapshots s @ [\<lparr>sn_runId = i, sn_definition = d, sn_context = cx\<rparr>]\<rparr>)"

text \<open>
  \<open>link\<close>; \<open>None\<close> is a violated constraint: the step already has a child, the child already has a
  parent, or one of the three does not exist.
\<close>

definition link :: "child_link \<Rightarrow> pstore \<Rightarrow> pstore option" where
  "link l s =
     (if row lk_parentStepId (lk_parentStepId l) (db_links s) \<noteq> None
         \<or> row lk_childRunId (lk_childRunId l) (db_links s) \<noteq> None
         \<or> getStep s (lk_parentStepId l) = None
         \<or> getRun s (lk_parentRunId l) = None \<or> getRun s (lk_childRunId l) = None
      then None else Some (s\<lparr>db_links := db_links s @ [l]\<rparr>))"

definition child :: "pstore \<Rightarrow> uuid \<Rightarrow> child_link option" where
  "child s parentStepId = row lk_parentStepId parentStepId (db_links s)"

definition parent :: "pstore \<Rightarrow> uuid \<Rightarrow> child_link option" where
  "parent s childRunId = row lk_childRunId childRunId (db_links s)"

text \<open>\<open>tree\<close>, with the fuel of \<open>cancelRun\<close>.\<close>

fun tree_fuel :: "nat \<Rightarrow> pstore \<Rightarrow> uuid \<Rightarrow> uuid list option" where
  "tree_fuel 0 s i = None"
| "tree_fuel (Suc n) s i =
     (case those (map (\<lambda>l. tree_fuel n s (lk_childRunId l)) (children s i)) of
        None \<Rightarrow> None | Some ts \<Rightarrow> Some (i # concat ts))"

definition tree :: "pstore \<Rightarrow> uuid \<Rightarrow> uuid list option" where
  "tree s i = tree_fuel (Suc (length (db_links s))) s i"

end
