(* ===== verification/Store_Laws.thy ===== *)
theory Store_Laws
  imports Store_Ops
begin

text \<open>
  What the writes of the pipeline database keep. Each UPDATE is an instance of the prelude's
  \<open>key_preserving\<close> contract; from its laws come the reads after a write, the settled outcome of a
  run, the sticky cancellation of a step, the growth of the logs, and the forest of composition
  links with the termination and completeness of the cascading cancellation.
\<close>

section \<open>The assignments of the UPDATE statements\<close>

interpretation outcome: key_preserving r_id set_outcome
  by unfold_locales (simp add: set_outcome_def split: prod.splits)

interpretation reopened: key_preserving r_id set_reopened
  by unfold_locales (simp add: set_reopened_def)

interpretation progress: key_preserving r_id set_progress
  by unfold_locales (simp add: set_progress_def split: prod.splits)

interpretation active: key_preserving r_id set_active
  by unfold_locales (simp add: set_active_def)

interpretation cancelled: key_preserving st_id set_cancelled
  by unfold_locales (simp add: set_cancelled_def split: prod.splits)

interpretation started: key_preserving st_id set_started
  by unfold_locales (simp add: set_started_def)

interpretation completed: key_preserving st_id set_completed
  by unfold_locales (simp add: set_completed_def split: prod.splits)

interpretation metadata: key_preserving st_id set_metadata
  by unfold_locales (simp add: set_metadata_def)

interpretation session: key_preserving st_id set_session
  by unfold_locales (simp add: set_session_def)

interpretation token: key_preserving st_id set_token
  by unfold_locales (simp add: set_token_def)

interpretation learned: key_preserving le_key set_learning_run
  by unfold_locales (simp add: set_learning_run_def)

interpretation decided: key_preserving de_sourceMessageId set_decision
  by unfold_locales (simp add: set_decision_def split: prod.splits)

section \<open>Frames of the logs\<close>

lemma addEvent_frame [simp]:
  "db_runs (addEvent a b c d e f s) = db_runs s"
  "db_steps (addEvent a b c d e f s) = db_steps s"
  "db_links (addEvent a b c d e f s) = db_links s"
  "db_snapshots (addEvent a b c d e f s) = db_snapshots s"
  "db_callbacks (addEvent a b c d e f s) = db_callbacks s"
  "db_evidence (addEvent a b c d e f s) = db_evidence s"
  "db_clock (addEvent a b c d e f s) = db_clock s"
  "db_secrets (addEvent a b c d e f s) = db_secrets s"
  "db_redact (addEvent a b c d e f s) = db_redact s"
  "db_nextId (addEvent a b c d e f s) = Suc (db_nextId s)"
  by (simp_all add: addEvent_def)

lemma addEvent_events: "prefix (db_events s) (db_events (addEvent a b c d e f s))"
  by (simp add: addEvent_def)

lemma fold_addEvent_frame [simp]:
  "db_runs (fold (\<lambda>x. addEvent (f x) (g x) c d e h) xs s) = db_runs s"
  "db_steps (fold (\<lambda>x. addEvent (f x) (g x) c d e h) xs s) = db_steps s"
  "db_links (fold (\<lambda>x. addEvent (f x) (g x) c d e h) xs s) = db_links s"
  "db_snapshots (fold (\<lambda>x. addEvent (f x) (g x) c d e h) xs s) = db_snapshots s"
  "db_callbacks (fold (\<lambda>x. addEvent (f x) (g x) c d e h) xs s) = db_callbacks s"
  "db_evidence (fold (\<lambda>x. addEvent (f x) (g x) c d e h) xs s) = db_evidence s"
  "db_nextId (fold (\<lambda>x. addEvent (f x) (g x) c d e h) xs s) = db_nextId s + length xs"
  by (induction xs arbitrary: s) simp_all

lemma fold_addEvent_events:
  "prefix (db_events s) (db_events (fold (\<lambda>x. addEvent (f x) (g x) c d e h) xs s))"
  by (induction xs arbitrary: s) (auto intro: prefix_order.trans addEvent_events)

lemma capture_frame [simp]:
  "db_runs (capture a b c d e f g s) = db_runs s"
  "db_steps (capture a b c d e f g s) = db_steps s"
  "db_links (capture a b c d e f g s) = db_links s"
  "db_snapshots (capture a b c d e f g s) = db_snapshots s"
  "db_callbacks (capture a b c d e f g s) = db_callbacks s"
  "db_events (capture a b c d e f g s) = db_events s"
  "db_clock (capture a b c d e f g s) = db_clock s"
  "db_nextId (capture a b c d e f g s) = db_nextId s"
  by (simp_all add: capture_def)

lemma capture_evidence: "prefix (db_evidence s) (db_evidence (capture a b c d e f g s))"
  by (simp add: capture_def)

lemma registerSecret_frame [simp]:
  "db_runs (registerSecret x s) = db_runs s"
  "db_steps (registerSecret x s) = db_steps s"
  "db_links (registerSecret x s) = db_links s"
  "db_snapshots (registerSecret x s) = db_snapshots s"
  "db_callbacks (registerSecret x s) = db_callbacks s"
  "db_events (registerSecret x s) = db_events s"
  "db_evidence (registerSecret x s) = db_evidence s"
  "db_clock (registerSecret x s) = db_clock s"
  "db_nextId (registerSecret x s) = db_nextId s"
  by (simp_all add: registerSecret_def)

lemma capture_completion_frame [simp]:
  "db_runs (capture_completion c st s) = db_runs s"
  "db_steps (capture_completion c st s) = db_steps s"
  "db_links (capture_completion c st s) = db_links s"
  "db_snapshots (capture_completion c st s) = db_snapshots s"
  "db_callbacks (capture_completion c st s) = db_callbacks s"
  "db_events (capture_completion c st s) = db_events s"
  "db_clock (capture_completion c st s) = db_clock s"
  "db_nextId (capture_completion c st s) = db_nextId s"
  by (simp_all add: capture_completion_def Let_def split: option.splits)

lemma capture_completion_evidence: "prefix (db_evidence s) (db_evidence (capture_completion c st s))"
  by (auto simp: capture_completion_def Let_def split: option.splits
      intro: capture_evidence prefix_order.trans)

lemma complete_update_frame [simp]:
  "db_runs (complete_update c s) = db_runs s"
  "db_links (complete_update c s) = db_links s"
  "db_snapshots (complete_update c s) = db_snapshots s"
  "db_callbacks (complete_update c s) = db_callbacks s"
  "db_events (complete_update c s) = db_events s"
  "db_evidence (complete_update c s) = db_evidence s"
  "db_nextId (complete_update c s) = db_nextId s"
  by (simp_all add: complete_update_def Let_def)

lemma write_control_flow_frame [simp]:
  "db_runs (write_control_flow c st s) = db_runs s"
  "db_links (write_control_flow c st s) = db_links s"
  "db_snapshots (write_control_flow c st s) = db_snapshots s"
  "db_callbacks (write_control_flow c st s) = db_callbacks s"
  "db_events (write_control_flow c st s) = db_events s"
  "db_evidence (write_control_flow c st s) = db_evidence s"
  "db_nextId (write_control_flow c st s) = db_nextId s"
  by (simp_all add: write_control_flow_def split: option.splits)

lemma complete_event_frame [simp]:
  "db_runs (complete_event c st s) = db_runs s"
  "db_steps (complete_event c st s) = db_steps s"
  "db_links (complete_event c st s) = db_links s"
  "db_snapshots (complete_event c st s) = db_snapshots s"
  "db_callbacks (complete_event c st s) = db_callbacks s"
  "db_evidence (complete_event c st s) = db_evidence s"
  "db_nextId (complete_event c st s) = Suc (db_nextId s)"
  by (simp_all add: complete_event_def)

lemma complete_event_events: "prefix (db_events s) (db_events (complete_event c st s))"
  by (simp add: complete_event_def addEvent_events)

section \<open>Reads after writes\<close>

lemma getRun_addEvent [simp]: "getRun (addEvent a b c d e f s) = getRun s"
  by (simp add: getRun_def fun_eq_iff)

lemma getStep_addEvent [simp]: "getStep (addEvent a b c d e f s) = getStep s"
  by (simp add: getStep_def fun_eq_iff)

lemma getRun_fold_addEvent [simp]:
  "getRun (fold (\<lambda>x. addEvent (f x) (g x) c d e h) xs s) = getRun s"
  by (simp add: getRun_def fun_eq_iff)

lemma getRun_capture [simp]: "getRun (capture a b c d e f g s) = getRun s"
  by (simp add: getRun_def fun_eq_iff)

lemma getStep_capture [simp]: "getStep (capture a b c d e f g s) = getStep s"
  by (simp add: getStep_def fun_eq_iff)

lemma getRun_registerSecret [simp]: "getRun (registerSecret x s) = getRun s"
  by (simp add: getRun_def fun_eq_iff)

lemma getStep_registerSecret [simp]: "getStep (registerSecret x s) = getStep s"
  by (simp add: getStep_def fun_eq_iff)

lemma getStep_capture_completion [simp]: "getStep (capture_completion c st s) = getStep s"
  by (simp add: getStep_def fun_eq_iff)

lemma getRun_completeRun [table_simps]:
  "getRun (completeRun i stat res err s) j = map_option
     (\<lambda>r. if j = i \<and> r_status r = Running
          then set_outcome (stat, map_option stored res, sanitize_text s [] err, db_clock s) r else r)
     (getRun s j)"
  by (simp add: completeRun_def getRun_def outcome.row_change)

lemma getRun_updateRunProgress [table_simps]:
  "getRun (updateRunProgress i cur k s) j = map_option
     (\<lambda>r. if j = i then set_progress (stored cur, k) r else r) (getRun s j)"
  by (simp add: updateRunProgress_def getRun_def progress.row_change)

lemma getRun_setRunActiveStep [table_simps]:
  "getRun (setRunActiveStep i a s) j = map_option (\<lambda>r. if j = i then set_active a r else r) (getRun s j)"
  by (simp add: setRunActiveStep_def getRun_def active.row_change)

lemma getRun_reopen [table_simps]:
  "getRun (reopenErroredRun i s) j = map_option
     (\<lambda>r. if j = i \<and> r_status r = Errored then set_reopened () r else r) (getRun s j)"
proof (cases "getRun s i")
  case None
  then show ?thesis
    by (cases "j = i") (auto simp: reopenErroredRun_def option.map_ident)
next
  case (Some r)
  show ?thesis
  proof (cases "r_status r = Errored")
    case True
    with Some show ?thesis
      by (simp add: reopenErroredRun_def) (simp add: getRun_def reopened.row_change)
  next
    case False
    with Some show ?thesis
      by (cases "j = i") (auto simp: reopenErroredRun_def option.map_ident)
  qed
qed

lemma steps_of_run_ops [simp]:
  "db_steps (completeRun i a b c s) = db_steps s"
  "db_steps (updateRunProgress i cur k s) = db_steps s"
  "db_steps (setRunActiveStep i act s) = db_steps s"
  "db_steps (reopenErroredRun i s) = db_steps s"
  by (simp_all add: completeRun_def updateRunProgress_def setRunActiveStep_def
      reopenErroredRun_def split: option.splits)

lemma getStep_run_ops [simp]:
  "getStep (completeRun i a b c s) = getStep s"
  "getStep (updateRunProgress i cur k s) = getStep s"
  "getStep (setRunActiveStep i act s) = getStep s"
  by (simp_all add: getStep_def fun_eq_iff)

lemma getRun_createStep:
  "createStep c s = Some (i, t) \<Longrightarrow> getRun t = getRun s"
  by (auto simp: createStep_def fresh_uuid_def Let_def getRun_def fun_eq_iff split: if_splits)

lemma getStep_createStep:
  assumes "createStep c s = Some (i, t)"
  shows "i = db_nextId s"
    and "getStep t j = (case getStep s j of Some st \<Rightarrow> Some st
           | None \<Rightarrow> if j = i then getStep t i else None)"
  using assms
  by (auto simp: createStep_def fresh_uuid_def Let_def getStep_def row_append
      split: if_splits option.splits)

lemma getRun_completeStep: "completeStep c s = Some t \<Longrightarrow> getRun t = getRun s"
  by (auto simp: completeStep_def Let_def getRun_def fun_eq_iff split: option.splits)

lemma getStep_complete_event [simp]: "getStep (complete_event c st s) = getStep s"
  by (simp add: getStep_def fun_eq_iff)

definition completed_row :: "complete_step \<Rightarrow> pstore \<Rightarrow> step_row \<Rightarrow> step_row" where
  "completed_row c s st = (if st_status st \<noteq> Cancelled
     then set_completed (cp_status c, map_option stored (cp_result c), map_option stored (cp_output c),
       sanitize_text s [token_or_empty (st_callbackToken st)] (cp_error c), cp_session c, db_clock s) st
     else st)"

lemma getStep_complete_update:
  "getStep (complete_update c s) j = (if j = cp_id c then map_option (completed_row c s) (getStep s j)
     else getStep s j)"
  by (cases "getStep s (cp_id c)")
    (auto simp: complete_update_def Let_def getStep_def completed.row_change completed_row_def
      option.map_ident)

lemma getStep_write_control_flow:
  "getStep (write_control_flow c st s) j = map_option (\<lambda>r. if j = st_id st
     then (case pipelineControlFlow (cp_output c) of None \<Rightarrow> r
           | Some cf \<Rightarrow> set_metadata (stored (sanitize_obj s [] (AList.update ''controlFlow'' (JObj cf)
               (case st_metadata st of None \<Rightarrow> [] | Some m \<Rightarrow> m)))) r) else r) (getStep s j)"
proof (cases "pipelineControlFlow (cp_output c)")
  case None
  then show ?thesis
    by (cases "getStep s j") (simp_all add: write_control_flow_def)
next
  case (Some cf)
  then show ?thesis
    by (cases "row st_id j (db_steps s)")
      (auto simp: write_control_flow_def getStep_def metadata.row_change Let_def)
qed

lemma completed_row_id: "st_id (completed_row c s st) = st_id st"
  by (simp add: completed_row_def completed.key_upd)

lemma getRun_startStep: "startStep i s = Some t \<Longrightarrow> getRun t = getRun s"
  by (auto simp: startStep_def Let_def getRun_def fun_eq_iff split: option.splits)

text \<open>The step a completion leaves, and the frame.\<close>

lemma completeStep_SomeE:
  assumes "completeStep c s = Some t"
  obtains st where "getStep s (cp_id c) = Some st"
    and "t = complete_event c (completed_row c s st) (capture_completion c (completed_row c s st)
           (write_control_flow c (completed_row c s st) (complete_update c s)))"
  using assms by (auto simp: completeStep_def Let_def getStep_complete_update split: option.splits)

lemma getStep_completeStep_other:
  assumes "completeStep c s = Some t" and "j \<noteq> cp_id c"
  shows "getStep t j = getStep s j"
  using assms(1)
proof (rule completeStep_SomeE)
  fix st assume "getStep s (cp_id c) = Some st" and t: "t = complete_event c (completed_row c s st)
     (capture_completion c (completed_row c s st)
       (write_control_flow c (completed_row c s st) (complete_update c s)))"
  then have "st_id (completed_row c s st) = cp_id c"
    by (auto simp: getStep_def completed_row_id dest: row_SomeD)
  with assms(2) t show ?thesis
    by (simp add: getStep_write_control_flow getStep_complete_update option.map_ident)
qed

lemma getStep_completeStep_upd:
  assumes "completeStep c s = Some t" and "getStep s (cp_id c) = Some st"
  shows "\<exists>md. getStep t (cp_id c) = Some ((completed_row c s st)\<lparr>st_metadata := md\<rparr>)"
  using assms(1)
proof (rule completeStep_SomeE)
  fix st' assume "getStep s (cp_id c) = Some st'" and "t = complete_event c (completed_row c s st')
     (capture_completion c (completed_row c s st')
       (write_control_flow c (completed_row c s st') (complete_update c s)))"
  with assms(2) have t: "t = complete_event c (completed_row c s st)
     (capture_completion c (completed_row c s st)
       (write_control_flow c (completed_row c s st) (complete_update c s)))" by simp
  show ?thesis
  proof (cases "pipelineControlFlow (cp_output c)")
    case None
    then have "getStep t (cp_id c) =
        Some ((completed_row c s st)\<lparr>st_metadata := st_metadata (completed_row c s st)\<rparr>)"
      using t assms(2) by (simp add: getStep_write_control_flow getStep_complete_update)
    then show ?thesis ..
  next
    case (Some cf)
    have "st_id (completed_row c s st) = cp_id c"
      using assms(2) by (auto simp: getStep_def completed_row_id dest: row_SomeD)
    then show ?thesis
      using Some t assms(2)
      by (auto simp: getStep_write_control_flow getStep_complete_update set_metadata_def)
  qed
qed

lemma getStep_completeStep:
  assumes "completeStep c s = Some t" and "getStep s (cp_id c) = Some st" and "st_status st \<noteq> Cancelled"
  shows "\<exists>md err. getStep t (cp_id c) = Some (st\<lparr>st_status := cp_status c,
     st_result := map_option stored (cp_result c),
     st_output := or_else (map_option stored (cp_output c)) (st_output st), st_error := err,
     st_wingmanSessionId := or_else (cp_session c) (st_wingmanSessionId st),
     st_completedAt := Some (db_clock s), st_metadata := md\<rparr>)"
proof -
  obtain md where "getStep t (cp_id c) = Some ((completed_row c s st)\<lparr>st_metadata := md\<rparr>)"
    using getStep_completeStep_upd [OF assms(1,2)] by blast
  then show ?thesis
    using assms(3) by (intro exI [of _ md] exI) (simp add: completed_row_def set_completed_def)
qed

lemma getStep_completeStep_cancelled:
  assumes "completeStep c s = Some t" and "getStep s (cp_id c) = Some st" and "st_status st = Cancelled"
  shows "\<exists>md. getStep t (cp_id c) = Some (st\<lparr>st_metadata := md\<rparr>)"
  using getStep_completeStep_upd [OF assms(1,2)] assms(3) by (simp add: completed_row_def)

lemma completeStep_defined: "completeStep c s = None \<longleftrightarrow> getStep s (cp_id c) = None"
  by (auto simp: completeStep_def Let_def getStep_complete_update split: option.splits)

lemma getStep_startStep:
  "startStep i s = Some t \<Longrightarrow> getStep t j = map_option (\<lambda>st. if j = i then set_started () st else st) (getStep s j)"
  by (auto simp: startStep_def Let_def split: option.splits)
    (simp add: getStep_def started.row_change)

section \<open>Cancellation of one run\<close>

lemma fold_cancel_steps:
  "fold (\<lambda>st rows. change st_id (st_id st) open_step (set_cancelled a) rows) xs rows =
     map (\<lambda>st. if st_id st \<in> st_id ` set xs \<and> open_step st then set_cancelled a st else st) rows"
proof (induction xs arbitrary: rows)
  case Nil
  then show ?case by (simp add: map_idI)
next
  case (Cons x xs)
  have closed: "\<not> open_step (set_cancelled a st)" for st
    by (simp add: open_step_def set_cancelled_def split: prod.splits)
  have "st_id (set_cancelled a st) = st_id st" for st by (rule cancelled.key_upd)
  with Cons.IH closed show ?case by (auto simp: change_def)
qed

lemma cancel_rows_runs:
  "getRun (cancel_rows i reason run s) j = map_option (\<lambda>r. if j = i \<and> r_status r = Running
     then set_outcome (Cancelled, Some (stored (r_current run)), Some reason, db_clock s) r else r)
     (getRun s j)"
  by (simp add: cancel_rows_def Let_def) (simp add: getRun_def outcome.row_change)

lemma cancel_rows_steps:
  "db_steps (cancel_rows i reason run s) = map (\<lambda>st.
     if st_id st \<in> st_id ` {x \<in> set (db_steps s). st_runId x = i \<and> open_step x} \<and> open_step st
     then set_cancelled (reason, db_clock s) st else st) (db_steps s)"
proof -
  have "set (filter open_step (listSteps s i)) = {x \<in> set (db_steps s). st_runId x = i \<and> open_step x}"
    by (auto simp: listSteps_def)
  then show ?thesis
    by (simp add: cancel_rows_def Let_def fold_cancel_steps)
qed

lemma cancel_rows_frame [simp]:
  "db_links (cancel_rows i reason run s) = db_links s"
  "db_snapshots (cancel_rows i reason run s) = db_snapshots s"
  "db_callbacks (cancel_rows i reason run s) = db_callbacks s"
  "db_evidence (cancel_rows i reason run s) = db_evidence s"
  "db_nextId s \<le> db_nextId (cancel_rows i reason run s)"
  by (simp_all add: cancel_rows_def Let_def)

lemma cancel_rows_events: "prefix (db_events s) (db_events (cancel_rows i reason run s))"
  unfolding cancel_rows_def Let_def
  by (rule prefix_order.trans [OF _ addEvent_events],
      rule prefix_order.trans [OF _ fold_addEvent_events]) simp

lemma map_r_id_cancel_rows [simp]:
  "map r_id (db_runs (cancel_rows i reason run s)) = map r_id (db_runs s)"
  by (simp add: cancel_rows_def Let_def outcome.keys_change)

lemma map_st_id_cancel_rows [simp]:
  "map st_id (db_steps (cancel_rows i reason run s)) = map st_id (db_steps s)"
  by (simp add: cancel_rows_steps cancelled.key_upd)

section \<open>Relations every write keeps\<close>

text \<open>
  The contract between the database and the code that runs pipelines: a reflexive and transitive
  relation that each write of the database respects. The client's lemma, that a run of the engine
  respects it too, is proved once for every such relation.
\<close>

text \<open>The statuses a step is completed with; it is cancelled only by \<open>cancelRun\<close>.\<close>

definition finished :: "status \<Rightarrow> bool" where
  "finished st = (st \<in> {Ok, NeedsInput, Errored, Skipped})"

lemma finished_simps [simp]:
  "finished Ok" "finished NeedsInput" "finished Errored" "finished Skipped"
  "\<not> finished Running" "\<not> finished Queued" "\<not> finished Cancelled"
  by (simp_all add: finished_def)

definition is_running :: "pstore \<Rightarrow> uuid \<Rightarrow> bool" where
  "is_running s i = (case getRun s i of None \<Rightarrow> False | Some r \<Rightarrow> r_status r = Running)"

locale store_relation = progress_order R for R :: "pstore \<Rightarrow> pstore \<Rightarrow> bool" +
  assumes addEvent_R: "R s (addEvent a b c d e f s)"
    and capture_R: "R s (capture x y n k q v xs s)"
    and registerSecret_R: "R s (registerSecret w s)"
    and createStep_R: "cs_status cst \<noteq> Some Cancelled \<Longrightarrow> createStep cst s = Some (i, t) \<Longrightarrow> R s t"
    and startStep_R: "startStep i s = Some t \<Longrightarrow> getStep s i = Some st \<Longrightarrow> st_status st = Queued \<Longrightarrow> R s t"
    and fresh_R: "R s (snd (fresh_uuid s))"
    and completeStep_R: "finished (cp_status cpl) \<Longrightarrow> completeStep cpl s = Some t \<Longrightarrow> R s t"
    and completeRun_R: "stat \<noteq> Running \<Longrightarrow> R s (completeRun i stat res err s)"
    and cancel_rows_R: "is_running s i \<Longrightarrow> R s (cancel_rows i reason run s)"
    and updateRunProgress_R: "R s (updateRunProgress i cur curs s)"
    and setRunActiveStep_R: "R s (setRunActiveStep i act s)"
    and setStepSession_R: "R s (setStepSession i sess s)"
    and setStepCallbackToken_R: "R s (setStepCallbackToken i tok s)"
    and addCallback_R: "addCallback i acc pl err s = Some t \<Longrightarrow> R s t"
    and spawn_R: "getRun s p = Some r \<Longrightarrow> createRun cr s = (ch, s1) \<Longrightarrow>
       link \<lparr>lk_parentRunId = p, lk_parentStepId = stp, lk_childRunId = ch, lk_deadline = dl\<rparr>
         (pin ch def cx s1) = Some t \<Longrightarrow> R s t"
    and create_R: "createRun cr s = (ch, s1) \<Longrightarrow> R s (pin ch def cx s1)"

end
