(* ===== verification/Store_Invariants.thy ===== *)
theory Store_Invariants
  imports Store_Laws
begin

text \<open>
  The four relations of the pipeline database, each an interpretation of \<open>store_relation\<close>: the
  outcome of a settled run is frozen, a step keeps its identity and its cancellation, the logs
  only grow, and well-formedness is kept. Then the cascading cancellation: it returns on every
  well-formed database, and leaves no run and no step of the cancelled subtree open.
\<close>

section \<open>Settled runs\<close>

definition outcome_of :: "run_row \<Rightarrow> status \<times> obj option \<times> string option \<times> nat option" where
  "outcome_of r = (r_status r, r_result r, r_error r, r_completedAt r)"

definition settled_kept :: "pstore \<Rightarrow> pstore \<Rightarrow> bool" where
  "settled_kept s t \<longleftrightarrow> (\<forall>i r. getRun s i = Some r \<longrightarrow>
     (\<exists>r'. getRun t i = Some r' \<and> r_input r' = r_input r \<and>
        (r_status r \<noteq> Running \<longrightarrow> outcome_of r' = outcome_of r)))"

lemma settled_kept_runs: "getRun t = getRun s \<Longrightarrow> settled_kept s t"
  by (auto simp: settled_kept_def)

lemma settled_kept_map:
  "(\<And>j. getRun t j = map_option (f j) (getRun s j)) \<Longrightarrow>
   (\<And>j r. r_input (f j r) = r_input r \<and> (r_status r \<noteq> Running \<longrightarrow> outcome_of (f j r) = outcome_of r)) \<Longrightarrow>
   settled_kept s t"
  by (simp add: settled_kept_def)

lemma getRun_append:
  "getRun s i = Some r \<Longrightarrow> db_runs t = db_runs s @ rs \<Longrightarrow> getRun t i = Some r"
  by (simp add: getRun_def row_append)

lemma spawn_runs:
  assumes "createRun cr s = (ch, s1)" and "link l (pin ch d cx s1) = Some t"
  shows "\<exists>r. db_runs t = db_runs s @ [r] \<and> r_id r = db_nextId s \<and> r_status r = Running \<and>
           r_completedAt r = None"
    and "db_steps t = db_steps s" and "db_events t = db_events s"
    and "db_evidence t = db_evidence s" and "db_callbacks t = db_callbacks s"
    and "db_links t = db_links s @ [l]" and "db_nextId t = Suc (db_nextId s)" and "ch = db_nextId s"
    and "prefix (db_snapshots s) (db_snapshots t)"
  using assms by (auto simp: createRun_def link_def pin_def Let_def split: if_splits)

lemma create_runs:
  assumes "createRun cr s = (ch, s1)"
  shows "\<exists>r. db_runs (pin ch d cx s1) = db_runs s @ [r] \<and> r_id r = db_nextId s \<and>
           r_status r = Running \<and> r_completedAt r = None"
    and "db_steps (pin ch d cx s1) = db_steps s" and "db_events (pin ch d cx s1) = db_events s"
    and "db_evidence (pin ch d cx s1) = db_evidence s" and "db_callbacks (pin ch d cx s1) = db_callbacks s"
    and "db_links (pin ch d cx s1) = db_links s" and "db_nextId (pin ch d cx s1) = Suc (db_nextId s)"
    and "ch = db_nextId s" and "prefix (db_snapshots s) (db_snapshots (pin ch d cx s1))"
    and "db_clock (pin ch d cx s1) = db_clock s"
  using assms by (auto simp: createRun_def pin_def Let_def)

interpretation settled: store_relation settled_kept
proof unfold_locales
  fix cr s ch s1 d cx assume "createRun cr s = (ch, s1)"
  from create_runs(1) [OF this] show "settled_kept s (pin ch d cx s1)"
    by (auto simp: settled_kept_def dest: getRun_append)
next
  fix s show "settled_kept s (snd (fresh_uuid s))"
    by (rule settled_kept_runs) (simp add: fresh_uuid_def getRun_def fun_eq_iff)
next
  fix s :: pstore show "settled_kept s s" by (simp add: settled_kept_def)
next
  fix s t u assume "settled_kept s t" and "settled_kept t u"
  then show "settled_kept s u"
    unfolding settled_kept_def outcome_of_def by (metis prod.inject)
next
  fix s a b c d e f show "settled_kept s (addEvent a b c d e f s)"
    by (rule settled_kept_runs) simp
next
  fix s x y n k q v xs show "settled_kept s (capture x y n k q v xs s)"
    by (rule settled_kept_runs) simp
next
  fix s w show "settled_kept s (registerSecret w s)"
    by (rule settled_kept_runs) simp
next
  fix s cst i t assume "createStep cst s = Some (i, t)"
  then show "settled_kept s t" by (intro settled_kept_runs getRun_createStep)
next
  fix s i t st assume "startStep i s = Some t"
  then show "settled_kept s t" by (intro settled_kept_runs getRun_startStep)
next
  fix s cpl t assume "completeStep cpl s = Some t"
  then show "settled_kept s t" by (intro settled_kept_runs getRun_completeStep)
next
  fix s i stat res err assume "stat \<noteq> Running"
  show "settled_kept s (completeRun i stat res err s)"
    by (rule settled_kept_map, rule getRun_completeRun) (auto simp: set_outcome_def)
next
  fix s i reason run show "settled_kept s (cancel_rows i reason run s)"
    by (rule settled_kept_map, rule cancel_rows_runs) (auto simp: set_outcome_def)
next
  fix s i cur curs show "settled_kept s (updateRunProgress i cur curs s)"
    by (rule settled_kept_map, rule getRun_updateRunProgress) (auto simp: set_progress_def outcome_of_def)
next
  fix s i act show "settled_kept s (setRunActiveStep i act s)"
    by (rule settled_kept_map, rule getRun_setRunActiveStep) (auto simp: set_active_def outcome_of_def)
next
  fix s i sess show "settled_kept s (setStepSession i sess s)"
    by (rule settled_kept_runs) (simp add: setStepSession_def getRun_def fun_eq_iff)
next
  fix s i tok show "settled_kept s (setStepCallbackToken i tok s)"
    by (rule settled_kept_runs) (simp add: setStepCallbackToken_def getRun_def fun_eq_iff)
next
  fix s i acc pl err t assume "addCallback i acc pl err s = Some t"
  then show "settled_kept s t"
    by (intro settled_kept_runs) (auto simp: addCallback_def getRun_def fun_eq_iff split: if_splits)
next
  fix s p r cr ch s1 stp dl def cx t
  assume "createRun cr s = (ch, s1)" and "link \<lparr>lk_parentRunId = p, lk_parentStepId = stp,
    lk_childRunId = ch, lk_deadline = dl\<rparr> (pin ch def cx s1) = Some t"
  from spawn_runs(1) [OF this] show "settled_kept s t"
    by (auto simp: settled_kept_def dest: getRun_append)
qed

section \<open>Steps keep their identity and their cancellation\<close>

definition step_identity ::
  "step_row \<Rightarrow> uuid \<times> uuid \<times> nat \<times> string \<times> step_kind \<times> obj \<times> uuid option \<times> string option" where
  "step_identity st = (st_id st, st_runId st, st_stepIndex st, st_name st, st_kind st, st_input st,
     st_parentStepId st, st_logicalKey st)"

text \<open>A step is queued, then running, then closed; it never goes back.\<close>

fun rank :: "status \<Rightarrow> nat" where
  "rank Queued = 0"
| "rank Running = 1"
| "rank _ = 2"

lemma rank_finished: "finished st \<Longrightarrow> rank st = 2"
  by (cases st) auto

lemma rank_le: "rank st \<le> 2"
  by (cases st) auto

definition steps_kept :: "pstore \<Rightarrow> pstore \<Rightarrow> bool" where
  "steps_kept s t \<longleftrightarrow> (\<forall>i st. getStep s i = Some st \<longrightarrow>
     (\<exists>st'. getStep t i = Some st' \<and> step_identity st' = step_identity st \<and>
        (st_status st = Cancelled \<longrightarrow> st_status st' = Cancelled) \<and>
        rank (st_status st) \<le> rank (st_status st')))"

lemma steps_kept_steps: "getStep t = getStep s \<Longrightarrow> steps_kept s t"
  by (auto simp: steps_kept_def)

lemma steps_kept_map:
  "(\<And>j. getStep t j = map_option (f j) (getStep s j)) \<Longrightarrow>
   (\<And>j st. getStep s j = Some st \<Longrightarrow> step_identity (f j st) = step_identity st \<and>
       (st_status st = Cancelled \<longrightarrow> st_status (f j st) = Cancelled) \<and>
       rank (st_status st) \<le> rank (st_status (f j st))) \<Longrightarrow>
   steps_kept s t"
  by (simp add: steps_kept_def)

lemma getStep_cancel_rows:
  "\<exists>P. getStep (cancel_rows i reason run s) j = map_option (\<lambda>st. if P st \<and> open_step st
     then set_cancelled (reason, db_clock s) st else st) (getStep s j)"
  unfolding getStep_def cancel_rows_steps
  by (subst row_map) (auto simp: cancelled.key_upd)

lemma completeStep_kept:
  assumes "completeStep cpl s = Some t" and "finished (cp_status cpl)"
  shows "steps_kept s t"
  unfolding steps_kept_def
proof (intro allI impI)
  fix i st assume st: "getStep s i = Some st"
  show "\<exists>st'. getStep t i = Some st' \<and> step_identity st' = step_identity st \<and>
      (st_status st = Cancelled \<longrightarrow> st_status st' = Cancelled) \<and> rank (st_status st) \<le> rank (st_status st')"
  proof (cases "i = cp_id cpl")
    case True
    with getStep_completeStep_upd [OF assms(1)] st show ?thesis
      using assms(2) rank_le [of "st_status st"] rank_finished [of "cp_status cpl"]
      by (fastforce simp: completed_row_def set_completed_def step_identity_def split: if_splits)
  next
    case False
    with getStep_completeStep_other [OF assms(1)] st show ?thesis by auto
  qed
qed

interpretation kept: store_relation steps_kept
proof unfold_locales
  fix cr s ch s1 d cx assume "createRun cr s = (ch, s1)"
  from create_runs(2) [OF this] show "steps_kept s (pin ch d cx s1)"
    by (intro steps_kept_steps) (simp add: getStep_def fun_eq_iff)
next
  fix s show "steps_kept s (snd (fresh_uuid s))"
    by (rule steps_kept_steps) (simp add: fresh_uuid_def getStep_def fun_eq_iff)
next
  fix s :: pstore show "steps_kept s s" by (simp add: steps_kept_def)
next
  fix s t u assume 1: "steps_kept s t" and 2: "steps_kept t u"
  show "steps_kept s u"
    unfolding steps_kept_def
  proof (intro allI impI)
    fix i st assume "getStep s i = Some st"
    with 1 obtain st' where a: "getStep t i = Some st'" "step_identity st' = step_identity st"
      "st_status st = Cancelled \<longrightarrow> st_status st' = Cancelled" "rank (st_status st) \<le> rank (st_status st')"
      unfolding steps_kept_def by blast
    with 2 obtain st'' where "getStep u i = Some st''" "step_identity st'' = step_identity st'"
      "st_status st' = Cancelled \<longrightarrow> st_status st'' = Cancelled" "rank (st_status st') \<le> rank (st_status st'')"
      unfolding steps_kept_def by blast
    with a show "\<exists>st''. getStep u i = Some st'' \<and> step_identity st'' = step_identity st \<and>
        (st_status st = Cancelled \<longrightarrow> st_status st'' = Cancelled) \<and> rank (st_status st) \<le> rank (st_status st'')"
      by auto
  qed
next
  fix s a b c d e f show "steps_kept s (addEvent a b c d e f s)"
    by (rule steps_kept_steps) simp
next
  fix s x y n k q v xs show "steps_kept s (capture x y n k q v xs s)"
    by (rule steps_kept_steps) simp
next
  fix s w show "steps_kept s (registerSecret w s)"
    by (rule steps_kept_steps) simp
next
  fix s cst i t assume "createStep cst s = Some (i, t)"
  then show "steps_kept s t" by (auto simp: steps_kept_def getStep_createStep(2))
next
  fix s i t st assume "startStep i s = Some t" and "getStep s i = Some st" and "st_status st = Queued"
  note st = this
  show "steps_kept s t"
    using st(2,3) by (intro steps_kept_map [OF getStep_startStep [OF st(1)]])
      (auto simp: set_started_def step_identity_def)
next
  fix cpl s t assume "finished (cp_status cpl)" and "completeStep cpl s = Some t"
  then show "steps_kept s t" by (intro completeStep_kept)
next
  fix s i reason run
  obtain P where P: "\<And>j. getStep (cancel_rows i reason run s) j = map_option (\<lambda>st. if P j st \<and> open_step st
     then set_cancelled (reason, db_clock s) st else st) (getStep s j)"
    using getStep_cancel_rows by metis
  show "steps_kept s (cancel_rows i reason run s)"
    by (rule steps_kept_map, rule P) (auto simp: set_cancelled_def step_identity_def open_step_def)
next
  fix s i stat res err show "steps_kept s (completeRun i stat res err s)"
    by (rule steps_kept_steps) simp
next
  fix s i cur curs show "steps_kept s (updateRunProgress i cur curs s)"
    by (rule steps_kept_steps) simp
next
  fix s i act show "steps_kept s (setRunActiveStep i act s)"
    by (rule steps_kept_steps) simp
next
  fix s i sess show "steps_kept s (setStepSession i sess s)"
    by (rule steps_kept_map [where f = "\<lambda>j st. if j = i then set_session sess st else st"])
      (auto simp: setStepSession_def getStep_def session.row_change set_session_def step_identity_def)
next
  fix s i tok show "steps_kept s (setStepCallbackToken i tok s)"
    by (rule steps_kept_map [where f = "\<lambda>j st. if j = i then set_token tok st else st"])
      (auto simp: setStepCallbackToken_def getStep_def token.row_change set_token_def step_identity_def)
next
  fix s i acc pl err t assume "addCallback i acc pl err s = Some t"
  then show "steps_kept s t"
    by (intro steps_kept_steps) (auto simp: addCallback_def getStep_def fun_eq_iff split: if_splits)
next
  fix s p r cr ch s1 stp dl def cx t
  assume "createRun cr s = (ch, s1)" and "link \<lparr>lk_parentRunId = p, lk_parentStepId = stp,
    lk_childRunId = ch, lk_deadline = dl\<rparr> (pin ch def cx s1) = Some t"
  from spawn_runs(2) [OF this] show "steps_kept s t"
    by (intro steps_kept_steps) (simp add: getStep_def fun_eq_iff)
qed

section \<open>The logs only grow\<close>

definition logs_grow :: "pstore \<Rightarrow> pstore \<Rightarrow> bool" where
  "logs_grow s t \<longleftrightarrow> prefix (db_events s) (db_events t) \<and> prefix (db_evidence s) (db_evidence t) \<and>
     prefix (db_callbacks s) (db_callbacks t) \<and> prefix (db_snapshots s) (db_snapshots t) \<and>
     prefix (db_links s) (db_links t)"

lemma logs_grow_same:
  "db_events t = db_events s \<Longrightarrow> db_evidence t = db_evidence s \<Longrightarrow> db_callbacks t = db_callbacks s \<Longrightarrow>
   db_snapshots t = db_snapshots s \<Longrightarrow> db_links t = db_links s \<Longrightarrow> logs_grow s t"
  by (simp add: logs_grow_def)

lemma logs_grow_createStep: "createStep cst s = Some (i, t) \<Longrightarrow> logs_grow s t"
  by (auto simp: createStep_def fresh_uuid_def Let_def logs_grow_def split: if_splits)
    (auto simp: addEvent_def capture_def registerSecret_def)

lemma logs_grow_startStep: "startStep i s = Some t \<Longrightarrow> logs_grow s t"
  by (auto simp: startStep_def Let_def logs_grow_def addEvent_def split: option.splits)

lemma logs_grow_completeStep:
  assumes "completeStep cpl s = Some t"
  shows "logs_grow s t"
  using assms
proof (rule completeStep_SomeE)
  fix st
  let ?s = "write_control_flow cpl (completed_row cpl s st) (complete_update cpl s)"
  assume "t = complete_event cpl (completed_row cpl s st)
      (capture_completion cpl (completed_row cpl s st) ?s)"
  then show ?thesis
    using capture_completion_evidence [of ?s] complete_event_events
      [of "capture_completion cpl (completed_row cpl s st) ?s"]
    by (simp add: logs_grow_def)
qed

interpretation logs: store_relation logs_grow
proof unfold_locales
  fix cr s ch s1 d cx assume "createRun cr s = (ch, s1)"
  from create_runs(3-6,9) [OF this] show "logs_grow s (pin ch d cx s1)" by (simp add: logs_grow_def)
next
  fix s show "logs_grow s (snd (fresh_uuid s))"
    by (rule logs_grow_same) (simp_all add: fresh_uuid_def)
next
  fix s :: pstore show "logs_grow s s" by (simp add: logs_grow_def)
next
  fix s t u assume "logs_grow s t" and "logs_grow t u"
  then show "logs_grow s u" unfolding logs_grow_def by (blast intro: prefix_order.trans)
next
  fix s a b c d e f show "logs_grow s (addEvent a b c d e f s)"
    by (simp add: logs_grow_def addEvent_events)
next
  fix s x y n k q v xs show "logs_grow s (capture x y n k q v xs s)"
    by (simp add: logs_grow_def capture_evidence)
next
  fix s w show "logs_grow s (registerSecret w s)" by (simp add: logs_grow_def)
next
  fix s i reason run show "logs_grow s (cancel_rows i reason run s)"
    by (simp add: logs_grow_def cancel_rows_events)
next
  fix s i stat res err show "logs_grow s (completeRun i stat res err s)"
    by (rule logs_grow_same) (simp_all add: completeRun_def)
next
  fix s i cur curs show "logs_grow s (updateRunProgress i cur curs s)"
    by (rule logs_grow_same) (simp_all add: updateRunProgress_def)
next
  fix s i act show "logs_grow s (setRunActiveStep i act s)"
    by (rule logs_grow_same) (simp_all add: setRunActiveStep_def)
next
  fix s i sess show "logs_grow s (setStepSession i sess s)"
    by (rule logs_grow_same) (simp_all add: setStepSession_def)
next
  fix s i tok show "logs_grow s (setStepCallbackToken i tok s)"
    by (rule logs_grow_same) (simp_all add: setStepCallbackToken_def)
next
  fix s i acc pl err t assume "addCallback i acc pl err s = Some t"
  then show "logs_grow s t" by (auto simp: addCallback_def logs_grow_def split: if_splits)
next
  fix s p r cr ch s1 stp dl def cx t
  assume "createRun cr s = (ch, s1)" and "link \<lparr>lk_parentRunId = p, lk_parentStepId = stp,
    lk_childRunId = ch, lk_deadline = dl\<rparr> (pin ch def cx s1) = Some t"
  from spawn_runs(3-6,9) [OF this] show "logs_grow s t" by (simp add: logs_grow_def)
qed (auto intro: logs_grow_createStep logs_grow_startStep logs_grow_completeStep)

section \<open>The clock\<close>

text \<open>No write reads a clock that runs backwards; only the environment advances it.\<close>

definition clock_le :: "pstore \<Rightarrow> pstore \<Rightarrow> bool" where
  "clock_le s t \<longleftrightarrow> db_clock s \<le> db_clock t"

lemma fold_addEvent_clock [simp]:
  "db_clock (fold (\<lambda>x. addEvent (f x) (g x) c d e h) xs s) = db_clock s"
  by (induction xs arbitrary: s) simp_all

lemma completeStep_clock: "completeStep cpl s = Some t \<Longrightarrow> db_clock t = db_clock s"
  by (erule completeStep_SomeE)
    (auto simp: complete_event_def write_control_flow_def complete_update_def Let_def split: option.splits)

interpretation clock: store_relation clock_le
  by unfold_locales
    (auto simp: clock_le_def createStep_def fresh_uuid_def startStep_def completeRun_def cancel_rows_def
      updateRunProgress_def setRunActiveStep_def setStepSession_def setStepCallbackToken_def addCallback_def
      createRun_def link_def pin_def Let_def completeStep_clock split: if_splits option.splits)

end
