(* ===== verification/Store_Wf.thy ===== *)
theory Store_Wf
  imports Store_Invariants
begin

text \<open>
  Well-formedness of the pipeline database: primary keys are unique and drawn from the counter, a
  run is open exactly while it is running, a step belongs to a stored run, and the composition
  links form a forest whose children are younger than their parents. Every write keeps it. On a
  well-formed database the cascading cancellation returns, and leaves no run and no step of the
  cancelled subtree open.
\<close>

section \<open>The invariant\<close>

definition ids_ok :: "nat list \<Rightarrow> nat \<Rightarrow> bool" where
  "ids_ok xs n \<longleftrightarrow> distinct xs \<and> (\<forall>x \<in> set xs. x < n)"

definition run_ok :: "run_row \<Rightarrow> bool" where
  "run_ok r \<longleftrightarrow> (r_status r = Running) = (r_completedAt r = None)"

definition link_ok :: "pstore \<Rightarrow> child_link \<Rightarrow> bool" where
  "link_ok s l \<longleftrightarrow> lk_parentRunId l < lk_childRunId l \<and> lk_parentRunId l \<in> r_id ` set (db_runs s) \<and>
     lk_childRunId l \<in> r_id ` set (db_runs s) \<and> lk_parentStepId l \<in> st_id ` set (db_steps s)"

text \<open>A cancelled step belongs to a cancelled run.\<close>

definition cancelled_ok :: "pstore \<Rightarrow> bool" where
  "cancelled_ok s \<longleftrightarrow> (\<forall>st \<in> set (db_steps s). st_status st = Cancelled \<longrightarrow>
     (\<exists>r \<in> set (db_runs s). r_id r = st_runId st \<and> r_status r = Cancelled))"

definition store_ok :: "pstore \<Rightarrow> bool" where
  "store_ok s \<longleftrightarrow> ids_ok (map r_id (db_runs s)) (db_nextId s) \<and>
     ids_ok (map st_id (db_steps s)) (db_nextId s) \<and> (\<forall>r \<in> set (db_runs s). run_ok r) \<and>
     (\<forall>st \<in> set (db_steps s). st_runId st \<in> r_id ` set (db_runs s)) \<and>
     (\<forall>l \<in> set (db_links s). link_ok s l) \<and>
     distinct (map lk_childRunId (db_links s)) \<and> distinct (map lk_parentStepId (db_links s)) \<and>
     cancelled_ok s"

definition ok_kept :: "pstore \<Rightarrow> pstore \<Rightarrow> bool" where
  "ok_kept s t \<longleftrightarrow> store_ok s \<longrightarrow> store_ok t"

lemma ids_ok_mono: "ids_ok xs n \<Longrightarrow> n \<le> m \<Longrightarrow> ids_ok xs m"
  by (auto simp: ids_ok_def)

lemma ids_ok_snoc: "ids_ok xs n \<Longrightarrow> n < m \<Longrightarrow> ids_ok (xs @ [n]) m"
  by (auto simp: ids_ok_def)

text \<open>A write that changes neither the keys nor the owners of the rows, nor opens or closes a run.\<close>

lemma ok_frame:
  assumes "map r_id (db_runs t) = map r_id (db_runs s)"
    and "(\<forall>r \<in> set (db_runs s). run_ok r) \<Longrightarrow> (\<forall>r \<in> set (db_runs t). run_ok r)"
    and "map (\<lambda>st. (st_id st, st_runId st)) (db_steps t) = map (\<lambda>st. (st_id st, st_runId st)) (db_steps s)"
    and "db_links t = db_links s" and "db_nextId s \<le> db_nextId t"
    and "store_ok s \<Longrightarrow> cancelled_ok t"
  shows "ok_kept s t"
proof -
  have fst_snd: "map st_id xs = map fst (map (\<lambda>st. (st_id st, st_runId st)) xs)"
    "map st_runId xs = map snd (map (\<lambda>st. (st_id st, st_runId st)) xs)" for xs
    by simp_all
  have ids: "map st_id (db_steps t) = map st_id (db_steps s)"
    and owners: "map st_runId (db_steps t) = map st_runId (db_steps s)"
    unfolding fst_snd assms(3) by (rule refl)+
  have sids: "st_id ` set (db_steps t) = st_id ` set (db_steps s)"
    and rids: "r_id ` set (db_runs t) = r_id ` set (db_runs s)"
    and own: "st_runId ` set (db_steps t) = st_runId ` set (db_steps s)"
    using ids assms(1) owners by (metis set_map)+
  have links: "link_ok t l = link_ok s l" for l
    by (simp add: link_ok_def sids rids)
  show ?thesis
  proof (unfold ok_kept_def, rule impI)
    assume ok: "store_ok s"
    then have "st_runId ` set (db_steps t) \<subseteq> r_id ` set (db_runs t)"
      unfolding own rids by (auto simp: store_ok_def)
    with ok show "store_ok t"
      using assms(1,2,4,5,6) ids links by (auto simp: store_ok_def intro: ids_ok_mono)
  qed
qed

lemma map_pairs_change:
  "(\<And>r. (f (upd r), g (upd r)) = (f r, g r)) \<Longrightarrow>
   map (\<lambda>r. (f r, g r)) (change key k p upd rs) = map (\<lambda>r. (f r, g r)) rs"
  by (induction rs) (auto simp: change_def)

lemma all_change: "(\<And>r. P r \<Longrightarrow> P (upd r)) \<Longrightarrow> \<forall>r \<in> set rs. P r \<Longrightarrow> \<forall>r \<in> set (change key k p upd rs). P r"
  by (auto simp: change_def)

section \<open>Every write keeps it\<close>

lemma ok_kept_runs:
  assumes "db_runs t = change r_id i g f (db_runs s)" and "\<And>r. r_id (f r) = r_id r"
    and "\<And>r. run_ok r \<Longrightarrow> run_ok (f r)"
    and "\<And>r. g r \<Longrightarrow> r_status r = Cancelled \<Longrightarrow> r_status (f r) = Cancelled"
    and "db_steps t = db_steps s" and "db_links t = db_links s" and "db_nextId s \<le> db_nextId t"
  shows "ok_kept s t"
proof (rule ok_frame)
  assume "store_ok s"
  then have "cancelled_ok s" by (simp add: store_ok_def)
  then show "cancelled_ok t"
    unfolding cancelled_ok_def assms(1,5)
  proof (intro ballI impI)
    fix st assume "\<forall>st \<in> set (db_steps s). st_status st = Cancelled \<longrightarrow>
        (\<exists>r \<in> set (db_runs s). r_id r = st_runId st \<and> r_status r = Cancelled)"
      and "st \<in> set (db_steps s)" "st_status st = Cancelled"
    then obtain r where "r \<in> set (db_runs s)" "r_id r = st_runId st" "r_status r = Cancelled" by blast
    then show "\<exists>r \<in> set (change r_id i g f (db_runs s)). r_id r = st_runId st \<and> r_status r = Cancelled"
      using assms(2,4) by (intro bexI [of _ "if r_id r = i \<and> g r then f r else r"]) (auto simp: change_def)
  qed
qed (use assms in \<open>auto simp: change_def\<close>)

lemma ok_kept_steps:
  assumes "db_steps t = change st_id i g f (db_steps s)"
    and "\<And>st. (st_id (f st), st_runId (f st)) = (st_id st, st_runId st)"
    and "\<And>st. st_status (f st) = Cancelled \<Longrightarrow> st_status st = Cancelled"
    and "db_runs t = db_runs s" and "db_links t = db_links s" and "db_nextId s \<le> db_nextId t"
  shows "ok_kept s t"
proof (rule ok_frame)
  assume "store_ok s"
  then have "cancelled_ok s" by (simp add: store_ok_def)
  then show "cancelled_ok t"
    unfolding cancelled_ok_def assms(1,4)
  proof (intro ballI impI)
    fix st' assume old: "\<forall>st \<in> set (db_steps s). st_status st = Cancelled \<longrightarrow>
        (\<exists>r \<in> set (db_runs s). r_id r = st_runId st \<and> r_status r = Cancelled)"
      and "st' \<in> set (change st_id i g f (db_steps s))" and c: "st_status st' = Cancelled"
    then obtain st where st: "st \<in> set (db_steps s)" "st' = st \<or> st' = f st" by (auto simp: change_def)
    with c assms(2,3) have "st_status st = Cancelled" "st_runId st' = st_runId st" by auto
    with old st(1) show "\<exists>r \<in> set (db_runs s). r_id r = st_runId st' \<and> r_status r = Cancelled" by simp
  qed
qed (use assms in \<open>simp_all add: map_pairs_change\<close>)

lemma ok_kept_same:
  "db_steps t = db_steps s \<Longrightarrow> db_runs t = db_runs s \<Longrightarrow> db_links t = db_links s \<Longrightarrow>
   db_nextId s \<le> db_nextId t \<Longrightarrow> ok_kept s t"
  by (intro ok_frame) (simp_all add: store_ok_def cancelled_ok_def)

lemma ok_kept_trans: "ok_kept s t \<Longrightarrow> ok_kept t u \<Longrightarrow> ok_kept s u"
  by (simp add: ok_kept_def)

lemma row_in_keys: "row key k rs \<noteq> None \<Longrightarrow> k \<in> key ` set rs"
  by (simp add: row_None_iff)

lemma ok_kept_createStep:
  assumes "createStep cst s = Some (i, t)" and c: "cs_status cst \<noteq> Some Cancelled"
  shows "ok_kept s t"
proof -
  from assms(1) have run: "cs_runId cst \<in> r_id ` set (db_runs s)" and
    rest: "db_runs t = db_runs s" "db_links t = db_links s" "db_nextId s < db_nextId t"
    and steps: "\<exists>st. db_steps t = db_steps s @ [st] \<and> st_id st = db_nextId s \<and> st_runId st = cs_runId cst \<and>
      st_status st = (case cs_status cst of None \<Rightarrow> Running | Some x \<Rightarrow> x)"
    by (auto simp: createStep_def fresh_uuid_def Let_def getRun_def row_None_iff split: if_splits)
  then obtain st where st: "db_steps t = db_steps s @ [st]" "st_id st = db_nextId s" "st_runId st = cs_runId cst"
    "st_status st \<noteq> Cancelled"
    using c by (auto split: option.splits)
  show ?thesis
    unfolding ok_kept_def store_ok_def using run rest st
    by (auto simp: link_ok_def cancelled_ok_def intro: ids_ok_snoc ids_ok_mono)
qed

lemma ok_kept_completeStep:
  assumes "completeStep cpl s = Some t" and f: "finished (cp_status cpl)"
  shows "ok_kept s t"
  using assms(1)
proof (rule completeStep_SomeE)
  fix st
  let ?st = "completed_row cpl s st"
  assume t: "t = complete_event cpl ?st (capture_completion cpl ?st
      (write_control_flow cpl ?st (complete_update cpl s)))"
  have "ok_kept s (complete_update cpl s)"
    unfolding complete_update_def Let_def
    by (rule ok_kept_steps, simp) (use f in \<open>auto simp: set_completed_def\<close>)
  moreover have "ok_kept (complete_update cpl s) (write_control_flow cpl ?st (complete_update cpl s))"
    unfolding write_control_flow_def
    by (cases "pipelineControlFlow (cp_output cpl)")
      (auto intro: ok_kept_same ok_kept_steps simp: set_metadata_def)
  moreover have "ok_kept (write_control_flow cpl ?st (complete_update cpl s)) t"
    unfolding t by (rule ok_kept_same) (simp_all del: write_control_flow_frame complete_update_frame)
  ultimately show ?thesis by (blast intro: ok_kept_trans)
qed

lemma ok_kept_cancel_rows:
  assumes "is_running s i"
  shows "ok_kept s (cancel_rows i reason run s)"
proof (rule ok_frame)
  let ?t = "cancel_rows i reason run s"
  show "(\<forall>r \<in> set (db_runs s). run_ok r) \<Longrightarrow> \<forall>r \<in> set (db_runs ?t). run_ok r"
    by (auto simp: cancel_rows_def Let_def change_def run_ok_def set_outcome_def)
  show "map (\<lambda>st. (st_id st, st_runId st)) (db_steps ?t) = map (\<lambda>st. (st_id st, st_runId st)) (db_steps s)"
    by (simp add: cancel_rows_steps set_cancelled_def)
  assume ok: "store_ok s"
  obtain r where "getRun s i = Some r" "r_status r = Running"
    using assms by (auto simp: is_running_def split: option.splits)
  then have r: "r \<in> set (db_runs s)" "r_id r = i" "r_status r = Running"
    by (auto simp: getRun_def dest: row_SomeD)
  then have run_i: "\<exists>r' \<in> set (db_runs ?t). r_id r' = i \<and> r_status r' = Cancelled"
    by (intro bexI [of _ "set_outcome (Cancelled, Some (stored (r_current run)), Some reason, db_clock s) r"])
      (auto simp: cancel_rows_def Let_def change_def set_outcome_def)
  have others: "\<exists>r' \<in> set (db_runs ?t). r_id r' = r_id q \<and> r_status r' = Cancelled"
    if "q \<in> set (db_runs s)" "r_status q = Cancelled" for q
    using that by (intro bexI [of _ q]) (auto simp: cancel_rows_def Let_def change_def image_iff)
  have same: "st_runId x = i" if "x \<in> set (db_steps s)" "y \<in> set (db_steps s)" "st_id x = st_id y"
      "st_runId y = i" for x y
    using that ok by (auto simp: store_ok_def ids_ok_def distinct_map inj_on_def)
  have old: "\<exists>q \<in> set (db_runs s). r_id q = st_runId st \<and> r_status q = Cancelled"
    if "st \<in> set (db_steps s)" "st_status st = Cancelled" for st
    using ok that by (auto simp: store_ok_def cancelled_ok_def)
  show "cancelled_ok ?t"
    unfolding cancelled_ok_def
  proof (intro ballI impI)
    fix st' assume "st' \<in> set (db_steps ?t)" and c: "st_status st' = Cancelled"
    then obtain st where st: "st \<in> set (db_steps s)" and st': "st' = (if st_id st \<in> st_id ` {x \<in> set (db_steps s).
        st_runId x = i \<and> open_step x} \<and> open_step st then set_cancelled (reason, db_clock s) st else st)"
      by (auto simp: cancel_rows_steps)
    have keep: "st_runId st' = st_runId st" by (simp add: st' set_cancelled_def)
    show "\<exists>r' \<in> set (db_runs ?t). r_id r' = st_runId st' \<and> r_status r' = Cancelled"
    proof (cases "st_runId st = i")
      case True
      with run_i keep show ?thesis by simp
    next
      case False
      then have "st' = st" using st same by (auto simp: st')
      with old [OF st] c others keep show ?thesis by metis
    qed
  qed
qed simp_all

lemma ok_kept_spawn:
  assumes p: "getRun s p = Some r" and c: "createRun cr s = (ch, s1)"
    and l: "link \<lparr>lk_parentRunId = p, lk_parentStepId = stp, lk_childRunId = ch, lk_deadline = dl\<rparr>
         (pin ch def cx s1) = Some t" (is "link ?l _ = _")
  shows "ok_kept s t"
proof (unfold ok_kept_def, rule impI)
  assume ok: "store_ok s"
  note sp = spawn_runs [OF c l]
  obtain r' where r': "db_runs t = db_runs s @ [r']" "r_id r' = db_nextId s" "r_status r' = Running"
    "r_completedAt r' = None" using sp(1) by blast
  have p_in: "p \<in> r_id ` set (db_runs s)"
    using p by (metis getRun_def option.distinct(1) row_in_keys)
  then have "p < db_nextId s" using ok by (auto simp: store_ok_def ids_ok_def)
  moreover have "stp \<in> st_id ` set (db_steps s)"
    using l c by (auto simp: link_def createRun_def pin_def Let_def getStep_def row_None_iff split: if_splits)
  moreover have "row lk_parentStepId stp (db_links s) = None" "row lk_childRunId ch (db_links s) = None"
    using l c by (auto simp: link_def createRun_def pin_def Let_def split: if_splits)
  then have "stp \<notin> lk_parentStepId ` set (db_links s)" "ch \<notin> lk_childRunId ` set (db_links s)"
    by (simp_all add: row_None_iff)
  ultimately show "store_ok t"
    using ok sp r' p_in
    by (auto simp: store_ok_def link_ok_def run_ok_def cancelled_ok_def intro: ids_ok_snoc ids_ok_mono)
qed

lemma ok_kept_create:
  assumes "createRun cr s = (ch, s1)"
  shows "ok_kept s (pin ch d cx s1)"
proof (unfold ok_kept_def, rule impI)
  assume ok: "store_ok s"
  note c = create_runs [OF assms]
  obtain r where "db_runs (pin ch d cx s1) = db_runs s @ [r]" "r_id r = db_nextId s" "r_status r = Running"
    "r_completedAt r = None" using c(1) by blast
  with ok c show "store_ok (pin ch d cx s1)"
    by (auto simp: store_ok_def link_ok_def run_ok_def cancelled_ok_def intro: ids_ok_snoc ids_ok_mono)
qed

interpretation ok: store_relation ok_kept
proof unfold_locales
  fix s show "ok_kept s (snd (fresh_uuid s))"
    by (rule ok_kept_same) (simp_all add: fresh_uuid_def)
next
  fix s :: pstore show "ok_kept s s" by (simp add: ok_kept_def)
next
  fix s t u show "ok_kept s t \<Longrightarrow> ok_kept t u \<Longrightarrow> ok_kept s u" by (rule ok_kept_trans)
next
  fix s a b c d e f show "ok_kept s (addEvent a b c d e f s)" by (rule ok_kept_same) simp_all
next
  fix s x y n k q v xs show "ok_kept s (capture x y n k q v xs s)" by (rule ok_kept_same) simp_all
next
  fix s w show "ok_kept s (registerSecret w s)" by (rule ok_kept_same) simp_all
next
  fix s i t st assume "startStep i s = Some t"
  then show "ok_kept s t"
    by (intro ok_kept_steps [where i = i and g = "\<lambda>_. True" and f = "set_started ()"])
      (auto simp: startStep_def Let_def set_started_def split: option.splits)
next
  fix s i stat res err assume "stat \<noteq> Running"
  then show "ok_kept s (completeRun i stat res err s)"
    unfolding completeRun_def by (intro ok_kept_runs, simp) (auto simp: set_outcome_def run_ok_def)
next
  fix s i cur curs show "ok_kept s (updateRunProgress i cur curs s)"
    unfolding updateRunProgress_def by (rule ok_kept_runs, simp) (auto simp: set_progress_def run_ok_def)
next
  fix s i act show "ok_kept s (setRunActiveStep i act s)"
    unfolding setRunActiveStep_def by (rule ok_kept_runs, simp) (auto simp: set_active_def run_ok_def)
next
  fix s i sess show "ok_kept s (setStepSession i sess s)"
    unfolding setStepSession_def by (rule ok_kept_steps, simp) (auto simp: set_session_def)
next
  fix s i tok show "ok_kept s (setStepCallbackToken i tok s)"
    unfolding setStepCallbackToken_def by (rule ok_kept_steps, simp) (auto simp: set_token_def)
next
  fix s i acc pl err t assume "addCallback i acc pl err s = Some t"
  then show "ok_kept s t" by (intro ok_kept_same) (auto simp: addCallback_def split: if_splits)
qed (auto intro: ok_kept_createStep ok_kept_completeStep ok_kept_cancel_rows ok_kept_spawn ok_kept_create)

lemma reopen_ok: "ok_kept s (reopenErroredRun i s)"
proof (cases "getRun s i")
  case None
  then show ?thesis by (simp add: reopenErroredRun_def ok_kept_def)
next
  case (Some r)
  show ?thesis
  proof (cases "r_status r = Errored")
    case True
    have "ok_kept s (s\<lparr>db_runs := change r_id i (\<lambda>r. r_status r = Errored) (set_reopened ()) (db_runs s)\<rparr>)"
      by (rule ok_kept_runs, simp) (auto simp: set_reopened_def run_ok_def)
    with Some True show ?thesis
      by (simp add: reopenErroredRun_def) (blast intro: ok_kept_trans ok.addEvent_R)
  next
    case False
    with Some show ?thesis by (simp add: reopenErroredRun_def ok_kept_def)
  qed
qed

end
