(* ===== verification/Store_Cancel.thy ===== *)
theory Store_Cancel
  imports Store_Wf
begin

text \<open>
  The cascading cancellation \<open>PipelineStore.cancelRun\<close>: it returns on every well-formed database,
  it stops every run that is reachable from the cancelled one through running parents together
  with all its open steps, and it changes no other run.
\<close>

section \<open>It returns\<close>

text \<open>The links from a run or from a younger one; a child has fewer of them than its parent.\<close>

definition links_from :: "pstore \<Rightarrow> uuid \<Rightarrow> nat" where
  "links_from s i = length (filter (\<lambda>l. i \<le> lk_parentRunId l) (db_links s))"

lemma links_from_le: "links_from s i \<le> length (db_links s)"
  by (simp add: links_from_def)

lemma length_filter_less_witness:
  "x \<in> set xs \<Longrightarrow> Q x \<Longrightarrow> \<not> P x \<Longrightarrow> (\<And>y. P y \<Longrightarrow> Q y) \<Longrightarrow>
   length (filter P xs) < length (filter Q xs)"
proof (induction xs)
  case (Cons a xs)
  have le: "length (filter P xs) \<le> length (filter Q xs)"
    using Cons.prems(4) by (induction xs) (auto simp: le_SucI)
  show ?case
  proof (cases "x = a")
    case True
    with Cons.prems le show ?thesis by auto
  next
    case False
    with Cons.IH Cons.prems have "length (filter P xs) < length (filter Q xs)" by simp
    with Cons.prems(4) show ?thesis by auto
  qed
qed simp

lemma links_from_child:
  "store_ok s \<Longrightarrow> l \<in> set (children s i) \<Longrightarrow> links_from s (lk_childRunId l) < links_from s i"
  unfolding links_from_def
  by (rule length_filter_less_witness [of l])
    (auto simp: children_def store_ok_def link_ok_def)

lemma fold_opt_inv:
  assumes "\<And>x s. x \<in> set xs \<Longrightarrow> Q s \<Longrightarrow> \<exists>t. f x s = Some t \<and> Q t" and "Q s"
  shows "\<exists>t. fold_opt f xs s = Some t \<and> Q t"
  using assms
proof (induction xs arbitrary: s)
  case (Cons x xs)
  then obtain t where "f x s = Some t" "Q t" by (metis list.set_intros(1))
  moreover have "\<exists>u. fold_opt f xs t = Some u \<and> Q u"
    using Cons.IH [of t] Cons.prems(1) \<open>Q t\<close> by simp
  ultimately show ?case by auto
qed simp

text \<open>A cancellation changes runs below the cancelled one only.\<close>

definition linked :: "pstore \<Rightarrow> (uuid \<times> uuid) set" where
  "linked s = (\<lambda>l. (lk_parentRunId l, lk_childRunId l)) ` set (db_links s)"

lemma cancelRun_fuel_local:
  "cancelRun_fuel n i reason s = Some t \<Longrightarrow>
     db_links t = db_links s \<and> (getRun t j \<noteq> getRun s j \<longrightarrow> (i, j) \<in> (linked s)\<^sup>*)"
proof (induction n arbitrary: i s t)
  case (Suc n)
  show ?case
  proof (cases "\<exists>run. getRun s i = Some run \<and> r_status run = Running")
    case True
    then obtain run u where run: "getRun s i = Some run" and
      f: "fold_opt (\<lambda>c. cancelRun_fuel n (lk_childRunId c) reason) (children s i) s = Some u" and
      t: "t = cancel_rows i reason run u"
      using Suc.prems by (auto split: option.splits)
    have step: "fold_opt (\<lambda>c. cancelRun_fuel n (lk_childRunId c) reason) ls v = Some u \<Longrightarrow>
        set ls \<subseteq> set (children s i) \<Longrightarrow> db_links v = db_links s \<Longrightarrow>
        db_links u = db_links s \<and> (getRun u j \<noteq> getRun v j \<longrightarrow> (i, j) \<in> (linked s)\<^sup>*)" for ls v
    proof (induction ls arbitrary: v)
      case (Cons l ls)
      then obtain w where w: "cancelRun_fuel n (lk_childRunId l) reason v = Some w"
        "fold_opt (\<lambda>c. cancelRun_fuel n (lk_childRunId c) reason) ls w = Some u"
        by (auto split: option.splits)
      have edge: "(i, lk_childRunId l) \<in> linked s"
        using Cons.prems(2) by (force simp: children_def linked_def)
      have lv: "linked v = linked s" using Cons.prems(3) by (simp add: linked_def)
      have "db_links w = db_links s" and
        "getRun w j \<noteq> getRun v j \<longrightarrow> (lk_childRunId l, j) \<in> (linked s)\<^sup>*"
        using Suc.IH [OF w(1)] Cons.prems(3) lv by simp_all
      with Cons.IH [OF w(2)] Cons.prems(2) edge show ?case
        by (auto intro: converse_rtrancl_into_rtrancl)
    qed simp
    from step [OF f] have "db_links u = db_links s" and
      "getRun u j \<noteq> getRun s j \<longrightarrow> (i, j) \<in> (linked s)\<^sup>*" by simp_all
    then show ?thesis
      unfolding t by (cases "j = i") (auto simp: cancel_rows_runs option.map_ident)
  next
    case False
    with Suc.prems show ?thesis by (auto split: option.splits if_splits)
  qed
qed simp

lemma linked_younger: "store_ok s \<Longrightarrow> (i, j) \<in> (linked s)\<^sup>* \<Longrightarrow> i \<le> j"
  by (erule rtrancl_induct) (auto simp: linked_def store_ok_def link_ok_def)

lemma child_call_leaves_parent:
  assumes "store_ok u" and "l \<in> set (children u i)" and "cancelRun_fuel n (lk_childRunId l) reason u = Some t"
  shows "getRun t i = getRun u i"
proof (rule ccontr)
  assume "getRun t i \<noteq> getRun u i"
  then have "(lk_childRunId l, i) \<in> (linked u)\<^sup>*"
    using cancelRun_fuel_local [OF assms(3)] by blast
  then have "lk_childRunId l \<le> i" using linked_younger [OF assms(1)] by blast
  moreover have "i < lk_childRunId l"
    using assms(1,2) by (auto simp: children_def store_ok_def link_ok_def)
  ultimately show False by simp
qed

text \<open>What holds of the recursion: it returns, keeps the database well-formed, and keeps every relation the writes keep.\<close>

context store_relation
begin

lemma cancelRun_fuel_ok:
  assumes "store_ok s" and "links_from s i < n"
  shows "\<exists>t. cancelRun_fuel n i reason s = Some t \<and> store_ok t \<and> db_links t = db_links s \<and> R s t"
  using assms
proof (induction n arbitrary: i s)
  case (Suc n)
  show ?case
  proof (cases "\<exists>run. getRun s i = Some run \<and> r_status run = Running")
    case True
    then obtain run where run: "getRun s i = Some run" "r_status run = Running" by blast
    have "\<exists>t. fold_opt (\<lambda>c. cancelRun_fuel n (lk_childRunId c) reason) (children s i) s = Some t \<and>
        (store_ok t \<and> db_links t = db_links s \<and> getRun t i = getRun s i \<and> R s t)"
    proof (rule fold_opt_inv)
      fix c u assume c: "c \<in> set (children s i)"
        and u: "store_ok u \<and> db_links u = db_links s \<and> getRun u i = getRun s i \<and> R s u"
      have "links_from u (lk_childRunId c) < n"
        using links_from_child [OF Suc.prems(1) c] Suc.prems(2) u by (simp add: links_from_def)
      with Suc.IH [of u "lk_childRunId c"] u obtain t where
        t: "cancelRun_fuel n (lk_childRunId c) reason u = Some t" "store_ok t" "db_links t = db_links u" "R u t"
        by blast
      have "c \<in> set (children u i)" using c u by (simp add: children_def)
      with child_call_leaves_parent [OF _ _ t(1)] u have "getRun t i = getRun s i" by simp
      with t u R_trans show "\<exists>t. cancelRun_fuel n (lk_childRunId c) reason u = Some t \<and>
          (store_ok t \<and> db_links t = db_links s \<and> getRun t i = getRun s i \<and> R s t)" by auto
    qed (simp add: Suc.prems R_refl)
    then obtain t where f: "fold_opt (\<lambda>c. cancelRun_fuel n (lk_childRunId c) reason) (children s i) s = Some t"
      and t: "store_ok t" "db_links t = db_links s" "getRun t i = getRun s i" "R s t" by blast
    have r: "is_running t i" using t(3) run by (simp add: is_running_def)
    have "store_ok (cancel_rows i reason run t)"
      using ok_kept_cancel_rows [OF r] t(1) by (auto simp: ok_kept_def)
    moreover have "R s (cancel_rows i reason run t)" using t(4) cancel_rows_R [OF r] R_trans by blast
    ultimately show ?thesis using run f t(2) by auto
  next
    case False
    with Suc.prems show ?thesis by (auto split: option.splits simp: R_refl)
  qed
qed simp

lemma cancelRun_R: "store_ok s \<Longrightarrow> cancelRun i reason s = Some t \<Longrightarrow> R s t"
  unfolding cancelRun_def
  using cancelRun_fuel_ok [of s i "Suc (length (db_links s))" reason] links_from_le [of s i]
  by (simp add: less_Suc_eq_le del: cancelRun_fuel.simps)

end

lemma cancelRun_defined:
  "store_ok s \<Longrightarrow> \<exists>t. cancelRun i reason s = Some t \<and> store_ok t \<and> db_links t = db_links s"
  unfolding cancelRun_def
  using ok.cancelRun_fuel_ok [of s i "Suc (length (db_links s))" reason] links_from_le [of s i]
  by (fastforce simp: less_Suc_eq_le simp del: cancelRun_fuel.simps)

section \<open>What it stops\<close>

definition quiet :: "pstore \<Rightarrow> uuid \<Rightarrow> bool" where
  "quiet s i = list_all (\<lambda>st. st_runId st = i \<longrightarrow> \<not> open_step st) (db_steps s)"

text \<open>
  One cancellation: a run is untouched or stopped with its current state as its result, and a run
  it stops has no open step and no running child afterwards.
\<close>

definition stopped_as :: "string \<Rightarrow> run_row \<Rightarrow> run_row \<Rightarrow> bool" where
  "stopped_as reason r r' \<longleftrightarrow> r_status r = Running \<and> r_status r' = Cancelled \<and>
     r_error r' = Some reason \<and> r_result r' = Some (stored (r_current r)) \<and> r_current r' = r_current r \<and> r_completedAt r' \<noteq> None"

definition cancel_step :: "string \<Rightarrow> pstore \<Rightarrow> pstore \<Rightarrow> bool" where
  "cancel_step reason s t \<longleftrightarrow> db_links t = db_links s \<and>
     (\<forall>j. rel_option (\<lambda>r r'. r' = r \<or> stopped_as reason r r') (getRun s j) (getRun t j)) \<and>
     (\<forall>j. quiet s j \<longrightarrow> quiet t j) \<and>
     (\<forall>j. is_running s j \<and> \<not> is_running t j \<longrightarrow>
        quiet t j \<and> (\<forall>l \<in> set (children s j). \<not> is_running t (lk_childRunId l)))"

lemma cancel_step_rel:
  "cancel_step reason s t \<Longrightarrow>
     rel_option (\<lambda>r r'. r' = r \<or> stopped_as reason r r') (getRun s j) (getRun t j)"
  by (simp add: cancel_step_def)

lemma cancel_step_running: "cancel_step reason s t \<Longrightarrow> is_running t j \<Longrightarrow> is_running s j"
  by (drule cancel_step_rel [of _ _ _ j], cases "getRun s j"; cases "getRun t j")
    (auto simp: is_running_def stopped_as_def)

lemma cancel_step_refl: "cancel_step reason s s"
  by (simp add: cancel_step_def option.rel_refl)

lemma cancel_step_trans:
  assumes 1: "cancel_step reason s t" and 2: "cancel_step reason t u"
  shows "cancel_step reason s u"
proof -
  have rel: "rel_option (\<lambda>r r'. r' = r \<or> stopped_as reason r r') (getRun s j) (getRun u j)" for j
    using cancel_step_rel [OF 1, of j] cancel_step_rel [OF 2, of j]
    by (cases "getRun s j"; cases "getRun t j"; cases "getRun u j") (auto simp: stopped_as_def)
  have "quiet u j \<and> (\<forall>l \<in> set (children s j). \<not> is_running u (lk_childRunId l))"
    if j: "is_running s j" "\<not> is_running u j" for j
  proof (cases "is_running t j")
    case True
    with 1 2 j show ?thesis unfolding cancel_step_def children_def by auto
  next
    case False
    with 1 2 j show ?thesis
      using cancel_step_running [OF 2] unfolding cancel_step_def by blast
  qed
  with 1 2 rel show ?thesis unfolding cancel_step_def by auto
qed

lemma cancel_step_one:
  assumes run: "getRun s i = Some run" and kids: "\<forall>l \<in> set (children s i). \<not> is_running s (lk_childRunId l)"
    and cur: "r_current run' = r_current run"
  shows "cancel_step reason s (cancel_rows i reason run' s)" (is "cancel_step _ _ ?t")
proof -
  have q: "quiet s j \<Longrightarrow> quiet ?t j" for j
    by (auto simp: quiet_def list_all_iff cancel_rows_steps set_cancelled_def open_step_def)
  have qi: "quiet ?t i"
    by (auto simp: quiet_def list_all_iff cancel_rows_steps set_cancelled_def open_step_def)
  have rel: "rel_option (\<lambda>r r'. r' = r \<or> stopped_as reason r r') (getRun s j) (getRun ?t j)" for j
    using run cur by (cases "getRun s j") (auto simp: cancel_rows_runs stopped_as_def set_outcome_def)
  have only: "is_running s j \<Longrightarrow> \<not> is_running ?t j \<Longrightarrow> j = i" for j
    by (cases "getRun s j") (auto simp: is_running_def cancel_rows_runs split: if_splits)
  have mono: "is_running ?t j \<Longrightarrow> is_running s j" for j
    by (cases "getRun s j") (auto simp: is_running_def cancel_rows_runs set_outcome_def split: if_splits)
  have "quiet ?t j \<and> (\<forall>l \<in> set (children s j). \<not> is_running ?t (lk_childRunId l))"
    if "is_running s j" "\<not> is_running ?t j" for j
    using only [OF that] qi kids mono by blast
  with q rel show ?thesis unfolding cancel_step_def by auto
qed

lemma fold_cancel_step:
  assumes "fold_opt (\<lambda>c. f (lk_childRunId c)) ls s = Some t"
    and "\<And>c s t. f c s = Some t \<Longrightarrow> cancel_step reason s t \<and> \<not> is_running t c"
  shows "cancel_step reason s t \<and> (\<forall>l \<in> set ls. \<not> is_running t (lk_childRunId l))"
  using assms(1)
proof (induction ls arbitrary: s)
  case (Cons l ls)
  then obtain u where u: "f (lk_childRunId l) s = Some u" "fold_opt (\<lambda>c. f (lk_childRunId c)) ls u = Some t"
    by (auto split: option.splits)
  with Cons.IH [of u] assms(2) [of "lk_childRunId l" s u] show ?case
    by (auto intro: cancel_step_trans dest: cancel_step_running)
qed (simp add: cancel_step_refl)

lemma current_kept: "cancel_step reason s t \<Longrightarrow> getRun s i = Some r \<Longrightarrow>
    \<exists>r'. getRun t i = Some r' \<and> r_current r' = r_current r"
  by (drule cancel_step_rel [of _ _ _ i]) (auto simp: option_rel_Some1 stopped_as_def)

lemma cancelRun_fuel_step:
  "cancelRun_fuel n i reason s = Some t \<Longrightarrow> cancel_step reason s t \<and> \<not> is_running t i"
proof (induction n arbitrary: i s t)
  case (Suc n)
  show ?case
  proof (cases "\<exists>run. getRun s i = Some run \<and> r_status run = Running")
    case True
    then obtain run u where run: "getRun s i = Some run" and
      f: "fold_opt (\<lambda>c. cancelRun_fuel n (lk_childRunId c) reason) (children s i) s = Some u" and
      t: "t = cancel_rows i reason run u"
      using Suc.prems by (auto split: option.splits)
    have u: "cancel_step reason s u" "\<forall>l \<in> set (children s i). \<not> is_running u (lk_childRunId l)"
      using fold_cancel_step [OF f Suc.IH] by blast+
    then have kids: "\<forall>l \<in> set (children u i). \<not> is_running u (lk_childRunId l)"
      by (simp add: cancel_step_def children_def)
    obtain run' where run': "getRun u i = Some run'" "r_current run' = r_current run"
      using current_kept [OF u(1) run] by blast
    have "cancel_step reason u t"
      unfolding t by (rule cancel_step_one [OF run'(1) kids]) (simp add: run'(2))
    moreover have "\<not> is_running t i"
      using run' by (simp add: t is_running_def cancel_rows_runs set_outcome_def)
    ultimately show ?thesis using u(1) cancel_step_trans by blast
  next
    case False
    with Suc.prems show ?thesis
      by (auto split: option.splits if_splits simp: cancel_step_refl is_running_def)
  qed
qed simp

text \<open>The runs the cascade reaches: from a running parent to its running children.\<close>

inductive cascade :: "pstore \<Rightarrow> uuid \<Rightarrow> uuid \<Rightarrow> bool" for s where
  here: "is_running s i \<Longrightarrow> cascade s i i"
| below: "cascade s i j \<Longrightarrow> l \<in> set (children s j) \<Longrightarrow> is_running s (lk_childRunId l) \<Longrightarrow>
    cascade s i (lk_childRunId l)"

lemma cascade_running: "cascade s i j \<Longrightarrow> is_running s j"
  by (induction rule: cascade.induct)

lemma cascade_linked: "cascade s i j \<Longrightarrow> (i, j) \<in> (linked s)\<^sup>*"
  by (induction rule: cascade.induct)
    (auto simp: children_def linked_def intro: rtrancl_into_rtrancl)

lemma cancel_step_cascade:
  assumes "cancel_step reason s t" and "\<not> is_running t i" and "cascade s i j"
  shows "\<not> is_running t j \<and> quiet t j"
  using assms(3,2)
proof (induction rule: cascade.induct)
  case (here i)
  with assms(1) show ?case unfolding cancel_step_def by blast
next
  case (below i j l)
  have "\<not> is_running t j" using below.IH below.prems by blast
  with cascade_running [OF below.hyps(1)] assms(1) below.hyps(2)
  have "\<not> is_running t (lk_childRunId l)" unfolding cancel_step_def by blast
  with assms(1) below.hyps(3) show ?case unfolding cancel_step_def by blast
qed

lemma cancelRun_cascade:
  assumes "cancelRun i reason s = Some t" and "cascade s i j" and "getRun s j = Some r"
  shows "\<exists>r'. getRun t j = Some r' \<and> stopped_as reason r r' \<and> quiet t j"
proof -
  have step: "cancel_step reason s t" "\<not> is_running t i"
    using cancelRun_fuel_step assms(1) unfolding cancelRun_def by blast+
  have "\<not> is_running t j" "quiet t j"
    using cancel_step_cascade [OF step assms(2)] by blast+
  moreover have "is_running s j" using assms(2) by (rule cascade_running)
  ultimately show ?thesis
    using cancel_step_rel [OF step(1), of j] assms(3)
    by (cases "getRun t j") (auto simp: is_running_def)
qed

end
