(* ===== verification/Run_Authority.thy ===== *)
theory Run_Authority
  imports Pipeline_Pins Store_Cancel
begin

text \<open>
  The state the runner works on, its exceptions, and the walks along the composition links of
  \<open>pipeline-run-authority.ts\<close> and \<open>child-pipeline.ts\<close>: the root of a run and the authority it
  gives, the check that all ancestors still run before their deadlines, the bound on the nesting
  of child pipelines; and \<open>pipeline-history-resume.ts\<close>.
\<close>

section \<open>The world and its exceptions\<close>

text \<open>
  \<open>Err\<close> is an \<open>Error\<close> with its message, \<open>Halt\<close> is \<open>PipelineHalt\<close> with one of the two statuses
  the program constructs it with, \<open>Stopped\<close> is
  \<open>PipelineCancelled\<close>. \<open>Diverge\<close> is no exception of the program: it stands for a loop that does
  not end, and no handler takes it.
\<close>

datatype halt = HaltNeedsInput | HaltError

fun halt_status :: "halt \<Rightarrow> status" where
  "halt_status HaltNeedsInput = NeedsInput"
| "halt_status HaltError = Errored"

datatype exn = Err string | Halt halt obj string | Stopped uuid | Diverge

fun exn_message :: "exn \<Rightarrow> string" where
  "exn_message (Err m) = m"
| "exn_message (Halt _ _ m) = m"
| "exn_message (Stopped _) = ''Pipeline run cancelled''"
| "exn_message Diverge = []"

text \<open>
  The world: the database, the next step index of each execution (the closure variable
  \<open>stepIndex\<close> of \<open>executeDeclarativePipeline\<close>), the set \<open>activeRunExecutions\<close>, and whatever state
  the environment has.
\<close>

record 'e world =
  w_store :: pstore
  w_stepIndex :: "uuid \<Rightarrow> nat"
  w_executing :: "uuid list"
  w_env :: 'e

type_synonym ('a, 'e) io = "(exn, 'a, 'e world) sx"

definition look :: "(pstore \<Rightarrow> 'a) \<Rightarrow> ('a, 'e) io" where
  "look f = reads (\<lambda>w. f (w_store w))"

definition alter :: "(pstore \<Rightarrow> pstore) \<Rightarrow> (unit, 'e) io" where
  "alter f = modify (\<lambda>w. w\<lparr>w_store := f (w_store w)\<rparr>)"

text \<open>A statement that can violate a constraint or meet a missing row throws and changes nothing.\<close>

definition alter_ret :: "(pstore \<Rightarrow> ('a \<times> pstore) option) \<Rightarrow> ('a, 'e) io" where
  "alter_ret f = (\<lambda>w. case f (w_store w) of
     None \<Rightarrow> (Inl (Err ''constraint failed''), w)
   | Some (x, s) \<Rightarrow> (Inr x, w\<lparr>w_store := s\<rparr>))"

definition alter_opt :: "(pstore \<Rightarrow> pstore option) \<Rightarrow> (unit, 'e) io" where
  "alter_opt f = alter_ret (\<lambda>s. map_option (Pair ()) (f s))"

text \<open>A check: the error it found, if any.\<close>

definition require :: "(pstore \<Rightarrow> exn option) \<Rightarrow> (unit, 'e) io" where
  "require f = (\<lambda>w. (case f (w_store w) of None \<Rightarrow> Inr () | Some e \<Rightarrow> Inl e, w))"

text \<open>
  \<open>try ... catch\<close> of the program, and \<open>try ... finally\<close> whose last block sees the outcome; a loop
  that does not end reaches neither.
\<close>

definition try_catch :: "('a, 'e) io \<Rightarrow> (exn \<Rightarrow> ('a, 'e) io) \<Rightarrow> ('a, 'e) io" where
  "try_catch m h = handle m (\<lambda>e. if e = Diverge then throw Diverge else h e)"

definition finally_with :: "('a, 'e) io \<Rightarrow> (exn + 'a \<Rightarrow> (unit, 'e) io) \<Rightarrow> ('a, 'e) io" where
  "finally_with m k = (\<lambda>w. case m w of (r, w') \<Rightarrow>
     (case r of Inl Diverge \<Rightarrow> (Inl Diverge, w')
      | _ \<Rightarrow> (case k r w' of (Inl e, w'') \<Rightarrow> (Inl e, w'') | (Inr _, w'') \<Rightarrow> (r, w''))))"

text \<open>\<open>m.catch(() => undefined)\<close>\<close>

definition swallow :: "(unit, 'e) io \<Rightarrow> (unit, 'e) io" where
  "swallow m = try_catch m (\<lambda>_. ret ())"

definition throwIfRunCancelled :: "uuid \<Rightarrow> pstore \<Rightarrow> exn option" where
  "throwIfRunCancelled i s = (case getRun s i of
     None \<Rightarrow> None | Some run \<Rightarrow> if r_status run = Cancelled then Some (Stopped i) else None)"

lemma look_run [simp]: "look f w = (Inr (f (w_store w)), w)"
  by (simp add: look_def)

lemma alter_run [simp]: "alter f w = (Inr (), w\<lparr>w_store := f (w_store w)\<rparr>)"
  by (simp add: alter_def)

lemma require_run: "require f w = (case f (w_store w) of None \<Rightarrow> (Inr (), w) | Some e \<Rightarrow> (Inl e, w))"
  by (simp add: require_def split: option.splits)

section \<open>Walks to the root\<close>

fun root_fuel :: "nat \<Rightarrow> pstore \<Rightarrow> uuid \<Rightarrow> uuid option" where
  "root_fuel 0 s i = None"
| "root_fuel (Suc n) s i = (case parent s i of
     None \<Rightarrow> Some i | Some l \<Rightarrow> root_fuel n s (lk_parentRunId l))"

text \<open>\<open>None\<close> is the endless walk of a cyclic link table.\<close>

definition rootPipelineRunId :: "pstore \<Rightarrow> uuid \<Rightarrow> uuid option" where
  "rootPipelineRunId s i = root_fuel (Suc (length (db_links s))) s i"

definition pipelineAuthorityInput :: "pstore \<Rightarrow> uuid \<Rightarrow> exn + obj" where
  "pipelineAuthorityInput s i = (case rootPipelineRunId s i of
     None \<Rightarrow> Inl Diverge
   | Some r \<Rightarrow> (case getRun s r of
       None \<Rightarrow> Inl (Err ''Missing pipeline authority run'') | Some run \<Rightarrow> Inr (r_input run)))"

fun ancestors_fuel :: "nat \<Rightarrow> pstore \<Rightarrow> uuid \<Rightarrow> exn option" where
  "ancestors_fuel 0 s i = Some Diverge"
| "ancestors_fuel (Suc n) s i = (case parent s i of
     None \<Rightarrow> None
   | Some l \<Rightarrow>
      if \<not> is_running s (lk_parentRunId l) then Some (Err ''Parent pipeline is no longer running'')
      else if lk_deadline l \<le> db_clock s then Some (Err ''Child pipeline timeout'')
      else ancestors_fuel n s (lk_parentRunId l))"

definition assertPipelineAncestorsRunning :: "uuid \<Rightarrow> pstore \<Rightarrow> exn option" where
  "assertPipelineAncestorsRunning i s = ancestors_fuel (Suc (length (db_links s))) s i"

definition find_invocation :: "pstore \<Rightarrow> uuid \<Rightarrow> event_row option" where
  "find_invocation s i =
     List.find (\<lambda>e. e_type e = ''flightdeck_invocation_context'') (listEvents s i)"

definition inheritPipelineInvocation :: "uuid \<Rightarrow> uuid \<Rightarrow> pstore \<Rightarrow> pstore" where
  "inheritPipelineInvocation parentId childId s = (case find_invocation s parentId of
     None \<Rightarrow> s
   | Some e \<Rightarrow> addEvent (Some childId) None Info ''flightdeck_invocation_context''
       (Some ''Inherited trusted Flight Deck invocation context'') (e_data e) s)"

text \<open>The reply a run may send: the workspace and thread of the trusted invocation, the sender of the root's input.\<close>

definition reply_value :: "obj \<Rightarrow> obj \<Rightarrow> string \<Rightarrow> jval" where
  "reply_value original trusted k = (if k = ''frmNpub'' then get original k else get trusted k)"

definition reply_mismatch :: "obj \<Rightarrow> obj \<Rightarrow> obj \<Rightarrow> string \<Rightarrow> bool" where
  "reply_mismatch original trusted selected k = (case reply_value original trusted k of
     JStr v \<Rightarrow> \<not> strict_eq (get selected k) (JStr v) | _ \<Rightarrow> True)"

definition assertPipelineReplyContext :: "uuid \<Rightarrow> obj \<Rightarrow> pstore \<Rightarrow> exn option" where
  "assertPipelineReplyContext i selected s = (case rootPipelineRunId s i of
     None \<Rightarrow> Some Diverge
   | Some top_run \<Rightarrow> (case find_invocation s top_run of
       None \<Rightarrow> None
     | Some e \<Rightarrow> (case pipelineAuthorityInput s i of
         Inl x \<Rightarrow> Some x
       | Inr original \<Rightarrow>
          map_option (\<lambda>k. Err (''Pipeline reply '' @ k @ '' differs from trusted invocation''))
            (List.find (reply_mismatch original (e_data e) selected)
               [''workspaceId'', ''threadId'', ''frmNpub'']))))"

text \<open>\<open>enforceAncestry\<close> of \<open>child-pipeline.ts\<close>: no definition twice on the way up, at most eight runs.\<close>

definition MAX_CHILD_PIPELINE_DEPTH :: nat where
  "MAX_CHILD_PIPELINE_DEPTH = 8"

fun ancestry_walk :: "nat \<Rightarrow> nat \<Rightarrow> uuid \<Rightarrow> definition_record \<Rightarrow> pstore \<Rightarrow> exn option" where
  "ancestry_walk 0 depth i d s = Some Diverge"
| "ancestry_walk (Suc n) depth i d s = (case getRun s i of
     None \<Rightarrow> Some (Err ''Missing child pipeline ancestor'')
   | Some run \<Rightarrow>
      (if r_definitionId run = pd_id d \<or>
          (case snapshot s i of None \<Rightarrow> False | Some sn \<Rightarrow> pd_name (sn_definition sn) = pd_name d)
       then Some (Err ''Child pipeline cycle detected'')
       else if Suc depth > MAX_CHILD_PIPELINE_DEPTH
       then Some (Err ''Child pipeline depth limit exceeded'')
       else (case parent s i of None \<Rightarrow> None | Some l \<Rightarrow> ancestry_walk n (Suc depth) (lk_parentRunId l) d s)))"

definition enforceAncestry :: "uuid \<Rightarrow> definition_record \<Rightarrow> pstore \<Rightarrow> exn option" where
  "enforceAncestry parentId d s = ancestry_walk (Suc MAX_CHILD_PIPELINE_DEPTH) 0 parentId d s"

section \<open>Missing history\<close>

definition MISSING_PIPELINE_HISTORY_REASON :: string where
  "MISSING_PIPELINE_HISTORY_REASON = ''Historical pipeline definition snapshot was not captured. Operator review is required before new execution.''"

definition blockMissingPipelineHistory :: "run_row \<Rightarrow> pstore \<Rightarrow> pstore" where
  "blockMissingPipelineHistory run s =
     completeRun (r_id run) Errored (Some (r_current run)) (Some MISSING_PIPELINE_HISTORY_REASON)
       (addEvent (Some (r_id run)) None ErrorLevel ''historical_resume_blocked''
          (Some MISSING_PIPELINE_HISTORY_REASON) [] s)"

section \<open>Laws of the walks\<close>

text \<open>The links above a run, nearest first, as long as the link table has no cycle.\<close>

inductive above :: "pstore \<Rightarrow> uuid \<Rightarrow> child_link list \<Rightarrow> bool" for s where
  top: "parent s i = None \<Longrightarrow> above s i []"
| up: "parent s i = Some l \<Longrightarrow> above s (lk_parentRunId l) ls \<Longrightarrow> above s i (l # ls)"

inductive_cases above_NilE: "above s i []"
inductive_cases above_ConsE: "above s i (l # ls)"

lemma above_unique: "above s i ls \<Longrightarrow> above s i ms \<Longrightarrow> ms = ls"
proof (induction arbitrary: ms rule: above.induct)
  case (top i)
  from top(2) show ?case
  proof (cases rule: above.cases)
    case up
    with top(1) show ?thesis by simp
  qed
next
  case (up i l ls)
  from up(4) show ?case
  proof (cases rule: above.cases)
    case top
    with up(1) show ?thesis by simp
  next
    case (up l' ms')
    with up.hyps up.IH show ?thesis by simp
  qed
qed

lemma parent_link: "parent s i = Some l \<Longrightarrow> l \<in> set (db_links s) \<and> lk_childRunId l = i"
  by (auto simp: parent_def dest: row_SomeD)

text \<open>On a well-formed database the links above a run are finite: they are older and older.\<close>

definition links_to :: "pstore \<Rightarrow> uuid \<Rightarrow> nat" where
  "links_to s i = length (filter (\<lambda>l. lk_childRunId l \<le> i) (db_links s))"

lemma parent_older: "store_ok s \<Longrightarrow> parent s i = Some l \<Longrightarrow> lk_parentRunId l < i"
  by (drule parent_link) (auto simp: store_ok_def link_ok_def)

lemma links_to_parent:
  assumes "store_ok s" and "parent s i = Some l"
  shows "links_to s (lk_parentRunId l) < links_to s i"
  unfolding links_to_def
proof (rule length_filter_less_witness [of l])
  show "l \<in> set (db_links s)" "lk_childRunId l \<le> i" "\<not> lk_childRunId l \<le> lk_parentRunId l"
    using parent_link [OF assms(2)] parent_older [OF assms] by auto
  show "lk_childRunId y \<le> lk_parentRunId l \<Longrightarrow> lk_childRunId y \<le> i" for y
    using parent_older [OF assms] by simp
qed

lemma above_exists:
  assumes "store_ok s"
  shows "\<exists>ls. above s i ls \<and> length ls \<le> links_to s i"
proof (induction "links_to s i" arbitrary: i rule: less_induct)
  case less
  show ?case
  proof (cases "parent s i")
    case None
    then show ?thesis by (intro exI [of _ "[]"]) (simp add: top)
  next
    case (Some l)
    from less links_to_parent [OF assms Some] obtain ls
      where "above s (lk_parentRunId l) ls" "length ls \<le> links_to s (lk_parentRunId l)" by blast
    with Some links_to_parent [OF assms Some] show ?thesis
      by (intro exI [of _ "l # ls"]) (auto intro: up)
  qed
qed

lemma links_to_le: "links_to s i \<le> length (db_links s)"
  by (simp add: links_to_def)

lemma above_bounded: "store_ok s \<Longrightarrow> \<exists>ls. above s i ls \<and> length ls \<le> length (db_links s)"
  using above_exists links_to_le order_trans by blast

definition run_of_link :: "child_link \<Rightarrow> uuid" where
  "run_of_link l = lk_parentRunId l"

lemma root_above:
  "above s i ls \<Longrightarrow> length ls < n \<Longrightarrow>
     root_fuel n s i = Some (case ls of [] \<Rightarrow> i | _ \<Rightarrow> lk_parentRunId (last ls))"
proof (induction arbitrary: n rule: above.induct)
  case (top i)
  then show ?case by (cases n) auto
next
  case (up i l ls)
  then show ?case by (cases n) (auto split: list.splits)
qed

lemma root_defined: "store_ok s \<Longrightarrow> \<exists>r. rootPipelineRunId s i = Some r \<and> parent s r = None"
proof -
  assume "store_ok s"
  then obtain ls where ls: "above s i ls" "length ls \<le> length (db_links s)"
    using above_bounded by blast
  have "parent s (case ls of [] \<Rightarrow> i | _ \<Rightarrow> lk_parentRunId (last ls)) = None"
    using ls(1) by (induction rule: above.induct) (auto split: list.splits)
  with root_above [OF ls(1), of "Suc (length (db_links s))"] ls(2) show ?thesis
    by (simp add: rootPipelineRunId_def del: root_fuel.simps)
qed

lemma ancestors_above:
  "above s i ls \<Longrightarrow> length ls < n \<Longrightarrow>
     ancestors_fuel n s i = None \<longleftrightarrow>
       list_all (\<lambda>l. is_running s (lk_parentRunId l) \<and> db_clock s < lk_deadline l) ls"
proof (induction arbitrary: n rule: above.induct)
  case (top i)
  then show ?case by (cases n) auto
next
  case (up i l ls)
  then show ?case by (cases n) auto
qed

lemma ancestors_no_diverge:
  "above s i ls \<Longrightarrow> length ls < n \<Longrightarrow> ancestors_fuel n s i \<noteq> Some Diverge"
proof (induction arbitrary: n rule: above.induct)
  case (top i)
  then show ?case by (cases n) auto
next
  case (up i l ls)
  then show ?case by (cases n) auto
qed

lemma assertAncestors_iff:
  assumes "store_ok s" and "above s i ls"
  shows "assertPipelineAncestorsRunning i s = None \<longleftrightarrow>
     list_all (\<lambda>l. is_running s (lk_parentRunId l) \<and> db_clock s < lk_deadline l) ls"
proof -
  from above_bounded [OF assms(1), of i] above_unique [OF assms(2)]
  have "length ls < Suc (length (db_links s))" by auto
  then show ?thesis
    unfolding assertPipelineAncestorsRunning_def by (rule ancestors_above [OF assms(2)])
qed

lemma assertAncestors_no_diverge:
  "store_ok s \<Longrightarrow> assertPipelineAncestorsRunning i s \<noteq> Some Diverge"
  using above_bounded [of s i] ancestors_no_diverge
  by (fastforce simp: assertPipelineAncestorsRunning_def simp del: ancestors_fuel.simps)

lemma ancestry_walk_depth:
  "ancestry_walk n depth i d s = None \<Longrightarrow>
     \<exists>ls. above s i ls \<and> depth + Suc (length ls) \<le> MAX_CHILD_PIPELINE_DEPTH \<and>
       (\<forall>j \<in> insert i (lk_parentRunId ` set ls).
          \<exists>run. getRun s j = Some run \<and> r_definitionId run \<noteq> pd_id d)"
proof (induction n depth i d s rule: ancestry_walk.induct)
  case (2 n depth i d s)
  then obtain run where run: "getRun s i = Some run" "r_definitionId run \<noteq> pd_id d"
    "Suc depth \<le> MAX_CHILD_PIPELINE_DEPTH"
    by (auto split: option.splits if_splits)
  show ?case
  proof (cases "parent s i")
    case None
    with run show ?thesis by (intro exI [of _ "[]"]) (auto intro: top)
  next
    case (Some l)
    with 2(2) run have "ancestry_walk n (Suc depth) (lk_parentRunId l) d s = None"
      by (auto split: if_splits option.splits)
    moreover have "\<not> (r_definitionId run = pd_id d \<or>
        (case snapshot s i of None \<Rightarrow> False | Some sn \<Rightarrow> pd_name (sn_definition sn) = pd_name d))"
      using 2(2) run by (auto split: if_splits)
    ultimately obtain ls where "above s (lk_parentRunId l) ls"
      "Suc depth + Suc (length ls) \<le> MAX_CHILD_PIPELINE_DEPTH"
      "\<forall>j \<in> insert (lk_parentRunId l) (lk_parentRunId ` set ls).
          \<exists>run. getRun s j = Some run \<and> r_definitionId run \<noteq> pd_id d"
      using 2(1) [OF run(1) _ _ Some] run(3) by (meson linorder_not_less)
    with Some run show ?thesis by (intro exI [of _ "l # ls"]) (auto intro: up)
  qed
qed simp

end
