(* ===== verification/Run_Settings.thy ===== *)
theory Run_Settings
  imports Run_Authority
begin

text \<open>
  The settings the runners read out of a step, the run's state and the process environment
  (\<open>pipeline-runner.ts\<close> and \<open>parallel-runner.ts\<close>): iteration counts, durations, retry counts and
  concurrency limits, each clamped into its documented range whatever was configured, string
  templates, loop history and the executor of an agent step.
\<close>

section \<open>Numbers\<close>

text \<open>A number is itself; a string is always a path (loops and parallel steps).\<close>

definition path_value :: "obj \<Rightarrow> num_or_path option \<Rightarrow> jval" where
  "path_value current v = (case v of
     None \<Rightarrow> JUndef | Some (NumLit n) \<Rightarrow> JNum n | Some (NumPath p) \<Rightarrow> resolvePath current p)"

text \<open>A string is a path only when it starts with the root sign (durations and retries).\<close>

definition is_template :: "string \<Rightarrow> bool" where
  "is_template s = (starts_with ''$.'' s \<or> s = ''$'')"

definition template_value :: "obj \<Rightarrow> num_or_path option \<Rightarrow> jval" where
  "template_value current v = (case v of
     None \<Rightarrow> JUndef
   | Some (NumLit n) \<Rightarrow> JNum n
   | Some (NumPath p) \<Rightarrow> if is_template p then resolvePath current p else JStr p)"

definition resolveIterationCount :: "obj \<Rightarrow> num_or_path \<Rightarrow> nat" where
  "resolveIterationCount current v = (case whole (path_value current (Some v)) of
     None \<Rightarrow> 1 | Some count \<Rightarrow> if count < 1 then 1 else nat (min count 200))"

definition resolveDurationMs :: "obj \<Rightarrow> num_or_path option \<Rightarrow> nat \<Rightarrow> nat" where
  "resolveDurationMs current v fallbackMs = (case whole (template_value current v) of
     None \<Rightarrow> fallbackMs
   | Some duration \<Rightarrow> if duration < 1000 then fallbackMs else nat (min duration (24 * 60 * 60 * 1000)))"

definition DEFAULT_CLASSIFIER_ATTEMPTS :: nat where
  "DEFAULT_CLASSIFIER_ATTEMPTS = 3"

definition resolveClassifierAttempts :: "obj \<Rightarrow> num_or_path option \<Rightarrow> nat" where
  "resolveClassifierAttempts current v = (case whole (template_value current v) of
     None \<Rightarrow> DEFAULT_CLASSIFIER_ATTEMPTS
   | Some parsed \<Rightarrow> if parsed < 1 then DEFAULT_CLASSIFIER_ATTEMPTS else nat (min parsed 5))"

lemma resolveIterationCount_bounds: "1 \<le> resolveIterationCount current v \<and> resolveIterationCount current v \<le> 200"
  by (auto simp: resolveIterationCount_def split: option.splits)

lemma resolveDurationMs_bounds:
  "1000 \<le> fb \<Longrightarrow> fb \<le> 86400000 \<Longrightarrow>
     1000 \<le> resolveDurationMs current v fb \<and> resolveDurationMs current v fb \<le> 86400000"
  by (auto simp: resolveDurationMs_def split: option.splits)

lemma resolveClassifierAttempts_bounds:
  "1 \<le> resolveClassifierAttempts current v \<and> resolveClassifierAttempts current v \<le> 5"
  by (auto simp: resolveClassifierAttempts_def DEFAULT_CLASSIFIER_ATTEMPTS_def split: option.splits)

section \<open>The process environment\<close>

type_synonym process_env = "string \<Rightarrow> string option"

definition env_text :: "process_env \<Rightarrow> string \<Rightarrow> string" where
  "env_text env n = (case env n of None \<Rightarrow> [] | Some s \<Rightarrow> s)"

definition parseBoundedPositiveInteger :: "string \<Rightarrow> int \<Rightarrow> int \<Rightarrow> int option" where
  "parseBoundedPositiveInteger raw lo hi = (if raw = [] then None
     else map_option (\<lambda>n. max lo (min hi n)) (whole (JStr raw)))"

definition resolveAgentStepMaxAttempts :: "process_env \<Rightarrow> nat" where
  "resolveAgentStepMaxAttempts env =
     (case parseBoundedPositiveInteger (env_text env ''PIPELINE_AGENT_STEP_MAX_ATTEMPTS'') 1 6 of
        Some n \<Rightarrow> nat n
      | None \<Rightarrow>
         (case parseBoundedPositiveInteger (env_text env ''PIPELINE_AGENT_CALLBACK_TIMEOUT_RETRIES'') 0 5 of
            Some n \<Rightarrow> nat (n + 1) | None \<Rightarrow> 3))"

definition resolveAgentInputMaxBytes :: "process_env \<Rightarrow> nat" where
  "resolveAgentInputMaxBytes env =
     (let raw = env_text env ''PIPELINE_AGENT_INPUT_MAX_BYTES'' in
      if raw = [] then 250000
      else (case whole (JStr raw) of None \<Rightarrow> 250000 | Some n \<Rightarrow> nat (max 0 n)))"

text \<open>\<open>assertAgentInputWithinLimit\<close>: zero switches the guard off.\<close>

definition assertAgentInputWithinLimit :: "process_env \<Rightarrow> obj \<Rightarrow> string \<Rightarrow> string \<Rightarrow> exn option" where
  "assertAgentInputWithinLimit env selected pipelineName stepName =
     (let maxBytes = resolveAgentInputMaxBytes env; bytes = jsonByteLength selected in
      if maxBytes \<le> 0 then None
      else if bytes \<le> maxBytes then None
      else Some (Err (''Agent step input is '' @ nat_string bytes @ '' bytes, above '' @
        nat_string maxBytes @ '' byte guard for pipeline '' @ pipelineName @ '': '' @ stepName @
        ''. Compact step input or pass artifact references instead of full records.'')))"

lemma resolveAgentStepMaxAttempts_bounds:
  "1 \<le> resolveAgentStepMaxAttempts env \<and> resolveAgentStepMaxAttempts env \<le> 6"
  by (auto simp: resolveAgentStepMaxAttempts_def parseBoundedPositiveInteger_def nat_le_iff
      split: option.splits if_splits)

text \<open>The limit of the process, and the limit of the step under it.\<close>

definition env_limit :: "process_env \<Rightarrow> string \<Rightarrow> int \<Rightarrow> int \<Rightarrow> int" where
  "env_limit env name least dflt =
     (case whole (case env name of None \<Rightarrow> jint dflt | Some s \<Rightarrow> JStr s) of
        None \<Rightarrow> dflt | Some n \<Rightarrow> if least \<le> n then n else dflt)"

definition step_limit :: "obj \<Rightarrow> num_or_path option \<Rightarrow> int \<Rightarrow> int \<Rightarrow> int" where
  "step_limit current v least limit =
     (case whole (coalesce (path_value current v) (jint limit)) of
        None \<Rightarrow> limit | Some n \<Rightarrow> if least \<le> n then n else limit)"

definition resolveParallelConcurrency :: "process_env \<Rightarrow> obj \<Rightarrow> num_or_path option \<Rightarrow> nat" where
  "resolveParallelConcurrency env current v =
     (let limit = env_limit env ''PIPELINE_MAX_PARALLEL_SESSIONS'' 1 21
      in nat (max 1 (min (step_limit current v 1 limit) (min limit 200))))"

definition resolveAgentLaunchConcurrency :: "process_env \<Rightarrow> obj \<Rightarrow> num_or_path option \<Rightarrow> nat \<Rightarrow> nat" where
  "resolveAgentLaunchConcurrency env current v maxConcurrency =
     (let limit = env_limit env ''PIPELINE_PARALLEL_AGENT_LAUNCH_CONCURRENCY'' 1 1
      in nat (max 1 (min (step_limit current v 1 limit) (min (int maxConcurrency) 50))))"

definition resolveAgentStartupRetries :: "process_env \<Rightarrow> obj \<Rightarrow> num_or_path option \<Rightarrow> nat" where
  "resolveAgentStartupRetries env current v =
     (let limit = env_limit env ''PIPELINE_PARALLEL_AGENT_START_RETRIES'' 0 2
      in nat (max 0 (min (step_limit current v 0 limit) 10)))"

definition resolveAgentStartupRetryBackoffMs :: "process_env \<Rightarrow> obj \<Rightarrow> num_or_path option \<Rightarrow> nat" where
  "resolveAgentStartupRetryBackoffMs env current v =
     (let limit = env_limit env ''PIPELINE_PARALLEL_AGENT_START_RETRY_BACKOFF_MS'' 0 2500
      in nat (max 0 (min (step_limit current v 0 limit) 60000)))"

definition resolveParallelPollMs :: "process_env \<Rightarrow> nat" where
  "resolveParallelPollMs env =
     (case whole (case env ''PIPELINE_PARALLEL_POLL_MS'' of None \<Rightarrow> jint 1000 | Some s \<Rightarrow> JStr s) of
        None \<Rightarrow> 1000 | Some n \<Rightarrow> if n > 0 then nat (min n 1000) else 1000)"

lemma env_limit_least: "least \<le> dflt \<Longrightarrow> least \<le> env_limit env name least dflt"
  by (auto simp: env_limit_def split: option.splits)

lemma clamp_bounds:
  fixes a L :: int
  shows "1 \<le> L \<Longrightarrow> 1 \<le> nat (max 1 (min a (min L 200))) \<and> nat (max 1 (min a (min L 200))) \<le> 200 \<and>
    int (nat (max 1 (min a (min L 200)))) \<le> L"
  by linarith

lemma resolveParallelConcurrency_bounds:
  "1 \<le> resolveParallelConcurrency env current v \<and> resolveParallelConcurrency env current v \<le> 200 \<and>
   int (resolveParallelConcurrency env current v) \<le> env_limit env ''PIPELINE_MAX_PARALLEL_SESSIONS'' 1 21"
  unfolding resolveParallelConcurrency_def Let_def
  by (rule clamp_bounds, rule env_limit_least) (rule one_le_numeral)

lemma resolveAgentLaunchConcurrency_bounds:
  "1 \<le> n \<Longrightarrow> 1 \<le> resolveAgentLaunchConcurrency env current v n \<and>
     resolveAgentLaunchConcurrency env current v n \<le> min n 50"
  by (auto simp: resolveAgentLaunchConcurrency_def Let_def)

lemma resolveAgentStartup_bounds:
  "resolveAgentStartupRetries env current v \<le> 10"
  "resolveAgentStartupRetryBackoffMs env current v \<le> 60000"
  "1 \<le> resolveParallelPollMs env \<and> resolveParallelPollMs env \<le> 1000"
  by (auto simp: resolveAgentStartupRetries_def resolveAgentStartupRetryBackoffMs_def
      resolveParallelPollMs_def Let_def split: option.splits)

section \<open>Loop state and templates\<close>

definition getHistoryItems :: "obj \<Rightarrow> string \<Rightarrow> jval list" where
  "getHistoryItems current path = (case resolvePath current path of
     JArr vs \<Rightarrow> vs
   | JObj ps \<Rightarrow> (case get ps ''items'' of JArr vs \<Rightarrow> vs | _ \<Rightarrow> [])
   | _ \<Rightarrow> [])"

definition captureLoopValues :: "obj \<Rightarrow> (string \<times> string) list option \<Rightarrow> obj" where
  "captureLoopValues current capt = (case capt of
     None \<Rightarrow> []
   | Some kps \<Rightarrow> fold (\<lambda>(k, p) out. AList.update k (resolvePath current p) out) kps [])"

definition resolveStringTemplate :: "obj \<Rightarrow> string option \<Rightarrow> string option" where
  "resolveStringTemplate current v = (case v of
     None \<Rightarrow> None
   | Some s \<Rightarrow> if s = [] then None
      else (case (if is_template s then resolvePath current s else JStr s) of
              JStr t \<Rightarrow> if trim t = [] then None else Some (trim t)
            | _ \<Rightarrow> None))"

section \<open>The executor of an agent step\<close>

definition trimmed_text :: "jval \<Rightarrow> string" where
  "trimmed_text v = (case v of JStr s \<Rightarrow> trim s | _ \<Rightarrow> [])"

text \<open>The binding's two fields, the empty binding, or the error of a half-given one.\<close>

definition resolvePipelineAgentProfileBinding :: "obj \<Rightarrow> exn + obj" where
  "resolvePipelineAgentProfileBinding input = (case plain_object (get input ''agent'') of
     None \<Rightarrow> Inr []
   | Some values \<Rightarrow>
      (let profileId = trimmed_text (get values ''profileId''); botNpub = trimmed_text (get values ''botNpub'')
       in if profileId = [] then Inr []
          else if botNpub = [] then
            Inl (Err ''Pipeline agent profile binding requires both profileId and botNpub'')
          else Inr [(''agentProfileId'', JStr profileId), (''agentChatBotNpub'', JStr botNpub)]))"

definition resolvePipelineAgentModel :: "obj \<Rightarrow> string option" where
  "resolvePipelineAgentModel input = (case plain_object (get input ''agent'') of
     None \<Rightarrow> None
   | Some values \<Rightarrow>
      (if trimmed_text (get values ''profileId'') = [] then None
       else if trimmed_text (get values ''model'') = [] then None
       else Some (trimmed_text (get values ''model''))))"

definition resolveAgent :: "(string \<Rightarrow> bool) \<Rightarrow> string option \<Rightarrow> string option \<Rightarrow> string" where
  "resolveAgent is_agent v defaultAgent =
     (let normalized = (case v of None \<Rightarrow> ''codex'' | Some s \<Rightarrow> to_lower (trim s)) in
      if is_agent normalized then normalized
      else (case defaultAgent of
              None \<Rightarrow> ''codex''
            | Some d \<Rightarrow> if is_agent (to_lower (trim d)) then to_lower (trim d) else ''codex''))"

end
