(* ===== verification/Agent_Steps.thy ===== *)
theory Agent_Steps
  imports Run_Settings
begin

text \<open>
  The agent steps of \<open>pipeline-runner.ts\<close>: the callback an agent posts, the session the runner
  starts for it with its retries, the wait for the callback, the grace period in which a session's
  last turn settles (\<open>agent-session-finalization.ts\<close>), the final answer
  (\<open>agent-final-response.ts\<close>) and the activity webhook of the step. The session manager, the
  clock's sleep and the network are operations of the environment; each may change the database,
  since other requests are served while the runner awaits.
\<close>

section \<open>Callbacks\<close>

definition payloadObject :: "jval \<Rightarrow> obj" where
  "payloadObject payload = objectOrWrapped payload"

datatype callback_parse =
    CallbackOk status obj "string option"
  | CallbackError string

fun callback_status :: "jval \<Rightarrow> status option" where
  "callback_status (JStr s) =
     (if s = ''ok'' then Some Ok else if s = ''needs_input'' then Some NeedsInput
      else if s = ''error'' then Some Errored else None)"
| "callback_status _ = None"

definition text_or_none :: "jval \<Rightarrow> string option" where
  "text_or_none v = (case v of JStr s \<Rightarrow> Some s | _ \<Rightarrow> None)"

definition parseAgentCallbackPayload :: "jval \<Rightarrow> uuid \<Rightarrow> uuid \<Rightarrow> callback_parse" where
  "parseAgentCallbackPayload payload runId stepId = (case plain_object payload of
     None \<Rightarrow> CallbackError ''Payload must be a JSON object''
   | Some ps \<Rightarrow>
      (if \<not> strict_eq (get ps ''runId'') (JStr (uuid_text runId)) then CallbackError ''runId mismatch''
       else if \<not> strict_eq (get ps ''stepId'') (JStr (uuid_text stepId)) then CallbackError ''stepId mismatch''
       else (case callback_status (get ps ''status'') of
          None \<Rightarrow> CallbackError ''status must be ok, needs_input, or error''
        | Some st \<Rightarrow> (case plain_object (get ps ''result'') of
            None \<Rightarrow> CallbackError ''result must be an object''
          | Some result \<Rightarrow> CallbackOk st result (text_or_none (get ps ''error''))))))"

record reply =
  re_ok :: bool
  re_status :: nat
  re_body :: obj

definition refuse :: "nat \<Rightarrow> string \<Rightarrow> reply" where
  "refuse code msg = \<lparr>re_ok = False, re_status = code, re_body = [(''error'', JStr msg)]\<rparr>"

definition log_callback :: "uuid \<Rightarrow> bool \<Rightarrow> jval \<Rightarrow> string option \<Rightarrow> pstore \<Rightarrow> pstore" where
  "log_callback stepId accepted payload error s =
     (case addCallback stepId accepted (payloadObject payload) error s of None \<Rightarrow> s | Some t \<Rightarrow> t)"

definition acceptAgentCallback ::
  "uuid \<Rightarrow> uuid \<Rightarrow> string option \<Rightarrow> jval \<Rightarrow> pstore \<Rightarrow> reply \<times> pstore" where
  "acceptAgentCallback runId stepId token payload s =
     (case getStep s stepId of
        None \<Rightarrow> (refuse 404 ''Step not found'', s)
      | Some step \<Rightarrow>
         (if st_runId step \<noteq> runId then (refuse 404 ''Step not found'', s)
          else if token_or_empty (st_callbackToken step) = [] \<or> token \<noteq> st_callbackToken step then
            (refuse 401 ''Invalid callback token'',
             log_callback stepId False payload (Some ''Invalid callback token'') s)
          else if st_status step \<noteq> Running then
            (let msg = ''Step is not accepting callbacks while '' @ status_text (st_status step) in
             (refuse 409 msg, log_callback stepId False payload (Some msg) s))
          else (case parseAgentCallbackPayload payload runId stepId of
              CallbackError e \<Rightarrow> (refuse 400 e, log_callback stepId False payload (Some e) s)
            | CallbackOk st result error \<Rightarrow>
               (let s1 = log_callback stepId True payload None s in
                (\<lparr>re_ok = True, re_status = 200, re_body = [(''ok'', JBool True),
                    (''runId'', JStr (uuid_text runId)), (''stepId'', JStr (uuid_text stepId))]\<rparr>,
                 case completeStep \<lparr>cp_id = stepId, cp_status = st, cp_result = Some result,
                     cp_output = Some result, cp_error = error, cp_session = None\<rparr> s1 of
                   None \<Rightarrow> s1 | Some t \<Rightarrow> t)))))"

section \<open>The environment\<close>

record session_info =
  si_id :: string
  si_agent :: string
  si_status :: string

record session_request =
  sq_agent :: string
  sq_directory :: "string option"
  sq_name :: string
  sq_owner :: "string option"
  sq_metadata :: obj
  sq_model :: "string option"

datatype fetch_result = Response bool nat string | Aborted | FetchFailed string

record message =
  msg_role :: string
  msg_content :: string

record 'e ops =
  op_env :: process_env
  op_url :: "string \<Rightarrow> url_parts option"
  op_hash :: "string \<Rightarrow> string option"
  op_registry :: "string \<Rightarrow> (obj \<Rightarrow> (jval, 'e) io) option"
  op_secretFunction :: "string \<Rightarrow> (uuid \<Rightarrow> obj \<Rightarrow> (jval, 'e) io) option"
  op_deleteConversation :: "string option \<Rightarrow> obj \<Rightarrow> (jval, 'e) io"
  op_completedTurn :: "uuid \<Rightarrow> uuid \<Rightarrow> string option \<Rightarrow> obj \<Rightarrow> jval option \<Rightarrow> (jval, 'e) io"
  op_sleep :: "nat \<Rightarrow> (unit, 'e) io"
  op_isAgent :: "string \<Rightarrow> bool"
  op_getSession :: "'e \<Rightarrow> string \<Rightarrow> session_info option"
  op_createSession :: "session_request \<Rightarrow> (session_info, 'e) io"
  op_ready :: "session_info \<Rightarrow> (unit, 'e) io"
  op_deliver :: "session_info \<Rightarrow> string \<Rightarrow> (string option, 'e) io"
  op_runtimeStatus :: "string \<Rightarrow> nat \<Rightarrow> (string option, 'e) io"
  op_sync :: "string \<Rightarrow> (unit, 'e) io"
  op_stop :: "string \<Rightarrow> (unit, 'e) io"
  op_messages :: "'e \<Rightarrow> string \<Rightarrow> message list"
  op_bindWebhook :: "uuid \<Rightarrow> uuid \<Rightarrow> string \<Rightarrow> string \<Rightarrow> string \<Rightarrow> obj \<Rightarrow> (unit, 'e) io"
  op_prompt :: "string \<Rightarrow> obj \<Rightarrow> string \<Rightarrow> uuid \<Rightarrow> uuid \<Rightarrow> string"
  op_apiKey :: "(string, 'e) io"
  op_secrets :: "string list"
  op_fetch :: "string \<Rightarrow> obj \<Rightarrow> nat \<Rightarrow> string \<Rightarrow> (fetch_result, 'e) io"
  op_parse :: "string \<Rightarrow> string + jval"
  op_childDefinition :: "string \<Rightarrow> jval option \<Rightarrow> string option \<Rightarrow> (definition_record, 'e) io"
  op_schedule :: "'e world \<Rightarrow> uuid list \<Rightarrow> uuid option"

text \<open>\<open>PipelineRunnerInput\<close> without its collaborators.\<close>

record run_input =
  in_definition :: definition_record
  in_input :: obj
  in_ownerNpub :: "string option"
  in_ownerAlias :: "string option"
  in_defaultAgent :: "string option"
  in_profileId :: "string option"
  in_agentNpub :: "string option"

definition session_alive :: "'e ops \<Rightarrow> string \<Rightarrow> (bool, 'e) io" where
  "session_alive ops sid = reads (\<lambda>w. op_getSession ops (w_env w) sid \<noteq> None)"

definition now :: "(nat, 'e) io" where
  "now = look db_clock"

section \<open>Finalization\<close>

definition PIPELINE_AGENT_SUCCESS_GRACE_MS :: nat where
  "PIPELINE_AGENT_SUCCESS_GRACE_MS = 60000"

definition PIPELINE_AGENT_GRACE_POLL_MS :: nat where
  "PIPELINE_AGENT_GRACE_POLL_MS = 250"

definition REQUIRED_STABLE_OBSERVATIONS :: nat where
  "REQUIRED_STABLE_OBSERVATIONS = 2"

datatype grace_outcome = Settled | Expired | Interrupted | SessionMissing

fun grace_text :: "grace_outcome \<Rightarrow> string" where
  "grace_text Settled = ''settled''"
| "grace_text Expired = ''expired''"
| "grace_text Interrupted = ''interrupted''"
| "grace_text SessionMissing = ''session_missing''"

fun graceEvent :: "grace_outcome \<Rightarrow> level \<times> string" where
  "graceEvent Settled = (Info, ''agent_session_grace_completed'')"
| "graceEvent Expired = (Warn, ''agent_session_grace_expired'')"
| "graceEvent SessionMissing = (Warn, ''agent_session_grace_session_missing'')"
| "graceEvent Interrupted = (Info, ''agent_session_grace_interrupted'')"

record grace =
  gr_outcome :: grace_outcome
  gr_elapsedMs :: nat
  gr_observations :: nat

definition grace_after :: "nat \<Rightarrow> grace_outcome \<Rightarrow> nat \<Rightarrow> (grace, 'e) io" where
  "grace_after startedAt outcome observations =
     bnd now (\<lambda>t. ret \<lparr>gr_outcome = outcome, gr_elapsedMs = t - startedAt, gr_observations = observations\<rparr>)"

text \<open>One turn of the loop's body up to the sleep: an outcome, or the two counters to go on with.\<close>

definition observe_turn ::
  "'e ops \<Rightarrow> uuid \<Rightarrow> uuid \<Rightarrow> string \<Rightarrow> nat \<Rightarrow> nat \<Rightarrow> nat \<Rightarrow> (grace_outcome \<times> nat + nat \<times> nat, 'e) io" where
  "observe_turn ops runId stepId sid deadline steady observations =
     bnd (look (\<lambda>s. is_running s runId \<and>
            (case getStep s stepId of None \<Rightarrow> False | Some st \<Rightarrow> st_status st = Ok))) (\<lambda>going.
     if \<not> going then ret (Inl (Interrupted, observations))
     else bnd (reads (\<lambda>w. op_getSession ops (w_env w) sid)) (\<lambda>session.
       if (case session of None \<Rightarrow> True | Some si \<Rightarrow> si_status si \<noteq> ''running'')
       then ret (Inl (SessionMissing, observations))
       else bnd now (\<lambda>t. bnd (op_runtimeStatus ops sid (deadline - t)) (\<lambda>status.
         let observations' = Suc observations; steady' = (if status = Some ''stable'' then Suc steady else 0)
         in ret (if steady' \<ge> REQUIRED_STABLE_OBSERVATIONS then Inl (Settled, observations')
                 else Inr (steady', observations'))))))"

fun stable_loop ::
  "nat \<Rightarrow> 'e ops \<Rightarrow> uuid \<Rightarrow> uuid \<Rightarrow> string \<Rightarrow> nat \<Rightarrow> nat \<Rightarrow> nat \<Rightarrow> nat \<Rightarrow> nat \<Rightarrow> (grace, 'e) io" where
  "stable_loop 0 ops runId stepId sid startedAt deadline pollMs steady observations = throw Diverge"
| "stable_loop (Suc n) ops runId stepId sid startedAt deadline pollMs steady observations =
     bnd now (\<lambda>t.
     if deadline \<le> t then grace_after startedAt Expired observations
     else bnd (observe_turn ops runId stepId sid deadline steady observations) (\<lambda>r. case r of
         Inl (outcome, obs) \<Rightarrow> grace_after startedAt outcome obs
       | Inr (steady', obs) \<Rightarrow>
          bnd now (\<lambda>t'.
          if deadline \<le> t' then grace_after startedAt Expired obs
          else bnd (op_sleep ops (min pollMs (deadline - t'))) (\<lambda>_.
            stable_loop n ops runId stepId sid startedAt deadline pollMs steady' obs))))"

text \<open>\<open>waitForStableAgentTurn\<close>; every turn sleeps at least a millisecond, so the fuel is enough.\<close>

definition waitForStableAgentTurn ::
  "'e ops \<Rightarrow> uuid \<Rightarrow> uuid \<Rightarrow> string \<Rightarrow> nat \<Rightarrow> nat \<Rightarrow> (grace, 'e) io" where
  "waitForStableAgentTurn ops runId stepId sid graceMs pollMs =
     bnd now (\<lambda>startedAt.
       stable_loop (Suc graceMs) ops runId stepId sid startedAt (startedAt + graceMs) pollMs 0 0)"

definition final_sync :: "'e ops \<Rightarrow> uuid \<Rightarrow> uuid \<Rightarrow> string \<Rightarrow> grace_outcome \<Rightarrow> (unit, 'e) io" where
  "final_sync ops runId stepId sid outcome =
     try_catch
       (bnd (op_sync ops sid) (\<lambda>_.
        alter (addEvent (Some runId) (Some stepId) Info ''agent_session_final_sync_completed''
          (Some sid) [(''graceOutcome'', JStr (grace_text outcome))])))
       (\<lambda>e. alter (addEvent (Some runId) (Some stepId) Warn ''agent_session_final_sync_failed''
          (Some (exn_message e))
          [(''sessionId'', JStr sid), (''graceOutcome'', JStr (grace_text outcome))]))"

definition grace_period :: "'e ops \<Rightarrow> uuid \<Rightarrow> uuid \<Rightarrow> string \<Rightarrow> (unit, 'e) io" where
  "grace_period ops runId stepId sid =
     bnd (waitForStableAgentTurn ops runId stepId sid PIPELINE_AGENT_SUCCESS_GRACE_MS
            PIPELINE_AGENT_GRACE_POLL_MS) (\<lambda>g.
     bnd (alter (addEvent (Some runId) (Some stepId) (fst (graceEvent (gr_outcome g)))
            (snd (graceEvent (gr_outcome g))) (Some (grace_text (gr_outcome g)))
            [(''sessionId'', JStr sid), (''graceMs'', jnat PIPELINE_AGENT_SUCCESS_GRACE_MS),
             (''elapsedMs'', jnat (gr_elapsedMs g)), (''observations'', jnat (gr_observations g))])) (\<lambda>_.
     if gr_outcome g = Settled \<or> gr_outcome g = Expired
     then final_sync ops runId stepId sid (gr_outcome g) else ret ()))"

definition finalizePipelineAgentSession ::
  "'e ops \<Rightarrow> uuid \<Rightarrow> uuid \<Rightarrow> string \<Rightarrow> status option \<Rightarrow> (unit, 'e) io" where
  "finalizePipelineAgentSession ops runId stepId sid callbackStatus =
     bnd (if callbackStatus = Some Ok then grace_period ops runId stepId sid else ret ())
       (\<lambda>_. op_stop ops sid)"

definition finalizeRecoveredPipelineAgentSession ::
  "'e ops \<Rightarrow> uuid \<Rightarrow> step_row \<Rightarrow> (unit, 'e) io" where
  "finalizeRecoveredPipelineAgentSession ops runId step = (case st_wingmanSessionId step of
     None \<Rightarrow> ret ()
   | Some sid \<Rightarrow> bnd (session_alive ops sid) (\<lambda>alive.
       if sid = [] \<or> \<not> alive then ret ()
       else finalizePipelineAgentSession ops runId (st_id step) sid (Some (st_status step))))"

section \<open>The final answer\<close>

definition is_reply :: "message \<Rightarrow> bool" where
  "is_reply m = (msg_role m = ''agent'' \<or> msg_role m = ''assistant'')"

text \<open>The last reply after the last user message, if there is a user message.\<close>

definition final_message :: "message list \<Rightarrow> message option" where
  "final_message messages =
     (let after = takeWhile (\<lambda>m. msg_role m \<noteq> ''user'') (rev messages) in
      if list_ex (\<lambda>m. msg_role m = ''user'') messages then List.find is_reply after else None)"

definition retainAgentFinalResponse ::
  "'e ops \<Rightarrow> uuid \<Rightarrow> uuid \<Rightarrow> string \<Rightarrow> obj \<Rightarrow> (obj, 'e) io" where
  "retainAgentFinalResponse ops runId stepId sid result =
     bnd (reads (\<lambda>w. op_messages ops (w_env w) sid)) (\<lambda>messages.
     case final_message messages of
       None \<Rightarrow> bnd (alter (addEvent (Some runId) (Some stepId) Warn ''agent_final_response_unavailable''
            (Some ''Full final transcript response is unavailable after completion sync'')
            [(''sessionId'', JStr sid)])) (\<lambda>_. ret result)
     | Some final \<Rightarrow> ret (AList.update ''finalResponse'' (JStr (msg_content final)) result))"

end
