(* ===== verification/Agent_Sessions.thy ===== *)
theory Agent_Sessions
  imports Agent_Steps
begin

text \<open>
  The execution of one agent step (\<open>runOrResumeAgentStep\<close>, \<open>runAgentStep\<close> and
  \<open>waitForCallbackResult\<close> of \<open>pipeline-runner.ts\<close>) with the activity webhook it binds
  (\<open>activity-webhook-contract.ts\<close>, \<open>activity-webhook-binding.ts\<close>): sessions are started, prompted,
  awaited and stopped, a failed attempt is retried up to the configured number, and the answer
  already on record is never asked for again.
\<close>

section \<open>Activity webhooks\<close>

definition has_control :: "string \<Rightarrow> bool" where
  "has_control s = list_ex (\<lambda>c. (of_char c :: nat) < 32) s"

definition correlation_value :: "jval \<Rightarrow> string option" where
  "correlation_value v = (case v of
     JStr t \<Rightarrow> if trim t = [] \<or> length t > 200 \<or> has_control t then None else Some t
   | _ \<Rightarrow> None)"

fun correlate :: "obj \<Rightarrow> (string \<times> jval) list \<Rightarrow> obj \<Rightarrow> string + obj" where
  "correlate authority [] out = Inr out"
| "correlate authority ((k, p) # rest) out =
     (case correlation_value (resolvePath authority (case p of JStr path \<Rightarrow> path | _ \<Rightarrow> [])) of
        None \<Rightarrow> Inl (''Missing trusted activity correlation: '' @ k)
      | Some t \<Rightarrow> correlate authority rest (AList.update k (JStr t) out))"

definition resolveActivityWebhook ::
  "(string \<Rightarrow> url_parts option) \<Rightarrow> uuid \<Rightarrow> jval option \<Rightarrow> pstore \<Rightarrow> exn + (string \<times> obj) option" where
  "resolveActivityWebhook parse runId spec s = (case spec of
     None \<Rightarrow> Inr None
   | Some v \<Rightarrow> (case validateActivityWebhookSpec parse v of
       Some e \<Rightarrow> Inl (Err e)
     | None \<Rightarrow> (case pipelineAuthorityInput s runId of
         Inl e \<Rightarrow> Inl e
       | Inr authority \<Rightarrow>
          (case correlate authority
             (case plain_object (field v ''correlation'') of None \<Rightarrow> [] | Some ps \<Rightarrow> ps) [] of
             Inl e \<Rightarrow> Inl (Err e)
           | Inr c \<Rightarrow> Inr (Some (js_string (field v ''url''), c))))))"

definition bindActivityWebhook ::
  "'e ops \<Rightarrow> uuid \<Rightarrow> uuid \<Rightarrow> jval option \<Rightarrow> string \<Rightarrow> string \<Rightarrow> (unit, 'e) io" where
  "bindActivityWebhook ops runId stepId spec sid prompt = (case spec of
     None \<Rightarrow> ret ()
   | Some _ \<Rightarrow>
      try_catch
        (bnd (look (resolveActivityWebhook (op_url ops) runId spec)) (\<lambda>r.
         bnd (lift_sum r) (\<lambda>destination. case destination of
            None \<Rightarrow> ret ()
          | Some (url, correlation) \<Rightarrow> op_bindWebhook ops runId stepId sid prompt url correlation)))
        (\<lambda>e. alter (addEvent (Some runId) (Some stepId) Warn ''activity_configuration_failed''
           (Some (exn_message e)) [])))"

section \<open>Waiting for the callback\<close>

text \<open>What is known of an agent's answer.\<close>

record answer =
  an_status :: status
  an_result :: "obj option"
  an_error :: "string option"

definition CALLBACK_POLL_MS :: nat where
  "CALLBACK_POLL_MS = 1000"

definition CALLBACK_TIMEOUT_MS :: nat where
  "CALLBACK_TIMEOUT_MS = 600000"

definition answer_of :: "step_row \<Rightarrow> answer" where
  "answer_of st = \<lparr>an_status = st_status st, an_result = or_else (st_output st) (st_result st),
     an_error = st_error st\<rparr>"

text \<open>\<open>Math.round(ms / 1000)\<close>\<close>

definition round_seconds :: "nat \<Rightarrow> nat" where
  "round_seconds ms = (ms + 500) div 1000"

fun wait_loop :: "nat \<Rightarrow> 'e ops \<Rightarrow> uuid \<Rightarrow> nat \<Rightarrow> nat \<Rightarrow> string \<Rightarrow> (answer, 'e) io" where
  "wait_loop 0 ops stepId timeoutMs deadline sid = throw Diverge"
| "wait_loop (Suc n) ops stepId timeoutMs deadline sid =
     bnd now (\<lambda>t.
     if deadline \<le> t then throw (Err (''Timed out waiting for pipeline agent callback after '' @
       nat_string (round_seconds timeoutMs) @ ''s''))
     else bnd (look (\<lambda>s. getStep s stepId)) (\<lambda>step.
       case (case step of None \<Rightarrow> None | Some st \<Rightarrow> if st_status st = Running then None else Some st) of
         Some st \<Rightarrow> ret (answer_of st)
       | None \<Rightarrow> bnd (session_alive ops sid) (\<lambda>alive.
           if \<not> alive then throw (Err (''Pipeline agent session '' @ sid @ '' disappeared before callback delivery''))
           else bnd (op_sleep ops CALLBACK_POLL_MS) (\<lambda>_. wait_loop n ops stepId timeoutMs deadline sid))))"

definition waitForCallbackResult :: "'e ops \<Rightarrow> uuid \<Rightarrow> nat \<Rightarrow> string \<Rightarrow> (answer, 'e) io" where
  "waitForCallbackResult ops stepId timeoutMs sid =
     bnd now (\<lambda>t. wait_loop (Suc timeoutMs) ops stepId timeoutMs (t + timeoutMs) sid)"

section \<open>Starting a session\<close>

record agent_call =
  ac_runId :: uuid
  ac_stepId :: uuid
  ac_stepName :: string
  ac_selected :: obj
  ac_prompt :: string
  ac_webhook :: "jval option"
  ac_token :: string
  ac_agent :: "string option"
  ac_model :: "string option"
  ac_directory :: "string option"
  ac_timeoutMs :: nat

definition or_empty :: "obj option \<Rightarrow> obj" where
  "or_empty x = (case x of None \<Rightarrow> [] | Some ps \<Rightarrow> ps)"

definition or_failed :: "string option \<Rightarrow> string" where
  "or_failed e = (case e of None \<Rightarrow> ''Agent step failed'' | Some m \<Rightarrow> m)"

text \<open>The binding to the initiating agent, which replaces the profile of the root's input.\<close>

definition agent_binding :: "run_input \<Rightarrow> uuid \<Rightarrow> pstore \<Rightarrow> exn + obj" where
  "agent_binding inp runId s = (case nonempty (in_agentNpub inp) of
     Some npub \<Rightarrow> Inr ((case nonempty (in_profileId inp) of
         None \<Rightarrow> [] | Some p \<Rightarrow> [(''agentProfileId'', JStr p)]) @ [(''agentChatBotNpub'', JStr npub)])
   | None \<Rightarrow> (case pipelineAuthorityInput s runId of
       Inl e \<Rightarrow> Inl e | Inr authority \<Rightarrow> resolvePipelineAgentProfileBinding authority))"

definition session_request :: "run_input \<Rightarrow> agent_call \<Rightarrow> string \<Rightarrow> obj \<Rightarrow> nat \<Rightarrow> nat \<Rightarrow> session_request" where
  "session_request inp c agent binding attemptBase attempt =
     \<lparr>sq_agent = agent, sq_directory = ac_directory c,
      sq_name = ''Pipeline '' @ ac_stepName c @ (if attempt > 1 then '' retry '' @ nat_string attempt else []),
      sq_owner = in_ownerNpub inp,
      sq_metadata = spread
        [(''AGENT'', JBool True), (''role'', JStr ''pipeline-step''),
         (''goal'', JStr (''Pipeline '' @ dp_name (pd_spec (in_definition inp)) @ '': '' @ ac_stepName c)),
         (''nextAction'', JStr ''reflect''), (''bindingType'', JStr ''flow_run''),
         (''bindingId'', JStr (uuid_text (ac_runId c))), (''flowRunId'', JStr (uuid_text (ac_runId c))),
         (''retryAttempt'', jnat (attemptBase + attempt))] binding,
      sq_model = ac_model c\<rparr>"

definition still_allowed :: "uuid \<Rightarrow> (unit, 'e) io" where
  "still_allowed runId = bnd (require (throwIfRunCancelled runId)) (\<lambda>_.
     require (assertPipelineAncestorsRunning runId))"

text \<open>The attempt once its session exists: prompt it and wait for the callback.\<close>

definition drive_session ::
  "'e ops \<Rightarrow> agent_call \<Rightarrow> string \<Rightarrow> nat \<Rightarrow> session_info \<Rightarrow> (answer, 'e) io" where
  "drive_session ops c prompt attempt session =
     bnd (alter (setStepSession (ac_stepId c) (si_id session))) (\<lambda>_.
     bnd (still_allowed (ac_runId c)) (\<lambda>_.
     bnd (op_ready ops session) (\<lambda>_.
     bnd (still_allowed (ac_runId c)) (\<lambda>_.
     bnd (alter (capture (ac_runId c) (ac_stepId c) (Some attempt) ExecutorRequest
            ''agent_invocation_prompt_persistent_session_not_full_conversation''
            (JObj [(''prompt'', JStr prompt), (''agent'', JStr (si_agent session)),
               (''model'', str_or_null (ac_model c)), (''sessionId'', JStr (si_id session)),
               (''type'', JStr ''user'')]) [ac_token c])) (\<lambda>_.
     bnd (bindActivityWebhook ops (ac_runId c) (ac_stepId c) (ac_webhook c) (si_id session) prompt) (\<lambda>_.
     bnd (op_deliver ops session prompt) (\<lambda>failure. case failure of
       Some m \<Rightarrow> throw (Err m)
     | None \<Rightarrow> waitForCallbackResult ops (ac_stepId c) (ac_timeoutMs c) (si_id session))))))))"

definition is_halt :: "exn \<Rightarrow> bool" where
  "is_halt e = (case e of Halt _ _ _ \<Rightarrow> True | _ \<Rightarrow> False)"

definition shouldRetryAgentStepError :: "exn \<Rightarrow> bool" where
  "shouldRetryAgentStepError e = (\<not> is_halt e)"

definition fail_if_running :: "uuid \<Rightarrow> string \<Rightarrow> string option \<Rightarrow> (unit, 'e) io" where
  "fail_if_running stepId msg session =
     bnd (look (\<lambda>s. getStep s stepId)) (\<lambda>latest.
     if (case latest of None \<Rightarrow> False | Some st \<Rightarrow> st_status st = Running)
     then alter_opt (completeStep \<lparr>cp_id = stepId, cp_status = Errored, cp_result = None,
            cp_output = None, cp_error = Some msg, cp_session = session\<rparr>)
     else ret ())"

text \<open>The \<open>catch\<close> of the attempt: go on to the next one, or record the failure and give up.\<close>

definition attempt_failed :: "agent_call \<Rightarrow> nat \<Rightarrow> exn \<Rightarrow> (exn + answer, 'e) io" where
  "attempt_failed c remaining e =
     (if shouldRetryAgentStepError e \<and> remaining > 0 then ret (Inl e)
      else bnd (fail_if_running (ac_stepId c) (exn_message e) None) (\<lambda>_. throw e))"

definition try_session ::
  "'e ops \<Rightarrow> agent_call \<Rightarrow> string \<Rightarrow> nat \<Rightarrow> nat \<Rightarrow> session_info \<Rightarrow> (exn + answer, 'e) io" where
  "try_session ops c prompt attempt remaining session =
     finally_with
       (try_catch (bnd (drive_session ops c prompt attempt session) (\<lambda>a. ret (Inr a)))
          (attempt_failed c remaining))
       (\<lambda>r. swallow (finalizePipelineAgentSession ops (ac_runId c) (ac_stepId c) (si_id session)
          (case r of Inr (Inr a) \<Rightarrow> Some (an_status a) | _ \<Rightarrow> None)))"

text \<open>What the step's record already says before an attempt.\<close>

definition recorded_answer :: "uuid \<Rightarrow> step_row option \<Rightarrow> exn + answer option" where
  "recorded_answer runId latest = (case latest of
     None \<Rightarrow> Inr None
   | Some st \<Rightarrow> (case st_status st of
       Ok \<Rightarrow> Inr (Some (answer_of st))
     | NeedsInput \<Rightarrow> Inr (Some (answer_of st))
     | Errored \<Rightarrow> Inl (Err (or_failed (st_error st)))
     | Cancelled \<Rightarrow> Inl (Stopped runId)
     | _ \<Rightarrow> Inr None))"

text \<open>The attempts: the first argument is how many are left.\<close>

fun agent_attempts ::
  "nat \<Rightarrow> 'e ops \<Rightarrow> run_input \<Rightarrow> agent_call \<Rightarrow> string \<Rightarrow> string \<Rightarrow> obj \<Rightarrow> nat \<Rightarrow> nat \<Rightarrow> exn option \<Rightarrow> (answer, 'e) io" where
  "agent_attempts 0 ops inp c agent prompt binding attemptBase attempt lastError =
     throw (case lastError of None \<Rightarrow> Err ''Agent step failed'' | Some e \<Rightarrow> e)"
| "agent_attempts (Suc remaining) ops inp c agent prompt binding attemptBase attempt lastError =
     bnd (look (\<lambda>s. getStep s (ac_stepId c))) (\<lambda>latest.
     bnd (lift_sum (recorded_answer (ac_runId c) latest)) (\<lambda>known. case known of
       Some a \<Rightarrow> ret a
     | None \<Rightarrow>
        bnd (\<lambda>w. case op_createSession ops (session_request inp c agent binding attemptBase attempt) w of
               (Inl Diverge, w') \<Rightarrow> (Inl Diverge, w')
             | (Inl e, w') \<Rightarrow> attempt_failed c remaining e w'
             | (Inr session, w') \<Rightarrow> try_session ops c prompt (attemptBase + attempt) remaining session w')
          (\<lambda>r. case r of
             Inr a \<Rightarrow> ret a
           | Inl e \<Rightarrow> agent_attempts remaining ops inp c agent prompt binding attemptBase (Suc attempt) (Some e))))"

text \<open>How an answer ends the step.\<close>

definition answer_result :: "uuid \<Rightarrow> answer \<Rightarrow> exn + obj" where
  "answer_result runId a =
     (if an_status a = Errored then Inl (Err (or_failed (an_error a)))
      else if an_status a = Cancelled then Inl (Stopped runId)
      else if an_status a = NeedsInput then Inl (Halt HaltNeedsInput (or_empty (an_result a)) ''Agent step needs input'')
      else Inr (or_empty (an_result a)))"

definition with_final_response :: "'e ops \<Rightarrow> agent_call \<Rightarrow> string option \<Rightarrow> obj \<Rightarrow> (obj, 'e) io" where
  "with_final_response ops c sid result = (case nonempty sid of
     None \<Rightarrow> ret result
   | Some i \<Rightarrow> retainAgentFinalResponse ops (ac_runId c) (ac_stepId c) i result)"

definition runAgentStep :: "'e ops \<Rightarrow> run_input \<Rightarrow> agent_call \<Rightarrow> (obj, 'e) io" where
  "runAgentStep ops inp c =
     bnd (require (\<lambda>_. assertAgentInputWithinLimit (op_env ops) (ac_selected c)
            (dp_name (pd_spec (in_definition inp))) (ac_stepName c))) (\<lambda>_.
     bnd (look (\<lambda>s. nextExecutorAttempt s (ac_stepId c) - 1)) (\<lambda>attemptBase.
     bnd (look (agent_binding inp (ac_runId c))) (\<lambda>b. bnd (lift_sum b) (\<lambda>binding.
     let agent = resolveAgent (op_isAgent ops) (ac_agent c) (in_defaultAgent inp);
         prompt = op_prompt ops (ac_prompt c) (ac_selected c) (ac_token c) (ac_runId c) (ac_stepId c) in
     bnd (agent_attempts (resolveAgentStepMaxAttempts (op_env ops)) ops inp c agent prompt binding
            attemptBase 1 None) (\<lambda>a.
     bnd (lift_sum (answer_result (ac_runId c) a)) (\<lambda>result.
     bnd (look (\<lambda>s. case getStep s (ac_stepId c) of None \<Rightarrow> None | Some st \<Rightarrow> st_wingmanSessionId st))
       (\<lambda>sid. with_final_response ops c sid result)))))))"

definition await_running_session :: "'e ops \<Rightarrow> agent_call \<Rightarrow> string \<Rightarrow> (obj, 'e) io" where
  "await_running_session ops c sid =
     bnd (finally_with (waitForCallbackResult ops (ac_stepId c) (ac_timeoutMs c) sid)
       (\<lambda>r. swallow (finalizePipelineAgentSession ops (ac_runId c) (ac_stepId c) sid
          (case r of Inr a \<Rightarrow> Some (an_status a) | Inl _ \<Rightarrow> None)))) (\<lambda>a.
     bnd (lift_sum (answer_result (ac_runId c) a)) (\<lambda>result.
       retainAgentFinalResponse ops (ac_runId c) (ac_stepId c) sid result))"

definition reuse_answer :: "'e ops \<Rightarrow> agent_call \<Rightarrow> step_row \<Rightarrow> bool \<Rightarrow> (obj, 'e) io" where
  "reuse_answer ops c st alive =
     bnd (case nonempty (st_wingmanSessionId st) of
            Some sid \<Rightarrow> if alive then swallow (finalizePipelineAgentSession ops (ac_runId c) (ac_stepId c) sid (Some Ok))
                        else ret ()
          | None \<Rightarrow> ret ()) (\<lambda>_.
     with_final_response ops c (st_wingmanSessionId st) (or_empty (or_else (st_output st) (st_result st))))"

definition runOrResumeAgentStep :: "'e ops \<Rightarrow> run_input \<Rightarrow> agent_call \<Rightarrow> (obj, 'e) io" where
  "runOrResumeAgentStep ops inp c =
     bnd (look (\<lambda>s. getStep s (ac_stepId c))) (\<lambda>latest.
     bnd (look (resolveActivityWebhook (op_url ops) (ac_runId c) (ac_webhook c))) (\<lambda>r.
     bnd (lift_sum r) (\<lambda>_. case latest of
       None \<Rightarrow> runAgentStep ops inp c
     | Some st \<Rightarrow>
        bnd (case nonempty (st_wingmanSessionId st) of None \<Rightarrow> ret False | Some sid \<Rightarrow> session_alive ops sid) (\<lambda>alive.
        case st_status st of
          Ok \<Rightarrow> reuse_answer ops c st alive
        | Errored \<Rightarrow> throw (Err (or_failed (st_error st)))
        | Cancelled \<Rightarrow> throw (Stopped (ac_runId c))
        | NeedsInput \<Rightarrow> throw (Halt HaltNeedsInput (or_empty (or_else (st_output st) (st_result st))) ''Agent step needs input'')
        | _ \<Rightarrow> (case nonempty (st_wingmanSessionId st) of
             Some sid \<Rightarrow> if alive then await_running_session ops c sid else runAgentStep ops inp c
           | None \<Rightarrow> runAgentStep ops inp c)))))"

end
