(* ===== verification/Classifier_Steps.thy ===== *)
theory Classifier_Steps
  imports Agent_Sessions
begin

text \<open>
  The classifier steps: the prepared input (\<open>classifier-input.ts\<close>), the chat request and its
  answer (\<open>classifier-executor.ts\<close>), the decisions request and its answer
  (\<open>openrouter-decisions.ts\<close>), each tried as often as the step allows. The network and the JSON
  parser are operations of the environment.
\<close>

section \<open>The prepared input\<close>

definition prepareClassifierInput :: "'e ops \<Rightarrow> obj \<Rightarrow> string option \<Rightarrow> (obj, 'e) io" where
  "prepareClassifierInput ops selected inputFunction = (case nonempty inputFunction of
     None \<Rightarrow> ret selected
   | Some f \<Rightarrow> (case op_registry ops f of
       None \<Rightarrow> throw (Err (''Unknown classifier input function: '' @ f))
     | Some fn \<Rightarrow> bnd (fn selected) (\<lambda>v.
         lift_sum (map_sum Err id (assertObject v ''classifier prepared input'')))))"

section \<open>Requests\<close>

record classifier_call =
  cc_runId :: uuid
  cc_stepId :: uuid
  cc_selected :: obj
  cc_prompt :: string
  cc_model :: string
  cc_timeoutMs :: nat
  cc_attempts :: nat
  cc_apiKey :: string
  cc_attemptBase :: nat

definition captureRequest :: "classifier_call \<Rightarrow> obj \<Rightarrow> nat \<Rightarrow> (unit, 'e) io" where
  "captureRequest c body attempt =
     alter (capture (cc_runId c) (cc_stepId c) (Some (cc_attemptBase c + attempt)) ExecutorRequest
       ''assembled_model_request'' (JObj body) [])"

definition newline :: string where
  "newline = [CHR 0x0A]"

definition chat_body :: "classifier_call \<Rightarrow> jnum option \<Rightarrow> jnum option \<Rightarrow> nat \<Rightarrow> obj" where
  "chat_body c temperature maxTokens attempt =
     [(''model'', JStr (cc_model c)),
      (''messages'', JArr
        [JObj [(''role'', JStr ''system''), (''content'', JStr
          (''You are a JSON-only classifier inside a Wingman pipeline. '' @
           ''Return exactly one valid JSON object and no prose, no markdown, no code fence. '' @
           ''The object must satisfy the step instruction.''))],
         JObj [(''role'', JStr ''user''), (''content'', JStr (join newline
          [''Step instruction:'', cc_prompt c, [], ''Selected input:'', stringify (JObj (cc_selected c)),
           [], ''Attempt: '' @ nat_string attempt]))]]),
      (''temperature'', JNum (case temperature of None \<Rightarrow> Fin 0 | Some n \<Rightarrow> n)),
      (''max_tokens'', JNum (case maxTokens of None \<Rightarrow> Fin 1200 | Some n \<Rightarrow> n)),
      (''response_format'', JObj [(''type'', JStr ''json_object'')])]"

definition part_text :: "jval \<Rightarrow> string" where
  "part_text part = (case field part ''text'' of JStr t \<Rightarrow> t | _ \<Rightarrow> [])"

definition extractOpenRouterMessageContent :: "jval \<Rightarrow> string + string" where
  "extractOpenRouterMessageContent payload = (case field payload ''choices'' of
     JArr (first # _) \<Rightarrow> (case plain_object first of
         None \<Rightarrow> Inl ''OpenRouter classifier response choice was invalid''
       | Some ch \<Rightarrow> (case plain_object (get ch ''message'') of
           None \<Rightarrow> Inl ''OpenRouter classifier response did not include a message''
         | Some m \<Rightarrow> (case get m ''content'' of
             JStr t \<Rightarrow> Inr t
           | JArr parts \<Rightarrow> Inr (concat (map part_text parts))
           | _ \<Rightarrow> Inl ''OpenRouter classifier message content was not text'')))
   | _ \<Rightarrow> Inl ''OpenRouter classifier response did not include choices'')"

text \<open>
  The fence around the answer: three backquotes, an optional \<open>json\<close> in any case and white space
  in front, white space and three backquotes behind.
\<close>

definition fence :: string where
  "fence = ''```''"

definition ends_with :: "string \<Rightarrow> string \<Rightarrow> bool" where
  "ends_with p s = starts_with (rev p) (rev s)"

definition strip_open_fence :: "string \<Rightarrow> string" where
  "strip_open_fence s = (let t = drop 3 s;
     u = (if to_lower (take 4 t) = ''json'' then drop 4 t else t) in dropWhile is_space u)"

definition strip_close_fence :: "string \<Rightarrow> string" where
  "strip_close_fence s =
     (if ends_with fence s then rev (dropWhile is_space (rev (take (length s - 3) s))) else s)"

definition withoutFence :: "string \<Rightarrow> string" where
  "withoutFence content = (let trimmed = trim content in
     if starts_with fence trimmed then trim (strip_close_fence (strip_open_fence trimmed)) else trimmed)"

definition parseClassifierJsonContent :: "(string \<Rightarrow> string + jval) \<Rightarrow> string \<Rightarrow> string + obj" where
  "parseClassifierJsonContent parse content = (case parse (withoutFence content) of
     Inl e \<Rightarrow> Inl e
   | Inr v \<Rightarrow> (case plain_object v of
       None \<Rightarrow> Inl ''Classifier response JSON must be an object'' | Some ps \<Rightarrow> Inr ps))"

definition request_failed :: "string \<Rightarrow> nat \<Rightarrow> string \<Rightarrow> string" where
  "request_failed what code text = ''OpenRouter '' @ what @ '' request failed ('' @ nat_string code @ ''): '' @ take 500 text"

definition timed_out :: "string \<Rightarrow> nat \<Rightarrow> string" where
  "timed_out what timeoutMs = ''OpenRouter '' @ what @ '' request timed out after '' @
     nat_string (round_seconds timeoutMs) @ ''s''"

definition chat_url :: string where
  "chat_url = ''https://openrouter.ai/api/v1/chat/completions''"

definition decisions_url :: string where
  "decisions_url = ''https://openrouter.ai/api/alpha/decisions''"

definition chat_answer :: "(string \<Rightarrow> string + jval) \<Rightarrow> nat \<Rightarrow> fetch_result \<Rightarrow> string + obj" where
  "chat_answer parse timeoutMs r = (case r of
     Aborted \<Rightarrow> Inl (timed_out ''classifier'' timeoutMs)
   | FetchFailed m \<Rightarrow> Inl m
   | Response ok code text \<Rightarrow>
      (if \<not> ok then Inl (request_failed ''classifier'' code text)
       else (case parse text of
          Inl e \<Rightarrow> Inl e
        | Inr payload \<Rightarrow> (case extractOpenRouterMessageContent payload of
            Inl e \<Rightarrow> Inl e | Inr content \<Rightarrow> parseClassifierJsonContent parse content))))"

definition callOpenRouterJsonClassifier ::
  "'e ops \<Rightarrow> classifier_call \<Rightarrow> jnum option \<Rightarrow> jnum option \<Rightarrow> nat \<Rightarrow> (obj, 'e) io" where
  "callOpenRouterJsonClassifier ops c temperature maxTokens attempt =
     (let body = chat_body c temperature maxTokens attempt in
      bnd (captureRequest c body attempt) (\<lambda>_.
      bnd (op_fetch ops chat_url body (cc_timeoutMs c) (cc_apiKey c)) (\<lambda>r.
        lift_sum (map_sum Err id (chat_answer (op_parse ops) (cc_timeoutMs c) r)))))"

section \<open>Attempts\<close>

text \<open>The loop both classifiers share: the first success ends it, the last error is reported redacted.\<close>

definition redact_text :: "pstore \<Rightarrow> string \<Rightarrow> string \<Rightarrow> string" where
  "redact_text s secret t = js_string (fst (db_redact s [secret] (JStr t)))"

fun attempts :: "nat \<Rightarrow> nat \<Rightarrow> (nat \<Rightarrow> (obj, 'e) io) \<Rightarrow> exn option \<Rightarrow> (exn option + obj, 'e) io" where
  "attempts 0 attempt req latest = ret (Inl latest)"
| "attempts (Suc n) attempt req latest =
     bnd (try_catch (bnd (req attempt) (\<lambda>r. ret (Inr r))) (\<lambda>e. ret (Inl e))) (\<lambda>r. case r of
       Inr result \<Rightarrow> ret (Inr result)
     | Inl e \<Rightarrow> attempts n (Suc attempt) req (Some e))"

definition with_attempts :: "string \<Rightarrow> classifier_call \<Rightarrow> (nat \<Rightarrow> (obj, 'e) io) \<Rightarrow> (obj, 'e) io" where
  "with_attempts what c req =
     bnd (attempts (cc_attempts c) 1 req None) (\<lambda>r. case r of
       Inr result \<Rightarrow> ret result
     | Inl latest \<Rightarrow> bnd (look (\<lambda>s. redact_text s (cc_apiKey c)
         (what @ '' failed after '' @ nat_string (cc_attempts c) @ '' attempts: '' @
          (case latest of None \<Rightarrow> ''unknown error'' | Some e \<Rightarrow> exn_message e)))) (\<lambda>m. throw (Err m)))"

definition runClassifierStep ::
  "'e ops \<Rightarrow> classifier_call \<Rightarrow> string \<Rightarrow> jnum option \<Rightarrow> jnum option \<Rightarrow> (obj, 'e) io" where
  "runClassifierStep ops c provider temperature maxTokens =
     (if provider \<noteq> ''openrouter'' then throw (Err (''Unsupported classifier provider: '' @ provider))
      else with_attempts ''Classifier step'' c (callOpenRouterJsonClassifier ops c temperature maxTokens))"

section \<open>Decisions\<close>

definition answer_valid :: "jval \<Rightarrow> bool" where
  "answer_valid a = (case field a ''type'' of
     JStr t \<Rightarrow>
       (t = ''noul'' \<and> (case field a ''noul'' of JNum _ \<Rightarrow> True | _ \<Rightarrow> False)) \<or>
       (t = ''choice'' \<and> (case field a ''choice'' of JStr _ \<Rightarrow> True | _ \<Rightarrow> False)) \<or>
       (t = ''score'' \<and> (case field a ''score'' of JNum _ \<Rightarrow> True | _ \<Rightarrow> False))
   | _ \<Rightarrow> False)"

definition answer_error :: "string \<times> jval \<Rightarrow> string option" where
  "answer_error = (\<lambda>(i, a). case assertObject a (''OpenRouter decisions answer '' @ i) of
     Inl e \<Rightarrow> Some e
   | Inr _ \<Rightarrow> if answer_valid a then None else Some (''OpenRouter decisions answer '' @ i @ '' was invalid''))"

definition assertOpenRouterDecisionsPayload :: "jval \<Rightarrow> string option" where
  "assertOpenRouterDecisionsPayload payload =
     (if (case field payload ''model'' of JStr m \<Rightarrow> trim m = [] | _ \<Rightarrow> True)
      then Some ''OpenRouter decisions response did not include a model''
      else (case assertObject (field payload ''answers'') ''OpenRouter decisions answers'' of
          Inl e \<Rightarrow> Some e
        | Inr answers \<Rightarrow> (case assertObject (field payload ''usage'') ''OpenRouter decisions usage'' of
            Inl e \<Rightarrow> Some e
          | Inr _ \<Rightarrow> first_error (map answer_error answers))))"

definition decisions_body :: "classifier_call \<Rightarrow> jval \<Rightarrow> obj" where
  "decisions_body c questions =
     [(''model'', JStr (cc_model c)),
      (''state'', JObj (if trim (cc_prompt c) = [] then cc_selected c
         else spread [(''instructionContext'', JStr (cc_prompt c))] (cc_selected c))),
      (''questions'', questions)]"

definition decisions_result :: "string \<Rightarrow> nat \<Rightarrow> jval \<Rightarrow> obj" where
  "decisions_result requestedModel latencyMs payload =
     [(''shadowStatus'', JStr ''ok''), (''authoritative'', JBool False), (''advisoryOnly'', JBool True),
      (''requestedModel'', JStr requestedModel), (''model'', field payload ''model''),
      (''provider'', coalesce (field payload ''provider'') JNull),
      (''requestId'', coalesce (field payload ''id'') JNull), (''latencyMs'', jnat latencyMs),
      (''usage'', field payload ''usage''), (''answers'', field payload ''answers''),
      (''raw'', payload), (''error'', JNull)]"

definition decisions_answer ::
  "(string \<Rightarrow> string + jval) \<Rightarrow> string \<Rightarrow> nat \<Rightarrow> nat \<Rightarrow> fetch_result \<Rightarrow> string + obj" where
  "decisions_answer parse model timeoutMs latencyMs r = (case r of
     Aborted \<Rightarrow> Inl (timed_out ''decisions'' timeoutMs)
   | FetchFailed m \<Rightarrow> Inl m
   | Response ok code text \<Rightarrow>
      (if \<not> ok then Inl (request_failed ''decisions'' code text)
       else (case parse text of
          Inl e \<Rightarrow> Inl e
        | Inr payload \<Rightarrow> (case assertOpenRouterDecisionsPayload payload of
            Some e \<Rightarrow> Inl e | None \<Rightarrow> Inr (decisions_result model latencyMs payload)))))"

definition decisions_call :: "'e ops \<Rightarrow> classifier_call \<Rightarrow> jval \<Rightarrow> nat \<Rightarrow> (obj, 'e) io" where
  "decisions_call ops c questions attempt =
     bnd now (\<lambda>startedAt.
     (let body = decisions_body c questions in
      bnd (captureRequest c body attempt) (\<lambda>_.
      bnd (op_fetch ops decisions_url body (cc_timeoutMs c) (cc_apiKey c)) (\<lambda>r.
      bnd now (\<lambda>t. lift_sum (map_sum Err id
        (decisions_answer (op_parse ops) (cc_model c) (cc_timeoutMs c) (t - startedAt) r)))))))"

definition runOpenRouterDecisions :: "'e ops \<Rightarrow> classifier_call \<Rightarrow> jval \<Rightarrow> (obj, 'e) io" where
  "runOpenRouterDecisions ops c questions =
     (if (case plain_object questions of None \<Rightarrow> True | Some qs \<Rightarrow> qs = [])
      then throw (Err ''OpenRouter decisions classifier requires at least one question'')
      else with_attempts ''Decisions classifier'' c (decisions_call ops c questions))"

definition buildShadowDecisionsError :: "exn \<Rightarrow> string \<Rightarrow> obj" where
  "buildShadowDecisionsError e requestedModel =
     [(''shadowStatus'', JStr ''error''), (''authoritative'', JBool False), (''advisoryOnly'', JBool True),
      (''requestedModel'', JStr requestedModel), (''answers'', JObj []), (''raw'', JNull),
      (''error'', JStr (exn_message e))]"

section \<open>The request of a classifier step\<close>

definition DEFAULT_CLASSIFIER_MODEL :: string where
  "DEFAULT_CLASSIFIER_MODEL = ''openai/gpt-oss-120b:nitro''"

definition DEFAULT_CLASSIFIER_TIMEOUT_MS :: nat where
  "DEFAULT_CLASSIFIER_TIMEOUT_MS = 8000"

text \<open>
  What the runner does for a classifier step and for a classifier child alike: the request with the
  settings of the run's state, in the step's mode.
\<close>

definition classify ::
  "'e ops \<Rightarrow> uuid \<Rightarrow> uuid \<Rightarrow> obj \<Rightarrow> obj \<Rightarrow> classifier_spec \<Rightarrow> (obj, 'e) io" where
  "classify ops runId stepId current selected cl =
     bnd (look (\<lambda>s. nextExecutorAttempt s stepId - 1)) (\<lambda>base.
     bnd (op_apiKey ops) (\<lambda>key.
     bnd (alter (registerSecret key)) (\<lambda>_.
     (let c = \<lparr>cc_runId = runId, cc_stepId = stepId, cc_selected = selected, cc_prompt = cl_prompt cl,
             cc_model = (case resolveStringTemplate current (cl_model cl) of None \<Rightarrow> DEFAULT_CLASSIFIER_MODEL | Some m \<Rightarrow> m),
             cc_timeoutMs = resolveDurationMs (if nonempty (cl_inputFunction cl) = None then current else selected)
                (cl_timeoutMs cl) DEFAULT_CLASSIFIER_TIMEOUT_MS,
             cc_attempts = resolveClassifierAttempts current (cl_retries cl),
             cc_apiKey = key, cc_attemptBase = base\<rparr>
      in if cl_mode cl = Some ''decisions''
         then runOpenRouterDecisions ops c (case cl_questions cl of None \<Rightarrow> JObj [] | Some q \<Rightarrow> q)
         else runClassifierStep ops c (case cl_provider cl of None \<Rightarrow> ''openrouter'' | Some p \<Rightarrow> p)
                (cl_temperature cl) (cl_maxTokens cl)))))"

end
