(* ===== verification/Parallel_Items.thy ===== *)
theory Parallel_Items
  imports Classifier_Steps
begin

text \<open>
  The pure part of \<open>src/pipelines/parallel-runner.ts\<close>: the keys of the items, the input each child
  is given, the aggregate the children's results are folded into, and the recognition of a failed
  agent startup.
\<close>

section \<open>Scoped paths and keys\<close>

record item_scope =
  sc_current :: obj
  sc_item :: jval
  sc_index :: int
  sc_key :: string

definition resolveValuePath :: "jval \<Rightarrow> string \<Rightarrow> jval" where
  "resolveValuePath v path = (if path = [] then v else follow (split_on (CHR ''.'') path) v)"

definition resolveScopedPath :: "item_scope \<Rightarrow> string \<Rightarrow> jval" where
  "resolveScopedPath sc path =
     (if path = ''$item'' then sc_item sc
      else if starts_with ''$item.'' path then resolveValuePath (sc_item sc) (drop 6 path)
      else if path = ''$index'' then jint (sc_index sc)
      else if path = ''$key'' then JStr (sc_key sc)
      else resolvePath (sc_current sc) path)"

definition resolveParallelItemKey :: "obj \<Rightarrow> jval \<Rightarrow> nat \<Rightarrow> string option \<Rightarrow> string" where
  "resolveParallelItemKey current item index itemKey = (case nonempty itemKey of
     None \<Rightarrow> nat_string index
   | Some p \<Rightarrow>
      (let v = resolveScopedPath \<lparr>sc_current = current, sc_item = item, sc_index = int index,
                 sc_key = nat_string index\<rparr> p
       in if nullish v \<or> v = JStr [] then nat_string index else js_string v))"

text \<open>A repeated key is numbered from its second occurrence on.\<close>

fun number_keys :: "(string \<Rightarrow> nat) \<Rightarrow> string list \<Rightarrow> string list" where
  "number_keys seen [] = []"
| "number_keys seen (b # bs) =
     (if seen b = 0 then b else b @ ''#'' @ nat_string (seen b + 1)) #
     number_keys (seen(b := seen b + 1)) bs"

definition resolveParallelItemKeys :: "obj \<Rightarrow> jval list \<Rightarrow> string option \<Rightarrow> string list" where
  "resolveParallelItemKeys current items itemKey =
     number_keys (\<lambda>_. 0)
       (map (\<lambda>(index, item). resolveParallelItemKey current item index itemKey) (enumerate 0 items))"

definition item_object :: "item_scope \<Rightarrow> obj" where
  "item_object sc = [(''item'', sc_item sc), (''index'', jint (sc_index sc)), (''key'', JStr (sc_key sc))]"

definition selectParallelChildInput :: "item_scope \<Rightarrow> selector option \<Rightarrow> obj" where
  "selectParallelChildInput sc sel = (case sel of
     None \<Rightarrow> item_object sc
   | Some (SelPath p) \<Rightarrow> if p = [] then item_object sc else objectOrWrapped (resolveScopedPath sc p)
   | Some (SelSpec pick val) \<Rightarrow>
       (case val of Some v \<Rightarrow> v
        | None \<Rightarrow> (case pick of
            Some kps \<Rightarrow> fold (\<lambda>(k, p) out. AList.update k (resolveScopedPath sc p) out) kps []
          | None \<Rightarrow> item_object sc)))"

definition isTerminalStatus :: "status \<Rightarrow> bool" where
  "isTerminalStatus st = (st \<in> {Ok, NeedsInput, Errored, Skipped, Cancelled})"

text \<open>The key of a child is kept in the metadata of its record.\<close>

definition parallelItemKey :: "step_row \<Rightarrow> string" where
  "parallelItemKey st =
     (case field (case st_metadata st of None \<Rightarrow> JUndef | Some md \<Rightarrow> get md ''parent'') ''logicalKey'' of
        JStr k \<Rightarrow> k
      | _ \<Rightarrow> (case st_logicalKey st of Some k \<Rightarrow> k | None \<Rightarrow> nat_string (st_stepIndex st)))"

section \<open>The aggregate\<close>

definition child_entry :: "nat \<times> step_row \<Rightarrow> jval" where
  "child_entry = (\<lambda>(index, st). JObj
     [(''key'', JStr (parallelItemKey st)), (''index'', jnat index),
      (''status'', JStr (status_text (st_status st))),
      (''result'', JObj (or_empty (or_else (st_output st) (st_result st)))),
      (''error'', str_or_null (st_error st)), (''stepId'', JStr (uuid_text (st_id st))),
      (''wingmanSessionId'', str_or_null (st_wingmanSessionId st))])"

definition count_status :: "status \<Rightarrow> step_row list \<Rightarrow> nat" where
  "count_status x sts = length (filter (\<lambda>st. st_status st = x) sts)"

definition buildParallelAggregate :: "step_row list \<Rightarrow> obj" where
  "buildParallelAggregate sts =
     [(''total'', jnat (length sts)), (''ok'', jnat (count_status Ok sts)),
      (''error'', jnat (count_status Errored sts)), (''needsInput'', jnat (count_status NeedsInput sts)),
      (''items'', JArr (map child_entry (enumerate 0 sts)))]"

lemma aggregate_partition:
  "list_all (\<lambda>st. isTerminalStatus (st_status st)) sts \<Longrightarrow>
     count_status Ok sts + count_status Errored sts + count_status NeedsInput sts +
     count_status Skipped sts + count_status Cancelled sts = length sts"
  by (induction sts) (auto simp: count_status_def isTerminalStatus_def)

section \<open>Failed startups\<close>

text \<open>
  \<open>/\bPM2 process\b.+\bfailed (?:to start within timeout|during startup)\b/\<close>: the first phrase as
  whole words, then on the same line, after at least one character, the second one.
\<close>

definition boundary_before :: "string \<Rightarrow> nat \<Rightarrow> bool" where
  "boundary_before s i = (i = 0 \<or> \<not> is_word (s ! (i - 1)))"

definition boundary_after :: "string \<Rightarrow> nat \<Rightarrow> bool" where
  "boundary_after s i = (i \<ge> length s \<or> \<not> is_word (s ! i))"

definition phrase_at :: "string \<Rightarrow> string \<Rightarrow> nat \<Rightarrow> bool" where
  "phrase_at p s i = (take (length p) (drop i s) = p \<and> boundary_before s i \<and> boundary_after s (i + length p))"

definition line_end :: "char \<Rightarrow> bool" where
  "line_end c = (c = CHR 0x0A \<or> c = CHR 0x0D)"

definition startup_failure :: "string \<Rightarrow> bool" where
  "startup_failure s = (\<exists>i \<in> set [0..<length s]. phrase_at ''PM2 process'' s i \<and>
     (\<exists>j \<in> set [i + 12..<length s].
        (phrase_at ''failed to start within timeout'' s j \<or> phrase_at ''failed during startup'' s j) \<and>
        \<not> list_ex line_end (take (j - (i + 11)) (drop (i + 11) s))))"

section \<open>Laws of the keys\<close>

lemma length_number_keys [simp]: "length (number_keys seen bs) = length bs"
  by (induction bs arbitrary: seen) auto

lemma length_itemKeys [simp]: "length (resolveParallelItemKeys current items itemKey) = length items"
  by (simp add: resolveParallelItemKeys_def)

lemma number_keys_distinct_bases:
  "distinct bs \<Longrightarrow> (\<forall>b \<in> set bs. seen b = 0) \<Longrightarrow> number_keys seen bs = bs"
proof (induction bs arbitrary: seen)
  case (Cons b bs)
  then have "\<forall>c \<in> set bs. (seen(b := seen b + 1)) c = 0" by auto
  from Cons.IH [OF _ this] Cons.prems show ?case by (simp del: fun_upd_apply)
qed simp

lemma nat_digits_digit: "c \<in> set (nat_digits n) \<Longrightarrow> is_digit c"
proof (induction n rule: nat_digits.induct)
  case (1 n)
  have d: "is_digit (char_of (48 + m))" if "m < 10" for m :: nat
    using that by (simp add: is_digit_def of_char_of Let_def)
  show ?case
  proof (cases "n < 10")
    case True
    with 1 d show ?thesis by (subst (asm) (2) nat_digits.simps) auto
  next
    case False
    have "c \<in> set (nat_digits (n div 10)) \<or> c = char_of (48 + n mod 10)"
      using 1(2) False by (subst (asm) nat_digits.simps) auto
    with 1(1) [OF False] d [of "n mod 10"] show ?thesis by auto
  qed
qed

fun digits_nat :: "string \<Rightarrow> nat" where
  "digits_nat cs = foldl (\<lambda>n c. 10 * n + (of_char c - 48)) 0 cs"

lemma digits_nat_inverse: "digits_nat (nat_digits n) = n"
proof (induction n rule: nat_digits.induct)
  case (1 n)
  have c: "(of_char (char_of (48 + m) :: char) :: nat) = 48 + m" if "m < 10" for m :: nat
    using that by (simp add: of_char_of)
  show ?case
  proof (cases "n < 10")
    case True
    then show ?thesis using c [of n] by (simp add: nat_digits.simps [of n])
  next
    case False
    have "digits_nat (nat_digits n) = 10 * digits_nat (nat_digits (n div 10)) + n mod 10"
      using False c [of "n mod 10"] by (subst nat_digits.simps) simp
    with 1 [OF False] show ?thesis by simp
  qed
qed

lemma nat_string_inject [simp]: "nat_string a = nat_string b \<longleftrightarrow> a = b"
  using digits_nat_inverse by (metis nat_string_def)

lemma uuid_text_inject [simp]: "uuid_text a = uuid_text b \<longleftrightarrow> a = b"
  by (simp add: uuid_text_def)

lemma numbered_key_split:
  assumes "CHR ''#'' \<notin> set a" and "CHR ''#'' \<notin> set b" and "a @ ''#'' @ x = b @ ''#'' @ y"
  shows "a = b \<and> x = y"
proof -
  have "takeWhile (\<lambda>c. c \<noteq> CHR ''#'') (a @ ''#'' @ x) = a" "takeWhile (\<lambda>c. c \<noteq> CHR ''#'') (b @ ''#'' @ y) = b"
    using assms(1,2) by (auto simp: takeWhile_append2 takeWhile_eq_all_conv intro!: takeWhile_append2 [THEN trans])
  with assms(3) show ?thesis by auto
qed

text \<open>The keys already given out: a base, and its numbered forms up to the count seen.\<close>

definition given :: "(string \<Rightarrow> nat) \<Rightarrow> string set" where
  "given seen = {b. seen b > 0} \<union> {b @ ''#'' @ nat_string m | b m. 2 \<le> m \<and> m \<le> seen b}"

lemma number_keys_distinct:
  assumes "\<forall>b \<in> set bs. CHR ''#'' \<notin> set b" and "\<forall>b. seen b > 0 \<longrightarrow> CHR ''#'' \<notin> set b"
  shows "distinct (number_keys seen bs) \<and> set (number_keys seen bs) \<inter> given seen = {}"
  using assms
proof (induction bs arbitrary: seen)
  case (Cons b bs)
  let ?seen = "seen(b := seen b + 1)"
  let ?k = "if seen b = 0 then b else b @ ''#'' @ nat_string (seen b + 1)"
  have hb: "CHR ''#'' \<notin> set b" using Cons.prems(1) by simp
  have "\<forall>c \<in> set bs. CHR ''#'' \<notin> set c" and "\<forall>c. ?seen c > 0 \<longrightarrow> CHR ''#'' \<notin> set c"
    using Cons.prems by auto
  from Cons.IH [OF this]
  have IH: "distinct (number_keys ?seen bs)" "set (number_keys ?seen bs) \<inter> given ?seen = {}"
    by blast+
  have in_given: "?k \<in> given ?seen" by (auto simp: given_def)
  have le: "seen c \<le> ?seen c" for c by simp
  have mono: "given seen \<subseteq> given ?seen"
    unfolding given_def using le order_trans less_le_trans by (blast intro: order_trans less_le_trans)
  have fresh: "?k \<notin> given seen"
  proof
    assume k: "?k \<in> given seen"
    show False
    proof (cases "seen b = 0")
      case True
      with k hb show False by (auto simp: given_def)
    next
      case False
      have "CHR ''#'' \<in> set (b @ ''#'' @ nat_string (seen b + 1))" by simp
      then have "\<not> seen (b @ ''#'' @ nat_string (seen b + 1)) > 0" using Cons.prems(2) by blast
      with k False obtain c m where
        m: "b @ ''#'' @ nat_string (seen b + 1) = c @ ''#'' @ nat_string m" "2 \<le> m" "m \<le> seen c"
        by (auto simp: given_def)
      then have "seen c > 0" by simp
      with Cons.prems(2) have "CHR ''#'' \<notin> set c" by blast
      from numbered_key_split [OF hb this m(1)] have "b = c" "m = seen b + 1" by auto
      with m(3) show False by simp
    qed
  qed
  have keys: "number_keys seen (b # bs) = ?k # number_keys ?seen bs" by (simp del: fun_upd_apply)
  have "?k \<notin> set (number_keys ?seen bs)" using IH(2) in_given by blast
  with IH(1) have "distinct (?k # number_keys ?seen bs)" by (simp del: fun_upd_apply)
  moreover have "set (number_keys ?seen bs) \<inter> given seen = {}" using IH(2) mono by blast
  then have "set (?k # number_keys ?seen bs) \<inter> given seen = {}"
    using fresh by (simp del: fun_upd_apply)
  ultimately show ?case unfolding keys by blast
qed simp

end
