(* ===== verification/Parallel_Runner.thy ===== *)
theory Parallel_Runner
  imports Parallel_Items
begin

text \<open>
  The parallel step (\<open>runParallelStep\<close> of \<open>parallel-runner.ts\<close>, with the two child executors that
  \<open>pipeline-runner.ts\<close> passes to it). The loop polls the children's records, launches as many as
  the limits allow and waits until one of the launched promises settles or the poll timer fires;
  which of them is the environment's choice (\<open>op_schedule\<close>). A child's record is started when it
  is launched; the rest of its body runs when it is chosen. The fuel bounds the polls.
\<close>

section \<open>The children's records\<close>

record parallel_input =
  pl_runId :: uuid
  pl_current :: obj
  pl_base :: step_base
  pl_spec :: parallel_spec
  pl_child :: dstep
  pl_parentStepId :: uuid
  pl_parentStepName :: string

fun kind_of :: "dstep \<Rightarrow> step_kind" where
  "kind_of (PipelineStep _ _) = KPipeline"
| "kind_of (BlockStep _ _) = KBlock"
| "kind_of (CodeStep _ _) = KCode"
| "kind_of (AgentStep _ _) = KAgent"
| "kind_of (ClassifierStep _ _) = KClassifier"
| "kind_of (LoopStep _ _ _) = KLoop"
| "kind_of (ParallelStep _ _ _) = KParallel"

definition nextStepIndex :: "uuid \<Rightarrow> (nat, 'e) io" where
  "nextStepIndex runId = (\<lambda>w. (Inr (w_stepIndex w runId),
     w\<lparr>w_stepIndex := (w_stepIndex w)(runId := Suc (w_stepIndex w runId))\<rparr>))"

text \<open>\<open>crypto.randomUUID()\<close> as a token.\<close>

definition fresh_token :: "(string, 'e) io" where
  "fresh_token = (\<lambda>w. case fresh_uuid (w_store w) of (u, s) \<Rightarrow> (Inr (uuid_text u), w\<lparr>w_store := s\<rparr>))"

definition child_selector :: "parallel_input \<Rightarrow> selector option" where
  "child_selector p = or_else (pa_itemInput (pl_spec p)) (sb_input (base (pl_child p)))"

definition parent_metadata :: "parallel_input \<Rightarrow> string \<Rightarrow> nat \<Rightarrow> obj" where
  "parent_metadata p key index =
     [(''stepName'', JStr (pl_parentStepName p)), (''stepId'', JStr (uuid_text (pl_parentStepId p))),
      (''type'', JStr ''parallel''), (''source'', JStr (pa_source (pl_spec p))),
      (''itemKey'', str_or_null (pa_itemKey (pl_spec p))), (''logicalKey'', JStr key),
      (''index'', jnat index)]"

definition child_logicalKey :: "parallel_input \<Rightarrow> pstore \<Rightarrow> string" where
  "child_logicalKey p s =
     (case (case getStep s (pl_parentStepId p) of None \<Rightarrow> None | Some st \<Rightarrow> st_logicalKey st) of
        Some k \<Rightarrow> k | None \<Rightarrow> step_key (pl_base p)) @ ''/'' @ step_key (base (pl_child p))"

definition child_record :: "parallel_input \<Rightarrow> jval \<times> string \<Rightarrow> nat \<Rightarrow> nat \<Rightarrow> string option \<Rightarrow> pstore \<Rightarrow> create_step" where
  "child_record p = (\<lambda>(item, key) index stepIndex token s.
     \<lparr>cs_runId = pl_runId p, cs_stepIndex = stepIndex,
      cs_name = pl_parentStepName p @ '' #'' @ nat_string (index + 1) @ '' / '' @ sb_name (base (pl_child p)),
      cs_kind = kind_of (pl_child p),
      cs_input = selectParallelChildInput \<lparr>sc_current = pl_current p, sc_item = item,
         sc_index = int index, sc_key = key\<rparr> (child_selector p),
      cs_status = Some Queued, cs_parentStepId = Some (pl_parentStepId p),
      cs_logicalKey = Some (child_logicalKey p s), cs_callbackToken = token,
      cs_metadata = Some (buildPipelineStepMetadata (pl_child p) (child_selector p)
         (Some (parent_metadata p key index)))\<rparr>)"

fun create_children :: "parallel_input \<Rightarrow> string list \<Rightarrow> (nat \<times> jval \<times> string) list \<Rightarrow> (unit, 'e) io" where
  "create_children p existing [] = ret ()"
| "create_children p existing ((index, item, key) # rest) =
     (if key \<in> set existing then create_children p existing rest
      else bnd (nextStepIndex (pl_runId p)) (\<lambda>n.
           bnd (if kind_of (pl_child p) = KAgent then bnd fresh_token (\<lambda>t. ret (Some t)) else ret None) (\<lambda>token.
           bnd (alter_ret (\<lambda>s. createStep (child_record p (item, key) index n token s) s)) (\<lambda>_.
             create_children p existing rest))))"

definition ensureParallelChildren :: "parallel_input \<Rightarrow> jval list \<Rightarrow> string list \<Rightarrow> (unit, 'e) io" where
  "ensureParallelChildren p items itemKeys =
     bnd (look (\<lambda>s. map parallelItemKey (listChildSteps s (pl_parentStepId p)))) (\<lambda>existing.
       create_children p existing (enumerate 0 (zip items itemKeys)))"

section \<open>One child\<close>

definition index_of :: "string \<Rightarrow> string list \<Rightarrow> int" where
  "index_of k ks = (if k \<in> set ks then int (length (takeWhile (\<lambda>x. x \<noteq> k) ks)) else - 1)"

definition child_selected :: "parallel_input \<Rightarrow> jval list \<Rightarrow> string list \<Rightarrow> step_row \<Rightarrow> obj" where
  "child_selected p items itemKeys st =
     (let key = parallelItemKey st; index = index_of key itemKeys;
          item = (if 0 \<le> index \<and> nat index < length items then items ! nat index else JUndef)
      in selectParallelChildInput \<lparr>sc_current = pl_current p, sc_item = coalesce item JNull,
           sc_index = index, sc_key = key\<rparr> (child_selector p))"

definition start_child :: "step_row \<Rightarrow> (step_row, 'e) io" where
  "start_child st =
     (if st_status st = Queued
      then bnd (alter_opt (startStep (st_id st))) (\<lambda>_.
           bnd (look (\<lambda>s. getStep s (st_id st))) (\<lambda>r. ret (case r of None \<Rightarrow> st | Some st' \<Rightarrow> st')))
      else ret st)"

definition complete_ok :: "uuid \<Rightarrow> obj \<Rightarrow> obj \<Rightarrow> string option \<Rightarrow> (unit, 'e) io" where
  "complete_ok stepId result output sid =
     alter_opt (completeStep \<lparr>cp_id = stepId, cp_status = Ok, cp_result = Some result,
       cp_output = Some output, cp_error = None, cp_session = sid\<rparr>)"

definition complete_failed :: "uuid \<Rightarrow> status \<Rightarrow> string \<Rightarrow> (unit, 'e) io" where
  "complete_failed stepId st msg =
     alter_opt (completeStep \<lparr>cp_id = stepId, cp_status = st, cp_result = None,
       cp_output = None, cp_error = Some msg, cp_session = None\<rparr>)"

definition session_of :: "uuid \<Rightarrow> pstore \<Rightarrow> string option" where
  "session_of stepId s = (case getStep s stepId of None \<Rightarrow> None | Some st \<Rightarrow> st_wingmanSessionId st)"

definition agent_model :: "obj \<Rightarrow> string option \<Rightarrow> uuid \<Rightarrow> pstore \<Rightarrow> exn + string option" where
  "agent_model current m runId s = (case resolveStringTemplate current m of
     Some t \<Rightarrow> Inr (Some t)
   | None \<Rightarrow> (case pipelineAuthorityInput s runId of
       Inl e \<Rightarrow> Inl e | Inr authority \<Rightarrow> Inr (resolvePipelineAgentModel authority)))"

text \<open>The call both kinds of agent step make.\<close>

definition call_agent ::
  "'e ops \<Rightarrow> run_input \<Rightarrow> uuid \<Rightarrow> obj \<Rightarrow> agent_spec \<Rightarrow> uuid \<Rightarrow> string \<Rightarrow> obj \<Rightarrow> string \<Rightarrow> (obj, 'e) io" where
  "call_agent ops inp runId current ag stepId stepName selected token =
     bnd (look (agent_model current (ag_model ag) runId)) (\<lambda>m. bnd (lift_sum m) (\<lambda>model.
       runOrResumeAgentStep ops inp
         \<lparr>ac_runId = runId, ac_stepId = stepId, ac_stepName = stepName, ac_selected = selected,
          ac_prompt = ag_prompt ag, ac_webhook = ag_activityWebhook ag, ac_token = token,
          ac_agent = resolveStringTemplate current (ag_agent ag), ac_model = model,
          ac_directory = resolveStringTemplate current (ag_directory ag),
          ac_timeoutMs = resolveDurationMs current (ag_timeoutMs ag) CALLBACK_TIMEOUT_MS\<rparr>))"

definition runAgentChild ::
  "'e ops \<Rightarrow> run_input \<Rightarrow> parallel_input \<Rightarrow> agent_spec \<Rightarrow> step_row \<Rightarrow> obj \<Rightarrow> (unit, 'e) io" where
  "runAgentChild ops inp p ag st selected =
     bnd (case st_callbackToken st of Some t \<Rightarrow> ret t | None \<Rightarrow> fresh_token) (\<lambda>token.
     bnd (if nonempty (st_callbackToken st) = None then alter (setStepCallbackToken (st_id st) token) else ret ()) (\<lambda>_.
     try_catch
       (bnd (call_agent ops inp (pl_runId p) (pl_current p) ag (st_id st) (st_name st) selected token) (\<lambda>result.
        bnd (look (session_of (st_id st))) (\<lambda>sid. complete_ok (st_id st) result result sid)))
       (\<lambda>e. case e of
          Halt _ result msg \<Rightarrow> alter_opt (completeStep \<lparr>cp_id = st_id st, cp_status = NeedsInput,
            cp_result = Some result, cp_output = Some result, cp_error = Some msg, cp_session = None\<rparr>)
        | _ \<Rightarrow> throw e)))"

definition runClassifierChild ::
  "'e ops \<Rightarrow> parallel_input \<Rightarrow> classifier_spec \<Rightarrow> step_row \<Rightarrow> obj \<Rightarrow> (unit, 'e) io" where
  "runClassifierChild ops p cl st selected =
     bnd (try_catch
       (bnd (prepareClassifierInput ops selected (cl_inputFunction cl)) (\<lambda>prepared.
          classify ops (pl_runId p) (st_id st) (pl_current p) prepared cl))
       (\<lambda>e. if cl_failurePolicy cl \<noteq> Some RecordError then throw e
            else ret (buildShadowDecisionsError e
              (case resolveStringTemplate (pl_current p) (cl_model cl) of
                 None \<Rightarrow> DEFAULT_CLASSIFIER_MODEL | Some m \<Rightarrow> m)))) (\<lambda>result.
     complete_ok (st_id st) result result None)"

definition run_code_child :: "'e ops \<Rightarrow> parallel_input \<Rightarrow> code_spec \<Rightarrow> step_row \<Rightarrow> obj \<Rightarrow> (unit, 'e) io" where
  "run_code_child ops p c st selected = (case op_registry ops (co_function c) of
     None \<Rightarrow> throw (Err (''Unknown pipeline function: '' @ co_function c))
   | Some fn \<Rightarrow>
      bnd (alter (capture (pl_runId p) (st_id st) None ExecutorRequest ''code_function_arguments''
             (JObj [(''function'', JStr (co_function c)), (''arguments'', JObj selected)]) [])) (\<lambda>_.
      bnd (fn selected) (\<lambda>v.
      bnd (lift_sum (map_sum Err id (assertObject v (''parallel child '' @ st_name st @ '' result'')))) (\<lambda>result.
        complete_ok (st_id st) result result None))))"

text \<open>\<open>runParallelChild\<close> after its record is started.\<close>

definition run_started ::
  "'e ops \<Rightarrow> run_input \<Rightarrow> parallel_input \<Rightarrow> step_row \<Rightarrow> obj \<Rightarrow> (unit, 'e) io" where
  "run_started ops inp p st selected = (case pl_child p of
     CodeStep _ c \<Rightarrow> run_code_child ops p c st selected
   | ClassifierStep _ cl \<Rightarrow> runClassifierChild ops p cl st selected
   | AgentStep _ ag \<Rightarrow> runAgentChild ops inp p ag st selected
   | _ \<Rightarrow> throw (Err (''Parallel step '' @ sb_name (pl_base p) @
       '' only supports code, classifier, and agent child steps'')))"

definition shouldRetryAgentStartup :: "parallel_input \<Rightarrow> uuid \<Rightarrow> exn \<Rightarrow> nat \<Rightarrow> pstore \<Rightarrow> bool" where
  "shouldRetryAgentStartup p childId e retriesRemaining s =
     (retriesRemaining > 0 \<and> kind_of (pl_child p) = KAgent \<and> nonempty (session_of childId s) = None \<and>
      startup_failure (exn_message e))"

text \<open>The retries after a failed startup: the first argument is how many are left.\<close>

fun retry_child ::
  "nat \<Rightarrow> nat \<Rightarrow> nat \<Rightarrow> 'e ops \<Rightarrow> run_input \<Rightarrow> parallel_input \<Rightarrow> jval list \<Rightarrow> string list \<Rightarrow> step_row \<Rightarrow> exn \<Rightarrow> (unit, 'e) io" where
  "retry_child 0 attempt backoff ops inp p items itemKeys st e = throw e"
| "retry_child (Suc n) attempt backoff ops inp p items itemKeys st e =
     bnd (op_sleep ops (backoff * attempt)) (\<lambda>_.
     bnd (look (\<lambda>s. case getStep s (st_id st) of None \<Rightarrow> st | Some x \<Rightarrow> x)) (\<lambda>latest.
     try_catch
       (bnd (start_child latest) (\<lambda>running. run_started ops inp p running (child_selected p items itemKeys latest)))
       (\<lambda>retryError. bnd (look (shouldRetryAgentStartup p (st_id st) retryError n)) (\<lambda>again.
          if again then retry_child n (Suc attempt) backoff ops inp p items itemKeys st e
          else throw retryError))))"

definition fail_child :: "uuid \<Rightarrow> exn \<Rightarrow> (unit, 'e) io" where
  "fail_child childId e =
     bnd (look (\<lambda>s. getStep s childId)) (\<lambda>latest. case latest of
       None \<Rightarrow> ret ()
     | Some st \<Rightarrow> if open_step st then complete_failed childId Errored (exn_message e) else ret ())"

text \<open>The promise of a launched child, with its two \<open>catch\<close> handlers.\<close>

definition settle_child ::
  "'e ops \<Rightarrow> run_input \<Rightarrow> parallel_input \<Rightarrow> jval list \<Rightarrow> string list \<Rightarrow> nat \<Rightarrow> nat \<Rightarrow> step_row \<Rightarrow> (unit, 'e) io" where
  "settle_child ops inp p items itemKeys retries backoff st =
     try_catch
       (try_catch (run_started ops inp p st (child_selected p items itemKeys st))
         (\<lambda>e. bnd (look (shouldRetryAgentStartup p (st_id st) e retries)) (\<lambda>again.
            if again then retry_child retries 1 backoff ops inp p items itemKeys st e else throw e)))
       (fail_child (st_id st))"

section \<open>The loop\<close>

definition shouldLaunchParallelChild :: "'e ops \<Rightarrow> step_row \<Rightarrow> 'e world \<Rightarrow> bool" where
  "shouldLaunchParallelChild ops st w =
     (if st_status st = Queued then True
      else if st_status st \<noteq> Running then False
      else if st_kind st \<noteq> KAgent then True
      else (case nonempty (st_wingmanSessionId st) of
              None \<Rightarrow> True | Some sid \<Rightarrow> op_getSession ops (w_env w) sid = None))"

definition uses_launch_slot :: "parallel_input \<Rightarrow> step_row \<Rightarrow> bool" where
  "uses_launch_slot p st = (kind_of (pl_child p) = KAgent \<and> nonempty (st_wingmanSessionId st) = None)"

definition countPendingAgentLaunches :: "parallel_input \<Rightarrow> step_row list \<Rightarrow> step_row list \<Rightarrow> nat" where
  "countPendingAgentLaunches p sts active =
     (if kind_of (pl_child p) \<noteq> KAgent then 0
      else length (filter (\<lambda>st. st_id st \<in> st_id ` set active \<and> st_kind st = KAgent \<and>
        st_status st = Running \<and> nonempty (st_wingmanSessionId st) = None) sts))"

record limits =
  lm_maxConcurrency :: nat
  lm_agentLaunch :: nat
  lm_retries :: nat
  lm_backoffMs :: nat

text \<open>
  One pass over the children: \<open>active\<close> are the launched ones, \<open>pending\<close> the agents among them that
  have no session yet.
\<close>

fun launch_children ::
  "'e ops \<Rightarrow> parallel_input \<Rightarrow> limits \<Rightarrow> step_row list \<Rightarrow> nat \<Rightarrow> step_row list \<Rightarrow> (step_row list, 'e) io" where
  "launch_children ops p lm active pending [] = ret active"
| "launch_children ops p lm active pending (st # sts) =
     (if length active \<ge> lm_maxConcurrency lm then ret active
      else bnd (reads (shouldLaunchParallelChild ops st)) (\<lambda>launchable.
        if st_id st \<in> st_id ` set active \<or> \<not> launchable then launch_children ops p lm active pending sts
        else if uses_launch_slot p st \<and> pending \<ge> lm_agentLaunch lm
        then launch_children ops p lm active pending sts
        else bnd (start_child st) (\<lambda>running.
          launch_children ops p lm (active @ [running])
            (if uses_launch_slot p st then Suc pending else pending) sts)))"

fun skip_queued :: "step_row list \<Rightarrow> (unit, 'e) io" where
  "skip_queued [] = ret ()"
| "skip_queued (st # sts) =
     bnd (if st_status st = Queued
          then complete_failed (st_id st) Skipped ''Skipped after parallel fail_fast failure''
          else ret ()) (\<lambda>_. skip_queued sts)"

definition failed_children :: "step_row list \<Rightarrow> step_row list" where
  "failed_children sts = filter (\<lambda>st. st_status st = Errored \<or> st_status st = NeedsInput) sts"

text \<open>\<open>fail_fast\<close>: the first failure skips the queued children and ends the step.\<close>

definition fail_fast :: "parallel_input \<Rightarrow> step_row list \<Rightarrow> (unit, 'e) io" where
  "fail_fast p sts =
     (case failed_children sts of
        st # _ \<Rightarrow>
          if pa_failurePolicy (pl_spec p) = Some FailFast
          then bnd (skip_queued sts) (\<lambda>_. throw (Err (case st_error st of Some m \<Rightarrow> m
                 | None \<Rightarrow> ''Parallel step '' @ pl_parentStepName p @ '' failed'')))
          else ret ()
      | [] \<Rightarrow> ret ())"

definition all_done :: "nat \<Rightarrow> step_row list \<Rightarrow> bool" where
  "all_done m sts = (length sts = m \<and> list_all (\<lambda>st. isTerminalStatus (st_status st)) sts)"

definition wait_child ::
  "'e ops \<Rightarrow> run_input \<Rightarrow> parallel_input \<Rightarrow> limits \<Rightarrow> jval list \<Rightarrow> string list \<Rightarrow> step_row list \<Rightarrow> (step_row list, 'e) io" where
  "wait_child ops inp p lm items itemKeys active =
     bnd (reads (\<lambda>w. op_schedule ops w (map st_id active))) (\<lambda>choice.
     case (case choice of None \<Rightarrow> None | Some i \<Rightarrow> row st_id i active) of
       None \<Rightarrow> bnd (op_sleep ops (resolveParallelPollMs (op_env ops))) (\<lambda>_. ret active)
     | Some st \<Rightarrow> bnd (settle_child ops inp p items itemKeys (lm_retries lm) (lm_backoffMs lm) st) (\<lambda>_.
         ret (filter (\<lambda>x. st_id x \<noteq> st_id st) active)))"

fun parallel_loop ::
  "nat \<Rightarrow> 'e ops \<Rightarrow> run_input \<Rightarrow> parallel_input \<Rightarrow> limits \<Rightarrow> jval list \<Rightarrow> string list \<Rightarrow> step_row list \<Rightarrow> (obj, 'e) io" where
  "parallel_loop 0 ops inp p lm items itemKeys active = throw Diverge"
| "parallel_loop (Suc n) ops inp p lm items itemKeys active =
     bnd (look (\<lambda>s. listChildSteps s (pl_parentStepId p))) (\<lambda>sts.
     bnd (fail_fast p sts) (\<lambda>_.
     if all_done (length items) sts
     then look (\<lambda>s. buildParallelAggregate (listChildSteps s (pl_parentStepId p)))
     else bnd (launch_children ops p lm active (countPendingAgentLaunches p sts active) sts) (\<lambda>active'.
          bnd (wait_child ops inp p lm items itemKeys active')
            (parallel_loop n ops inp p lm items itemKeys))))"

definition parallel_limits :: "process_env \<Rightarrow> obj \<Rightarrow> parallel_spec \<Rightarrow> limits" where
  "parallel_limits env current ps =
     (let maxConcurrency = resolveParallelConcurrency env current (pa_maxConcurrency ps) in
      \<lparr>lm_maxConcurrency = maxConcurrency,
       lm_agentLaunch = resolveAgentLaunchConcurrency env current (pa_agentLaunchConcurrency ps) maxConcurrency,
       lm_retries = resolveAgentStartupRetries env current (pa_agentStartupRetries ps),
       lm_backoffMs = resolveAgentStartupRetryBackoffMs env current (pa_agentStartupRetryBackoffMs ps)\<rparr>)"

definition runParallelStep :: "nat \<Rightarrow> 'e ops \<Rightarrow> run_input \<Rightarrow> parallel_input \<Rightarrow> (obj, 'e) io" where
  "runParallelStep fuel ops inp p = (case resolvePath (pl_current p) (pa_source (pl_spec p)) of
     JArr items \<Rightarrow>
      (let itemKeys = resolveParallelItemKeys (pl_current p) items (pa_itemKey (pl_spec p)) in
       bnd (ensureParallelChildren p items itemKeys) (\<lambda>_.
         parallel_loop fuel ops inp p (parallel_limits (op_env ops) (pl_current p) (pl_spec p)) items itemKeys []))
   | _ \<Rightarrow> throw (Err (''Parallel step '' @ pl_parentStepName p @ '' source must resolve to an array'')))"

end
