(* ===== verification/Pipeline_Runner.thy ===== *)
theory Pipeline_Runner
  imports Parallel_Runner
begin

text \<open>
  The runner of \<open>src/pipelines/pipeline-runner.ts\<close> and the child pipelines of
  \<open>child-pipeline.ts\<close>: one definition per step type, \<open>executePipelineStep\<close> over them, and the
  loop of \<open>executeDeclarativePipeline\<close> that carries a run from its stored cursor to its end. The
  first argument of a definition that needs one is the nesting of steps it may still enter, the
  second the polls of a parallel step.
\<close>

section \<open>The context of a step\<close>

record step_ctx =
  x_runId :: uuid
  x_targets :: "string \<Rightarrow> nat option"
  x_namePrefix :: "string option"
  x_parentStepId :: "uuid option"
  x_logicalPrefix :: string
  x_trackActive :: bool

text \<open>The outcome of a step: the new state, and the jump of a loop.\<close>

type_synonym outcome = "obj \<times> nat option"

definition step_name :: "step_ctx \<Rightarrow> dstep \<Rightarrow> string" where
  "step_name cx step = (case nonempty (x_namePrefix cx) of
     None \<Rightarrow> sb_name (base step) | Some p \<Rightarrow> p @ '' / '' @ sb_name (base step))"

definition logical_key :: "step_ctx \<Rightarrow> dstep \<Rightarrow> string" where
  "logical_key cx step = x_logicalPrefix cx @ step_key (base step)"

fun target_index :: "nat \<Rightarrow> dstep list \<Rightarrow> (string \<Rightarrow> nat option) \<Rightarrow> string \<Rightarrow> nat option" where
  "target_index i [] m = m"
| "target_index i (st # sts) m =
     target_index (Suc i) sts
       ((case nonempty (sb_id (base st)) of None \<Rightarrow> m | Some k \<Rightarrow> m(k \<mapsto> i))(sb_name (base st) \<mapsto> i))"

definition buildStepTargetIndex :: "dstep list \<Rightarrow> string \<Rightarrow> nat option" where
  "buildStepTargetIndex steps = target_index 0 steps Map.empty"

definition nextStoredStepIndex :: "pstore \<Rightarrow> uuid \<Rightarrow> nat" where
  "nextStoredStepIndex s runId = fold (\<lambda>st m. max m (st_stepIndex st + 1)) (listSteps s runId) 0"

definition getActiveStep :: "pstore \<Rightarrow> uuid \<Rightarrow> string \<Rightarrow> step_kind \<Rightarrow> step_row option" where
  "getActiveStep s runId stepName kind =
     (case (case getRun s runId of None \<Rightarrow> None | Some run \<Rightarrow> r_activeStepId run) of
        None \<Rightarrow> None
      | Some i \<Rightarrow> (case getStep s i of
          None \<Rightarrow> None
        | Some st \<Rightarrow> if st_runId st \<noteq> runId \<or> st_name st \<noteq> stepName \<or> st_kind st \<noteq> kind then None else Some st))"

definition active_step :: "step_ctx \<Rightarrow> dstep \<Rightarrow> (step_row option, 'e) io" where
  "active_step cx step = look (\<lambda>s. getActiveStep s (x_runId cx) (step_name cx step) (kind_of step))"

definition setActiveStep :: "step_ctx \<Rightarrow> uuid \<Rightarrow> (unit, 'e) io" where
  "setActiveStep cx stepId =
     (if x_trackActive cx then alter (setRunActiveStep (x_runId cx) (Some stepId)) else ret ())"

text \<open>\<open>activeStep ?? store.createStep(...)\<close>, then \<open>setActiveStep\<close>.\<close>

definition create_record :: "step_ctx \<Rightarrow> dstep \<Rightarrow> obj \<Rightarrow> status option \<Rightarrow> string option \<Rightarrow> (uuid, 'e) io" where
  "create_record cx step input st token =
     bnd (nextStepIndex (x_runId cx)) (\<lambda>n.
     alter_ret (createStep \<lparr>cs_runId = x_runId cx, cs_stepIndex = n, cs_name = step_name cx step,
       cs_kind = kind_of step, cs_input = input, cs_status = st, cs_parentStepId = x_parentStepId cx,
       cs_logicalKey = Some (logical_key cx step), cs_callbackToken = token,
       cs_metadata = Some (buildPipelineStepMetadata step None None)\<rparr>))"

definition obtain_record :: "step_ctx \<Rightarrow> dstep \<Rightarrow> obj \<Rightarrow> step_row option \<Rightarrow> (uuid, 'e) io" where
  "obtain_record cx step input active =
     bnd (case active of Some st \<Rightarrow> ret (st_id st) | None \<Rightarrow> create_record cx step input None None) (\<lambda>i.
     bnd (setActiveStep cx i) (\<lambda>_. ret i))"

definition assign_io :: "obj \<Rightarrow> obj \<Rightarrow> string option \<Rightarrow> (obj, 'e) io" where
  "assign_io current result assign = lift_sum (map_sum Err id (assignOutput current result assign))"

text \<open>\<open>const current = assignOutput(...); store.completeStep(...); return { current }\<close>\<close>

definition finish_step :: "obj \<Rightarrow> dstep \<Rightarrow> uuid \<Rightarrow> obj \<Rightarrow> string option \<Rightarrow> (outcome, 'e) io" where
  "finish_step current step stepId result sid =
     bnd (assign_io current result (sb_assign (base step))) (\<lambda>next.
     bnd (complete_ok stepId next result sid) (\<lambda>_. ret (next, None)))"

definition check_cancelled :: "uuid \<Rightarrow> (unit, 'e) io" where
  "check_cancelled runId = require (throwIfRunCancelled runId)"

definition check_ancestors :: "uuid \<Rightarrow> (unit, 'e) io" where
  "check_ancestors runId = require (assertPipelineAncestorsRunning runId)"

definition recorded :: "step_row \<Rightarrow> obj" where
  "recorded st = or_empty (or_else (st_output st) (st_result st))"

section \<open>Code steps\<close>

definition skip_step :: "step_ctx \<Rightarrow> dstep \<Rightarrow> obj \<Rightarrow> (outcome, 'e) io" where
  "skip_step cx step current =
     bnd (create_record cx step current (Some Skipped) None) (\<lambda>i.
     bnd (alter_opt (completeStep \<lparr>cp_id = i, cp_status = Skipped, cp_result = Some current,
            cp_output = None, cp_error = None, cp_session = None\<rparr>)) (\<lambda>_. ret (current, None)))"

definition code_request :: "step_ctx \<Rightarrow> dstep \<Rightarrow> string \<Rightarrow> obj \<Rightarrow> obj" where
  "code_request cx step f selected =
     (if f = ''flightdeck.returnToThread''
      then spread selected [(''pipelineRunId'', JStr (uuid_text (x_runId cx))),
        (''idempotencyKey'', JStr (''pipeline:'' @ uuid_text (x_runId cx) @ '':thread-reply:'' @ step_name cx step))]
      else selected)"

definition code_function :: "'e ops \<Rightarrow> string \<Rightarrow> bool" where
  "code_function ops f = (op_secretFunction ops f \<noteq> None \<or> op_registry ops f \<noteq> None)"

definition call_function ::
  "'e ops \<Rightarrow> run_input \<Rightarrow> step_ctx \<Rightarrow> code_spec \<Rightarrow> uuid \<Rightarrow> obj \<Rightarrow> (jval, 'e) io" where
  "call_function ops inp cx c stepId request =
     (let f = co_function c in
      if f = ''session.deleteConversation'' then op_deleteConversation ops (in_ownerNpub inp) request
      else if f = ''session.completedTurn''
      then op_completedTurn ops (x_runId cx) stepId (in_ownerNpub inp) request (co_activityWebhook c)
      else (case op_secretFunction ops f of
          Some fn \<Rightarrow> fn (x_runId cx) request
        | None \<Rightarrow> (case op_registry ops f of
            Some fn \<Rightarrow> fn request | None \<Rightarrow> throw (Err (''Unknown pipeline function: '' @ f)))))"

definition delivers :: "string \<Rightarrow> bool" where
  "delivers f = (f = ''flightdeck.returnToThread'' \<or> f = ''flightdeck.sendDirectMessage'')"

definition turn_blocked :: "obj \<Rightarrow> string" where
  "turn_blocked result = (case get result ''error'' of JStr m \<Rightarrow> m
     | _ \<Rightarrow> ''Completed native turn is pending or blocked; inspect receipt before recovery'')"

definition finish_code :: "step_ctx \<Rightarrow> dstep \<Rightarrow> code_spec \<Rightarrow> obj \<Rightarrow> uuid \<Rightarrow> obj \<Rightarrow> (outcome, 'e) io" where
  "finish_code cx step c current stepId result =
     (if co_function c = ''session.completedTurn'' \<and> \<not> strict_eq (get result ''status'') (JStr ''completed'')
      then bnd (assign_io current result (sb_assign (base step))) (\<lambda>next.
           bnd (alter_opt (completeStep \<lparr>cp_id = stepId, cp_status = Errored, cp_result = Some next,
                  cp_output = Some result, cp_error = Some (turn_blocked result), cp_session = None\<rparr>)) (\<lambda>_.
             throw (Halt HaltError next (turn_blocked result))))
      else finish_step current step stepId result None)"

definition run_code ::
  "'e ops \<Rightarrow> run_input \<Rightarrow> step_ctx \<Rightarrow> dstep \<Rightarrow> code_spec \<Rightarrow> obj \<Rightarrow> obj \<Rightarrow> uuid \<Rightarrow> (outcome, 'e) io" where
  "run_code ops inp cx step c current selected stepId =
     (let f = co_function c; runId = x_runId cx; request = code_request cx step f selected in
      bnd (if \<not> code_function ops f \<and> f \<noteq> ''session.completedTurn''
           then throw (Err (''Unknown pipeline function: '' @ f)) else ret ()) (\<lambda>_.
      bnd (if f = ''flightdeck.returnToThread'' then require (assertPipelineReplyContext runId selected)
           else ret ()) (\<lambda>_.
      bnd (alter (capture runId stepId None ExecutorRequest ''code_function_arguments''
             (JObj [(''function'', JStr f), (''arguments'', JObj request)]) [])) (\<lambda>_.
      bnd (call_function ops inp cx c stepId request) (\<lambda>v.
      bnd (if delivers f then alter (capture runId stepId None SideEffectConfirmation
             ''delivery_adapter_confirmation'' v []) else ret ()) (\<lambda>_.
      bnd (check_ancestors runId) (\<lambda>_.
      bnd (check_cancelled runId) (\<lambda>_.
      bnd (lift_sum (map_sum Err id (assertObject v (''step '' @ step_name cx step @ '' result'')))) (\<lambda>result.
        finish_code cx step c current stepId result)))))))))"

definition exec_code ::
  "'e ops \<Rightarrow> run_input \<Rightarrow> step_ctx \<Rightarrow> dstep \<Rightarrow> code_spec \<Rightarrow> obj \<Rightarrow> (outcome, 'e) io" where
  "exec_code ops inp cx step c current =
     (let selected = selectInput current (sb_input (base step)) in
      bnd (active_step cx step) (\<lambda>active.
      case (case active of None \<Rightarrow> None | Some st \<Rightarrow> if st_status st = Ok then Some st else None) of
        Some st \<Rightarrow>
          (if st_output st = None then ret (recorded st, None)
           else bnd (assign_io current (recorded st) (sb_assign (base step))) (\<lambda>next. ret (next, None)))
      | None \<Rightarrow> bnd (obtain_record cx step selected active)
          (run_code ops inp cx step c current selected)))"

section \<open>Blocks and loops\<close>

text \<open>The children of a block or of a loop's body, one after the other.\<close>

fun run_children ::
  "(step_ctx \<Rightarrow> dstep \<Rightarrow> obj \<Rightarrow> (outcome, 'e) io) \<Rightarrow> step_ctx \<Rightarrow> dstep list \<Rightarrow> obj \<Rightarrow> (obj, 'e) io" where
  "run_children run cx [] current = ret current"
| "run_children run cx (st # sts) current =
     bnd (run cx st current) (\<lambda>out.
     bnd (check_cancelled (x_runId cx)) (\<lambda>_. run_children run cx sts (fst out)))"

definition child_ctx :: "step_ctx \<Rightarrow> dstep \<Rightarrow> uuid \<Rightarrow> step_ctx" where
  "child_ctx cx step stepId = cx\<lparr>x_parentStepId := Some stepId,
     x_logicalPrefix := x_logicalPrefix cx @ step_key (base step) @ ''/'', x_trackActive := False\<rparr>"

definition find_expansion :: "pstore \<Rightarrow> uuid \<Rightarrow> string \<Rightarrow> block_expansion option" where
  "find_expansion s runId key = (case snapshot s runId of
     None \<Rightarrow> None | Some sn \<Rightarrow> map_of (cx_blockExpansions (sn_context sn)) key)"

definition run_block ::
  "(step_ctx \<Rightarrow> dstep \<Rightarrow> obj \<Rightarrow> (outcome, 'e) io) \<Rightarrow> step_ctx \<Rightarrow> dstep \<Rightarrow> obj \<Rightarrow> obj \<Rightarrow> block_expansion \<Rightarrow> uuid \<Rightarrow> (outcome, 'e) io" where
  "run_block run cx step current blockInput ex stepId =
     bnd (assign_io current blockInput (Some (bx_inputPath ex))) (\<lambda>start.
     bnd (run_children run (child_ctx cx step stepId) (bx_steps ex) start) (\<lambda>final.
     bnd (complete_ok stepId final final None) (\<lambda>_. ret (final, None))))"

definition exec_block ::
  "(step_ctx \<Rightarrow> dstep \<Rightarrow> obj \<Rightarrow> (outcome, 'e) io) \<Rightarrow> step_ctx \<Rightarrow> dstep \<Rightarrow> block_spec \<Rightarrow> obj \<Rightarrow> (outcome, 'e) io" where
  "exec_block run cx step bs current =
     (let blockInput = spread (or_empty (bl_config bs)) (selectInput current (sb_input (base step)));
          key = logical_key cx step in
      bnd (active_step cx step) (\<lambda>active.
      case (case active of None \<Rightarrow> None | Some st \<Rightarrow> if st_status st = Ok then Some st else None) of
        Some st \<Rightarrow> (case st_result st of
            None \<Rightarrow> throw (Err (''Completed historical block state is unavailable: '' @ step_name cx step))
          | Some r \<Rightarrow> ret (r, None))
      | None \<Rightarrow> bnd (look (\<lambda>s. find_expansion s (x_runId cx) key)) (\<lambda>found. case found of
            None \<Rightarrow> throw (Err (''Historical block expansion was not captured: '' @ key @
              ''. Operator review is required before new execution.''))
          | Some ex \<Rightarrow> bnd (obtain_record cx step blockInput active)
              (run_block run cx step current blockInput ex))))"

definition counter_path :: "dstep \<Rightarrow> loop_spec \<Rightarrow> string" where
  "counter_path step lo = (case lo_counter lo of Some p \<Rightarrow> p
     | None \<Rightarrow> ''$.loop.'' @ squash (sb_name (base step)))"

definition loop_iterations :: "loop_spec \<Rightarrow> obj \<Rightarrow> nat" where
  "loop_iterations lo current = resolveIterationCount current
     (case lo_iterations lo of None \<Rightarrow> NumLit (Fin 1) | Some n \<Rightarrow> n)"

text \<open>Where a loop jumps back to.\<close>

definition loop_target :: "step_ctx \<Rightarrow> dstep \<Rightarrow> loop_spec \<Rightarrow> exn + nat" where
  "loop_target cx step lo = (case nonempty (lo_target lo) of
     None \<Rightarrow> Inl (Err (''Loop step '' @ step_name cx step @ '' requires target''))
   | Some t \<Rightarrow> (case x_targets cx t of
       None \<Rightarrow> Inl (Err (''Loop step '' @ step_name cx step @ '' target not found: '' @ t))
     | Some j \<Rightarrow> Inr j))"

definition iteration_counter :: "nat \<Rightarrow> nat \<Rightarrow> obj" where
  "iteration_counter iteration rounds =
     [(''iteration'', jnat iteration), (''index'', jnat (iteration - 1)), (''total'', jnat rounds)]"

text \<open>The nested loop: the first argument is how many iterations are left.\<close>

fun nested_loop ::
  "nat \<Rightarrow> (step_ctx \<Rightarrow> dstep \<Rightarrow> obj \<Rightarrow> (outcome, 'e) io) \<Rightarrow> step_ctx \<Rightarrow> string \<Rightarrow> string \<Rightarrow> nat \<Rightarrow> nat \<Rightarrow> dstep list \<Rightarrow> obj \<Rightarrow> (obj, 'e) io" where
  "nested_loop 0 run cx name path iteration rounds steps current = ret current"
| "nested_loop (Suc n) run cx name path iteration rounds steps current =
     bnd (assign_io current (iteration_counter iteration rounds) (Some path)) (\<lambda>counted.
     bnd (run_children run (cx\<lparr>x_namePrefix := Some (name @ '' #'' @ nat_string iteration)\<rparr>) steps counted)
       (nested_loop n run cx name path (Suc iteration) rounds steps))"

definition run_nested_loop ::
  "(step_ctx \<Rightarrow> dstep \<Rightarrow> obj \<Rightarrow> (outcome, 'e) io) \<Rightarrow> step_ctx \<Rightarrow> dstep \<Rightarrow> loop_spec \<Rightarrow> dstep list \<Rightarrow> obj \<Rightarrow> uuid \<Rightarrow> (outcome, 'e) io" where
  "run_nested_loop run cx step lo steps current stepId =
     (let rounds = loop_iterations lo current in
      bnd (nested_loop rounds run (child_ctx cx step stepId) (step_name cx step) (counter_path step lo)
             1 rounds steps current) (\<lambda>final.
      let result = [(''iterations'', jnat rounds), (''current'', JObj final)] in
      bnd (if nonempty (sb_assign (base step)) = None then ret final
           else assign_io final result (sb_assign (base step))) (\<lambda>next.
      bnd (complete_ok stepId next result None) (\<lambda>_. ret (next, None)))))"

text \<open>The flat loop: it counts in the state, keeps a history, and jumps back until it is done.\<close>

definition jump_counter :: "nat \<Rightarrow> nat \<Rightarrow> obj" where
  "jump_counter completed rounds =
     [(''iteration'', jnat (min (completed + 1) rounds)), (''index'', jnat (min completed (rounds - 1))),
      (''completed'', jnat completed), (''total'', jnat rounds), (''done'', JBool (completed \<ge> rounds))]"

definition with_history :: "loop_spec \<Rightarrow> obj \<Rightarrow> jval list \<Rightarrow> obj \<Rightarrow> (obj, 'e) io" where
  "with_history lo captured items current = (case nonempty (lo_history lo) of
     None \<Rightarrow> ret current
   | Some path \<Rightarrow> assign_io current
       [(''items'', JArr (items @ [JObj (spread [(''iteration'', jnat (length items + 1))] captured)]))]
       (Some path))"

definition run_flat_loop :: "step_ctx \<Rightarrow> dstep \<Rightarrow> loop_spec \<Rightarrow> obj \<Rightarrow> uuid \<Rightarrow> (outcome, 'e) io" where
  "run_flat_loop cx step lo current stepId =
     (let rounds = loop_iterations lo current;
          items = (case nonempty (lo_history lo) of None \<Rightarrow> [] | Some p \<Rightarrow> getHistoryItems current p);
          completed = length items + 1;
          captured = captureLoopValues current (lo_capture lo) in
      bnd (with_history lo captured items current) (\<lambda>next1.
      bnd (assign_io next1 (jump_counter completed rounds) (Some (counter_path step lo))) (\<lambda>next.
      bnd (if completed < rounds then bnd (lift_sum (loop_target cx step lo)) (\<lambda>j. ret (Some j))
           else ret None) (\<lambda>jumpTo.
      bnd (complete_ok stepId next captured None) (\<lambda>_. ret (next, jumpTo))))))"

text \<open>A loop whose record is already complete: its state stands, and an unfinished count jumps again.\<close>

definition resume_loop :: "step_ctx \<Rightarrow> dstep \<Rightarrow> loop_spec \<Rightarrow> dstep list option \<Rightarrow> obj \<Rightarrow> step_row \<Rightarrow> (outcome, 'e) io" where
  "resume_loop cx step lo steps current st =
     (let next = (case st_result st of None \<Rightarrow> current | Some r \<Rightarrow> r) in
      case steps of
        Some _ \<Rightarrow> ret (next, None)
      | None \<Rightarrow> (case plain_object (resolvePath next (counter_path step lo)) of
          Some counter \<Rightarrow>
            if get counter ''done'' \<noteq> JBool True
            then bnd (lift_sum (loop_target cx step lo)) (\<lambda>j. ret (next, Some j))
            else ret (next, None)
        | None \<Rightarrow> ret (next, None)))"

definition exec_loop ::
  "(step_ctx \<Rightarrow> dstep \<Rightarrow> obj \<Rightarrow> (outcome, 'e) io) \<Rightarrow> step_ctx \<Rightarrow> dstep \<Rightarrow> loop_spec \<Rightarrow> dstep list option \<Rightarrow> obj \<Rightarrow> (outcome, 'e) io" where
  "exec_loop run cx step lo steps current =
     bnd (active_step cx step) (\<lambda>active.
     case (case active of None \<Rightarrow> None | Some st \<Rightarrow> if st_status st = Ok then Some st else None) of
       Some st \<Rightarrow> resume_loop cx step lo steps current st
     | None \<Rightarrow> bnd (obtain_record cx step (selectInput current (sb_input (base step))) active) (\<lambda>stepId.
         case steps of
           Some ss \<Rightarrow> run_nested_loop run cx step lo ss current stepId
         | None \<Rightarrow> run_flat_loop cx step lo current stepId))"

section \<open>Parallel, classifier and agent steps\<close>

definition exec_parallel ::
  "nat \<Rightarrow> 'e ops \<Rightarrow> run_input \<Rightarrow> step_ctx \<Rightarrow> dstep \<Rightarrow> parallel_spec \<Rightarrow> dstep \<Rightarrow> obj \<Rightarrow> (outcome, 'e) io" where
  "exec_parallel polls ops inp cx step ps template current =
     bnd (active_step cx step) (\<lambda>active.
     case (case active of None \<Rightarrow> None | Some st \<Rightarrow> if st_status st = Ok then Some st else None) of
       Some st \<Rightarrow> ret (case st_result st of None \<Rightarrow> current | Some r \<Rightarrow> r, None)
     | None \<Rightarrow> bnd (obtain_record cx step (selectInput current (sb_input (base step))) active) (\<lambda>stepId.
         bnd (runParallelStep polls ops inp \<lparr>pl_runId = x_runId cx, pl_current = current,
                pl_base = base step, pl_spec = ps, pl_child = template, pl_parentStepId = stepId,
                pl_parentStepName = step_name cx step\<rparr>) (\<lambda>aggregate.
         bnd (check_cancelled (x_runId cx)) (\<lambda>_. finish_step current step stepId aggregate None))))"

definition classifier_failed ::
  "dstep \<Rightarrow> classifier_spec \<Rightarrow> obj \<Rightarrow> uuid \<Rightarrow> exn \<Rightarrow> (outcome, 'e) io" where
  "classifier_failed step cl current stepId e =
     (if cl_failurePolicy cl = Some RecordError
      then finish_step current step stepId (buildShadowDecisionsError e
             (case cl_model cl of None \<Rightarrow> DEFAULT_CLASSIFIER_MODEL | Some m \<Rightarrow> m)) None
      else bnd (fail_if_running stepId (exn_message e) None) (\<lambda>_. throw e))"

definition run_classifier ::
  "'e ops \<Rightarrow> step_ctx \<Rightarrow> dstep \<Rightarrow> classifier_spec \<Rightarrow> obj \<Rightarrow> obj \<Rightarrow> uuid \<Rightarrow> (outcome, 'e) io" where
  "run_classifier ops cx step cl current selected stepId =
     bnd (try_catch
       (bnd (classify ops (x_runId cx) stepId current selected cl) (\<lambda>result.
        bnd (check_cancelled (x_runId cx)) (\<lambda>_. ret (Inl result))))
       (\<lambda>e. bnd (classifier_failed step cl current stepId e) (\<lambda>out. ret (Inr out)))) (\<lambda>r. case r of
         Inl result \<Rightarrow> finish_step current step stepId result None
       | Inr out \<Rightarrow> ret out)"

definition exec_classifier ::
  "'e ops \<Rightarrow> step_ctx \<Rightarrow> dstep \<Rightarrow> classifier_spec \<Rightarrow> obj \<Rightarrow> (outcome, 'e) io" where
  "exec_classifier ops cx step cl current =
     (let resolvedInput = selectInput current (sb_input (base step)) in
      bnd (prepareClassifierInput ops resolvedInput (cl_inputFunction cl)) (\<lambda>selected.
      bnd (active_step cx step) (\<lambda>active.
      case active of
        None \<Rightarrow> bnd (obtain_record cx step resolvedInput None) (run_classifier ops cx step cl current selected)
      | Some st \<Rightarrow>
         (if st_status st = Ok
          then bnd (assign_io current (recorded st) (sb_assign (base step))) (\<lambda>next. ret (next, None))
          else if st_status st = Errored
          then throw (Err (case st_error st of None \<Rightarrow> ''Classifier step failed'' | Some m \<Rightarrow> m))
          else bnd (obtain_record cx step resolvedInput active) (run_classifier ops cx step cl current selected)))))"

definition agent_failed :: "uuid \<Rightarrow> exn \<Rightarrow> (obj, 'e) io" where
  "agent_failed stepId e = (case e of
     Stopped _ \<Rightarrow> throw e
   | _ \<Rightarrow> bnd (look (session_of stepId)) (\<lambda>sid.
          bnd (fail_if_running stepId (exn_message e) sid) (\<lambda>_. throw e)))"

text \<open>An agent step whose record is already complete.\<close>

definition resume_agent :: "'e ops \<Rightarrow> step_ctx \<Rightarrow> dstep \<Rightarrow> obj \<Rightarrow> step_row \<Rightarrow> (outcome, 'e) io" where
  "resume_agent ops cx step current st =
     bnd (finalizeRecoveredPipelineAgentSession ops (x_runId cx) st) (\<lambda>_.
     bnd (case nonempty (st_wingmanSessionId st) of
            None \<Rightarrow> ret (recorded st)
          | Some sid \<Rightarrow> retainAgentFinalResponse ops (x_runId cx) (st_id st) sid (recorded st)) (\<lambda>raw.
       finish_step current step (st_id st) raw (st_wingmanSessionId st)))"

definition run_agent ::
  "'e ops \<Rightarrow> run_input \<Rightarrow> step_ctx \<Rightarrow> dstep \<Rightarrow> agent_spec \<Rightarrow> obj \<Rightarrow> obj \<Rightarrow> step_row option \<Rightarrow> (outcome, 'e) io" where
  "run_agent ops inp cx step ag current selected active =
     bnd (case (case active of None \<Rightarrow> None | Some st \<Rightarrow> st_callbackToken st) of
            Some t \<Rightarrow> ret t | None \<Rightarrow> fresh_token) (\<lambda>token.
     bnd (case active of Some st \<Rightarrow> ret (st_id st)
          | None \<Rightarrow> create_record cx step selected None (Some token)) (\<lambda>stepId.
     bnd (look (\<lambda>s. case getStep s stepId of None \<Rightarrow> None | Some st \<Rightarrow> nonempty (st_callbackToken st))) (\<lambda>stored_token.
     bnd (if stored_token = None then alter (setStepCallbackToken stepId token) else ret ()) (\<lambda>_.
     bnd (setActiveStep cx stepId) (\<lambda>_.
     bnd (try_catch
            (bnd (call_agent ops inp (x_runId cx) current ag stepId (step_name cx step) selected token) (\<lambda>result.
             bnd (check_cancelled (x_runId cx)) (\<lambda>_. ret result)))
            (agent_failed stepId)) (\<lambda>result.
     bnd (look (session_of stepId)) (\<lambda>sid. finish_step current step stepId result sid)))))))"

definition exec_agent ::
  "'e ops \<Rightarrow> run_input \<Rightarrow> step_ctx \<Rightarrow> dstep \<Rightarrow> agent_spec \<Rightarrow> obj \<Rightarrow> (outcome, 'e) io" where
  "exec_agent ops inp cx step ag current =
     (let selected = selectInput current (sb_input (base step)) in
      bnd (active_step cx step) (\<lambda>active. case active of
        None \<Rightarrow> run_agent ops inp cx step ag current selected None
      | Some st \<Rightarrow>
         (if st_status st = Ok then resume_agent ops cx step current st
          else if st_status st = Errored then throw (Err (or_failed (st_error st)))
          else if st_status st = NeedsInput
          then throw (Halt HaltNeedsInput (recorded st) ''Agent step needs input'')
          else run_agent ops inp cx step ag current selected active)))"

end
