(* ===== verification/Run_Execution.thy ===== *)
theory Run_Execution
  imports Pipeline_Runner
begin

text \<open>
  Runs as a whole: their creation in one transaction, child pipelines (\<open>child-pipeline.ts\<close>), the
  dispatch over the step types and the loop of \<open>executeDeclarativePipeline\<close>, with starting,
  resuming and reopening (\<open>pipeline-runner.ts\<close>). The execution of a started child is not part of
  its parent's: it goes on while the parent sleeps, as an operation of the environment.
\<close>

section \<open>Creating a run\<close>

text \<open>The transaction: the run, its pins and the hook either all happen or none.\<close>

definition create_transaction ::
  "'e ops \<Rightarrow> run_input \<Rightarrow> (uuid \<Rightarrow> pstore \<Rightarrow> pstore option) \<Rightarrow> pstore \<Rightarrow> string + (uuid \<times> pstore)" where
  "create_transaction ops inp onRunCreated s =
     (let d = in_definition inp;
          (i, s1) = createRun \<lparr>cr_definitionId = pd_id d, cr_definitionPath = Some (pd_path d),
             cr_name = dp_name (pd_spec d), cr_ownerNpub = in_ownerNpub inp,
             cr_ownerAlias = in_ownerAlias inp, cr_scope = pd_scope d, cr_input = in_input inp\<rparr> s
      in case pipelineFunctionHashes (op_hash ops) (pd_spec d) of
           Inl e \<Rightarrow> Inl e
         | Inr hs \<Rightarrow> (case snapshotPipelineBlocks (dp_steps (pd_spec d)) of
             Inl e \<Rightarrow> Inl e
           | Inr bs \<Rightarrow> (case onRunCreated i (pin i d
                 \<lparr>cx_blockExpansions = bs, cx_functionHashes = Some hs,
                  cx_initiatingAgentProfileId = in_profileId inp,
                  cx_initiatingAgentNpub = in_agentNpub inp\<rparr> s1) of
               None \<Rightarrow> Inl ''constraint failed'' | Some t \<Rightarrow> Inr (i, t))))"

definition transact :: "(pstore \<Rightarrow> string + ('a \<times> pstore)) \<Rightarrow> ('a, 'e) io" where
  "transact f = (\<lambda>w. case f (w_store w) of
     Inl e \<Rightarrow> (Inl (Err e), w) | Inr (x, s) \<Rightarrow> (Inr x, w\<lparr>w_store := s\<rparr>))"

definition registerSecrets :: "string list \<Rightarrow> pstore \<Rightarrow> pstore" where
  "registerSecrets xs s = fold registerSecret xs s"

definition createPipelineRun ::
  "'e ops \<Rightarrow> run_input \<Rightarrow> (uuid \<Rightarrow> pstore \<Rightarrow> pstore option) \<Rightarrow> (uuid, 'e) io" where
  "createPipelineRun ops inp onRunCreated =
     bnd (alter (registerSecrets (op_secrets ops))) (\<lambda>_.
     bnd (require (\<lambda>_. map_option Err (validateChildPipelineSteps (op_url ops) (pd_spec (in_definition inp))))) (\<lambda>_.
       transact (create_transaction ops inp onRunCreated)))"

section \<open>Child pipelines\<close>

definition attempt :: "('a, 'e) io \<Rightarrow> (exn + 'a, 'e) io" where
  "attempt m = try_catch (bnd m (\<lambda>x. ret (Inr x))) (\<lambda>e. ret (Inl e))"

text \<open>
  \<open>Promise.all\<close> over the sessions: every stop is made, also after one that fails, and the first
  failure is the one that is thrown.
\<close>

fun stop_all :: "'e ops \<Rightarrow> string list \<Rightarrow> (unit, 'e) io" where
  "stop_all ops [] = ret ()"
| "stop_all ops (sid # sids) =
     bnd (attempt (op_stop ops sid)) (\<lambda>r.
     bnd (attempt (stop_all ops sids)) (\<lambda>rs.
       lift_sum (case r of Inl e \<Rightarrow> Inl e | Inr _ \<Rightarrow> rs)))"

definition sessions_of_tree :: "pstore \<Rightarrow> uuid list \<Rightarrow> string list" where
  "sessions_of_tree s runs = remdups (List.map_filter nonempty
     (map st_wingmanSessionId (concat (map (listSteps s) runs))))"

definition cancelPipelineTree :: "'e ops \<Rightarrow> uuid \<Rightarrow> string \<Rightarrow> (unit, 'e) io" where
  "cancelPipelineTree ops i reason =
     bnd (look (\<lambda>s. tree s i)) (\<lambda>t. case t of
       None \<Rightarrow> throw Diverge
     | Some runs \<Rightarrow>
        bnd (look (\<lambda>s. sessions_of_tree s runs)) (\<lambda>sids.
        bnd (\<lambda>w. case cancelRun i reason (w_store w) of
               None \<Rightarrow> (Inl Diverge, w) | Some s \<Rightarrow> (Inr (), w\<lparr>w_store := s\<rparr>)) (\<lambda>_.
          stop_all ops sids)))"

definition DEFAULT_CHILD_TIMEOUT_MS :: nat where
  "DEFAULT_CHILD_TIMEOUT_MS = 600000"

definition child_timeout :: "child_spec \<Rightarrow> nat" where
  "child_timeout c = (case ch_timeoutMs c of Some (Fin q) \<Rightarrow> nat \<lfloor>q\<rfloor> | _ \<Rightarrow> DEFAULT_CHILD_TIMEOUT_MS)"

definition version_text :: "jval option \<Rightarrow> string" where
  "version_text v = js_string (or_undef v)"

text \<open>The checks on a resolved child definition.\<close>

definition child_definition_error ::
  "run_input \<Rightarrow> child_spec \<Rightarrow> uuid \<Rightarrow> definition_record \<Rightarrow> pstore \<Rightarrow> exn option" where
  "child_definition_error inp c runId d s =
     (if pd_scope d = User \<and> pd_ownerAlias d \<noteq> in_ownerAlias inp
      then Some (Err ''Child pipeline owner mismatch'')
      else if ch_version c \<noteq> None \<and> version_text (dp_version (pd_spec d)) \<noteq> version_text (ch_version c)
      then Some (Err ''Child pipeline version mismatch'')
      else (case enforceAncestry runId d s of
          Some e \<Rightarrow> Some e
        | None \<Rightarrow> if is_running s runId then None else Some (Err ''Parent is no longer running'')))"

definition link_child :: "uuid \<Rightarrow> uuid \<Rightarrow> nat \<Rightarrow> uuid \<Rightarrow> pstore \<Rightarrow> pstore option" where
  "link_child runId stepId timeoutMs childId s =
     map_option (inheritPipelineInvocation runId childId)
       (link \<lparr>lk_parentRunId = runId, lk_parentStepId = stepId, lk_childRunId = childId,
          lk_deadline = db_clock s + timeoutMs\<rparr> s)"

definition start_child_run ::
  "'e ops \<Rightarrow> run_input \<Rightarrow> uuid \<Rightarrow> child_spec \<Rightarrow> obj \<Rightarrow> uuid \<Rightarrow> (unit, 'e) io" where
  "start_child_run ops inp runId c selected stepId =
     bnd (op_childDefinition ops (ch_pipeline c) (ch_version c) (in_ownerAlias inp)) (\<lambda>d.
     bnd (require (child_definition_error inp c runId d)) (\<lambda>_.
     bnd (createPipelineRun ops (inp\<lparr>in_definition := d, in_input := selected\<rparr>)
            (link_child runId stepId (child_timeout c))) (\<lambda>_. ret ())))"

definition resume_child_run :: "uuid \<Rightarrow> child_link \<Rightarrow> pstore \<Rightarrow> exn option" where
  "resume_child_run runId l s =
     (case (getRun s (lk_childRunId l), snapshot s (lk_childRunId l), getRun s runId) of
        (Some ch, Some _, Some par) \<Rightarrow>
          if r_ownerNpub ch \<noteq> r_ownerNpub par \<or> r_ownerAlias ch \<noteq> r_ownerAlias par
          then Some (Err ''Child run authority mismatch'') else None
      | _ \<Rightarrow> Some (Err ''Missing pinned child run state''))"

text \<open>One look at the child: its result, an error with or without a cancellation, or wait.\<close>

datatype child_view = ChildDone obj | ChildTimeout | ChildFailed string | ChildWait

definition view_child :: "child_link \<Rightarrow> pstore \<Rightarrow> child_view" where
  "view_child l s = (case getRun s (lk_childRunId l) of
     None \<Rightarrow> ChildFailed ''Missing child run''
   | Some ch \<Rightarrow>
      (if r_status ch \<noteq> Running \<and> r_completedAt ch = None then ChildFailed ''Missing child completion timestamp''
       else if (case r_completedAt ch of None \<Rightarrow> False | Some t \<Rightarrow> lk_deadline l \<le> t)
         \<or> (r_status ch = Running \<and> lk_deadline l \<le> db_clock s) then ChildTimeout
       else if r_status ch = Running then ChildWait
       else if r_status ch = Ok then ChildDone (or_empty (r_result ch))
       else ChildFailed (''Child pipeline '' @ r_name ch @ '' '' @ status_text (r_status ch) @ '': '' @
         (case r_error ch of None \<Rightarrow> ''no result'' | Some e \<Rightarrow> e))))"

fun child_loop :: "nat \<Rightarrow> 'e ops \<Rightarrow> uuid \<Rightarrow> child_link \<Rightarrow> (obj, 'e) io" where
  "child_loop 0 ops runId l = throw Diverge"
| "child_loop (Suc n) ops runId l =
     bnd (look (\<lambda>s. is_running s runId)) (\<lambda>running.
     if \<not> running
     then bnd (cancelPipelineTree ops (lk_childRunId l) ''Parent pipeline stopped'') (\<lambda>_.
            throw (Err ''Parent pipeline stopped''))
     else bnd (look (view_child l)) (\<lambda>v. case v of
         ChildDone out \<Rightarrow> ret out
       | ChildFailed e \<Rightarrow> throw (Err e)
       | ChildTimeout \<Rightarrow> bnd (cancelPipelineTree ops (lk_childRunId l) ''Child pipeline timeout'') (\<lambda>_.
           throw (Err ''Child pipeline timeout''))
       | ChildWait \<Rightarrow> bnd (op_sleep ops 25) (\<lambda>_. child_loop n ops runId l)))"

text \<open>Every turn but the last sleeps at least a millisecond, so the time left is fuel enough.\<close>

definition await_child :: "'e ops \<Rightarrow> uuid \<Rightarrow> uuid \<Rightarrow> (obj, 'e) io" where
  "await_child ops runId stepId =
     bnd (look (\<lambda>s. (child s stepId, db_clock s))) (\<lambda>(l, t). case l of
       None \<Rightarrow> throw (Err ''Missing child link'')
     | Some lk \<Rightarrow> child_loop (Suc (lk_deadline lk - t)) ops runId lk)"

definition child_error_output :: "child_spec \<Rightarrow> string \<Rightarrow> run_row option \<Rightarrow> obj" where
  "child_error_output c error ch =
     [(''status'', JStr (if error = ''Child pipeline timeout'' then ''timeout''
         else (case ch of None \<Rightarrow> ''error'' | Some r \<Rightarrow> status_text (r_status r)))),
      (''error'', JStr error),
      (''childRunId'', case ch of None \<Rightarrow> JNull | Some r \<Rightarrow> JStr (uuid_text (r_id r))),
      (''result'', case (case ch of None \<Rightarrow> None | Some r \<Rightarrow> r_result r) of None \<Rightarrow> JNull | Some o' \<Rightarrow> JObj o')]"

definition linked_run :: "uuid \<Rightarrow> pstore \<Rightarrow> run_row option" where
  "linked_run stepId s = (case child s stepId of None \<Rightarrow> None | Some l \<Rightarrow> getRun s (lk_childRunId l))"

definition child_failed :: "step_ctx \<Rightarrow> dstep \<Rightarrow> child_spec \<Rightarrow> obj \<Rightarrow> uuid \<Rightarrow> exn \<Rightarrow> (outcome, 'e) io" where
  "child_failed cx step c current stepId e =
     bnd (look (\<lambda>s. is_running s (x_runId cx))) (\<lambda>running.
     if \<not> running \<or> ch_failurePolicy c \<noteq> Some RecordError then throw e
     else bnd (look (linked_run stepId)) (\<lambda>ch.
       finish_step current step stepId (child_error_output c (exn_message e) ch) None))"

definition run_child_step ::
  "'e ops \<Rightarrow> run_input \<Rightarrow> step_ctx \<Rightarrow> dstep \<Rightarrow> child_spec \<Rightarrow> obj \<Rightarrow> obj \<Rightarrow> uuid \<Rightarrow> (outcome, 'e) io" where
  "run_child_step ops inp cx step c current selected stepId =
     try_catch
       (bnd (look (\<lambda>s. child s stepId)) (\<lambda>l.
        bnd (case l of
               None \<Rightarrow> start_child_run ops inp (x_runId cx) c selected stepId
             | Some lk \<Rightarrow> require (resume_child_run (x_runId cx) lk)) (\<lambda>_.
        bnd (await_child ops (x_runId cx) stepId) (\<lambda>output.
          finish_step current step stepId output None))))
       (child_failed cx step c current stepId)"

text \<open>\<open>executeChildPipeline\<close>; the active step of the run is taken whatever its name is.\<close>

definition child_record_of :: "uuid \<Rightarrow> pstore \<Rightarrow> step_row option" where
  "child_record_of runId s = (case (case getRun s runId of None \<Rightarrow> None | Some r \<Rightarrow> r_activeStepId r) of
     None \<Rightarrow> None | Some i \<Rightarrow> getStep s i)"

definition executeChildPipeline ::
  "'e ops \<Rightarrow> run_input \<Rightarrow> step_ctx \<Rightarrow> dstep \<Rightarrow> child_spec \<Rightarrow> obj \<Rightarrow> (outcome, 'e) io" where
  "executeChildPipeline ops inp cx step c current =
     (let selected = selectInput current (sb_input (base step)) in
      bnd (look (child_record_of (x_runId cx))) (\<lambda>existing.
      bnd (case existing of Some st \<Rightarrow> ret (st_id st)
           | None \<Rightarrow> create_record (cx\<lparr>x_namePrefix := None, x_parentStepId := None, x_logicalPrefix := []\<rparr>)
               step selected None None) (\<lambda>stepId.
      bnd (alter (setRunActiveStep (x_runId cx) (Some stepId))) (\<lambda>_.
      case (case existing of None \<Rightarrow> None | Some st \<Rightarrow> if st_status st = Ok then Some st else None) of
        Some st \<Rightarrow> ret (case st_result st of None \<Rightarrow> current | Some r \<Rightarrow> r, None)
      | None \<Rightarrow> run_child_step ops inp cx step c current selected stepId))))"

section \<open>The dispatch\<close>

definition dispatch ::
  "(step_ctx \<Rightarrow> dstep \<Rightarrow> obj \<Rightarrow> (outcome, 'e) io) \<Rightarrow> nat \<Rightarrow> 'e ops \<Rightarrow> run_input \<Rightarrow> step_ctx \<Rightarrow> dstep \<Rightarrow> obj \<Rightarrow> (outcome, 'e) io" where
  "dispatch run polls ops inp cx step current = (case step of
     PipelineStep _ c \<Rightarrow> executeChildPipeline ops inp cx step c current
   | CodeStep _ c \<Rightarrow> exec_code ops inp cx step c current
   | BlockStep _ bs \<Rightarrow> exec_block run cx step bs current
   | LoopStep _ lo steps \<Rightarrow> exec_loop run cx step lo steps current
   | ParallelStep _ ps template \<Rightarrow> exec_parallel polls ops inp cx step ps template current
   | ClassifierStep _ cl \<Rightarrow> exec_classifier ops cx step cl current
   | AgentStep _ ag \<Rightarrow> exec_agent ops inp cx step ag current)"

fun executePipelineStep ::
  "nat \<Rightarrow> nat \<Rightarrow> 'e ops \<Rightarrow> run_input \<Rightarrow> step_ctx \<Rightarrow> dstep \<Rightarrow> obj \<Rightarrow> (outcome, 'e) io" where
  "executePipelineStep 0 polls ops inp cx step current = throw Diverge"
| "executePipelineStep (Suc n) polls ops inp cx step current =
     bnd (check_ancestors (x_runId cx)) (\<lambda>_.
     bnd (check_cancelled (x_runId cx)) (\<lambda>_.
     if \<not> shouldRunStep current (sb_when (base step)) then skip_step cx step current
     else dispatch (executePipelineStep n polls ops inp) polls ops inp cx step current))"

section \<open>The run loop\<close>

definition MAX_PIPELINE_EXECUTED_STEPS :: nat where
  "MAX_PIPELINE_EXECUTED_STEPS = 2000"

definition top_ctx :: "uuid \<Rightarrow> dstep list \<Rightarrow> step_ctx" where
  "top_ctx runId steps = \<lparr>x_runId = runId, x_targets = buildStepTargetIndex steps,
     x_namePrefix = None, x_parentStepId = None, x_logicalPrefix = [], x_trackActive = True\<rparr>"

text \<open>One turn of the loop: the checks, the step, and the progress written behind it.\<close>

definition run_turn ::
  "(step_ctx \<Rightarrow> dstep \<Rightarrow> obj \<Rightarrow> (outcome, 'e) io) \<Rightarrow> nat \<Rightarrow> uuid \<Rightarrow> dstep list \<Rightarrow> obj \<Rightarrow> nat \<Rightarrow> (obj \<times> nat, 'e) io" where
  "run_turn run budget runId steps current cursor =
     bnd (check_ancestors runId) (\<lambda>_.
     bnd (check_cancelled runId) (\<lambda>_.
     bnd (if budget = 0 then throw (Err ''Pipeline exceeded the maximum step execution limit'') else ret ()) (\<lambda>_.
     bnd (run (top_ctx runId steps) (steps ! cursor) current) (\<lambda>(next, jumpTo).
     bnd (check_cancelled runId) (\<lambda>_.
     let cursor' = (case jumpTo of Some j \<Rightarrow> j | None \<Rightarrow> cursor + 1) in
     bnd (alter (updateRunProgress runId next cursor')) (\<lambda>_. ret (next, cursor')))))))"

text \<open>The loop: the state it ends in, and the error it ended with, if any.\<close>

fun run_loop ::
  "nat \<Rightarrow> (step_ctx \<Rightarrow> dstep \<Rightarrow> obj \<Rightarrow> (outcome, 'e) io) \<Rightarrow> uuid \<Rightarrow> dstep list \<Rightarrow> obj \<Rightarrow> nat \<Rightarrow> (obj \<times> exn option, 'e) io" where
  "run_loop 0 run runId steps current cursor =
     (if cursor \<ge> length steps then ret (current, None)
      else bnd (attempt (run_turn run 0 runId steps current cursor)) (\<lambda>r. case r of
          Inl e \<Rightarrow> ret (current, Some e) | Inr _ \<Rightarrow> ret (current, None)))"
| "run_loop (Suc budget) run runId steps current cursor =
     (if cursor \<ge> length steps then ret (current, None)
      else bnd (attempt (run_turn run (Suc budget) runId steps current cursor)) (\<lambda>r. case r of
          Inl e \<Rightarrow> ret (current, Some e)
        | Inr (next, cursor') \<Rightarrow> run_loop budget run runId steps next cursor'))"

definition completeActiveStepOnError :: "uuid \<Rightarrow> obj \<Rightarrow> string \<Rightarrow> (unit, 'e) io" where
  "completeActiveStepOnError runId current message =
     bnd (look (child_record_of runId)) (\<lambda>active. case active of
       None \<Rightarrow> ret ()
     | Some st \<Rightarrow> if st_status st \<noteq> Running then ret ()
        else alter_opt (completeStep \<lparr>cp_id = st_id st, cp_status = Errored, cp_result = Some current,
               cp_output = None, cp_error = Some message, cp_session = None\<rparr>))"

definition finish_run :: "uuid \<Rightarrow> status \<Rightarrow> obj \<Rightarrow> string option \<Rightarrow> (run_row option, 'e) io" where
  "finish_run runId st result error =
     bnd (alter (completeRun runId st (Some result) error)) (\<lambda>_. look (\<lambda>s. getRun s runId))"

definition run_failed :: "uuid \<Rightarrow> obj \<Rightarrow> exn \<Rightarrow> (run_row option, 'e) io" where
  "run_failed runId current e = (case e of
     Halt h result m \<Rightarrow> finish_run runId (halt_status h) result (Some m)
   | Stopped _ \<Rightarrow> look (\<lambda>s. getRun s runId)
   | _ \<Rightarrow> bnd (look (\<lambda>s. throwIfRunCancelled runId s \<noteq> None)) (\<lambda>cancelled.
       if cancelled then look (\<lambda>s. getRun s runId)
       else bnd (completeActiveStepOnError runId current (exn_message e)) (\<lambda>_.
            bnd (alter (setRunActiveStep runId None)) (\<lambda>_.
              finish_run runId Errored current (Some (exn_message e))))))"

text \<open>The body of the \<open>try\<close> of \<open>executeDeclarativePipeline\<close> with its \<open>catch\<close>.\<close>

definition run_to_end ::
  "nat \<Rightarrow> nat \<Rightarrow> 'e ops \<Rightarrow> run_input \<Rightarrow> hashes option \<Rightarrow> uuid \<Rightarrow> obj \<Rightarrow> nat \<Rightarrow> (run_row option, 'e) io" where
  "run_to_end n polls ops inp pins runId current cursor =
     (let steps = dp_steps (pd_spec (in_definition inp)) in
      bnd (attempt (bnd (check_ancestors runId) (\<lambda>_.
             require (\<lambda>_. map_option Err (assertPipelineFunctionPins (op_hash ops) pins))))) (\<lambda>r.
      case r of
        Inl e \<Rightarrow> run_failed runId current e
      | Inr _ \<Rightarrow>
         bnd (run_loop MAX_PIPELINE_EXECUTED_STEPS (executePipelineStep n polls ops inp) runId steps current cursor)
           (\<lambda>(final, error). case error of
              Some e \<Rightarrow> run_failed runId final e
            | None \<Rightarrow> bnd (attempt (check_ancestors runId)) (\<lambda>r. case r of
                 Inl e \<Rightarrow> run_failed runId final e
               | Inr _ \<Rightarrow> finish_run runId Ok final None))))"

definition context_input :: "run_input \<Rightarrow> snapshot_row \<Rightarrow> run_row \<Rightarrow> run_input" where
  "context_input inp sn saved = inp\<lparr>in_definition := sn_definition sn,
     in_profileId := cx_initiatingAgentProfileId (sn_context sn),
     in_agentNpub := cx_initiatingAgentNpub (sn_context sn),
     in_ownerNpub := r_ownerNpub saved, in_ownerAlias := r_ownerAlias saved\<rparr>"

definition leave_run :: "uuid \<Rightarrow> (unit, 'e) io" where
  "leave_run runId = modify (\<lambda>w. w\<lparr>w_executing := filter (\<lambda>i. i \<noteq> runId) (w_executing w)\<rparr>)"

definition execute_pinned ::
  "nat \<Rightarrow> nat \<Rightarrow> 'e ops \<Rightarrow> run_input \<Rightarrow> uuid \<Rightarrow> snapshot_row \<Rightarrow> run_row \<Rightarrow> (run_row option, 'e) io" where
  "execute_pinned n polls ops inp runId sn saved =
     bnd (alter (registerSecrets (op_secrets ops))) (\<lambda>_.
     bnd (modify (\<lambda>w. w\<lparr>w_stepIndex := (w_stepIndex w)(runId := nextStoredStepIndex (w_store w) runId)\<rparr>)) (\<lambda>_.
       finally_with (run_to_end n polls ops (context_input inp sn saved) (cx_functionHashes (sn_context sn))
           runId (r_current saved) (r_cursorIndex saved))
         (\<lambda>_. leave_run runId)))"

definition executeDeclarativePipeline ::
  "nat \<Rightarrow> nat \<Rightarrow> 'e ops \<Rightarrow> run_input \<Rightarrow> uuid \<Rightarrow> (run_row option, 'e) io" where
  "executeDeclarativePipeline n polls ops inp runId =
     bnd (reads (\<lambda>w. runId \<in> set (w_executing w))) (\<lambda>busy.
     if busy then look (\<lambda>s. getRun s runId)
     else bnd (modify (\<lambda>w. w\<lparr>w_executing := runId # w_executing w\<rparr>)) (\<lambda>_.
          bnd (look (\<lambda>s. (snapshot s runId, getRun s runId))) (\<lambda>r. case r of
             (None, None) \<Rightarrow> bnd (leave_run runId) (\<lambda>_. throw (Err ''null is not an object''))
           | (Some sn, None) \<Rightarrow> throw (Err ''null is not an object'')
           | (None, Some saved) \<Rightarrow> bnd (leave_run runId) (\<lambda>_.
               bnd (alter (blockMissingPipelineHistory saved)) (\<lambda>_. look (\<lambda>s. getRun s runId)))
           | (Some sn, Some saved) \<Rightarrow> execute_pinned n polls ops inp runId sn saved)))"

definition runDeclarativePipeline :: "nat \<Rightarrow> nat \<Rightarrow> 'e ops \<Rightarrow> run_input \<Rightarrow> (run_row option, 'e) io" where
  "runDeclarativePipeline n polls ops inp =
     bnd (createPipelineRun ops inp (\<lambda>_ s. Some s)) (executeDeclarativePipeline n polls ops inp)"

definition resumeDeclarativePipeline :: "nat \<Rightarrow> nat \<Rightarrow> 'e ops \<Rightarrow> run_input \<Rightarrow> uuid \<Rightarrow> (run_row option, 'e) io" where
  "resumeDeclarativePipeline n polls ops inp runId =
     bnd (look (\<lambda>s. (getRun s runId, is_running s runId))) (\<lambda>(run, running).
     if \<not> running then ret run else executeDeclarativePipeline n polls ops inp runId)"

definition resumeErroredDeclarativePipeline :: "nat \<Rightarrow> nat \<Rightarrow> 'e ops \<Rightarrow> run_input \<Rightarrow> uuid \<Rightarrow> (run_row option, 'e) io" where
  "resumeErroredDeclarativePipeline n polls ops inp runId =
     bnd (check_ancestors runId) (\<lambda>_.
     bnd (alter (reopenErroredRun runId)) (\<lambda>_.
       resumeDeclarativePipeline n polls ops inp runId))"

end
