(* ===== verification/Samples.thy ===== *)
theory Samples
  imports Run_Execution
begin

text \<open>
  Concrete data on which the theorems are applied: a database with a parent run and its child,
  steps of every kind that hold nothing but what a definition needs, and an idle environment.
\<close>

section \<open>Databases\<close>

definition empty_store :: pstore where
  "empty_store = \<lparr>db_runs = [], db_steps = [], db_events = [], db_callbacks = [], db_evidence = [],
     db_learning = [], db_decisions = [], db_snapshots = [], db_links = [], db_nextId = 0, db_clock = 5,
     db_secrets = [], db_redact = (\<lambda>_ v. (v, False)), db_digest = id\<rparr>"

definition sample_run :: "uuid \<Rightarrow> string \<Rightarrow> run_row" where
  "sample_run i d = \<lparr>r_id = i, r_definitionId = d, r_definitionPath = None, r_name = ''run'', r_status = Running,
     r_ownerNpub = Some ''npub'', r_ownerAlias = None, r_scope = Shared, r_input = [(''a'', JStr ''x'')],
     r_current = [(''a'', JStr ''y'')], r_cursorIndex = 0, r_activeStepId = None, r_result = None,
     r_error = None, r_startedAt = 1, r_completedAt = None\<rparr>"

definition sample_step :: "uuid \<Rightarrow> uuid \<Rightarrow> step_kind \<Rightarrow> status \<Rightarrow> step_row" where
  "sample_step i r k st = \<lparr>st_id = i, st_runId = r, st_stepIndex = i, st_name = ''step'', st_kind = k,
     st_status = st, st_input = [], st_result = None, st_error = None, st_wingmanSessionId = None,
     st_parentStepId = None, st_logicalKey = None, st_callbackToken = Some ''token'', st_output = None,
     st_metadata = None, st_startedAt = 1, st_completedAt = None\<rparr>"

text \<open>Run 1 is the child of run 0, started by its step 2.\<close>

definition family :: pstore where
  "family = empty_store\<lparr>db_runs := [sample_run 0 ''parent'', sample_run 1 ''child''],
     db_steps := [sample_step 2 0 KPipeline Running, sample_step 3 1 KAgent Running],
     db_links := [\<lparr>lk_parentRunId = 0, lk_parentStepId = 2, lk_childRunId = 1, lk_deadline = 100\<rparr>],
     db_nextId := 4\<rparr>"

lemmas sample_defs = family_def empty_store_def sample_run_def sample_step_def

lemma family_ok: "store_ok family"
  by (simp add: sample_defs store_ok_def ids_ok_def run_ok_def link_ok_def cancelled_ok_def)

lemma family_rows [simp]:
  "getRun family 0 = Some (sample_run 0 ''parent'')" "getRun family 1 = Some (sample_run 1 ''child'')"
  "getRun family (Suc 0) = Some (sample_run 1 ''child'')"
  "getStep family 2 = Some (sample_step 2 0 KPipeline Running)"
  "getStep family 3 = Some (sample_step 3 1 KAgent Running)"
  by (simp_all add: sample_defs getRun_def getStep_def)

lemma family_cascade: "cascade family 0 1"
proof -
  have "cascade family 0 0" by (rule cascade.here) (simp add: is_running_def sample_run_def)
  moreover have "\<lparr>lk_parentRunId = 0, lk_parentStepId = 2, lk_childRunId = 1, lk_deadline = 100\<rparr> \<in> set (children family 0)"
    by (simp add: sample_defs children_def)
  ultimately show ?thesis
    using cascade.below [of family 0 0 "\<lparr>lk_parentRunId = 0, lk_parentStepId = 2, lk_childRunId = 1, lk_deadline = 100\<rparr>"]
    by (simp add: is_running_def sample_run_def)
qed

section \<open>Steps\<close>

definition sample_base :: "string \<Rightarrow> step_base" where
  "sample_base n = \<lparr>sb_id = None, sb_name = n, sb_title = None, sb_description = None, sb_display = None,
     sb_input = None, sb_assign = Some ''$.out'', sb_when = None\<rparr>"

definition sample_code :: dstep where
  "sample_code = CodeStep (sample_base ''code'') \<lparr>co_function = ''f'', co_activityWebhook = None, co_agentTools = None\<rparr>"

definition sample_block :: dstep where
  "sample_block = BlockStep (sample_base ''invite'') \<lparr>bl_block = ''flightdeck.threadInvocation'', bl_config = None\<rparr>"

definition sample_loop :: dstep where
  "sample_loop = LoopStep (sample_base ''again'') \<lparr>lo_iterations = Some (NumLit (Fin 2)), lo_target = None,
     lo_history = None, lo_capture = None, lo_counter = None\<rparr> (Some [sample_block, sample_code])"

definition sample_child :: dstep where
  "sample_child = PipelineStep (sample_base ''child'') \<lparr>ch_pipeline = ''other'', ch_version = None,
     ch_timeoutMs = None, ch_failurePolicy = None\<rparr>"

definition sample_pipeline :: "dstep list \<Rightarrow> pipeline" where
  "sample_pipeline steps = \<lparr>dp_enabled = None, dp_name = ''sample'', dp_description = None, dp_version = None,
     dp_supersedes = None, dp_defaultAgent = None, dp_input = None, dp_steps = steps\<rparr>"

end
