(* ===== verification/Store_Contract.thy ===== *)
theory Store_Contract
  imports Samples
begin

text \<open>
  What the stores promise: the cascade of a cancellation, what is read after a write, the
  idempotency of a learning run and the single claim of a router message.
\<close>

section \<open>Cancellation\<close>

text \<open>The cascade only grows with the running runs, and reaches below a running run what it reaches below its child.\<close>

lemma cascade_mono:
  "cascade u i j \<Longrightarrow> db_links u = db_links s \<Longrightarrow> (\<And>k. is_running u k \<Longrightarrow> is_running s k) \<Longrightarrow> cascade s i j"
  by (induction rule: cascade.induct) (auto simp: children_def intro: cascade.intros)

lemma cascade_from_child:
  "cascade s k j \<Longrightarrow> k = lk_childRunId l \<Longrightarrow> l \<in> set (children s i) \<Longrightarrow> is_running s i \<Longrightarrow> cascade s i j"
proof (induction rule: cascade.induct)
  case (here k)
  then show ?case using cascade.below [OF cascade.here] by blast
qed (blast intro: cascade.below)

definition stops_only :: "uuid \<Rightarrow> pstore \<Rightarrow> pstore \<Rightarrow> bool" where
  "stops_only i s t \<longleftrightarrow> db_links t = db_links s \<and> (\<forall>k. is_running t k \<longrightarrow> is_running s k) \<and>
     (\<forall>j. getRun t j \<noteq> getRun s j \<longrightarrow> cascade s i j)"

lemma cancelRun_fuel_stops_only: "cancelRun_fuel n i reason s = Some t \<Longrightarrow> stops_only i s t"
proof (induction n arbitrary: i s t)
  case (Suc n)
  show ?case
  proof (cases "is_running s i")
    case True
    then obtain run u where run: "getRun s i = Some run" and
      f: "fold_opt (\<lambda>c. cancelRun_fuel n (lk_childRunId c) reason) (children s i) s = Some u" and
      t: "t = cancel_rows i reason run u"
      using Suc.prems by (auto simp: is_running_def split: option.splits if_splits)
    have step: "fold_opt (\<lambda>c. cancelRun_fuel n (lk_childRunId c) reason) ls v = Some u \<Longrightarrow>
        set ls \<subseteq> set (children s i) \<Longrightarrow> stops_only i s v \<Longrightarrow> stops_only i s u" for ls v
    proof (induction ls arbitrary: v)
      case (Cons l ls)
      then obtain w where w: "cancelRun_fuel n (lk_childRunId l) reason v = Some w"
        "fold_opt (\<lambda>c. cancelRun_fuel n (lk_childRunId c) reason) ls w = Some u"
        by (auto split: option.splits)
      have "cascade s i j" if "cascade v (lk_childRunId l) j" for j
        by (rule cascade_from_child [OF cascade_mono [OF that] refl _ True])
          (use Cons.prems in \<open>auto simp: stops_only_def\<close>)
      then have "stops_only i s w"
        using Suc.IH [OF w(1)] Cons.prems(3) by (simp add: stops_only_def) metis
      with Cons.IH [OF w(2)] Cons.prems(2) show ?case by simp
    qed simp
    have "stops_only i s u" by (rule step [OF f]) (simp_all add: stops_only_def)
    moreover have "cascade s i i" using True by (rule cascade.here)
    moreover have "db_links (cancel_rows i reason run u) = db_links u" by simp
    moreover have "is_running (cancel_rows i reason run u) k \<Longrightarrow> is_running u k" for k
      by (cases "getRun u k") (auto simp: is_running_def cancel_rows_runs set_outcome_def split: if_splits)
    moreover have "j \<noteq> i \<Longrightarrow> getRun (cancel_rows i reason run u) j = getRun u j" for j
      by (simp add: cancel_rows_runs option.map_ident)
    ultimately show ?thesis unfolding t stops_only_def by metis
  next
    case False
    with Suc.prems show ?thesis by (auto simp: stops_only_def is_running_def split: option.splits)
  qed
qed simp

text \<open>
  C8: On a well-formed database \<open>cancelRun\<close> ends and keeps the database well-formed. It stops the
  run and the runs below it that are reached through running runs only, each with its current state
  as the result, the reason as the error and no open step left, and it changes no other run: not
  one that is not linked below it, and not one below a run that has ended, which keeps running when
  it was running.
\<close>

theorem cancelRun_contract:
  assumes "store_ok s"
  shows "\<exists>t. cancelRun i reason s = Some t \<and> store_ok t \<and> db_links t = db_links s \<and>
     (\<forall>j r. cascade s i j \<longrightarrow> getRun s j = Some r \<longrightarrow>
        (\<exists>r'. getRun t j = Some r' \<and> stopped_as reason r r' \<and> quiet t j)) \<and>
     (\<forall>j. \<not> cascade s i j \<longrightarrow> getRun t j = getRun s j) \<and>
     (\<forall>j. (i, j) \<notin> (linked s)\<^sup>* \<longrightarrow> getRun t j = getRun s j)"
proof -
  obtain t where t: "cancelRun i reason s = Some t" "store_ok t" "db_links t = db_links s"
    using cancelRun_defined [OF assms] by blast
  moreover have "cascade s i j" if "getRun t j \<noteq> getRun s j" for j
    using cancelRun_fuel_stops_only that t(1) unfolding cancelRun_def stops_only_def by blast
  ultimately show ?thesis using cancelRun_cascade [OF t(1)] cascade_linked by blast
qed

theorem cancelRun_contract_witness:
  "\<exists>t. cancelRun 0 ''stop'' family = Some t \<and>
     (\<exists>r'. getRun t 1 = Some r' \<and> stopped_as ''stop'' (sample_run 1 ''child'') r' \<and> quiet t 1)"
  using cancelRun_contract [OF family_ok, of 0 "''stop''"] family_cascade family_rows(2) by blast

text \<open>
  The documentation says that the live descendants of a cancelled run are cancelled. A running run
  below a run that has ended is not: here run 2 keeps running below run 1.
\<close>

definition ended_between :: pstore where
  "ended_between = empty_store\<lparr>db_runs := [sample_run 0 ''parent'', (sample_run 1 ''child'')\<lparr>r_status := Ok, r_completedAt := Some 2\<rparr>,
       sample_run 2 ''grandchild''],
     db_links := [\<lparr>lk_parentRunId = 0, lk_parentStepId = 3, lk_childRunId = 1, lk_deadline = 100\<rparr>,
       \<lparr>lk_parentRunId = 1, lk_parentStepId = 4, lk_childRunId = 2, lk_deadline = 100\<rparr>],
     db_steps := [sample_step 3 0 KPipeline Running, sample_step 4 1 KPipeline Ok], db_nextId := 5\<rparr>"

lemma live_run_below_ended_one_stays:
  "store_ok ended_between \<and> (0, 2) \<in> (linked ended_between)\<^sup>* \<and>
   (\<exists>t. cancelRun 0 ''stop'' ended_between = Some t \<and> \<not> is_running t 0 \<and> is_running t 2)"
proof (intro conjI)
  show "store_ok ended_between"
    by (simp add: ended_between_def sample_defs store_ok_def ids_ok_def run_ok_def link_ok_def cancelled_ok_def)
  have "(0, 1) \<in> linked ended_between" "(1, 2) \<in> linked ended_between"
    by (auto simp: ended_between_def linked_def)
  then show "(0, 2) \<in> (linked ended_between)\<^sup>*" by (meson r_into_rtrancl rtrancl_into_rtrancl)
  have "map_option (\<lambda>t. (is_running t 0, is_running t 2)) (cancelRun 0 ''stop'' ended_between) = Some (False, True)"
    by code_simp
  then show "\<exists>t. cancelRun 0 ''stop'' ended_between = Some t \<and> \<not> is_running t 0 \<and> is_running t 2" by auto
qed

section \<open>Steps\<close>

text \<open>
  A created step is read back as it was given, in a fresh row; every other step and every run
  is as before.
\<close>

theorem createStep_reads_back:
  assumes "store_ok s" and "createStep c s = Some (i, t)"
  shows "getStep s i = None \<and> getRun t = getRun s \<and> (\<forall>j. j \<noteq> i \<longrightarrow> getStep t j = getStep s j) \<and>
     (\<exists>st. getStep t i = Some st \<and> st_runId st = cs_runId c \<and> st_stepIndex st = cs_stepIndex c \<and>
        st_name st = cs_name c \<and> st_kind st = cs_kind c \<and> st_input st = stored (cs_input c) \<and>
        st_status st = (case cs_status c of None \<Rightarrow> Running | Some x \<Rightarrow> x) \<and>
        st_callbackToken st = cs_callbackToken c \<and> st_result st = None \<and> st_completedAt st = None)"
proof -
  have i: "i = db_nextId s" by (rule getStep_createStep(1) [OF assms(2)])
  with assms(1) have fresh: "getStep s i = None"
    by (auto simp: store_ok_def ids_ok_def getStep_def row_None_iff)
  have "\<exists>st. db_steps t = db_steps s @ [st] \<and> st_id st = i \<and> st_runId st = cs_runId c \<and>
        st_stepIndex st = cs_stepIndex c \<and> st_name st = cs_name c \<and> st_kind st = cs_kind c \<and>
        st_input st = stored (cs_input c) \<and>
        st_status st = (case cs_status c of None \<Rightarrow> Running | Some x \<Rightarrow> x) \<and>
        st_callbackToken st = cs_callbackToken c \<and> st_result st = None \<and> st_completedAt st = None"
    using assms(2) by (auto simp: createStep_def fresh_uuid_def Let_def split: if_splits)
  then obtain st where st: "db_steps t = db_steps s @ [st]" "st_id st = i" "st_runId st = cs_runId c"
    "st_stepIndex st = cs_stepIndex c" "st_name st = cs_name c" "st_kind st = cs_kind c"
    "st_input st = stored (cs_input c)" "st_status st = (case cs_status c of None \<Rightarrow> Running | Some x \<Rightarrow> x)"
    "st_callbackToken st = cs_callbackToken c" "st_result st = None" "st_completedAt st = None" by blast
  have "getStep t j = (if j = i then Some st else getStep s j)" for j
    using fresh st(1,2) by (auto simp: getStep_def row_append split: option.splits)
  with st fresh getRun_createStep [OF assms(2)] show ?thesis by auto
qed

definition sample_create :: create_step where
  "sample_create = \<lparr>cs_runId = 0, cs_stepIndex = 7, cs_name = ''new'', cs_kind = KCode, cs_input = [(''k'', JStr ''v'')],
     cs_status = Some Queued, cs_parentStepId = None, cs_logicalKey = None, cs_callbackToken = None, cs_metadata = None\<rparr>"

lemma sample_create_runs: "\<exists>t. createStep sample_create family = Some (4, t)"
  by (simp add: createStep_def sample_create_def fresh_uuid_def Let_def) (simp add: sample_defs)

theorem createStep_reads_back_witness:
  "\<exists>t st. createStep sample_create family = Some (4, t) \<and> getStep t 4 = Some st \<and>
     st_input st = stored [(''k'', JStr ''v'')] \<and> st_status st = Queued"
proof -
  obtain t where t: "createStep sample_create family = Some (4, t)" using sample_create_runs by blast
  with createStep_reads_back [OF family_ok t] show ?thesis by (auto simp: sample_create_def)
qed

text \<open>
  A completion writes its status, result, output and time to a step that is not cancelled, keeps
  the first output and session when it brings none, leaves a cancelled step as it is but for its
  metadata, and touches no other step and no run.
\<close>

theorem completeStep_effect:
  assumes "completeStep c s = Some t"
  shows "getRun t = getRun s \<and> (\<forall>j. j \<noteq> cp_id c \<longrightarrow> getStep t j = getStep s j) \<and>
     (\<exists>st md err. getStep s (cp_id c) = Some st \<and> getStep t (cp_id c) = Some
        (if st_status st = Cancelled then st\<lparr>st_metadata := md\<rparr>
         else st\<lparr>st_status := cp_status c, st_result := map_option stored (cp_result c),
           st_output := or_else (map_option stored (cp_output c)) (st_output st), st_error := err,
           st_wingmanSessionId := or_else (cp_session c) (st_wingmanSessionId st),
           st_completedAt := Some (db_clock s), st_metadata := md\<rparr>))"
proof -
  obtain st where st: "getStep s (cp_id c) = Some st"
    using assms completeStep_defined [of c s] by auto
  have "\<exists>md err. getStep t (cp_id c) = Some
        (if st_status st = Cancelled then st\<lparr>st_metadata := md\<rparr>
         else st\<lparr>st_status := cp_status c, st_result := map_option stored (cp_result c),
           st_output := or_else (map_option stored (cp_output c)) (st_output st), st_error := err,
           st_wingmanSessionId := or_else (cp_session c) (st_wingmanSessionId st),
           st_completedAt := Some (db_clock s), st_metadata := md\<rparr>)"
    using getStep_completeStep [OF assms st] getStep_completeStep_cancelled [OF assms st]
    by (cases "st_status st = Cancelled") auto
  with st show ?thesis
    using getRun_completeStep [OF assms] getStep_completeStep_other [OF assms] by auto
qed

definition sample_complete :: complete_step where
  "sample_complete = \<lparr>cp_id = 3, cp_status = Ok, cp_result = Some [(''r'', JStr ''x'')], cp_output = None,
     cp_error = None, cp_session = Some ''session''\<rparr>"

theorem completeStep_effect_witness:
  "\<exists>t st. completeStep sample_complete family = Some t \<and> getStep t 3 = Some st \<and> st_status st = Ok \<and>
     st_wingmanSessionId st = Some ''session'' \<and> getStep t 2 = getStep family 2"
proof -
  have "completeStep sample_complete family \<noteq> None"
    unfolding completeStep_defined by (simp add: sample_complete_def)
  then obtain t where t: "completeStep sample_complete family = Some t" by auto
  from completeStep_effect [OF t] show ?thesis
    using t by (auto simp: sample_complete_def sample_step_def or_else_def)
qed

section \<open>Idempotency\<close>

text \<open>
  The first reservation of a learning run is new, the second pending, and once bound it returns
  the run; another input is a conflict; a release drops an unbound reservation and no bound one.
\<close>

theorem learning_run_idempotent:
  assumes "learning_lookup s (owner, d, k) = None" and "h' \<noteq> h"
    and t: "t = snd (reserveLearningRun owner d k h s)" and u: "u = bindLearningRun owner d k run t"
  shows "fst (reserveLearningRun owner d k h s) = New \<and>
     reserveLearningRun owner d k h t = (Pending, t) \<and>
     reserveLearningRun owner d k h u = (Existing run, u) \<and>
     reserveLearningRun owner d k h' u = (Conflict, u) \<and>
     bindLearningRun owner d k other u = u \<and> releaseLearningRun owner d k u = u \<and>
     learning_lookup (releaseLearningRun owner d k t) (owner, d, k) = None"
proof -
  let ?k = "(owner, d, k)"
  let ?e = "\<lparr>le_key = ?k, le_inputHash = h, le_runId = None, le_createdAt = db_clock s\<rparr>"
  let ?b = "set_learning_run run ?e"
  have new: "\<forall>e \<in> set (db_learning s). le_key e \<noteq> ?k"
    using assms(1) by (auto simp: learning_lookup_def row_None_iff image_iff)
  have first: "reserveLearningRun owner d k h s = (New, s\<lparr>db_learning := db_learning s @ [?e]\<rparr>)"
    using assms(1) by (simp add: reserveLearningRun_def learning_lookup_def row_append Let_def)
  then have lt: "db_learning t = db_learning s @ [?e]" by (simp add: t)
  have lu: "db_learning u = db_learning s @ [?b]"
    using new by (simp add: u bindLearningRun_def lt change_def map_idI)
  have look: "learning_lookup t ?k = Some ?e" "learning_lookup u ?k = Some ?b"
    using assms(1) by (simp_all add: learning_lookup_def lt lu row_append set_learning_run_def)
  have "bindLearningRun owner d k other u = u" "releaseLearningRun owner d k u = u"
    using new by (auto simp: bindLearningRun_def releaseLearningRun_def lu change_def set_learning_run_def
        intro!: map_idI filter_True pstore.equality)
  moreover have "learning_lookup (releaseLearningRun owner d k t) ?k = None"
    using new by (auto simp: learning_lookup_def releaseLearningRun_def lt row_None_iff)
  ultimately show ?thesis
    using first look assms(2) by (simp add: reserveLearningRun_def Let_def set_learning_run_def)
qed

theorem learning_run_idempotent_witness:
  "fst (reserveLearningRun ''o'' ''d'' ''k'' ''h'' family) = New \<and>
   fst (reserveLearningRun ''o'' ''d'' ''k'' ''h'' (snd (reserveLearningRun ''o'' ''d'' ''k'' ''h'' family))) = Pending"
  using learning_run_idempotent [of family "''o''" "''d''" "''k''" "''x''" "''h''", OF _ _ refl refl]
  by (simp add: learning_lookup_def sample_defs)

text \<open>
  A router message is claimed once: the first claim of a message without a decision succeeds,
  every later one fails and changes nothing, whoever makes it.
\<close>

theorem router_claim_once:
  "(fst (claimFlightDeckRouterSource m a s) \<longleftrightarrow> row de_sourceMessageId m (db_decisions s) = None) \<and>
   claimFlightDeckRouterSource m b (snd (claimFlightDeckRouterSource m a s)) =
     (False, snd (claimFlightDeckRouterSource m a s))"
  by (auto simp: claimFlightDeckRouterSource_def row_append split: option.splits)

section \<open>Pages\<close>

text \<open>Two sorts, the last one stable, are one sort by both keys.\<close>

definition sooner :: "('a \<Rightarrow> int) \<Rightarrow> ('a \<Rightarrow> int) \<Rightarrow> 'a \<Rightarrow> 'a \<Rightarrow> bool" where
  "sooner f g a b \<longleftrightarrow> f a < f b \<or> (f a = f b \<and> g a < g b)"

lemma sooner_insort:
  "sorted_wrt (sooner f g) xs \<Longrightarrow> (\<forall>y \<in> set xs. g x < g y) \<Longrightarrow> sorted_wrt (sooner f g) (insort_key f x xs)"
  by (induction xs) (auto simp: sooner_def set_insort_key)

lemma sooner_sort: "sorted_wrt (\<lambda>a b. g a < g b) xs \<Longrightarrow> sorted_wrt (sooner f g) (sort_key f xs)"
  by (induction xs) (auto intro!: sooner_insort)

lemma sort_strict:
  assumes "distinct (map g xs)"
  shows "sorted_wrt (\<lambda>a b. g a < g b) (sort_key g xs)"
proof -
  have "distinct (map g (sort_key g xs))" using assms by (simp add: distinct_map)
  then have "sorted_wrt (<) (map g (sort_key g xs))" by (simp add: strict_sorted_iff)
  then show ?thesis by (simp add: sorted_wrt_map)
qed

text \<open>What comes after the last row of a page is what the page left.\<close>

lemma filter_after_last:
  assumes "sorted_wrt R xs" and "\<And>a b. R a b \<Longrightarrow> \<not> R b a" and "take n xs \<noteq> []"
  shows "filter (R (last (take n xs))) xs = drop n xs"
proof -
  let ?x = "last (take n xs)"
  have s: "sorted_wrt R (take n xs @ drop n xs)" using assms(1) by simp
  have l: "?x \<in> set (take n xs)" using assms(3) last_in_set by blast
  have "sorted_wrt R (butlast (take n xs) @ [?x])"
    using s unfolding append_butlast_last_id [OF assms(3)] by (simp add: sorted_wrt_append)
  then have before: "R y ?x" if "y \<in> set (butlast (take n xs))" for y
    using that by (simp add: sorted_wrt_append)
  have "\<not> R ?x y" if "y \<in> set (take n xs)" for y
  proof -
    from that have "y \<in> set (butlast (take n xs) @ [?x])" by (simp only: append_butlast_last_id [OF assms(3)])
    then have "y = ?x \<or> R y ?x" using before by auto
    then show ?thesis using assms(2) by blast
  qed
  then have "filter (R ?x) (take n xs) = []" by (simp add: filter_empty_conv)
  moreover have "filter (R ?x) (drop n xs) = drop n xs"
    using s l unfolding sorted_wrt_append by (intro filter_True) auto
  ultimately show ?thesis by (metis append_Nil append_take_drop_id filter_append)
qed

definition owner_order :: "pstore \<Rightarrow> string \<Rightarrow> (nat \<times> uuid) option \<Rightarrow> run_row list" where
  "owner_order s owner before = sort_key (\<lambda>r. - int (r_startedAt r)) (sort_key (\<lambda>r. - int (r_id r))
     (filter (\<lambda>r. r_ownerNpub r = Some owner \<and> page_after before r) (db_runs s)))"

abbreviation newer :: "run_row \<Rightarrow> run_row \<Rightarrow> bool" where
  "newer \<equiv> sooner (\<lambda>r. - int (r_startedAt r)) (\<lambda>r. - int (r_id r))"

lemma owner_order_sorted: "store_ok s \<Longrightarrow> sorted_wrt newer (owner_order s owner before)"
  unfolding owner_order_def
  by (intro sooner_sort sort_strict)
    (auto simp: store_ok_def ids_ok_def distinct_map inj_on_def intro!: distinct_filter)

lemma owner_order_next:
  assumes "r \<in> set (owner_order s owner before)"
  shows "owner_order s owner (Some (r_startedAt r, r_id r)) = filter (newer r) (owner_order s owner before)"
proof -
  have "page_after before r" using assms by (auto simp: owner_order_def)
  then have "(r_ownerNpub x = Some owner \<and> page_after (Some (r_startedAt r, r_id r)) x) =
      (newer r x \<and> (r_ownerNpub x = Some owner \<and> page_after before x))" for x
    by (auto simp: page_after_def sooner_def split: option.splits)
  then show ?thesis unfolding owner_order_def by (simp add: filter_sort flip: filter_filter) (simp add: conj_ac)
qed

text \<open>
  Pages of an owner's runs join without a gap and without a repetition: a page followed by the
  page after its last row is the page of both lengths. Each page is ordered from the newest run to
  the oldest and holds runs of its owner only.
\<close>

theorem pages_join:
  assumes "store_ok s" and "pageOwnerRuns s owner before a \<noteq> []"
  shows "pageOwnerRuns s owner before (a + b) = pageOwnerRuns s owner before a @
       (let l = last (pageOwnerRuns s owner before a) in pageOwnerRuns s owner (Some (rs_startedAt l, rs_id l)) b) \<and>
     distinct (map rs_id (pageOwnerRuns s owner before (a + b))) \<and>
     sorted_wrt (\<lambda>x y. rs_startedAt y \<le> rs_startedAt x) (pageOwnerRuns s owner before a) \<and>
     (\<forall>x \<in> set (pageOwnerRuns s owner before a). rs_ownerNpub x = Some owner)"
proof -
  let ?L = "owner_order s owner before"
  have page: "pageOwnerRuns s owner before' n = map mapRunSummary (take n (owner_order s owner before'))" for before' n
    by (simp add: pageOwnerRuns_def owner_order_def)
  have ne: "take a ?L \<noteq> []" using assms(2) by (simp add: page)
  let ?l = "last (take a ?L)"
  have "?l \<in> set ?L" using last_in_set [OF ne] by (rule in_set_takeD)
  note nxt = owner_order_next [OF this]
  have sorted: "sorted_wrt newer ?L" by (rule owner_order_sorted [OF assms(1)])
  have "filter (newer ?l) ?L = drop a ?L"
    by (rule filter_after_last [OF sorted _ ne]) (auto simp: sooner_def)
  moreover have "last (pageOwnerRuns s owner before a) = mapRunSummary ?l"
    using ne by (simp add: page last_map)
  moreover have key: "rs_startedAt (mapRunSummary r) = r_startedAt r" "rs_id (mapRunSummary r) = r_id r" for r
    by (simp_all add: mapRunSummary_def Let_def)
  ultimately have "pageOwnerRuns s owner before (a + b) = pageOwnerRuns s owner before a @
       (let l = last (pageOwnerRuns s owner before a) in pageOwnerRuns s owner (Some (rs_startedAt l, rs_id l)) b)"
    by (simp add: page nxt take_add Let_def)
  moreover have "distinct (map r_id ?L)"
    using assms(1) by (auto simp: owner_order_def store_ok_def ids_ok_def distinct_map inj_on_def)
  then have "distinct (map rs_id (pageOwnerRuns s owner before (a + b)))"
    by (simp add: page key comp_def take_map flip: take_map)
  moreover have "sorted_wrt newer (take a ?L)" using sorted by (rule sorted_wrt_take)
  then have "sorted_wrt (\<lambda>x y. rs_startedAt y \<le> rs_startedAt x) (pageOwnerRuns s owner before a)"
    unfolding page sorted_wrt_map key by (rule sorted_wrt_mono_rel [rotated]) (auto simp: sooner_def)
  moreover have "\<forall>x \<in> set (pageOwnerRuns s owner before a). rs_ownerNpub x = Some owner"
    by (auto simp: page owner_order_def mapRunSummary_def Let_def dest!: in_set_takeD)
  ultimately show ?thesis by blast
qed

theorem pages_join_witness:
  "pageOwnerRuns family ''npub'' None (1 + 1) = pageOwnerRuns family ''npub'' None 1 @ pageOwnerRuns family ''npub'' (Some (1, 1)) 1"
proof -
  have p: "map (\<lambda>x. (rs_startedAt x, rs_id x)) (pageOwnerRuns family ''npub'' None 1) = [(1, 1)]" by code_simp
  then obtain x where x: "pageOwnerRuns family ''npub'' None 1 = [x]" "rs_startedAt x = 1" "rs_id x = 1" by auto
  with pages_join [OF family_ok, of "''npub''" None 1 1] show ?thesis by simp
qed

end
