(* ===== verification/Definition_Contract.thy ===== *)
theory Definition_Contract
  imports Samples
begin

text \<open>
  What a definition and its settings promise: the laws of the dotted paths, the pins of a run, the
  place of child pipelines, the ranges of the settings and the keys of a parallel step's items.
\<close>

section \<open>The run's state\<close>

text \<open>
  C31: After \<open>assignOutput\<close> at a path the result is read there, a second assignment replaces it, and
  every path that parts from it below the root reads as before.
\<close>

theorem assignOutput_laws:
  assumes "proper_path p" and "proper_path q" and "fork (segments p) (segments q)"
  shows "\<exists>out. assignOutput input result (Some p) = Inr out \<and> resolvePath out p = JObj result \<and>
     resolvePath out q = resolvePath input q \<and>
     assignOutput out result' (Some p) = assignOutput input result' (Some p)"
  by (simp add: assignOutput_proper assms resolvePath_proper path_pos.rd_wr path_pos.wr_wr
      path_pos.rd_wr_apart)

theorem assignOutput_laws_witness:
  "\<exists>out. assignOutput [(''a'', JObj [(''b'', JStr ''x'')])] [(''r'', JStr ''y'')] (Some ''$.a.c'') = Inr out \<and>
     resolvePath out ''a.c'' = JObj [(''r'', JStr ''y'')] \<and> resolvePath out ''$.a.b'' = JStr ''x''"
proof -
  have p: "proper_path ''$.a.c''" "proper_path ''$.a.b''" "fork (segments ''$.a.c'') (segments ''$.a.b'')"
    by code_simp+
  have "resolvePath [(''a'', JObj [(''b'', JStr ''x'')])] ''$.a.b'' = JStr ''x''" by code_simp
  moreover have "resolvePath out ''a.c'' = resolvePath out ''$.a.c''" for out
    by (simp add: resolvePath_def normalize_path_def starts_with_def)
  ultimately show ?thesis
    using assignOutput_laws [OF p, of "[(''a'', JObj [(''b'', JStr ''x'')])]" "[(''r'', JStr ''y'')]"] by auto
qed

section \<open>Pins\<close>

text \<open>
  The steps the runner comes to in a run, each with its context: the steps of the run, the steps of
  a nested loop's body in any of its rounds, and the steps of the expansion it finds for a block.
\<close>

inductive comes_to :: "pstore \<Rightarrow> uuid \<Rightarrow> dstep list \<Rightarrow> step_ctx \<Rightarrow> dstep \<Rightarrow> bool" for s runId steps where
  at_top: "st \<in> set steps \<Longrightarrow> comes_to s runId steps (top_ctx runId steps) st"
| in_round: "comes_to s runId steps cx (LoopStep b lo (Some ss)) \<Longrightarrow> st \<in> set ss \<Longrightarrow>
    comes_to s runId steps ((child_ctx cx (LoopStep b lo (Some ss)) i)\<lparr>x_namePrefix := p\<rparr>) st"
| in_block: "comes_to s runId steps cx (BlockStep b bs) \<Longrightarrow>
    find_expansion s (x_runId cx) (logical_key cx (BlockStep b bs)) = Some ex \<Longrightarrow> st \<in> set (bx_steps ex) \<Longrightarrow>
    comes_to s runId steps (child_ctx cx (BlockStep b bs) i) st"

text \<open>The blocks of a step, at any depth, with their keys.\<close>

inductive block_under :: "string \<Rightarrow> dstep \<Rightarrow> string \<Rightarrow> step_base \<Rightarrow> block_spec \<Rightarrow> bool" where
  here: "block_under pre (BlockStep b bs) (pre @ step_key b) b bs"
| loop: "st \<in> set ss \<Longrightarrow> block_under (pre @ step_key b @ ''/'') st k b' bs' \<Longrightarrow> block_under pre (LoopStep b lo (Some ss)) k b' bs'"
| par: "block_under (pre @ step_key b @ ''/'') st k b' bs' \<Longrightarrow> block_under pre (ParallelStep b ps st) k b' bs'"
| block: "expandPipelineBlock b bs = Inr ex \<Longrightarrow> st \<in> set (bx_steps ex) \<Longrightarrow>
    block_under (pre @ step_key b @ ''/'') st k b' bs' \<Longrightarrow> block_under pre (BlockStep b bs) k b' bs'"

inductive_simps under_simps [simp]:
  "block_under pre (LoopStep b lo (Some ss)) k b' bs'" "block_under pre (LoopStep b lo None) k b' bs'"
  "block_under pre (ParallelStep b ps st) k b' bs'"

lemma block_under_expansion:
  "block_under pre t k b bs \<Longrightarrow> expandPipelineBlock b bs = Inr ex \<Longrightarrow> st \<in> set (bx_steps ex) \<Longrightarrow>
     block_under (k @ ''/'') st k' b' bs' \<Longrightarrow> block_under pre t k' b' bs'"
  by (induction rule: block_under.induct) (auto intro: block_under.intros)

text \<open>The snapshot holds expansions of blocks under their keys, one for every key.\<close>

definition fits_block :: "string \<Rightarrow> dstep list \<Rightarrow> string \<times> block_expansion \<Rightarrow> bool" where
  "fits_block pre ss e \<longleftrightarrow> (\<exists>st \<in> set ss. \<exists>b bs. block_under pre st (fst e) b bs \<and> expandPipelineBlock b bs = Inr (snd e))"

lemma set_update: "e \<in> set (AList.update k v xs) \<Longrightarrow> e = (k, v) \<or> e \<in> set xs"
  by (induction xs) (auto split: if_splits)

lemma snap_sound:
  "snap_steps pre ss acc = Inr out \<Longrightarrow> e \<in> set out \<Longrightarrow> e \<in> set acc \<or> fits_block pre ss e"
  "snap_step pre t acc = Inr out \<Longrightarrow> e \<in> set out \<Longrightarrow> e \<in> set acc \<or> fits_block pre [t] e"
proof (induction pre ss acc and pre t acc arbitrary: out and out rule: snap_steps_snap_step.induct)
  case (2 pre s ss acc)
  then obtain acc' where acc': "snap_step pre s acc = Inr acc'" "snap_steps pre ss acc' = Inr out"
    by (auto split: sum.splits)
  from "2.IH"(2) [OF acc' "2.prems"(2)] "2.IH"(1) [OF acc'(1)] show ?case by (auto simp: fits_block_def)
next
  case (3 pre b s acc)
  then obtain ex where ex: "expandPipelineBlock b s = Inr ex"
    "snap_steps ((pre @ step_key b) @ ''/'') (bx_steps ex) (AList.update (pre @ step_key b) ex acc) = Inr out"
    by (auto simp: Let_def split: sum.splits)
  from "3.IH" [OF refl ex(1)] ex(2) "3.prems"(2)
  have "e \<in> set (AList.update (pre @ step_key b) ex acc) \<or> fits_block ((pre @ step_key b) @ ''/'') (bx_steps ex) e" by blast
  moreover have "fits_block pre [BlockStep b s] (pre @ step_key b, ex)"
    using ex(1) block_under.here by (fastforce simp: fits_block_def)
  moreover have "fits_block pre [BlockStep b s] e" if "fits_block ((pre @ step_key b) @ ''/'') (bx_steps ex) e"
    using that block_under.block [OF ex(1)] by (fastforce simp: fits_block_def)
  ultimately show ?case using set_update [of e "pre @ step_key b" ex acc] by auto
next
  case (4 pre b s steps acc)
  show ?case
  proof (cases steps)
    case None
    then show ?thesis using "4.prems" by simp
  next
    case (Some ss)
    then have "e \<in> set acc \<or> fits_block (pre @ step_key b @ ''/'') ss e"
      using "4.IH" [of ss] "4.prems" by simp
    then show ?thesis unfolding Some by (simp add: fits_block_def) blast
  qed
next
  case (5 pre b s child acc)
  then have "e \<in> set acc \<or> fits_block (pre @ step_key b @ ''/'') [child] e" by simp
  then show ?case by (simp add: fits_block_def)
qed simp_all

lemma keys_update: "fst ` set (AList.update k v xs) = insert k (fst ` set xs)"
  by (induction xs) auto

lemma snap_grows:
  "snap_steps pre ss acc = Inr out \<Longrightarrow> fst ` set acc \<subseteq> fst ` set out"
  "snap_step pre t acc = Inr out \<Longrightarrow> fst ` set acc \<subseteq> fst ` set out"
proof (induction pre ss acc and pre t acc arbitrary: out and out rule: snap_steps_snap_step.induct)
  case (2 pre s ss acc)
  then obtain acc' where "snap_step pre s acc = Inr acc'" "snap_steps pre ss acc' = Inr out" by (auto split: sum.splits)
  with "2.IH" show ?case by blast
next
  case (3 pre b s acc)
  then obtain ex where ex: "expandPipelineBlock b s = Inr ex"
    "snap_steps ((pre @ step_key b) @ ''/'') (bx_steps ex) (AList.update (pre @ step_key b) ex acc) = Inr out"
    by (auto simp: Let_def split: sum.splits)
  show ?case using "3.IH" [OF refl ex] by (simp add: keys_update)
next
  case (4 pre b s steps acc)
  then show ?case by (cases steps) simp_all
qed simp_all

lemma snap_complete:
  "snap_steps pre ss acc = Inr out \<Longrightarrow> st \<in> set ss \<Longrightarrow> block_under pre st k b bs \<Longrightarrow> k \<in> fst ` set out"
  "snap_step pre t acc = Inr out \<Longrightarrow> block_under pre t k b bs \<Longrightarrow> k \<in> fst ` set out"
proof (induction pre ss acc and pre t acc arbitrary: out st and out rule: snap_steps_snap_step.induct)
  case (2 pre s ss acc)
  then obtain acc' where acc': "snap_step pre s acc = Inr acc'" "snap_steps pre ss acc' = Inr out" by (auto split: sum.splits)
  show ?case
  proof (cases "st = s")
    case True
    then show ?thesis using "2.IH"(1) [OF acc'(1)] "2.prems"(3) snap_grows(1) [OF acc'(2)] by blast
  next
    case False
    then show ?thesis using "2.IH"(2) [OF acc' _ "2.prems"(3)] "2.prems"(2) by simp
  qed
next
  case (3 pre b' s acc)
  then obtain ex where ex: "expandPipelineBlock b' s = Inr ex"
    "snap_steps ((pre @ step_key b') @ ''/'') (bx_steps ex) (AList.update (pre @ step_key b') ex acc) = Inr out"
    by (auto simp: Let_def split: sum.splits)
  from "3.prems"(2) show ?case
  proof (cases rule: block_under.cases)
    case here
    then show ?thesis using snap_grows(1) [OF ex(2)] by (simp add: keys_update)
  next
    case (block ex' st')
    then show ?thesis using "3.IH" [OF refl ex] ex(1) by simp
  qed
next
  case (4 pre b' s steps acc)
  then show ?case by (cases steps) auto
next
  case (5 pre b' s child acc)
  then show ?case by simp
qed (auto elim: block_under.cases)

lemma comes_to_under:
  assumes snap: "snapshot s runId = Some sn" and pinned: "snapshotPipelineBlocks steps = Inr (cx_blockExpansions (sn_context sn))"
  shows "comes_to s runId steps cx st \<Longrightarrow> x_runId cx = runId \<and>
     (\<forall>k b bs. block_under (x_logicalPrefix cx) st k b bs \<longrightarrow> (\<exists>t \<in> set steps. block_under [] t k b bs))"
proof (induction rule: comes_to.induct)
  case (at_top st)
  then show ?case by (auto simp: top_ctx_def)
next
  case (in_round cx b lo ss st i p)
  then show ?case by (simp add: child_ctx_def) blast
next
  case (in_block cx b bs ex st i)
  let ?k = "x_logicalPrefix cx @ step_key b"
  have "(?k, ex) \<in> set (cx_blockExpansions (sn_context sn))"
    using in_block snap by (simp add: find_expansion_def logical_key_def map_of_SomeD)
  then have "fits_block [] steps (?k, ex)"
    using snap_sound(1) [OF pinned [unfolded snapshotPipelineBlocks_def]] by fastforce
  then obtain t b1 bs1 where t: "t \<in> set steps" "block_under [] t ?k b1 bs1" "expandPipelineBlock b1 bs1 = Inr ex"
    by (auto simp: fits_block_def)
  have "\<exists>t \<in> set steps. block_under [] t k b' bs'" if "block_under (?k @ ''/'') st k b' bs'" for k b' bs'
    using block_under_expansion [OF t(2,3) in_block.hyps(3) that] t(1) by blast
  then show ?case using in_block.IH by (simp add: child_ctx_def)
qed

text \<open>
  C30: In a run whose blocks were pinned when it was created, the runner finds an expansion for
  every block step it comes to, however deep it lies in nested loops and in the expansions of other
  blocks: at the key and in the run it looks it up with. What it finds is the expansion of a block of the
  pipeline with this key; so it is the expansion of the step itself when no other block has its key.
\<close>

theorem snapshot_covers_blocks:
  assumes "snapshot s runId = Some sn" and "snapshotPipelineBlocks steps = Inr (cx_blockExpansions (sn_context sn))"
    and "comes_to s runId steps cx (BlockStep b bs)"
  shows "\<exists>ex b' bs'. find_expansion s (x_runId cx) (logical_key cx (BlockStep b bs)) = Some ex \<and>
     expandPipelineBlock b' bs' = Inr ex \<and> (\<exists>t \<in> set steps. block_under [] t (logical_key cx (BlockStep b bs)) b' bs') \<and>
     ((\<forall>t \<in> set steps. \<forall>b1 bs1. block_under [] t (logical_key cx (BlockStep b bs)) b1 bs1 \<longrightarrow> b1 = b \<and> bs1 = bs) \<longrightarrow>
        expandPipelineBlock b bs = Inr ex)"
proof -
  let ?k = "x_logicalPrefix cx @ step_key b"
  obtain t where t: "x_runId cx = runId" "t \<in> set steps" "block_under [] t ?k b bs"
    using comes_to_under [OF assms] block_under.here by blast
  have "?k \<in> fst ` set (cx_blockExpansions (sn_context sn))"
    using snap_complete(1) [OF assms(2) [unfolded snapshotPipelineBlocks_def] t(2,3)] .
  then obtain ex where ex: "map_of (cx_blockExpansions (sn_context sn)) ?k = Some ex"
    by (metis map_of_eq_None_iff not_None_eq)
  then have "fits_block [] steps (?k, ex)"
    using snap_sound(1) [OF assms(2) [unfolded snapshotPipelineBlocks_def] map_of_SomeD] by fastforce
  then obtain u b' bs' where u: "u \<in> set steps" "block_under [] u ?k b' bs'" "expandPipelineBlock b' bs' = Inr ex"
    by (auto simp: fits_block_def)
  have k: "logical_key cx (BlockStep b bs) = ?k" by (simp add: logical_key_def)
  have "find_expansion s (x_runId cx) ?k = Some ex" using t(1) assms(1) ex by (simp add: find_expansion_def)
  with u show ?thesis unfolding k by blast
qed

text \<open>A run of a pipeline whose nested loop holds a block.\<close>

definition pinned_loop :: pstore where
  "pinned_loop = empty_store\<lparr>db_snapshots := [\<lparr>sn_runId = 0, sn_definition = \<lparr>pd_id = ''sample'', pd_slug = ''sample'',
       pd_name = ''sample'', pd_scope = Shared, pd_ownerAlias = None, pd_path = ''sample.json'',
       pd_spec = sample_pipeline [sample_loop]\<rparr>,
     sn_context = \<lparr>cx_blockExpansions = (case snapshotPipelineBlocks [sample_loop] of Inl _ \<Rightarrow> [] | Inr bx \<Rightarrow> bx),
       cx_functionHashes = None, cx_initiatingAgentProfileId = None, cx_initiatingAgentNpub = None\<rparr>\<rparr>]\<rparr>"

theorem snapshot_covers_blocks_witness:
  "\<exists>ex b bs. find_expansion pinned_loop 0 ''again/invite'' = Some ex \<and> expandPipelineBlock b bs = Inr ex"
proof -
  obtain sn where sn: "snapshot pinned_loop 0 = Some sn"
      "cx_blockExpansions (sn_context sn) = (case snapshotPipelineBlocks [sample_loop] of Inl _ \<Rightarrow> [] | Inr bx \<Rightarrow> bx)"
    by (simp add: pinned_loop_def snapshot_def)
  have "\<exists>bs. snapshotPipelineBlocks [sample_loop] = Inr bs"
    by (cases "snapshotPipelineBlocks [sample_loop]") (simp_all, code_simp)
  with sn(2) have pins: "snapshotPipelineBlocks [sample_loop] = Inr (cx_blockExpansions (sn_context sn))" by auto
  have "comes_to pinned_loop 0 [sample_loop] (top_ctx 0 [sample_loop]) sample_loop" by (simp add: comes_to.at_top)
  from comes_to.in_round [OF this [unfolded sample_loop_def], where st = sample_block and i = 7 and p = "Some ''again #1''"]
  have "comes_to pinned_loop 0 [sample_loop] ((child_ctx (top_ctx 0 [sample_loop]) sample_loop 7)\<lparr>x_namePrefix := Some ''again #1''\<rparr>)
      (BlockStep (sample_base ''invite'') \<lparr>bl_block = ''flightdeck.threadInvocation'', bl_config = None\<rparr>)"
    by (simp add: sample_loop_def sample_block_def)
  from snapshot_covers_blocks [OF sn(1) pins this] show ?thesis
    by (auto simp: child_ctx_def top_ctx_def logical_key_def step_key_def sample_loop_def sample_base_def)
qed

text \<open>
  Nothing keeps two block steps from having the same key: the later expansion replaces the earlier one,
  and the runner gives it to both steps.
\<close>

definition two_blocks :: "dstep list" where
  "two_blocks = [BlockStep (sample_base ''reply'') \<lparr>bl_block = ''flightdeck.threadInvocation'', bl_config = None\<rparr>,
     BlockStep (sample_base ''reply'') \<lparr>bl_block = ''memory.graphContext'', bl_config = None\<rparr>]"

lemma same_key_blocks_share:
  "\<exists>bx e1 e2. snapshotPipelineBlocks two_blocks = Inr bx \<and> map_of bx ''reply'' = Some e2 \<and>
     expandPipelineBlock (sample_base ''reply'') \<lparr>bl_block = ''flightdeck.threadInvocation'', bl_config = None\<rparr> = Inr e1 \<and>
     expandPipelineBlock (sample_base ''reply'') \<lparr>bl_block = ''memory.graphContext'', bl_config = None\<rparr> = Inr e2 \<and>
     length (bx_steps e1) \<noteq> length (bx_steps e2)"
  by (simp add: two_blocks_def snapshotPipelineBlocks_def expandPipelineBlock_def block_steps_def Let_def sample_base_def
      graphContext_steps_def threadInvocation_steps_def step_key_def)

text \<open>
  C39: The function hashes a run is created with are accepted as long as the registry is unchanged,
  and refused as soon as one pinned function has another hash or none.
\<close>

theorem function_pins_roundtrip:
  assumes "pipelineFunctionHashes hash_of spec = Inr hs"
  shows "assertPipelineFunctionPins hash_of (Some hs) = None \<and>
     ((\<exists>(n, h) \<in> set hs. hash' n \<noteq> Some h) \<longrightarrow> assertPipelineFunctionPins hash' (Some hs) \<noteq> None)"
proof -
  have "pins_true hash_of hs"
    using assms hash_true(1) unfolding pipelineFunctionHashes_def by (auto simp: pins_true_def)
  moreover have "\<not> pins_true hash' hs" if "\<exists>(n, h) \<in> set hs. hash' n \<noteq> Some h"
    using that by (auto simp: pins_true_def list_all_iff)
  ultimately show ?thesis using pins_accept by blast
qed

theorem function_pins_roundtrip_witness:
  "\<exists>hs. pipelineFunctionHashes (\<lambda>_. Some ''h1'') (sample_pipeline [sample_code]) = Inr hs \<and>
     assertPipelineFunctionPins (\<lambda>_. Some ''h1'') (Some hs) = None \<and>
     assertPipelineFunctionPins (\<lambda>_. Some ''h2'') (Some hs) \<noteq> None"
proof -
  have "pipelineFunctionHashes (\<lambda>_. Some ''h1'') (sample_pipeline [sample_code]) = Inr [(''f'', ''h1'')]"
    by code_simp
  from function_pins_roundtrip [OF this, of "\<lambda>_. Some ''h2''"] this show ?thesis by simp
qed

text \<open>
  A definition that passes the validation has its child pipelines at the top level only: no
  step inside a loop or a parallel step, at any depth, is a pipeline step.
\<close>

fun nested_steps :: "dstep \<Rightarrow> dstep list" where
  "nested_steps (LoopStep b l steps) = (case steps of None \<Rightarrow> [] | Some ss \<Rightarrow> ss @ concat (map nested_steps ss))"
| "nested_steps (ParallelStep b p template) = template # nested_steps template"
| "nested_steps _ = []"

lemma visit_nested:
  "visit_child_step nested st = None \<Longrightarrow> (nested \<longrightarrow> step_type st \<noteq> ''pipeline'') \<and>
     (\<forall>x \<in> set (nested_steps st). step_type x \<noteq> ''pipeline'')"
proof (induction nested st rule: visit_child_step.induct)
  case (2 nested b l steps)
  then show ?case by (cases steps) (fastforce simp: first_error_None)+
qed auto

theorem child_pipelines_top_level:
  assumes "validateChildPipelineSteps parse spec = None" and "st \<in> set (dp_steps spec)"
    and "x \<in> set (nested_steps st)"
  shows "step_type x \<noteq> ''pipeline''"
proof -
  have "visit_child_step False st = None"
    using assms(1,2) by (auto simp: validateChildPipelineSteps_def first_error_None split: option.splits)
  with visit_nested assms(3) show ?thesis by blast
qed

theorem child_pipelines_top_level_witness:
  "step_type sample_code \<noteq> ''pipeline'' \<and>
   validateChildPipelineSteps (\<lambda>_. None) (sample_pipeline [sample_child, sample_loop]) = None"
proof -
  have ok: "validateChildPipelineSteps (\<lambda>_. None) (sample_pipeline [sample_child, sample_loop]) = None"
    by code_simp
  have "sample_loop \<in> set (dp_steps (sample_pipeline [sample_child, sample_loop]))"
    by (simp add: sample_pipeline_def)
  moreover have "sample_code \<in> set (nested_steps sample_loop)" by (simp add: sample_loop_def)
  ultimately show ?thesis using child_pipelines_top_level [OF ok] ok by blast
qed

text \<open>
  A block expands to at most three steps, none of which is a block or a loop; so expanding a
  pipeline's blocks ends.
\<close>

theorem block_expansion_flat:
  assumes "expandPipelineBlock b s = Inr e"
  shows "length (bx_steps e) \<le> 3 \<and> list_all flat_step (bx_steps e) \<and> weights (bx_steps e) < 20"
  using assms by (simp add: expandPipelineBlock_flat expansion_weights)

theorem block_expansion_flat_witness:
  "\<exists>e. expandPipelineBlock (sample_base ''invite'') \<lparr>bl_block = ''flightdeck.threadInvocation'', bl_config = None\<rparr> = Inr e \<and>
     length (bx_steps e) \<le> 3"
proof -
  have "\<exists>e. expandPipelineBlock (sample_base ''invite'') \<lparr>bl_block = ''flightdeck.threadInvocation'', bl_config = None\<rparr> = Inr e"
    by (simp add: expandPipelineBlock_def block_steps_def Let_def)
  then show ?thesis using block_expansion_flat by blast
qed

section \<open>Settings\<close>

text \<open>
  Whatever a step, the run's state and the process environment say, every setting is in its
  documented range: iterations 1 to 200, durations a second to a day, classifier attempts 1 to 5,
  agent attempts 1 to 6, at most 200 children and never more than the process allows, at most 50
  and never more than that of them starting, at most 10 startup retries a minute apart, a poll at
  least every second.
\<close>

theorem settings_in_range:
  "resolveIterationCount current v \<in> {1..200} \<and> resolveDurationMs current w CALLBACK_TIMEOUT_MS \<in> {1000..86400000} \<and>
   resolveDurationMs current w DEFAULT_CLASSIFIER_TIMEOUT_MS \<in> {1000..86400000} \<and>
   resolveClassifierAttempts current w \<in> {1..5} \<and> resolveAgentStepMaxAttempts env \<in> {1..6} \<and>
   lm_maxConcurrency (parallel_limits env current ps) \<in> {1..200} \<and>
   int (lm_maxConcurrency (parallel_limits env current ps)) \<le> env_limit env ''PIPELINE_MAX_PARALLEL_SESSIONS'' 1 21 \<and>
   lm_agentLaunch (parallel_limits env current ps) \<in> {1..min 50 (lm_maxConcurrency (parallel_limits env current ps))} \<and>
   lm_retries (parallel_limits env current ps) \<le> 10 \<and> lm_backoffMs (parallel_limits env current ps) \<le> 60000 \<and>
   resolveParallelPollMs env \<in> {1..1000}"
proof -
  have c: "1 \<le> lm_maxConcurrency (parallel_limits env current ps)"
    using resolveParallelConcurrency_bounds by (simp add: parallel_limits_def Let_def)
  show ?thesis
    using resolveIterationCount_bounds [of current v] resolveClassifierAttempts_bounds [of current w]
      resolveAgentStepMaxAttempts_bounds [of env] resolveDurationMs_bounds [of CALLBACK_TIMEOUT_MS current w]
      resolveDurationMs_bounds [of DEFAULT_CLASSIFIER_TIMEOUT_MS current w]
      resolveParallelConcurrency_bounds [of env current "pa_maxConcurrency ps"]
      resolveAgentLaunchConcurrency_bounds [OF c, of env current "pa_agentLaunchConcurrency ps"]
      resolveAgentStartup_bounds(1) [of env current "pa_agentStartupRetries ps"]
      resolveAgentStartup_bounds(2) [of env current "pa_agentStartupRetryBackoffMs ps"]
      resolveAgentStartup_bounds(3) [of env]
    by (simp add: parallel_limits_def Let_def CALLBACK_TIMEOUT_MS_def DEFAULT_CLASSIFIER_TIMEOUT_MS_def)
qed

section \<open>Parallel items\<close>

text \<open>
  Items whose own keys hold no number sign get pairwise distinct keys, so every item finds its
  child; items with distinct keys keep them.
\<close>

definition item_keys :: "obj \<Rightarrow> jval list \<Rightarrow> string option \<Rightarrow> string list" where
  "item_keys current items itemKey =
     map (\<lambda>(index, item). resolveParallelItemKey current item index itemKey) (enumerate 0 items)"

theorem parallel_keys_distinct:
  assumes "\<forall>k \<in> set (item_keys current items itemKey). CHR ''#'' \<notin> set k"
  shows "distinct (resolveParallelItemKeys current items itemKey) \<and>
     length (resolveParallelItemKeys current items itemKey) = length items \<and>
     (distinct (item_keys current items itemKey) \<longrightarrow>
        resolveParallelItemKeys current items itemKey = item_keys current items itemKey)"
  using number_keys_distinct [of "item_keys current items itemKey" "\<lambda>_. 0"] assms
    number_keys_distinct_bases [of "item_keys current items itemKey" "\<lambda>_. 0"]
  by (auto simp: resolveParallelItemKeys_def item_keys_def)

theorem parallel_keys_distinct_witness:
  "distinct (resolveParallelItemKeys [] [JStr ''a'', JStr ''a'', JStr ''b''] (Some ''$item''))"
  using parallel_keys_distinct [of "[]" "[JStr ''a'', JStr ''a'', JStr ''b'']" "Some ''$item''"]
  by (simp add: item_keys_def resolveParallelItemKey_def resolveScopedPath_def nonempty_def Let_def)

end
