(* ===== verification/Authority_Contract.thy ===== *)
theory Authority_Contract
  imports Samples
begin

text \<open>
  What the walks along the composition links promise, and what a callback may do: the authority of
  a run ends at one root, an ancestor that stopped or passed its deadline stops its descendants,
  the nesting of child pipelines is bounded, and a step is answered once and by its token's holder.
\<close>

section \<open>Authority\<close>

lemma root_older:
  "above s i ls \<Longrightarrow> store_ok s \<Longrightarrow> ls \<noteq> [] \<Longrightarrow> lk_parentRunId (last ls) < i"
proof (induction rule: above.induct)
  case (up i l ls)
  then show ?case using parent_older [OF up.prems(1) up.hyps(1)] by (cases ls) auto
qed simp

text \<open>
  C28: On a well-formed database the walk to the root of a run ends, at a run without a parent that
  is at most as young as the run itself; the check of the ancestors ends, and passes exactly when
  every run above is running and every deadline on the way lies ahead.
\<close>

theorem authority_walk_total:
  assumes "store_ok s"
  shows "\<exists>r ls. rootPipelineRunId s i = Some r \<and> parent s r = None \<and> (r = i \<or> r < i) \<and> above s i ls \<and>
     assertPipelineAncestorsRunning i s \<noteq> Some Diverge \<and>
     (assertPipelineAncestorsRunning i s = None \<longleftrightarrow>
        (\<forall>l \<in> set ls. is_running s (lk_parentRunId l) \<and> db_clock s < lk_deadline l))"
proof -
  obtain ls where ls: "above s i ls" "length ls \<le> length (db_links s)"
    using above_bounded [OF assms] by blast
  obtain r where r: "rootPipelineRunId s i = Some r" "parent s r = None"
    using root_defined [OF assms] by blast
  from root_above [OF ls(1)] ls(2) r(1)
  have "r = (case ls of [] \<Rightarrow> i | _ \<Rightarrow> lk_parentRunId (last ls))"
    by (simp add: rootPipelineRunId_def del: root_fuel.simps)
  with root_older [OF ls(1) assms] have "r = i \<or> r < i" by (cases ls) auto
  with r ls(1) assertAncestors_iff [OF assms ls(1)] assertAncestors_no_diverge [OF assms]
  show ?thesis by (auto simp: list_all_iff)
qed

theorem authority_walk_total_witness:
  "\<exists>r. rootPipelineRunId family 1 = Some r \<and> parent family r = None"
  using authority_walk_total [OF family_ok, of 1] by blast

text \<open>A run that runs another definition, by its id and by the name that was pinned with it.\<close>

definition free_of :: "definition_record \<Rightarrow> pstore \<Rightarrow> uuid \<Rightarrow> bool" where
  "free_of d s j \<longleftrightarrow> (\<exists>run. getRun s j = Some run \<and> r_definitionId run \<noteq> pd_id d \<and>
     (\<forall>sn. snapshot s j = Some sn \<longrightarrow> pd_name (sn_definition sn) \<noteq> pd_name d))"

lemma ancestry_walk_iff:
  "above s i ls \<Longrightarrow> length ls < n \<Longrightarrow> ancestry_walk n depth i d s = None \<longleftrightarrow>
     depth + Suc (length ls) \<le> MAX_CHILD_PIPELINE_DEPTH \<and> (\<forall>j \<in> insert i (lk_parentRunId ` set ls). free_of d s j)"
proof (induction arbitrary: n depth rule: above.induct)
  case (top i)
  then show ?case by (cases n) (auto simp: free_of_def split: option.splits)
next
  case (up i l ls)
  obtain m where m: "n = Suc m" "length ls < m" using up.prems by (cases n) auto
  from up.IH [OF m(2), of "Suc depth"] up.hyps(1) show ?case
    by (auto simp: m(1) free_of_def split: option.splits if_splits)
qed


definition other_definition :: definition_record where
  "other_definition = \<lparr>pd_id = ''other'', pd_slug = ''other'', pd_name = ''other'', pd_scope = Shared,
     pd_ownerAlias = None, pd_path = ''other.json'', pd_spec = sample_pipeline [sample_code]\<rparr>"


section \<open>Callbacks\<close>

lemma log_callback_frame [simp]:
  "getRun (log_callback i acc pl e s) = getRun s" "getStep (log_callback i acc pl e s) = getStep s"
  by (auto simp: log_callback_def addCallback_def getRun_def getStep_def fun_eq_iff split: option.splits if_splits)

lemma completeStep_callbacks: "completeStep c s = Some t \<Longrightarrow> db_callbacks t = db_callbacks s"
  by (erule completeStep_SomeE)
    (simp add: complete_event_def capture_completion_def write_control_flow_def complete_update_def Let_def addEvent_def
      split: option.splits)

lemma callback_status_range: "callback_status v = Some st \<Longrightarrow> st \<in> {Ok, NeedsInput, Errored}"
  by (cases v) (auto split: if_splits)

lemma parse_status: "parseAgentCallbackPayload p r i = CallbackOk stat res err \<Longrightarrow> stat \<in> {Ok, NeedsInput, Errored}"
  by (auto simp: parseAgentCallbackPayload_def split: option.splits if_splits dest: callback_status_range)

text \<open>What a callback of a known step leaves in the log: one entry, and nothing else of the database.\<close>

definition logged :: "uuid \<Rightarrow> bool \<Rightarrow> jval \<Rightarrow> string option \<Rightarrow> pstore \<Rightarrow> pstore" where
  "logged i acc payload e s = s\<lparr>db_callbacks := db_callbacks s @ [\<lparr>cb_id = db_nextId s, cb_stepId = i,
     cb_receivedAt = db_clock s, cb_accepted = acc, cb_payload = stored (payloadObject payload), cb_error = e\<rparr>],
     db_nextId := Suc (db_nextId s)\<rparr>"

lemma log_callback_logged: "getStep s i \<noteq> None \<Longrightarrow> log_callback i acc payload e s = logged i acc payload e s"
  by (simp add: log_callback_def addCallback_def logged_def)

text \<open>The step and the token of a callback: a step of the run, and the token it was given.\<close>

definition step_of_run :: "uuid \<Rightarrow> uuid \<Rightarrow> pstore \<Rightarrow> step_row \<Rightarrow> bool" where
  "step_of_run runId stepId s st \<longleftrightarrow> getStep s stepId = Some st \<and> st_runId st = runId"

definition holds_token :: "string option \<Rightarrow> step_row \<Rightarrow> bool" where
  "holds_token token st \<longleftrightarrow> st_callbackToken st = token \<and> token_or_empty token \<noteq> []"

definition callback_accepted :: "uuid \<Rightarrow> uuid \<Rightarrow> string option \<Rightarrow> jval \<Rightarrow> pstore \<Rightarrow> bool" where
  "callback_accepted runId stepId token payload s \<longleftrightarrow>
     (\<exists>st stat res err. step_of_run runId stepId s st \<and> holds_token token st \<and> st_status st = Running \<and>
        parseAgentCallbackPayload payload runId stepId = CallbackOk stat res err)"

text \<open>A refusal of a known step's callback, with its reason in the reply and in the log.\<close>

definition refused_for :: "nat \<Rightarrow> string \<Rightarrow> uuid \<Rightarrow> jval \<Rightarrow> pstore \<Rightarrow> reply \<Rightarrow> pstore \<Rightarrow> bool" where
  "refused_for code msg stepId payload s rep t \<longleftrightarrow>
     \<not> re_ok rep \<and> re_status rep = code \<and> re_body rep = [(''error'', JStr msg)] \<and> t = logged stepId False payload (Some msg) s"

lemma callback_refusals:
  assumes "acceptAgentCallback runId stepId token payload s = (rep, t)" and "\<not> callback_accepted runId stepId token payload s"
  shows "(\<nexists>st. step_of_run runId stepId s st) \<Longrightarrow> \<not> re_ok rep \<and> re_status rep = 404 \<and> t = s"
    and "step_of_run runId stepId s st \<Longrightarrow> \<not> holds_token token st \<Longrightarrow>
      refused_for 401 ''Invalid callback token'' stepId payload s rep t"
    and "step_of_run runId stepId s st \<Longrightarrow> holds_token token st \<Longrightarrow> st_status st \<noteq> Running \<Longrightarrow>
      refused_for 409 (''Step is not accepting callbacks while '' @ status_text (st_status st)) stepId payload s rep t"
    and "step_of_run runId stepId s st \<Longrightarrow> holds_token token st \<Longrightarrow> st_status st = Running \<Longrightarrow>
      \<exists>msg. parseAgentCallbackPayload payload runId stepId = CallbackError msg \<and> refused_for 400 msg stepId payload s rep t"
  using assms
  by (auto simp: acceptAgentCallback_def callback_accepted_def step_of_run_def holds_token_def refused_for_def refuse_def
      Let_def log_callback_logged split: option.splits if_splits callback_parse.splits)

lemma duplicate_refused:
  assumes "step_of_run runId stepId s st" and "st_status st \<noteq> Running"
    and "acceptAgentCallback runId stepId token payload s = (rep, u)"
  shows "\<not> re_ok rep \<and> re_status rep = (if holds_token token st then 409 else 401) \<and> getStep u stepId = Some st"
proof -
  have n: "\<not> callback_accepted runId stepId token payload s"
    using assms(1,2) by (auto simp: callback_accepted_def step_of_run_def)
  have "getStep u stepId = getStep s stepId"
    using assms n by (auto simp: acceptAgentCallback_def refuse_def Let_def step_of_run_def split: if_splits)
  with callback_refusals(2,3) [OF assms(3) n assms(1)] assms(1,2) show ?thesis
    by (auto simp: refused_for_def step_of_run_def)
qed

text \<open>
  C9: A callback closes its step exactly when the step belongs to the run, the token is the step's,
  the step is running and the payload names the run, the step, a status and a result object: the
  reply is 200, the step carries the reported status and result, one accepted entry is logged, no
  other step and no run changes, and every later callback of the step changes no step and is
  refused, with 409 when it shows the token and 401 when it does not. Otherwise nothing changes but
  the log, which gets one refused entry with the reason that the reply gives: 401 for the token, 409
  for a step that is not running, 400 for the payload. A step unknown in the run is refused with
  404, and is not logged.
\<close>

theorem callback_closes_step_once:
  assumes "acceptAgentCallback runId stepId token payload s = (rep, t)"
  shows "if callback_accepted runId stepId token payload s
     then re_ok rep \<and> re_status rep = 200 \<and> getRun t = getRun s \<and>
       (\<forall>j. j \<noteq> stepId \<longrightarrow> getStep t j = getStep s j) \<and>
       db_callbacks t = db_callbacks (logged stepId True payload None s) \<and>
       (\<exists>st stat res err. parseAgentCallbackPayload payload runId stepId = CallbackOk stat res err \<and>
          step_of_run runId stepId t st \<and> st_status st = stat \<and> stat \<in> {Ok, NeedsInput, Errored} \<and>
          st_result st = Some (stored res) \<and>
          (\<forall>token' payload' rep' u. acceptAgentCallback runId stepId token' payload' t = (rep', u) \<longrightarrow>
             \<not> re_ok rep' \<and> re_status rep' = (if token' = token then 409 else 401) \<and> getStep u stepId = Some st))
     else if \<exists>st. step_of_run runId stepId s st
     then \<exists>st. step_of_run runId stepId s st \<and>
       (if \<not> holds_token token st then refused_for 401 ''Invalid callback token'' stepId payload s rep t
        else if st_status st \<noteq> Running
        then refused_for 409 (''Step is not accepting callbacks while '' @ status_text (st_status st)) stepId payload s rep t
        else \<exists>msg. parseAgentCallbackPayload payload runId stepId = CallbackError msg \<and>
          refused_for 400 msg stepId payload s rep t)
     else \<not> re_ok rep \<and> re_status rep = 404 \<and> t = s"
proof (cases "callback_accepted runId stepId token payload s")
  case True
  then obtain st stat res err where st: "getStep s stepId = Some st" "st_runId st = runId"
    "st_callbackToken st = token" "token_or_empty token \<noteq> []" "st_status st = Running"
    and p: "parseAgentCallbackPayload payload runId stepId = CallbackOk stat res err"
    by (auto simp: callback_accepted_def step_of_run_def holds_token_def)
  let ?s = "log_callback stepId True payload None s"
  let ?c = "\<lparr>cp_id = stepId, cp_status = stat, cp_result = Some res, cp_output = Some res, cp_error = err, cp_session = None\<rparr>"
  have st': "getStep ?s (cp_id ?c) = Some st" using st(1) by simp
  then obtain u where u: "completeStep ?c ?s = Some u" using completeStep_defined [of ?c ?s] by auto
  from assms u st p have rt: "t = u" "re_ok rep" "re_status rep = 200"
    by (auto simp: acceptAgentCallback_def Let_def)
  obtain r where r: "step_of_run runId stepId u r" "st_status r = stat" "st_result r = Some (stored res)"
    "st_callbackToken r = token"
    using getStep_completeStep [OF u st'] st(2,3,5) by (auto simp: step_of_run_def)
  have stat: "stat \<in> {Ok, NeedsInput, Errored}" using parse_status [OF p] .
  then have "st_status r \<noteq> Running" using r(2) by auto
  from duplicate_refused [OF r(1) this] r(4) st(4)
  have "\<forall>token' payload' rep' w. acceptAgentCallback runId stepId token' payload' u = (rep', w) \<longrightarrow>
     \<not> re_ok rep' \<and> re_status rep' = (if token' = token then 409 else 401) \<and> getStep w stepId = Some r"
    by (auto simp: holds_token_def)
  moreover have "db_callbacks u = db_callbacks (logged stepId True payload None s)"
    using completeStep_callbacks [OF u] log_callback_logged [of s stepId] st(1) by simp
  moreover have "getRun u = getRun s" using getRun_completeStep [OF u] by simp
  moreover have "\<forall>j. j \<noteq> stepId \<longrightarrow> getStep u j = getStep s j" using getStep_completeStep_other [OF u] by simp
  ultimately show ?thesis
    unfolding rt(1) if_P [OF True] using rt(2,3) r stat p by blast
next
  case False
  note refused = callback_refusals [OF assms False]
  show ?thesis
  proof (cases "\<exists>st. step_of_run runId stepId s st")
    case True
    then obtain st where "step_of_run runId stepId s st" by blast
    with refused(2-4) [of st] False show ?thesis by auto
  qed (use refused(1) False in simp)
qed

definition sample_callback :: jval where
  "sample_callback = JObj [(''runId'', JStr ''1''), (''stepId'', JStr ''3''), (''status'', JStr ''ok''),
     (''result'', JObj [(''answer'', JStr ''yes'')])]"

theorem callback_closes_step_once_witness:
  "\<exists>st. getStep (snd (acceptAgentCallback 1 3 (Some ''token'') sample_callback family)) 3 = Some st \<and> st_status st = Ok"
proof -
  have p: "parseAgentCallbackPayload sample_callback 1 3 = CallbackOk Ok [(''answer'', JStr ''yes'')] None" by code_simp
  then have acc: "callback_accepted 1 3 (Some ''token'') sample_callback family"
    by (simp add: callback_accepted_def step_of_run_def holds_token_def sample_step_def token_or_empty_def)
  obtain rep t where t: "acceptAgentCallback 1 3 (Some ''token'') sample_callback family = (rep, t)" by fastforce
  from callback_closes_step_once [OF t] acc p t show ?thesis by (auto simp: step_of_run_def)
qed

end
