(* ===== verification/Run_Safety.thy ===== *)
theory Run_Safety
  imports Run_Execution
begin

text \<open>
  The judgement the runner is proved safe in. From a well-formed database every piece of it leads
  to a well-formed database by moves that keep settled outcomes, the identity, order and
  cancellation of steps, the logs and the clock; and the exceptions it ends with are excused: the
  cancellation of a run is thrown only when the run is cancelled, and a loop that does not end is
  met only where the judgement allows it.
\<close>

section \<open>Moves\<close>

definition moves :: "pstore \<Rightarrow> pstore \<Rightarrow> bool" where
  "moves s t \<longleftrightarrow> settled_kept s t \<and> steps_kept s t \<and> logs_grow s t \<and> clock_le s t"

definition progress :: "pstore \<Rightarrow> pstore \<Rightarrow> bool" where
  "progress s t \<longleftrightarrow> (store_ok s \<longrightarrow> store_ok t \<and> moves s t)"

lemma progressI:
  "ok_kept s t \<Longrightarrow> settled_kept s t \<Longrightarrow> steps_kept s t \<Longrightarrow> logs_grow s t \<Longrightarrow> clock_le s t \<Longrightarrow> progress s t"
  by (simp add: progress_def moves_def ok_kept_def)

lemma moves_refl: "moves s s"
  by (simp add: moves_def settled.R_refl kept.R_refl logs.R_refl clock.R_refl)

lemma moves_trans: "moves s t \<Longrightarrow> moves t u \<Longrightarrow> moves s u"
  unfolding moves_def by (blast intro: settled.R_trans kept.R_trans logs.R_trans clock.R_trans)

interpretation progress: store_relation progress
proof unfold_locales
  fix s :: pstore show "progress s s" by (simp add: progress_def moves_refl)
next
  fix s t u show "progress s t \<Longrightarrow> progress t u \<Longrightarrow> progress s u"
    by (auto simp: progress_def intro: moves_trans)
next
  fix s a b c d e f show "progress s (addEvent a b c d e f s)"
    by (intro progressI ok.addEvent_R settled.addEvent_R kept.addEvent_R logs.addEvent_R clock.addEvent_R)
next
  fix s x y n k q v xs show "progress s (capture x y n k q v xs s)"
    by (intro progressI ok.capture_R settled.capture_R kept.capture_R logs.capture_R clock.capture_R)
next
  fix s w show "progress s (registerSecret w s)"
    by (intro progressI ok.registerSecret_R settled.registerSecret_R kept.registerSecret_R
        logs.registerSecret_R clock.registerSecret_R)
next
  fix cst s i t show "cs_status cst \<noteq> Some Cancelled \<Longrightarrow> createStep cst s = Some (i, t) \<Longrightarrow> progress s t"
    by (intro progressI) (blast intro: ok.createStep_R settled.createStep_R kept.createStep_R
        logs.createStep_R clock.createStep_R)+
next
  fix i s t st show "startStep i s = Some t \<Longrightarrow> getStep s i = Some st \<Longrightarrow> st_status st = Queued \<Longrightarrow> progress s t"
    by (intro progressI) (blast intro: ok.startStep_R settled.startStep_R kept.startStep_R
        logs.startStep_R clock.startStep_R)+
next
  fix s show "progress s (snd (fresh_uuid s))"
    by (intro progressI ok.fresh_R settled.fresh_R kept.fresh_R logs.fresh_R clock.fresh_R)
next
  fix cpl s t show "finished (cp_status cpl) \<Longrightarrow> completeStep cpl s = Some t \<Longrightarrow> progress s t"
    by (intro progressI) (blast intro: ok.completeStep_R settled.completeStep_R kept.completeStep_R
        logs.completeStep_R clock.completeStep_R)+
next
  fix stat s i res err show "stat \<noteq> Running \<Longrightarrow> progress s (completeRun i stat res err s)"
    by (intro progressI ok.completeRun_R settled.completeRun_R kept.completeRun_R logs.completeRun_R
        clock.completeRun_R)
next
  fix s i reason run show "is_running s i \<Longrightarrow> progress s (cancel_rows i reason run s)"
    by (intro progressI ok.cancel_rows_R settled.cancel_rows_R kept.cancel_rows_R logs.cancel_rows_R
        clock.cancel_rows_R)
next
  fix s i cur curs show "progress s (updateRunProgress i cur curs s)"
    by (intro progressI ok.updateRunProgress_R settled.updateRunProgress_R kept.updateRunProgress_R
        logs.updateRunProgress_R clock.updateRunProgress_R)
next
  fix s i act show "progress s (setRunActiveStep i act s)"
    by (intro progressI ok.setRunActiveStep_R settled.setRunActiveStep_R kept.setRunActiveStep_R
        logs.setRunActiveStep_R clock.setRunActiveStep_R)
next
  fix s i sess show "progress s (setStepSession i sess s)"
    by (intro progressI ok.setStepSession_R settled.setStepSession_R kept.setStepSession_R
        logs.setStepSession_R clock.setStepSession_R)
next
  fix s i tok show "progress s (setStepCallbackToken i tok s)"
    by (intro progressI ok.setStepCallbackToken_R settled.setStepCallbackToken_R
        kept.setStepCallbackToken_R logs.setStepCallbackToken_R clock.setStepCallbackToken_R)
next
  fix i acc pl err s t show "addCallback i acc pl err s = Some t \<Longrightarrow> progress s t"
    by (intro progressI) (blast intro: ok.addCallback_R settled.addCallback_R kept.addCallback_R
        logs.addCallback_R clock.addCallback_R)+
next
  fix s p r cr ch s1 stp dl def cx t
  show "getRun s p = Some r \<Longrightarrow> createRun cr s = (ch, s1) \<Longrightarrow>
    link \<lparr>lk_parentRunId = p, lk_parentStepId = stp, lk_childRunId = ch, lk_deadline = dl\<rparr>
      (pin ch def cx s1) = Some t \<Longrightarrow> progress s t"
    by (intro progressI) (blast intro: ok.spawn_R settled.spawn_R kept.spawn_R logs.spawn_R clock.spawn_R)+
next
  fix cr s ch s1 def cx show "createRun cr s = (ch, s1) \<Longrightarrow> progress s (pin ch def cx s1)"
    by (intro progressI ok.create_R settled.create_R kept.create_R logs.create_R clock.create_R)
qed

section \<open>The judgement\<close>

definition run_cancelled :: "pstore \<Rightarrow> uuid \<Rightarrow> bool" where
  "run_cancelled s i = (case getRun s i of None \<Rightarrow> False | Some r \<Rightarrow> r_status r = Cancelled)"

text \<open>
  \<open>d\<close> allows endless loops; \<open>Some i\<close> is the run whose cancellation may be thrown, \<open>None\<close> the
  inside of a promise whose exceptions are all caught.
\<close>

definition excused :: "bool \<Rightarrow> uuid option \<Rightarrow> exn \<Rightarrow> pstore \<Rightarrow> bool" where
  "excused d io e s = (case e of
     Stopped j \<Rightarrow> (case io of None \<Rightarrow> True | Some i \<Rightarrow> j = i \<and> run_cancelled s i)
   | Diverge \<Rightarrow> d
   | _ \<Rightarrow> True)"

lemma excused_simps [simp]:
  "excused d io (Err m) s" "excused d io (Halt h r m) s" "excused d io Diverge s = d"
  "excused d None (Stopped j) s" "excused d (Some i) (Stopped j) s = (j = i \<and> run_cancelled s i)"
  by (simp_all add: excused_def)

lemma run_cancelled_moves: "moves s t \<Longrightarrow> run_cancelled s i \<Longrightarrow> run_cancelled t i"
  by (fastforce simp: moves_def settled_kept_def run_cancelled_def outcome_of_def split: option.splits)

definition stable :: "(pstore \<Rightarrow> bool) \<Rightarrow> bool" where
  "stable F \<longleftrightarrow> (\<forall>s t. store_ok s \<longrightarrow> store_ok t \<longrightarrow> moves s t \<longrightarrow> F s \<longrightarrow> F t)"

lemma stableD: "stable F \<Longrightarrow> store_ok s \<Longrightarrow> store_ok t \<Longrightarrow> moves s t \<Longrightarrow> F s \<Longrightarrow> F t"
  by (auto simp: stable_def)

lemma stable_excused: "stable (excused d io e)"
  unfolding stable_def
  by (cases e) (auto simp: excused_def run_cancelled_moves split: option.splits)

lemma stable_conj: "stable F \<Longrightarrow> stable G \<Longrightarrow> stable (\<lambda>s. F s \<and> G s)"
  by (auto simp: stable_def)

lemma stable_const: "stable (\<lambda>_. b)"
  by (simp add: stable_def)

definition triple ::
  "bool \<Rightarrow> uuid option \<Rightarrow> (pstore \<Rightarrow> bool) \<Rightarrow> ('a, 'e) io \<Rightarrow> ('a \<Rightarrow> pstore \<Rightarrow> bool) \<Rightarrow> bool" where
  "triple d io P m Q \<longleftrightarrow> (\<forall>w. store_ok (w_store w) \<longrightarrow> P (w_store w) \<longrightarrow>
     store_ok (w_store (snd (m w))) \<and> moves (w_store w) (w_store (snd (m w))) \<and>
     (case fst (m w) of Inl e \<Rightarrow> excused d io e (w_store (snd (m w))) | Inr x \<Rightarrow> Q x (w_store (snd (m w)))))"

text \<open>The form most pieces have: a stable fact about the database is kept.\<close>

abbreviation safe :: "bool \<Rightarrow> uuid option \<Rightarrow> (pstore \<Rightarrow> bool) \<Rightarrow> ('a, 'e) io \<Rightarrow> bool" where
  "safe d io F m \<equiv> triple d io F m (\<lambda>_. F)"

text \<open>What the operations of the environment are assumed to be: moves, and no exception but an error.\<close>

definition calm :: "('a, 'e) io \<Rightarrow> bool" where
  "calm m \<longleftrightarrow> (\<forall>w. store_ok (w_store w) \<longrightarrow> store_ok (w_store (snd (m w))) \<and>
     moves (w_store w) (w_store (snd (m w))) \<and> (\<forall>e. fst (m w) = Inl e \<longrightarrow> (\<exists>msg. e = Err msg)))"

section \<open>Rules\<close>

lemma tripleI:
  fixes m :: "('a, 'e) io"
  assumes "\<And>w r w'. store_ok (w_store w) \<Longrightarrow> P (w_store w) \<Longrightarrow> m w = (r, w') \<Longrightarrow>
     store_ok (w_store w') \<and> moves (w_store w) (w_store w') \<and>
     (case r of Inl e \<Rightarrow> excused d io e (w_store w') | Inr x \<Rightarrow> Q x (w_store w'))"
  shows "triple d io P m Q"
  unfolding triple_def
proof (intro allI impI)
  fix w :: "'e world" assume w: "store_ok (w_store w)" "P (w_store w)"
  obtain r w' where m: "m w = (r, w')" by (cases "m w")
  show "store_ok (w_store (snd (m w))) \<and> moves (w_store w) (w_store (snd (m w))) \<and>
     (case fst (m w) of Inl e \<Rightarrow> excused d io e (w_store (snd (m w))) | Inr x \<Rightarrow> Q x (w_store (snd (m w))))"
    using assms [OF w m] m by (cases r) simp_all
qed

lemma tripleD:
  assumes "triple d io P m Q" and "store_ok (w_store w)" and "P (w_store w)" and "m w = (r, w')"
  shows "store_ok (w_store w')" and "moves (w_store w) (w_store w')"
    and "case r of Inl e \<Rightarrow> excused d io e (w_store w') | Inr x \<Rightarrow> Q x (w_store w')"
proof -
  have "store_ok (w_store (snd (m w))) \<and> moves (w_store w) (w_store (snd (m w))) \<and>
     (case fst (m w) of Inl e \<Rightarrow> excused d io e (w_store (snd (m w))) | Inr x \<Rightarrow> Q x (w_store (snd (m w))))"
    using assms(1) [unfolded triple_def, rule_format, OF assms(2,3)] .
  with assms(4) show "store_ok (w_store w')" "moves (w_store w) (w_store w')"
    "case r of Inl e \<Rightarrow> excused d io e (w_store w') | Inr x \<Rightarrow> Q x (w_store w')"
    by (cases r; simp)+
qed

lemma triple_weaken:
  assumes "triple d io P m Q" and "\<And>s. store_ok s \<Longrightarrow> P' s \<Longrightarrow> P s"
    and "\<And>x s. store_ok s \<Longrightarrow> Q x s \<Longrightarrow> Q' x s"
  shows "triple d io P' m Q'"
proof (rule tripleI)
  fix w r w' assume w: "store_ok (w_store w)" "P' (w_store w)" "m w = (r, w')"
  note 1 = tripleD [OF assms(1) w(1) assms(2) [OF w(1,2)] w(3)]
  show "store_ok (w_store w') \<and> moves (w_store w) (w_store w') \<and>
     (case r of Inl e \<Rightarrow> excused d io e (w_store w') | Inr x \<Rightarrow> Q' x (w_store w'))"
    using 1 assms(3) [OF 1(1)] by (cases r) simp_all
qed

lemma triple_frame:
  assumes "triple d io P m Q" and "stable F"
  shows "triple d io (\<lambda>s. P s \<and> F s) m (\<lambda>x s. Q x s \<and> F s)"
proof (rule tripleI)
  fix w r w' assume w: "store_ok (w_store w)" "P (w_store w) \<and> F (w_store w)" "m w = (r, w')"
  with tripleD [OF assms(1) w(1) _ w(3)] stableD [OF assms(2) w(1), of "w_store w'"]
  show "store_ok (w_store w') \<and> moves (w_store w) (w_store w') \<and>
     (case r of Inl e \<Rightarrow> excused d io e (w_store w') | Inr x \<Rightarrow> Q x (w_store w') \<and> F (w_store w'))"
    by (cases r) auto
qed

lemma triple_bnd:
  assumes m: "triple d io P m Q" and f: "\<And>x. triple d io (Q x) (f x) S"
  shows "triple d io P (bnd m f) S"
proof (rule tripleI)
  fix w r w' assume w: "store_ok (w_store w)" "P (w_store w)" "bnd m f w = (r, w')"
  obtain r1 w1 where m1: "m w = (r1, w1)" by (cases "m w")
  note 1 = tripleD [OF m w(1,2) m1]
  show "store_ok (w_store w') \<and> moves (w_store w) (w_store w') \<and>
     (case r of Inl e \<Rightarrow> excused d io e (w_store w') | Inr x \<Rightarrow> S x (w_store w'))"
  proof (cases r1)
    case (Inl e)
    with w(3) m1 1 show ?thesis by (auto simp: bnd_run)
  next
    case (Inr x)
    with w(3) m1 have "f x w1 = (r, w')" by (simp add: bnd_run)
    with tripleD [OF f, of w1 x r w'] 1 Inr show ?thesis by (auto intro: moves_trans)
  qed
qed

lemma triple_handle:
  assumes m: "triple d io' P m Q" and h: "\<And>e. e \<noteq> Diverge \<Longrightarrow> triple d io (\<lambda>s. excused d io' e s \<and> F s) (h e) Q"
    and F: "stable F" and P: "\<And>s. store_ok s \<Longrightarrow> P s \<Longrightarrow> F s"
  shows "triple d io P (try_catch m h) Q"
proof (rule tripleI)
  fix w r w' assume w: "store_ok (w_store w)" "P (w_store w)" "try_catch m h w = (r, w')"
  obtain r1 w1 where m1: "m w = (r1, w1)" by (cases "m w")
  note 1 = tripleD [OF m w(1,2) m1]
  have F1: "F (w_store w1)" using stableD [OF F w(1) 1(1,2)] P w by blast
  show "store_ok (w_store w') \<and> moves (w_store w) (w_store w') \<and>
     (case r of Inl e \<Rightarrow> excused d io e (w_store w') | Inr x \<Rightarrow> Q x (w_store w'))"
  proof (cases r1)
    case (Inl e)
    show ?thesis
    proof (cases "e = Diverge")
      case True
      with w(3) m1 1 Inl show ?thesis by (auto simp: try_catch_def handle_run)
    next
      case False
      with w(3) m1 Inl have "h e w1 = (r, w')" by (simp add: try_catch_def handle_run)
      with tripleD [OF h [OF False], of w1 r w'] 1 F1 Inl show ?thesis by (auto intro: moves_trans)
    qed
  next
    case (Inr x)
    with w(3) m1 1 show ?thesis by (auto simp: try_catch_def handle_run)
  qed
qed

lemma triple_finally:
  assumes m: "triple d io P m Q" and k: "\<And>r. triple d io G (k r) (\<lambda>_. G)"
    and G: "\<And>s. store_ok s \<Longrightarrow> P s \<Longrightarrow> G s" "stable G" and Q: "\<And>x. stable (Q x)"
  shows "triple d io P (finally_with m k) Q"
proof (rule tripleI)
  fix w r w' assume w: "store_ok (w_store w)" "P (w_store w)" "finally_with m k w = (r, w')"
  obtain r1 w1 where m1: "m w = (r1, w1)" by (cases "m w")
  note 1 = tripleD [OF m w(1,2) m1]
  have G1: "G (w_store w1)" using stableD [OF G(2) w(1) 1(1,2)] G(1) w by blast
  obtain r2 w2 where k2: "k r1 w1 = (r2, w2)" by (cases "k r1 w1")
  note 2 = tripleD [OF k 1(1) G1 k2]
  have m2: "moves (w_store w) (w_store w2)" using 1(2) 2(2) by (rule moves_trans)
  have e2: "excused d io e (w_store w2)" if "r1 = Inl e" for e
    using that stableD [OF stable_excused 1(1) 2(1,2)] 1(3) by auto
  have q2: "Q x (w_store w2)" if "r1 = Inr x" for x
    using that stableD [OF Q 1(1) 2(1,2)] 1(3) by auto
  show "store_ok (w_store w') \<and> moves (w_store w) (w_store w') \<and>
     (case r of Inl e \<Rightarrow> excused d io e (w_store w') | Inr x \<Rightarrow> Q x (w_store w'))"
    using w(3) m1 k2 1 2 m2 e2 q2
    by (auto simp: finally_with_def split: sum.splits exn.splits)
qed

lemma triple_ret: "(\<And>s. store_ok s \<Longrightarrow> P s \<Longrightarrow> Q x s) \<Longrightarrow> triple d io P (ret x) Q"
  by (rule tripleI) (auto simp: moves_refl)

lemma triple_throw: "(\<And>s. store_ok s \<Longrightarrow> P s \<Longrightarrow> excused d io e s) \<Longrightarrow> triple d io P (throw e) Q"
  by (rule tripleI) (auto simp: moves_refl)

lemma triple_lift:
  "(\<And>s e. store_ok s \<Longrightarrow> P s \<Longrightarrow> r = Inl e \<Longrightarrow> excused d io e s) \<Longrightarrow>
   (\<And>s x. store_ok s \<Longrightarrow> P s \<Longrightarrow> r = Inr x \<Longrightarrow> Q x s) \<Longrightarrow> triple d io P (lift_sum r) Q"
  by (rule tripleI) (auto simp: moves_refl split: sum.splits)

lemma triple_look: "triple d io P (look f) (\<lambda>x s. P s \<and> x = f s)"
  by (rule tripleI) (auto simp: moves_refl)

lemma triple_reads: "triple d io P (reads f) (\<lambda>_. P)"
  by (rule tripleI) (auto simp: moves_refl)

lemma triple_alter:
  "(\<And>s. store_ok s \<Longrightarrow> P s \<Longrightarrow> progress s (f s)) \<Longrightarrow> (\<And>s. store_ok s \<Longrightarrow> P s \<Longrightarrow> Q () (f s)) \<Longrightarrow>
   triple d io P (alter f) Q"
  by (rule tripleI) (auto simp: progress_def)

lemma triple_alter_ret:
  "(\<And>s x t. store_ok s \<Longrightarrow> P s \<Longrightarrow> f s = Some (x, t) \<Longrightarrow> progress s t) \<Longrightarrow>
   (\<And>s x t. store_ok s \<Longrightarrow> P s \<Longrightarrow> f s = Some (x, t) \<Longrightarrow> store_ok t \<Longrightarrow> Q x t) \<Longrightarrow>
   triple d io P (alter_ret f) Q"
  by (rule tripleI) (auto simp: alter_ret_def progress_def moves_refl split: option.splits prod.splits)

lemma triple_require:
  "(\<And>s e. store_ok s \<Longrightarrow> P s \<Longrightarrow> f s = Some e \<Longrightarrow> excused d io e s) \<Longrightarrow>
   (\<And>s. store_ok s \<Longrightarrow> P s \<Longrightarrow> f s = None \<Longrightarrow> Q () s) \<Longrightarrow> triple d io P (require f) Q"
  by (rule tripleI) (auto simp: require_run moves_refl split: option.splits)

lemma triple_calm: "calm m \<Longrightarrow> stable F \<Longrightarrow> safe d io F m"
  by (rule tripleI) (fastforce simp: calm_def stable_def split: sum.splits)

lemma triple_modify: "(\<And>w. w_store (f w) = w_store w) \<Longrightarrow> triple d io P (modify f) (\<lambda>_. P)"
  by (rule tripleI) (auto simp: moves_refl)

end
