(* ===== verification/Store_Reach.thy ===== *)
theory Store_Reach
  imports Authority_Contract Run_Safety
begin

text \<open>
  The pipeline database as a state machine: its states are the databases that the operations of the
  stores lead to from an empty one, in any order and by any number of callers. Every invariant and
  order of the stores carries over to it.
\<close>

section \<open>Steps\<close>

inductive db_step :: "pstore \<Rightarrow> pstore \<Rightarrow> bool" where
  event: "db_step s (addEvent run stp lvl typ msg dat s)"
| capture: "db_step s (capture run stp n k phase v xs s)"
| secret: "db_step s (registerSecret x s)"
| create_step: "cs_status c \<noteq> Some Cancelled \<Longrightarrow> createStep c s = Some (i, t) \<Longrightarrow> db_step s t"
| start_step: "getStep s i = Some st \<Longrightarrow> st_status st = Queued \<Longrightarrow> startStep i s = Some t \<Longrightarrow> db_step s t"
| complete_step: "finished (cp_status c) \<Longrightarrow> completeStep c s = Some t \<Longrightarrow> db_step s t"
| session: "db_step s (setStepSession i sid s)"
| token: "db_step s (setStepCallbackToken i tok s)"
| create_run: "createRun c s = (i, u) \<Longrightarrow> db_step s (pin i d cx u)"
| create_child: "getRun s p = Some r \<Longrightarrow> createRun c s = (i, u) \<Longrightarrow>
    link \<lparr>lk_parentRunId = p, lk_parentStepId = stp, lk_childRunId = i, lk_deadline = dl\<rparr> (pin i d cx u) = Some t \<Longrightarrow> db_step s t"
| progress: "db_step s (updateRunProgress i cur k s)"
| active: "db_step s (setRunActiveStep i a s)"
| complete_run: "st \<noteq> Running \<Longrightarrow> db_step s (completeRun i st res err s)"
| cancel: "cancelRun i reason s = Some t \<Longrightarrow> db_step s t"
| callback: "acceptAgentCallback run stp tok payload s = (rep, t) \<Longrightarrow> db_step s t"

context store_relation
begin

lemma log_callback_R: "R s (log_callback i acc pl err s)"
  by (auto simp: log_callback_def intro: R_refl addCallback_R split: option.splits)

lemma accepted_R:
  assumes "finished st"
  shows "R s (case completeStep \<lparr>cp_id = i, cp_status = st, cp_result = res, cp_output = out, cp_error = err, cp_session = sid\<rparr>
      (log_callback i acc pl e s) of None \<Rightarrow> log_callback i acc pl e s | Some t \<Rightarrow> t)"
proof (cases "completeStep \<lparr>cp_id = i, cp_status = st, cp_result = res, cp_output = out, cp_error = err, cp_session = sid\<rparr>
      (log_callback i acc pl e s)")
  case None
  then show ?thesis by (simp add: log_callback_R)
next
  case (Some t)
  with completeStep_R [OF _ Some] assms show ?thesis by (auto intro: R_trans [OF log_callback_R])
qed

lemma callback_R:
  assumes "acceptAgentCallback run stp tok payload s = (rep, t)"
  shows "R s t"
proof (cases "getStep s stp")
  case None
  with assms show ?thesis by (simp add: acceptAgentCallback_def R_refl)
next
  case (Some st)
  have f: "parseAgentCallbackPayload payload run stp = CallbackOk st' res err \<Longrightarrow> finished st'" for st' res err
    by (drule parse_status) (auto simp: finished_def)
  show ?thesis
  proof (cases "parseAgentCallbackPayload payload run stp")
    case (CallbackOk st' res err)
    with f Some assms accepted_R show ?thesis
      by (simp add: acceptAgentCallback_def Let_def split: if_splits) (auto intro: R_refl log_callback_R)
  next
    case (CallbackError e)
    with Some assms show ?thesis
      by (simp add: acceptAgentCallback_def Let_def split: if_splits) (auto intro: R_refl log_callback_R)
  qed
qed

lemma db_step_R: "db_step s t \<Longrightarrow> store_ok s \<Longrightarrow> R s t"
  by (induction rule: db_step.induct)
    (auto intro: addEvent_R capture_R registerSecret_R createStep_R startStep_R completeStep_R setStepSession_R
      setStepCallbackToken_R create_R spawn_R updateRunProgress_R setRunActiveStep_R completeRun_R cancelRun_R callback_R)

end

section \<open>Reachable databases\<close>

text \<open>Between two operations time may pass; an errored run may be reopened.\<close>

inductive reachable :: "pstore \<Rightarrow> bool" where
  empty: "db_runs s = [] \<Longrightarrow> db_steps s = [] \<Longrightarrow> db_links s = [] \<Longrightarrow> reachable s"
| step: "reachable s \<Longrightarrow> db_step s t \<Longrightarrow> reachable t"
| reopen: "reachable s \<Longrightarrow> reachable (reopenErroredRun i s)"
| wait: "reachable s \<Longrightarrow> reachable (s\<lparr>db_clock := db_clock s + ms\<rparr>)"

lemma reachable_ok: "reachable s \<Longrightarrow> store_ok s"
proof (induction rule: reachable.induct)
  case (step s t)
  then show ?case using ok.db_step_R by (auto simp: ok_kept_def)
next
  case (reopen s i)
  then show ?case using reopen_ok [of s i] by (simp add: ok_kept_def)
next
  case (wait s ms)
  then show ?case by (simp add: store_ok_def link_ok_def cancelled_ok_def)
qed (simp add: store_ok_def ids_ok_def cancelled_ok_def)

text \<open>
  C10: Every database that the operations of the stores lead to is well-formed: run and step
  identifiers are unique and older than the next one, a run is running exactly while it has no
  completion time, every step belongs to a run, links join an older run and one of its rows to a
  younger run, a run has at most one parent and a step at most one child, and a cancelled step
  belongs to a cancelled run.
\<close>

theorem reachable_wellformed:
  assumes "reachable s"
  shows "store_ok s"
  using assms by (rule reachable_ok)

definition plain_context :: run_context where
  "plain_context = \<lparr>cx_blockExpansions = [], cx_functionHashes = None, cx_initiatingAgentProfileId = None,
     cx_initiatingAgentNpub = None\<rparr>"

definition plain_run :: create_run where
  "plain_run = \<lparr>cr_definitionId = ''sample'', cr_definitionPath = None, cr_name = ''run'', cr_ownerNpub = None,
     cr_ownerAlias = None, cr_scope = Shared, cr_input = []\<rparr>"

theorem reachable_wellformed_witness:
  "\<exists>t. cancelRun 0 ''stop'' (completeRun 0 Ok None None (pin 0 other_definition plain_context (snd (createRun plain_run empty_store)))) = Some t \<and>
     store_ok t"
proof -
  let ?s = "pin 0 other_definition plain_context (snd (createRun plain_run empty_store))"
  have s: "reachable ?s"
    by (rule reachable.step [OF reachable.empty db_step.create_run, of empty_store])
      (simp_all add: empty_store_def createRun_def)
  have t: "reachable (completeRun 0 Ok None None ?s)"
    by (rule reachable.step [OF s db_step.complete_run]) simp
  obtain u where u: "cancelRun 0 ''stop'' (completeRun 0 Ok None None ?s) = Some u"
    using cancelRun_defined [OF reachable_wellformed [OF t]] by blast
  with reachable_wellformed [OF reachable.step [OF t db_step.cancel [OF u]]] show ?thesis by blast
qed

section \<open>What later databases keep\<close>

inductive later :: "pstore \<Rightarrow> pstore \<Rightarrow> bool" for s where
  same: "later s s"
| step: "later s t \<Longrightarrow> db_step t u \<Longrightarrow> later s u"
| reopen: "later s t \<Longrightarrow> later s (reopenErroredRun i t)"
| wait: "later s t \<Longrightarrow> later s (t\<lparr>db_clock := db_clock t + ms\<rparr>)"

lemma later_reachable: "later s t \<Longrightarrow> reachable s \<Longrightarrow> reachable t"
  by (induction rule: later.induct) (auto intro: reachable.intros)

text \<open>What is final: a run that ended other than by an error, and the rows of the logs.\<close>

definition final_kept :: "pstore \<Rightarrow> pstore \<Rightarrow> bool" where
  "final_kept s t \<longleftrightarrow> (\<forall>i r. getRun s i = Some r \<longrightarrow>
     (\<exists>r'. getRun t i = Some r' \<and> r_input r' = r_input r \<and>
        (r_status r \<noteq> Running \<and> r_status r \<noteq> Errored \<longrightarrow> outcome_of r' = outcome_of r)))"

lemma final_kept_trans: "final_kept s t \<Longrightarrow> final_kept t u \<Longrightarrow> final_kept s u"
  unfolding final_kept_def by (fastforce simp: outcome_of_def)

lemma settled_final: "settled_kept s t \<Longrightarrow> final_kept s t"
  by (fastforce simp: settled_kept_def final_kept_def)

lemma reopen_kept:
  "final_kept s (reopenErroredRun i s)" "steps_kept s (reopenErroredRun i s)" "logs_grow s (reopenErroredRun i s)"
proof -
  show "final_kept s (reopenErroredRun i s)"
    by (auto simp: final_kept_def getRun_reopen set_reopened_def)
  show "steps_kept s (reopenErroredRun i s)"
    by (simp add: steps_kept_def getStep_def)
  show "logs_grow s (reopenErroredRun i s)"
  proof (cases "\<exists>r. getRun s i = Some r \<and> r_status r = Errored")
    case True
    let ?u = "s\<lparr>db_runs := change r_id i (\<lambda>r. r_status r = Errored) (set_reopened ()) (db_runs s)\<rparr>"
    have "logs_grow s ?u" by (simp add: logs_grow_def)
    with True show ?thesis
      by (auto simp: reopenErroredRun_def intro: logs.R_trans [OF _ logs.addEvent_R])
  next
    case False
    then have "reopenErroredRun i s = s" by (auto simp: reopenErroredRun_def split: option.splits)
    then show ?thesis by (simp add: logs.R_refl)
  qed
qed

text \<open>
  C11: Whatever happens to a database later, a run that was there is there, with its input; one that
  ended as anything but an error keeps its status, result, error and completion time, even when its
  reopening is asked for; no step changes its run, position, name or kind, goes back in its
  states or loses its cancellation; and events, evidence, callbacks, snapshots and links are only
  ever appended.
\<close>

theorem run_lifecycle:
  assumes "reachable s" and "later s t"
  shows "final_kept s t \<and> steps_kept s t \<and> logs_grow s t"
  using assms(2)
proof (induction rule: later.induct)
  case same
  then show ?case by (simp add: settled_final settled.R_refl kept.R_refl logs.R_refl)
next
  case (step t u)
  have ok: "store_ok t" using reachable_ok later_reachable [OF step(1) assms(1)] .
  from step ok show ?case
    by (blast intro: final_kept_trans settled_final settled.db_step_R kept.R_trans kept.db_step_R logs.R_trans logs.db_step_R)
next
  case (reopen t i)
  then show ?case by (blast intro: final_kept_trans kept.R_trans logs.R_trans reopen_kept)
next
  case (wait t ms)
  have "final_kept t (t\<lparr>db_clock := db_clock t + ms\<rparr>)" "steps_kept t (t\<lparr>db_clock := db_clock t + ms\<rparr>)"
    "logs_grow t (t\<lparr>db_clock := db_clock t + ms\<rparr>)"
    by (simp_all add: final_kept_def steps_kept_def logs_grow_def getRun_def getStep_def)
  with wait show ?case by (blast intro: final_kept_trans kept.R_trans logs.R_trans)
qed

theorem run_lifecycle_witness:
  "\<exists>r. getRun (reopenErroredRun 0 (completeRun 0 Ok None None (pin 0 other_definition plain_context (snd (createRun plain_run empty_store))))) 0 = Some r \<and>
     r_status r = Ok"
proof -
  let ?s = "pin 0 other_definition plain_context (snd (createRun plain_run empty_store))" and ?t = "completeRun 0 Ok None None"
  have s: "reachable ?s"
    by (rule reachable.step [OF reachable.empty db_step.create_run, of empty_store])
      (simp_all add: empty_store_def createRun_def)
  have t: "reachable (?t ?s)" by (rule reachable.step [OF s db_step.complete_run]) simp
  have "\<exists>r. getRun ?s 0 = Some r \<and> r_status r = Running"
    by (simp add: createRun_def empty_store_def pin_def snapshot_def getRun_def Let_def)
  then have "\<exists>r. getRun (?t ?s) 0 = Some r \<and> r_status r = Ok"
    by (auto simp: getRun_completeRun set_outcome_def)
  moreover have "later (?t ?s) (reopenErroredRun 0 (?t ?s))" by (rule later.reopen [OF later.same])
  ultimately show ?thesis
    using run_lifecycle [OF t] by (fastforce simp: final_kept_def outcome_of_def)
qed

end
