(* ===== verification/Run_Steps.thy ===== *)
theory Run_Steps
  imports Run_Safety
begin

text \<open>
  The pieces of the runner below a step are safe: the waits for an agent, its attempts, the
  classifier requests and the children of a parallel step. What the environment is assumed to be
  stands in \<open>env_ok\<close>; a wait whose deadline is within its fuel does not run out of it, because the
  clock goes on while it sleeps.
\<close>

section \<open>The environment\<close>

definition ticks :: "(nat \<Rightarrow> (unit, 'e) io) \<Rightarrow> bool" where
  "ticks slp \<longleftrightarrow> (\<forall>ms w. 0 < ms \<longrightarrow> db_clock (w_store w) < db_clock (w_store (snd (slp ms w))))"

definition env_ok :: "'e ops \<Rightarrow> bool" where
  "env_ok ops \<longleftrightarrow>
     (\<forall>f fn inp. op_registry ops f = Some fn \<longrightarrow> calm (fn inp)) \<and>
     (\<forall>f fn i inp. op_secretFunction ops f = Some fn \<longrightarrow> calm (fn i inp)) \<and>
     (\<forall>n inp. calm (op_deleteConversation ops n inp)) \<and>
     (\<forall>i j n inp v. calm (op_completedTurn ops i j n inp v)) \<and>
     (\<forall>ms. calm (op_sleep ops ms)) \<and> ticks (op_sleep ops) \<and>
     (\<forall>q. calm (op_createSession ops q)) \<and> (\<forall>si. calm (op_ready ops si)) \<and>
     (\<forall>si p. calm (op_deliver ops si p)) \<and> (\<forall>sid ms. calm (op_runtimeStatus ops sid ms)) \<and>
     (\<forall>sid. calm (op_sync ops sid)) \<and> (\<forall>sid. calm (op_stop ops sid)) \<and>
     (\<forall>i j sid p u c. calm (op_bindWebhook ops i j sid p u c)) \<and> calm (op_apiKey ops) \<and>
     (\<forall>u b ms k. calm (op_fetch ops u b ms k)) \<and> (\<forall>n v a. calm (op_childDefinition ops n v a))"

lemma env_okD:
  assumes "env_ok ops"
  shows "op_registry ops f = Some fn \<Longrightarrow> calm (fn inp)"
    and "op_secretFunction ops f = Some fn' \<Longrightarrow> calm (fn' i inp)"
    and "calm (op_deleteConversation ops n inp)" and "calm (op_completedTurn ops i j n inp v)"
    and "calm (op_sleep ops ms)" and "ticks (op_sleep ops)" and "calm (op_createSession ops q)"
    and "calm (op_ready ops si)" and "calm (op_deliver ops si p)" and "calm (op_runtimeStatus ops sid ms)"
    and "calm (op_sync ops sid)" and "calm (op_stop ops sid)" and "calm (op_bindWebhook ops i j sid p u c)"
    and "calm (op_apiKey ops)" and "calm (op_fetch ops u b ms k)" and "calm (op_childDefinition ops nm vs al)"
  using assms by (auto simp: env_ok_def)

section \<open>Rules for pieces that keep a stable fact\<close>

named_theorems safe_rules

lemma safe_bnd [safe_rules]: "safe d io F m \<Longrightarrow> (\<And>x. safe d io F (f x)) \<Longrightarrow> safe d io F (bnd m f)"
  by (rule triple_bnd)

lemma safe_ret [safe_rules]: "safe d io F (ret x)"
  by (rule triple_ret)

lemma safe_err [safe_rules]: "safe d io F (throw (Err m))"
  by (rule triple_throw) simp

lemma safe_halt [safe_rules]: "safe d io F (throw (Halt h r m))"
  by (rule triple_throw) simp

lemma safe_look [safe_rules]: "safe d io F (look f)"
  by (rule triple_weaken [OF triple_look]) auto

lemma safe_reads [safe_rules]: "safe d io F (reads f)"
  by (rule triple_reads)

lemma safe_lift [safe_rules]: "safe d io F (lift_sum (map_sum Err id r))"
  by (rule triple_lift; cases r; auto)

lemma safe_if [safe_rules]: "(b \<Longrightarrow> triple d io P m Q) \<Longrightarrow> (\<not> b \<Longrightarrow> triple d io P n Q) \<Longrightarrow>
   triple d io P (if b then m else n) Q"
  by simp

lemma safe_case_option [safe_rules]:
  "(x = None \<Longrightarrow> triple d io P m Q) \<Longrightarrow> (\<And>y. x = Some y \<Longrightarrow> triple d io P (f y) Q) \<Longrightarrow>
   triple d io P (case x of None \<Rightarrow> m | Some y \<Rightarrow> f y) Q"
  by (cases x) auto

lemma safe_case_sum [safe_rules]:
  "(\<And>a. x = Inl a \<Longrightarrow> triple d io P (f a) Q) \<Longrightarrow> (\<And>b. x = Inr b \<Longrightarrow> triple d io P (g b) Q) \<Longrightarrow>
   triple d io P (case x of Inl a \<Rightarrow> f a | Inr b \<Rightarrow> g b) Q"
  by (cases x) auto

lemma safe_case_prod [safe_rules]:
  "(\<And>a b. x = (a, b) \<Longrightarrow> triple d io P (f a b) Q) \<Longrightarrow> triple d io P (case x of (a, b) \<Rightarrow> f a b) Q"
  by (cases x) auto

text \<open>Writes.\<close>

lemma triple_write: "stable F \<Longrightarrow> (\<And>s. store_ok s \<Longrightarrow> F s \<Longrightarrow> progress s (f s)) \<Longrightarrow> safe d io F (alter f)"
  by (rule triple_alter) (auto simp: progress_def intro: stableD)

lemma triple_write_opt:
  "stable F \<Longrightarrow> (\<And>s t. store_ok s \<Longrightarrow> F s \<Longrightarrow> f s = Some t \<Longrightarrow> progress s t) \<Longrightarrow> safe d io F (alter_opt f)"
  unfolding alter_opt_def
  by (rule triple_alter_ret) (auto simp: progress_def intro: stableD)

lemma safe_addEvent [safe_rules]: "stable F \<Longrightarrow> safe d io F (alter (addEvent a b c t m o'))"
  by (rule triple_write) (auto intro: progress.addEvent_R)

lemma safe_capture [safe_rules]: "stable F \<Longrightarrow> safe d io F (alter (capture a b c k p v xs))"
  by (rule triple_write) (auto intro: progress.capture_R)

lemma safe_registerSecret [safe_rules]: "stable F \<Longrightarrow> safe d io F (alter (registerSecret k))"
  by (rule triple_write) (auto intro: progress.registerSecret_R)

lemma safe_setStepSession [safe_rules]: "stable F \<Longrightarrow> safe d io F (alter (setStepSession i sid))"
  by (rule triple_write) (auto intro: progress.setStepSession_R)

lemma safe_setStepCallbackToken [safe_rules]: "stable F \<Longrightarrow> safe d io F (alter (setStepCallbackToken i t))"
  by (rule triple_write) (auto intro: progress.setStepCallbackToken_R)

lemma safe_setRunActiveStep [safe_rules]: "stable F \<Longrightarrow> safe d io F (alter (setRunActiveStep i a))"
  by (rule triple_write) (auto intro: progress.setRunActiveStep_R)

lemma safe_updateRunProgress [safe_rules]: "stable F \<Longrightarrow> safe d io F (alter (updateRunProgress i cur k))"
  by (rule triple_write) (auto intro: progress.updateRunProgress_R)

lemma safe_completeStep [safe_rules]:
  "stable F \<Longrightarrow> finished (cp_status c) \<Longrightarrow> safe d io F (alter_opt (completeStep c))"
  by (rule triple_write_opt) (auto intro: progress.completeStep_R)

lemmas safe_env [safe_rules] = triple_calm [OF env_okD(3)] triple_calm [OF env_okD(4)]
  triple_calm [OF env_okD(5)] triple_calm [OF env_okD(7)] triple_calm [OF env_okD(8)]
  triple_calm [OF env_okD(9)] triple_calm [OF env_okD(10)] triple_calm [OF env_okD(11)]
  triple_calm [OF env_okD(12)] triple_calm [OF env_okD(13)] triple_calm [OF env_okD(14)]
  triple_calm [OF env_okD(15)] triple_calm [OF env_okD(16)]

lemma safe_registry: "env_ok ops \<Longrightarrow> op_registry ops f = Some fn \<Longrightarrow> stable F \<Longrightarrow> safe d io F (fn inp)"
  by (rule triple_calm [OF env_okD(1)])

lemma safe_secretFunction:
  "env_ok ops \<Longrightarrow> op_secretFunction ops f = Some fn \<Longrightarrow> stable F \<Longrightarrow> safe d io F (fn i inp)"
  by (rule triple_calm [OF env_okD(2)])

text \<open>Handlers. A caught exception is excused where it was thrown, so it may be thrown again.\<close>

lemma safe_try:
  assumes "safe d io' F m" and "stable F"
    and "\<And>e. e \<noteq> Diverge \<Longrightarrow> triple d io (\<lambda>s. excused d io' e s \<and> F s) (h e) (\<lambda>_. F)"
  shows "safe d io F (try_catch m h)"
  by (rule triple_handle [OF assms(1,3,2)]) auto

lemma safe_try_any:
  assumes "safe d io' F m" and "stable F" and "\<And>e. e \<noteq> Diverge \<Longrightarrow> safe d io F (h e)"
  shows "safe d io F (try_catch m h)"
  by (rule safe_try [OF assms(1,2)]) (rule triple_weaken [OF assms(3)]; simp)

lemma safe_swallow: "safe d io' F m \<Longrightarrow> stable F \<Longrightarrow> safe d io F (swallow m)"
  unfolding swallow_def by (rule safe_try_any) (auto intro: safe_ret)

lemma triple_rethrow: "triple d io (\<lambda>s. excused d io e s \<and> F s) (throw e) Q"
  by (rule triple_throw) simp

lemma triple_pre: "safe d io F m \<Longrightarrow> triple d io (\<lambda>s. P s \<and> F s) m (\<lambda>_. F)"
  by (erule triple_weaken) auto

text \<open>What is read may be used as long as it is stable.\<close>

lemma triple_use:
  assumes "\<And>s. store_ok s \<Longrightarrow> P s \<Longrightarrow> G (f s) s" and "\<And>x. triple d io (\<lambda>s. P s \<and> G x s) (k x) Q"
  shows "triple d io P (bnd (look f) k) Q"
proof (rule triple_bnd [OF triple_look])
  fix x
  show "triple d io (\<lambda>s. P s \<and> x = f s) (k x) Q"
    by (rule triple_weaken [OF assms(2)]) (use assms(1) in auto)
qed

section \<open>Facts that stay\<close>

definition step_of :: "pstore \<Rightarrow> uuid \<Rightarrow> uuid option" where
  "step_of s i = map_option st_runId (getStep s i)"

lemma step_of_moves: "moves s t \<Longrightarrow> step_of s i = Some r \<Longrightarrow> step_of t i = Some r"
  by (fastforce simp: moves_def steps_kept_def step_identity_def step_of_def)

text \<open>The step of a piece of a run belongs to that run, or the piece is inside a promise.\<close>

definition mine :: "uuid option \<Rightarrow> uuid \<Rightarrow> uuid \<Rightarrow> pstore \<Rightarrow> bool" where
  "mine io runId stepId s \<longleftrightarrow> io = None \<or> io = Some runId \<and> step_of s stepId = Some runId"

lemma stable_mine [simp]: "stable (mine io r i)"
  by (auto simp: stable_def mine_def intro: step_of_moves)

lemma mine_None [simp]: "mine None r i s"
  by (simp add: mine_def)

lemma getStep_in: "getStep s i = Some st \<Longrightarrow> st \<in> set (db_steps s) \<and> st_id st = i"
  by (auto simp: getStep_def dest: row_SomeD)

lemma getRun_in_row: "store_ok s \<Longrightarrow> r \<in> set (db_runs s) \<Longrightarrow> getRun s (r_id r) = Some r"
  by (auto simp: store_ok_def ids_ok_def getRun_def intro: row_distinct)

lemma cancelled_step_run:
  assumes "store_ok s" and "getStep s i = Some st" and "st_status st = Cancelled"
  shows "run_cancelled s (st_runId st)"
proof -
  have "\<exists>r \<in> set (db_runs s). r_id r = st_runId st \<and> r_status r = Cancelled"
    using assms(1,3) getStep_in [OF assms(2)] unfolding store_ok_def cancelled_ok_def by blast
  then obtain r where "r \<in> set (db_runs s)" "r_id r = st_runId st" "r_status r = Cancelled" by blast
  with getRun_in_row [OF assms(1), of r] show ?thesis by (simp add: run_cancelled_def)
qed

lemma mine_cancelled:
  "store_ok s \<Longrightarrow> mine io r i s \<Longrightarrow> getStep s i = Some st \<Longrightarrow> st_status st = Cancelled \<Longrightarrow>
   excused d io (Stopped r) s"
  using cancelled_step_run [of s i st] by (auto simp: mine_def step_of_def)

lemma clock_moves: "moves s t \<Longrightarrow> db_clock s \<le> db_clock t"
  by (simp add: moves_def clock_le_def)

lemma stable_time_left [simp]: "stable (\<lambda>s. deadline - db_clock s < (n :: nat))"
  by (auto simp: stable_def dest!: clock_moves)

section \<open>Checks and walks\<close>

lemma triple_check_cancelled:
  "triple d (Some i) F (require (throwIfRunCancelled i)) (\<lambda>_. F)"
  by (rule triple_require) (auto simp: throwIfRunCancelled_def run_cancelled_def split: option.splits if_splits)

lemma safe_check_cancelled [safe_rules]:
  "io = None \<or> io = Some i \<Longrightarrow> safe d io F (require (throwIfRunCancelled i))"
  by (rule triple_require)
    (auto simp: throwIfRunCancelled_def run_cancelled_def split: option.splits if_splits)

lemma ancestors_fuel_Err: "ancestors_fuel n s i = Some e \<Longrightarrow> e = Diverge \<or> (\<exists>m. e = Err m)"
  by (induction n s i rule: ancestors_fuel.induct) (auto split: option.splits if_splits)

lemma assertAncestors_Err:
  "store_ok s \<Longrightarrow> assertPipelineAncestorsRunning i s = Some e \<Longrightarrow> \<exists>m. e = Err m"
  using assertAncestors_no_diverge [of s i] ancestors_fuel_Err
  by (fastforce simp: assertPipelineAncestorsRunning_def simp del: ancestors_fuel.simps)

lemma safe_check_ancestors [safe_rules]: "safe d io F (require (assertPipelineAncestorsRunning i))"
  by (rule triple_require) (auto dest: assertAncestors_Err)

lemma authority_Err: "store_ok s \<Longrightarrow> pipelineAuthorityInput s i = Inl e \<Longrightarrow> \<exists>m. e = Err m"
  using root_defined [of s i] by (auto simp: pipelineAuthorityInput_def split: option.splits)

lemma safe_require_Err:
  "(\<And>s e. store_ok s \<Longrightarrow> f s = Some e \<Longrightarrow> (\<exists>m. e = Err m)) \<Longrightarrow> safe d io F (require f)"
  by (rule triple_require) fastforce+

text \<open>A value that is read and then thrown or returned.\<close>

lemma safe_look_lift:
  assumes "\<And>s e. store_ok s \<Longrightarrow> f s = Inl e \<Longrightarrow> (\<exists>m. e = Err m)" and "\<And>x. safe d io F (k x)"
  shows "safe d io F (bnd (look f) (\<lambda>r. bnd (lift_sum r) k))"
proof (rule triple_bnd [OF triple_look], rule triple_bnd [where Q = "\<lambda>_. F"])
  fix r
  show "triple d io (\<lambda>s. F s \<and> r = f s) (lift_sum r) (\<lambda>_. F)"
  proof (rule triple_lift)
    fix s e assume "store_ok s" "F s \<and> r = f s" "r = Inl e"
    with assms(1) [of s e] show "excused d io e s" by auto
  qed simp
  show "safe d io F (k x)" for x by (rule assms(2))
qed

lemma safe_require_map_Err [safe_rules]: "safe d io F (require (\<lambda>_. map_option Err x))"
  by (rule safe_require_Err) auto

lemma resolveWebhook_Err:
  "store_ok s \<Longrightarrow> resolveActivityWebhook parse runId spec s = Inl e \<Longrightarrow> \<exists>m. e = Err m"
  by (auto simp: resolveActivityWebhook_def split: option.splits sum.splits dest: authority_Err)

lemma resolveProfile_Err: "resolvePipelineAgentProfileBinding a = Inl e \<Longrightarrow> \<exists>m. e = Err m"
  by (auto simp: resolvePipelineAgentProfileBinding_def Let_def split: option.splits if_splits)

lemma agent_binding_Err: "store_ok s \<Longrightarrow> agent_binding inp runId s = Inl e \<Longrightarrow> \<exists>m. e = Err m"
  by (auto simp: agent_binding_def split: option.splits sum.splits dest: authority_Err resolveProfile_Err)

lemma agent_model_Err: "store_ok s \<Longrightarrow> agent_model current m runId s = Inl e \<Longrightarrow> \<exists>msg. e = Err msg"
  by (auto simp: agent_model_def split: option.splits sum.splits dest: authority_Err)

lemma input_limit_Err: "assertAgentInputWithinLimit env sel n m = Some e \<Longrightarrow> \<exists>msg. e = Err msg"
  by (auto simp: assertAgentInputWithinLimit_def Let_def split: if_splits)

section \<open>The grace period\<close>

lemma safe_now [safe_rules]: "safe d io F now"
  unfolding now_def by (rule safe_look)

lemma sleep_time:
  assumes "env_ok ops" and "0 < ms" and "stable F"
  shows "triple d io (\<lambda>s. deadline - db_clock s < Suc n \<and> db_clock s < deadline \<and> F s) (op_sleep ops ms)
           (\<lambda>_ s. deadline - db_clock s < n \<and> F s)"
proof (rule tripleI)
  fix w r w'
  assume w: "store_ok (w_store w)"
    "deadline - db_clock (w_store w) < Suc n \<and> db_clock (w_store w) < deadline \<and> F (w_store w)"
    "op_sleep ops ms w = (r, w')"
  have c: "calm (op_sleep ops ms)" and t: "ticks (op_sleep ops)"
    using env_okD(5,6) [OF assms(1)] by auto
  have "db_clock (w_store w) < db_clock (w_store w')"
    using t assms(2) w(3) unfolding ticks_def by (metis snd_conv)
  with w(2) have "deadline - db_clock (w_store w') < n" by arith
  with tripleD [OF triple_calm [OF c assms(3)] w(1) _ w(3)] w(2)
  show "store_ok (w_store w') \<and> moves (w_store w) (w_store w') \<and>
     (case r of Inl e \<Rightarrow> excused d io e (w_store w')
      | Inr x \<Rightarrow> deadline - db_clock (w_store w') < n \<and> F (w_store w'))"
    by (cases r) auto
qed

lemma safe_grace_after [safe_rules]: "safe d io F (grace_after a b c)"
  unfolding grace_after_def by (intro safe_rules)

lemma safe_observe_turn:
  "env_ok ops \<Longrightarrow> stable F \<Longrightarrow> safe d io F (observe_turn ops runId stepId sid deadline steady observations)"
  unfolding observe_turn_def Let_def by (intro safe_rules)

lemma safe_stable_loop:
  assumes "env_ok ops" and "0 < pollMs" and "stable F"
  shows "triple d io (\<lambda>s. deadline - db_clock s < n \<and> F s)
           (stable_loop n ops runId stepId sid startedAt deadline pollMs steady observations) (\<lambda>_. F)"
proof (induction n arbitrary: steady observations)
  case 0
  show ?case by (rule tripleI) simp
next
  case (Suc n)
  let ?P = "\<lambda>s. deadline - db_clock s < Suc n \<and> F s"
  have P: "stable ?P" by (intro stable_conj stable_time_left assms(3))
  have turn: "triple d io (\<lambda>s. ?P s \<and> \<not> deadline \<le> t \<and> t = db_clock s)
     (bnd (op_sleep ops (min pollMs (deadline - t)))
       (\<lambda>_. stable_loop n ops runId stepId sid startedAt deadline pollMs st ob)) (\<lambda>_. F)" for t st ob
  proof (cases "deadline \<le> t")
    case False
    then have "0 < min pollMs (deadline - t)" using assms(2) by simp
    then show ?thesis
      by (intro triple_bnd [OF triple_weaken [OF sleep_time [OF assms(1) _ assms(3)]] Suc.IH]) auto
  qed (rule tripleI; simp)
  have after: "triple d io ?P (grace_after startedAt o' ob) (\<lambda>_. F)" for o' ob
    by (rule triple_weaken [OF safe_grace_after]) auto
  have rest: "triple d io ?P (bnd now (\<lambda>t'. if deadline \<le> t' then grace_after startedAt Expired ob
        else bnd (op_sleep ops (min pollMs (deadline - t'))) (\<lambda>_.
          stable_loop n ops runId stepId sid startedAt deadline pollMs st ob))) (\<lambda>_. F)" for st ob
    unfolding now_def
    by (intro triple_use [where G = "\<lambda>t s. t = db_clock s"] safe_if
        triple_weaken [OF turn] triple_weaken [OF after]) auto
  show ?case
    unfolding stable_loop.simps
  proof (rule triple_bnd [where Q = "\<lambda>_. ?P"])
    show "safe d io ?P now" by (rule safe_now)
    fix t
    show "triple d io ?P (if deadline \<le> t then grace_after startedAt Expired observations
        else bnd (observe_turn ops runId stepId sid deadline steady observations) (\<lambda>r. case r of
             Inl (outcome, obs) \<Rightarrow> grace_after startedAt outcome obs
           | Inr (steady', obs) \<Rightarrow> bnd now (\<lambda>t'. if deadline \<le> t' then grace_after startedAt Expired obs
               else bnd (op_sleep ops (min pollMs (deadline - t'))) (\<lambda>_.
                 stable_loop n ops runId stepId sid startedAt deadline pollMs steady' obs)))) (\<lambda>_. F)"
      by (intro safe_if triple_bnd [OF safe_observe_turn [OF assms(1) P]] safe_case_sum safe_case_prod
          after rest)
  qed
qed

lemma safe_waitForStable:
  assumes "env_ok ops" and "0 < pollMs" and "stable F"
  shows "safe d io F (waitForStableAgentTurn ops runId stepId sid graceMs pollMs)"
  unfolding waitForStableAgentTurn_def now_def
proof (rule triple_use [where G = "\<lambda>t s. t = db_clock s"])
  fix t
  show "triple d io (\<lambda>s. F s \<and> t = db_clock s)
     (stable_loop (Suc graceMs) ops runId stepId sid t (t + graceMs) pollMs 0 0) (\<lambda>_. F)"
    by (rule triple_weaken [OF safe_stable_loop [OF assms]]) auto
qed simp

lemma safe_final_sync:
  "env_ok ops \<Longrightarrow> stable F \<Longrightarrow> safe d io F (final_sync ops runId stepId sid out)"
  unfolding final_sync_def by (intro safe_try_any safe_rules)

lemma safe_grace_period:
  "env_ok ops \<Longrightarrow> stable F \<Longrightarrow> safe d io F (grace_period ops runId stepId sid)"
  unfolding grace_period_def
  by (intro safe_rules safe_waitForStable safe_final_sync) (simp_all add: PIPELINE_AGENT_GRACE_POLL_MS_def)

lemma safe_finalize [safe_rules]:
  "env_ok ops \<Longrightarrow> stable F \<Longrightarrow> safe d io F (finalizePipelineAgentSession ops runId stepId sid st)"
  unfolding finalizePipelineAgentSession_def by (intro safe_rules safe_grace_period)

lemma safe_session_alive [safe_rules]: "safe d io F (session_alive ops sid)"
  unfolding session_alive_def by (rule safe_reads)

lemma safe_finalizeRecovered:
  "env_ok ops \<Longrightarrow> stable F \<Longrightarrow> safe d io F (finalizeRecoveredPipelineAgentSession ops runId st)"
  unfolding finalizeRecoveredPipelineAgentSession_def by (intro safe_rules)

lemma safe_retain [safe_rules]:
  "stable F \<Longrightarrow> safe d io F (retainAgentFinalResponse ops runId stepId sid result)"
  unfolding retainAgentFinalResponse_def by (intro safe_rules)

lemma safe_bindWebhook [safe_rules]:
  assumes "env_ok ops" and "stable F"
  shows "safe d io F (bindActivityWebhook ops runId stepId spec sid prompt)"
  unfolding bindActivityWebhook_def
  by (intro safe_rules safe_try_any [where io' = io] safe_look_lift assms) (auto dest: resolveWebhook_Err)

end
