(* ===== verification/Run_Agents.thy ===== *)
theory Run_Agents
  imports Run_Steps
begin

text \<open>
  Agent steps are safe: the wait for a callback ends by its deadline, the attempts are bounded, and
  an answer or an error that says the run was cancelled is given only when it was.
\<close>

section \<open>Waiting\<close>

definition answer_ok :: "bool \<Rightarrow> uuid option \<Rightarrow> uuid \<Rightarrow> answer \<Rightarrow> pstore \<Rightarrow> bool" where
  "answer_ok d io runId a s \<longleftrightarrow> (an_status a = Cancelled \<longrightarrow> excused d io (Stopped runId) s)"

lemma stable_answer_ok [simp]: "stable (answer_ok d io runId a)"
  using stable_excused [of d io "Stopped runId"] by (auto simp: stable_def answer_ok_def)

lemma answer_of_ok:
  "store_ok s \<Longrightarrow> mine io r i s \<Longrightarrow> getStep s i = Some st \<Longrightarrow> answer_ok d io r (answer_of st) s"
  by (auto simp: answer_ok_def answer_of_def intro: mine_cancelled)

lemma safe_wait_loop:
  assumes env: "env_ok ops" and F: "stable F" and mine: "\<And>s. F s \<Longrightarrow> mine io runId stepId s"
  shows "triple d io (\<lambda>s. deadline - db_clock s < n \<and> F s)
           (wait_loop n ops stepId timeoutMs deadline sid) (\<lambda>a s. answer_ok d io runId a s \<and> F s)"
proof (induction n)
  case 0
  show ?case by (rule tripleI) simp
next
  case (Suc n)
  let ?P = "\<lambda>s. deadline - db_clock s < Suc n \<and> F s"
  let ?Q = "\<lambda>a s. answer_ok d io runId a s \<and> F s"
  have fail: "triple d io P (throw (Err m)) ?Q" for P m
    by (rule triple_throw) simp
  have turn: "triple d io (\<lambda>s. ?P s \<and> db_clock s < deadline) (bnd (op_sleep ops CALLBACK_POLL_MS)
       (\<lambda>_. wait_loop n ops stepId timeoutMs deadline sid)) ?Q"
    by (intro triple_bnd [OF triple_weaken [OF sleep_time [OF env _ F]] Suc.IH])
      (auto simp: CALLBACK_POLL_MS_def)
  have alive: "triple d io (\<lambda>s. ?P s \<and> db_clock s < deadline) (bnd (session_alive ops sid) (\<lambda>alive.
       if \<not> alive then throw (Err (m sid))
       else bnd (op_sleep ops CALLBACK_POLL_MS) (\<lambda>_. wait_loop n ops stepId timeoutMs deadline sid))) ?Q" for m
    unfolding session_alive_def by (intro triple_bnd [OF triple_reads] safe_if fail turn)
  have known: "triple d io (\<lambda>s. ?P s \<and> db_clock s < deadline \<and> x = getStep s stepId)
      (case (case x of None \<Rightarrow> None | Some st \<Rightarrow> if st_status st = Running then None else Some st) of
         Some st \<Rightarrow> ret (answer_of st)
       | None \<Rightarrow> bnd (session_alive ops sid) (\<lambda>alive.
           if \<not> alive then throw (Err (''Pipeline agent session '' @ sid @ '' disappeared before callback delivery''))
           else bnd (op_sleep ops CALLBACK_POLL_MS) (\<lambda>_. wait_loop n ops stepId timeoutMs deadline sid))) ?Q" for x
    by (intro safe_case_option triple_ret triple_weaken [OF alive])
      (auto split: option.splits if_splits intro!: answer_of_ok mine)
  show ?case
    unfolding wait_loop.simps now_def
    by (intro triple_use [where G = "\<lambda>t s. t = db_clock s"] safe_if fail
        triple_use [where G = "\<lambda>x s. x = getStep s stepId"] triple_weaken [OF known]) auto
qed

lemma safe_waitForCallback:
  assumes "env_ok ops" and "stable F" and "\<And>s. F s \<Longrightarrow> mine io runId stepId s"
  shows "triple d io F (waitForCallbackResult ops stepId timeoutMs sid) (\<lambda>a s. answer_ok d io runId a s \<and> F s)"
  unfolding waitForCallbackResult_def now_def
proof (rule triple_use [where G = "\<lambda>t s. t = db_clock s"])
  fix t
  show "triple d io (\<lambda>s. F s \<and> t = db_clock s) (wait_loop (Suc timeoutMs) ops stepId timeoutMs (t + timeoutMs) sid)
     (\<lambda>a s. answer_ok d io runId a s \<and> F s)"
    by (rule triple_weaken [OF safe_wait_loop [OF assms]]) auto
qed simp

section \<open>Attempts\<close>

lemma triple_then: "safe d io F m \<Longrightarrow> (\<And>x. triple d io F (k x) Q) \<Longrightarrow> triple d io F (bnd m k) Q"
  by (rule triple_bnd)

lemma safe_still_allowed [safe_rules]:
  "io = None \<or> io = Some i \<Longrightarrow> safe d io F (still_allowed i)"
  unfolding still_allowed_def by (intro safe_rules)

lemma safe_drive_session:
  assumes env: "env_ok ops" and F: "stable F" and mine: "\<And>s. F s \<Longrightarrow> mine io (ac_runId c) (ac_stepId c) s"
    and io: "io = None \<or> io = Some (ac_runId c)"
  shows "triple d io F (drive_session ops c prompt att session)
           (\<lambda>a s. answer_ok d io (ac_runId c) a s \<and> F s)"
  unfolding drive_session_def
  by (intro triple_then [OF safe_setStepSession] triple_then [OF safe_still_allowed]
      triple_then [OF safe_env(5)] triple_then [OF safe_env(6)] triple_then [OF safe_capture] triple_then [OF safe_bindWebhook]
      safe_case_option safe_waitForCallback F env mine io triple_throw) simp_all

lemma safe_fail_if_running [safe_rules]: "stable F \<Longrightarrow> safe d io F (fail_if_running i m sid)"
  unfolding fail_if_running_def by (intro safe_rules) simp_all

lemma safe_attempt_failed:
  assumes "stable F"
  shows "triple d io (\<lambda>s. excused d io e s \<and> F s) (attempt_failed c remaining e)
           (\<lambda>r s. (case r of Inl e \<Rightarrow> excused d io e s | Inr a \<Rightarrow> answer_ok d io (ac_runId c) a s) \<and> F s)"
  unfolding attempt_failed_def
proof (intro safe_if triple_ret)
  have "stable (\<lambda>s. excused d io e s \<and> F s)" by (intro stable_conj stable_excused assms)
  then show "triple d io (\<lambda>s. excused d io e s \<and> F s) (bnd (fail_if_running (ac_stepId c) (exn_message e) None)
      (\<lambda>_. throw e)) (\<lambda>r s. (case r of Inl e \<Rightarrow> excused d io e s | Inr a \<Rightarrow> answer_ok d io (ac_runId c) a s) \<and> F s)"
    by (intro triple_then [OF safe_fail_if_running] triple_throw) simp_all
qed simp

lemma safe_try_session:
  assumes env: "env_ok ops" and F: "stable F" and mine: "\<And>s. F s \<Longrightarrow> mine io (ac_runId c) (ac_stepId c) s"
    and io: "io = None \<or> io = Some (ac_runId c)"
  shows "triple d io F (try_session ops c prompt att remaining session)
           (\<lambda>r s. (case r of Inl e \<Rightarrow> excused d io e s | Inr a \<Rightarrow> answer_ok d io (ac_runId c) a s) \<and> F s)"
  unfolding try_session_def
proof (rule triple_finally [where G = F])
  show "triple d io F (try_catch (bnd (drive_session ops c prompt att session) (\<lambda>a. ret (Inr a)))
     (attempt_failed c remaining))
     (\<lambda>r s. (case r of Inl e \<Rightarrow> excused d io e s | Inr a \<Rightarrow> answer_ok d io (ac_runId c) a s) \<and> F s)"
    by (rule triple_handle [OF triple_bnd [OF safe_drive_session [OF env F mine io]] safe_attempt_failed [OF F] F])
      (auto intro: triple_ret)
  show "safe d io F (swallow (finalizePipelineAgentSession ops (ac_runId c) (ac_stepId c) (si_id session)
     (case r of Inr (Inr a) \<Rightarrow> Some (an_status a) | _ \<Rightarrow> None)))" for r
    by (rule safe_swallow [OF safe_finalize [OF env F] F])
  show "stable (\<lambda>s. (case r of Inl e \<Rightarrow> excused d io e s | Inr a \<Rightarrow> answer_ok d io (ac_runId c) a s) \<and> F s)" for r
    by (cases r) (auto intro!: stable_conj stable_excused F)
qed (use F in auto)

text \<open>A session that could not be created is a failed attempt.\<close>

lemma safe_create_session:
  assumes env: "env_ok ops" and F: "stable F" and mine: "\<And>s. F s \<Longrightarrow> mine io (ac_runId c) (ac_stepId c) s"
    and io: "io = None \<or> io = Some (ac_runId c)"
  shows "triple d io F (\<lambda>w. case op_createSession ops q w of
               (Inl Diverge, w') \<Rightarrow> (Inl Diverge, w')
             | (Inl e, w') \<Rightarrow> attempt_failed c remaining e w'
             | (Inr session, w') \<Rightarrow> try_session ops c prompt att remaining session w')
           (\<lambda>r s. (case r of Inl e \<Rightarrow> excused d io e s | Inr a \<Rightarrow> answer_ok d io (ac_runId c) a s) \<and> F s)"
    (is "triple d io F ?m ?Q")
proof (rule tripleI)
  fix w r w'
  assume w: "store_ok (w_store w)" "F (w_store w)" and m: "?m w = (r, w')"
  obtain r1 w1 where m1: "op_createSession ops q w = (r1, w1)" by (cases "op_createSession ops q w")
  note 1 = tripleD [OF triple_calm [OF env_okD(7) [OF env] F, of d io q] w m1]
  have F1: "F (w_store w1)" using stableD [OF F w(1) 1(1,2) w(2)] .
  show "store_ok (w_store w') \<and> moves (w_store w) (w_store w') \<and>
    (case r of Inl e \<Rightarrow> excused d io e (w_store w') | Inr x \<Rightarrow> ?Q x (w_store w'))"
  proof (cases r1)
    case (Inr session)
    with m m1 have "try_session ops c prompt att remaining session w1 = (r, w')" by simp
    from tripleD [OF safe_try_session [OF env F mine io] 1(1) F1 this] 1(2)
    show ?thesis by (auto intro: moves_trans)
  next
    case (Inl e)
    have "calm (op_createSession ops q)" by (rule env_okD(7) [OF env])
    with m1 Inl w(1) obtain msg where "e = Err msg"
      unfolding calm_def by (metis fst_conv)
    with m m1 Inl have "attempt_failed c remaining (Err msg) w1 = (r, w')" by simp
    from tripleD [OF safe_attempt_failed [OF F, of d io "Err msg"] 1(1) _ this] 1(2) F1
    show ?thesis by (auto intro: moves_trans)
  qed
qed

lemma recorded_answer_triple:
  assumes "\<And>s. F s \<Longrightarrow> mine io runId stepId s"
  shows "triple d io (\<lambda>s. F s \<and> latest = getStep s stepId) (lift_sum (recorded_answer runId latest))
     (\<lambda>known s. (case known of None \<Rightarrow> True | Some a \<Rightarrow> answer_ok d io runId a s) \<and> F s)"
proof (rule triple_lift)
  fix s e
  assume s: "store_ok s" "F s \<and> latest = getStep s stepId" "recorded_answer runId latest = Inl e"
  then show "excused d io e s"
    using mine_cancelled [OF s(1), of io runId stepId] assms
    by (auto simp: recorded_answer_def split: option.splits status.splits)
next
  fix s x
  assume s: "store_ok s" "F s \<and> latest = getStep s stepId" "recorded_answer runId latest = Inr x"
  then show "(case x of None \<Rightarrow> True | Some a \<Rightarrow> answer_ok d io runId a s) \<and> F s"
    using answer_of_ok [OF s(1), of io runId stepId] assms
    by (auto simp: recorded_answer_def split: option.splits status.splits)
qed

lemma safe_agent_attempts:
  assumes env: "env_ok ops" and F: "stable F" and mine: "\<And>s. F s \<Longrightarrow> mine io (ac_runId c) (ac_stepId c) s"
    and io: "io = None \<or> io = Some (ac_runId c)"
  shows "triple d io (\<lambda>s. (case lastError of None \<Rightarrow> True | Some e \<Rightarrow> excused d io e s) \<and> F s)
           (agent_attempts n ops inp c agent prompt binding b0 att lastError)
           (\<lambda>a s. answer_ok d io (ac_runId c) a s \<and> F s)"
proof (induction n arbitrary: att lastError)
  case 0
  show ?case unfolding agent_attempts.simps by (rule triple_throw) (auto split: option.splits)
next
  case (Suc n)
  let ?Q = "\<lambda>a s. answer_ok d io (ac_runId c) a s \<and> F s"
  have fresh: "triple d io F (bnd (\<lambda>w. case op_createSession ops q w of
               (Inl Diverge, w') \<Rightarrow> (Inl Diverge, w')
             | (Inl e, w') \<Rightarrow> attempt_failed c n e w'
             | (Inr session, w') \<Rightarrow> try_session ops c prompt k n session w')
          (\<lambda>r. case r of Inr a \<Rightarrow> ret a
             | Inl e \<Rightarrow> agent_attempts n ops inp c agent prompt binding b0 (Suc att) (Some e))) ?Q" for q k
    by (intro triple_bnd [OF safe_create_session [OF env F mine io]] safe_case_sum triple_ret
        triple_weaken [OF Suc.IH]) auto
  show ?case
    unfolding agent_attempts.simps
    by (rule triple_weaken [where P = F])
      (auto intro!: triple_use [where G = "\<lambda>x s. x = getStep s (ac_stepId c)"]
         triple_bnd [OF recorded_answer_triple [OF mine]] safe_case_option triple_weaken [OF fresh] triple_ret)
qed

section \<open>The agent step\<close>

lemma answer_result_triple:
  "triple d io (\<lambda>s. answer_ok d io r a s \<and> F s) (lift_sum (answer_result r a)) (\<lambda>_. F)"
  by (rule triple_lift) (auto simp: answer_result_def answer_ok_def split: if_splits)

lemma safe_with_final_response [safe_rules]:
  "stable F \<Longrightarrow> safe d io F (with_final_response ops c sid result)"
  unfolding with_final_response_def by (intro safe_rules)

lemma safe_runAgentStep:
  assumes env: "env_ok ops" and F: "stable F" and mine: "\<And>s. F s \<Longrightarrow> mine io (ac_runId c) (ac_stepId c) s"
    and io: "io = None \<or> io = Some (ac_runId c)"
  shows "safe d io F (runAgentStep ops inp c)"
proof -
  have start: "triple d io F (agent_attempts n ops inp c agent prompt binding b0 att None)
     (\<lambda>a s. answer_ok d io (ac_runId c) a s \<and> F s)" for n agent prompt binding b0 att
    by (rule triple_weaken [OF safe_agent_attempts [OF env F mine io, where lastError = None]]) auto
  have tail: "triple d io F (bnd (agent_attempts n ops inp c agent prompt binding b0 att None) (\<lambda>a.
     bnd (lift_sum (answer_result (ac_runId c) a)) (\<lambda>result. bnd (look g) (\<lambda>sid. with_final_response ops c sid result))))
     (\<lambda>_. F)" for n agent prompt binding b0 att g
    by (intro triple_bnd [OF start] triple_bnd [OF answer_result_triple] safe_rules F)
  show ?thesis
    unfolding runAgentStep_def Let_def
    by (intro triple_then [OF safe_require_Err] triple_then [OF safe_look] safe_look_lift tail)
      (auto dest: input_limit_Err agent_binding_Err)
qed

lemma safe_await_running:
  assumes env: "env_ok ops" and F: "stable F" and mine: "\<And>s. F s \<Longrightarrow> mine io (ac_runId c) (ac_stepId c) s"
  shows "safe d io F (await_running_session ops c sid)"
  unfolding await_running_session_def
proof (intro triple_bnd [OF triple_finally [where G = F and
    Q = "\<lambda>a s. answer_ok d io (ac_runId c) a s \<and> F s"]] triple_bnd [OF answer_result_triple] safe_retain F)
  show "triple d io F (waitForCallbackResult ops (ac_stepId c) (ac_timeoutMs c) sid)
     (\<lambda>a s. answer_ok d io (ac_runId c) a s \<and> F s)"
    by (rule safe_waitForCallback [OF env F mine])
  show "safe d io F (swallow (finalizePipelineAgentSession ops (ac_runId c) (ac_stepId c) sid
     (case r of Inr a \<Rightarrow> Some (an_status a) | Inl _ \<Rightarrow> None)))" for r
    by (rule safe_swallow [OF safe_finalize [OF env F] F])
qed (auto intro: stable_conj F)

lemma safe_reuse_answer: "env_ok ops \<Longrightarrow> stable F \<Longrightarrow> safe d io F (reuse_answer ops c st alive)"
  unfolding reuse_answer_def by (intro safe_rules safe_swallow)

lemma safe_runOrResume:
  assumes env: "env_ok ops" and F: "stable F" and mine: "\<And>s. F s \<Longrightarrow> mine io (ac_runId c) (ac_stepId c) s"
    and io: "io = None \<or> io = Some (ac_runId c)"
  shows "safe d io F (runOrResumeAgentStep ops inp c)"
proof -
  let ?F = "\<lambda>latest s. (case latest of None \<Rightarrow> True | Some st \<Rightarrow> st_status st = Cancelled \<longrightarrow>
      excused d io (Stopped (ac_runId c)) s) \<and> F s"
  have stable: "stable (?F latest)" for latest
    using stable_excused [of d io "Stopped (ac_runId c)"] F
    by (auto simp: stable_def split: option.splits)
  have G: "?F (getStep s (ac_stepId c)) s" if "store_ok s" "F s" for s
    using mine_cancelled [OF that(1) mine [OF that(2)]] that(2) by (auto split: option.splits)
  have answer: "safe d io (?F latest) (runAgentStep ops inp c)" for latest
    by (rule safe_runAgentStep [OF env stable _ io]) (use mine in auto)
  have await: "safe d io (?F latest) (await_running_session ops c sid)" for latest sid
    by (rule safe_await_running [OF env stable]) (use mine in auto)
  have rest: "safe d io (?F latest) (bnd (look (resolveActivityWebhook (op_url ops) (ac_runId c) (ac_webhook c))) (\<lambda>r.
     bnd (lift_sum r) (\<lambda>_. case latest of
       None \<Rightarrow> runAgentStep ops inp c
     | Some st \<Rightarrow>
        bnd (case nonempty (st_wingmanSessionId st) of None \<Rightarrow> ret False | Some sid \<Rightarrow> session_alive ops sid) (\<lambda>alive.
        case st_status st of
          Ok \<Rightarrow> reuse_answer ops c st alive
        | Errored \<Rightarrow> throw (Err (or_failed (st_error st)))
        | Cancelled \<Rightarrow> throw (Stopped (ac_runId c))
        | NeedsInput \<Rightarrow> throw (Halt HaltNeedsInput (or_empty (or_else (st_output st) (st_result st))) ''Agent step needs input'')
        | _ \<Rightarrow> (case nonempty (st_wingmanSessionId st) of
             Some sid \<Rightarrow> if alive then await_running_session ops c sid else runAgentStep ops inp c
           | None \<Rightarrow> runAgentStep ops inp c)))))" for latest
  proof (intro safe_look_lift)
    show "\<exists>m. e = Err m" if "store_ok s" "resolveActivityWebhook (op_url ops) (ac_runId c) (ac_webhook c) s = Inl e" for s e
      using that by (rule resolveWebhook_Err)
  next
    show "safe d io (?F latest) (case latest of
       None \<Rightarrow> runAgentStep ops inp c
     | Some st \<Rightarrow>
        bnd (case nonempty (st_wingmanSessionId st) of None \<Rightarrow> ret False | Some sid \<Rightarrow> session_alive ops sid) (\<lambda>alive.
        case st_status st of
          Ok \<Rightarrow> reuse_answer ops c st alive
        | Errored \<Rightarrow> throw (Err (or_failed (st_error st)))
        | Cancelled \<Rightarrow> throw (Stopped (ac_runId c))
        | NeedsInput \<Rightarrow> throw (Halt HaltNeedsInput (or_empty (or_else (st_output st) (st_result st))) ''Agent step needs input'')
        | _ \<Rightarrow> (case nonempty (st_wingmanSessionId st) of
             Some sid \<Rightarrow> if alive then await_running_session ops c sid else runAgentStep ops inp c
           | None \<Rightarrow> runAgentStep ops inp c)))"
    proof (cases latest)
      case None
      then show ?thesis using answer [of None] by simp
    next
      case (Some st)
      show ?thesis
        unfolding Some option.case
        by (rule safe_bnd; cases "st_status st")
          (auto intro!: safe_rules safe_reuse_answer env F stable [of "Some st", simplified]
            answer [of None, simplified] await [of None, simplified] triple_throw)
    qed
  qed
  show ?thesis
    unfolding runOrResumeAgentStep_def
    by (rule triple_use [where G = ?F, OF G triple_weaken [OF rest]]) simp_all
qed

end
