(* ===== verification/Run_Children.thy ===== *)
theory Run_Children
  imports Run_Agents
begin

text \<open>
  Classifier requests and the children of a parallel step are safe. Whatever a child throws is
  caught at the end of its promise; only the polling of the parallel step itself may go on for ever.
\<close>

section \<open>Classifiers\<close>

lemma safe_prepareClassifierInput [safe_rules]:
  "env_ok ops \<Longrightarrow> stable F \<Longrightarrow> safe d io F (prepareClassifierInput ops selected f)"
  unfolding prepareClassifierInput_def by (intro safe_rules) (auto intro: safe_registry)

lemma safe_attempts:
  assumes "\<And>k. safe d None F (req k)" and "stable F"
  shows "safe d io F (attempts n k req latest)"
proof (induction n arbitrary: k latest)
  case 0
  show ?case unfolding attempts.simps by (intro safe_rules)
next
  case (Suc n)
  show ?case
    unfolding attempts.simps
    by (intro safe_bnd [OF safe_try_any [where io' = None]] safe_rules assms Suc.IH)
qed

lemma safe_with_attempts:
  "(\<And>k. safe d None F (req k)) \<Longrightarrow> stable F \<Longrightarrow> safe d io F (with_attempts what c req)"
  unfolding with_attempts_def by (intro safe_bnd [OF safe_attempts] safe_rules)

lemma safe_captureRequest [safe_rules]: "stable F \<Longrightarrow> safe d io F (captureRequest c body k)"
  unfolding captureRequest_def by (intro safe_rules)

lemma safe_callClassifier:
  "env_ok ops \<Longrightarrow> stable F \<Longrightarrow> safe d io F (callOpenRouterJsonClassifier ops c t m k)"
  unfolding callOpenRouterJsonClassifier_def Let_def by (intro safe_rules)

lemma safe_decisions_call:
  "env_ok ops \<Longrightarrow> stable F \<Longrightarrow> safe d io F (decisions_call ops c q k)"
  unfolding decisions_call_def Let_def by (intro safe_rules)

lemma safe_classify [safe_rules]:
  "env_ok ops \<Longrightarrow> stable F \<Longrightarrow> safe d io F (classify ops runId stepId current selected cl)"
  unfolding classify_def Let_def runOpenRouterDecisions_def runClassifierStep_def
  by (intro safe_rules safe_with_attempts safe_callClassifier safe_decisions_call)

section \<open>Starting a child\<close>

text \<open>The rows a poll has read are the rows of the store until something is awaited.\<close>

definition rows_current :: "step_row list \<Rightarrow> pstore \<Rightarrow> bool" where
  "rows_current sts s \<longleftrightarrow> distinct (map st_id sts) \<and> (\<forall>st \<in> set sts. getStep s (st_id st) = Some st)"

lemma getStep_row: "store_ok s \<Longrightarrow> st \<in> set (db_steps s) \<Longrightarrow> getStep s (st_id st) = Some st"
  by (auto simp: store_ok_def ids_ok_def getStep_def intro: row_distinct)

lemma rows_current_list:
  assumes "store_ok s"
  shows "rows_current (listChildSteps s i) s"
proof -
  from assms have "distinct (map st_id (db_steps s))" by (simp add: store_ok_def ids_ok_def)
  then have "distinct (map st_id (listChildSteps s i))"
    by (simp add: listChildSteps_def distinct_map distinct_filter inj_on_def)
  then show ?thesis
    using getStep_row [OF assms] by (auto simp: rows_current_def listChildSteps_def)
qed

lemma startStep_missing: "getStep s i = None \<Longrightarrow> startStep i s = None"
  by (auto simp: startStep_def Let_def getStep_def started.row_change split: option.splits)

lemma triple_start_child:
  assumes F: "stable F"
  shows "triple d io (\<lambda>s. (getStep s (st_id st) = None \<or> getStep s (st_id st) = Some st) \<and>
             rows_current sts s \<and> st_id st \<notin> st_id ` set sts \<and> F s)
     (start_child st) (\<lambda>_ s. rows_current sts s \<and> F s)"
  unfolding start_child_def
proof (intro safe_if triple_ret)
  assume q: "st_status st = Queued"
  have "triple d io (\<lambda>s. (getStep s (st_id st) = None \<or> getStep s (st_id st) = Some st) \<and>
             rows_current sts s \<and> st_id st \<notin> st_id ` set sts \<and> F s)
     (alter_opt (startStep (st_id st))) (\<lambda>_ s. rows_current sts s \<and> F s)"
    unfolding alter_opt_def
  proof (rule triple_alter_ret)
    fix s x t
    assume s: "store_ok s" and P: "(getStep s (st_id st) = None \<or> getStep s (st_id st) = Some st) \<and>
        rows_current sts s \<and> st_id st \<notin> st_id ` set sts \<and> F s"
      and t: "map_option (Pair ()) (startStep (st_id st) s) = Some (x, t)"
    from t have st: "startStep (st_id st) s = Some t" by auto
    with startStep_missing [of s "st_id st"] have "getStep s (st_id st) \<noteq> None" by auto
    with P have row: "getStep s (st_id st) = Some st" by auto
    from progress.startStep_R [OF st row q] show *: "progress s t" .
    assume ok: "store_ok t"
    from * s have "moves s t" by (simp add: progress_def)
    with stableD [OF F s ok] P have "F t" by blast
    moreover have "rows_current sts t"
      unfolding rows_current_def
    proof (intro conjI ballI)
      show "distinct (map st_id sts)" using P by (simp add: rows_current_def)
      fix y assume y: "y \<in> set sts"
      have "getStep s (st_id y) = Some y" using P y unfolding rows_current_def by blast
      moreover have "st_id y \<noteq> st_id st" using P y by (metis imageI)
      ultimately show "getStep t (st_id y) = Some y" by (simp add: getStep_startStep [OF st])
    qed
    ultimately show "rows_current sts t \<and> F t" by simp
  qed
  then show "triple d io (\<lambda>s. (getStep s (st_id st) = None \<or> getStep s (st_id st) = Some st) \<and>
             rows_current sts s \<and> st_id st \<notin> st_id ` set sts \<and> F s)
     (bnd (alter_opt (startStep (st_id st))) (\<lambda>_. bnd (look (\<lambda>s. getStep s (st_id st)))
        (\<lambda>r. ret (case r of None \<Rightarrow> st | Some st' \<Rightarrow> st')))) (\<lambda>_ s. rows_current sts s \<and> F s)"
    by (rule triple_bnd) (intro safe_rules)
qed simp

lemma safe_start_latest:
  assumes F: "stable F" and k: "\<And>l x. safe d None F (k l x)" and h: "\<And>l e. e \<noteq> Diverge \<Longrightarrow> safe d io F (h l e)"
  shows "safe d io F (bnd (look (\<lambda>s. case getStep s (st_id st) of None \<Rightarrow> st | Some x \<Rightarrow> x)) (\<lambda>latest.
     try_catch (bnd (start_child latest) (k latest)) (h latest)))"
proof (rule triple_use [where G = "\<lambda>l s. getStep s (st_id l) = None \<or> getStep s (st_id l) = Some l"])
  fix latest
  have "triple d None (\<lambda>s. F s \<and> (getStep s (st_id latest) = None \<or> getStep s (st_id latest) = Some latest))
     (start_child latest) (\<lambda>_. F)"
    by (rule triple_weaken [OF triple_start_child [OF F, where sts = "[]"]]) (auto simp: rows_current_def)
  then have "triple d None (\<lambda>s. F s \<and> (getStep s (st_id latest) = None \<or> getStep s (st_id latest) = Some latest))
     (bnd (start_child latest) (k latest)) (\<lambda>_. F)"
    by (rule triple_bnd) (rule k)
  then show "triple d io (\<lambda>s. F s \<and> (getStep s (st_id latest) = None \<or> getStep s (st_id latest) = Some latest))
     (try_catch (bnd (start_child latest) (k latest)) (h latest)) (\<lambda>_. F)"
    by (rule triple_handle [OF _ _ F]) (auto intro: triple_pre h)
next
  fix s
  show "getStep s (st_id (case getStep s (st_id st) of None \<Rightarrow> st | Some x \<Rightarrow> x)) = None \<or>
    getStep s (st_id (case getStep s (st_id st) of None \<Rightarrow> st | Some x \<Rightarrow> x)) =
      Some (case getStep s (st_id st) of None \<Rightarrow> st | Some x \<Rightarrow> x)"
    using getStep_in [of s "st_id st"] by (cases "getStep s (st_id st)") auto
qed

section \<open>One child\<close>

lemma safe_fresh_token [safe_rules]: "stable F \<Longrightarrow> safe d io F fresh_token"
proof (rule tripleI)
  fix w r w'
  assume F: "stable F" and w: "store_ok (w_store w)" "F (w_store w)" "fresh_token w = (r, w')"
  have m: "progress (w_store w) (w_store w')" and r: "\<exists>u. r = Inr u"
    using w(3) progress.fresh_R [of "w_store w"] by (auto simp: fresh_token_def split: prod.splits)
  from m w(1) have "store_ok (w_store w') \<and> moves (w_store w) (w_store w')" by (simp add: progress_def)
  with r stableD [OF F w(1) _ _ w(2)]
  show "store_ok (w_store w') \<and> moves (w_store w) (w_store w') \<and>
     (case r of Inl e \<Rightarrow> excused d io e (w_store w') | Inr x \<Rightarrow> F (w_store w'))" by auto
qed

lemma safe_complete_ok [safe_rules]: "stable F \<Longrightarrow> safe d io F (complete_ok i r out sid)"
  unfolding complete_ok_def by (intro safe_rules) simp_all

lemma safe_complete_failed [safe_rules]: "stable F \<Longrightarrow> finished st \<Longrightarrow> safe d io F (complete_failed i st m)"
  unfolding complete_failed_def by (intro safe_rules) simp_all

lemma safe_call_agent:
  assumes "env_ok ops" and "stable F" and "\<And>s. F s \<Longrightarrow> mine io runId stepId s"
    and "io = None \<or> io = Some runId"
  shows "safe d io F (call_agent ops inp runId current ag stepId nm selected token)"
  unfolding call_agent_def
proof (rule safe_look_lift)
  show "\<exists>m. e = Err m" if "store_ok s" "agent_model current (ag_model ag) runId s = Inl e" for s e
    using that by (rule agent_model_Err)
qed (rule safe_runOrResume [OF assms(1,2)], use assms(3,4) in simp_all)

lemma safe_runAgentChild:
  assumes "env_ok ops" and F: "stable F"
  shows "safe d None F (runAgentChild ops inp p ag st selected)"
  unfolding runAgentChild_def
proof -
  have body: "safe d None F (bnd (call_agent ops inp (pl_runId p) (pl_current p) ag (st_id st) (st_name st) selected token)
     (\<lambda>result. bnd (look (session_of (st_id st))) (\<lambda>sid. complete_ok (st_id st) result result sid)))" for token
    by (intro safe_rules safe_call_agent assms) simp_all
  have handler: "triple d None (\<lambda>s. excused d None e s \<and> F s)
     (case e of Halt _ result msg \<Rightarrow> alter_opt (completeStep \<lparr>cp_id = st_id st, cp_status = NeedsInput,
            cp_result = Some result, cp_output = Some result, cp_error = Some msg, cp_session = None\<rparr>)
        | _ \<Rightarrow> throw e) (\<lambda>_. F)" for e
  proof (cases e)
    case (Halt h result msg)
    show ?thesis unfolding Halt exn.case by (rule triple_pre [OF safe_completeStep [OF F]]) simp
  qed (simp_all only: exn.case triple_rethrow)
  show "safe d None F (bnd (case st_callbackToken st of None \<Rightarrow> fresh_token | Some t \<Rightarrow> ret t) (\<lambda>token.
     bnd (if nonempty (st_callbackToken st) = None then alter (setStepCallbackToken (st_id st) token) else ret ()) (\<lambda>_.
     try_catch (bnd (call_agent ops inp (pl_runId p) (pl_current p) ag (st_id st) (st_name st) selected token)
       (\<lambda>result. bnd (look (session_of (st_id st))) (\<lambda>sid. complete_ok (st_id st) result result sid)))
       (\<lambda>e. case e of Halt _ result msg \<Rightarrow> alter_opt (completeStep \<lparr>cp_id = st_id st, cp_status = NeedsInput,
            cp_result = Some result, cp_output = Some result, cp_error = Some msg, cp_session = None\<rparr>)
        | _ \<Rightarrow> throw e))))"
    by (intro safe_bnd safe_try [OF body F] handler safe_case_option safe_if safe_ret safe_fresh_token
        safe_setStepCallbackToken F)
qed

lemma safe_assert_lift [safe_rules]: "safe d io F (lift_sum (map_sum Err id (assertObject v m)))"
  by (rule safe_lift)

lemma safe_runClassifierChild:
  assumes "env_ok ops" and F: "stable F"
  shows "safe d None F (runClassifierChild ops p cl st selected)"
  unfolding runClassifierChild_def
  by (intro safe_bnd [OF safe_try [where io' = None]] triple_rethrow triple_pre [OF safe_ret] safe_rules assms)

lemma safe_run_code_child:
  assumes "env_ok ops" and F: "stable F"
  shows "safe d io F (run_code_child ops p c st selected)"
  unfolding run_code_child_def
  by (intro safe_rules F safe_registry [OF assms(1)])

lemma safe_run_started:
  "env_ok ops \<Longrightarrow> stable F \<Longrightarrow> safe d None F (run_started ops inp p st selected)"
  unfolding run_started_def
  by (cases "pl_child p")
    (simp_all only: dstep.case safe_err safe_run_code_child safe_runClassifierChild safe_runAgentChild)

lemma throw_in_promise: "e \<noteq> Diverge \<Longrightarrow> triple d None P (throw e) Q"
  by (rule triple_throw) (cases e; simp)

lemma safe_retry_child:
  assumes env: "env_ok ops" and F: "stable F" and e: "e \<noteq> Diverge"
  shows "safe d None F (retry_child n k backoff ops inp p items itemKeys st e)"
proof (induction n arbitrary: k)
  case 0
  show ?case unfolding retry_child.simps by (rule throw_in_promise [OF e])
next
  case (Suc n)
  have "safe d None F (bnd (look (shouldRetryAgentStartup p (st_id st) e' n)) (\<lambda>again. if again
      then retry_child n (Suc k) backoff ops inp p items itemKeys st e else throw e'))" if "e' \<noteq> Diverge" for e'
    by (intro safe_bnd safe_look safe_if Suc.IH throw_in_promise that)
  then show ?case
    unfolding retry_child.simps
    by (intro safe_bnd [OF safe_env(3) [OF env F]] safe_start_latest safe_run_started env F)
qed

lemma safe_fail_child [safe_rules]: "stable F \<Longrightarrow> safe d io F (fail_child i e)"
  unfolding fail_child_def by (intro safe_rules) simp_all

lemma safe_settle_child:
  assumes env: "env_ok ops" and F: "stable F"
  shows "safe d io F (settle_child ops inp p items itemKeys retries backoff st)"
proof -
  have "safe d None F (bnd (look (shouldRetryAgentStartup p (st_id st) e retries)) (\<lambda>again. if again
      then retry_child retries 1 backoff ops inp p items itemKeys st e else throw e))" if "e \<noteq> Diverge" for e
    by (intro safe_bnd safe_look safe_if safe_retry_child env F throw_in_promise that)
  then show ?thesis
    unfolding settle_child_def
    by (intro safe_try_any [where io' = None, OF safe_try_any [where io' = None]] safe_run_started
        safe_fail_child env F)
qed

section \<open>The parallel step\<close>

lemma triple_launch_children:
  assumes F: "stable F"
  shows "triple d io (\<lambda>s. rows_current sts s \<and> F s) (launch_children ops p lm active pending sts) (\<lambda>_. F)"
proof (induction sts arbitrary: active pending)
  case Nil
  show ?case unfolding launch_children.simps by (rule triple_ret) simp
next
  case (Cons st sts)
  have skip: "triple d io (\<lambda>s. rows_current (st # sts) s \<and> F s) (launch_children ops p lm active pending sts) (\<lambda>_. F)"
    for active pending
    by (rule triple_weaken [OF Cons.IH]) (auto simp: rows_current_def)
  have go: "triple d io (\<lambda>s. rows_current (st # sts) s \<and> F s) (bnd (start_child st) k) (\<lambda>_. F)"
    if "\<And>r. triple d io (\<lambda>s. rows_current sts s \<and> F s) (k r) (\<lambda>_. F)" for k
    by (rule triple_bnd [OF triple_weaken [OF triple_start_child [OF F, where sts = sts]] that])
      (auto simp: rows_current_def)
  show ?case
    unfolding launch_children.simps
    by (intro safe_if triple_bnd [OF triple_reads] triple_ret skip go Cons.IH) simp
qed

lemma safe_skip_queued [safe_rules]: "stable F \<Longrightarrow> safe d io F (skip_queued sts)"
proof (induction sts)
  case (Cons st sts)
  then show ?case unfolding skip_queued.simps by (intro safe_rules) simp_all
qed (simp only: skip_queued.simps safe_ret)

lemma triple_fail_fast:
  assumes F: "stable F"
  shows "triple d io (\<lambda>s. rows_current sts s \<and> F s) (fail_fast p sts) (\<lambda>_ s. rows_current sts s \<and> F s)"
proof -
  have stop: "triple d io (\<lambda>s. rows_current sts s \<and> F s) (bnd (skip_queued sts) (\<lambda>_. throw (Err m)))
     (\<lambda>_ s. rows_current sts s \<and> F s)" for m
    by (rule triple_bnd [OF triple_pre [OF safe_skip_queued [OF F]]]) (rule triple_throw, simp)
  show ?thesis
    unfolding fail_fast_def
    by (cases "failed_children sts") (auto intro: triple_ret stop simp del: ret_run)
qed

lemma safe_wait_child:
  "env_ok ops \<Longrightarrow> stable F \<Longrightarrow> safe d io F (wait_child ops inp p lm items itemKeys active)"
  unfolding wait_child_def by (intro safe_rules safe_settle_child)

lemma safe_parallel_loop:
  assumes env: "env_ok ops" and F: "stable F"
  shows "safe True io F (parallel_loop n ops inp p lm items itemKeys active)"
proof (induction n arbitrary: active)
  case 0
  show ?case unfolding parallel_loop.simps by (rule triple_throw) simp
next
  case (Suc n)
  have go: "triple True io (\<lambda>s. rows_current sts s \<and> F s)
     (bnd (launch_children ops p lm active q sts) (\<lambda>active'. bnd (wait_child ops inp p lm items itemKeys active')
        (parallel_loop n ops inp p lm items itemKeys))) (\<lambda>_. F)" for sts q
    by (rule triple_bnd [OF triple_launch_children [OF F]]) (intro safe_bnd safe_wait_child env F Suc.IH)
  have all: "triple True io (\<lambda>s. rows_current sts s \<and> F s) (look f) (\<lambda>_. F)" for sts f
    by (rule triple_weaken [OF triple_look]) auto
  have turn: "triple True io (\<lambda>s. rows_current sts s \<and> F s) (bnd (fail_fast p sts) (\<lambda>_.
     if all_done (length items) sts then look (\<lambda>s. buildParallelAggregate (listChildSteps s (pl_parentStepId p)))
     else bnd (launch_children ops p lm active (countPendingAgentLaunches p sts active) sts)
       (\<lambda>active'. bnd (wait_child ops inp p lm items itemKeys active')
        (parallel_loop n ops inp p lm items itemKeys)))) (\<lambda>_. F)" for sts
    by (intro triple_bnd [OF triple_fail_fast [OF F]] safe_if all go)
  show ?case
    unfolding parallel_loop.simps
    by (rule triple_use [where G = "\<lambda>sts s. rows_current sts s"])
      (use rows_current_list turn in \<open>auto simp: conj_commute intro: triple_weaken [OF turn]\<close>)
qed

lemma safe_nextStepIndex [safe_rules]: "safe d io F (nextStepIndex i)"
  by (rule tripleI) (auto simp: nextStepIndex_def moves_refl)

lemma safe_createStep [safe_rules]:
  assumes F: "stable F" and "\<And>s. cs_status (c s) \<noteq> Some Cancelled"
  shows "safe d io F (alter_ret (\<lambda>s. createStep (c s) s))"
proof (rule triple_alter_ret)
  fix s x t
  assume s: "store_ok s" "F s" "createStep (c s) s = Some (x, t)"
  show *: "progress s t" by (rule progress.createStep_R [OF assms(2) s(3)])
  assume "store_ok t"
  with * s F show "F t" by (auto simp: progress_def intro: stableD)
qed

lemma safe_create_children:
  "stable F \<Longrightarrow> safe d io F (create_children p existing xs)"
proof (induction p existing xs rule: create_children.induct)
  case (2 p existing index item key rest)
  then show ?case
    unfolding create_children.simps
    by (intro safe_rules) (auto simp: child_record_def)
qed (simp only: create_children.simps safe_ret)

lemma safe_runParallelStep:
  assumes env: "env_ok ops" and F: "stable F"
  shows "safe True io F (runParallelStep polls ops inp p)"
  unfolding runParallelStep_def ensureParallelChildren_def Let_def
  by (cases "resolvePath (pl_current p) (pa_source (pl_spec p))")
    (simp_all only: jval.case safe_err safe_bnd safe_look safe_create_children [OF F] safe_parallel_loop [OF env F])

end
