(* ===== verification/Run_Engine.thy ===== *)
theory Run_Engine
  imports Run_Children
begin

text \<open>
  Steps of every type are safe. A step may loop for ever only if it polls children of a parallel
  step; for pipelines without one the nesting bounds the recursion and the deadlines the waits.
\<close>

section \<open>Records of a step\<close>

lemma triple_create_record:
  assumes F: "stable F" and st: "st \<noteq> Some Cancelled"
  shows "triple d io F (create_record cx step input st token) (\<lambda>i s. step_of s i = Some (x_runId cx) \<and> F s)"
  unfolding create_record_def
proof (rule triple_bnd [OF safe_nextStepIndex], rule triple_alter_ret)
  fix n s i t
  let ?c = "\<lparr>cs_runId = x_runId cx, cs_stepIndex = n, cs_name = step_name cx step,
       cs_kind = kind_of step, cs_input = input, cs_status = st, cs_parentStepId = x_parentStepId cx,
       cs_logicalKey = Some (logical_key cx step), cs_callbackToken = token,
       cs_metadata = Some (buildPipelineStepMetadata step None None)\<rparr>"
  assume s: "store_ok s" "F s" "createStep ?c s = Some (i, t)"
  show *: "progress s t" by (rule progress.createStep_R [OF _ s(3)]) (simp add: st)
  assume t: "store_ok t"
  have "\<exists>row. db_steps t = db_steps s @ [row] \<and> st_id row = i \<and> st_runId row = x_runId cx"
    using s(3) by (auto simp: createStep_def fresh_uuid_def Let_def split: if_splits)
  then obtain row where "db_steps t = db_steps s @ [row]" "st_id row = i" "st_runId row = x_runId cx" by blast
  with getStep_row [OF t, of row] have "step_of t i = Some (x_runId cx)" by (auto simp: step_of_def)
  moreover have "F t" using * s t F by (auto simp: progress_def intro: stableD)
  ultimately show "step_of t i = Some (x_runId cx) \<and> F t" by simp
qed

lemma stable_step_of [simp]: "stable (\<lambda>s. step_of s i = Some r)"
  by (auto simp: stable_def intro: step_of_moves)

lemma safe_create_record [safe_rules]:
  "stable F \<Longrightarrow> st \<noteq> Some Cancelled \<Longrightarrow> safe d io F (create_record cx step input st token)"
  by (rule triple_weaken [OF triple_create_record [of F]]) auto

lemma safe_setActiveStep [safe_rules]: "stable F \<Longrightarrow> safe d io F (setActiveStep cx i)"
  unfolding setActiveStep_def by (intro safe_rules)

lemma safe_obtain_record [safe_rules]: "stable F \<Longrightarrow> safe d io F (obtain_record cx step input active)"
  unfolding obtain_record_def by (intro safe_rules) simp_all

lemma safe_assign_io [safe_rules]: "safe d io F (assign_io current result a)"
  unfolding assign_io_def by (rule safe_lift)

lemma safe_finish_step [safe_rules]: "stable F \<Longrightarrow> safe d io F (finish_step current step i result sid)"
  unfolding finish_step_def by (intro safe_rules)

lemma safe_active_step [safe_rules]: "safe d io F (active_step cx step)"
  unfolding active_step_def by (rule safe_look)

lemma safe_cancelled [safe_rules]: "safe d (Some i) F (check_cancelled i)"
  unfolding check_cancelled_def by (rule safe_check_cancelled) simp

lemma safe_ancestors [safe_rules]: "safe d io F (check_ancestors i)"
  unfolding check_ancestors_def by (rule safe_check_ancestors)

section \<open>Code\<close>

lemma reply_context_Err:
  "store_ok s \<Longrightarrow> assertPipelineReplyContext i sel s = Some e \<Longrightarrow> \<exists>m. e = Err m"
  using root_defined [of s i]
  by (auto simp: assertPipelineReplyContext_def split: option.splits sum.splits dest: authority_Err)

lemma safe_reply_context [safe_rules]: "safe d io F (require (assertPipelineReplyContext i sel))"
  by (rule safe_require_Err) (rule reply_context_Err)

lemma safe_skip_step: "stable F \<Longrightarrow> safe d io F (skip_step cx step current)"
  unfolding skip_step_def by (intro safe_rules) simp_all

lemma safe_call_function [safe_rules]:
  assumes "env_ok ops" and "stable F"
  shows "safe d io F (call_function ops inp cx c i request)"
  unfolding call_function_def Let_def
  by (intro safe_rules safe_registry [OF assms(1)] safe_secretFunction [OF assms(1)] assms)

lemma safe_finish_code [safe_rules]: "stable F \<Longrightarrow> safe d io F (finish_code cx step c current i result)"
  unfolding finish_code_def by (intro safe_rules) simp_all

lemma safe_exec_code:
  "env_ok ops \<Longrightarrow> stable F \<Longrightarrow> safe d (Some (x_runId cx)) F (exec_code ops inp cx step c current)"
  unfolding exec_code_def run_code_def Let_def by (intro safe_rules)

section \<open>Blocks and loops\<close>

lemma safe_run_children:
  assumes "\<And>st cur. st \<in> set sts \<Longrightarrow> safe d (Some (x_runId cx)) F (run cx st cur)"
  shows "safe d (Some (x_runId cx)) F (run_children run cx sts current)"
  using assms
proof (induction sts arbitrary: current)
  case (Cons st sts)
  then show ?case unfolding run_children.simps by (intro safe_rules) simp_all
qed (simp only: run_children.simps safe_ret)

lemma x_runId_child_ctx [simp]: "x_runId (child_ctx cx step i) = x_runId cx"
  by (simp add: child_ctx_def)

lemma safe_exec_block:
  assumes F: "stable F" and pins: "\<And>s. F s \<Longrightarrow> find_expansion s (x_runId cx) (logical_key cx step) = found"
    and run: "\<And>ex i st cur. found = Some ex \<Longrightarrow> st \<in> set (bx_steps ex) \<Longrightarrow>
       safe d (Some (x_runId cx)) F (run (child_ctx cx step i) st cur)"
  shows "safe d (Some (x_runId cx)) F (exec_block run cx step bs current)"
proof -
  have kids: "safe d (Some (x_runId cx)) F (run_block run cx step current inp ex i)" if "found = Some ex" for inp ex i
    using safe_run_children [of "bx_steps ex" d "child_ctx cx step i" F run] run that
    unfolding run_block_def by (intro safe_rules F) simp_all
  have go: "triple d (Some (x_runId cx)) (\<lambda>s. F s \<and> x = found) (case x of
            None \<Rightarrow> throw (Err m)
          | Some ex \<Rightarrow> bnd (obtain_record cx step inp active) (run_block run cx step current inp ex)) (\<lambda>_. F)"
    for x m inp active
  proof (cases "x = found")
    case True
    have "safe d (Some (x_runId cx)) F (case found of None \<Rightarrow> throw (Err m)
          | Some ex \<Rightarrow> bnd (obtain_record cx step inp active) (run_block run cx step current inp ex))"
      by (intro safe_case_option safe_err safe_bnd safe_obtain_record F kids)
    with True show ?thesis by simp
  qed (rule tripleI, simp)
  show ?thesis
    unfolding exec_block_def Let_def
    by (intro safe_rules triple_use [where G = "\<lambda>x s. x = found"] go pins)
qed

fun simple :: "nat \<Rightarrow> (string \<times> block_expansion) list \<Rightarrow> string \<Rightarrow> dstep \<Rightarrow> bool" where
  "simple 0 bx pre step = False"
| "simple (Suc n) bx pre (BlockStep b _) = (case map_of bx (pre @ step_key b) of
     None \<Rightarrow> True | Some ex \<Rightarrow> list_all (simple n bx (pre @ step_key b @ ''/'')) (bx_steps ex))"
| "simple (Suc n) bx pre (LoopStep b _ steps) = (case steps of
     None \<Rightarrow> True | Some ss \<Rightarrow> list_all (simple n bx (pre @ step_key b @ ''/'')) ss)"
| "simple (Suc n) bx pre (ParallelStep _ _ _) = False"
| "simple (Suc n) bx pre _ = True"

lemma safe_nested_loop:
  assumes F: "stable F" and run: "\<And>p st cur. st \<in> set steps \<Longrightarrow>
       safe d (Some (x_runId cx)) F (run (cx\<lparr>x_namePrefix := p\<rparr>) st cur)"
  shows "safe d (Some (x_runId cx)) F (nested_loop n run cx nm path k rounds steps current)"
proof (induction n arbitrary: k current)
  case (Suc n)
  have "safe d (Some (x_runId cx)) F (run_children run (cx\<lparr>x_namePrefix := p\<rparr>) steps cur)" for p cur
    using safe_run_children [of steps d "cx\<lparr>x_namePrefix := p\<rparr>" F run] run by simp
  then show ?case unfolding nested_loop.simps by (intro safe_rules Suc.IH)
qed (simp only: nested_loop.simps safe_ret)

lemma loop_target_Err: "loop_target cx step lo = Inl e \<Longrightarrow> \<exists>m. e = Err m"
  by (auto simp: loop_target_def split: option.splits)

lemma safe_loop_target [safe_rules]: "safe d io F (lift_sum (loop_target cx step lo))"
  by (rule triple_lift) (auto dest: loop_target_Err)

lemma safe_run_flat_loop [safe_rules]: "stable F \<Longrightarrow> safe d io F (run_flat_loop cx step lo current i)"
  unfolding run_flat_loop_def with_history_def Let_def by (intro safe_rules)

lemma safe_resume_loop [safe_rules]: "safe d io F (resume_loop cx step lo steps current st)"
  unfolding resume_loop_def Let_def by (intro safe_rules)

lemma safe_exec_loop:
  assumes F: "stable F" and run: "\<And>ss p i st cur. steps = Some ss \<Longrightarrow> st \<in> set ss \<Longrightarrow>
       safe d (Some (x_runId cx)) F (run ((child_ctx cx step i)\<lparr>x_namePrefix := p\<rparr>) st cur)"
  shows "safe d (Some (x_runId cx)) F (exec_loop run cx step lo steps current)"
proof -
  have "safe d (Some (x_runId cx)) F (run_nested_loop run cx step lo ss current i)" if "steps = Some ss" for ss i
    unfolding run_nested_loop_def Let_def
    using safe_nested_loop [OF F, of ss d "child_ctx cx step i" run] run [OF that]
    by (intro safe_rules F) simp_all
  then show ?thesis unfolding exec_loop_def by (intro safe_rules F)
qed

section \<open>Classifier and agent steps\<close>

lemma safe_rethrow_after:
  "stable F \<Longrightarrow> safe d io (\<lambda>s. excused d io e s \<and> F s) m \<Longrightarrow>
   triple d io (\<lambda>s. excused d io e s \<and> F s) (bnd m (\<lambda>_. throw e)) Q"
  by (erule triple_bnd) (rule triple_rethrow)

lemma triple_classifier_failed:
  assumes "stable F"
  shows "triple d io (\<lambda>s. excused d io e s \<and> F s) (classifier_failed step cl current i e) (\<lambda>_. F)"
  unfolding classifier_failed_def
  by (intro safe_if triple_pre [OF safe_finish_step] safe_rethrow_after safe_fail_if_running
      stable_conj stable_excused assms)

lemma safe_run_classifier:
  assumes "env_ok ops" and F: "stable F"
  shows "safe d (Some (x_runId cx)) F (run_classifier ops cx step cl current selected i)"
proof -
  have "triple d (Some (x_runId cx)) (\<lambda>s. excused d (Some (x_runId cx)) e s \<and> F s)
     (bnd (classifier_failed step cl current i e) (\<lambda>out. ret (Inr out))) (\<lambda>_. F)" for e
    by (rule triple_bnd [OF triple_classifier_failed [OF F] safe_ret])
  then show ?thesis
    unfolding run_classifier_def
    by (intro safe_bnd [OF safe_try [where io' = "Some (x_runId cx)"]] safe_rules assms)
qed

lemma safe_exec_classifier:
  "env_ok ops \<Longrightarrow> stable F \<Longrightarrow> safe d (Some (x_runId cx)) F (exec_classifier ops cx step cl current)"
  unfolding exec_classifier_def Let_def by (intro safe_rules safe_run_classifier)

lemma triple_agent_failed:
  assumes F: "stable F"
  shows "triple d io (\<lambda>s. excused d io e s \<and> F s) (agent_failed i e) (\<lambda>_. F)"
proof -
  have "triple d io (\<lambda>s. excused d io e s \<and> F s) (bnd (look (session_of i)) (\<lambda>sid.
          bnd (fail_if_running i (exn_message e) sid) (\<lambda>_. throw e))) (\<lambda>_. F)"
    by (intro triple_bnd [OF safe_look] safe_rethrow_after safe_fail_if_running stable_conj stable_excused F)
  then show ?thesis
    unfolding agent_failed_def by (cases e) (simp_all only: exn.case triple_rethrow)
qed

lemma getActiveStep_run: "getActiveStep s r nm k = Some st \<Longrightarrow> step_of s (st_id st) = Some r"
  using getStep_in by (fastforce simp: getActiveStep_def step_of_def split: option.splits if_splits)

lemma safe_resume_agent:
  "env_ok ops \<Longrightarrow> stable F \<Longrightarrow> safe d io F (resume_agent ops cx step current st)"
  unfolding resume_agent_def by (intro safe_rules safe_finalizeRecovered)

text \<open>The record of an agent step is the run's own, found or created.\<close>

lemma safe_run_agent:
  assumes env: "env_ok ops" and F: "stable F"
    and active: "\<And>s st. F s \<Longrightarrow> active = Some st \<Longrightarrow> step_of s (st_id st) = Some (x_runId cx)"
  shows "safe d (Some (x_runId cx)) F (run_agent ops inp cx step ag current selected active)"
proof -
  let ?io = "Some (x_runId cx)"
  let ?F = "\<lambda>i s. step_of s i = Some (x_runId cx) \<and> F s"
  have sF: "stable (?F i)" for i by (intro stable_conj stable_step_of F)
  have rest: "triple d ?io (?F i) (bnd (look g) (\<lambda>stored_token.
     bnd (if stored_token = None then alter (setStepCallbackToken i token) else ret ()) (\<lambda>_.
     bnd (setActiveStep cx i) (\<lambda>_.
     bnd (try_catch
            (bnd (call_agent ops inp (x_runId cx) current ag i nm selected token) (\<lambda>result.
             bnd (check_cancelled (x_runId cx)) (\<lambda>_. ret result)))
            (agent_failed i)) (\<lambda>result.
     bnd (look (session_of i)) (\<lambda>sid. finish_step current step i result sid)))))) (\<lambda>_. ?F i)"
    for i g nm token
    by (intro safe_bnd [OF safe_try [where io' = ?io]] triple_agent_failed safe_call_agent safe_rules env sF)
      (simp_all add: mine_def)
  have obtain_id: "triple d ?io F (case active of Some st \<Rightarrow> ret (st_id st)
     | None \<Rightarrow> create_record cx step selected None (Some token)) ?F" for token
    by (intro safe_case_option triple_create_record F triple_ret) (auto intro: active)
  show ?thesis
    unfolding run_agent_def
    by (intro triple_bnd [OF safe_case_option [OF safe_fresh_token safe_ret]] triple_bnd [OF obtain_id]
        triple_weaken [OF rest] F) auto
qed

lemma safe_exec_agent:
  assumes env: "env_ok ops" and F: "stable F"
  shows "safe d (Some (x_runId cx)) F (exec_agent ops inp cx step ag current)"
proof -
  let ?io = "Some (x_runId cx)"
  let ?G = "\<lambda>active s. case active of None \<Rightarrow> True | Some st \<Rightarrow> step_of s (st_id st) = Some (x_runId cx)"
  let ?F = "\<lambda>active s. F s \<and> ?G active s"
  have sF: "stable (?F active)" for active
    by (intro stable_conj F) (cases active; simp add: stable_const)
  have "safe d ?io (?F active) (case active of
        None \<Rightarrow> run_agent ops inp cx step ag current selected None
      | Some st \<Rightarrow>
         (if st_status st = Ok then resume_agent ops cx step current st
          else if st_status st = Errored then throw (Err (or_failed (st_error st)))
          else if st_status st = NeedsInput
          then throw (Halt HaltNeedsInput (recorded st) ''Agent step needs input'')
          else run_agent ops inp cx step ag current selected active))" for active selected
    by (intro safe_rules safe_run_agent safe_resume_agent env sF) auto
  note go = this
  have known: "?G (getActiveStep s (x_runId cx) nm k) s" for s nm k
    using getActiveStep_run [of s "x_runId cx" nm k] by (simp split: option.splits)
  show ?thesis
    unfolding exec_agent_def active_step_def Let_def
    by (rule triple_use [where G = ?G, OF known triple_weaken [OF go]]) simp_all
qed

lemma safe_exec_parallel:
  "env_ok ops \<Longrightarrow> stable F \<Longrightarrow> safe True (Some (x_runId cx)) F (exec_parallel polls ops inp cx step ps template current)"
  unfolding exec_parallel_def by (intro safe_rules safe_runParallelStep)

end
