(* ===== verification/Run_Nesting.thy ===== *)
theory Run_Nesting
  imports Run_Engine
begin

text \<open>
  Child pipelines and whole runs are safe: the wait for a child ends by its deadline, a child that
  is given up is cancelled with everything below it, and a run that is executed ends.
\<close>

section \<open>Trees of runs\<close>

lemma those_Some: "(\<forall>x \<in> set xs. \<exists>y. f x = Some y) \<Longrightarrow> \<exists>ys. those (map f xs) = Some ys"
  by (induction xs) auto

lemma tree_fuel_defined: "store_ok s \<Longrightarrow> links_from s i < n \<Longrightarrow> \<exists>ts. tree_fuel n s i = Some ts"
proof (induction n arbitrary: i)
  case (Suc n)
  have "\<forall>l \<in> set (children s i). \<exists>ts. tree_fuel n s (lk_childRunId l) = Some ts"
    using Suc.IH [OF Suc.prems(1)] links_from_child [OF Suc.prems(1)] Suc.prems(2) by fastforce
  from those_Some [OF this] show ?case by auto
qed simp

lemma tree_defined: "store_ok s \<Longrightarrow> \<exists>ts. tree s i = Some ts"
  unfolding tree_def by (rule tree_fuel_defined) (simp_all add: links_from_le less_Suc_eq_le)

lemma ancestry_walk_Err:
  "ancestry_walk n depth i d s = Some e \<Longrightarrow> depth \<le> MAX_CHILD_PIPELINE_DEPTH \<Longrightarrow>
   MAX_CHILD_PIPELINE_DEPTH < n + depth \<Longrightarrow> \<exists>m. e = Err m"
proof (induction n depth i d s rule: ancestry_walk.induct)
  case (2 n depth i d s)
  then show ?case by (auto split: option.splits if_splits)
qed simp

lemma enforceAncestry_Err: "enforceAncestry i d s = Some e \<Longrightarrow> \<exists>m. e = Err m"
  unfolding enforceAncestry_def by (erule ancestry_walk_Err) simp_all

lemma triple_attempt:
  assumes "safe d io F m" and F: "stable F"
  shows "triple d io F (attempt m) (\<lambda>r s. (case r of Inl e \<Rightarrow> e \<noteq> Diverge \<and> excused d io e s | Inr _ \<Rightarrow> True) \<and> F s)"
  unfolding attempt_def
  by (rule triple_handle [OF triple_bnd [OF assms(1)] _ F]) (auto intro!: triple_ret simp del: ret_run)

lemma safe_stop_all [safe_rules]:
  assumes "env_ok ops" and "stable F"
  shows "safe d io F (stop_all ops sids)"
  using assms(2)
proof (induction sids arbitrary: F)
  case (Cons sid sids)
  let ?G = "\<lambda>r s. (case r of Inl e \<Rightarrow> e \<noteq> Diverge \<and> excused d io e s | Inr _ \<Rightarrow> True) \<and> F s"
  have G: "stable (?G r)" for r :: "exn + unit"
    using Cons.prems stable_excused [of d io] by (cases r) (auto simp: stable_def)
  have one: "safe d io F (op_stop ops sid)"
    using assms(1) Cons.prems by (rule safe_env)
  show ?case
    unfolding stop_all.simps
  proof (rule triple_bnd [OF triple_attempt [OF one Cons.prems]], rule triple_bnd [OF triple_attempt [OF Cons.IH [OF G] G]])
    fix r rs :: "exn + unit"
    show "triple d io (\<lambda>s. (case rs of Inl e \<Rightarrow> e \<noteq> Diverge \<and> excused d io e s | Inr _ \<Rightarrow> True) \<and> ?G r s)
        (lift_sum (case r of Inl e \<Rightarrow> Inl e | Inr _ \<Rightarrow> rs)) (\<lambda>_. F)"
      by (rule triple_lift) (auto split: sum.splits)
  qed
qed (simp only: stop_all.simps safe_ret)

lemma safe_cancelPipelineTree [safe_rules]:
  assumes env: "env_ok ops" and F: "stable F"
  shows "safe d io F (cancelPipelineTree ops i reason)"
proof -
  have cancel: "safe d io F (\<lambda>w. case cancelRun i reason (w_store w) of
               None \<Rightarrow> (Inl Diverge, w) | Some s \<Rightarrow> (Inr (), w\<lparr>w_store := s\<rparr>))"
  proof (rule tripleI)
    fix w r w'
    assume w: "store_ok (w_store w)" "F (w_store w)" and m: "(case cancelRun i reason (w_store w) of
               None \<Rightarrow> (Inl Diverge, w) | Some s \<Rightarrow> (Inr (), w\<lparr>w_store := s\<rparr>)) = (r, w')"
    obtain s where s: "cancelRun i reason (w_store w) = Some s" "store_ok s"
      using cancelRun_defined [OF w(1)] by blast
    have "progress (w_store w) s" by (rule progress.cancelRun_R [OF w(1) s(1)])
    with w s m F show "store_ok (w_store w') \<and> moves (w_store w) (w_store w') \<and>
        (case r of Inl e \<Rightarrow> excused d io e (w_store w') | Inr x \<Rightarrow> F (w_store w'))"
      by (auto simp: progress_def intro: stableD)
  qed
  have rest: "safe d io F (bnd (look (\<lambda>s. sessions_of_tree s runs)) (\<lambda>sids.
        bnd (\<lambda>w. case cancelRun i reason (w_store w) of
               None \<Rightarrow> (Inl Diverge, w) | Some s \<Rightarrow> (Inr (), w\<lparr>w_store := s\<rparr>)) (\<lambda>_. stop_all ops sids)))" for runs
    by (intro safe_bnd safe_look cancel safe_stop_all env F)
  have "triple d io (\<lambda>s. F s \<and> t \<noteq> None) (case t of None \<Rightarrow> throw Diverge
     | Some runs \<Rightarrow> bnd (look (\<lambda>s. sessions_of_tree s runs)) (\<lambda>sids.
        bnd (\<lambda>w. case cancelRun i reason (w_store w) of
               None \<Rightarrow> (Inl Diverge, w) | Some s \<Rightarrow> (Inr (), w\<lparr>w_store := s\<rparr>)) (\<lambda>_. stop_all ops sids))) (\<lambda>_. F)" for t
  proof (cases t)
    case (Some runs)
    show ?thesis unfolding Some option.case by (rule triple_weaken [OF rest]) auto
  qed (rule tripleI, simp)
  then show ?thesis
    unfolding cancelPipelineTree_def
    by (rule triple_use [where G = "\<lambda>t _. t \<noteq> None", rotated]) (use tree_defined in fastforce)
qed

section \<open>Waiting for a child\<close>

lemma view_wait: "view_child l s = ChildWait \<Longrightarrow> db_clock s < lk_deadline l"
  by (auto simp: view_child_def split: option.splits if_splits)

lemma safe_child_loop:
  assumes env: "env_ok ops" and F: "stable F"
  shows "triple d io (\<lambda>s. lk_deadline l - db_clock s < n \<and> F s) (child_loop n ops runId l) (\<lambda>_. F)"
proof (induction n)
  case 0
  show ?case by (rule tripleI) simp
next
  case (Suc n)
  let ?P = "\<lambda>s. lk_deadline l - db_clock s < Suc n \<and> F s"
  have P: "stable ?P" by (intro stable_conj stable_time_left F)
  have give_up: "triple d io ?P (bnd (cancelPipelineTree ops i m) (\<lambda>_. throw (Err m'))) (\<lambda>_. F)" for i m m'
    by (rule triple_bnd [OF safe_cancelPipelineTree [OF env P]]) (rule triple_throw, simp)
  have wait: "triple d io (\<lambda>s. ?P s \<and> db_clock s < lk_deadline l)
     (bnd (op_sleep ops 25) (\<lambda>_. child_loop n ops runId l)) (\<lambda>_. F)"
    by (intro triple_bnd [OF triple_weaken [OF sleep_time [OF env _ F]] Suc.IH]) auto
  have turn: "triple d io (\<lambda>s. ?P s \<and> (v = ChildWait \<longrightarrow> db_clock s < lk_deadline l)) (case v of
         ChildDone out \<Rightarrow> ret out
       | ChildFailed e \<Rightarrow> throw (Err e)
       | ChildTimeout \<Rightarrow> bnd (cancelPipelineTree ops (lk_childRunId l) ''Child pipeline timeout'') (\<lambda>_.
           throw (Err ''Child pipeline timeout''))
       | ChildWait \<Rightarrow> bnd (op_sleep ops 25) (\<lambda>_. child_loop n ops runId l)) (\<lambda>_. F)" for v
    by (cases v) (auto intro!: triple_ret triple_throw triple_weaken [OF give_up] triple_weaken [OF wait]
        simp del: ret_run throw_run)
  show ?case
    unfolding child_loop.simps
    by (intro triple_bnd [OF triple_weaken [OF triple_look, where Q' = "\<lambda>_. ?P"]] safe_if give_up
        triple_use [where G = "\<lambda>v s. v = ChildWait \<longrightarrow> db_clock s < lk_deadline l"] turn)
      (auto intro: view_wait)
qed

lemma safe_await_child:
  assumes env: "env_ok ops" and F: "stable F"
  shows "safe d io F (await_child ops runId i)"
  unfolding await_child_def
proof (rule triple_use [where G = "\<lambda>x s. snd x = db_clock s"])
  fix x
  show "triple d io (\<lambda>s. F s \<and> snd x = db_clock s) (case x of (l, t) \<Rightarrow> case l of
       None \<Rightarrow> throw (Err ''Missing child link'')
     | Some lk \<Rightarrow> child_loop (Suc (lk_deadline lk - t)) ops runId lk) (\<lambda>_. F)"
    by (intro safe_case_prod safe_case_option triple_throw triple_weaken [OF safe_child_loop [OF env F]]) auto
qed simp

section \<open>Starting a child\<close>

lemma child_definition_Err: "child_definition_error inp c r def s = Some e \<Longrightarrow> \<exists>m. e = Err m"
  by (auto simp: child_definition_error_def split: option.splits if_splits dest: enforceAncestry_Err)

lemma progress_inherit: "progress s (inheritPipelineInvocation p i s)"
  by (auto simp: inheritPipelineInvocation_def intro: progress.addEvent_R progress.R_refl split: option.splits)

text \<open>The transaction with either hook is one move.\<close>

lemma create_transaction_top:
  assumes "create_transaction ops inp (\<lambda>_ s. Some s) s = Inr (i, t)"
  shows "progress s t"
  using assms progress.create_R
  by (auto simp: create_transaction_def Let_def split: sum.splits option.splits prod.splits)

lemma create_transaction_child:
  assumes "create_transaction ops inp (link_child p stp timeout) s = Inr (i, t)" and "getRun s p = Some r"
  shows "progress s t"
proof -
  let ?cr = "\<lparr>cr_definitionId = pd_id (in_definition inp), cr_definitionPath = Some (pd_path (in_definition inp)),
             cr_name = dp_name (pd_spec (in_definition inp)), cr_ownerNpub = in_ownerNpub inp,
             cr_ownerAlias = in_ownerAlias inp, cr_scope = pd_scope (in_definition inp), cr_input = in_input inp\<rparr>"
  obtain ch s1 where c: "createRun ?cr s = (ch, s1)" by fastforce
  with assms(1) obtain hs bs u where
    l: "link \<lparr>lk_parentRunId = p, lk_parentStepId = stp, lk_childRunId = ch,
          lk_deadline = db_clock (pin ch (in_definition inp) \<lparr>cx_blockExpansions = bs, cx_functionHashes = Some hs,
            cx_initiatingAgentProfileId = in_profileId inp, cx_initiatingAgentNpub = in_agentNpub inp\<rparr> s1) + timeout\<rparr>
        (pin ch (in_definition inp) \<lparr>cx_blockExpansions = bs, cx_functionHashes = Some hs,
            cx_initiatingAgentProfileId = in_profileId inp, cx_initiatingAgentNpub = in_agentNpub inp\<rparr> s1) = Some u"
    and t: "t = inheritPipelineInvocation p ch u"
    by (auto simp: create_transaction_def link_child_def Let_def split: sum.splits option.splits)
  from progress.spawn_R [OF assms(2) c l] show ?thesis
    unfolding t by (rule progress.R_trans [OF _ progress_inherit])
qed

lemma safe_transact:
  assumes F: "stable F" and step: "\<And>s x t. F s \<Longrightarrow> f s = Inr (x, t) \<Longrightarrow> progress s t"
  shows "safe d io F (transact f)"
proof (rule tripleI)
  fix w r w'
  assume w: "store_ok (w_store w)" "F (w_store w)" "transact f w = (r, w')"
  show "store_ok (w_store w') \<and> moves (w_store w) (w_store w') \<and>
     (case r of Inl e \<Rightarrow> excused d io e (w_store w') | Inr x \<Rightarrow> F (w_store w'))"
  proof (cases "f (w_store w)")
    case (Inl e)
    with w show ?thesis by (auto simp: transact_def moves_refl)
  next
    case (Inr y)
    obtain x t where y: "y = (x, t)" by fastforce
    with step [OF w(2)] Inr w(1) have "store_ok t \<and> moves (w_store w) t" by (simp add: progress_def)
    with w y Inr F show ?thesis by (auto simp: transact_def intro: stableD)
  qed
qed

lemma progress_registerSecrets: "progress s (registerSecrets xs s)"
  unfolding registerSecrets_def
  by (induction xs arbitrary: s) (auto intro: progress.R_refl progress.R_trans [OF progress.registerSecret_R])

lemma safe_registerSecrets [safe_rules]: "stable F \<Longrightarrow> safe d io F (alter (registerSecrets xs))"
  by (rule triple_write) (auto intro: progress_registerSecrets)

lemma safe_createPipelineRun:
  assumes F: "stable F" and "\<And>s i t. F s \<Longrightarrow> create_transaction ops inp hook s = Inr (i, t) \<Longrightarrow> progress s t"
  shows "safe d io F (createPipelineRun ops inp hook)"
  unfolding createPipelineRun_def by (intro safe_rules safe_transact F) (rule assms(2))

definition run_known :: "uuid \<Rightarrow> pstore \<Rightarrow> bool" where
  "run_known i s = (getRun s i \<noteq> None)"

lemma stable_run_known [simp]: "stable (run_known i)"
  by (fastforce simp: stable_def run_known_def moves_def settled_kept_def)

lemma safe_start_child_run:
  assumes env: "env_ok ops" and F: "stable F" and known: "\<And>s. F s \<Longrightarrow> run_known runId s"
  shows "safe d io F (start_child_run ops inp runId c selected i)"
  unfolding start_child_run_def
proof (intro safe_bnd safe_env(13) env F safe_createPipelineRun safe_ret)
  show "safe d io F (require (child_definition_error inp c runId def))" for def
    by (rule safe_require_Err) (rule child_definition_Err)
  show "progress s t" if "F s" "create_transaction ops inp' (link_child runId i k) s = Inr (j, t)" for inp' s j t k
    using create_transaction_child [OF that(2)] known [OF that(1)] by (auto simp: run_known_def)
qed

lemma resume_child_Err: "resume_child_run r l s = Some e \<Longrightarrow> \<exists>m. e = Err m"
  by (auto simp: resume_child_run_def split: option.splits if_splits)

section \<open>The pipeline step\<close>

lemma triple_child_failed:
  assumes F: "stable F"
  shows "triple d io (\<lambda>s. excused d io e s \<and> F s) (child_failed cx step c current i e) (\<lambda>_. F)"
  unfolding child_failed_def
  by (intro triple_bnd [OF safe_look] safe_if triple_rethrow triple_pre [OF safe_finish_step] F
      triple_pre [OF safe_bnd [OF safe_look]] safe_finish_step)

lemma safe_executeChildPipeline:
  assumes env: "env_ok ops" and F: "stable F" and known: "\<And>s. F s \<Longrightarrow> run_known (x_runId cx) s"
  shows "safe d io F (executeChildPipeline ops inp cx step c current)"
proof -
  have "safe d io F (require (resume_child_run r l))" for r l
    by (rule safe_require_Err) (rule resume_child_Err)
  then have "safe d io F (run_child_step ops inp cx step c current sel i)" for sel i
    unfolding run_child_step_def
    by (intro safe_try [where io' = io] triple_child_failed safe_bnd safe_look safe_case_option
        safe_start_child_run safe_await_child safe_finish_step env F known)
  then show ?thesis
    unfolding executeChildPipeline_def Let_def by (intro safe_rules F) simp_all
qed

section \<open>Every step\<close>

lemma safe_executePipelineStep:
  assumes env: "env_ok ops" and F: "stable F" and known: "\<And>s. F s \<Longrightarrow> run_known runId s"
    and pins: "\<And>s key. F s \<Longrightarrow> find_expansion s runId key = map_of bx key"
    and "d \<or> simple n bx (x_logicalPrefix cx) step" and "x_runId cx = runId"
  shows "safe d (Some runId) F (executePipelineStep n polls ops inp cx step current)"
  using assms(5,6)
proof (induction n arbitrary: cx step current)
  case 0
  then show ?case unfolding executePipelineStep.simps by (intro triple_throw) auto
next
  case (Suc n)
  note id = Suc.prems(2)
  have disp: "safe d (Some (x_runId cx)) F (dispatch (executePipelineStep n polls ops inp) polls ops inp cx step current)"
  proof (cases step)
    case (BlockStep b bs)
    show ?thesis
      unfolding BlockStep dispatch_def dstep.case
    proof (rule safe_exec_block [OF F])
      show "find_expansion s (x_runId cx) (logical_key cx (BlockStep b bs)) =
          map_of bx (x_logicalPrefix cx @ step_key b)" if "F s" for s
        using pins [OF that] id by (simp add: logical_key_def)
      show "safe d (Some (x_runId cx)) F (executePipelineStep n polls ops inp (child_ctx cx (BlockStep b bs) i) st cur)"
        if "map_of bx (x_logicalPrefix cx @ step_key b) = Some ex" "st \<in> set (bx_steps ex)" for ex i st cur
        using Suc.IH [of "child_ctx cx (BlockStep b bs) i" st cur] Suc.prems that id
        by (auto simp: BlockStep child_ctx_def list_all_iff)
    qed
  next
    case (LoopStep b lo steps)
    show ?thesis
      unfolding LoopStep dispatch_def dstep.case
    proof (rule safe_exec_loop [OF F])
      show "safe d (Some (x_runId cx)) F (executePipelineStep n polls ops inp
          (child_ctx cx (LoopStep b lo steps) i\<lparr>x_namePrefix := p\<rparr>) st cur)"
        if "steps = Some ss" "st \<in> set ss" for ss p i st cur
        using Suc.IH [of "child_ctx cx (LoopStep b lo steps) i\<lparr>x_namePrefix := p\<rparr>" st cur] Suc.prems that id
        by (auto simp: LoopStep child_ctx_def list_all_iff)
    qed
  next
    case (ParallelStep b p template)
    with Suc.prems have "d = True" by simp
    then show ?thesis unfolding ParallelStep dispatch_def dstep.case
      using safe_exec_parallel [OF env F] by simp
  next
    case (PipelineStep b c)
    show ?thesis unfolding PipelineStep dispatch_def dstep.case
      by (rule safe_executeChildPipeline [OF env F]) (use known id in simp)
  qed (simp_all only: dispatch_def dstep.case safe_exec_code safe_exec_classifier safe_exec_agent env F)
  then show ?case
    unfolding executePipelineStep.simps id
    by (intro safe_rules safe_skip_step F)
qed

end
