(* ===== verification/Run_Total.thy ===== *)
theory Run_Total
  imports Run_Nesting
begin

text \<open>
  A whole execution: the loop over the top-level steps, the end of the run in each of its ways, and
  the entry points that start, resume and reopen a run.
\<close>

section \<open>The loop\<close>

lemma safe_run_turn:
  assumes "stable F" and "\<And>st cur. st = steps ! cursor \<Longrightarrow> safe d (Some i) F (run (top_ctx i steps) st cur)"
  shows "safe d (Some i) F (run_turn run budget i steps current cursor)"
  unfolding run_turn_def Let_def by (intro safe_rules assms) simp

lemma triple_run_loop:
  assumes F: "stable F" and run: "\<And>st cur. st \<in> set steps \<Longrightarrow> safe d (Some i) F (run (top_ctx i steps) st cur)"
  shows "triple d (Some i) F (run_loop n run i steps current cursor)
     (\<lambda>r s. (case snd r of None \<Rightarrow> True | Some e \<Rightarrow> e \<noteq> Diverge \<and> excused d (Some i) e s) \<and> F s)"
proof (induction n arbitrary: current cursor)
  case 0
  have "safe d (Some i) F (run_turn run 0 i steps current cursor)" if "cursor < length steps"
    by (rule safe_run_turn [OF F]) (use run that in simp)
  then show ?case
    unfolding run_loop.simps
    by (intro safe_if triple_bnd [OF triple_attempt [OF _ F]] safe_case_sum triple_ret) auto
next
  case (Suc n)
  have "safe d (Some i) F (run_turn run (Suc n) i steps current cursor)" if "cursor < length steps"
    by (rule safe_run_turn [OF F]) (use run that in simp)
  then show ?case
    unfolding run_loop.simps
    by (intro safe_if triple_bnd [OF triple_attempt [OF _ F]] safe_case_sum safe_case_prod
        triple_weaken [OF Suc.IH] triple_ret) auto
qed

section \<open>The end of a run\<close>

text \<open>What an execution leaves: the run as it is returned, and not running.\<close>

definition ended :: "uuid \<Rightarrow> run_row option \<Rightarrow> pstore \<Rightarrow> bool" where
  "ended i r s = (r = getRun s i \<and> \<not> is_running s i)"

lemma completeRun_ends: "st \<noteq> Running \<Longrightarrow> \<not> is_running (completeRun i st res err s) i"
  by (auto simp: is_running_def getRun_completeRun set_outcome_def split: option.splits)

lemma cancelled_ended: "run_cancelled s i \<Longrightarrow> \<not> is_running s i"
  by (auto simp: run_cancelled_def is_running_def split: option.splits)

lemma triple_getRun: "(\<And>s. store_ok s \<Longrightarrow> P s \<Longrightarrow> \<not> is_running s i) \<Longrightarrow> triple d io P (look (\<lambda>s. getRun s i)) (ended i)"
  by (rule triple_weaken [OF triple_look]) (auto simp: ended_def)

lemma triple_finish_run:
  "st \<noteq> Running \<Longrightarrow> triple d io P (finish_run i st res err) (ended i)"
  unfolding finish_run_def
  by (rule triple_bnd [where Q = "\<lambda>_ s. \<not> is_running s i"])
    (auto intro!: triple_alter progress.completeRun_R completeRun_ends triple_getRun)

lemma halt_status_ends: "halt_status h \<noteq> Running"
  by (cases h) auto

lemma safe_completeActive [safe_rules]: "stable F \<Longrightarrow> safe d io F (completeActiveStepOnError i current m)"
  unfolding completeActiveStepOnError_def by (intro safe_rules) simp_all

lemma triple_run_failed:
  assumes F: "stable F" and e: "e \<noteq> Diverge"
  shows "triple d (Some i) (\<lambda>s. excused d (Some i) e s \<and> F s) (run_failed i current e) (ended i)"
proof -
  have fail: "triple d (Some i) (\<lambda>_. True) (bnd (look (\<lambda>s. throwIfRunCancelled i s \<noteq> None)) (\<lambda>cancelled.
       if cancelled then look (\<lambda>s. getRun s i)
       else bnd (completeActiveStepOnError i current m) (\<lambda>_.
            bnd (alter (setRunActiveStep i None)) (\<lambda>_. finish_run i Errored current (Some m))))) (ended i)" for m
  proof (rule triple_use [where G = "\<lambda>c s. c \<longrightarrow> run_cancelled s i"])
    fix c
    have T: "stable (\<lambda>s. True \<and> (c \<longrightarrow> run_cancelled s i))"
      by (auto simp: stable_def intro: run_cancelled_moves)
    show "triple d (Some i) (\<lambda>s. True \<and> (c \<longrightarrow> run_cancelled s i)) (if c then look (\<lambda>s. getRun s i)
       else bnd (completeActiveStepOnError i current m) (\<lambda>_.
            bnd (alter (setRunActiveStep i None)) (\<lambda>_. finish_run i Errored current (Some m)))) (ended i)"
      by (intro safe_if triple_getRun triple_bnd [OF safe_completeActive [OF T]]
          triple_bnd [OF safe_setRunActiveStep [OF T]] triple_finish_run) (auto simp: cancelled_ended)
  qed (auto simp: throwIfRunCancelled_def run_cancelled_def split: option.splits if_splits)
  show ?thesis
  proof (cases e)
    case (Err m)
    show ?thesis unfolding run_failed_def Err exn.case by (rule triple_weaken [OF fail]) auto
  next
    case (Halt h r m)
    show ?thesis unfolding run_failed_def Halt exn.case by (rule triple_finish_run [OF halt_status_ends])
  next
    case (Stopped j)
    show ?thesis unfolding run_failed_def Stopped exn.case by (rule triple_getRun) (auto simp: cancelled_ended)
  qed (use e in simp)
qed

lemma triple_run_to_end:
  assumes F: "stable F"
    and run: "\<And>st cur. st \<in> set (dp_steps (pd_spec (in_definition inp))) \<Longrightarrow> safe d (Some i) F
       (executePipelineStep n polls ops inp (top_ctx i (dp_steps (pd_spec (in_definition inp)))) st cur)"
  shows "triple d (Some i) F (run_to_end n polls ops inp pins i current cursor) (ended i)"
proof -
  let ?steps = "dp_steps (pd_spec (in_definition inp))"
  have failed: "triple d (Some i) (\<lambda>s. (e \<noteq> Diverge \<and> excused d (Some i) e s) \<and> F s) (run_failed i cur e) (ended i)" for e cur
  proof (cases "e = Diverge")
    case False
    then show ?thesis by (intro triple_weaken [OF triple_run_failed [OF F False]]) auto
  qed (rule tripleI, simp)
  have last: "triple d (Some i) F (bnd (attempt (check_ancestors i)) (\<lambda>r. case r of
                 Inl e \<Rightarrow> run_failed i final e
               | Inr _ \<Rightarrow> finish_run i Ok final None)) (ended i)" for final
    by (intro triple_bnd [OF triple_attempt [OF safe_ancestors F]] safe_case_sum triple_weaken [OF failed]
        triple_finish_run) auto
  have loop: "triple d (Some i) F (bnd (run_loop m (executePipelineStep n polls ops inp) i ?steps current cursor)
           (\<lambda>(final, error). case error of
              Some e \<Rightarrow> run_failed i final e
            | None \<Rightarrow> bnd (attempt (check_ancestors i)) (\<lambda>r. case r of
                 Inl e \<Rightarrow> run_failed i final e
               | Inr _ \<Rightarrow> finish_run i Ok final None))) (ended i)" for m
    by (intro triple_bnd [OF triple_run_loop [where run = "executePipelineStep n polls ops inp", OF F run]] safe_case_prod safe_case_option
        triple_weaken [OF failed] triple_weaken [OF last]) auto
  have start: "safe d (Some i) F (bnd (check_ancestors i) (\<lambda>_.
      require (\<lambda>_. map_option Err (assertPipelineFunctionPins (op_hash ops) pins))))"
    by (intro safe_rules)
  show ?thesis
    unfolding run_to_end_def Let_def
    by (intro triple_bnd [OF triple_attempt [OF start F]] safe_case_sum triple_weaken [OF failed]
        triple_weaken [OF loop]) auto
qed

section \<open>No error escapes\<close>

text \<open>The end of a run handles every exception; what is left is a loop that does not end.\<close>

definition catches :: "('a, 'e) io \<Rightarrow> bool" where
  "catches m \<longleftrightarrow> (\<forall>w e. fst (m w) = Inl e \<longrightarrow> e = Diverge)"

lemma catches_bnd: "catches m \<Longrightarrow> (\<And>x. catches (f x)) \<Longrightarrow> catches (bnd m f)"
  unfolding catches_def
proof (intro allI impI)
  fix w e
  assume m: "\<forall>w e. fst (m w) = Inl e \<longrightarrow> e = Diverge"
    and f: "\<And>x. \<forall>w e. fst (f x w) = Inl e \<longrightarrow> e = Diverge"
    and e: "fst (bnd m f w) = Inl e"
  obtain r w' where r: "m w = (r, w')" by fastforce
  show "e = Diverge"
    by (cases r) (use m [rule_format, of w] f [of _, rule_format, of _ w'] e r in \<open>auto simp: bnd_run\<close>)
qed

lemma catches_pure: "catches (ret x)" "catches (look f)" "catches (alter g)" "catches (modify h)"
  by (simp_all add: catches_def)

lemma catches_attempt: "catches (attempt m)"
  by (auto simp: catches_def attempt_def try_catch_def handle_run bnd_run split: prod.splits sum.splits if_splits)

lemma catches_if: "catches m \<Longrightarrow> catches n \<Longrightarrow> catches (if b then m else n)"
  by simp

lemma catches_case_sum:
  "(\<And>a. catches (f a)) \<Longrightarrow> (\<And>b. catches (g b)) \<Longrightarrow> catches (case x of Inl a \<Rightarrow> f a | Inr b \<Rightarrow> g b)"
  by (cases x) auto

lemma catches_case_option:
  "catches m \<Longrightarrow> (\<And>a. catches (f a)) \<Longrightarrow> catches (case x of None \<Rightarrow> m | Some a \<Rightarrow> f a)"
  by (cases x) auto

lemma catches_case_prod: "(\<And>a b. catches (f a b)) \<Longrightarrow> catches (case x of (a, b) \<Rightarrow> f a b)"
  by (cases x) auto

lemmas catches_rules = catches_bnd catches_pure catches_attempt catches_if catches_case_sum
  catches_case_option catches_case_prod

lemma catches_completeActive: "catches (completeActiveStepOnError i current m)"
proof -
  have step: "\<exists>y. getStep s (st_id st) = Some y" if "child_record_of i s = Some st" for s st
    using that getStep_in by (fastforce simp: child_record_of_def split: option.splits)
  show ?thesis
    by (auto dest!: step simp: catches_def completeActiveStepOnError_def bnd_run alter_opt_def alter_ret_def
        completeStep_defined split: option.splits)
qed

lemma catches_finish_run: "catches (finish_run i st res err)"
  unfolding finish_run_def by (intro catches_rules)

lemma catches_run_failed: "catches (run_failed i current e)"
  by (cases e) (simp_all add: run_failed_def catches_rules catches_completeActive catches_finish_run
      del: look_run alter_run)

lemma catches_run_loop: "catches (run_loop n run i steps current cursor)"
  by (induction n arbitrary: current cursor) (simp_all only: run_loop.simps, (intro catches_rules; assumption)+)

lemma catches_run_to_end: "catches (run_to_end n polls ops inp pins i current cursor)"
  unfolding run_to_end_def Let_def
  by (intro catches_rules catches_run_failed catches_run_loop catches_finish_run)

section \<open>An execution\<close>

lemma stable_snapshot [simp]: "stable (\<lambda>s. snapshot s i = Some sn)"
  by (auto simp: stable_def moves_def logs_grow_def snapshot_def prefix_def row_append)

lemma triple_leave_run: "triple d io P (leave_run i) (\<lambda>_. P)"
  unfolding leave_run_def by (rule triple_modify) simp

lemma finally_leave:
  "fst (finally_with m (\<lambda>_. leave_run i) w) = fst (m w) \<and>
   w_store (snd (finally_with m (\<lambda>_. leave_run i) w)) = w_store (snd (m w))"
  by (auto simp: finally_with_def leave_run_def split: prod.splits sum.splits exn.splits)

lemma triple_finally_leave: "triple d io P m Q \<Longrightarrow> triple d io P (finally_with m (\<lambda>_. leave_run i)) Q"
  unfolding triple_def by (simp add: finally_leave case_prod_beta cong: sum.case_cong)

lemma catches_finally_leave: "catches m \<Longrightarrow> catches (finally_with m (\<lambda>_. leave_run i))"
  by (simp add: catches_def finally_leave)

lemma triple_execute_pinned:
  assumes env: "env_ok ops"
    and deep: "d \<or> list_all (simple n (cx_blockExpansions (sn_context sn)) []) (dp_steps (pd_spec (sn_definition sn)))"
  shows "triple d (Some i) (\<lambda>s. snapshot s i = Some sn \<and> run_known i s) (execute_pinned n polls ops inp i sn saved) (ended i)"
proof -
  let ?F = "\<lambda>s. snapshot s i = Some sn \<and> run_known i s"
  have F: "stable ?F" by (intro stable_conj) simp_all
  have inp: "in_definition (context_input inp sn saved) = sn_definition sn" by (simp add: context_input_def)
  have run: "safe d (Some i) ?F (executePipelineStep n polls ops (context_input inp sn saved)
      (top_ctx i (dp_steps (pd_spec (sn_definition sn)))) st cur)"
    if "st \<in> set (dp_steps (pd_spec (sn_definition sn)))" for st cur
    by (rule safe_executePipelineStep [OF env F, where bx = "cx_blockExpansions (sn_context sn)"])
      (use deep that in \<open>auto simp: find_expansion_def top_ctx_def list_all_iff\<close>)
  show ?thesis
    unfolding execute_pinned_def
    by (intro triple_bnd [OF safe_registerSecrets [OF F]] triple_bnd [OF triple_modify]
        triple_finally_leave triple_run_to_end F) (simp_all add: inp run)
qed

lemma catches_execute_pinned: "catches (execute_pinned n polls ops inp i sn saved)"
  unfolding execute_pinned_def by (intro catches_rules catches_finally_leave catches_run_to_end)

text \<open>The run is not under way any more.\<close>

lemma finally_leave_free:
  "finally_with m (\<lambda>_. leave_run i) w = (r, w') \<Longrightarrow> r \<noteq> Inl Diverge \<Longrightarrow> i \<notin> set (w_executing w')"
  by (auto simp: finally_with_def leave_run_def split: prod.splits sum.splits exn.splits)

lemma execution_leaves:
  assumes "executeDeclarativePipeline n polls ops inp i w = (r, w')" and "i \<notin> set (w_executing w)"
    and "getRun (w_store w) i = Some saved" and "r \<noteq> Inl Diverge"
  shows "i \<notin> set (w_executing w')"
proof (cases "snapshot (w_store w) i")
  case None
  with assms show ?thesis
    by (auto simp: executeDeclarativePipeline_def bnd_run leave_run_def)
next
  case (Some sn)
  with assms obtain u m where "finally_with m (\<lambda>_. leave_run i) u = (r, w')"
    by (auto simp: executeDeclarativePipeline_def bnd_run execute_pinned_def)
  then show ?thesis using assms(4) by (rule finally_leave_free)
qed

text \<open>The contract of an execution that is not under way already.\<close>

lemma execution:
  assumes env: "env_ok ops" and ok: "store_ok (w_store w)" and idle: "i \<notin> set (w_executing w)"
    and known: "getRun (w_store w) i = Some saved"
    and deep: "\<And>sn. snapshot (w_store w) i = Some sn \<Longrightarrow> d \<or>
       list_all (simple n (cx_blockExpansions (sn_context sn)) []) (dp_steps (pd_spec (sn_definition sn)))"
    and res: "executeDeclarativePipeline n polls ops inp i w = (r, w')"
  shows "store_ok (w_store w') \<and> moves (w_store w) (w_store w') \<and>
     ((d \<and> r = Inl Diverge) \<or> (\<exists>x. r = Inr x \<and> ended i x (w_store w')))"
proof -
  let ?w = "w\<lparr>w_executing := i # w_executing w\<rparr>"
  show ?thesis
  proof (cases "snapshot (w_store w) i")
    case None
    let ?s = "blockMissingPipelineHistory saved (w_store w)"
    from res idle known None have r: "r = Inr (getRun ?s i)" "w_store w' = ?s"
      by (auto simp: executeDeclarativePipeline_def bnd_run leave_run_def)
    have "r_id saved = i" using known by (auto simp: getRun_def dest: row_SomeD)
    then have "\<not> is_running ?s i"
      unfolding blockMissingPipelineHistory_def by (simp add: completeRun_ends)
    moreover have "progress (w_store w) ?s"
      unfolding blockMissingPipelineHistory_def
      by (rule progress.R_trans [OF progress.addEvent_R progress.completeRun_R]) simp
    ultimately show ?thesis using r ok by (auto simp: progress_def ended_def)
  next
    case (Some sn)
    from res idle known Some have m: "execute_pinned n polls ops inp i sn saved ?w = (r, w')"
      by (simp add: executeDeclarativePipeline_def bnd_run)
    have pre: "store_ok (w_store ?w)" "snapshot (w_store ?w) i = Some sn \<and> run_known i (w_store ?w)"
      using ok Some known by (simp_all add: run_known_def)
    note 1 = tripleD [OF triple_execute_pinned [OF env deep [OF Some]] pre m]
    have "e = Diverge" if "r = Inl e" for e
      using catches_execute_pinned [of n polls ops inp i sn saved, unfolded catches_def, rule_format, of ?w e] m that
      by simp
    with 1 show ?thesis by (cases r) auto
  qed
qed

end
