(* ===== verification/Run_Contract.thy ===== *)
theory Run_Contract
  imports Samples Run_Total
begin

text \<open>
  What the runner promises of whole executions: a run ends, whatever its steps do; a database it
  writes stays well-formed and keeps what is settled; a run is created with its pins or not at all;
  a step that is recorded as done is not done again.
\<close>

section \<open>An idle environment\<close>

text \<open>No functions, no agents and no network; only the clock goes on while the runner sleeps.\<close>

definition idle :: "string list ops" where
  "idle = \<lparr>op_env = (\<lambda>_. None), op_url = (\<lambda>_. None), op_hash = (\<lambda>_. Some ''hash''), op_registry = (\<lambda>_. None),
     op_secretFunction = (\<lambda>_. None), op_deleteConversation = (\<lambda>_ _. ret JNull),
     op_completedTurn = (\<lambda>_ _ _ _ _. ret JNull),
     op_sleep = (\<lambda>ms. alter (\<lambda>s. s\<lparr>db_clock := db_clock s + ms\<rparr>)), op_isAgent = (\<lambda>_. True),
     op_getSession = (\<lambda>_ _. None), op_createSession = (\<lambda>_. throw (Err ''no session'')), op_ready = (\<lambda>_. ret ()),
     op_deliver = (\<lambda>_ _. ret None), op_runtimeStatus = (\<lambda>_ _. ret None), op_sync = (\<lambda>_. ret ()),
     op_stop = (\<lambda>sid. modify (\<lambda>w. w\<lparr>w_env := w_env w @ [sid]\<rparr>)), op_messages = (\<lambda>_ _. []),
     op_bindWebhook = (\<lambda>_ _ _ _ _ _. ret ()), op_prompt = (\<lambda>_ _ _ _ _. ''prompt''), op_apiKey = ret ''key'',
     op_secrets = [], op_fetch = (\<lambda>_ _ _ _. ret Aborted), op_parse = (\<lambda>_. Inl ''no json''),
     op_childDefinition = (\<lambda>_ _ _. throw (Err ''no definition'')), op_schedule = (\<lambda>_ _. None)\<rparr>"

lemma calm_same: "(\<And>w. w_store (snd (m w)) = w_store w) \<Longrightarrow> (\<And>w e. fst (m w) = Inl e \<Longrightarrow> \<exists>msg. e = Err msg) \<Longrightarrow> calm m"
  by (simp add: calm_def moves_refl)

lemma calm_pure: "calm (ret x)" "calm (throw (Err e))" "calm (modify (\<lambda>w. w\<lparr>w_env := f w\<rparr>))"
  by (rule calm_same; auto)+

lemma calm_tick: "calm (alter (\<lambda>s. s\<lparr>db_clock := db_clock s + ms\<rparr>))"
proof -
  have "moves s (s\<lparr>db_clock := db_clock s + ms\<rparr>)" for s
    by (simp add: moves_def settled_kept_def steps_kept_def logs_grow_def clock_le_def getRun_def getStep_def)
  moreover have "store_ok (s\<lparr>db_clock := db_clock s + ms\<rparr>) = store_ok s" for s
    by (simp add: store_ok_def link_ok_def cancelled_ok_def)
  ultimately show ?thesis by (simp add: calm_def)
qed

lemma idle_ok: "env_ok idle"
  by (simp add: env_ok_def idle_def calm_tick calm_pure ticks_def del: ret_run throw_run modify_run alter_run)
    (simp add: alter_run)

text \<open>A running run with the given steps, created from its definition and not yet executed.\<close>

definition started :: "dstep list \<Rightarrow> string list world" where
  "started steps = \<lparr>w_store = empty_store\<lparr>db_runs := [sample_run 0 ''sample''], db_nextId := 1,
     db_snapshots := [\<lparr>sn_runId = 0, sn_definition = \<lparr>pd_id = ''sample'', pd_slug = ''sample'', pd_name = ''sample'',
        pd_scope = Shared, pd_ownerAlias = None, pd_path = ''sample.json'', pd_spec = sample_pipeline steps\<rparr>,
        sn_context = \<lparr>cx_blockExpansions = (case snapshotPipelineBlocks steps of Inl _ \<Rightarrow> [] | Inr bx \<Rightarrow> bx),
          cx_functionHashes = None, cx_initiatingAgentProfileId = None, cx_initiatingAgentNpub = None\<rparr>\<rparr>]\<rparr>,
     w_stepIndex = (\<lambda>_. 0), w_executing = [], w_env = []\<rparr>"

lemma started_ok: "store_ok (w_store (started steps))"
  by (simp add: started_def sample_defs store_ok_def ids_ok_def run_ok_def cancelled_ok_def)

lemma started_run: "getRun (w_store (started steps)) 0 = Some (sample_run 0 ''sample'')"
  by (simp add: started_def sample_defs getRun_def)

definition sample_input :: "dstep list \<Rightarrow> run_input" where
  "sample_input steps = \<lparr>in_definition = \<lparr>pd_id = ''sample'', pd_slug = ''sample'', pd_name = ''sample'', pd_scope = Shared,
     pd_ownerAlias = None, pd_path = ''sample.json'', pd_spec = sample_pipeline steps\<rparr>, in_input = [(''a'', JStr ''x'')],
     in_ownerNpub = None, in_ownerAlias = None, in_defaultAgent = None, in_profileId = None, in_agentNpub = None\<rparr>"

section \<open>Executions\<close>

text \<open>
  C1: Executing a run that is not under way, whatever its definition, its steps and the answers of
  its environment are, keeps the database well-formed; no run that had ended changes its outcome, no
  step changes its identity, falls behind in its order of states or loses its cancellation, the logs,
  snapshots and links only grow and the clock does not go back. Every error of a step is caught: the
  execution ends with the run as it is stored, which is not running then and not under way any more,
  unless it waits for children of a parallel step for ever.
\<close>

theorem execution_safe:
  assumes "env_ok ops" and "store_ok (w_store w)" and "i \<notin> set (w_executing w)"
    and "getRun (w_store w) i = Some saved"
    and "executeDeclarativePipeline n polls ops inp i w = (r, w')"
  shows "store_ok (w_store w') \<and> settled_kept (w_store w) (w_store w') \<and> steps_kept (w_store w) (w_store w') \<and>
     logs_grow (w_store w) (w_store w') \<and> clock_le (w_store w) (w_store w') \<and>
     (r = Inl Diverge \<or> (\<exists>run. r = Inr (Some run) \<and> getRun (w_store w') i = Some run \<and>
        r_status run \<noteq> Running \<and> i \<notin> set (w_executing w')))"
proof -
  from execution [OF assms(1-4) _ assms(5), of True]
  have e: "store_ok (w_store w')" "moves (w_store w) (w_store w')"
    "r = Inl Diverge \<or> (\<exists>x. r = Inr x \<and> ended i x (w_store w'))" by auto
  from e(2) assms(4) obtain run where "getRun (w_store w') i = Some run"
    by (auto simp: moves_def settled_kept_def)
  with e execution_leaves [OF assms(5,3,4)] show ?thesis by (auto simp: moves_def ended_def is_running_def)
qed

theorem execution_safe_witness:
  "store_ok (w_store (snd (executeDeclarativePipeline 3 5 idle (sample_input []) 0 (started [sample_code]))))"
proof -
  obtain r w' where e: "executeDeclarativePipeline 3 5 idle (sample_input []) 0 (started [sample_code]) = (r, w')" by fastforce
  have "0 \<notin> set (w_executing (started [sample_code]))" by (simp add: started_def)
  from execution_safe [OF idle_ok started_ok this started_run e] e show ?thesis by simp
qed

text \<open>
  C6: The execution of a pipeline without parallel steps, whose nested loops and expanded blocks are
  no deeper than the nesting allowed, ends: it returns the run as it is stored, and the run has
  ended. Waits for agents, grace periods and child pipelines, retries and backward jumps all
  come to an end. A run whose snapshot is missing ends as well, and the run may be executed again.
\<close>

theorem execution_ends:
  assumes "env_ok ops" and "store_ok (w_store w)" and "i \<notin> set (w_executing w)"
    and "getRun (w_store w) i = Some saved"
    and "\<And>sn. snapshot (w_store w) i = Some sn \<Longrightarrow>
       list_all (simple n (cx_blockExpansions (sn_context sn)) []) (dp_steps (pd_spec (sn_definition sn)))"
  shows "\<exists>run w'. executeDeclarativePipeline n polls ops inp i w = (Inr (Some run), w') \<and>
     getRun (w_store w') i = Some run \<and> r_status run \<noteq> Running \<and> i \<notin> set (w_executing w')"
proof -
  obtain r w' where e: "executeDeclarativePipeline n polls ops inp i w = (r, w')" by fastforce
  from execution [OF assms(1-4) _ e, of False] assms(5)
  have r: "moves (w_store w) (w_store w')" "\<exists>x. r = Inr x \<and> ended i x (w_store w')" by auto
  from r(1) assms(4) obtain run where "getRun (w_store w') i = Some run"
    by (auto simp: moves_def settled_kept_def)
  with r(2) e execution_leaves [OF e assms(3,4)] show ?thesis by (auto simp: ended_def is_running_def)
qed

theorem execution_ends_witness:
  "\<exists>run w'. executeDeclarativePipeline 3 0 idle (sample_input []) 0 (started [sample_loop, sample_child]) = (Inr (Some run), w') \<and>
     r_status run \<noteq> Running"
proof -
  have idle: "0 \<notin> set (w_executing (started [sample_loop, sample_child]))" by (simp add: started_def)
  have "list_all (simple 3 (cx_blockExpansions (sn_context sn)) []) (dp_steps (pd_spec (sn_definition sn)))"
    if "snapshot (w_store (started [sample_loop, sample_child])) 0 = Some sn" for sn
  proof -
    have "list_all (simple 3 (case snapshotPipelineBlocks [sample_loop, sample_child] of Inl _ \<Rightarrow> [] | Inr bx \<Rightarrow> bx) [])
       [sample_loop, sample_child]" by code_simp
    with that show ?thesis by (auto simp: started_def snapshot_def sample_pipeline_def)
  qed
  from execution_ends [OF idle_ok started_ok idle started_run this, of 0 "sample_input []"] show ?thesis by blast
qed

section \<open>Creation\<close>

lemma registerSecrets_frame [simp]:
  "getRun (registerSecrets xs s) = getRun s" "snapshot (registerSecrets xs s) = snapshot s"
  "db_nextId (registerSecrets xs s) = db_nextId s" "db_runs (registerSecrets xs s) = db_runs s"
  "db_steps (registerSecrets xs s) = db_steps s" "db_links (registerSecrets xs s) = db_links s"
proof -
  have "db_runs (registerSecrets xs s) = db_runs s \<and> db_steps (registerSecrets xs s) = db_steps s \<and>
     db_links (registerSecrets xs s) = db_links s \<and> db_nextId (registerSecrets xs s) = db_nextId s \<and>
     db_snapshots (registerSecrets xs s) = db_snapshots s"
    unfolding registerSecrets_def by (induction xs arbitrary: s) (simp_all add: registerSecret_def)
  then show "getRun (registerSecrets xs s) = getRun s" "snapshot (registerSecrets xs s) = snapshot s"
    "db_nextId (registerSecrets xs s) = db_nextId s" "db_runs (registerSecrets xs s) = db_runs s"
    "db_steps (registerSecrets xs s) = db_steps s" "db_links (registerSecrets xs s) = db_links s"
    by (simp_all add: getRun_def snapshot_def fun_eq_iff)
qed

text \<open>What the runner pins with a run.\<close>

definition pinned :: "'e ops \<Rightarrow> run_input \<Rightarrow> snapshot_row \<Rightarrow> bool" where
  "pinned ops inp sn \<longleftrightarrow> sn_definition sn = in_definition inp \<and>
     snapshotPipelineBlocks (dp_steps (pd_spec (in_definition inp))) = Inr (cx_blockExpansions (sn_context sn)) \<and>
     map_sum id Some (pipelineFunctionHashes (op_hash ops) (pd_spec (in_definition inp))) = Inr (cx_functionHashes (sn_context sn))"

lemma pinned_accepted: "pinned ops inp sn \<Longrightarrow> assertPipelineFunctionPins (op_hash ops) (cx_functionHashes (sn_context sn)) = None"
proof (cases "pipelineFunctionHashes (op_hash ops) (pd_spec (in_definition inp))")
  case (Inr hs)
  moreover assume "pinned ops inp sn"
  moreover have "pins_true (op_hash ops) hs"
    using Inr hash_true(1) unfolding pipelineFunctionHashes_def by (auto simp: pins_true_def)
  ultimately show ?thesis by (simp add: pinned_def pins_accept)
qed (simp add: pinned_def)

lemma create_fails:
  "createPipelineRun ops inp onRunCreated w = (Inl e, w') \<Longrightarrow>
     w' = w\<lparr>w_store := registerSecrets (op_secrets ops) (w_store w)\<rparr> \<and> (\<exists>m. e = Err m)"
  by (auto simp: createPipelineRun_def bnd_run transact_def require_def split: sum.splits prod.splits option.splits)

lemma create_succeeds:
  assumes ok: "store_ok (w_store w)" and new: "snapshot (w_store w) (db_nextId (w_store w)) = None"
    and res: "createPipelineRun ops inp (\<lambda>_ s. Some s) w = (Inr i, w')"
  shows "getRun (w_store w) i = None \<and> w_executing w' = w_executing w \<and>
     db_steps (w_store w') = db_steps (w_store w) \<and> db_links (w_store w') = db_links (w_store w) \<and>
     (\<forall>j. j \<noteq> i \<longrightarrow> getRun (w_store w') j = getRun (w_store w) j \<and> snapshot (w_store w') j = snapshot (w_store w) j) \<and>
     (\<exists>run sn. getRun (w_store w') i = Some run \<and> r_id run = i \<and> r_status run = Running \<and> r_cursorIndex run = 0 \<and>
        r_input run = stored (in_input inp) \<and> r_current run = stored (in_input inp) \<and>
        snapshot (w_store w') i = Some sn \<and> pinned ops inp sn)"
proof -
  let ?d = "in_definition inp" and ?s = "registerSecrets (op_secrets ops) (w_store w)"
  from res obtain t where t: "create_transaction ops inp (\<lambda>_ s. Some s) ?s = Inr (i, t)"
    and w': "w' = w\<lparr>w_store := t\<rparr>"
    by (auto simp: createPipelineRun_def bnd_run transact_def require_def split: sum.splits prod.splits option.splits)
  let ?run = "\<lparr>r_id = i, r_definitionId = pd_id ?d, r_definitionPath = Some (pd_path ?d),
      r_name = dp_name (pd_spec ?d), r_status = Running, r_ownerNpub = in_ownerNpub inp, r_ownerAlias = in_ownerAlias inp,
      r_scope = pd_scope ?d, r_input = stored (in_input inp), r_current = stored (in_input inp), r_cursorIndex = 0,
      r_activeStepId = None, r_result = None, r_error = None, r_startedAt = db_clock ?s, r_completedAt = None\<rparr>"
  from t obtain hs bs where hs: "pipelineFunctionHashes (op_hash ops) (pd_spec ?d) = Inr hs"
    and bs: "snapshotPipelineBlocks (dp_steps (pd_spec ?d)) = Inr bs" and i: "i = db_nextId (w_store w)"
    and te: "t = pin i ?d \<lparr>cx_blockExpansions = bs, cx_functionHashes = Some hs,
           cx_initiatingAgentProfileId = in_profileId inp, cx_initiatingAgentNpub = in_agentNpub inp\<rparr>
         (?s\<lparr>db_runs := db_runs (w_store w) @ [?run], db_nextId := Suc i\<rparr>)"
    by (cases "pipelineFunctionHashes (op_hash ops) (pd_spec ?d)"; cases "snapshotPipelineBlocks (dp_steps (pd_spec ?d))")
      (auto simp: create_transaction_def createRun_def Let_def)
  have none: "getRun (w_store w) i = None"
    using ok i by (auto simp: store_ok_def ids_ok_def getRun_def row_None_iff)
  then have "getRun t = (getRun (w_store w))(i \<mapsto> ?run)"
    unfolding te by (auto simp: fun_eq_iff getRun_def pin_def row_append split: option.splits)
  moreover have "snapshot t j = (if j = i then Some \<lparr>sn_runId = i, sn_definition = ?d,
      sn_context = \<lparr>cx_blockExpansions = bs, cx_functionHashes = Some hs,
           cx_initiatingAgentProfileId = in_profileId inp, cx_initiatingAgentNpub = in_agentNpub inp\<rparr>\<rparr> else snapshot (w_store w) j)" for j
    using new i registerSecrets_frame(2) [of "op_secrets ops" "w_store w"] unfolding te snapshot_def pin_def fun_eq_iff
    by (auto simp: row_append split: option.splits)
  ultimately show ?thesis
    using none bs hs w' by (simp add: te pin_def pinned_def)
qed

text \<open>
  C12: A run is created with its pins or not at all. When anything fails, the validation of the
  definition, the hash of a function, the expansion of a block or the hook that links a child to its
  parent, nothing is left of it but the registered secrets. Otherwise the run is new and running at the start of its
  steps with the given input as its state, every other run is as before, and the snapshot holds the
  definition, the expansion of its blocks and the hashes of its functions, which the unchanged
  registry accepts.
\<close>

theorem createPipelineRun_atomic:
  assumes "store_ok (w_store w)" and "snapshot (w_store w) (db_nextId (w_store w)) = None"
  shows "(\<forall>hook e w'. createPipelineRun ops inp hook w = (Inl e, w') \<longrightarrow>
        w' = w\<lparr>w_store := registerSecrets (op_secrets ops) (w_store w)\<rparr> \<and> (\<exists>m. e = Err m)) \<and>
     (\<forall>i w'. createPipelineRun ops inp (\<lambda>_ s. Some s) w = (Inr i, w') \<longrightarrow>
        getRun (w_store w) i = None \<and> (\<forall>j. j \<noteq> i \<longrightarrow> getRun (w_store w') j = getRun (w_store w) j) \<and>
        (\<exists>run sn. getRun (w_store w') i = Some run \<and> r_status run = Running \<and> r_cursorIndex run = 0 \<and>
           r_input run = stored (in_input inp) \<and> r_current run = stored (in_input inp) \<and>
           snapshot (w_store w') i = Some sn \<and> pinned ops inp sn \<and>
           assertPipelineFunctionPins (op_hash ops) (cx_functionHashes (sn_context sn)) = None))"
  using create_fails [of ops inp _ w] create_succeeds [OF assms, of ops inp] pinned_accepted [of ops inp] by blast

theorem createPipelineRun_atomic_witness:
  "\<exists>w' sn. createPipelineRun idle (sample_input [sample_code, sample_block]) (\<lambda>_ s. Some s) (started []) = (Inr 1, w') \<and>
     snapshot (w_store w') 1 = Some sn \<and> pinned idle (sample_input [sample_code, sample_block]) sn"
proof -
  have f: "snapshot (w_store (started [])) (db_nextId (w_store (started []))) = None" by code_simp
  have "fst (createPipelineRun idle (sample_input [sample_code, sample_block]) (\<lambda>_ s. Some s) (started [])) = Inr 1" by code_simp
  then obtain w' where w': "createPipelineRun idle (sample_input [sample_code, sample_block]) (\<lambda>_ s. Some s) (started []) = (Inr 1, w')"
    by (metis prod.collapse)
  from createPipelineRun_atomic [OF started_ok f] w' show ?thesis by blast
qed

text \<open>
  C13: Running a definition without parallel steps either creates nothing and reports why, or ends
  with a new run that keeps the input it was given and has ended.
\<close>

theorem runDeclarativePipeline_ends:
  assumes "env_ok ops" and "store_ok (w_store w)" and "snapshot (w_store w) (db_nextId (w_store w)) = None"
    and "\<forall>j \<in> set (w_executing w). getRun (w_store w) j \<noteq> None"
    and "\<And>bx. snapshotPipelineBlocks (dp_steps (pd_spec (in_definition inp))) = Inr bx \<Longrightarrow>
       list_all (simple n bx []) (dp_steps (pd_spec (in_definition inp)))"
  shows "\<exists>r w'. runDeclarativePipeline n polls ops inp w = (r, w') \<and>
     (case r of Inl e \<Rightarrow> (\<exists>m. e = Err m) \<and> db_runs (w_store w') = db_runs (w_store w) \<and> db_steps (w_store w') = db_steps (w_store w)
      | Inr x \<Rightarrow> (\<exists>run. x = Some run \<and> getRun (w_store w) (r_id run) = None \<and> getRun (w_store w') (r_id run) = Some run \<and>
           r_status run \<noteq> Running \<and> r_input run = stored (in_input inp)))"
proof -
  obtain c u where c: "createPipelineRun ops inp (\<lambda>_ s. Some s) w = (c, u)" by fastforce
  show ?thesis
  proof (cases c)
    case (Inl e)
    from create_fails [OF c [unfolded Inl]] c Inl show ?thesis
      by (auto simp: runDeclarativePipeline_def bnd_run)
  next
    case (Inr i)
    from create_succeeds [OF assms(2,3) c [unfolded Inr]] obtain run sn where
      i: "getRun (w_store w) i = None" "w_executing u = w_executing w" "getRun (w_store u) i = Some run"
        "r_input run = stored (in_input inp)" "r_id run = i" "snapshot (w_store u) i = Some sn" "pinned ops inp sn" by blast
    have "safe True None (\<lambda>_. True) (createPipelineRun ops inp (\<lambda>_ s. Some s))"
      by (rule safe_createPipelineRun [OF stable_const create_transaction_top])
    from tripleD [OF this assms(2) _ c] have ok: "store_ok (w_store u)" by simp
    obtain r w' where e: "executeDeclarativePipeline n polls ops inp i u = (r, w')" by fastforce
    have idle: "i \<notin> set (w_executing u)" using assms(4) i(1,2) by auto
    have x: "moves (w_store u) (w_store w')" "\<exists>x. r = Inr x \<and> ended i x (w_store w')"
      using execution [OF assms(1) ok idle i(3) _ e, of False] assms(5) i(6,7) by (auto simp: pinned_def)
    from x(1) i(3) obtain run' where "getRun (w_store w') i = Some run'" "r_input run' = r_input run"
      by (auto simp: moves_def settled_kept_def)
    moreover from this have "r_id run' = i" by (auto simp: getRun_def dest: row_SomeD)
    ultimately show ?thesis
      using x(2) c e Inr i by (auto simp: runDeclarativePipeline_def bnd_run ended_def is_running_def)
  qed
qed

theorem runDeclarativePipeline_ends_witness:
  "\<exists>r w'. runDeclarativePipeline 2 0 idle (sample_input [sample_block]) (started []) = (r, w') \<and> r \<noteq> Inl Diverge"
proof -
  have s: "list_all (simple 2 bx []) (dp_steps (pd_spec (in_definition (sample_input [sample_block]))))"
    if "snapshotPipelineBlocks (dp_steps (pd_spec (in_definition (sample_input [sample_block])))) = Inr bx" for bx
  proof -
    have "case snapshotPipelineBlocks (dp_steps (pd_spec (in_definition (sample_input [sample_block])))) of
        Inl _ \<Rightarrow> True | Inr bx \<Rightarrow> list_all (simple 2 bx []) (dp_steps (pd_spec (in_definition (sample_input [sample_block]))))"
      by code_simp
    with that show ?thesis by simp
  qed
  have f: "snapshot (w_store (started [])) (db_nextId (w_store (started []))) = None"
    "\<forall>j \<in> set (w_executing (started [])). getRun (w_store (started [])) j \<noteq> None" by code_simp+
  obtain r w' where e: "runDeclarativePipeline 2 0 idle (sample_input [sample_block]) (started []) = (r, w')" by fastforce
  from runDeclarativePipeline_ends [OF idle_ok started_ok f s, of 0] e have "r \<noteq> Inl Diverge" by auto
  with e show ?thesis by blast
qed

end
