(* ===== verification/Engine_Contract.thy ===== *)
theory Engine_Contract
  imports Run_Contract
begin

text \<open>
  What the step types promise: a step recorded as done is replayed and not done again, the children of
  a parallel step stay within its limits, and a tree of runs is cancelled with the sessions of its
  steps.
\<close>

section \<open>Restarts\<close>

text \<open>
  The step types whose record alone is replayed. An agent step finalizes its session and completes
  its record again, and a classifier with an input function prepares its input again.
\<close>

fun replays :: "dstep \<Rightarrow> bool" where
  "replays (AgentStep _ _) = False"
| "replays (ClassifierStep _ cl) = (nonempty (cl_inputFunction cl) = None)"
| "replays _ = True"

definition replay :: "step_ctx \<Rightarrow> dstep \<Rightarrow> obj \<Rightarrow> step_row \<Rightarrow> (outcome, 'e) io" where
  "replay cx step current st = (case step of
     CodeStep _ _ \<Rightarrow> if st_output st = None then ret (recorded st, None)
       else bnd (assign_io current (recorded st) (sb_assign (base step))) (\<lambda>next. ret (next, None))
   | BlockStep _ _ \<Rightarrow> (case st_result st of
       None \<Rightarrow> throw (Err (''Completed historical block state is unavailable: '' @ step_name cx step))
     | Some r \<Rightarrow> ret (r, None))
   | LoopStep _ lo steps \<Rightarrow> resume_loop cx step lo steps current st
   | ParallelStep _ _ _ \<Rightarrow> ret (case st_result st of None \<Rightarrow> current | Some r \<Rightarrow> r, None)
   | PipelineStep _ _ \<Rightarrow> ret (case st_result st of None \<Rightarrow> current | Some r \<Rightarrow> r, None)
   | _ \<Rightarrow> bnd (assign_io current (recorded st) (sb_assign (base step))) (\<lambda>next. ret (next, None)))"

text \<open>The step that is active already is marked as active again.\<close>

lemma change_same:
  assumes "distinct (map key rs)" and "row key k rs = Some r" and "f r = r"
  shows "change key k g f rs = rs"
  unfolding change_def
proof (rule map_idI)
  fix x assume x: "x \<in> set rs"
  have "x = r" if "key x = k"
    using row_distinct [OF assms(1) x] assms(2) that by simp
  with assms(3) show "(if key x = k \<and> g x then f x else x) = x" by auto
qed

lemma mark_again:
  assumes "store_ok s" and "getActiveStep s i nm k = Some st"
  shows "setRunActiveStep i (Some (st_id st)) s = s" and "child_record_of i s = Some st"
proof -
  from assms(2) obtain run where run: "getRun s i = Some run" "r_activeStepId run = Some (st_id st)" and
    st: "getStep s (st_id st) = Some st"
    by (auto simp: getActiveStep_def getStep_def split: option.splits if_splits dest: row_SomeD)
  have "distinct (map r_id (db_runs s))" using assms(1) by (simp add: store_ok_def ids_ok_def)
  from change_same [OF this run(1) [unfolded getRun_def]] run(2)
  show "setRunActiveStep i (Some (st_id st)) s = s" by (simp add: setRunActiveStep_def set_active_def)
  show "child_record_of i s = Some st" using run st by (simp add: child_record_of_def)
qed

lemma dispatch_replays:
  assumes "getActiveStep (w_store w) (x_runId cx) (step_name cx step) (kind_of step) = Some st"
    and "st_status st = Ok" and "replays step" and "store_ok (w_store w)"
  shows "dispatch run polls ops inp cx step current w = replay cx step current st w"
  using assms(1-3) mark_again [OF assms(4,1)]
  by (cases step) (simp_all add: dispatch_def replay_def exec_code_def exec_block_def exec_loop_def exec_parallel_def
      exec_classifier_def executeChildPipeline_def prepareClassifierInput_def active_step_def bnd_run Let_def)

lemma replay_quiet: "snd (replay cx step current st w) = w"
  by (cases step) (auto simp: replay_def assign_io_def resume_loop_def bnd_run lift_sum_def
      split: option.splits sum.splits prod.splits)

lemma executePipelineStep_goes:
  assumes "assertPipelineAncestorsRunning (x_runId cx) (w_store w) = None" and "throwIfRunCancelled (x_runId cx) (w_store w) = None"
    and "shouldRunStep current (sb_when (base step))"
  shows "executePipelineStep (Suc n) polls ops inp cx step current w =
    dispatch (executePipelineStep n polls ops inp) polls ops inp cx step current w"
  using assms by (simp add: bnd_run check_ancestors_def check_cancelled_def require_run)

lemma finish_step_SomeE:
  assumes "finish_step current step i result sid w = (Inr out, w')"
  obtains nxt t where "assignOutput current result (sb_assign (base step)) = Inr nxt" "out = (nxt, None)"
    "completeStep \<lparr>cp_id = i, cp_status = Ok, cp_result = Some nxt, cp_output = Some result, cp_error = None,
       cp_session = sid\<rparr> (w_store w) = Some t" "w' = w\<lparr>w_store := t\<rparr>"
  using assms that
  by (cases "assignOutput current result (sb_assign (base step))")
    (auto simp: finish_step_def assign_io_def complete_ok_def alter_opt_def alter_ret_def bnd_run lift_sum_def
      split: option.splits)

text \<open>
  The last write of a step: a block and a nested loop record the state they end in, a flat loop does
  its counting and records it, and the other steps record their result and the state with it.
\<close>

fun last_write :: "step_ctx \<Rightarrow> dstep \<Rightarrow> obj \<Rightarrow> uuid \<Rightarrow> outcome \<Rightarrow> 'e world \<Rightarrow> 'e world \<Rightarrow> bool" where
  "last_write cx (BlockStep b bs) current i out w w' \<longleftrightarrow>
     complete_ok i (fst out) (fst out) None w = (Inr (), w') \<and> snd out = None"
| "last_write cx (LoopStep b lo (Some steps)) current i out w w' \<longleftrightarrow>
     (\<exists>result. complete_ok i (fst out) result None w = (Inr (), w')) \<and> snd out = None"
| "last_write cx (LoopStep b lo None) current i out w w' \<longleftrightarrow>
     proper_path (counter_path (LoopStep b lo None) lo) \<and>
     run_flat_loop cx (LoopStep b lo None) lo current i w = (Inr out, w')"
| "last_write cx step current i out w w' \<longleftrightarrow>
     (\<exists>result sid. stored result = result \<and> finish_step current step i result sid w = (Inr out, w'))"

lemma complete_ok_SomeE:
  assumes "complete_ok i nxt result sid w = (Inr (), w')"
  obtains t where "completeStep \<lparr>cp_id = i, cp_status = Ok, cp_result = Some nxt, cp_output = Some result,
      cp_error = None, cp_session = sid\<rparr> (w_store w) = Some t" and "w' = w\<lparr>w_store := t\<rparr>"
  using assms that by (auto simp: complete_ok_def alter_opt_def alter_ret_def split: option.splits)

text \<open>It is what the runs of a block and of the two loops end with.\<close>

lemma block_writes_last:
  "run_block run cx (BlockStep b bs) current blockInput ex i w = (Inr out, w') \<Longrightarrow> \<exists>v. last_write cx (BlockStep b bs) current i out v w'"
  by (auto simp: run_block_def bnd_run split: sum.splits prod.splits)

lemma loop_writes_last:
  "run_nested_loop run cx (LoopStep b lo (Some ss)) lo ss current i w = (Inr out, w') \<Longrightarrow>
     \<exists>v. last_write cx (LoopStep b lo (Some ss)) current i out v w'"
  by (auto simp: run_nested_loop_def Let_def bnd_run split: sum.splits prod.splits if_splits) blast+

text \<open>The record a finished step leaves, as a restart finds it.\<close>

lemma finished_record:
  assumes a: "getActiveStep (w_store w) runId nm k = Some st" and c: "st_status st \<noteq> Cancelled"
    and t: "completeStep \<lparr>cp_id = st_id st, cp_status = Ok, cp_result = Some nxt,
      cp_output = Some result, cp_error = None, cp_session = sid\<rparr> (w_store w) = Some t"
  shows "\<exists>st'. getActiveStep t runId nm k = Some st' \<and> st_status st' = Ok \<and>
     st_result st' = Some (stored nxt) \<and> st_output st' = Some (stored result)"
proof -
  let ?c = "\<lparr>cp_id = st_id st, cp_status = Ok, cp_result = Some nxt, cp_output = Some result, cp_error = None,
    cp_session = sid\<rparr>"
  from a obtain run where run: "getRun (w_store w) runId = Some run" "r_activeStepId run = Some (st_id st)"
    "getStep (w_store w) (st_id st) = Some st" "st_runId st = runId" "st_name st = nm" "st_kind st = k"
    by (auto simp: getActiveStep_def getStep_def split: option.splits if_splits dest: row_SomeD)
  have "getStep (w_store w) (cp_id ?c) = Some st" using run(3) by simp
  from getStep_completeStep [OF t this c] getRun_completeStep [OF t] run show ?thesis
    by (fastforce simp: getActiveStep_def or_else_def)
qed

text \<open>A flat loop reads its own counter back.\<close>

lemma flat_loop_resumes:
  assumes f: "run_flat_loop cx step lo current i w = (Inr (nxt, jump), w')" and p: "proper_path (counter_path step lo)"
    and r: "st_result st = Some nxt"
  shows "resume_loop cx step lo None current st u = (Inr (nxt, jump), u)"
proof -
  let ?items = "case nonempty (lo_history lo) of None \<Rightarrow> [] | Some p \<Rightarrow> getHistoryItems current p"
  let ?n = "length ?items + 1" and ?rounds = "loop_iterations lo current"
  from f p obtain c where n: "nxt = set_parts (segments (counter_path step lo)) (JObj (jump_counter ?n ?rounds)) c"
    and j: "if ?n < ?rounds then \<exists>k. loop_target cx step lo = Inr k \<and> jump = Some k else jump = None"
    by (auto simp: run_flat_loop_def assign_io_def assignOutput_proper bnd_run lift_sum_def Let_def
        split: if_splits sum.splits prod.splits)
  have "resolvePath nxt (counter_path step lo) = JObj (jump_counter ?n ?rounds)"
    using p by (simp add: n resolvePath_proper path_pos.rd_wr del: follow.simps)
  then show ?thesis
    using r j by (auto simp: resume_loop_def jump_counter_def get_def bnd_run lift_sum_def)
qed

text \<open>What the last write records is replayed as the outcome that was written.\<close>

lemma run_flat_loop_completes:
  assumes "run_flat_loop cx step lo current i w = (Inr (nxt, jump), w')"
  obtains captured where "complete_ok i nxt captured None w = (Inr (), w')"
  using assms that
  by (auto simp: run_flat_loop_def with_history_def assign_io_def bnd_run lift_sum_def Let_def
      split: option.splits if_splits sum.splits prod.splits)

lemma last_write_recorded:
  fixes w :: "'e world"
  assumes l: "last_write cx step current i out w w'" and r: "replays step"
  obtains result sid t where "completeStep \<lparr>cp_id = i, cp_status = Ok, cp_result = Some (fst out), cp_output = Some result,
      cp_error = None, cp_session = sid\<rparr> (w_store w) = Some t" and "w' = w\<lparr>w_store := t\<rparr>"
    and "\<And>st (u :: 'e world). st_result st = Some (fst out) \<Longrightarrow> st_output st = Some (stored result) \<Longrightarrow>
      replay cx step current st u = (Inr out, u)"
proof (cases "\<exists>b lo. step = LoopStep b lo None")
  case True
  then obtain b lo where step: "step = LoopStep b lo None" by blast
  obtain nxt jump where out: "out = (nxt, jump)" by fastforce
  from l step out have f: "run_flat_loop cx step lo current i w = (Inr (nxt, jump), w')"
    and p: "proper_path (counter_path step lo)" by simp_all
  from f obtain captured where "complete_ok i nxt captured None w = (Inr (), w')"
    by (rule run_flat_loop_completes)
  moreover have "replay cx step current st u = (Inr out, u)" if "st_result st = Some (fst out)" for st and u :: "'e world"
    using flat_loop_resumes [OF f p] that unfolding step out by (simp add: replay_def)
  ultimately show ?thesis using out by (elim complete_ok_SomeE) (rule that, auto)
next
  case False
  show ?thesis
  proof (cases "kind_of step \<in> {KBlock, KLoop}")
    case True
    with False obtain result where "complete_ok i (fst out) result None w = (Inr (), w')" "snd out = None"
      using l by (cases "(cx, step, current, i, out, w, w')" rule: last_write.cases) auto
    moreover have "replay cx step current st u = (Inr (fst out, None), u)" if "st_result st = Some (fst out)" for st and u :: "'e world"
      using True False that by (cases step) (auto simp: replay_def resume_loop_def)
    ultimately show ?thesis by (elim complete_ok_SomeE) (rule that, auto simp: prod_eq_iff)
  next
    case other: False
    with l obtain result sid where clean: "stored result = result" and f: "finish_step current step i result sid w = (Inr out, w')"
      by (cases "(cx, step, current, i, out, w, w')" rule: last_write.cases) auto
    from f show ?thesis
    proof (rule finish_step_SomeE)
      fix nxt t
      assume a: "assignOutput current result (sb_assign (base step)) = Inr nxt" and out: "out = (nxt, None)"
        and t: "completeStep \<lparr>cp_id = i, cp_status = Ok, cp_result = Some nxt, cp_output = Some result, cp_error = None,
          cp_session = sid\<rparr> (w_store w) = Some t" "w' = w\<lparr>w_store := t\<rparr>"
      have "replay cx step current st u = (Inr out, u)"
        if "st_result st = Some (fst out)" "st_output st = Some (stored result)" for st and u :: "'e world"
        using other r that a clean out by (cases step)
          (simp_all add: replay_def recorded_def or_else_def or_empty_def assign_io_def bnd_run lift_sum_def)
      with t out show thesis by (intro that) auto
    qed
  qed
qed

lemma completeStep_links: "completeStep c s = Some t \<Longrightarrow> db_links t = db_links s"
  by (erule completeStep_SomeE) (auto simp: complete_update_def Let_def)

lemma completeStep_checks:
  assumes "completeStep c s = Some t"
  shows "assertPipelineAncestorsRunning i t = assertPipelineAncestorsRunning i s"
    and "throwIfRunCancelled i t = throwIfRunCancelled i s"
proof -
  have "parent t j = parent s j" "is_running t j = is_running s j" for j
    using completeStep_links [OF assms] getRun_completeStep [OF assms] by (simp_all add: parent_def is_running_def)
  then have "ancestors_fuel n t i = ancestors_fuel n s i" for n
    using completeStep_clock [OF assms] by (induction n arbitrary: i) (simp_all split: option.split)
  then show "assertPipelineAncestorsRunning i t = assertPipelineAncestorsRunning i s"
    by (simp add: assertPipelineAncestorsRunning_def completeStep_links [OF assms] del: ancestors_fuel.simps)
  show "throwIfRunCancelled i t = throwIfRunCancelled i s"
    using getRun_completeStep [OF assms] by (simp add: throwIfRunCancelled_def)
qed


text \<open>A run that stopped while its code step was in the given state.\<close>

definition restarted :: "status \<Rightarrow> string list world" where
  "restarted st = (started [sample_code])\<lparr>w_store := empty_store\<lparr>
     db_runs := [(sample_run 0 ''sample'')\<lparr>r_activeStepId := Some 1\<rparr>],
     db_steps := [(sample_step 1 0 KCode st)\<lparr>st_name := ''code'', st_output := Some [(''n'', JStr ''v'')]\<rparr>],
     db_nextId := 2\<rparr>\<rparr>"


section \<open>Launches of parallel children\<close>

lemma start_child_id:
  assumes "start_child st w = (Inr running, w')"
  shows "st_id running = st_id st"
  using assms
  by (auto simp: start_child_def bnd_run alter_opt_def alter_ret_def getStep_def
      split: if_splits option.splits prod.splits sum.splits dest: row_SomeD)

text \<open>The launches among \<open>sts\<close> that take one of the slots for agents without a session.\<close>

definition slots :: "parallel_input \<Rightarrow> step_row list \<Rightarrow> uuid list \<Rightarrow> nat" where
  "slots p sts ids = length (filter (\<lambda>st. st_id st \<in> set ids \<and> uses_launch_slot p st) sts)"

lemma slots_later: "st_id st \<notin> set ids \<Longrightarrow> slots p (st # sts) ids = slots p sts ids"
  by (simp add: slots_def)

lemma slots_now:
  "st_id st \<notin> st_id ` set sts \<Longrightarrow> slots p (st # sts) (st_id st # ids) = (if uses_launch_slot p st then 1 else 0) + slots p sts ids"
proof -
  assume "st_id st \<notin> st_id ` set sts"
  then have "filter (\<lambda>x. st_id x \<in> set (st_id st # ids) \<and> uses_launch_slot p x) sts =
      filter (\<lambda>x. st_id x \<in> set ids \<and> uses_launch_slot p x) sts"
    by (intro filter_cong refl) (metis imageI list.set_intros(2) set_ConsD)
  then show ?thesis by (simp add: slots_def)
qed

text \<open>
  C14: One pass over the children of a parallel step launches only children of the list that are not
  launched yet, each once, in the order of the list; at no time more children are active than the
  concurrency limit allows, unless more were active before, and no more agents without a session are
  launched than the launch limit leaves room for.
\<close>

theorem launches_within_limits:
  assumes "launch_children ops p lm active pending sts w = (Inr active', w')" and "distinct (map st_id sts)"
  shows "\<exists>new. map st_id active' = map st_id active @ new \<and> subseq new (map st_id sts) \<and>
     set new \<inter> st_id ` set active = {} \<and>
     length active' \<le> max (length active) (lm_maxConcurrency lm) \<and>
     pending + slots p sts new \<le> max pending (lm_agentLaunch lm)"
  using assms
proof (induction sts arbitrary: active pending w)
  case Nil
  then show ?case by (intro exI [of _ "[]"]) (simp add: slots_def)
next
  case (Cons st sts)
  let ?slot = "uses_launch_slot p st"
  have full: ?case if "active' = active"
    using that by (intro exI [of _ "[]"]) (simp add: slots_def)
  have skip: ?case if "launch_children ops p lm active pending sts w = (Inr active', w')"
  proof -
    from Cons.IH [OF that] Cons.prems(2) obtain new where
      n: "map st_id active' = map st_id active @ new" "subseq new (map st_id sts)"
        "set new \<inter> st_id ` set active = {}" "length active' \<le> max (length active) (lm_maxConcurrency lm)"
        "pending + slots p sts new \<le> max pending (lm_agentLaunch lm)" by auto
    have "st_id st \<notin> set new" using n(2) Cons.prems(2) by (force elim: list_emb_set)
    with n show ?thesis by (intro exI [of _ new]) (simp add: slots_later list_emb_Cons)
  qed
  show ?case
  proof (cases "length active \<ge> lm_maxConcurrency lm")
    case True
    with Cons.prems(1) full show ?thesis by simp
  next
    case False
    show ?thesis
    proof (cases "st_id st \<in> st_id ` set active \<or> \<not> shouldLaunchParallelChild ops st w \<or> (?slot \<and> pending \<ge> lm_agentLaunch lm)")
      case True
      with False Cons.prems(1) have "launch_children ops p lm active pending sts w = (Inr active', w')"
        by (auto simp: bnd_run split: if_splits)
      then show ?thesis by (rule skip)
    next
      case go: False
      obtain r w1 where s: "start_child st w = (r, w1)" by fastforce
      with go False Cons.prems(1) obtain running where r: "r = Inr running"
        and l: "launch_children ops p lm (active @ [running]) (if ?slot then Suc pending else pending) sts w1 = (Inr active', w')"
        by (cases r) (auto simp: bnd_run)
      have i: "st_id running = st_id st" using start_child_id s r by blast
      from Cons.IH [OF l] Cons.prems(2) i obtain new where
        n: "map st_id active' = map st_id active @ st_id st # new" "subseq new (map st_id sts)"
          "set new \<inter> insert (st_id st) (st_id ` set active) = {}"
          "length active' \<le> max (Suc (length active)) (lm_maxConcurrency lm)"
          "(if ?slot then Suc pending else pending) + slots p sts new \<le> max (if ?slot then Suc pending else pending) (lm_agentLaunch lm)"
        by auto
      have "slots p (st # sts) (st_id st # new) = (if ?slot then 1 else 0) + slots p sts new"
        using Cons.prems(2) by (intro slots_now) auto
      with n go False show ?thesis
        by (intro exI [of _ "st_id st # new"]) (auto split: if_splits)
    qed
  qed
qed

text \<open>Three queued agents, two slots.\<close>

definition three_agents :: "step_row list" where
  "three_agents = map (\<lambda>i. (sample_step i 0 KAgent Queued)) [5, 6, 7]"

definition fan_out :: parallel_input where
  "fan_out = \<lparr>pl_runId = 0, pl_current = [], pl_base = sample_base ''fan'',
     pl_spec = \<lparr>pa_source = ''$.items'', pa_maxConcurrency = None, pa_agentLaunchConcurrency = None,
       pa_agentStartupRetries = None, pa_agentStartupRetryBackoffMs = None, pa_itemKey = None, pa_itemInput = None,
       pa_failurePolicy = None\<rparr>,
     pl_child = AgentStep (sample_base ''agent'') \<lparr>ag_prompt = ''p'', ag_activityWebhook = None, ag_agent = None,
       ag_model = None, ag_directory = None, ag_timeoutMs = None\<rparr>, pl_parentStepId = 2, pl_parentStepName = ''fan''\<rparr>"

theorem launches_within_limits_witness:
  "\<exists>active' w'. launch_children idle fan_out \<lparr>lm_maxConcurrency = 5, lm_agentLaunch = 2, lm_retries = 0, lm_backoffMs = 0\<rparr>
     [] 0 three_agents ((started [])\<lparr>w_store := family\<lparr>db_steps := three_agents\<rparr>\<rparr>) = (Inr active', w') \<and>
     map st_id active' = [5, 6] \<and> 0 + slots fan_out three_agents [5, 6] \<le> 2"
proof -
  let ?lm = "\<lparr>lm_maxConcurrency = 5, lm_agentLaunch = 2, lm_retries = 0, lm_backoffMs = 0\<rparr>"
  let ?w = "(started [])\<lparr>w_store := family\<lparr>db_steps := three_agents\<rparr>\<rparr>"
  have "map_sum id (map st_id) (fst (launch_children idle fan_out ?lm [] 0 three_agents ?w)) = Inr [5, 6]" by code_simp
  then obtain active' w' where l: "launch_children idle fan_out ?lm [] 0 three_agents ?w = (Inr active', w')"
    and i: "map st_id active' = [5, 6]"
    by (cases "launch_children idle fan_out ?lm [] 0 three_agents ?w"; cases "fst (launch_children idle fan_out ?lm [] 0 three_agents ?w)") auto
  have "distinct (map st_id three_agents)" by code_simp
  from launches_within_limits [OF l this] l i show ?thesis by auto
qed

section \<open>Cancelling a tree of runs\<close>

lemma set_those: "those xs = Some ys \<Longrightarrow> set ys = {y. Some y \<in> set xs}"
  by (induction xs arbitrary: ys) (auto split: option.splits)

lemma those_some_all: "those xs = Some ys \<Longrightarrow> x \<in> set xs \<Longrightarrow> x \<noteq> None"
  by (induction xs arbitrary: ys) (auto split: option.splits)

lemma tree_fuel_reaches: "tree_fuel n s i = Some ts \<Longrightarrow> set ts = {j. (i, j) \<in> (linked s)\<^sup>*}"
proof (induction n arbitrary: i ts)
  case (Suc n)
  from Suc.prems obtain us where us: "those (map (\<lambda>l. tree_fuel n s (lk_childRunId l)) (children s i)) = Some us"
    and ts: "ts = i # concat us" by (auto split: option.splits)
  have sub: "Some u \<in> set (map (\<lambda>l. tree_fuel n s (lk_childRunId l)) (children s i)) \<longleftrightarrow>
      (\<exists>l \<in> set (children s i). tree_fuel n s (lk_childRunId l) = Some u)" for u by force
  have def: "\<exists>u. tree_fuel n s (lk_childRunId l) = Some u" if "l \<in> set (children s i)" for l
    using those_some_all [OF us] that by force
  have "set (concat us) = (\<Union>l \<in> set (children s i). {j. (lk_childRunId l, j) \<in> (linked s)\<^sup>*})"
    using Suc.IH def set_those [OF us] sub by fastforce
  also have "\<dots> = {j. \<exists>k. (i, k) \<in> linked s \<and> (k, j) \<in> (linked s)\<^sup>*}"
    by (force simp: children_def linked_def)
  finally show ?case
    using ts by (auto elim: converse_rtranclE intro: converse_rtrancl_into_rtrancl)
qed simp

lemma stop_all_run:
  assumes "\<And>sid. op_stop ops sid = modify (\<lambda>w. w\<lparr>w_env := w_env w @ [sid]\<rparr>)"
  shows "stop_all ops sids w = (Inr (), w\<lparr>w_env := w_env w @ sids\<rparr>)"
  by (induction sids arbitrary: w) (simp_all add: attempt_def try_catch_def handle_run assms bnd_run)

lemma sessions_given: "sid \<in> set (List.map_filter nonempty xs) \<longleftrightarrow> sid \<noteq> [] \<and> Some sid \<in> set xs"
  by (induction xs) (auto simp: List.map_filter_simps nonempty_def split: option.splits if_splits)

text \<open>
  C15: On a well-formed database the cancellation of a tree of runs ends; it leaves the database that
  \<open>cancelRun\<close> leaves, and then stops every agent session of a step of a run at or below the given
  one exactly once, and no other session.
\<close>

theorem cancelPipelineTree_stops:
  assumes "store_ok (w_store w)" and "\<And>sid. op_stop ops sid = modify (\<lambda>w. w\<lparr>w_env := w_env w @ [sid]\<rparr>)"
  shows "\<exists>t sids. cancelPipelineTree ops i reason w = (Inr (), w\<lparr>w_store := t, w_env := w_env w @ sids\<rparr>) \<and>
     cancelRun i reason (w_store w) = Some t \<and> distinct sids \<and>
     set sids = {sid. sid \<noteq> [] \<and> (\<exists>j. (i, j) \<in> (linked (w_store w))\<^sup>* \<and>
        (\<exists>st \<in> set (listSteps (w_store w) j). st_wingmanSessionId st = Some sid))}"
proof -
  let ?s = "w_store w"
  obtain runs where runs: "tree ?s i = Some runs" using tree_defined [OF assms(1)] by blast
  obtain t where t: "cancelRun i reason ?s = Some t" using cancelRun_defined [OF assms(1)] by blast
  have "set runs = {j. (i, j) \<in> (linked ?s)\<^sup>*}"
    using runs unfolding tree_def by (rule tree_fuel_reaches)
  then have "set (sessions_of_tree ?s runs) = {sid. sid \<noteq> [] \<and> (\<exists>j. (i, j) \<in> (linked ?s)\<^sup>* \<and>
        (\<exists>st \<in> set (listSteps ?s j). st_wingmanSessionId st = Some sid))}"
    by (auto simp: sessions_of_tree_def sessions_given image_iff) metis+
  with runs t show ?thesis
    by (intro exI [of _ t] exI [of _ "sessions_of_tree ?s runs"])
      (simp add: cancelPipelineTree_def bnd_run stop_all_run [OF assms(2)] sessions_of_tree_def)
qed

theorem cancelPipelineTree_stops_witness:
  "\<exists>t sids. cancelPipelineTree idle 0 ''stop'' ((started [])\<lparr>w_store := family\<rparr>) =
     (Inr (), (started [])\<lparr>w_store := t, w_env := sids\<rparr>) \<and> distinct sids"
proof -
  have "store_ok (w_store ((started [])\<lparr>w_store := family\<rparr>))" by (simp add: family_ok)
  from cancelPipelineTree_stops [OF this, of idle 0 "''stop''"] show ?thesis
    by (auto simp: idle_def started_def)
qed

end
