(* ===== verification/Loop_Contract.thy ===== *)
theory Loop_Contract
  imports Run_Contract
begin

text \<open>
  What the loops promise: a flat loop adds one entry to its history on each visit and jumps back until
  it holds as many as rounds, and the loop over the steps of a run executes no more of them than its
  limit.
\<close>

section \<open>Flat loops\<close>

text \<open>The paths a flat loop writes, when they are read back and apart from each other.\<close>

definition loop_paths :: "dstep \<Rightarrow> loop_spec \<Rightarrow> string \<Rightarrow> bool" where
  "loop_paths step lo h \<longleftrightarrow> lo_history lo = Some h \<and> proper_path h \<and> proper_path (counter_path step lo) \<and>
     fork (segments (counter_path step lo)) (segments h)"

lemma history_grows:
  assumes "loop_paths step lo h"
  shows "getHistoryItems (set_parts (segments (counter_path step lo)) c
      (set_parts (segments h) (JObj [(''items'', JArr items)]) current)) h = items"
  using assms
  by (simp add: loop_paths_def getHistoryItems_def resolvePath_proper path_pos.rd_wr_apart path_pos.rd_wr get_def
      del: follow.simps)

text \<open>
  C26: A visit of a flat loop that keeps a history adds exactly one entry to it, carries the captured
  values there, writes the counter, and jumps to its target exactly while the history holds fewer
  entries than rounds; so the loop is left on the visit that completes its rounds. A flat loop
  without a history counts nothing: each visit is the first one, and with two rounds or more
  it jumps back every time.
\<close>

theorem flat_loop_counts:
  assumes "run_flat_loop cx step lo current stepId w = (Inr (next, jump), w')"
  shows "(\<forall>h. loop_paths step lo h \<longrightarrow>
        (let n = length (getHistoryItems current h) in
         length (getHistoryItems next h) = Suc n \<and> take n (getHistoryItems next h) = getHistoryItems current h \<and>
         (jump = None \<longleftrightarrow> loop_iterations lo current \<le> Suc n) \<and>
         (\<forall>j. jump = Some j \<longrightarrow> loop_target cx step lo = Inr j))) \<and>
     (nonempty (lo_history lo) = None \<longrightarrow> 2 \<le> loop_iterations lo current \<longrightarrow> jump \<noteq> None)"
proof (intro conjI allI impI)
  fix h assume p: "loop_paths step lo h"
  let ?items = "getHistoryItems current h" and ?rounds = "loop_iterations lo current"
  let ?entry = "JObj (spread [(''iteration'', jnat (length ?items + 1))] (captureLoopValues current (lo_capture lo)))"
  have h: "nonempty (lo_history lo) = Some h" "proper_path h" "proper_path (counter_path step lo)"
    using p proper_path_nonempty by (auto simp: loop_paths_def nonempty_def)
  have "next = set_parts (segments (counter_path step lo)) (JObj (jump_counter (length ?items + 1) ?rounds))
       (set_parts (segments h) (JObj [(''items'', JArr (?items @ [?entry]))]) current) \<and>
     (jump = None \<longleftrightarrow> ?rounds \<le> Suc (length ?items)) \<and> (\<forall>j. jump = Some j \<longrightarrow> loop_target cx step lo = Inr j)"
    using assms h
    by (auto simp: run_flat_loop_def with_history_def assign_io_def assignOutput_proper bnd_run lift_sum_def Let_def
        split: if_splits sum.splits prod.splits)
  then show "let n = length ?items in length (getHistoryItems next h) = Suc n \<and> take n (getHistoryItems next h) = ?items \<and>
       (jump = None \<longleftrightarrow> ?rounds \<le> Suc n) \<and> (\<forall>j. jump = Some j \<longrightarrow> loop_target cx step lo = Inr j)"
    using history_grows [OF p] by (simp add: Let_def)
next
  assume "nonempty (lo_history lo) = None" "2 \<le> loop_iterations lo current"
  with assms show "jump \<noteq> None"
    by (auto simp: run_flat_loop_def with_history_def assign_io_def bnd_run lift_sum_def Let_def
        split: if_splits sum.splits prod.splits)
qed

definition counted_loop :: loop_spec where
  "counted_loop = \<lparr>lo_iterations = Some (NumLit (Fin 2)), lo_target = Some ''code'', lo_history = Some ''$.h'',
     lo_capture = None, lo_counter = Some ''$.n''\<rparr>"

definition sample_jump :: dstep where
  "sample_jump = LoopStep (sample_base ''jump'') counted_loop None"

theorem flat_loop_counts_witness:
  "\<exists>next w'. run_flat_loop (top_ctx 0 [sample_code, sample_jump]) sample_jump counted_loop [] 2
       ((started [])\<lparr>w_store := family\<rparr>) = (Inr (next, Some 0), w') \<and> length (getHistoryItems next ''$.h'') = 1"
proof -
  let ?w = "(started [])\<lparr>w_store := family\<rparr>" and ?cx = "top_ctx 0 [sample_code, sample_jump]"
  have "map_sum id snd (fst (run_flat_loop ?cx sample_jump counted_loop [] 2 ?w)) = Inr (Some 0)" by code_simp
  then obtain nxt w' where r: "run_flat_loop ?cx sample_jump counted_loop [] 2 ?w = (Inr (nxt, Some 0), w')"
    by (cases "run_flat_loop ?cx sample_jump counted_loop [] 2 ?w"; cases "fst (run_flat_loop ?cx sample_jump counted_loop [] 2 ?w)") auto
  have p: "loop_paths sample_jump counted_loop ''$.h''"
    unfolding loop_paths_def by (intro conjI) code_simp+
  have h: "getHistoryItems [] ''$.h'' = []" by code_simp
  from flat_loop_counts [OF r] p h r show ?thesis by (simp add: Let_def)
qed

section \<open>The limit of executed steps\<close>

lemma updateRunProgress_checks:
  "assertPipelineAncestorsRunning i (updateRunProgress j c k s) = assertPipelineAncestorsRunning i s"
  "throwIfRunCancelled i (updateRunProgress j c k s) = throwIfRunCancelled i s"
proof -
  have links: "db_links (updateRunProgress j c k s) = db_links s" "db_clock (updateRunProgress j c k s) = db_clock s"
    by (simp_all add: updateRunProgress_def)
  have "is_running (updateRunProgress j c k s) l = is_running s l" for l
    by (simp add: is_running_def getRun_updateRunProgress set_progress_def split: option.split)
  with links have "ancestors_fuel n (updateRunProgress j c k s) i = ancestors_fuel n s i" for n
    by (induction n arbitrary: i) (simp_all add: parent_def split: option.split)
  with links show "assertPipelineAncestorsRunning i (updateRunProgress j c k s) = assertPipelineAncestorsRunning i s"
    by (simp add: assertPipelineAncestorsRunning_def del: ancestors_fuel.simps)
  show "throwIfRunCancelled i (updateRunProgress j c k s) = throwIfRunCancelled i s"
    by (simp add: throwIfRunCancelled_def getRun_updateRunProgress set_progress_def split: option.split)
qed

text \<open>
  A step that was taken: from the state, the cursor and the world before it to those after it, with the
  progress of the run written behind it.
\<close>

definition takes_step ::
  "(step_ctx \<Rightarrow> dstep \<Rightarrow> obj \<Rightarrow> (outcome, 'e) io) \<Rightarrow> uuid \<Rightarrow> dstep list \<Rightarrow> obj \<times> nat \<times> 'e world \<Rightarrow> obj \<times> nat \<times> 'e world \<Rightarrow> bool" where
  "takes_step run i steps = (\<lambda>(c, k, w) (c', k', w').
     k < length steps \<and> assertPipelineAncestorsRunning i (w_store w) = None \<and> throwIfRunCancelled i (w_store w) = None \<and>
     (\<exists>jump u. run (top_ctx i steps) (steps ! k) c w = (Inr (c', jump), u) \<and> throwIfRunCancelled i (w_store u) = None \<and>
        k' = (case jump of Some j \<Rightarrow> j | None \<Rightarrow> k + 1) \<and> w' = u\<lparr>w_store := updateRunProgress i c' k' (w_store u)\<rparr>))"

text \<open>A run that may go on: its cursor is in range, its ancestors are running and it is not cancelled.\<close>

definition goes_on :: "uuid \<Rightarrow> dstep list \<Rightarrow> nat \<Rightarrow> 'e world \<Rightarrow> bool" where
  "goes_on i steps k w \<longleftrightarrow> k < length steps \<and> assertPipelineAncestorsRunning i (w_store w) = None \<and>
     throwIfRunCancelled i (w_store w) = None"

lemma turn_taken:
  "takes_step run i steps (c, k, w) (c', k', w') \<Longrightarrow> run_turn run (Suc n) i steps c k w = (Inr (c', k'), w')"
  by (auto simp: takes_step_def run_turn_def bnd_run check_ancestors_def check_cancelled_def require_run Let_def)

lemma turn_takes:
  "run_turn run (Suc n) i steps c k w = (Inr (c', k'), w') \<Longrightarrow> k < length steps \<Longrightarrow> takes_step run i steps (c, k, w) (c', k', w')"
  by (auto simp: takes_step_def run_turn_def bnd_run check_ancestors_def check_cancelled_def require_run Let_def
      split: option.splits sum.splits prod.splits)

lemma loop_takes_step:
  "takes_step run i steps (c, k, w) (c', k', w') \<Longrightarrow> run_loop (Suc n) run i steps c k w = run_loop n run i steps c' k' w'"
  using turn_taken [of run i steps c k w c' k' w' n]
  by (auto simp: takes_step_def attempt_def try_catch_def handle_run bnd_run)

lemma loop_at_limit:
  "goes_on i steps k w \<Longrightarrow> run_loop 0 run i steps c k w =
     (Inr (c, Some (Err ''Pipeline exceeded the maximum step execution limit'')), w)"
  by (simp add: goes_on_def run_turn_def attempt_def try_catch_def handle_run bnd_run check_ancestors_def check_cancelled_def require_run)

lemma turn_at_limit: "run_turn run 0 i steps c k w = (r, w') \<Longrightarrow> w' = w \<and> (\<exists>e. r = Inl e)"
  by (auto simp: run_turn_def bnd_run check_ancestors_def check_cancelled_def require_run split: option.splits)

lemma limit_reached:
  "(takes_step run i steps ^^ n) (c, k, w) (c', k', w') \<Longrightarrow> goes_on i steps k' w' \<Longrightarrow> run_loop n run i steps c k w =
     (Inr (c', Some (Err ''Pipeline exceeded the maximum step execution limit'')), w')"
proof (induction n arbitrary: c k w)
  case 0
  then show ?case by (simp add: loop_at_limit del: run_loop.simps)
next
  case (Suc n)
  obtain c1 k1 w1 where s: "takes_step run i steps (c, k, w) (c1, k1, w1)" "(takes_step run i steps ^^ n) (c1, k1, w1) (c', k', w')"
    using relpowp_Suc_D2 [OF Suc.prems(1)] by auto
  show ?case unfolding loop_takes_step [OF s(1)] by (rule Suc.IH [OF s(2) Suc.prems(2)])
qed

lemma limit_kept:
  "run_loop n run i steps c k w = (Inr (c', e), w') \<Longrightarrow>
   \<exists>j \<le> n. \<exists>k' v. (takes_step run i steps ^^ j) (c, k, w) (c', k', v) \<and>
     (e = None \<longrightarrow> length steps \<le> k') \<and> (length steps \<le> k' \<or> j = n \<longrightarrow> w' = v)"
proof (induction n arbitrary: c k w)
  case 0
  show ?case
  proof (cases "k < length steps")
    case True
    obtain r u where t: "run_turn run 0 i steps c k w = (r, u)" by fastforce
    from turn_at_limit [OF t] 0 True t have "c' = c" "w' = w" "e \<noteq> None"
      by (auto simp: attempt_def try_catch_def handle_run bnd_run split: if_splits)
    then show ?thesis by auto
  qed (use 0 in auto)
next
  case (Suc n)
  show ?case
  proof (cases "k < length steps")
    case False
    then show ?thesis using Suc.prems by (intro exI [of _ 0]) auto
  next
    case True
    obtain r u where t: "run_turn run (Suc n) i steps c k w = (r, u)" by fastforce
    show ?thesis
    proof (cases r)
      case (Inl x)
      then have "c' = c" "e \<noteq> None"
        using Suc.prems True t by (auto simp: attempt_def try_catch_def handle_run bnd_run split: if_splits)
      then show ?thesis using True by (intro exI [of _ 0]) auto
    next
      case (Inr out)
      then obtain c1 k1 where out: "r = Inr (c1, k1)" by (cases out) auto
      have s: "takes_step run i steps (c, k, w) (c1, k1, u)" using turn_takes t out True by blast
      then have "run_loop n run i steps c1 k1 u = (Inr (c', e), w')" using Suc.prems by (simp only: loop_takes_step)
      from Suc.IH [OF this] obtain j k' v where j: "j \<le> n" "(takes_step run i steps ^^ j) (c1, k1, u) (c', k', v)"
        "e = None \<longrightarrow> length steps \<le> k'" "length steps \<le> k' \<or> j = n \<longrightarrow> w' = v" by blast
      have "(takes_step run i steps ^^ Suc j) (c, k, w) (c', k', v)" using relpowp_Suc_I2 [of "takes_step run i steps"] s j(2) by blast
      with j show ?thesis by (intro exI [of _ "Suc j"]) auto
    qed
  qed
qed

text \<open>
  C27: The loop over the steps of a run executes at most as many steps as its limit, whatever the
  steps do: the state it ends in is the one after at most that many taken steps, it ends without an
  error only behind the last step, and when it has used up its limit, or passed the last step, it
  changes nothing any more. A run that may still go on after exactly that many steps ends with the
  error that says so, in the state and the world, its progress written, that the last of them left.
\<close>

theorem step_limit:
  fixes run :: "step_ctx \<Rightarrow> dstep \<Rightarrow> obj \<Rightarrow> (outcome, 'e) io"
  assumes "run = executePipelineStep m polls ops inp"
  shows "(\<forall>c' e w'. run_loop n run i steps c k w = (Inr (c', e), w') \<longrightarrow>
       (\<exists>j \<le> n. \<exists>k' v. (takes_step run i steps ^^ j) (c, k, w) (c', k', v) \<and>
          (e = None \<longrightarrow> length steps \<le> k') \<and> (length steps \<le> k' \<or> j = n \<longrightarrow> w' = v))) \<and>
     (\<forall>c' k' w'. (takes_step run i steps ^^ n) (c, k, w) (c', k', w') \<and> goes_on i steps k' w' \<longrightarrow>
        run_loop n run i steps c k w = (Inr (c', Some (Err ''Pipeline exceeded the maximum step execution limit'')), w'))"
  using limit_kept limit_reached by metis

text \<open>A loop without a history that jumps back to itself for ever.\<close>

definition endless_loop :: dstep where
  "endless_loop = LoopStep (sample_base ''jump'') \<lparr>lo_iterations = Some (NumLit (Fin 2)), lo_target = Some ''jump'',
     lo_history = None, lo_capture = None, lo_counter = Some ''$.n''\<rparr> None"

theorem step_limit_witness:
  "\<exists>c w'. run_loop 1 (executePipelineStep 1 0 idle (sample_input [])) 0 [endless_loop] [] 0 (started [endless_loop]) =
     (Inr (c, Some (Err ''Pipeline exceeded the maximum step execution limit'')), w') \<and>
     map_option r_current (getRun (w_store w') 0) = Some c \<and> c \<noteq> []"
proof -
  obtain run where run: "run = executePipelineStep 1 0 idle (sample_input [])" by blast
  let ?w = "started [endless_loop]" and ?cx = "top_ctx 0 [endless_loop]"
  let ?c = "[(''n'', JObj (jump_counter 1 2))]"
  have "fst (executePipelineStep 1 0 idle (sample_input []) ?cx endless_loop [] ?w) = Inr (?c, Some 0)" by code_simp
  then have "fst (run ?cx endless_loop [] ?w) = Inr (?c, Some 0)" by (simp only: run)
  then obtain u where u: "run ?cx endless_loop [] ?w = (Inr (?c, Some 0), u)"
    by (cases "run ?cx endless_loop [] ?w") auto
  let ?w' = "u\<lparr>w_store := updateRunProgress 0 ?c 0 (w_store u)\<rparr>"
  have "(\<lambda>u. (assertPipelineAncestorsRunning 0 (w_store u), throwIfRunCancelled 0 (w_store u),
      map_option r_current (getRun (updateRunProgress 0 ?c 0 (w_store u)) 0))) (snd (executePipelineStep 1 0 idle (sample_input []) ?cx endless_loop [] ?w)) =
      (None, None, Some ?c)" by code_simp
  then have "(\<lambda>u. (assertPipelineAncestorsRunning 0 (w_store u), throwIfRunCancelled 0 (w_store u),
      map_option r_current (getRun (updateRunProgress 0 ?c 0 (w_store u)) 0))) (snd (run ?cx endless_loop [] ?w)) =
      (None, None, Some ?c)" by (simp only: run)
  then have at_u: "assertPipelineAncestorsRunning 0 (w_store u) = None" "throwIfRunCancelled 0 (w_store u) = None"
    "map_option r_current (getRun (updateRunProgress 0 ?c 0 (w_store u)) 0) = Some ?c" using u by simp_all
  have start: "assertPipelineAncestorsRunning 0 (w_store ?w) = None" "throwIfRunCancelled 0 (w_store ?w) = None" by code_simp+
  have "takes_step run 0 [endless_loop] ([], 0, ?w) (?c, 0, ?w')"
    using u at_u(2) start by (simp add: takes_step_def)
  then have "(takes_step run 0 [endless_loop] ^^ 1) ([], 0, ?w) (?c, 0, ?w')" by (simp only: relpowp_1)
  moreover have "goes_on 0 [endless_loop] 0 ?w'"
    using at_u by (simp add: goes_on_def updateRunProgress_checks)
  ultimately have "run_loop 1 run 0 [endless_loop] [] 0 ?w =
      (Inr (?c, Some (Err ''Pipeline exceeded the maximum step execution limit'')), ?w')"
    using step_limit [OF run, of 1 0 "[endless_loop]" "[]" 0 ?w] by blast
  moreover have "map_option r_current (getRun (w_store ?w') 0) = Some ?c" using at_u(3) by simp
  moreover have "?c \<noteq> []" by blast
  ultimately show ?thesis unfolding run by blast
qed

end
