(* ===== verification/Prompt_Queue.thy ===== *)
theory Prompt_Queue
  imports Pipeline_Store
begin

text \<open>
  The durable queue of prompts to agent sessions (\<open>src/storage/prompt-queue-store.ts\<close> with its
  schema, row, retention and recovery modules). The table is a list of rows in the order of their
  rowids; an operation is a function of the database that returns or throws. A prompt is claimed by
  one dispatcher, handed over, and then dispatched, released or left for an operator.
\<close>

section \<open>Tables\<close>

datatype prompt_state = Pending | Claimed | Dispatched | Handled | Superseded

fun state_text :: "prompt_state \<Rightarrow> string" where
  "state_text Pending = ''pending''"
| "state_text Claimed = ''claimed''"
| "state_text Dispatched = ''dispatched''"
| "state_text Handled = ''handled''"
| "state_text Superseded = ''superseded''"

record queued_prompt =
  qp_rowid :: nat
  qp_id :: uuid
  qp_sessionId :: string
  qp_content :: string
  qp_timestamp :: nat
  qp_order :: nat
  qp_type :: "string option"
  qp_dedupeKey :: "string option"
  qp_payload :: "obj option"
  qp_revision :: nat
  qp_state :: prompt_state
  qp_handledAt :: "nat option"
  qp_handledBy :: "string option"
  qp_handledReason :: "string option"
  qp_claimToken :: "uuid option"
  qp_deliveryState :: "string option"
  qp_deliveryId :: "uuid option"
  qp_deliveryUpdatedAt :: "nat option"

record recovery_row =
  rc_rowid :: nat
  rc_sessionId :: string
  rc_itemId :: uuid
  rc_revision :: string
  rc_deliveryId :: "uuid option"
  rc_actor :: string
  rc_reason :: string
  rc_resolution :: string
  rc_createdAt :: nat

record cutoff_row =
  cu_scope :: string
  cu_sessionId :: string
  cu_triggerId :: string
  cu_generation :: nat
  cu_rowCutoff :: nat
  cu_createdAt :: nat

record queue_db =
  q_rows :: "queued_prompt list"
  q_recovery :: "recovery_row list"
  q_cutoffs :: "cutoff_row list"
  q_nextId :: nat
  q_clock :: nat

datatype queue_error = QueueError string | QueueConflict string nat

type_synonym 'a queue_op = "(queue_error, 'a, queue_db) sx"

definition live :: "string \<Rightarrow> queued_prompt \<Rightarrow> bool" where
  "live sid r = (qp_sessionId r = sid \<and> (qp_state r = Pending \<or> qp_state r = Claimed))"

definition terminal :: "string \<Rightarrow> queued_prompt \<Rightarrow> bool" where
  "terminal sid r = (qp_sessionId r = sid \<and> qp_state r \<noteq> Pending \<and> qp_state r \<noteq> Claimed)"

definition pending_row :: "string \<Rightarrow> uuid \<Rightarrow> queued_prompt \<Rightarrow> bool" where
  "pending_row sid i r = (qp_id r = i \<and> qp_sessionId r = sid \<and> qp_state r = Pending)"

definition claim_row :: "string \<Rightarrow> uuid \<Rightarrow> uuid \<Rightarrow> queued_prompt \<Rightarrow> bool" where
  "claim_row sid i token r = (qp_sessionId r = sid \<and> qp_id r = i \<and> qp_claimToken r = Some token \<and> qp_state r = Claimed)"

text \<open>\<open>UPDATE ... WHERE p\<close> and \<open>DELETE ... WHERE p\<close>, with the number of changed rows.\<close>

definition update_rows :: "(queued_prompt \<Rightarrow> bool) \<Rightarrow> (queued_prompt \<Rightarrow> queued_prompt) \<Rightarrow> queue_db \<Rightarrow> queue_db" where
  "update_rows p f db = db\<lparr>q_rows := map (\<lambda>r. if p r then f r else r) (q_rows db)\<rparr>"

definition delete_rows :: "(queued_prompt \<Rightarrow> bool) \<Rightarrow> queue_db \<Rightarrow> queue_db" where
  "delete_rows p db = db\<lparr>q_rows := filter (\<lambda>r. \<not> p r) (q_rows db)\<rparr>"

definition changes :: "(queued_prompt \<Rightarrow> bool) \<Rightarrow> queue_db \<Rightarrow> nat" where
  "changes p db = length (filter p (q_rows db))"

definition find_prompt :: "string \<Rightarrow> uuid \<Rightarrow> queue_db \<Rightarrow> queued_prompt option" where
  "find_prompt sid i db = List.find (\<lambda>r. qp_sessionId r = sid \<and> qp_id r = i) (q_rows db)"

definition next_rowid :: "('r \<Rightarrow> nat) \<Rightarrow> 'r list \<Rightarrow> nat" where
  "next_rowid f rows = Suc (fold max (map f rows) 0)"

section \<open>Retention\<close>

definition terminal_time :: "queued_prompt \<Rightarrow> nat" where
  "terminal_time r =
     (let delivered = (case qp_deliveryUpdatedAt r of Some t \<Rightarrow> t | None \<Rightarrow> qp_timestamp r) in
      if qp_state r = Handled \<or> qp_state r = Superseded
      then (case qp_handledAt r of Some t \<Rightarrow> t | None \<Rightarrow> delivered) else delivered)"

definition RETENTION_MS :: nat where
  "RETENTION_MS = 604800000"

text \<open>\<open>ORDER BY terminalTime DESC, rowid DESC LIMIT n\<close>\<close>

definition latest :: "nat \<Rightarrow> string \<Rightarrow> queued_prompt list \<Rightarrow> uuid list" where
  "latest n sid rows = map qp_id (take n (rev (sort_key terminal_time (filter (terminal sid) rows))))"

definition prune_rows :: "string \<Rightarrow> nat \<Rightarrow> queued_prompt list \<Rightarrow> queued_prompt list" where
  "prune_rows sid clk rows = filter (\<lambda>r. \<not> (terminal sid r \<and>
     (terminal_time r + RETENTION_MS < clk \<or> qp_id r \<notin> set (latest 1000 sid rows)))) rows"

definition blank_rows :: "string \<Rightarrow> queued_prompt list \<Rightarrow> queued_prompt list" where
  "blank_rows sid rows = map (\<lambda>r. if terminal sid r \<and> qp_content r \<noteq> [] \<and> qp_id r \<notin> set (latest 100 sid rows)
     then r\<lparr>qp_content := [], qp_payload := None\<rparr> else r) rows"

definition prune_recovery :: "string \<Rightarrow> queued_prompt list \<Rightarrow> recovery_row list \<Rightarrow> recovery_row list" where
  "prune_recovery sid rows rcs =
     (let recent = map rc_rowid (take 1000 (rev (filter (\<lambda>c. rc_sessionId c = sid) rcs)));
          items = map qp_id (filter (\<lambda>r. qp_sessionId r = sid) rows)
      in filter (\<lambda>c. \<not> (rc_sessionId c = sid \<and> (rc_rowid c \<notin> set recent \<or> rc_itemId c \<notin> set items))) rcs)"

definition prunePromptQueueHistory :: "string \<Rightarrow> queue_db \<Rightarrow> queue_db" where
  "prunePromptQueueHistory sid db =
     (let rows = blank_rows sid (prune_rows sid (q_clock db) (q_rows db))
      in db\<lparr>q_rows := rows, q_recovery := prune_recovery sid rows (q_recovery db)\<rparr>)"

section \<open>Reading and ordering\<close>

definition queue_of :: "string \<Rightarrow> queue_db \<Rightarrow> queued_prompt list" where
  "queue_of sid db = sort_key qp_order (filter (live sid) (q_rows db))"

definition getSessionQueue :: "string \<Rightarrow> queued_prompt list queue_op" where
  "getSessionQueue sid = bnd (modify (prunePromptQueueHistory sid)) (\<lambda>_. reads (queue_of sid))"

definition getNextQueuedPrompt :: "string \<Rightarrow> queue_db \<Rightarrow> queued_prompt option" where
  "getNextQueuedPrompt sid db = (case queue_of sid db of [] \<Rightarrow> None | r # _ \<Rightarrow> Some r)"

definition getQueueCount :: "string \<Rightarrow> queue_db \<Rightarrow> nat" where
  "getQueueCount sid db = changes (live sid) db"

text \<open>\<open>reorderQueue\<close>: the position in the queue becomes the order, from one.\<close>

definition renumber :: "queued_prompt list \<Rightarrow> queued_prompt list \<Rightarrow> queued_prompt list" where
  "renumber prompts rows = map (\<lambda>r. case List.find (\<lambda>(k, p). qp_id p = qp_id r) (enumerate 1 prompts) of
     Some (k, p) \<Rightarrow> if qp_order p \<noteq> k then r\<lparr>qp_order := k\<rparr> else r | None \<Rightarrow> r) rows"

definition reorderQueue :: "string \<Rightarrow> unit queue_op" where
  "reorderQueue sid = bnd (getSessionQueue sid) (\<lambda>prompts.
     modify (\<lambda>db. db\<lparr>q_rows := renumber prompts (q_rows db)\<rparr>))"

definition hasQueuedPrompt :: "string \<Rightarrow> string \<Rightarrow> queue_db \<Rightarrow> bool" where
  "hasQueuedPrompt sid content db = (trim content \<noteq> [] \<and>
     list_ex (\<lambda>r. live sid r \<and> qp_content r = trim content) (q_rows db))"

definition hasQueuedTaskDispatchPrompt :: "string \<Rightarrow> string \<Rightarrow> queue_db \<Rightarrow> bool" where
  "hasQueuedTaskDispatchPrompt sid taskId db = (trim taskId \<noteq> [] \<and>
     list_ex (\<lambda>r. live sid r \<and> instr (qp_content r) ''Agent work dispatch.'' \<and>
        instr (qp_content r) (''Task id: '' @ trim taskId)) (q_rows db))"

definition getHandledPrompts :: "string \<Rightarrow> queued_prompt list queue_op" where
  "getHandledPrompts sid = bnd (modify (prunePromptQueueHistory sid)) (\<lambda>_. reads (\<lambda>db.
     take 100 (sort_key (\<lambda>r. case qp_handledAt r of None \<Rightarrow> 1 | Some t \<Rightarrow> - int t) (sort_key qp_id
       (filter (\<lambda>r. qp_sessionId r = sid \<and> qp_state r = Handled \<and> qp_content r \<noteq> []) (q_rows db))))))"

section \<open>Adding and removing\<close>

definition QUEUE_LIMIT :: nat where
  "QUEUE_LIMIT = 21"

record prompt_input =
  pi_content :: string
  pi_type :: "string option"
  pi_dedupeKey :: "string option"
  pi_payload :: "obj option"

definition trimmed :: "string option \<Rightarrow> string option" where
  "trimmed x = nonempty (map_option trim x)"

definition new_prompt :: "string \<Rightarrow> prompt_input \<Rightarrow> nat \<Rightarrow> queue_db \<Rightarrow> queued_prompt" where
  "new_prompt sid inp count db =
     \<lparr>qp_rowid = next_rowid qp_rowid (q_rows db), qp_id = q_nextId db, qp_sessionId = sid,
      qp_content = trim (pi_content inp), qp_timestamp = q_clock db, qp_order = count + 1,
      qp_type = trimmed (pi_type inp), qp_dedupeKey = trimmed (pi_dedupeKey inp),
      qp_payload = map_option stored (pi_payload inp), qp_revision = 1, qp_state = Pending,
      qp_handledAt = None, qp_handledBy = None, qp_handledReason = None, qp_claimToken = None,
      qp_deliveryState = None, qp_deliveryId = None, qp_deliveryUpdatedAt = None\<rparr>"

text \<open>The unique index over the live prompts of a session with a deduplication key.\<close>

definition duplicate :: "queued_prompt \<Rightarrow> queued_prompt list \<Rightarrow> bool" where
  "duplicate r rows = (qp_dedupeKey r \<noteq> None \<and>
     list_ex (\<lambda>x. live (qp_sessionId r) x \<and> qp_dedupeKey x = qp_dedupeKey r) rows)"

definition insert_prompt :: "queued_prompt \<Rightarrow> queue_db \<Rightarrow> queue_db" where
  "insert_prompt r db = db\<lparr>q_rows := q_rows db @ [r], q_nextId := Suc (q_nextId db)\<rparr>"

definition addPrompt :: "string \<Rightarrow> prompt_input \<Rightarrow> queued_prompt option queue_op" where
  "addPrompt sid inp =
     bnd (modify (prunePromptQueueHistory sid)) (\<lambda>_.
     if trim (pi_content inp) = [] then ret None
     else bnd (reads (getQueueCount sid)) (\<lambda>count.
       if count \<ge> QUEUE_LIMIT then throw (QueueError ''Queue limit reached (21 prompts maximum)'')
       else bnd (reads (new_prompt sid inp count)) (\<lambda>r.
            bnd (reads (\<lambda>db. duplicate r (q_rows db))) (\<lambda>dup.
            if dup then bnd (modify (\<lambda>db. db\<lparr>q_nextId := Suc (q_nextId db)\<rparr>)) (\<lambda>_. ret None)
            else bnd (modify (insert_prompt r)) (\<lambda>_. ret (Some (r\<lparr>qp_payload := pi_payload inp\<rparr>)))))))"

definition updatePromptContent :: "string \<Rightarrow> uuid \<Rightarrow> string \<Rightarrow> bool queue_op" where
  "updatePromptContent sid i content =
     (if trim content = [] then ret False
      else bnd (reads (changes (pending_row sid i))) (\<lambda>n.
           bnd (modify (update_rows (pending_row sid i)
             (\<lambda>r. r\<lparr>qp_content := trim content, qp_revision := qp_revision r + 1\<rparr>))) (\<lambda>_. ret (n > 0))))"

definition deletePromptById :: "string \<Rightarrow> uuid \<Rightarrow> bool queue_op" where
  "deletePromptById sid i =
     bnd (reads (changes (pending_row sid i))) (\<lambda>n.
     bnd (modify (delete_rows (pending_row sid i))) (\<lambda>_.
     if n > 0 then bnd (reorderQueue sid) (\<lambda>_. ret True) else ret False))"

definition removeNextPrompt :: "string \<Rightarrow> queued_prompt option queue_op" where
  "removeNextPrompt sid = transaction (
     bnd (reads (getNextQueuedPrompt sid)) (\<lambda>head. case head of
       None \<Rightarrow> ret None
     | Some r \<Rightarrow> if qp_state r \<noteq> Pending then ret None
         else bnd (deletePromptById sid (qp_id r)) (\<lambda>gone. ret (if gone then Some r else None))))"

definition clearSessionQueue :: "string \<Rightarrow> unit queue_op" where
  "clearSessionQueue sid = modify (delete_rows (\<lambda>r. qp_sessionId r = sid \<and> qp_state r = Pending))"

definition deletePromptsByType :: "string \<Rightarrow> nat queue_op" where
  "deletePromptsByType ty =
     (let t = trim ty; p = (\<lambda>r. qp_type r = Some t \<and> qp_state r = Pending) in
      if t = [] then ret 0
      else bnd (reads (\<lambda>db. remdups (map qp_sessionId (filter p (q_rows db))))) (\<lambda>sids.
           bnd (reads (changes p)) (\<lambda>n.
           bnd (modify (delete_rows p)) (\<lambda>_.
           foldr (\<lambda>sid k. bnd (reorderQueue sid) (\<lambda>_. k)) sids (ret n)))))"

section \<open>Claims\<close>

definition set_claimed :: "uuid \<Rightarrow> nat \<Rightarrow> queued_prompt \<Rightarrow> queued_prompt" where
  "set_claimed token clk r = r\<lparr>qp_state := Claimed, qp_deliveryState := Some ''unsent'',
     qp_deliveryId := Some token, qp_deliveryUpdatedAt := Some clk, qp_claimToken := Some token\<rparr>"

definition claimNextPrompt :: "string \<Rightarrow> queued_prompt option queue_op" where
  "claimNextPrompt sid = transaction (
     bnd (reads (getNextQueuedPrompt sid)) (\<lambda>head. case head of
       None \<Rightarrow> ret None
     | Some r \<Rightarrow> if qp_state r \<noteq> Pending then ret None
         else bnd (reads q_nextId) (\<lambda>token. bnd (reads q_clock) (\<lambda>clk.
              bnd (modify (\<lambda>db. (update_rows (\<lambda>x. qp_id x = qp_id r \<and> qp_state x = Pending) (set_claimed token clk) db)
                 \<lparr>q_nextId := Suc token\<rparr>)) (\<lambda>_.
              ret (Some (r\<lparr>qp_state := Claimed, qp_claimToken := Some token, qp_deliveryState := Some ''unsent'',
                 qp_deliveryId := Some token\<rparr>)))))))"

definition guarded_update :: "(queued_prompt \<Rightarrow> bool) \<Rightarrow> (nat \<Rightarrow> queued_prompt \<Rightarrow> queued_prompt) \<Rightarrow> unit queue_op" where
  "guarded_update p f = bnd (reads (changes p)) (\<lambda>n. bnd (reads q_clock) (\<lambda>clk.
     bnd (modify (update_rows p (f clk))) (\<lambda>_.
     if n = 0 then throw (QueueConflict ''Dispatch claim changed'' 409) else ret ())))"

definition recordClaimAcceptance :: "string \<Rightarrow> uuid \<Rightarrow> uuid \<Rightarrow> unit queue_op" where
  "recordClaimAcceptance sid i token = guarded_update (claim_row sid i token)
     (\<lambda>clk r. r\<lparr>qp_deliveryState := Some ''accepted'', qp_deliveryUpdatedAt := Some clk\<rparr>)"

definition completeClaim :: "string \<Rightarrow> uuid \<Rightarrow> uuid \<Rightarrow> unit queue_op" where
  "completeClaim sid i token =
     bnd (guarded_update (claim_row sid i token) (\<lambda>clk r. r\<lparr>qp_state := Dispatched,
       qp_deliveryState := Some ''accepted'', qp_deliveryUpdatedAt := Some clk\<rparr>)) (\<lambda>_. reorderQueue sid)"

definition releaseRejectedClaim :: "string \<Rightarrow> uuid \<Rightarrow> uuid \<Rightarrow> string \<Rightarrow> unit queue_op" where
  "releaseRejectedClaim sid i token certainty = modify (update_rows (claim_row sid i token)
     (\<lambda>r. r\<lparr>qp_state := Pending, qp_deliveryState := Some certainty, qp_claimToken := None\<rparr>))"

definition markClaimSending :: "string \<Rightarrow> uuid \<Rightarrow> uuid \<Rightarrow> unit queue_op" where
  "markClaimSending sid i token = guarded_update
     (\<lambda>r. claim_row sid i token r \<and> qp_deliveryState r = Some ''unsent'')
     (\<lambda>clk r. r\<lparr>qp_deliveryState := Some ''uncertain'', qp_deliveryUpdatedAt := Some clk\<rparr>)"

section \<open>Operators\<close>

text \<open>\<open>/^[1-9][0-9]*$/\<close>\<close>

definition revision_text :: "string \<Rightarrow> bool" where
  "revision_text s = (case s of [] \<Rightarrow> False | c # cs \<Rightarrow> is_digit c \<and> c \<noteq> CHR ''0'' \<and> list_all is_digit cs)"

definition acknowledgePrompt :: "string \<Rightarrow> uuid \<Rightarrow> string \<Rightarrow> string \<Rightarrow> string \<Rightarrow> queued_prompt queue_op" where
  "acknowledgePrompt sid i revision actor reason =
     bnd (modify (prunePromptQueueHistory sid)) (\<lambda>_.
     if \<not> revision_text revision \<or> trim actor = [] \<or> trim reason = []
     then throw (QueueConflict ''Revision, actor and reason are required'' 400)
     else transaction (bnd (reads (find_prompt sid i)) (\<lambda>found. case found of
        None \<Rightarrow> throw (QueueConflict ''Prompt not found'' 404)
      | Some r \<Rightarrow>
          if nat_string (qp_revision r) \<noteq> revision then throw (QueueConflict ''Prompt revision changed'' 409)
          else if qp_state r = Handled \<and> qp_handledBy r = Some actor \<and> qp_handledReason r = Some (trim reason) then ret r
          else if qp_state r \<noteq> Pending
          then throw (QueueConflict (''Prompt is already '' @ state_text (qp_state r)) 409)
          else bnd (reads q_clock) (\<lambda>clk.
               bnd (modify (update_rows (\<lambda>x. pending_row sid i x \<and> nat_string (qp_revision x) = revision)
                 (\<lambda>x. x\<lparr>qp_state := Handled, qp_handledAt := Some clk, qp_handledBy := Some actor,
                    qp_handledReason := Some (trim reason)\<rparr>))) (\<lambda>_.
               bnd (reorderQueue sid) (\<lambda>_.
               bnd (reads (\<lambda>db. row qp_id i (q_rows db))) (\<lambda>x. case x of
                 None \<Rightarrow> throw (QueueError ''Prompt row is missing'') | Some y \<Rightarrow> ret y)))))))"

definition consumePrompt :: "string \<Rightarrow> uuid \<Rightarrow> string \<Rightarrow> string \<Rightarrow> string \<Rightarrow> queued_prompt queue_op" where
  "consumePrompt sid i revision actor reason = acknowledgePrompt sid i revision actor reason"

definition add_recovery :: "string \<Rightarrow> queued_prompt \<Rightarrow> uuid option \<Rightarrow> string \<Rightarrow> string \<Rightarrow> string \<Rightarrow> queue_db \<Rightarrow> queue_db" where
  "add_recovery sid r delivery actor reason resolution db = db\<lparr>q_recovery := q_recovery db @
     [\<lparr>rc_rowid = next_rowid rc_rowid (q_recovery db), rc_sessionId = sid, rc_itemId = qp_id r,
       rc_revision = nat_string (qp_revision r), rc_deliveryId = delivery, rc_actor = actor,
       rc_reason = reason, rc_resolution = resolution, rc_createdAt = q_clock db\<rparr>]\<rparr>"

definition set_reconciled :: "bool \<Rightarrow> string \<Rightarrow> string \<Rightarrow> nat \<Rightarrow> queued_prompt \<Rightarrow> queued_prompt" where
  "set_reconciled accepted actor reason clk r =
     r\<lparr>qp_state := (if accepted then Handled else Pending), qp_revision := qp_revision r + 1,
       qp_handledAt := Some clk, qp_handledBy := Some actor,
       qp_handledReason := Some ((if accepted then ''accepted: '' else ''retry: '') @ reason),
       qp_deliveryState := Some (if accepted then ''accepted'' else ''unsent''), qp_claimToken := None\<rparr>"

definition reconcileClaim ::
  "string \<Rightarrow> uuid \<Rightarrow> string \<Rightarrow> uuid option \<Rightarrow> string \<Rightarrow> string \<Rightarrow> string \<Rightarrow> queued_prompt queue_op" where
  "reconcileClaim sid i revision token resolution actor reason =
     (if (resolution \<noteq> ''accepted'' \<and> resolution \<noteq> ''retry'') \<or> trim reason = [] \<or> actor = [] \<or> token = None
         \<or> \<not> revision_text revision
      then throw (QueueConflict ''Resolution, claim token, revision, actor and reason required'' 400)
      else transaction (bnd (reads (find_prompt sid i)) (\<lambda>found. case found of
         None \<Rightarrow> throw (QueueConflict ''Prompt not found'' 404)
       | Some r \<Rightarrow>
           if qp_state r \<noteq> Claimed \<or> nat_string (qp_revision r) \<noteq> revision \<or> qp_claimToken r \<noteq> token
           then throw (QueueConflict ''Dispatch claim or revision changed'' 409)
           else bnd (reads q_clock) (\<lambda>clk.
                bnd (modify (add_recovery sid r (qp_deliveryId r) actor (trim reason) resolution)) (\<lambda>_.
                bnd (modify (update_rows (\<lambda>x. qp_id x = i)
                   (set_reconciled (resolution = ''accepted'') actor (trim reason) clk))) (\<lambda>_.
                bnd (reorderQueue sid) (\<lambda>_.
                bnd (reads (\<lambda>db. row qp_id i (q_rows db))) (\<lambda>x. case x of
                  None \<Rightarrow> throw (QueueError ''Prompt row is missing'') | Some y \<Rightarrow> ret y))))))))"

section \<open>Superseding\<close>

definition supersede_reason :: string where
  "supersede_reason = ''Latest managed workshop instruction supersedes unsent ordinary prompt''"

definition supersedeDedicatedPending :: "string \<Rightarrow> string \<Rightarrow> nat queue_op" where
  "supersedeDedicatedPending sid bindingId =
     (let p = (\<lambda>r. qp_sessionId r = sid \<and> qp_state r = Pending) in
      if sid = [] \<or> bindingId = [] then throw (QueueError ''Dedicated queue binding required'')
      else transaction (
        bnd (reads (\<lambda>db. list_ex (\<lambda>r. qp_sessionId r = sid \<and> qp_state r = Claimed) (q_rows db))) (\<lambda>busy.
        if busy then throw (QueueError ''Completed-turn session has unresolved ordinary delivery'')
        else bnd (reads (\<lambda>db. filter p (q_rows db))) (\<lambda>rs.
             bnd (modify (fold (\<lambda>r. add_recovery sid r None bindingId supersede_reason ''superseded'') rs)) (\<lambda>_.
             bnd (modify (update_rows p (\<lambda>r. r\<lparr>qp_state := Superseded, qp_revision := qp_revision r + 1\<rparr>))) (\<lambda>_.
             ret (length rs)))))))"

definition captureFreshHumanCutoff :: "string \<Rightarrow> (uuid \<times> string) list queue_op" where
  "captureFreshHumanCutoff sid = bnd (getSessionQueue sid) (\<lambda>rs.
     ret (map (\<lambda>r. (qp_id r, nat_string (qp_revision r))) rs))"

definition sessionWorkGeneration :: "string \<Rightarrow> string \<Rightarrow> queue_db \<Rightarrow> nat" where
  "sessionWorkGeneration scp sid db =
     fold max (map cu_generation (filter (\<lambda>c. cu_scope c = scp \<and> cu_sessionId c = sid) (q_cutoffs db))) 0"

definition find_cutoff :: "string \<Rightarrow> string \<Rightarrow> string \<Rightarrow> queue_db \<Rightarrow> cutoff_row option" where
  "find_cutoff scp sid trigger db =
     List.find (\<lambda>c. cu_scope c = scp \<and> cu_sessionId c = sid \<and> cu_triggerId c = trigger) (q_cutoffs db)"

definition retireSessionWork :: "string \<Rightarrow> string \<Rightarrow> string \<Rightarrow> (nat \<Rightarrow> nat \<Rightarrow> unit queue_op) \<Rightarrow> nat queue_op" where
  "retireSessionWork scp sid trigger retire = transaction (
     bnd (reads (find_cutoff scp sid trigger)) (\<lambda>found. case found of
       Some c \<Rightarrow> ret (cu_generation c)
     | None \<Rightarrow>
         bnd (reads (\<lambda>db. sessionWorkGeneration scp sid db + 1)) (\<lambda>generation.
         bnd (reads (\<lambda>db. fold max (map qp_rowid (q_rows db)) 0)) (\<lambda>cutoff.
         bnd (reads q_clock) (\<lambda>at'.
         bnd (modify (\<lambda>db. db\<lparr>q_cutoffs := q_cutoffs db @ [\<lparr>cu_scope = scp, cu_sessionId = sid,
            cu_triggerId = trigger, cu_generation = generation, cu_rowCutoff = cutoff, cu_createdAt = at'\<rparr>]\<rparr>)) (\<lambda>_.
         bnd (retire cutoff at') (\<lambda>_. ret generation)))))))"

definition retire_reason :: "string \<Rightarrow> string" where
  "retire_reason trigger = ''Superseded by fresh human trigger '' @ trigger @ ''; completion unverified''"

definition retireForFreshHumanTrigger :: "string \<Rightarrow> string \<Rightarrow> (uuid \<times> string) list option \<Rightarrow> unit queue_op" where
  "retireForFreshHumanTrigger sid trigger snap =
     bnd (retireSessionWork ''prompts'' sid trigger (\<lambda>cutoff clk.
       modify (update_rows (\<lambda>r. live sid r \<and> qp_rowid r \<le> cutoff \<and>
           (case snap of None \<Rightarrow> True | Some es \<Rightarrow> (qp_id r, nat_string (qp_revision r)) \<in> set es))
         (\<lambda>r. r\<lparr>qp_state := Superseded, qp_revision := qp_revision r + 1, qp_handledAt := Some clk,
            qp_handledBy := Some ''fresh-human-trigger'', qp_handledReason := Some (retire_reason trigger)\<rparr>)))) (\<lambda>_.
     reorderQueue sid)"

text \<open>\<open>rebindSession\<close>; the unique index refuses a prompt whose key the target already has.\<close>

definition rebindSession :: "string \<Rightarrow> string \<Rightarrow> nat queue_op" where
  "rebindSession source target =
     (if source = [] \<or> target = [] \<or> source = target then ret 0
      else bnd (reads (\<lambda>db. list_ex (\<lambda>r. live source r \<and> duplicate (r\<lparr>qp_sessionId := target\<rparr>) (q_rows db)) (q_rows db))) (\<lambda>clash.
           if clash then throw (QueueError ''UNIQUE constraint failed'')
           else bnd (reads (changes (\<lambda>r. qp_sessionId r = source))) (\<lambda>n.
                bnd (modify (update_rows (\<lambda>r. qp_sessionId r = source) (\<lambda>r. r\<lparr>qp_sessionId := target\<rparr>))) (\<lambda>_. ret n))))"

end
