(* ===== verification/Queue_Laws.thy ===== *)
theory Queue_Laws
  imports Prompt_Queue "HOL-Library.Multiset"
begin

text \<open>
  What the operations of the prompt queue do to the queue of a session: its live prompts in their
  order. Every operation maps it, drops prompts from it or appends one, and leaves the queues of
  the other sessions alone.
\<close>

section \<open>Sorting\<close>

lemma insort_key_map: "f (g x) = f x \<Longrightarrow> (\<And>y. y \<in> set xs \<Longrightarrow> f (g y) = f y) \<Longrightarrow>
    insort_key f (g x) (map g xs) = map g (insort_key f x xs)"
  by (induction xs) auto

lemma sort_key_map:
  assumes "\<And>x. x \<in> set xs \<Longrightarrow> f (g x) = f x"
  shows "sort_key f (map g xs) = map g (sort_key f xs)"
  using assms
proof (induction xs)
  case (Cons x xs)
  then have "insort_key f (g x) (map g (sort_key f xs)) = map g (insort_key f x (sort_key f xs))"
    by (intro insort_key_map) auto
  with Cons show ?case by simp
qed simp

lemma insort_key_snoc: "f z \<le> f x \<Longrightarrow> insort_key f z (xs @ [x]) = insort_key f z xs @ [x]"
  by (induction xs) auto

lemma sort_key_snoc: "(\<And>y. y \<in> set xs \<Longrightarrow> f y \<le> f x) \<Longrightarrow> sort_key f (xs @ [x]) = sort_key f xs @ [x]"
  by (induction xs) (simp_all add: insort_key_snoc)

section \<open>The queue of a session\<close>

lemma live_rows_simps [simp]:
  "q_rows (update_rows p f db) = map (\<lambda>r. if p r then f r else r) (q_rows db)"
  "q_rows (delete_rows p db) = filter (\<lambda>r. \<not> p r) (q_rows db)"
  by (simp_all add: update_rows_def delete_rows_def)

definition queue_rows :: "string \<Rightarrow> queued_prompt list \<Rightarrow> queued_prompt list" where
  "queue_rows sid rows = sort_key qp_order (filter (live sid) rows)"

lemma queue_of_rows: "queue_of sid db = queue_rows sid (q_rows db)"
  by (simp add: queue_of_def queue_rows_def)

lemma set_queue_rows [simp]: "set (queue_rows sid rows) = {r \<in> set rows. live sid r}"
  by (auto simp: queue_rows_def)

lemma queue_filter: "queue_rows sid (filter P rows) = filter P (queue_rows sid rows)"
  by (simp add: queue_rows_def filter_sort conj_commute)

lemma queue_filter_keep: "(\<And>r. r \<in> set rows \<Longrightarrow> live sid r \<Longrightarrow> P r) \<Longrightarrow> queue_rows sid (filter P rows) = queue_rows sid rows"
  unfolding queue_filter by (rule filter_True) simp

text \<open>An update that keeps liveness and order maps the queue; one that ends prompts drops them.\<close>

lemma queue_map:
  assumes "\<And>r. r \<in> set rows \<Longrightarrow> live sid (f r) = live sid r \<and> (live sid r \<longrightarrow> qp_order (f r) = qp_order r)"
  shows "queue_rows sid (map f rows) = map f (queue_rows sid rows)"
proof -
  have "filter (live sid) (map f rows) = map f (filter (live sid) rows)"
    using assms by (simp add: filter_map comp_def cong: filter_cong)
  moreover have "sort_key qp_order (map f (filter (live sid) rows)) = map f (sort_key qp_order (filter (live sid) rows))"
    by (rule sort_key_map) (use assms in auto)
  ultimately show ?thesis by (simp add: queue_rows_def)
qed

lemma queue_drop:
  assumes "\<And>r. r \<in> set rows \<Longrightarrow> P r \<Longrightarrow> \<not> live sid (f r)"
  shows "queue_rows sid (map (\<lambda>r. if P r then f r else r) rows) = filter (\<lambda>r. \<not> P r) (queue_rows sid rows)"
proof -
  have "filter (live sid) (map (\<lambda>r. if P r then f r else r) rows) = filter (live sid) (filter (\<lambda>r. \<not> P r) rows)"
    using assms by (induction rows) auto
  then show ?thesis by (simp add: queue_rows_def filter_sort conj_commute)
qed

lemma queue_same:
  assumes "\<And>r. r \<in> set rows \<Longrightarrow> live sid (f r) = live sid r \<and> (live sid r \<longrightarrow> f r = r)"
  shows "queue_rows sid (map f rows) = queue_rows sid rows"
proof -
  have "queue_rows sid (map f rows) = map f (queue_rows sid rows)" using assms by (intro queue_map) auto
  also have "\<dots> = queue_rows sid rows" using assms by (intro map_idI) simp
  finally show ?thesis .
qed

lemma queue_snoc:
  assumes "\<And>p. p \<in> set (queue_rows (qp_sessionId r) rows) \<Longrightarrow> qp_order p \<le> qp_order r" and "qp_state r = Pending"
  shows "queue_rows sid (rows @ [r]) = (if sid = qp_sessionId r then queue_rows sid rows @ [r] else queue_rows sid rows)"
proof (cases "sid = qp_sessionId r")
  case True
  have "sort_key qp_order (filter (live sid) rows @ [r]) = sort_key qp_order (filter (live sid) rows) @ [r]"
    by (rule sort_key_snoc) (use assms(1) True in auto)
  then show ?thesis using True assms(2) by (simp add: queue_rows_def live_def)
qed (simp add: queue_rows_def live_def)

section \<open>Retention\<close>

lemma terminal_not_live [simp]: "terminal sid r \<Longrightarrow> \<not> live sid' r"
  by (auto simp: terminal_def live_def)

lemma ids_blank [simp]: "map qp_id (blank_rows sid rows) = map qp_id rows"
  by (simp add: blank_rows_def)

lemma queue_blank: "queue_rows sid (blank_rows sid' rows) = queue_rows sid rows"
  unfolding blank_rows_def by (rule queue_same) (auto simp: live_def terminal_def)

lemma queue_prune_rows: "queue_rows sid (prune_rows sid' clk rows) = queue_rows sid rows"
  unfolding prune_rows_def by (rule queue_filter_keep) auto

lemma queue_prune [simp]: "queue_of sid (prunePromptQueueHistory sid' db) = queue_of sid db"
  by (simp add: prunePromptQueueHistory_def Let_def queue_of_rows queue_blank queue_prune_rows)

lemma prune_frame [simp]:
  "q_nextId (prunePromptQueueHistory sid db) = q_nextId db" "q_clock (prunePromptQueueHistory sid db) = q_clock db"
  "q_cutoffs (prunePromptQueueHistory sid db) = q_cutoffs db"
  by (simp_all add: prunePromptQueueHistory_def Let_def)

lemma ids_prune: "set (map qp_id (q_rows (prunePromptQueueHistory sid db))) \<subseteq> set (map qp_id (q_rows db))"
  "distinct (map qp_id (q_rows db)) \<Longrightarrow> distinct (map qp_id (q_rows (prunePromptQueueHistory sid db)))"
proof -
  have rows: "map qp_id (q_rows (prunePromptQueueHistory sid db)) = map qp_id (prune_rows sid (q_clock db) (q_rows db))"
    by (simp add: prunePromptQueueHistory_def Let_def)
  show "set (map qp_id (q_rows (prunePromptQueueHistory sid db))) \<subseteq> set (map qp_id (q_rows db))"
    unfolding rows by (auto simp: prune_rows_def)
  show "distinct (map qp_id (q_rows db)) \<Longrightarrow> distinct (map qp_id (q_rows (prunePromptQueueHistory sid db)))"
    unfolding rows prune_rows_def by (rule distinct_map_filter)
qed

section \<open>Numbering\<close>

definition numbered :: "queued_prompt list \<Rightarrow> queued_prompt list" where
  "numbered ps = map (\<lambda>(k, p). p\<lparr>qp_order := k\<rparr>) (enumerate 1 ps)"

lemma find_position:
  "distinct (map qp_id ps) \<Longrightarrow> i < length ps \<Longrightarrow>
     List.find (\<lambda>(k, p). qp_id p = qp_id (ps ! i)) (enumerate n ps) = Some (n + i, ps ! i)"
proof (induction ps arbitrary: n i)
  case (Cons p ps)
  show ?case
  proof (cases i)
    case (Suc j)
    with Cons.prems have "qp_id p \<noteq> qp_id (ps ! j)" by (metis Suc_less_eq distinct.simps(2) image_eqI length_Cons list.simps(9) nth_mem set_map)
    with Cons Suc show ?thesis by simp
  qed simp
qed simp

lemma find_absent: "qp_id r \<notin> qp_id ` set ps \<Longrightarrow> List.find (\<lambda>(k, p). qp_id p = qp_id r) (enumerate n ps) = None"
  by (induction ps arbitrary: n) auto

definition number_of :: "queued_prompt list \<Rightarrow> queued_prompt \<Rightarrow> queued_prompt" where
  "number_of ps r = (case List.find (\<lambda>(k, p). qp_id p = qp_id r) (enumerate 1 ps) of
     Some (k, p) \<Rightarrow> if qp_order p \<noteq> k then r\<lparr>qp_order := k\<rparr> else r | None \<Rightarrow> r)"

lemma renumber_map: "renumber ps rows = map (number_of ps) rows"
  by (simp add: renumber_def number_of_def)

lemma number_of_frame [simp]:
  "qp_id (number_of ps r) = qp_id r" "live sid (number_of ps r) = live sid r" "qp_state (number_of ps r) = qp_state r"
  "qp_content (number_of ps r) = qp_content r" "qp_revision (number_of ps r) = qp_revision r"
  "qp_sessionId (number_of ps r) = qp_sessionId r" "qp_claimToken (number_of ps r) = qp_claimToken r"
  "qp_handledBy (number_of ps r) = qp_handledBy r" "qp_handledReason (number_of ps r) = qp_handledReason r"
  "qp_deliveryState (number_of ps r) = qp_deliveryState r"
  by (auto simp: number_of_def live_def split: option.split)

lemma numbered_map: "distinct (map qp_id ps) \<Longrightarrow> map (number_of ps) ps = numbered ps"
  by (rule nth_equalityI) (auto simp: numbered_def number_of_def find_position nth_enumerate_eq)

lemma orders_numbered [simp]: "map qp_order (numbered ps) = [1..<Suc (length ps)]"
  by (rule nth_equalityI) (simp_all add: numbered_def nth_enumerate_eq del: upt_Suc)

lemma length_numbered [simp]: "length (numbered ps) = length ps"
  by (simp add: numbered_def)

lemma numbered_idem: "map qp_order ps = [1..<Suc (length ps)] \<Longrightarrow> numbered ps = ps"
proof (rule nth_equalityI)
  fix i assume o': "map qp_order ps = [1..<Suc (length ps)]" and "i < length (numbered ps)"
  then have i: "i < length ps" by simp
  have "qp_order (ps ! i) = map qp_order ps ! i" using i by simp
  also have "\<dots> = Suc i" unfolding o' using i by (simp del: upt_Suc)
  finally show "numbered ps ! i = ps ! i" using i by (simp add: numbered_def nth_enumerate_eq)
qed simp

lemma queue_renumber:
  assumes "distinct (map qp_id rows)"
  shows "queue_rows sid' (renumber (queue_rows sid rows) rows) =
    (if sid' = sid then numbered (queue_rows sid rows) else queue_rows sid' rows)"
proof (cases "sid' = sid")
  case True
  let ?q = "queue_rows sid rows" and ?g = "number_of (queue_rows sid rows)"
  have d: "distinct (map qp_id ?q)" using assms by (simp add: queue_rows_def distinct_map_filter distinct_map)
      (auto simp: distinct_map inj_on_def)
  have "mset (map ?g (filter (live sid) rows)) = mset (map ?g ?q)" by (simp add: queue_rows_def)
  moreover have "map ?g ?q = numbered ?q" by (rule numbered_map [OF d])
  moreover have "inj_on qp_order (set (numbered ?q))"
    using orders_numbered [of ?q] distinct_map distinct_upt by metis
  moreover have "sorted (map qp_order (numbered ?q))" by (simp del: upt_Suc)
  ultimately have "sort_key qp_order (map ?g (filter (live sid) rows)) = numbered ?q"
    by (metis set_mset_mset sort_key_inj_key_eq)
  then show ?thesis using True
    by (simp add: renumber_map queue_rows_def [of sid "map ?g rows"] filter_map comp_def)
next
  case False
  have "number_of (queue_rows sid rows) r = r" if "r \<in> set rows" "live sid' r" for r
  proof -
    have "qp_id r \<notin> qp_id ` set (queue_rows sid rows)"
      using assms that False by (auto simp: distinct_map inj_on_def live_def)
    then show ?thesis by (simp add: number_of_def find_absent)
  qed
  with False show ?thesis unfolding renumber_map by (simp add: queue_same)
qed

end
