(* ===== verification/Queue_Invariant.thy ===== *)
theory Queue_Invariant
  imports Queue_Laws
begin

text \<open>
  The invariant of the prompt queue: the live prompts of a session are numbered from one without a
  gap, there are at most 21 of them, none but the first is claimed, a claimed one has a token, and
  no deduplication key is live twice. Every operation keeps it, the move to another session when
  that session has no live prompts.
\<close>

section \<open>Queues\<close>

definition session_ok :: "queued_prompt list \<Rightarrow> bool" where
  "session_ok q \<longleftrightarrow> map qp_order q = [1..<Suc (length q)] \<and> length q \<le> QUEUE_LIMIT \<and>
     (\<forall>p \<in> set (tl q). qp_state p = Pending) \<and> (\<forall>p \<in> set q. qp_state p = Claimed \<longrightarrow> qp_claimToken p \<noteq> None) \<and>
     distinct (map qp_dedupeKey (filter (\<lambda>p. qp_dedupeKey p \<noteq> None) q))"

definition queue_ok :: "queue_db \<Rightarrow> bool" where
  "queue_ok db \<longleftrightarrow> distinct (map qp_id (q_rows db)) \<and> (\<forall>r \<in> set (q_rows db). qp_id r < q_nextId db) \<and>
     (\<forall>sid. session_ok (queue_of sid db))"

lemma session_okD:
  assumes "session_ok q"
  shows "map qp_order q = [1..<Suc (length q)]" "length q \<le> QUEUE_LIMIT" "p \<in> set (tl q) \<Longrightarrow> qp_state p = Pending"
    "p \<in> set q \<Longrightarrow> qp_state p = Claimed \<Longrightarrow> qp_claimToken p \<noteq> None"
    "distinct (map qp_dedupeKey (filter (\<lambda>p. qp_dedupeKey p \<noteq> None) q))"
  using assms by (auto simp: session_ok_def)

lemma numbered_ok [simp]: "session_ok q \<Longrightarrow> numbered q = q"
  by (rule numbered_idem) (rule session_okD)

lemma numbered_fields: "(\<And>p k. f (p\<lparr>qp_order := k\<rparr>) = f p) \<Longrightarrow> map f (numbered q) = map f q"
  by (rule nth_equalityI) (simp_all add: numbered_def nth_enumerate_eq)

lemma tl_filter: "set (tl (filter P q)) \<subseteq> set (tl q)"
proof (cases q)
  case (Cons p ps)
  have "set (tl (filter P ps)) \<subseteq> set (filter P ps)" by (cases "filter P ps") auto
  with Cons show ?thesis by auto
qed simp

text \<open>The invariant apart from the numbers is one of the other columns.\<close>

definition columns_ok :: "(prompt_state \<times> uuid option \<times> string option) list \<Rightarrow> bool" where
  "columns_ok cs \<longleftrightarrow> length cs \<le> QUEUE_LIMIT \<and> (\<forall>(st, t, k) \<in> set (tl cs). st = Pending) \<and>
     (\<forall>(st, t, k) \<in> set cs. st = Claimed \<longrightarrow> t \<noteq> None) \<and> distinct (filter (\<lambda>k. k \<noteq> None) (map (\<lambda>c. snd (snd c)) cs))"

definition columns :: "queued_prompt \<Rightarrow> prompt_state \<times> uuid option \<times> string option" where
  "columns p = (qp_state p, qp_claimToken p, qp_dedupeKey p)"

lemma session_ok_columns: "session_ok q \<longleftrightarrow> map qp_order q = [1..<Suc (length q)] \<and> columns_ok (map columns q)"
proof -
  have "map (\<lambda>c. snd (snd c)) (map columns q) = map qp_dedupeKey q" by (simp add: columns_def)
  moreover have "filter (\<lambda>k. k \<noteq> None) (map qp_dedupeKey q) = map qp_dedupeKey (filter (\<lambda>p. qp_dedupeKey p \<noteq> None) q)"
    by (simp add: filter_map comp_def)
  moreover have "set (tl (map columns q)) = columns ` set (tl q)" by (metis list.set_map map_tl)
  ultimately show ?thesis
    unfolding session_ok_def columns_ok_def by (auto simp: columns_def simp del: upt_Suc not_None_eq map_map)
qed

lemma ok_numbered: "columns_ok (map columns q) \<Longrightarrow> session_ok (numbered q)"
  unfolding session_ok_columns by (simp add: numbered_fields columns_def del: upt_Suc)

lemma columns_filter:
  assumes "session_ok q"
  shows "columns_ok (map columns (filter P q))"
proof -
  have "length (filter P q) \<le> QUEUE_LIMIT" using session_okD(2) [OF assms] length_filter_le [of P q] by linarith
  moreover have "\<forall>p \<in> set (tl (filter P q)). qp_state p = Pending"
    using tl_filter [of P q] session_okD(3) [OF assms] by blast
  moreover have "distinct (filter (\<lambda>k. k \<noteq> None) (map qp_dedupeKey (filter P q)))"
  proof -
    have "filter (\<lambda>k. k \<noteq> None) (map qp_dedupeKey (filter P q)) =
        map qp_dedupeKey (filter P (filter (\<lambda>p. qp_dedupeKey p \<noteq> None) q))"
      by (simp add: filter_map comp_def conj_commute)
    then show ?thesis using session_okD(5) [OF assms] distinct_map_filter by metis
  qed
  moreover have "set (tl (map columns (filter P q))) = columns ` set (tl (filter P q))" by (metis list.set_map map_tl)
  ultimately show ?thesis using session_okD(4) [OF assms] by (auto simp: columns_ok_def columns_def comp_def)
qed

lemma ok_filter: "session_ok q \<Longrightarrow> session_ok (numbered (filter P q))"
  by (intro ok_numbered columns_filter)

section \<open>Renumbering\<close>

text \<open>What \<open>reorderQueue\<close> leaves.\<close>

definition reordered :: "string \<Rightarrow> queue_db \<Rightarrow> queue_db" where
  "reordered sid db = (let db1 = prunePromptQueueHistory sid db
     in db1\<lparr>q_rows := renumber (queue_of sid db1) (q_rows db1)\<rparr>)"

lemma reorder_run [simp]: "reorderQueue sid db = (Inr (), reordered sid db)"
  by (simp add: reorderQueue_def getSessionQueue_def bnd_run reordered_def Let_def)

definition ids_ok :: "queue_db \<Rightarrow> bool" where
  "ids_ok db \<longleftrightarrow> distinct (map qp_id (q_rows db)) \<and> (\<forall>r \<in> set (q_rows db). qp_id r < q_nextId db)"

lemma queue_ok_ids: "queue_ok db \<longleftrightarrow> ids_ok db \<and> (\<forall>sid. session_ok (queue_of sid db))"
  by (auto simp: queue_ok_def ids_ok_def)

lemma ids_ok_map:
  "map qp_id (q_rows db') = map qp_id (q_rows db) \<Longrightarrow> q_nextId db \<le> q_nextId db' \<Longrightarrow> ids_ok db \<Longrightarrow> ids_ok db'"
proof -
  assume i: "map qp_id (q_rows db') = map qp_id (q_rows db)" and n: "q_nextId db \<le> q_nextId db'" and ok: "ids_ok db"
  have "qp_id ` set (q_rows db') = qp_id ` set (q_rows db)" using i by (metis set_map)
  moreover have "\<forall>x \<in> qp_id ` set (q_rows db). x < q_nextId db'" using ok n by (auto simp: ids_ok_def)
  ultimately have "\<forall>x \<in> qp_id ` set (q_rows db'). x < q_nextId db'" by simp
  with i ok show ?thesis by (simp add: ids_ok_def)
qed

lemma ids_ok_delete: "ids_ok db \<Longrightarrow> ids_ok (delete_rows p db)"
  by (auto simp: ids_ok_def delete_rows_def distinct_map_filter)

lemma ids_ok_update: "(\<And>r. qp_id (f r) = qp_id r) \<Longrightarrow> ids_ok db \<Longrightarrow> ids_ok (update_rows p f db)"
  by (rule ids_ok_map [of _ db]) (auto simp: update_rows_def)

lemma ids_ok_prune: "ids_ok db \<Longrightarrow> ids_ok (prunePromptQueueHistory sid db)"
  using ids_prune [where sid = sid and db = db] unfolding ids_ok_def by auto

lemma reordered_frame [simp]: "q_nextId (reordered sid db) = q_nextId db" "q_clock (reordered sid db) = q_clock db"
  by (simp_all add: reordered_def Let_def)

lemma ids_ok_reordered: "ids_ok db \<Longrightarrow> ids_ok (reordered sid db)"
  using ids_ok_prune [of db sid]
  by (auto simp: reordered_def Let_def renumber_map intro: ids_ok_map [of _ "prunePromptQueueHistory sid db"])

lemma queue_reordered:
  assumes "ids_ok db"
  shows "queue_of sid' (reordered sid db) = (if sid' = sid then numbered (queue_of sid db) else queue_of sid' db)"
proof -
  have "distinct (map qp_id (q_rows (prunePromptQueueHistory sid db)))"
    using ids_ok_prune [OF assms] by (simp add: ids_ok_def)
  from queue_renumber [OF this, of sid' sid] show ?thesis
    using queue_prune [of sid sid db] queue_prune [of sid' sid db]
    by (simp add: reordered_def Let_def queue_of_rows)
qed

text \<open>After prompts of a session were dropped, renumbering restores the invariant.\<close>

lemma ok_reordered:
  assumes "ids_ok db" and "\<And>s. s \<noteq> sid \<Longrightarrow> session_ok (queue_of s db)" and "columns_ok (map columns (queue_of sid db))"
  shows "queue_ok (reordered sid db)"
  using assms by (auto simp: queue_ok_ids ids_ok_reordered queue_reordered ok_numbered)

lemma ok_drop:
  assumes "queue_ok db" and "\<And>r. p r \<Longrightarrow> qp_sessionId r = sid" and "\<And>r s. p r \<Longrightarrow> \<not> live s (f r)"
    and "\<And>r. qp_id (f r) = qp_id r"
  shows "queue_ok (reordered sid (update_rows p f db))"
    and "queue_of sid (reordered sid (update_rows p f db)) = numbered (filter (\<lambda>r. \<not> p r) (queue_of sid db))"
    and "s \<noteq> sid \<Longrightarrow> queue_of s (reordered sid (update_rows p f db)) = queue_of s db"
proof -
  have ids: "ids_ok (update_rows p f db)" using assms(1,4) by (simp add: queue_ok_ids ids_ok_update)
  have q: "queue_of s (update_rows p f db) = filter (\<lambda>r. \<not> p r) (queue_of s db)" for s
    unfolding queue_of_rows live_rows_simps by (simp add: queue_drop assms(3))
  have other: "filter (\<lambda>r. \<not> p r) (queue_of s db) = queue_of s db" if "s \<noteq> sid" for s
    using assms(2) that by (intro filter_True) (auto simp: queue_of_rows live_def)
  show "queue_ok (reordered sid (update_rows p f db))"
    using assms(1) by (intro ok_reordered ids) (simp_all add: q other queue_ok_ids columns_filter)
  show "queue_of sid (reordered sid (update_rows p f db)) = numbered (filter (\<lambda>r. \<not> p r) (queue_of sid db))"
    by (simp add: queue_reordered [OF ids] q)
  show "s \<noteq> sid \<Longrightarrow> queue_of s (reordered sid (update_rows p f db)) = queue_of s db"
    by (simp add: queue_reordered [OF ids] q other)
qed

lemma ok_delete:
  assumes "queue_ok db" and "\<And>r. p r \<Longrightarrow> qp_sessionId r = sid"
  shows "queue_ok (reordered sid (delete_rows p db))"
    and "queue_of sid (reordered sid (delete_rows p db)) = numbered (filter (\<lambda>r. \<not> p r) (queue_of sid db))"
    and "s \<noteq> sid \<Longrightarrow> queue_of s (reordered sid (delete_rows p db)) = queue_of s db"
proof -
  have ids: "ids_ok (delete_rows p db)" using assms(1) by (simp add: queue_ok_ids ids_ok_delete)
  have q: "queue_of s (delete_rows p db) = filter (\<lambda>r. \<not> p r) (queue_of s db)" for s
    by (simp add: queue_of_rows queue_filter)
  have other: "filter (\<lambda>r. \<not> p r) (queue_of s db) = queue_of s db" if "s \<noteq> sid" for s
    using assms(2) that by (intro filter_True) (auto simp: queue_of_rows live_def)
  show "queue_ok (reordered sid (delete_rows p db))"
    using assms(1) by (intro ok_reordered ids) (simp_all add: q other queue_ok_ids columns_filter)
  show "queue_of sid (reordered sid (delete_rows p db)) = numbered (filter (\<lambda>r. \<not> p r) (queue_of sid db))"
    by (simp add: queue_reordered [OF ids] q)
  show "s \<noteq> sid \<Longrightarrow> queue_of s (reordered sid (delete_rows p db)) = queue_of s db"
    by (simp add: queue_reordered [OF ids] q other)
qed

text \<open>Updates that leave the prompts in the queue; only the first prompt may become claimed.\<close>

definition stays :: "(queued_prompt \<Rightarrow> bool) \<Rightarrow> (queued_prompt \<Rightarrow> queued_prompt) \<Rightarrow> queue_db \<Rightarrow> bool" where
  "stays p f db \<longleftrightarrow> (\<forall>r \<in> set (q_rows db). p r \<longrightarrow> qp_id (f r) = qp_id r \<and> qp_order (f r) = qp_order r \<and>
     qp_dedupeKey (f r) = qp_dedupeKey r \<and> (\<forall>s. live s (f r) = live s r) \<and>
     (qp_state (f r) = Claimed \<longrightarrow> qp_claimToken (f r) \<noteq> None \<and> (qp_state r = Claimed \<or> qp_order r = 1)))"

lemma queue_stays: "stays p f db \<Longrightarrow> queue_of s (update_rows p f db) = map (\<lambda>r. if p r then f r else r) (queue_of s db)"
  unfolding queue_of_rows live_rows_simps by (rule queue_map) (auto simp: stays_def)

lemma session_ok_tl_order: "session_ok q \<Longrightarrow> p \<in> set (tl q) \<Longrightarrow> qp_order p \<noteq> 1"
proof -
  assume ok: "session_ok q" and p: "p \<in> set (tl q)"
  then obtain x xs where q: "q = x # xs" by (cases q) auto
  have "map qp_order q = [1..<Suc (length q)]" using ok by (rule session_okD)
  then have "map qp_order xs = [2..<Suc (length q)]" using q by (simp add: upt_conv_Cons numeral_2_eq_2 del: upt_Suc)
  then have "qp_order ` set xs = {2..<Suc (length q)}" by (metis set_map set_upt)
  moreover have "p \<in> set xs" using p q by simp
  ultimately have "qp_order p \<in> {2..<Suc (length q)}" by blast
  then show ?thesis by simp
qed

lemma ok_stays:
  assumes ok: "queue_ok db" and st: "stays p f db"
  shows "queue_ok (update_rows p f db)"
proof -
  let ?g = "\<lambda>r. if p r then f r else r"
  have "map qp_id (q_rows (update_rows p f db)) = map qp_id (q_rows db)"
    using st unfolding live_rows_simps map_map by (intro map_cong) (simp_all add: stays_def)
  then have ids: "ids_ok (update_rows p f db)"
    using ok by (intro ids_ok_map [of "update_rows p f db" db]) (simp_all add: queue_ok_ids update_rows_def)
  have "session_ok (map ?g (queue_of s db))" for s
  proof -
    let ?q = "queue_of s db"
    have q: "session_ok ?q" using ok by (simp add: queue_ok_ids)
    have f: "qp_order (?g r) = qp_order r" "qp_dedupeKey (?g r) = qp_dedupeKey r"
        "qp_state (?g r) = Claimed \<Longrightarrow> qp_claimToken (?g r) \<noteq> None \<and> (qp_state r = Claimed \<or> qp_order r = 1)"
        "live s (?g r)" if "r \<in> set ?q" for r
    proof -
      have r: "r \<in> set (q_rows db)" "live s r" using that by (auto simp: queue_of_rows)
      from r st show "qp_order (?g r) = qp_order r" "qp_dedupeKey (?g r) = qp_dedupeKey r" "live s (?g r)"
        by (auto simp: stays_def)
      show "qp_state (?g r) = Claimed \<Longrightarrow> qp_claimToken (?g r) \<noteq> None \<and> (qp_state r = Claimed \<or> qp_order r = 1)"
        using r st session_okD(4) [OF q that] by (auto simp: stays_def)
    qed
    have "map qp_order (map ?g ?q) = map qp_order ?q" using f(1) by simp
    moreover have "map qp_dedupeKey (filter (\<lambda>r. qp_dedupeKey r \<noteq> None) (map ?g ?q)) =
        map qp_dedupeKey (filter (\<lambda>r. qp_dedupeKey r \<noteq> None) ?q)"
    proof -
      have "map qp_dedupeKey (map ?g ?q) = map qp_dedupeKey ?q" using f(2) by simp
      then have "filter (\<lambda>k. k \<noteq> None) (map qp_dedupeKey (map ?g ?q)) = filter (\<lambda>k. k \<noteq> None) (map qp_dedupeKey ?q)"
        by (rule arg_cong)
      then show ?thesis by (simp only: filter_map comp_def)
    qed
    moreover have "qp_state r = Pending" if "r \<in> set (tl (map ?g ?q))" for r
    proof -
      from that have "r \<in> set (map ?g (tl ?q))" by (simp only: map_tl)
      then obtain r0 where r0: "r0 \<in> set (tl ?q)" "r = ?g r0" by auto
      then have m: "r0 \<in> set ?q" by (cases ?q) auto
      have "qp_state r \<noteq> Claimed"
        using f(3) [OF m] session_okD(3) [OF q r0(1)] session_ok_tl_order [OF q r0(1)] unfolding r0(2)
        by (metis prompt_state.distinct(1))
      with f(4) [OF m] r0(2) show ?thesis by (simp add: live_def)
    qed
    moreover have "qp_state r = Claimed \<longrightarrow> qp_claimToken r \<noteq> None" if "r \<in> set (map ?g ?q)" for r
    proof -
      from that obtain r0 where "r0 \<in> set ?q" "r = ?g r0" by auto
      with f(3) show ?thesis by blast
    qed
    ultimately show ?thesis
      using session_okD [OF q] unfolding session_ok_def by (simp only: length_map simp_thms) blast
  qed
  then show ?thesis using ids queue_stays [OF st] by (simp add: queue_ok_ids)
qed

end
