(* ===== verification/Queue_Steps.thy ===== *)
theory Queue_Steps
  imports Queue_Invariant
begin

text \<open>
  Each operation of the prompt queue as a change of the database, and what it keeps of the
  invariant.
\<close>

section \<open>Runs\<close>

lemma delete_none: "changes p db = 0 \<Longrightarrow> delete_rows p db = db"
  by (simp add: changes_def delete_rows_def filter_empty_conv)

lemma update_none: "changes p db = 0 \<Longrightarrow> update_rows p f db = db"
proof -
  assume "changes p db = 0"
  then have "map (\<lambda>r. if p r then f r else r) (q_rows db) = q_rows db"
    by (intro map_idI) (simp add: changes_def filter_empty_conv)
  then show ?thesis by (simp add: update_rows_def)
qed

lemma guarded_run: "guarded_update p f db =
    (if changes p db = 0 then (Inl (QueueConflict ''Dispatch claim changed'' 409), db)
     else (Inr (), update_rows p (f (q_clock db)) db))"
  by (simp add: guarded_update_def bnd_run update_none)

lemma delete_run: "deletePromptById sid i db =
    (Inr (changes (pending_row sid i) db > 0),
     if changes (pending_row sid i) db > 0 then reordered sid (delete_rows (pending_row sid i) db) else db)"
  by (simp add: deletePromptById_def bnd_run delete_none)

lemma head_in: "getNextQueuedPrompt sid db = Some r \<Longrightarrow> r \<in> set (q_rows db) \<and> live sid r \<and> r \<in> set (queue_of sid db)"
proof -
  assume "getNextQueuedPrompt sid db = Some r"
  then have "r \<in> set (queue_of sid db)" by (auto simp: getNextQueuedPrompt_def split: list.splits)
  then show ?thesis by (simp add: queue_of_rows)
qed

lemma head_order: "queue_ok db \<Longrightarrow> getNextQueuedPrompt sid db = Some r \<Longrightarrow> qp_order r = 1"
proof -
  assume ok: "queue_ok db" and "getNextQueuedPrompt sid db = Some r"
  then obtain ps where q: "queue_of sid db = r # ps" by (auto simp: getNextQueuedPrompt_def split: list.splits)
  from ok have "session_ok (queue_of sid db)" by (simp add: queue_ok_ids)
  then have "map qp_order (queue_of sid db) = [1..<Suc (length (queue_of sid db))]" by (rule session_okD)
  with q show "qp_order r = 1" by (simp add: upt_conv_Cons del: upt_Suc)
qed

lemma one_row: "ids_ok db \<Longrightarrow> x \<in> set (q_rows db) \<Longrightarrow> y \<in> set (q_rows db) \<Longrightarrow> qp_id x = qp_id y \<Longrightarrow> x = y"
  by (auto simp: ids_ok_def distinct_map inj_on_def)

lemma claim_run:
  "claimNextPrompt sid db = (case getNextQueuedPrompt sid db of
     None \<Rightarrow> (Inr None, db)
   | Some r \<Rightarrow> if qp_state r \<noteq> Pending then (Inr None, db)
       else (Inr (Some (r\<lparr>qp_state := Claimed, qp_claimToken := Some (q_nextId db),
               qp_deliveryState := Some ''unsent'', qp_deliveryId := Some (q_nextId db)\<rparr>)),
             (update_rows (\<lambda>x. qp_id x = qp_id r \<and> qp_state x = Pending) (set_claimed (q_nextId db) (q_clock db)) db)
               \<lparr>q_nextId := Suc (q_nextId db)\<rparr>))"
  by (simp add: claimNextPrompt_def transaction_run bnd_run split: option.split)

section \<open>The invariant\<close>

lemma ok_prune: "queue_ok db \<Longrightarrow> queue_ok (prunePromptQueueHistory sid db)"
  by (auto simp: queue_ok_ids ids_ok_prune)

lemma ok_next_id: "queue_ok db \<Longrightarrow> q_nextId db \<le> n \<Longrightarrow> queue_ok (db\<lparr>q_nextId := n\<rparr>)"
  by (force simp: queue_ok_def queue_of_def)

lemma ok_other: "queue_ok db \<Longrightarrow> q_rows db' = q_rows db \<Longrightarrow> q_nextId db' = q_nextId db \<Longrightarrow> queue_ok db'"
  by (simp add: queue_ok_def queue_of_def)

lemma ok_reorder: "queue_ok db \<Longrightarrow> queue_ok (reordered sid db)"
  by (rule ok_reordered) (simp_all add: queue_ok_ids session_ok_columns)

lemma live_states: "live s r \<Longrightarrow> qp_sessionId r = s"
  by (simp add: live_def)

lemma ok_update: "queue_ok db \<Longrightarrow> queue_ok (snd (updatePromptContent sid i content db))"
  by (auto simp: updatePromptContent_def bnd_run intro!: ok_stays simp: stays_def live_def pending_row_def)

lemma ok_deletePrompt: "queue_ok db \<Longrightarrow> queue_ok (snd (deletePromptById sid i db))"
  using ok_delete(1) [of db "pending_row sid i" sid] by (simp add: delete_run pending_row_def)

lemma ok_removeNext: "queue_ok db \<Longrightarrow> queue_ok (snd (removeNextPrompt sid db))"
  using ok_deletePrompt [of db sid]
  by (auto simp: removeNextPrompt_def transaction_run bnd_run delete_run split: option.split)

lemma ok_claim:
  assumes ok: "queue_ok db"
  shows "queue_ok (snd (claimNextPrompt sid db))"
proof (cases "getNextQueuedPrompt sid db")
  case (Some r)
  have "stays (\<lambda>x. qp_id x = qp_id r \<and> qp_state x = Pending) (set_claimed t c) db" for t c
    using ok one_row [of db] head_in [OF Some] head_order [OF ok Some]
    by (auto simp: stays_def set_claimed_def live_def queue_ok_ids)
  from ok_stays [OF ok this] show ?thesis
    using ok Some by (simp add: claim_run ok_next_id update_rows_def)
qed (simp add: claim_run ok)

lemma stays_claim: "(\<And>r. f r = r\<lparr>qp_deliveryState := d, qp_deliveryUpdatedAt := u\<rparr>) \<Longrightarrow> (\<And>r. p r \<Longrightarrow> claim_row sid i t r) \<Longrightarrow> stays p f db"
  by (auto simp: stays_def live_def claim_row_def)

lemma ok_accept: "queue_ok db \<Longrightarrow> queue_ok (snd (recordClaimAcceptance sid i token db))"
  by (auto simp: recordClaimAcceptance_def guarded_run intro!: ok_stays stays_claim)

lemma ok_sending: "queue_ok db \<Longrightarrow> queue_ok (snd (markClaimSending sid i token db))"
  by (auto simp: markClaimSending_def guarded_run intro!: ok_stays stays_claim)

lemma ok_release: "queue_ok db \<Longrightarrow> queue_ok (snd (releaseRejectedClaim sid i token certainty db))"
  by (auto simp: releaseRejectedClaim_def intro!: ok_stays) (auto simp: stays_def live_def claim_row_def)

lemma complete_run: "completeClaim sid i token db =
    (if changes (claim_row sid i token) db = 0 then (Inl (QueueConflict ''Dispatch claim changed'' 409), db)
     else (Inr (), reordered sid (update_rows (claim_row sid i token) (\<lambda>r. r\<lparr>qp_state := Dispatched,
       qp_deliveryState := Some ''accepted'', qp_deliveryUpdatedAt := Some (q_clock db)\<rparr>) db)))"
  by (simp add: completeClaim_def bnd_run guarded_run)

lemma ok_complete: "queue_ok db \<Longrightarrow> queue_ok (snd (completeClaim sid i token db))"
  by (auto simp: complete_run intro!: ok_drop(1)) (auto simp: claim_row_def live_def)

text \<open>Dropping without renumbering: what stays is the first prompt at most.\<close>

lemma only_head:
  assumes "session_ok q" and "\<And>r. r \<in> set q \<Longrightarrow> qp_state r = Pending \<Longrightarrow> \<not> P r"
  shows "session_ok (filter P q)"
proof (cases q)
  case (Cons p ps)
  have "\<forall>x \<in> set ps. \<not> P x" using assms(2) session_okD(3) [OF assms(1)] Cons by auto
  then have f: "filter P q = (if P p then [p] else [])" using Cons by (simp add: filter_empty_conv)
  have "qp_order p = 1" using session_okD(1) [OF assms(1)] Cons by (simp add: upt_conv_Cons del: upt_Suc)
  then show ?thesis
    using f session_okD(4) [OF assms(1), of p] Cons by (simp add: session_ok_def QUEUE_LIMIT_def)
qed (simp add: session_ok_def)

lemma ok_clear: "queue_ok db \<Longrightarrow> queue_ok (snd (clearSessionQueue sid db))"
proof -
  assume ok: "queue_ok db"
  let ?p = "\<lambda>r. qp_sessionId r = sid \<and> qp_state r = Pending"
  have q: "queue_of s (delete_rows ?p db) = filter (\<lambda>r. \<not> ?p r) (queue_of s db)" for s
    unfolding queue_of_rows live_rows_simps by (rule queue_filter)
  have "session_ok (queue_of s (delete_rows ?p db))" for s
  proof (cases "s = sid")
    case True
    show ?thesis unfolding q
      by (rule only_head) (use ok True in \<open>auto simp: queue_ok_ids queue_of_rows live_def\<close>)
  next
    case False
    have "filter (\<lambda>r. \<not> ?p r) (queue_of s db) = queue_of s db"
      by (rule filter_True) (use False in \<open>auto simp: queue_of_rows live_def\<close>)
    with ok show ?thesis unfolding q by (simp add: queue_ok_ids)
  qed
  then show ?thesis using ok by (simp add: clearSessionQueue_def queue_ok_ids ids_ok_delete)
qed

lemma ok_supersede: "queue_ok db \<Longrightarrow> queue_ok (snd (supersedeDedicatedPending sid b db))"
proof -
  assume ok: "queue_ok db"
  let ?p = "\<lambda>r. qp_sessionId r = sid \<and> qp_state r = Pending"
  let ?f = "\<lambda>r. r\<lparr>qp_state := Superseded, qp_revision := qp_revision r + 1\<rparr>"
  have q: "queue_of s (update_rows ?p ?f db) = filter (\<lambda>r. \<not> ?p r) (queue_of s db)" for s
    unfolding queue_of_rows live_rows_simps by (rule queue_drop) (simp add: live_def)
  have "session_ok (queue_of s (update_rows ?p ?f db))" for s
  proof (cases "s = sid")
    case True
    show ?thesis unfolding q
      by (rule only_head) (use ok True in \<open>auto simp: queue_ok_ids queue_of_rows live_def\<close>)
  next
    case False
    have "filter (\<lambda>r. \<not> ?p r) (queue_of s db) = queue_of s db"
      by (rule filter_True) (use False in \<open>auto simp: queue_of_rows live_def\<close>)
    with ok show ?thesis unfolding q by (simp add: queue_ok_ids)
  qed
  then have u: "queue_ok (update_rows ?p ?f db)" using ok by (simp add: queue_ok_ids ids_ok_update)
  have fold: "q_rows (fold (\<lambda>r. add_recovery sid r x y z w) rs db) = q_rows db \<and>
      q_nextId (fold (\<lambda>r. add_recovery sid r x y z w) rs db) = q_nextId db" for x y z w rs
    by (induction rs arbitrary: db) (simp_all add: add_recovery_def)
  have "queue_ok (update_rows ?p ?f (fold (\<lambda>r. add_recovery sid r x y z w) rs db))" for x y z w rs
    by (rule ok_other [OF u]) (simp_all add: update_rows_def fold)
  with ok show ?thesis by (simp add: supersedeDedicatedPending_def transaction_run bnd_run Let_def)
qed

lemma ok_acknowledge: "queue_ok db \<Longrightarrow> queue_ok (snd (acknowledgePrompt sid i rvn actor reason db))"
proof -
  assume ok: "queue_ok db"
  let ?db = "prunePromptQueueHistory sid db"
  have "queue_ok (reordered sid (update_rows (\<lambda>x. pending_row sid i x \<and> nat_string (qp_revision x) = rvn)
      (\<lambda>x. x\<lparr>qp_state := Handled, qp_handledAt := Some c, qp_handledBy := Some a, qp_handledReason := Some b\<rparr>) ?db))" for a b c
    by (rule ok_drop(1)) (auto simp: ok_prune [OF ok] pending_row_def live_def)
  with ok_prune [OF ok, of sid] show ?thesis
    by (simp add: acknowledgePrompt_def transaction_run bnd_run split: option.split sum.split)
qed

lemma ok_reconcile: "queue_ok db \<Longrightarrow> queue_ok (snd (reconcileClaim sid i rvn token resolution actor reason db))"
proof -
  assume ok: "queue_ok db"
  have fin: "queue_ok (reordered sid (update_rows (\<lambda>x. qp_id x = i) (set_reconciled acc actor rs c)
      (add_recovery sid r d a b e db)))" if "r \<in> set (q_rows db)" "qp_id r = i" "qp_state r = Claimed" "qp_sessionId r = sid" for acc rs c r d a b e
  proof -
    let ?db = "add_recovery sid r d a b e db"
    have ok': "queue_ok ?db" by (rule ok_other [OF ok]) (simp_all add: add_recovery_def)
    have only: "x \<in> set (q_rows ?db) \<Longrightarrow> qp_id x = i \<Longrightarrow> x = r" for x
      using ok that one_row [of db x r] by (simp add: queue_ok_ids add_recovery_def)
    show ?thesis
    proof (cases acc)
      case True
      have same: "update_rows (\<lambda>x. qp_id x = i) f ?db = update_rows (\<lambda>x. qp_id x = i \<and> qp_sessionId x = sid) f ?db" for f
        unfolding update_rows_def using only that by (intro arg_cong [of _ _ "\<lambda>rs. ?db\<lparr>q_rows := rs\<rparr>"] map_cong) auto
      show ?thesis unfolding same
        by (rule ok_drop(1) [OF ok']) (auto simp: set_reconciled_def live_def True)
    next
      case False
      have "stays (\<lambda>x. qp_id x = i) (set_reconciled acc actor rs c) ?db"
        using only that False by (auto simp: stays_def set_reconciled_def live_def)
      from ok_stays [OF ok' this] show ?thesis by (rule ok_reorder)
    qed
  qed
  show ?thesis
  proof (cases "find_prompt sid i db")
    case None
    with ok show ?thesis by (simp add: reconcileClaim_def transaction_run bnd_run)
  next
    case (Some r)
    then have "r \<in> set (q_rows db)" "qp_id r = i" "qp_sessionId r = sid"
      by (auto simp: find_prompt_def find_Some_iff)
    with Some ok fin show ?thesis
      by (simp add: reconcileClaim_def transaction_run bnd_run split: option.split)
  qed
qed

section \<open>Adding\<close>

lemma add_run: "addPrompt sid inp db =
    (let db1 = prunePromptQueueHistory sid db; n = length (queue_of sid db); r = new_prompt sid inp n db1 in
     if trim (pi_content inp) = [] then (Inr None, db1)
     else if n \<ge> QUEUE_LIMIT then (Inl (QueueError ''Queue limit reached (21 prompts maximum)''), db1)
     else if duplicate r (q_rows db1) then (Inr None, db1\<lparr>q_nextId := Suc (q_nextId db1)\<rparr>)
     else (Inr (Some (r\<lparr>qp_payload := pi_payload inp\<rparr>)), insert_prompt r db1))"
proof -
  have "getQueueCount sid (prunePromptQueueHistory sid db) = length (queue_of sid (prunePromptQueueHistory sid db))"
    by (simp add: getQueueCount_def changes_def queue_of_def)
  then show ?thesis by (simp add: addPrompt_def bnd_run Let_def)
qed

lemma insert_queue:
  assumes ok: "queue_ok db" and r: "r = new_prompt sid inp (length (queue_of sid db)) db"
  shows "queue_of s (insert_prompt r db) = (if s = sid then queue_of sid db @ [r] else queue_of s db)"
proof -
  let ?q = "queue_of sid db"
  have f: "qp_sessionId r = sid" "qp_state r = Pending" "qp_order r = Suc (length ?q)" by (simp_all add: r new_prompt_def)
  have "map qp_order ?q = [1..<Suc (length ?q)]" using ok by (intro session_okD) (simp add: queue_ok_ids)
  then have i: "qp_order ` set ?q = {1..<Suc (length ?q)}" by (metis set_map set_upt)
  have "qp_order p \<le> qp_order r" if "p \<in> set (queue_rows (qp_sessionId r) (q_rows db))" for p
  proof -
    from that f(1) have "p \<in> set ?q" by (simp add: queue_of_rows)
    then have "qp_order p \<in> {1..<Suc (length ?q)}" using i by blast
    with f(3) show ?thesis by simp
  qed
  from queue_snoc [OF this f(2), where sid = s] f(1) show ?thesis
    by (simp add: queue_of_rows insert_prompt_def)
qed

lemma ok_insert:
  assumes ok: "queue_ok db" and r: "r = new_prompt sid inp (length (queue_of sid db)) db"
    and room: "length (queue_of sid db) < QUEUE_LIMIT" and fresh: "\<not> duplicate r (q_rows db)"
  shows "queue_ok (insert_prompt r db)"
proof -
  let ?q = "queue_of sid db"
  have q: "session_ok ?q" using ok by (simp add: queue_ok_ids)
  have f: "qp_state r = Pending" "qp_order r = Suc (length ?q)" "qp_id r = q_nextId db" by (simp_all add: r new_prompt_def)
  have new: "qp_dedupeKey r \<noteq> None \<longrightarrow> qp_dedupeKey r \<notin> qp_dedupeKey ` set ?q"
    using fresh by (auto simp: duplicate_def list_ex_iff queue_of_rows r new_prompt_def)
  have "session_ok (?q @ [r])"
  proof -
    have "map qp_order (?q @ [r]) = [1..<Suc (length (?q @ [r]))]"
      using session_okD(1) [OF q] f(2) by simp
    moreover have "length (?q @ [r]) \<le> QUEUE_LIMIT" using room by simp
    moreover have "\<forall>p \<in> set (tl (?q @ [r])). qp_state p = Pending"
      using session_okD(3) [OF q] f(1) by (cases ?q) auto
    moreover have "\<forall>p \<in> set (?q @ [r]). qp_state p = Claimed \<longrightarrow> qp_claimToken p \<noteq> None"
      using session_okD(4) [OF q] f(1) by auto
    moreover have "distinct (map qp_dedupeKey (filter (\<lambda>p. qp_dedupeKey p \<noteq> None) (?q @ [r])))"
      using session_okD(5) [OF q] new by (simp del: not_None_eq) auto
    ultimately show ?thesis unfolding session_ok_def by blast
  qed
  moreover have "ids_ok (insert_prompt r db)"
    using ok f(3) by (fastforce simp: queue_ok_ids ids_ok_def insert_prompt_def)
  ultimately show ?thesis using ok insert_queue [OF ok r] by (simp add: queue_ok_ids)
qed

lemma ok_add: "queue_ok db \<Longrightarrow> queue_ok (snd (addPrompt sid inp db))"
proof -
  assume "queue_ok db"
  then have ok: "queue_ok (prunePromptQueueHistory sid db)" by (rule ok_prune)
  from ok ok_insert [OF ok refl, of sid inp] ok_next_id [OF ok] show ?thesis by (simp add: add_run Let_def)
qed

section \<open>Many sessions\<close>

lemma ok_deleteByType: "queue_ok db \<Longrightarrow> queue_ok (snd (deletePromptsByType ty db))"
proof -
  assume ok: "queue_ok db"
  let ?p = "\<lambda>r. qp_type r = Some (trim ty) \<and> qp_state r = Pending"
  let ?d = "delete_rows ?p db"
  have q: "queue_of s ?d = filter (\<lambda>r. \<not> ?p r) (queue_of s db)" for s
    unfolding queue_of_rows live_rows_simps by (rule queue_filter)
  have fold: "ids_ok d \<Longrightarrow> (\<forall>s. columns_ok (map columns (queue_of s d)) \<and> (s \<notin> set sids \<longrightarrow> session_ok (queue_of s d))) \<Longrightarrow>
      queue_ok (snd (foldr (\<lambda>sid k. bnd (reorderQueue sid) (\<lambda>_. k)) sids (ret n) d))" for sids d and n :: nat
  proof (induction sids arbitrary: d)
    case (Cons sid sids)
    have "ids_ok (reordered sid d)" using Cons.prems(1) by (rule ids_ok_reordered)
    moreover have "columns_ok (map columns (queue_of s (reordered sid d))) \<and>
        (s \<notin> set sids \<longrightarrow> session_ok (queue_of s (reordered sid d)))" for s
      using Cons.prems ok_numbered session_ok_columns by (simp add: queue_reordered)
    ultimately show ?case using Cons.IH [of "reordered sid d"] by (simp add: bnd_run)
  qed (simp add: queue_ok_ids)
  have "session_ok (queue_of s ?d)" if "s \<notin> set (remdups (map qp_sessionId (filter ?p (q_rows db))))" for s
  proof -
    have "filter (\<lambda>r. \<not> ?p r) (queue_of s db) = queue_of s db"
      by (rule filter_True) (use that in \<open>auto simp: queue_of_rows live_def\<close>)
    with ok show ?thesis unfolding q by (simp add: queue_ok_ids)
  qed
  moreover have "columns_ok (map columns (queue_of s ?d))" for s
    unfolding q by (rule columns_filter) (use ok in \<open>simp add: queue_ok_ids\<close>)
  ultimately have "queue_ok (snd (foldr (\<lambda>sid k. bnd (reorderQueue sid) (\<lambda>_. k))
      (remdups (map qp_sessionId (filter ?p (q_rows db)))) (ret (changes ?p db)) ?d))"
    using ok by (intro fold) (simp_all add: queue_ok_ids ids_ok_delete)
  with ok show ?thesis by (simp add: deletePromptsByType_def bnd_run Let_def del: set_remdups)
qed

lemma ok_retire: "queue_ok db \<Longrightarrow> queue_ok (snd (retireForFreshHumanTrigger sid trigger snap db))"
proof -
  assume ok: "queue_ok db"
  let ?p = "\<lambda>cutoff r. live sid r \<and> qp_rowid r \<le> cutoff \<and>
     (case snap of None \<Rightarrow> True | Some es \<Rightarrow> (qp_id r, nat_string (qp_revision r)) \<in> set es)"
  have drop: "queue_ok (reordered sid (update_rows (?p c) (\<lambda>r. r\<lparr>qp_state := Superseded, qp_revision := qp_revision r + 1,
       qp_handledAt := Some t, qp_handledBy := Some ''fresh-human-trigger'', qp_handledReason := Some (retire_reason trigger)\<rparr>)
       (db\<lparr>q_cutoffs := cs\<rparr>)))" for c t cs
  proof (rule ok_drop(1))
    show "queue_ok (db\<lparr>q_cutoffs := cs\<rparr>)" by (rule ok_other [OF ok]) simp_all
  qed (auto simp: live_def)
  show ?thesis
  proof (cases "find_cutoff ''prompts'' sid trigger db")
    case None
    with drop show ?thesis by (simp add: retireForFreshHumanTrigger_def retireSessionWork_def transaction_run bnd_run)
  next
    case (Some c)
    with ok_reorder [OF ok] show ?thesis
      by (simp add: retireForFreshHumanTrigger_def retireSessionWork_def transaction_run bnd_run)
  qed
qed

text \<open>A session taken over by one that has no live prompts.\<close>

lemma ok_rebind:
  assumes ok: "queue_ok db" and empty: "queue_of target db = []"
  shows "queue_ok (snd (rebindSession source target db))"
proof -
  let ?g = "\<lambda>r. if qp_sessionId r = source then r\<lparr>qp_sessionId := target\<rparr> else r"
  have no: "\<not> live target r" if "r \<in> set (q_rows db)" for r
  proof -
    have "set (queue_of target db) = {}" using empty by simp
    with that show ?thesis by (auto simp: queue_of_rows)
  qed
  have q: "session_ok (queue_rows s (map ?g (q_rows db)))" if "source \<noteq> target" for s
  proof (cases "s = target")
    case True
    have "filter (live target) (map ?g (q_rows db)) = map ?g (filter (live source) (q_rows db))"
    proof -
      have "live target (?g r) = live source r" if "r \<in> set (q_rows db)" for r
        using no [OF that] by (auto simp: live_def)
      then show ?thesis by (simp add: filter_map comp_def cong: filter_cong)
    qed
    then have "queue_rows target (map ?g (q_rows db)) = map ?g (queue_of source db)"
      by (simp add: queue_rows_def queue_of_def sort_key_map)
    moreover have "session_ok (map ?g (queue_of source db))"
    proof -
      have so: "session_ok (queue_of source db)" using ok by (simp add: queue_ok_ids)
      have "map qp_order (map ?g (queue_of source db)) = map qp_order (queue_of source db)"
        "map columns (map ?g (queue_of source db)) = map columns (queue_of source db)" by (simp_all add: columns_def)
      with so show ?thesis unfolding session_ok_columns by (simp only: length_map)
    qed
    ultimately show ?thesis using True by simp
  next
    case False
    have "queue_rows s (map ?g (q_rows db)) = filter (\<lambda>r. \<not> qp_sessionId r = source) (queue_rows s (q_rows db))"
      by (rule queue_drop) (use False in \<open>simp add: live_def\<close>)
    moreover have "session_ok (filter (\<lambda>r. \<not> qp_sessionId r = source) (queue_of s db))"
    proof (cases "s = source")
      case True
      then have "filter (\<lambda>r. \<not> qp_sessionId r = source) (queue_of s db) = []"
        by (auto simp: filter_empty_conv queue_of_rows live_def)
      then show ?thesis by (simp add: session_ok_def)
    next
      case s: False
      then have "filter (\<lambda>r. \<not> qp_sessionId r = source) (queue_of s db) = queue_of s db"
        by (intro filter_True) (auto simp: queue_of_rows live_def)
      with ok show ?thesis by (simp add: queue_ok_ids)
    qed
    ultimately show ?thesis by (simp add: queue_of_rows)
  qed
  have "queue_ok (update_rows (\<lambda>r. qp_sessionId r = source) (\<lambda>r. r\<lparr>qp_sessionId := target\<rparr>) db)" if "source \<noteq> target"
    using ok q [OF that] by (simp add: queue_ok_ids ids_ok_update queue_of_rows)
  with ok show ?thesis by (simp add: rebindSession_def bnd_run)
qed

end
