(* ===== verification/Queue_Fifo.thy ===== *)
theory Queue_Fifo
  imports Queue_Steps
begin

text \<open>
  What a dispatcher may rely on: the queue of a session is a first-in first-out list of prompts, of
  which the first may be held by the owner of a token. \<open>fifo\<close> is that abstraction of the tables;
  \<open>fifo_claim\<close>, \<open>fifo_settle\<close> and \<open>fifo_release\<close> are the abstract operations. The
  locale states the interface a dispatcher uses with the laws of a delivery, and is interpreted on
  the tables.
\<close>

section \<open>The abstraction\<close>

type_synonym item = "uuid \<times> string \<times> uuid option"

definition item_of :: "queued_prompt \<Rightarrow> item" where
  "item_of p = (qp_id p, qp_content p, if qp_state p = Claimed then qp_claimToken p else None)"

definition fifo :: "string \<Rightarrow> queue_db \<Rightarrow> item list" where
  "fifo sid db = map item_of (queue_of sid db)"

fun fifo_claim :: "uuid \<Rightarrow> item list \<Rightarrow> item list" where
  "fifo_claim t ((i, c, None) # q) = (i, c, Some t) # q"
| "fifo_claim t q = q"

fun holds :: "uuid \<Rightarrow> uuid \<Rightarrow> item list \<Rightarrow> bool" where
  "holds i t ((j, c, held) # q) = (j = i \<and> held = Some t)"
| "holds i t [] = False"

definition fifo_settle :: "uuid \<Rightarrow> uuid \<Rightarrow> item list \<Rightarrow> item list" where
  "fifo_settle i t q = (if holds i t q then tl q else q)"

definition fifo_release :: "uuid \<Rightarrow> uuid \<Rightarrow> item list \<Rightarrow> item list" where
  "fifo_release i t q = (if holds i t q then map (\<lambda>(j, c, held). (j, c, if j = i then None else held)) q else q)"

lemma fifo_numbered [simp]: "map item_of (numbered q) = map item_of q"
  by (rule numbered_fields) (simp add: item_of_def)

lemma fifo_prune [simp]: "fifo s (prunePromptQueueHistory sid db) = fifo s db"
  by (simp add: fifo_def)

lemma fifo_other_columns: "q_rows db' = q_rows db \<Longrightarrow> fifo s db' = fifo s db"
  by (simp add: fifo_def queue_of_def)

text \<open>The rows behind a held first prompt.\<close>

lemma tail_free: "queue_ok db \<Longrightarrow> x \<in> set (tl (fifo sid db)) \<Longrightarrow> snd (snd x) = None"
proof -
  assume ok: "queue_ok db" and x: "x \<in> set (tl (fifo sid db))"
  from x obtain p where p: "p \<in> set (tl (queue_of sid db))" "x = item_of p"
    by (auto simp: fifo_def simp flip: map_tl)
  have "session_ok (queue_of sid db)" using ok by (simp add: queue_ok_ids)
  from session_okD(3) [OF this p(1)] p(2) show ?thesis by (simp add: item_of_def)
qed

lemma ids_fifo: "queue_ok db \<Longrightarrow> distinct (map fst (fifo sid db))"
proof -
  assume "queue_ok db"
  then have "distinct (map qp_id (filter (live sid) (q_rows db)))" by (simp add: queue_ok_def distinct_map_filter)
  moreover have "mset (map qp_id (queue_of sid db)) = mset (map qp_id (filter (live sid) (q_rows db)))"
    by (simp add: queue_of_def)
  ultimately have "distinct (map qp_id (queue_of sid db))" by (metis mset_eq_imp_distinct_iff)
  then show ?thesis by (simp add: fifo_def item_of_def comp_def)
qed

lemma claim_row_live: "claim_row sid i t r \<Longrightarrow> live sid r"
  by (simp add: claim_row_def live_def)

lemma claim_row_first:
  assumes ok: "queue_ok db" and r: "r \<in> set (q_rows db)" "claim_row sid i t r"
  obtains q where "queue_of sid db = r # q"
proof -
  have m: "r \<in> set (queue_of sid db)" using r claim_row_live by (simp add: queue_of_rows)
  have so: "session_ok (queue_of sid db)" using ok by (simp add: queue_ok_ids)
  from m obtain p q where q: "queue_of sid db = p # q" by (cases "queue_of sid db") auto
  have "r \<notin> set q"
  proof
    assume "r \<in> set q"
    with session_okD(3) [OF so, of r] q have "qp_state r = Pending" by simp
    with r(2) show False by (simp add: claim_row_def)
  qed
  with m q have "r = p" by simp
  with q that show thesis by blast
qed

lemma holds_iff: "queue_ok db \<Longrightarrow> holds i t (fifo sid db) \<longleftrightarrow> changes (claim_row sid i t) db > 0"
proof
  assume "holds i t (fifo sid db)"
  then obtain p q where q: "queue_of sid db = p # q" and p: "holds i t [item_of p]"
    by (cases "queue_of sid db") (auto simp: fifo_def item_of_def)
  have "p \<in> set (queue_of sid db)" using q by simp
  then have "p \<in> set (q_rows db)" "live sid p" by (simp_all add: queue_of_rows)
  moreover from this p have "claim_row sid i t p"
    by (auto simp: item_of_def claim_row_def live_def split: if_splits)
  ultimately show "changes (claim_row sid i t) db > 0" by (auto simp: changes_def filter_empty_conv)
next
  assume ok: "queue_ok db" and "changes (claim_row sid i t) db > 0"
  then obtain r where r: "r \<in> set (q_rows db)" "claim_row sid i t r" by (auto simp: changes_def filter_empty_conv)
  with ok obtain q where "queue_of sid db = r # q" by (rule claim_row_first)
  with r(2) show "holds i t (fifo sid db)" by (simp add: fifo_def item_of_def claim_row_def)
qed

section \<open>The operations on the abstraction\<close>

text \<open>Updates that keep prompts in their places.\<close>

lemma fifo_stays:
  "stays p f db \<Longrightarrow> fifo s (update_rows p f db) = map (\<lambda>r. item_of (if p r then f r else r)) (queue_of s db)"
  by (simp add: fifo_def queue_stays comp_def)

lemma fifo_same:
  "stays p f db \<Longrightarrow> (\<And>r. r \<in> set (queue_of s db) \<Longrightarrow> p r \<Longrightarrow> item_of (f r) = item_of r) \<Longrightarrow>
     fifo s (update_rows p f db) = fifo s db"
  by (simp add: fifo_stays) (simp add: fifo_def)

lemma fifo_drop:
  assumes "queue_ok db" and "\<And>r. p r \<Longrightarrow> qp_sessionId r = sid" and "\<And>r s. p r \<Longrightarrow> \<not> live s (f r)"
    and "\<And>r. qp_id (f r) = qp_id r" and "\<And>r. r \<in> set (queue_of sid db) \<Longrightarrow> p r \<longleftrightarrow> P (item_of r)"
  shows "fifo s (reordered sid (update_rows p f db)) = (if s = sid then filter (\<lambda>x. \<not> P x) (fifo sid db) else fifo s db)"
proof -
  have "map item_of (filter (\<lambda>r. \<not> p r) (queue_of sid db)) = filter (\<lambda>x. \<not> P x) (fifo sid db)"
    using assms(5) by (simp add: fifo_def filter_map comp_def cong: filter_cong)
  then show ?thesis using ok_drop(2,3) [OF assms(1-4)] by (simp add: fifo_def)
qed

lemma fifo_delete:
  assumes "queue_ok db" and "\<And>r. p r \<Longrightarrow> qp_sessionId r = sid"
    and "\<And>r. r \<in> set (queue_of sid db) \<Longrightarrow> p r \<longleftrightarrow> P (item_of r)"
  shows "fifo s (reordered sid (delete_rows p db)) = (if s = sid then filter (\<lambda>x. \<not> P x) (fifo sid db) else fifo s db)"
proof -
  have "map item_of (filter (\<lambda>r. \<not> p r) (queue_of sid db)) = filter (\<lambda>x. \<not> P x) (fifo sid db)"
    using assms(3) by (simp add: fifo_def filter_map comp_def cong: filter_cong)
  then show ?thesis using ok_delete(2,3) [OF assms(1,2)] by (simp add: fifo_def)
qed

lemma queue_session_ok: "queue_ok db \<Longrightarrow> session_ok (queue_of sid db)"
  by (simp add: queue_ok_ids)

lemma first_item:
  assumes "queue_ok db"
  shows "(case fifo sid db of (i, c, None) # _ \<Rightarrow> Some (i, c) | _ \<Rightarrow> None) =
    (case getNextQueuedPrompt sid db of None \<Rightarrow> None
     | Some r \<Rightarrow> if qp_state r = Pending then Some (qp_id r, qp_content r) else None)"
proof (cases "queue_of sid db")
  case (Cons r q)
  then have "r \<in> set (queue_of sid db)" by simp
  then have "live sid r" by (simp add: queue_of_rows)
  with session_okD(4) [OF queue_session_ok [OF assms], of r sid] Cons show ?thesis
    by (auto simp: fifo_def getNextQueuedPrompt_def item_of_def live_def split: option.split)
qed (simp add: fifo_def getNextQueuedPrompt_def)

lemma fifo_claimNext:
  assumes ok: "queue_ok db"
  shows "fifo s (snd (claimNextPrompt sid db)) = (if s = sid then fifo_claim (q_nextId db) (fifo sid db) else fifo s db)"
proof (cases "queue_of sid db")
  case Nil
  then show ?thesis by (simp add: claim_run getNextQueuedPrompt_def fifo_def)
next
  case (Cons r q)
  let ?p = "\<lambda>x. qp_id x = qp_id r \<and> qp_state x = Pending" and ?f = "set_claimed (q_nextId db) (q_clock db)"
  have head: "getNextQueuedPrompt sid db = Some r" using Cons by (simp add: getNextQueuedPrompt_def)
  have r: "r \<in> set (q_rows db)" "live sid r" using head_in [OF head] by simp_all
  show ?thesis
  proof (cases "qp_state r = Pending")
    case False
    then have "qp_state r = Claimed" using r by (simp add: live_def)
    moreover from this have "qp_claimToken r \<noteq> None"
      using session_okD(4) [OF queue_session_ok [OF ok], of r sid] Cons by simp
    ultimately show ?thesis using head Cons by (auto simp: claim_run fifo_def item_of_def)
  next
    case True
    have only: "x = r" if "x \<in> set (q_rows db)" "qp_id x = qp_id r" for x
      using one_row [of db x r] ok that r by (simp add: queue_ok_ids)
    have st: "stays ?p ?f db"
      using only head_order [OF ok head] by (auto simp: stays_def set_claimed_def live_def)
    have "fifo s (snd (claimNextPrompt sid db)) = fifo s (update_rows ?p ?f db)"
      using head True by (simp add: claim_run fifo_other_columns)
    also have "\<dots> = map (\<lambda>x. item_of (if ?p x then ?f x else x)) (queue_of s db)" by (rule fifo_stays [OF st])
    also have "\<dots> = (if s = sid then fifo_claim (q_nextId db) (fifo sid db) else fifo s db)"
    proof (cases "s = sid")
      case False
      then have "qp_id x \<noteq> qp_id r" if "x \<in> set (queue_of s db)" for x
        using that only [of x] r by (auto simp: queue_of_rows live_def)
      with False show ?thesis by (simp add: fifo_def)
    next
      case s: True
      have "qp_id x \<noteq> qp_id r" if "x \<in> set q" for x
      proof -
        have "distinct (qp_id r # map qp_id q)" using ids_fifo [OF ok, of sid] Cons by (simp add: fifo_def item_of_def comp_def)
        with that show ?thesis by (metis distinct.simps(2) image_eqI list.set_map)
      qed
      then have "map (\<lambda>x. item_of (if ?p x then ?f x else x)) q = map item_of q" by simp
      with s True Cons show ?thesis by (simp add: fifo_def) (simp add: item_of_def set_claimed_def)
    qed
    finally show ?thesis .
  qed
qed

lemma claimNext_result:
  assumes ok: "queue_ok db"
  shows "\<exists>x. fst (claimNextPrompt sid db) = Inr x \<and>
    map_option item_of x = (case fifo sid db of (i, c, None) # _ \<Rightarrow> Some (i, c, Some (q_nextId db)) | _ \<Rightarrow> None)"
  using first_item [OF ok, of sid]
  by (cases "getNextQueuedPrompt sid db") (auto simp: claim_run item_of_def split: list.splits option.splits if_splits)

text \<open>Settling a claim.\<close>

lemma claim_row_item:
  assumes "queue_ok db" "r \<in> set (queue_of sid db)"
  shows "claim_row sid i t r \<longleftrightarrow> fst (item_of r) = i \<and> snd (snd (item_of r)) = Some t"
  using assms(2) by (auto simp: claim_row_def item_of_def queue_of_rows live_def)

lemma settle_filter:
  assumes "queue_ok db"
  shows "filter (\<lambda>x. \<not> (fst x = i \<and> snd (snd x) = Some t)) (fifo sid db) = fifo_settle i t (fifo sid db)"
proof (cases "fifo sid db")
  case (Cons x q)
  have "snd (snd y) = None" if "y \<in> set q" for y using tail_free [OF assms, of y sid] Cons that by simp
  then have "filter (\<lambda>x. \<not> (fst x = i \<and> snd (snd x) = Some t)) q = q" by (simp add: filter_id_conv)
  with Cons show ?thesis by (cases x) (auto simp: fifo_settle_def)
qed (simp add: fifo_settle_def)

lemma fifo_complete:
  assumes ok: "queue_ok db"
  shows "fifo s (snd (completeClaim sid i t db)) = (if s = sid then fifo_settle i t (fifo sid db) else fifo s db)"
proof (cases "holds i t (fifo sid db)")
  case False
  then show ?thesis using holds_iff [OF ok, of i t sid] by (simp add: complete_run fifo_settle_def)
next
  case True
  let ?f = "\<lambda>r. r\<lparr>qp_state := Dispatched, qp_deliveryState := Some ''accepted'', qp_deliveryUpdatedAt := Some (q_clock db)\<rparr>"
  have "fifo s (reordered sid (update_rows (claim_row sid i t) ?f db)) =
      (if s = sid then filter (\<lambda>x. \<not> (fst x = i \<and> snd (snd x) = Some t)) (fifo sid db) else fifo s db)"
  proof (rule fifo_drop [OF ok])
    show "claim_row sid i t r \<longleftrightarrow> fst (item_of r) = i \<and> snd (snd (item_of r)) = Some t"
      if "r \<in> set (queue_of sid db)" for r by (rule claim_row_item [OF ok that])
  qed (simp_all add: claim_row_def live_def)
  with True holds_iff [OF ok, of i t sid] settle_filter [OF ok, of i t sid] show ?thesis
    by (simp add: complete_run)
qed

lemma fifo_releaseClaim:
  assumes ok: "queue_ok db"
  shows "fifo s (snd (releaseRejectedClaim sid i t certainty db)) = (if s = sid then fifo_release i t (fifo sid db) else fifo s db)"
proof -
  let ?f = "\<lambda>r. r\<lparr>qp_state := Pending, qp_deliveryState := Some certainty, qp_claimToken := None\<rparr>"
  have st: "stays (claim_row sid i t) ?f db" by (auto simp: stays_def live_def claim_row_def)
  have run: "fifo s (snd (releaseRejectedClaim sid i t certainty db)) =
      map (\<lambda>r. item_of (if claim_row sid i t r then ?f r else r)) (queue_of s db)"
    unfolding releaseRejectedClaim_def by (simp add: fifo_stays [OF st])
  show ?thesis
  proof (cases "s = sid \<and> holds i t (fifo sid db)")
    case True
    then obtain r q where q: "queue_of sid db = r # q" and r: "holds i t [item_of r]"
      by (cases "queue_of sid db") (auto simp: fifo_def item_of_def)
    have ids: "qp_id x \<noteq> i" if "x \<in> set q" for x
    proof -
      have "distinct (qp_id r # map qp_id q)" using ids_fifo [OF ok, of sid] q by (simp add: fifo_def item_of_def comp_def)
      moreover have "qp_id r = i" using r by (simp add: item_of_def)
      ultimately show ?thesis using that by (metis distinct.simps(2) image_eqI list.set_map)
    qed
    have "claim_row sid i t r" using r q claim_row_item [OF ok, of r sid i t] by (cases "item_of r") simp
    then have "item_of (if claim_row sid i t r then ?f r else r) = (i, qp_content r, None)"
      by (simp add: item_of_def claim_row_def)
    moreover have "map (\<lambda>x. item_of (if claim_row sid i t x then ?f x else x)) q = map item_of q"
      using ids by (simp add: claim_row_def)
    moreover have "map (\<lambda>(j, c, held). (j, c, if j = i then None else held)) (map item_of q) = map item_of q"
      using ids by (auto simp: item_of_def)
    ultimately show ?thesis using run True q r by (simp add: fifo_release_def fifo_def) (simp add: item_of_def)
  next
    case False
    have "\<not> claim_row sid i t r" if "r \<in> set (queue_of s db)" for r
    proof
      assume c: "claim_row sid i t r"
      then have "s = sid" using that by (auto simp: claim_row_def queue_of_rows live_def)
      moreover have "changes (claim_row sid i t) db > 0" using that c by (auto simp: changes_def filter_empty_conv queue_of_rows)
      ultimately show False using False holds_iff [OF ok, of i t sid] by simp
    qed
    then have "fifo s (snd (releaseRejectedClaim sid i t certainty db)) = fifo s db"
      unfolding run by (simp add: fifo_def)
    with False show ?thesis by (auto simp: fifo_release_def)
  qed
qed

text \<open>Marks of a delivery do not move prompts.\<close>

lemma fifo_marks:
  assumes "queue_ok db"
  shows "fifo s (snd (markClaimSending sid i t db)) = fifo s db"
    and "fifo s (snd (recordClaimAcceptance sid i t db)) = fifo s db"
proof -
  have "fifo s (update_rows p (\<lambda>r. r\<lparr>qp_deliveryState := d, qp_deliveryUpdatedAt := u\<rparr>) db) = fifo s db"
    if "\<And>r. p r \<Longrightarrow> claim_row sid i t r" for p d u
    by (rule fifo_same, rule stays_claim) (use that in \<open>simp_all add: item_of_def\<close>)
  from this [of "\<lambda>r. claim_row sid i t r \<and> qp_deliveryState r = Some ''unsent''"] this [of "claim_row sid i t"]
  show "fifo s (snd (markClaimSending sid i t db)) = fifo s db"
    "fifo s (snd (recordClaimAcceptance sid i t db)) = fifo s db"
    by (simp_all add: markClaimSending_def recordClaimAcceptance_def guarded_run)
qed

text \<open>Prompts that come and go.\<close>

lemma fifo_add:
  assumes ok: "queue_ok db"
  shows "case addPrompt sid inp db of
      (Inr (Some p), db') \<Rightarrow> item_of p = (qp_id p, trim (pi_content inp), None) \<and>
        fifo s db' = (if s = sid then fifo sid db @ [item_of p] else fifo s db)
    | (_, db') \<Rightarrow> fifo s db' = fifo s db"
proof -
  let ?db = "prunePromptQueueHistory sid db"
  let ?r = "new_prompt sid inp (length (queue_of sid ?db)) ?db"
  have i: "item_of (?r\<lparr>qp_payload := x\<rparr>) = item_of ?r" for x by (simp add: item_of_def)
  have "item_of ?r = (qp_id ?r, trim (pi_content inp), None)" by (simp add: item_of_def new_prompt_def)
  moreover have "fifo s (insert_prompt ?r ?db) = (if s = sid then fifo sid db @ [item_of ?r] else fifo s db)"
    using insert_queue [OF ok_prune [OF ok, of sid], of ?r sid inp s] by (simp add: fifo_def)
  ultimately show ?thesis
    using fifo_other_columns [of "?db\<lparr>q_nextId := Suc (q_nextId ?db)\<rparr>" ?db s] i
    by (auto simp: add_run Let_def)
qed

lemma pending_item:
  assumes "queue_ok db" "r \<in> set (queue_of sid db)"
  shows "pending_row sid i r \<longleftrightarrow> fst (item_of r) = i \<and> snd (snd (item_of r)) = None"
  using assms(2) session_okD(4) [OF queue_session_ok [OF assms(1)] assms(2)]
  by (auto simp: pending_row_def item_of_def queue_of_rows live_def)

lemma fifo_deletePrompt:
  assumes ok: "queue_ok db"
  shows "fifo s (snd (deletePromptById sid i db)) =
    (if s = sid then filter (\<lambda>x. \<not> (fst x = i \<and> snd (snd x) = None)) (fifo sid db) else fifo s db)"
proof -
  have del: "fifo s (reordered sid (delete_rows (pending_row sid i) db)) =
      (if s = sid then filter (\<lambda>x. \<not> (fst x = i \<and> snd (snd x) = None)) (fifo sid db) else fifo s db)"
  proof (rule fifo_delete [OF ok])
    show "pending_row sid i r \<longleftrightarrow> fst (item_of r) = i \<and> snd (snd (item_of r)) = None"
      if "r \<in> set (queue_of sid db)" for r by (rule pending_item [OF ok that])
  qed (simp add: pending_row_def)
  show ?thesis
  proof (cases "changes (pending_row sid i) db > 0")
    case False
    have "\<not> pending_row sid i r" if "r \<in> set (queue_of sid db)" for r
      using False that by (auto simp: changes_def filter_empty_conv queue_of_rows)
    then have "\<not> (fst x = i \<and> snd (snd x) = None)" if "x \<in> set (fifo sid db)" for x
      using that pending_item [OF ok] by (auto simp: fifo_def)
    then have "filter (\<lambda>x. \<not> (fst x = i \<and> snd (snd x) = None)) (fifo sid db) = fifo sid db"
      by (intro filter_True) blast
    with False show ?thesis by (simp add: delete_run)
  qed (use del in \<open>simp add: delete_run\<close>)
qed

lemma fifo_acknowledge:
  assumes ok: "queue_ok db" and ack: "acknowledgePrompt sid i rvn actor reason db = (Inr p, db')"
  shows "fifo s db' = (if s = sid then filter (\<lambda>x. \<not> (fst x = i \<and> snd (snd x) = None)) (fifo sid db) else fifo s db)"
proof -
  let ?db = "prunePromptQueueHistory sid db"
  note okp = ok_prune [OF ok, of sid]
  obtain r where r: "find_prompt sid i ?db = Some r" "nat_string (qp_revision r) = rvn"
      and state: "qp_state r = Handled \<and> db' = ?db \<or> qp_state r = Pending \<and>
        (\<exists>a b c. db' = reordered sid (update_rows (\<lambda>x. pending_row sid i x \<and> nat_string (qp_revision x) = rvn)
          (\<lambda>x. x\<lparr>qp_state := Handled, qp_handledAt := Some c, qp_handledBy := Some a, qp_handledReason := Some b\<rparr>) ?db))"
    using ack by (auto simp: acknowledgePrompt_def transaction_run bnd_run split: if_splits option.splits sum.splits)
  have m: "r \<in> set (q_rows ?db)" "qp_id r = i" "qp_sessionId r = sid"
    using r(1) by (auto simp: find_prompt_def find_Some_iff)
  have only: "x = r" if "x \<in> set (q_rows ?db)" "qp_id x = i" for x
    using one_row [of ?db x r] okp that m by (simp add: queue_ok_ids)
  from state show ?thesis
  proof (elim disjE conjE exE)
    assume h: "qp_state r = Handled" "db' = ?db"
    have "fst x \<noteq> i" if "x \<in> set (fifo sid ?db)" for x
      using that only h(1) by (auto simp: fifo_def item_of_def queue_of_rows live_def)
    then have "filter (\<lambda>x. \<not> (fst x = i \<and> snd (snd x) = None)) (fifo sid ?db) = fifo sid ?db"
      by (intro filter_True) blast
    with h show ?thesis by simp
  next
    fix a b c
    assume h: "qp_state r = Pending" "db' = reordered sid (update_rows (\<lambda>x. pending_row sid i x \<and> nat_string (qp_revision x) = rvn)
          (\<lambda>x. x\<lparr>qp_state := Handled, qp_handledAt := Some c, qp_handledBy := Some a, qp_handledReason := Some b\<rparr>) ?db)"
    have "fifo s db' = (if s = sid then filter (\<lambda>x. \<not> (fst x = i \<and> snd (snd x) = None)) (fifo sid ?db) else fifo s ?db)"
      unfolding h(2)
    proof (rule fifo_drop [OF okp])
      fix x assume x: "x \<in> set (queue_of sid ?db)"
      then have "pending_row sid i x \<longrightarrow> nat_string (qp_revision x) = rvn"
        using only [of x] r(2) by (auto simp: pending_row_def queue_of_rows)
      then show "(pending_row sid i x \<and> nat_string (qp_revision x) = rvn) \<longleftrightarrow> fst (item_of x) = i \<and> snd (snd (item_of x)) = None"
        using pending_item [OF okp x] by blast
    qed (simp_all add: pending_row_def live_def)
    then show ?thesis by simp
  qed
qed

section \<open>The interface of a dispatcher\<close>

text \<open>
  What a dispatcher needs of a queue: a claim takes hold of the first prompt with a fresh token,
  and the holder's token settles it or gives it back.
\<close>

locale delivery_queue =
  fixes good :: "'d \<Rightarrow> bool" and items :: "'k \<Rightarrow> 'd \<Rightarrow> item list" and token :: "'d \<Rightarrow> uuid"
    and claim :: "'k \<Rightarrow> 'd \<Rightarrow> 'd" and settle :: "'k \<Rightarrow> uuid \<Rightarrow> uuid \<Rightarrow> 'd \<Rightarrow> 'd" and give_back :: "'k \<Rightarrow> uuid \<Rightarrow> uuid \<Rightarrow> 'd \<Rightarrow> 'd"
  assumes good_claim: "good d \<Longrightarrow> good (claim k d)"
    and good_settle: "good d \<Longrightarrow> good (settle k i t d)"
    and items_claim: "good d \<Longrightarrow> items j (claim k d) = (if j = k then fifo_claim (token d) (items k d) else items j d)"
    and items_settle: "good d \<Longrightarrow> items j (settle k i t d) = (if j = k then fifo_settle i t (items k d) else items j d)"
    and items_give_back: "good d \<Longrightarrow> items j (give_back k i t d) = (if j = k then fifo_release i t (items k d) else items j d)"
    and items_distinct: "good d \<Longrightarrow> distinct (map fst (items k d))"
begin

lemma first_claim: "good d \<Longrightarrow> items k d = (i, c, None) # q \<Longrightarrow> items k (claim k d) = (i, c, Some (token d)) # q"
  by (simp add: items_claim)

lemma second_claim: "good d \<Longrightarrow> items k d = (i, c, None) # q \<Longrightarrow> items k (claim k (claim k d)) = items k (claim k d)"
  by (simp add: items_claim good_claim)

lemma claim_settle: "good d \<Longrightarrow> items k d = (i, c, None) # q \<Longrightarrow> items k (settle k i (token d) (claim k d)) = q"
  by (simp add: items_settle first_claim good_claim fifo_settle_def)

lemma claim_give_back:
  assumes "good d" "items k d = (i, c, None) # q"
  shows "items k (give_back k i (token d) (claim k d)) = items k d"
proof -
  have "i \<notin> fst ` set q" using items_distinct [OF assms(1), of k] assms(2) by simp
  then have "map (\<lambda>(j, c, held). (j, c, if j = i then None else held)) q = q"
    by (intro map_idI) force
  then show ?thesis
    using assms by (simp add: items_give_back first_claim good_claim fifo_release_def)
qed

lemma settle_stale: "good d \<Longrightarrow> items k d = (i, c, Some t) # q \<Longrightarrow> u \<noteq> t \<Longrightarrow> items k (settle k i u d) = items k d"
  by (simp add: items_settle fifo_settle_def)

lemma settle_once:
  assumes "good d" "items k d = (i, c, Some t) # q"
  shows "items k (settle k i t (settle k i t d)) = items k (settle k i t d)"
proof -
  have "i \<notin> fst ` set q" using items_distinct [OF assms(1), of k] assms(2) by simp
  then have "\<not> holds i t q" by (cases q) auto
  with assms show ?thesis by (simp add: items_settle good_settle fifo_settle_def)
qed

end

interpretation prompts: delivery_queue queue_ok fifo q_nextId
  "\<lambda>sid db. snd (claimNextPrompt sid db)" "\<lambda>sid i t db. snd (completeClaim sid i t db)"
  "\<lambda>sid i t db. snd (releaseRejectedClaim sid i t ''rejected'' db)"
  by unfold_locales (simp_all add: ok_claim ok_complete fifo_claimNext fifo_complete fifo_releaseClaim ids_fifo)

end
