(* ===== verification/Queue_Contract.thy ===== *)
theory Queue_Contract
  imports Queue_Fifo
begin

text \<open>
  What the prompt queue promises: the invariant of every table it can reach, its behaviour as a
  first-in first-out list with one claim at the head, and the retention of what has ended.
\<close>

section \<open>Histories\<close>

datatype queue_call =
    Add string prompt_input
  | Edit string uuid string
  | Delete string uuid
  | RemoveNext string
  | Clear string
  | DeleteByType string
  | Claim string
  | MarkSending string uuid uuid
  | RecordAcceptance string uuid uuid
  | Complete string uuid uuid
  | Release string uuid uuid string
  | Acknowledge string uuid string string string
  | Reconcile string uuid string "uuid option" string string string
  | Supersede string string
  | Retire string string "(uuid \<times> string) list option"
  | Rebind string string
  | Read string
  | Later nat

fun run_call :: "queue_call \<Rightarrow> queue_db \<Rightarrow> queue_db" where
  "run_call (Add sid inp) db = snd (addPrompt sid inp db)"
| "run_call (Edit sid i content) db = snd (updatePromptContent sid i content db)"
| "run_call (Delete sid i) db = snd (deletePromptById sid i db)"
| "run_call (RemoveNext sid) db = snd (removeNextPrompt sid db)"
| "run_call (Clear sid) db = snd (clearSessionQueue sid db)"
| "run_call (DeleteByType ty) db = snd (deletePromptsByType ty db)"
| "run_call (Claim sid) db = snd (claimNextPrompt sid db)"
| "run_call (MarkSending sid i t) db = snd (markClaimSending sid i t db)"
| "run_call (RecordAcceptance sid i t) db = snd (recordClaimAcceptance sid i t db)"
| "run_call (Complete sid i t) db = snd (completeClaim sid i t db)"
| "run_call (Release sid i t certainty) db = snd (releaseRejectedClaim sid i t certainty db)"
| "run_call (Acknowledge sid i rvn actor reason) db = snd (acknowledgePrompt sid i rvn actor reason db)"
| "run_call (Reconcile sid i rvn token resolution actor reason) db =
     snd (reconcileClaim sid i rvn token resolution actor reason db)"
| "run_call (Supersede sid b) db = snd (supersedeDedicatedPending sid b db)"
| "run_call (Retire sid trigger snap) db = snd (retireForFreshHumanTrigger sid trigger snap db)"
| "run_call (Rebind source target) db = snd (rebindSession source target db)"
| "run_call (Read sid) db = snd (getSessionQueue sid db)"
| "run_call (Later ms) db = db\<lparr>q_clock := q_clock db + ms\<rparr>"

text \<open>
  The histories of the queue invariant: a session is rebound to one without live prompts, as its
  callers do when they have just made the other session. \<open>rebindSession\<close> itself does not check it.
\<close>

fun admissible :: "queue_call \<Rightarrow> queue_db \<Rightarrow> bool" where
  "admissible (Rebind source target) db = (queue_of target db = [])"
| "admissible _ db = True"

inductive queue_history :: "queue_db \<Rightarrow> bool" where
  empty: "q_rows db = [] \<Longrightarrow> queue_history db"
| called: "queue_history db \<Longrightarrow> admissible c db \<Longrightarrow> queue_history (run_call c db)"

inductive_cases queue_history_start: "queue_history db"

lemma ok_call: "queue_ok db \<Longrightarrow> admissible c db \<Longrightarrow> queue_ok (run_call c db)"
  by (cases c) (simp_all add: ok_add ok_update ok_deletePrompt ok_removeNext ok_clear ok_deleteByType ok_claim ok_sending
      ok_accept ok_complete ok_release ok_acknowledge ok_reconcile ok_supersede ok_retire ok_rebind
      getSessionQueue_def bnd_run ok_prune ok_other [where db = db])

lemma ok_empty: "q_rows db = [] \<Longrightarrow> queue_ok db"
  by (simp add: queue_ok_def queue_of_def session_ok_def)

text \<open>A run of calls, for concrete histories.\<close>

fun run_calls :: "queue_call list \<Rightarrow> queue_db \<Rightarrow> queue_db" where
  "run_calls [] db = db"
| "run_calls (c # cs) db = run_calls cs (run_call c db)"

fun all_admissible :: "queue_call list \<Rightarrow> queue_db \<Rightarrow> bool" where
  "all_admissible [] db = True"
| "all_admissible (c # cs) db = (admissible c db \<and> all_admissible cs (run_call c db))"

lemma history_calls: "queue_history db \<Longrightarrow> all_admissible cs db \<Longrightarrow> queue_history (run_calls cs db)"
  by (induction cs arbitrary: db) (auto intro: queue_history.called)

lemma ok_calls: "queue_ok db \<Longrightarrow> all_admissible cs db \<Longrightarrow> queue_ok (run_calls cs db)"
  by (induction cs arbitrary: db) (auto intro: ok_call)

definition no_prompts :: queue_db where
  "no_prompts = \<lparr>q_rows = [], q_recovery = [], q_cutoffs = [], q_nextId = 1, q_clock = 1000\<rparr>"

definition prompt :: "string \<Rightarrow> prompt_input" where
  "prompt content = \<lparr>pi_content = content, pi_type = None, pi_dedupeKey = None, pi_payload = None\<rparr>"

text \<open>Two prompts for a session, the first of them claimed.\<close>

definition sample_calls :: "queue_call list" where
  "sample_calls = [Add ''s'' (prompt ''first''), Add ''s'' (prompt ''second''), Claim ''s'']"

section \<open>Properties\<close>

text \<open>C33: In every table that a history of calls can produce from an empty one, in which a session is
  rebound only to a session without live prompts, the live prompts of each session are numbered
  from one without a gap, they are at most 21, only the first can be claimed and a claimed one has
  a token, no deduplication key is live twice, and no two rows have the same id. The restriction is
  needed: \<open>rebindSession\<close> does not check its target and does not number again.\<close>

theorem queue_wellformed: "queue_history db \<Longrightarrow> queue_ok db"
  by (induction rule: queue_history.induct) (simp_all add: ok_empty ok_call)

theorem queue_wellformed_witness:
  "queue_ok (run_calls sample_calls no_prompts) \<and> getQueueCount ''s'' (run_calls sample_calls no_prompts) = 2"
proof
  have "all_admissible sample_calls no_prompts" by (simp add: sample_calls_def)
  then have "queue_history (run_calls sample_calls no_prompts)"
    by (intro history_calls queue_history.empty) (simp_all add: no_prompts_def)
  then show "queue_ok (run_calls sample_calls no_prompts)" by (rule queue_wellformed)
  show "getQueueCount ''s'' (run_calls sample_calls no_prompts) = 2" by code_simp
qed

text \<open>A session with a prompt is rebound to another one with a prompt: two prompts are the first.\<close>

definition two_sessions :: queue_db where
  "two_sessions = run_calls [Add ''a'' (prompt ''first''), Add ''b'' (prompt ''other'')] no_prompts"

lemma rebind_breaks_numbering:
  "queue_ok two_sessions \<and> map qp_order (queue_of ''b'' (run_call (Rebind ''a'' ''b'') two_sessions)) = [1, 1] \<and>
   \<not> queue_ok (run_call (Rebind ''a'' ''b'') two_sessions)"
proof (intro conjI)
  show "queue_ok two_sessions"
    unfolding two_sessions_def by (rule ok_calls) (simp_all add: ok_empty no_prompts_def)
  show two: "map qp_order (queue_of ''b'' (run_call (Rebind ''a'' ''b'') two_sessions)) = [1, 1]" by code_simp
  show "\<not> queue_ok (run_call (Rebind ''a'' ''b'') two_sessions)"
  proof
    assume "queue_ok (run_call (Rebind ''a'' ''b'') two_sessions)"
    then have "session_ok (queue_of ''b'' (run_call (Rebind ''a'' ''b'') two_sessions))" by (simp add: queue_ok_def)
    from session_okD(1) [OF this] two have
      "[1..<Suc (length (queue_of ''b'' (run_call (Rebind ''a'' ''b'') two_sessions)))] = [1, 1]" by simp
    then show False by (metis distinct_upt distinct_length_2_or_more)
  qed
qed

text \<open>Adding a prompt puts it at the end of its session's queue with its trimmed content and
  unclaimed, and leaves the queues of all other sessions alone; when nothing is returned or the
  limit is reached, no queue changes.\<close>

lemma add_is_last:
  assumes "queue_ok db"
  shows "case addPrompt sid inp db of
      (Inr (Some p), db') \<Rightarrow> item_of p = (qp_id p, trim (pi_content inp), None) \<and>
        fifo s db' = (if s = sid then fifo sid db @ [item_of p] else fifo s db)
    | (_, db') \<Rightarrow> fifo s db' = fifo s db"
  by (rule fifo_add [OF assms])

lemma sample_ok: "queue_ok (run_calls sample_calls no_prompts)"
  by (rule ok_calls) (simp_all add: ok_empty no_prompts_def sample_calls_def)

text \<open>A claim takes hold of the first prompt when it is free, under a new token, and returns it;
  when the queue is empty or its first prompt is claimed already it returns nothing and changes no
  queue. No other session is touched.\<close>

theorem claim_takes_first:
  assumes "queue_ok db"
  shows "fifo s (snd (claimNextPrompt sid db)) = (if s = sid then fifo_claim (q_nextId db) (fifo sid db) else fifo s db) \<and>
    (\<exists>x. fst (claimNextPrompt sid db) = Inr x \<and>
      map_option item_of x = (case fifo sid db of (i, c, None) # _ \<Rightarrow> Some (i, c, Some (q_nextId db)) | _ \<Rightarrow> None))"
  using fifo_claimNext [OF assms] claimNext_result [OF assms] by blast

definition two_prompts :: queue_db where
  "two_prompts = run_calls (take 2 sample_calls) no_prompts"

lemma two_ok: "queue_ok two_prompts"
  unfolding two_prompts_def
  by (rule ok_calls) (simp_all add: ok_empty no_prompts_def sample_calls_def)

theorem claim_takes_first_witness:
  "fifo ''s'' (snd (claimNextPrompt ''s'' two_prompts)) = [(1, ''first'', Some 3), (2, ''second'', None)]"
proof -
  have "fifo ''s'' two_prompts = [(1, ''first'', None), (2, ''second'', None)]" "q_nextId two_prompts = 3" by code_simp+
  with claim_takes_first [OF two_ok, of "''s''" "''s''"] show ?thesis by simp
qed

text \<open>C34: From a free first prompt: a claim completed with its own token removes exactly that
  prompt, a claim given back leaves the queue as it was, and while it is held a second claim and a
  completion with any other token change nothing.\<close>

theorem delivery_cycle:
  assumes "queue_ok db" and "fifo sid db = (i, c, None) # q" and "u \<noteq> q_nextId db"
  shows "fifo sid (snd (completeClaim sid i (q_nextId db) (snd (claimNextPrompt sid db)))) = q \<and>
    fifo sid (snd (releaseRejectedClaim sid i (q_nextId db) ''rejected'' (snd (claimNextPrompt sid db)))) = fifo sid db \<and>
    fifo sid (snd (claimNextPrompt sid (snd (claimNextPrompt sid db)))) = fifo sid (snd (claimNextPrompt sid db)) \<and>
    fifo sid (snd (completeClaim sid i u (snd (claimNextPrompt sid db)))) = fifo sid (snd (claimNextPrompt sid db))"
  using prompts.claim_settle [OF assms(1,2)] prompts.claim_give_back [OF assms(1,2)] prompts.second_claim [OF assms(1,2)]
    prompts.settle_stale [OF ok_claim [OF assms(1)] prompts.first_claim [OF assms(1,2)] assms(3)]
  by blast

theorem delivery_cycle_witness:
  "fifo ''s'' (snd (completeClaim ''s'' 1 3 (snd (claimNextPrompt ''s'' two_prompts)))) = [(2, ''second'', None)]"
proof -
  have "fifo ''s'' two_prompts = [(1, ''first'', None), (2, ''second'', None)]" "q_nextId two_prompts = 3" by code_simp+
  with delivery_cycle [OF two_ok, of "''s''" 1 "''first''" "[(2, ''second'', None)]" 4] show ?thesis by simp
qed

text \<open>Only the holder of the first prompt can settle it: a completion or a recorded acceptance
  with its session, id and token succeeds, and any other is refused with a conflict (409) and
  changes nothing.\<close>

theorem stale_claim_conflicts:
  assumes "queue_ok db"
  shows "(fst (completeClaim sid i t db) = Inr () \<longleftrightarrow> holds i t (fifo sid db)) \<and>
    (fst (recordClaimAcceptance sid i t db) = Inr () \<longleftrightarrow> holds i t (fifo sid db)) \<and>
    (holds i t (fifo sid db) \<or>
      completeClaim sid i t db = (Inl (QueueConflict ''Dispatch claim changed'' 409), db) \<and>
      recordClaimAcceptance sid i t db = (Inl (QueueConflict ''Dispatch claim changed'' 409), db))"
  using holds_iff [OF assms, of i t sid]
  by (simp add: complete_run recordClaimAcceptance_def guarded_run)

theorem stale_claim_conflicts_witness:
  "completeClaim ''s'' 1 9 (run_calls sample_calls no_prompts) =
     (Inl (QueueConflict ''Dispatch claim changed'' 409), run_calls sample_calls no_prompts)"
proof -
  have "fifo ''s'' (run_calls sample_calls no_prompts) = [(1, ''first'', Some 3), (2, ''second'', None)]" by code_simp
  with stale_claim_conflicts [OF sample_ok, of "''s''" 1 9] show ?thesis by simp
qed

text \<open>A row after renumbering is a row before it, apart from its number and what retention blanks.\<close>

lemma reordered_row:
  "r' \<in> set (q_rows (reordered sid db)) \<Longrightarrow> \<exists>r \<in> set (q_rows db). qp_id r' = qp_id r \<and> qp_state r' = qp_state r \<and>
     qp_handledBy r' = qp_handledBy r \<and> qp_handledReason r' = qp_handledReason r \<and> qp_revision r' = qp_revision r"
proof -
  assume "r' \<in> set (q_rows (reordered sid db))"
  then obtain ps x where x: "x \<in> set (q_rows (prunePromptQueueHistory sid db))" "r' = number_of ps x"
    by (auto simp: reordered_def Let_def renumber_map)
  then obtain r where "r \<in> set (q_rows db)" "x = r \<or> x = r\<lparr>qp_content := [], qp_payload := None\<rparr>"
    by (auto simp: prunePromptQueueHistory_def Let_def blank_rows_def prune_rows_def split: if_splits)
  with x(2) show ?thesis by force
qed

lemma acknowledged_row:
  assumes ok: "queue_ok db" and ack: "acknowledgePrompt sid i rvn actor reason db = (Inr p, db')"
  shows "qp_id p = i \<and> qp_state p = Handled \<and> qp_handledBy p = Some actor \<and>
    qp_handledReason p = Some (trim reason) \<and> nat_string (qp_revision p) = rvn"
proof -
  let ?db = "prunePromptQueueHistory sid db"
  let ?f = "\<lambda>c x. x\<lparr>qp_state := Handled, qp_handledAt := Some c, qp_handledBy := Some actor, qp_handledReason := Some (trim reason)\<rparr>"
  let ?p = "\<lambda>x. pending_row sid i x \<and> nat_string (qp_revision x) = rvn"
  obtain r where r: "find_prompt sid i ?db = Some r" "nat_string (qp_revision r) = rvn"
      and res: "p = r \<and> qp_state r = Handled \<and> qp_handledBy r = Some actor \<and> qp_handledReason r = Some (trim reason) \<or>
        qp_state r = Pending \<and> (\<exists>c. row qp_id i (q_rows (reordered sid (update_rows ?p (?f c) ?db))) = Some p)"
    using ack by (auto simp: acknowledgePrompt_def transaction_run bnd_run split: if_splits option.splits sum.splits)
  have m: "r \<in> set (q_rows ?db)" "qp_id r = i" "qp_sessionId r = sid"
    using r(1) by (auto simp: find_prompt_def find_Some_iff)
  from res show ?thesis
  proof (elim disjE conjE exE)
    fix c assume pend: "qp_state r = Pending" and p: "row qp_id i (q_rows (reordered sid (update_rows ?p (?f c) ?db))) = Some p"
    from row_SomeD [OF p] have id: "qp_id p = i" "p \<in> set (q_rows (reordered sid (update_rows ?p (?f c) ?db)))" by simp_all
    from reordered_row [OF this(2)] obtain y where y: "y \<in> set (q_rows (update_rows ?p (?f c) ?db))" "qp_id p = qp_id y"
        "qp_state p = qp_state y" "qp_handledBy p = qp_handledBy y" "qp_handledReason p = qp_handledReason y" "qp_revision p = qp_revision y"
      by blast
    then obtain x where x: "x \<in> set (q_rows ?db)" "y = (if ?p x then ?f c x else x)" by auto
    then have "qp_id x = i" using y(2) id(1) by (auto split: if_splits)
    then have "x = r" using one_row [of ?db x r] ok_prune [OF ok, of sid] x(1) m by (simp add: queue_ok_ids)
    with x(2) pend m r(2) have "y = ?f c r" by (simp add: pending_row_def)
    with y r(2) id(1) show ?thesis by simp
  qed (use m r(2) in simp)
qed

lemma acknowledge_refused:
  assumes "queue_ok db" and "acknowledgePrompt sid i rvn actor reason db = (Inl e, db')"
  shows "db' = prunePromptQueueHistory sid db"
  using assms(2) by (auto simp: acknowledgePrompt_def transaction_run bnd_run split: if_splits option.splits sum.splits)

text \<open>An acknowledged prompt is handled, under the revision, actor and reason it was given, and
  leaves its session's queue unless it had left it before; nothing else leaves a queue. A refused
  acknowledgement changes no queue.\<close>

theorem acknowledge_removes:
  assumes "queue_ok db"
  shows "case acknowledgePrompt sid i rvn actor reason db of
      (Inr p, db') \<Rightarrow> qp_id p = i \<and> qp_state p = Handled \<and> qp_handledBy p = Some actor \<and>
        qp_handledReason p = Some (trim reason) \<and> nat_string (qp_revision p) = rvn \<and>
        fifo s db' = (if s = sid then filter (\<lambda>x. \<not> (fst x = i \<and> snd (snd x) = None)) (fifo sid db) else fifo s db)
    | (Inl e, db') \<Rightarrow> fifo s db' = fifo s db"
proof (cases "acknowledgePrompt sid i rvn actor reason db")
  case (Pair res db')
  show ?thesis
  proof (cases res)
    case (Inl e)
    with Pair acknowledge_refused [OF assms, of sid i rvn actor reason e db'] show ?thesis by simp
  next
    case (Inr p)
    with Pair acknowledged_row [OF assms, of sid i rvn actor reason p db']
      fifo_acknowledge [OF assms, of sid i rvn actor reason p db' s] show ?thesis by simp
  qed
qed

theorem acknowledge_removes_witness:
  "case acknowledgePrompt ''s'' 2 ''1'' ''op'' ''done by hand'' two_prompts of
      (Inr p, db') \<Rightarrow> qp_id p = 2 \<and> qp_state p = Handled \<and> qp_handledBy p = Some ''op'' \<and>
        qp_handledReason p = Some (trim ''done by hand'') \<and> nat_string (qp_revision p) = ''1'' \<and>
        fifo ''s'' db' = [(1, ''first'', None)]
    | (Inl e, db') \<Rightarrow> fifo ''s'' db' = fifo ''s'' two_prompts"
proof -
  have "fifo ''s'' two_prompts = [(1, ''first'', None), (2, ''second'', None)]" by code_simp
  with acknowledge_removes [OF two_ok, where sid = "''s''" and i = 2 and rvn = "''1''" and actor = "''op''"
      and reason = "''done by hand''" and s = "''s''"] show ?thesis
    by (auto split: prod.splits sum.splits)
qed

lemma count_by_ids: "distinct (map qp_id rows) \<Longrightarrow> (\<And>r. r \<in> set rows \<Longrightarrow> P r \<Longrightarrow> qp_id r \<in> set ids) \<Longrightarrow>
    length (filter P rows) \<le> length ids"
proof -
  assume d: "distinct (map qp_id rows)" and sub: "\<And>r. r \<in> set rows \<Longrightarrow> P r \<Longrightarrow> qp_id r \<in> set ids"
  have "distinct (map qp_id (filter P rows))" using d by (rule distinct_map_filter)
  then have "length (filter P rows) = card (set (map qp_id (filter P rows)))" by (metis distinct_card length_map)
  also have "\<dots> \<le> card (set ids)" by (rule card_mono) (use sub in auto)
  also have "\<dots> \<le> length ids" by (rule card_length)
  finally show ?thesis .
qed

text \<open>C38: Reading a session's history for retention keeps every queue; of the prompts of the session
  that have ended at most 1000 remain, none older than seven days, and at most 100 with content.\<close>

theorem retention_bounds:
  assumes "queue_ok db"
  shows "fifo s (prunePromptQueueHistory sid db) = fifo s db \<and>
    length (filter (terminal sid) (q_rows (prunePromptQueueHistory sid db))) \<le> 1000 \<and>
    length (filter (\<lambda>r. terminal sid r \<and> qp_content r \<noteq> []) (q_rows (prunePromptQueueHistory sid db))) \<le> 100 \<and>
    list_all (\<lambda>r. \<not> (terminal sid r \<and> terminal_time r + RETENTION_MS < q_clock db)) (q_rows (prunePromptQueueHistory sid db))"
proof (intro conjI)
  let ?rows = "q_rows (prunePromptQueueHistory sid db)"
  let ?kept = "prune_rows sid (q_clock db) (q_rows db)"
  have rows: "?rows = blank_rows sid ?kept" by (simp add: prunePromptQueueHistory_def Let_def)
  have d: "distinct (map qp_id ?rows)" using assms ids_prune(2) by (simp add: queue_ok_def)
  have origin: "\<exists>x \<in> set ?kept. qp_id r = qp_id x \<and> (terminal sid r \<longleftrightarrow> terminal sid x) \<and> terminal_time r = terminal_time x \<and>
      (qp_content r \<noteq> [] \<and> terminal sid r \<longrightarrow> qp_id r \<in> set (latest 100 sid ?kept))" if "r \<in> set ?rows" for r
  proof -
    from that obtain x where x: "x \<in> set ?kept" and r: "r = (if terminal sid x \<and> qp_content x \<noteq> [] \<and>
        qp_id x \<notin> set (latest 100 sid ?kept) then x\<lparr>qp_content := [], qp_payload := None\<rparr> else x)"
      unfolding rows by (auto simp: blank_rows_def)
    have "terminal_time r = terminal_time x" unfolding r by (simp add: terminal_time_def Let_def split: option.split)
    moreover have "terminal sid r \<longleftrightarrow> terminal sid x" "qp_id r = qp_id x" unfolding r by (simp_all add: terminal_def)
    moreover have "qp_content r \<noteq> [] \<and> terminal sid r \<longrightarrow> qp_id r \<in> set (latest 100 sid ?kept)"
      unfolding r by (simp add: terminal_def) blast
    ultimately show ?thesis using x by blast
  qed
  have kept: "x \<in> set ?kept \<Longrightarrow> terminal sid x \<Longrightarrow>
      qp_id x \<in> set (latest 1000 sid (q_rows db)) \<and> \<not> terminal_time x + RETENTION_MS < q_clock db" for x
    unfolding prune_rows_def by (simp only: set_filter mem_Collect_eq) blast
  have young: "qp_id r \<in> set (latest 1000 sid (q_rows db)) \<and> \<not> terminal_time r + RETENTION_MS < q_clock db"
    if "r \<in> set ?rows" "terminal sid r" for r
    using origin [OF that(1)] kept that(2) by metis
  show "fifo s (prunePromptQueueHistory sid db) = fifo s db" by simp
  have "length (filter (terminal sid) ?rows) \<le> length (latest 1000 sid (q_rows db))"
    by (rule count_by_ids [OF d]) (use young in blast)
  also have "\<dots> \<le> 1000" by (simp add: latest_def)
  finally show "length (filter (terminal sid) ?rows) \<le> 1000" .
  have "length (filter (\<lambda>r. terminal sid r \<and> qp_content r \<noteq> []) ?rows) \<le> length (latest 100 sid ?kept)"
    by (rule count_by_ids [OF d]) (use origin in blast)
  also have "\<dots> \<le> 100" by (simp add: latest_def)
  finally show "length (filter (\<lambda>r. terminal sid r \<and> qp_content r \<noteq> []) ?rows) \<le> 100" .
  show "list_all (\<lambda>r. \<not> (terminal sid r \<and> terminal_time r + RETENTION_MS < q_clock db)) ?rows"
    unfolding list_all_iff using young by blast
qed

theorem retention_bounds_witness:
  "length (filter (terminal ''s'') (q_rows (prunePromptQueueHistory ''s'' two_prompts))) \<le> 1000"
  by (rule retention_bounds [OF two_ok, THEN conjunct2, THEN conjunct1])

lemma fold_max_ge: "x \<in> set xs \<or> x \<le> a \<Longrightarrow> (x::nat) \<le> fold max xs a"
proof (induction xs arbitrary: a)
  case (Cons y ys)
  then have "x \<in> set ys \<or> x \<le> max y a" by (cases "x = y") (simp, metis max.coboundedI2 set_ConsD)
  from Cons.IH [OF this] show ?case by simp
qed simp

lemma retired_fifo:
  assumes ok: "queue_ok db"
  shows "fifo s (snd (retireForFreshHumanTrigger sid trigger snap db)) =
    (if s = sid \<and> find_cutoff ''prompts'' sid trigger db = None
     then map item_of (filter (\<lambda>r. \<not> (case snap of None \<Rightarrow> True
       | Some es \<Rightarrow> (qp_id r, nat_string (qp_revision r)) \<in> set es)) (queue_of sid db))
     else fifo s db)"
proof (cases "find_cutoff ''prompts'' sid trigger db")
  case (Some c)
  have "session_ok (queue_of sid db)" "ids_ok db" using ok by (simp_all add: queue_ok_ids)
  then have "fifo s (reordered sid db) = fifo s db" by (simp add: fifo_def queue_reordered)
  with Some show ?thesis by (simp add: retireForFreshHumanTrigger_def retireSessionWork_def transaction_run bnd_run)
next
  case None
  let ?in = "\<lambda>r. case snap of None \<Rightarrow> True | Some es \<Rightarrow> (qp_id r, nat_string (qp_revision r)) \<in> set es"
  let ?top = "fold max (map qp_rowid (q_rows db)) 0"
  let ?p = "\<lambda>r. live sid r \<and> qp_rowid r \<le> ?top \<and> ?in r"
  let ?f = "\<lambda>r. r\<lparr>qp_state := Superseded, qp_revision := qp_revision r + 1, qp_handledAt := Some (q_clock db),
       qp_handledBy := Some ''fresh-human-trigger'', qp_handledReason := Some (retire_reason trigger)\<rparr>"
  obtain cs where run: "snd (retireForFreshHumanTrigger sid trigger snap db) =
      reordered sid (update_rows ?p ?f (db\<lparr>q_cutoffs := cs\<rparr>))"
    using None by (auto simp: retireForFreshHumanTrigger_def retireSessionWork_def transaction_run bnd_run)
  let ?db = "db\<lparr>q_cutoffs := cs\<rparr>"
  have okd: "queue_ok ?db" by (rule ok_other [OF ok]) simp_all
  have same: "queue_of s ?db = queue_of s db" for s by (simp add: queue_of_def)
  have top: "qp_rowid r \<le> ?top" if "r \<in> set (q_rows db)" for r
    using fold_max_ge [of "qp_rowid r" "map qp_rowid (q_rows db)" 0] that by simp
  note eff = ok_drop(2,3) [OF okd, of ?p sid ?f]
  have "filter (\<lambda>r. \<not> ?p r) (queue_of sid db) = filter (\<lambda>r. \<not> ?in r) (queue_of sid db)"
    by (rule filter_cong) (use top in \<open>auto simp: queue_of_rows\<close>)
  then show ?thesis
    unfolding run fifo_def using eff None by (simp add: same live_def)
qed

text \<open>C37: A fresh human trigger retires the prompts of its session that are live when it first
  arrives, those of the snapshot when there is one; when the same trigger arrives again it retires
  nothing, whatever was queued in between. Other sessions keep their queues.\<close>

theorem trigger_retires_once:
  assumes "queue_ok db"
  shows "find_cutoff ''prompts'' sid trigger (snd (retireForFreshHumanTrigger sid trigger snap db)) \<noteq> None \<and>
    (s \<noteq> sid \<or> find_cutoff ''prompts'' sid trigger db \<noteq> None \<longrightarrow>
      fifo s (snd (retireForFreshHumanTrigger sid trigger snap db)) = fifo s db) \<and>
    (find_cutoff ''prompts'' sid trigger db = None \<longrightarrow>
      fifo sid (snd (retireForFreshHumanTrigger sid trigger snap db)) =
        map item_of (filter (\<lambda>r. \<not> (case snap of None \<Rightarrow> True
          | Some es \<Rightarrow> (qp_id r, nat_string (qp_revision r)) \<in> set es)) (queue_of sid db)))"
proof -
  have "find_cutoff ''prompts'' sid trigger (snd (retireForFreshHumanTrigger sid trigger snap db)) \<noteq> None"
  proof (cases "find_cutoff ''prompts'' sid trigger db")
    case None
    obtain p f n m where "snd (retireForFreshHumanTrigger sid trigger snap db) =
        reordered sid (update_rows p f (db\<lparr>q_cutoffs := q_cutoffs db @ [\<lparr>cu_scope = ''prompts'', cu_sessionId = sid,
            cu_triggerId = trigger, cu_generation = n, cu_rowCutoff = m, cu_createdAt = q_clock db\<rparr>]\<rparr>))"
      using None by (auto simp: retireForFreshHumanTrigger_def retireSessionWork_def transaction_run bnd_run)
    then obtain c where "q_cutoffs (snd (retireForFreshHumanTrigger sid trigger snap db)) = q_cutoffs db @ [c]"
        "cu_scope c = ''prompts'' \<and> cu_sessionId c = sid \<and> cu_triggerId c = trigger"
      by (simp add: reordered_def Let_def update_rows_def)
    then show ?thesis unfolding find_cutoff_def by (auto simp: find_None_iff intro!: exI [of _ c])
  next
    case (Some c)
    then have "snd (retireForFreshHumanTrigger sid trigger snap db) = reordered sid db"
      by (simp add: retireForFreshHumanTrigger_def retireSessionWork_def transaction_run bnd_run)
    with Some show ?thesis by (simp add: find_cutoff_def reordered_def Let_def)
  qed
  with retired_fifo [OF assms] show ?thesis by simp
qed

theorem trigger_retires_once_witness:
  "fifo ''s'' (snd (retireForFreshHumanTrigger ''s'' ''t1'' (Some [(1, ''1'')]) two_prompts)) = [(2, ''second'', None)] \<and>
   fifo ''s'' (snd (retireForFreshHumanTrigger ''s'' ''t1'' None
     (snd (retireForFreshHumanTrigger ''s'' ''t1'' (Some [(1, ''1'')]) two_prompts)))) = [(2, ''second'', None)]"
proof -
  let ?db = "snd (retireForFreshHumanTrigger ''s'' ''t1'' (Some [(1, ''1'')]) two_prompts)"
  have "find_cutoff ''prompts'' ''s'' ''t1'' two_prompts = None"
    "map item_of (filter (\<lambda>r. \<not> (qp_id r, nat_string (qp_revision r)) \<in> set [(1, ''1'')]) (queue_of ''s'' two_prompts)) = [(2, ''second'', None)]"
    by code_simp+
  with trigger_retires_once [OF two_ok, where sid = "''s''" and trigger = "''t1''" and snap = "Some [(1, ''1'')]" and s = "''s''"]
  have 1: "fifo ''s'' ?db = [(2, ''second'', None)]" "find_cutoff ''prompts'' ''s'' ''t1'' ?db \<noteq> None" by simp_all
  from ok_retire [OF two_ok] have "queue_ok ?db" .
  from trigger_retires_once [OF this, where sid = "''s''" and trigger = "''t1''" and snap = None and s = "''s''"] 1 show ?thesis
    by simp
qed

end
