(* ===== verification/Prompt_Readiness.thy ===== *)
theory Prompt_Readiness
  imports Js_Values
begin

text \<open>
  When an agent can take a prompt (\<open>src/server/prompt-readiness.ts\<close>,
  \<open>src/server/session-readiness.ts\<close>). The adapter of a session is an argument: what it answers
  to a request. A wait polls it; the answers and the time each of them takes are arguments.
\<close>

datatype readiness_state = Ready | Starting | Busy | Unreachable

record readiness =
  rd_state :: readiness_state
  rd_reason :: string
  rd_retryAfterMs :: nat

fun readiness_text :: "readiness_state \<Rightarrow> string" where
  "readiness_text Ready = ''ready''"
| "readiness_text Starting = ''starting''"
| "readiness_text Busy = ''busy''"
| "readiness_text Unreachable = ''unreachable''"

definition readyPromptReadiness :: "string \<Rightarrow> readiness" where
  "readyPromptReadiness reason = \<lparr>rd_state = Ready, rd_reason = reason, rd_retryAfterMs = 250\<rparr>"

definition startingPromptReadiness :: "string \<Rightarrow> readiness" where
  "startingPromptReadiness reason = \<lparr>rd_state = Starting, rd_reason = reason, rd_retryAfterMs = 1000\<rparr>"

definition busyPromptReadiness :: "string \<Rightarrow> readiness" where
  "busyPromptReadiness reason = \<lparr>rd_state = Busy, rd_reason = reason, rd_retryAfterMs = 1000\<rparr>"

definition unreachablePromptReadiness :: "string \<Rightarrow> readiness" where
  "unreachablePromptReadiness reason = \<lparr>rd_state = Unreachable, rd_reason = reason, rd_retryAfterMs = 5000\<rparr>"

text \<open>
  What an adapter answers: to \<open>getPromptReadiness\<close> where it offers it, and to
  \<open>fetchStatus\<close>; \<open>Inl\<close> is a thrown error.
\<close>

record adapter_answers =
  aa_readiness :: "(string + readiness) option"
  aa_status :: "string + string"

text \<open>The status of a session that is on record, and its adapter where it has one.\<close>

record session_view =
  sv_status :: string
  sv_adapter :: "adapter_answers option"

definition getSessionPromptReadiness :: "session_view option \<Rightarrow> readiness" where
  "getSessionPromptReadiness view = (case view of
     None \<Rightarrow> unreachablePromptReadiness ''session-missing''
   | Some v \<Rightarrow>
       if sv_status v \<noteq> ''running'' then unreachablePromptReadiness ''session-not-running''
       else (case sv_adapter v of
         None \<Rightarrow> unreachablePromptReadiness ''adapter-missing''
       | Some a \<Rightarrow> (case aa_readiness a of
           Some (Inr r) \<Rightarrow> r
         | Some (Inl e) \<Rightarrow> unreachablePromptReadiness (''prompt-readiness-error: '' @ e)
         | None \<Rightarrow> (case aa_status a of
             Inl e \<Rightarrow> unreachablePromptReadiness (''runtime-status-error: '' @ e)
           | Inr s \<Rightarrow>
               if s = ''stable'' then readyPromptReadiness ''runtime-status-stable''
               else if s = ''running'' then busyPromptReadiness ''runtime-status-running''
               else unreachablePromptReadiness ''runtime-status-unavailable''))))"

text \<open>
  \<open>waitForSessionPromptReadiness\<close>: the \<open>k\<close>-th poll sees \<open>fst (probe k)\<close> and
  takes \<open>snd (probe k)\<close> ms; the wait between two polls is at least a ms, so the loop ends.
\<close>

definition unready_reason :: "string \<Rightarrow> readiness option \<Rightarrow> string" where
  "unready_reason sid last' = ''Timed out waiting for session '' @ sid @ '' to become prompt-ready.'' @
     (case last' of None \<Rightarrow> [] | Some r \<Rightarrow>
        '' last readiness: '' @ readiness_text (rd_state r) @ '' ('' @ rd_reason r @ '')'')"

definition pause :: "nat \<Rightarrow> readiness \<Rightarrow> nat" where
  "pause interval r = max (max 1 interval) (rd_retryAfterMs r)"

function poll_ready ::
  "(nat \<Rightarrow> readiness \<times> nat) \<Rightarrow> string \<Rightarrow> nat \<Rightarrow> nat \<Rightarrow> nat \<Rightarrow> nat \<Rightarrow> nat \<Rightarrow> nat \<Rightarrow> readiness option \<Rightarrow> string + unit" where
  "poll_ready probe sid required interval deadline k clk stable' last' =
     (if clk \<ge> deadline then Inl (unready_reason sid last')
      else let (r, ms) = probe k; n = (if rd_state r = Ready then Suc stable' else 0) in
           if rd_state r = Ready \<and> n \<ge> required then Inr ()
           else poll_ready probe sid required interval deadline (Suc k) (clk + ms + pause interval r) n (Some r))"
  by pat_completeness auto
termination
  by (relation "measure (\<lambda>(probe, sid, required, interval, deadline, k, clk, stable', last'). deadline - clk)")
    (auto simp: pause_def)

declare poll_ready.simps [simp del]

definition or_default :: "nat option \<Rightarrow> nat \<Rightarrow> nat" where
  "or_default x d = (case x of Some n \<Rightarrow> if n > 0 then n else d | None \<Rightarrow> d)"

definition waitForSessionPromptReadiness ::
  "(nat \<Rightarrow> readiness \<times> nat) \<Rightarrow> string \<Rightarrow> nat option \<Rightarrow> nat option \<Rightarrow> nat option \<Rightarrow> nat \<Rightarrow> string + unit" where
  "waitForSessionPromptReadiness probe sid timeoutMs pollIntervalMs requiredStablePolls clk =
     poll_ready probe sid (or_default requiredStablePolls 3) (or_default pollIntervalMs 250)
       (clk + or_default timeoutMs 60000) 0 clk 0 None"

section \<open>What a wait has seen\<close>

text \<open>The polls made before the deadline, were the wait not to return early.\<close>

function polls ::
  "(nat \<Rightarrow> readiness \<times> nat) \<Rightarrow> nat \<Rightarrow> nat \<Rightarrow> nat \<Rightarrow> nat \<Rightarrow> readiness_state list" where
  "polls probe interval deadline k clk =
     (if clk \<ge> deadline then []
      else let (r, ms) = probe k in
           rd_state r # polls probe interval deadline (Suc k) (clk + ms + pause interval r))"
  by pat_completeness auto
termination
  by (relation "measure (\<lambda>(probe, interval, deadline, k, clk). deadline - clk)") (auto simp: pause_def)

declare polls.simps [simp del]

text \<open>A run of \<open>n\<close> ready polls.\<close>

definition ready_run :: "nat \<Rightarrow> readiness_state list \<Rightarrow> bool" where
  "ready_run n ss = list_ex (\<lambda>i. take n (drop i ss) = replicate n Ready) [0..<Suc (length ss)]"

lemma ready_run_iff: "ready_run n ss \<longleftrightarrow> (\<exists>us vs. ss = us @ replicate n Ready @ vs)"
proof
  assume "ready_run n ss"
  then obtain i where "take n (drop i ss) = replicate n Ready" by (auto simp: ready_run_def list_ex_iff)
  then have "ss = take i ss @ replicate n Ready @ drop n (drop i ss)"
    by (metis append_take_drop_id)
  then show "\<exists>us vs. ss = us @ replicate n Ready @ vs" by blast
next
  assume "\<exists>us vs. ss = us @ replicate n Ready @ vs"
  then obtain us vs where "ss = us @ replicate n Ready @ vs" by blast
  then have "take n (drop (length us) ss) = replicate n Ready" "length us < Suc (length ss)" by simp_all
  then show "ready_run n ss" unfolding ready_run_def list_ex_iff by (metis atLeastLessThan_iff set_upt zero_le)
qed

lemma ready_run_extend: "n > 0 \<Longrightarrow> s \<noteq> Ready \<Longrightarrow> m < n \<Longrightarrow> ready_run n (replicate m Ready @ s # ss) \<longleftrightarrow> ready_run n ss"
proof -
  assume n: "n > 0" "s \<noteq> Ready" "m < n"
  show ?thesis
  proof
    assume "ready_run n ss"
    then show "ready_run n (replicate m Ready @ s # ss)"
      unfolding ready_run_iff by (metis append_Cons append_assoc)
  next
    assume "ready_run n (replicate m Ready @ s # ss)"
    then obtain us vs where e: "replicate m Ready @ s # ss = us @ replicate n Ready @ vs" unfolding ready_run_iff by blast
    have "length us > m"
    proof (rule ccontr)
      assume "\<not> length us > m"
      then have "length us \<le> m" "m - length us < n" using n by linarith+
      then have "(us @ replicate n Ready @ vs) ! m = Ready" by (simp add: nth_append)
      moreover have "(replicate m Ready @ s # ss) ! m = s" by (simp add: nth_append)
      ultimately show False using e n by simp
    qed
    then have "drop (Suc m) (replicate m Ready @ s # ss) = drop (Suc m) us @ replicate n Ready @ vs"
      unfolding e by simp
    moreover have "drop (Suc m) (replicate m Ready @ s # ss) = ss" by simp
    ultimately show "ready_run n ss" unfolding ready_run_iff by metis
  qed
qed

lemma poll_ready_iff:
  assumes "required > 0" "stable' < required"
  shows "poll_ready probe sid required interval deadline k clk stable' last' = Inr () \<longleftrightarrow>
    ready_run required (replicate stable' Ready @ polls probe interval deadline k clk)"
  using assms
proof (induction probe sid required interval deadline k clk stable' last' rule: poll_ready.induct)
  case (1 probe sid required interval deadline k clk stable' last')
  obtain r ms where p: "probe k = (r, ms)" by (cases "probe k")
  let ?ss = "polls probe interval deadline (Suc k) (clk + ms + pause interval r)"
  show ?case
  proof (cases "clk \<ge> deadline")
    case True
    have "\<not> ready_run required (replicate stable' Ready)"
    proof
      assume "ready_run required (replicate stable' Ready)"
      then obtain us vs where "replicate stable' Ready = us @ replicate required Ready @ vs" unfolding ready_run_iff by blast
      then have "stable' = length us + (required + length vs)" by (metis length_append length_replicate)
      with "1.prems" show False by simp
    qed
    with True show ?thesis by (simp add: poll_ready.simps [of _ _ _ _ deadline] polls.simps [of _ _ deadline])
  next
    case False
    then have ps: "polls probe interval deadline k clk = rd_state r # ?ss"
      by (subst polls.simps) (simp add: p)
    show ?thesis
    proof (cases "rd_state r = Ready")
      case True
      then have rep: "replicate stable' Ready @ polls probe interval deadline k clk = replicate (Suc stable') Ready @ ?ss"
        unfolding ps by (simp add: replicate_append_same)
      show ?thesis
      proof (cases "Suc stable' \<ge> required")
        case True
        then have "Suc stable' = required" using "1.prems" by simp
        then have "ready_run required (replicate (Suc stable') Ready @ ?ss)" unfolding ready_run_iff by (metis append_Nil)
        moreover have "poll_ready probe sid required interval deadline k clk stable' last' = Inr ()"
          by (subst poll_ready.simps) (use False True \<open>rd_state r = Ready\<close> p in simp)
        ultimately show ?thesis unfolding rep by simp
      next
        case few: False
        have "poll_ready probe sid required interval deadline k clk stable' last' =
            poll_ready probe sid required interval deadline (Suc k) (clk + ms + pause interval r) (Suc stable') (Some r)"
          by (subst poll_ready.simps) (use False True few p in simp)
        with "1.IH" [OF False p [symmetric] refl refl] few True "1.prems" show ?thesis unfolding rep by simp
      qed
    next
      case other: False
      have "poll_ready probe sid required interval deadline k clk stable' last' =
          poll_ready probe sid required interval deadline (Suc k) (clk + ms + pause interval r) 0 (Some r)"
        by (subst poll_ready.simps) (use False other p in simp)
      with "1.IH" [OF False p [symmetric] refl refl] other "1.prems" show ?thesis
        unfolding ps by (simp add: ready_run_extend)
    qed
  qed
qed

end
