(* ===== verification/Session_Dispatches.thy ===== *)
theory Session_Dispatches
  imports Prompt_Queue "HOL-Library.Char_ord" "HOL-Library.List_Lexorder" "HOL-Library.Option_ord"
begin

text \<open>
  The database of supervised dispatches (\<open>src/session-dispatch/session-dispatch-store.ts\<close>): a
  session hands work to a worker session and is called back with its result. One table holds the
  dispatches, one the wake-up of each session that has callbacks to review, one the cutoffs of fresh
  human triggers (\<open>src/storage/session-work-cutoff.ts\<close>). A table is the list of its rows in the
  order of their rowids; an identifier is the next number of a counter, a time a number of ms. The
  digest of \<open>node:crypto\<close> is a function carried by the database.
\<close>

section \<open>Tables\<close>

datatype dispatch_state = Creating | Working | CallbackPending | CallbackDelivered | Acknowledged
  | DispatchClosed | DispatchFailed | DispatchSuperseded

fun dispatch_state_text :: "dispatch_state \<Rightarrow> string" where
  "dispatch_state_text Creating = ''creating''"
| "dispatch_state_text Working = ''running''"
| "dispatch_state_text CallbackPending = ''callback_pending''"
| "dispatch_state_text CallbackDelivered = ''callback_delivered''"
| "dispatch_state_text Acknowledged = ''acknowledged''"
| "dispatch_state_text DispatchClosed = ''closed''"
| "dispatch_state_text DispatchFailed = ''failed''"
| "dispatch_state_text DispatchSuperseded = ''superseded''"

datatype terminal_status = TermCompleted | TermFailed | TermCancelled | TermStopped

fun terminal_status_text :: "terminal_status \<Rightarrow> string" where
  "terminal_status_text TermCompleted = ''completed''"
| "terminal_status_text TermFailed = ''failed''"
| "terminal_status_text TermCancelled = ''cancelled''"
| "terminal_status_text TermStopped = ''stopped''"

datatype wake_state = WakePending | WakeClaimed | WakeSubmitted | WakeBlocked | WakeResolved

record session_dispatch =
  sd_rowid :: nat
  sd_dispatchId :: uuid
  sd_workerSessionId :: string
  sd_callbackSessionId :: "string option"
  sd_ownerNpub :: "string option"
  sd_state :: dispatch_state
  sd_prompt :: string
  sd_promptQueuedAt :: nat
  sd_reportingContext :: obj
  sd_terminalStatus :: "terminal_status option"
  sd_terminalMessage :: "string option"
  sd_terminalMessageCreatedAt :: "string option"
  sd_terminalFingerprint :: "string option"
  sd_callbackPrompt :: "string option"
  sd_discoveryStartedAt :: "nat option"
  sd_discoveryNextAttemptAt :: "nat option"
  sd_discoveryAttemptCount :: nat
  sd_discoveryLastError :: "string option"
  sd_callbackAttemptCount :: nat
  sd_callbackNextAttemptAt :: "nat option"
  sd_callbackExpiresAt :: "nat option"
  sd_callbackQueuedAt :: "nat option"
  sd_callbackAcknowledgedAt :: "nat option"
  sd_closedAt :: "nat option"
  sd_lastError :: "string option"
  sd_createdAt :: nat
  sd_updatedAt :: nat

record wake_row =
  wk_callbackSessionId :: string
  wk_inboxFingerprint :: string
  wk_state :: wake_state
  wk_attemptCount :: nat
  wk_claimedAt :: "nat option"
  wk_submittedAt :: "nat option"
  wk_busyObservedAt :: "nat option"
  wk_leaseExpiresAt :: "nat option"
  wk_nextRetryAt :: "nat option"
  wk_lastError :: "string option"
  wk_createdAt :: nat
  wk_updatedAt :: nat

record dispatch_db =
  sd_rows :: "session_dispatch list"
  sd_wakes :: "wake_row list"
  sd_cutoffs :: "cutoff_row list"
  sd_nextId :: nat
  sd_clock :: nat
  sd_sha :: "string \<Rightarrow> string"

text \<open>What the operations throw is the message of the error.\<close>

type_synonym 'a dispatch_op = "(string, 'a, dispatch_db) sx"

definition dispatch_id_text :: "uuid \<Rightarrow> string" where
  "dispatch_id_text i = ''dispatch_'' @ uuid_text i"

definition update_dispatches ::
  "(session_dispatch \<Rightarrow> bool) \<Rightarrow> (session_dispatch \<Rightarrow> session_dispatch) \<Rightarrow> dispatch_db \<Rightarrow> dispatch_db" where
  "update_dispatches p f db = db\<lparr>sd_rows := map (\<lambda>r. if p r then f r else r) (sd_rows db)\<rparr>"

section \<open>Dispatches\<close>

text \<open>The record handed back is the one that was given; the row holds its context as stored.\<close>

definition createDispatch :: "session_dispatch \<Rightarrow> session_dispatch dispatch_op" where
  "createDispatch inp = (\<lambda>db.
     let r = inp\<lparr>sd_rowid := next_rowid sd_rowid (sd_rows db), sd_dispatchId := sd_nextId db,
                 sd_createdAt := sd_clock db, sd_updatedAt := sd_clock db\<rparr>
     in (Inr r, db\<lparr>sd_rows := sd_rows db @ [r\<lparr>sd_reportingContext := stored (sd_reportingContext r)\<rparr>],
                   sd_nextId := Suc (sd_nextId db)\<rparr>))"

definition getDispatch :: "uuid \<Rightarrow> dispatch_db \<Rightarrow> session_dispatch option" where
  "getDispatch i db = row sd_dispatchId i (sd_rows db)"

text \<open>The columns an update writes; the others of the patched record are not stored.\<close>

definition written :: "session_dispatch \<Rightarrow> session_dispatch \<Rightarrow> session_dispatch" where
  "written n r = r\<lparr>sd_state := sd_state n, sd_terminalStatus := sd_terminalStatus n,
     sd_terminalMessage := sd_terminalMessage n, sd_terminalMessageCreatedAt := sd_terminalMessageCreatedAt n,
     sd_terminalFingerprint := sd_terminalFingerprint n, sd_callbackPrompt := sd_callbackPrompt n,
     sd_callbackAttemptCount := sd_callbackAttemptCount n, sd_discoveryStartedAt := sd_discoveryStartedAt n,
     sd_discoveryNextAttemptAt := sd_discoveryNextAttemptAt n,
     sd_discoveryAttemptCount := sd_discoveryAttemptCount n, sd_discoveryLastError := sd_discoveryLastError n,
     sd_callbackNextAttemptAt := sd_callbackNextAttemptAt n, sd_callbackExpiresAt := sd_callbackExpiresAt n,
     sd_callbackQueuedAt := sd_callbackQueuedAt n, sd_callbackAcknowledgedAt := sd_callbackAcknowledgedAt n,
     sd_closedAt := sd_closedAt n, sd_lastError := sd_lastError n, sd_updatedAt := sd_updatedAt n\<rparr>"

definition updateDispatch ::
  "uuid \<Rightarrow> (session_dispatch \<Rightarrow> session_dispatch) \<Rightarrow> session_dispatch dispatch_op" where
  "updateDispatch i patch = (\<lambda>db. case getDispatch i db of
     None \<Rightarrow> (Inl (''Dispatch not found: '' @ dispatch_id_text i), db)
   | Some current \<Rightarrow>
       let n = (patch current)\<lparr>sd_dispatchId := i, sd_updatedAt := sd_clock db\<rparr>
       in (Inr n, update_dispatches (\<lambda>r. sd_dispatchId r = i) (written n) db))"

text \<open>\<open>ORDER BY created_at DESC\<close>, with the filters that are given.\<close>

definition listDispatches ::
  "string option \<Rightarrow> dispatch_state option \<Rightarrow> string option option \<Rightarrow> dispatch_db \<Rightarrow> session_dispatch list" where
  "listDispatches callback state owner db = sort_key (\<lambda>r. - int (sd_createdAt r))
     (filter (\<lambda>r. (case nonempty callback of None \<Rightarrow> True | Some s \<Rightarrow> sd_callbackSessionId r = Some s) \<and>
                   (case state of None \<Rightarrow> True | Some st \<Rightarrow> sd_state r = st) \<and>
                   (case owner of None \<Rightarrow> True | Some ow \<Rightarrow> sd_ownerNpub r = ow)) (sd_rows db))"

definition unresolved :: "string \<Rightarrow> session_dispatch \<Rightarrow> bool" where
  "unresolved sid r = (sd_callbackSessionId r = Some sid \<and> sd_terminalFingerprint r \<noteq> None \<and>
     (sd_state r = CallbackPending \<or> sd_state r = CallbackDelivered))"

text \<open>\<open>ORDER BY terminal_message_created_at, created_at, dispatch_id\<close>; NULL comes first.\<close>

definition listUnresolvedCallbacks :: "string \<Rightarrow> dispatch_db \<Rightarrow> session_dispatch list" where
  "listUnresolvedCallbacks sid db =
     sort_key sd_terminalMessageCreatedAt (sort_key sd_createdAt (sort_key (\<lambda>r. dispatch_id_text (sd_dispatchId r))
       (filter (unresolved sid) (sd_rows db))))"

definition hasRecoveryWork :: "string \<Rightarrow> dispatch_db \<Rightarrow> bool" where
  "hasRecoveryWork sid db = (sid \<noteq> [] \<and> list_ex (\<lambda>r.
     (sd_workerSessionId r = sid \<and> sd_state r \<in> {Creating, Working}) \<or>
     (sd_callbackSessionId r = Some sid \<and>
        sd_state r \<in> {Creating, Working, CallbackPending, CallbackDelivered, Acknowledged})) (sd_rows db))"

definition migrateLegacyDeliveredCallbacks :: "nat dispatch_op" where
  "migrateLegacyDeliveredCallbacks = (\<lambda>db.
     let p = (\<lambda>r. sd_state r = CallbackDelivered \<and> sd_terminalFingerprint r \<noteq> None \<and>
                  sd_callbackAcknowledgedAt r = None)
     in (Inr (length (filter p (sd_rows db))),
         update_dispatches p (\<lambda>r. r\<lparr>sd_state := CallbackPending, sd_callbackNextAttemptAt := None,
           sd_callbackExpiresAt := None, sd_lastError := None, sd_updatedAt := sd_clock db\<rparr>) db))"

section \<open>Wake-ups\<close>

text \<open>The fingerprint of an inbox: a digest of the callbacks in it, in the order of their texts.\<close>

definition inbox_material :: "session_dispatch list \<Rightarrow> string" where
  "inbox_material rs = join [CHR 0x0A] (sort (map (\<lambda>r.
     dispatch_id_text (sd_dispatchId r) @ '':'' @
       (case sd_terminalFingerprint r of Some f \<Rightarrow> f | None \<Rightarrow> ''null'')) rs))"

definition getInboxFingerprint :: "string \<Rightarrow> dispatch_db \<Rightarrow> string option" where
  "getInboxFingerprint sid db = (case listUnresolvedCallbacks sid db of
     [] \<Rightarrow> None | rs \<Rightarrow> Some (sd_sha db (inbox_material rs)))"

definition getWake :: "string \<Rightarrow> dispatch_db \<Rightarrow> wake_row option" where
  "getWake sid db = row wk_callbackSessionId sid (sd_wakes db)"

text \<open>The upsert; the row keeps the time it was created at.\<close>

definition put_wake :: "wake_row \<Rightarrow> wake_row list \<Rightarrow> wake_row list" where
  "put_wake k ws =
     (if row wk_callbackSessionId (wk_callbackSessionId k) ws = None then ws @ [k]
      else map (\<lambda>w. if wk_callbackSessionId w = wk_callbackSessionId k then k\<lparr>wk_createdAt := wk_createdAt w\<rparr> else w) ws)"

text \<open>\<open>saveWake\<close> with the times it is given, where it is given them.\<close>

definition saveWake :: "nat option \<Rightarrow> nat option \<Rightarrow> wake_row \<Rightarrow> wake_row dispatch_op" where
  "saveWake created updated inp = (\<lambda>db.
     let at' = (case updated of Some t \<Rightarrow> t | None \<Rightarrow> sd_clock db);
         k = inp\<lparr>wk_createdAt := (case created of Some t \<Rightarrow> t
                   | None \<Rightarrow> (case getWake (wk_callbackSessionId inp) db of Some w \<Rightarrow> wk_createdAt w | None \<Rightarrow> at')),
                 wk_updatedAt := at'\<rparr>
     in (Inr k, db\<lparr>sd_wakes := put_wake k (sd_wakes db)\<rparr>))"

definition new_wake :: "string \<Rightarrow> string \<Rightarrow> wake_row" where
  "new_wake sid fp = \<lparr>wk_callbackSessionId = sid, wk_inboxFingerprint = fp, wk_state = WakePending,
     wk_attemptCount = 0, wk_claimedAt = None, wk_submittedAt = None, wk_busyObservedAt = None,
     wk_leaseExpiresAt = None, wk_nextRetryAt = None, wk_lastError = None, wk_createdAt = 0, wk_updatedAt = 0\<rparr>"

definition set_wake_claimed :: "nat \<Rightarrow> nat \<Rightarrow> wake_row \<Rightarrow> wake_row" where
  "set_wake_claimed clk lease w = w\<lparr>wk_state := WakeClaimed, wk_attemptCount := wk_attemptCount w + 1,
     wk_claimedAt := Some clk, wk_submittedAt := None, wk_busyObservedAt := None,
     wk_leaseExpiresAt := Some lease, wk_nextRetryAt := None, wk_lastError := None, wk_updatedAt := clk\<rparr>"

definition claimWake :: "string \<Rightarrow> string \<Rightarrow> nat \<Rightarrow> nat \<Rightarrow> wake_row option dispatch_op" where
  "claimWake sid fp clk lease =
     bnd (reads (getWake sid)) (\<lambda>current.
     bnd (if (case current of None \<Rightarrow> True | Some w \<Rightarrow> wk_inboxFingerprint w \<noteq> fp)
          then bnd (saveWake None (Some clk) (new_wake sid fp)) (\<lambda>_. ret ()) else ret ()) (\<lambda>_.
     bnd (reads (getWake sid)) (\<lambda>ready. case ready of
       None \<Rightarrow> throw ''null is not an object''
     | Some w \<Rightarrow>
         if wk_state w \<noteq> WakePending \<or> (case wk_nextRetryAt w of Some t \<Rightarrow> t > clk | None \<Rightarrow> False) then ret None
         else bnd (modify (\<lambda>db. db\<lparr>sd_wakes := map (\<lambda>k.
                if wk_callbackSessionId k = sid \<and> wk_inboxFingerprint k = fp \<and> wk_state k = WakePending
                then set_wake_claimed clk lease k else k) (sd_wakes db)\<rparr>)) (\<lambda>_. reads (getWake sid)))))"

section \<open>Replaced sessions and fresh triggers\<close>

definition rebound_wake :: "string \<Rightarrow> nat \<Rightarrow> wake_row \<Rightarrow> wake_row" where
  "rebound_wake target clk w = (new_wake target (wk_inboxFingerprint w))
     \<lparr>wk_createdAt := wk_createdAt w, wk_updatedAt := clk\<rparr>"

definition rebind_wakes :: "string \<Rightarrow> string \<Rightarrow> nat \<Rightarrow> wake_row list \<Rightarrow> wake_row list" where
  "rebind_wakes source target clk ws = (case row wk_callbackSessionId source ws of
     None \<Rightarrow> ws
   | Some w \<Rightarrow>
       let rest = filter (\<lambda>k. wk_callbackSessionId k \<noteq> source) ws
       in if row wk_callbackSessionId target rest = None then rest @ [rebound_wake target clk w] else rest)"

definition rebindDispatches :: "string \<Rightarrow> string \<Rightarrow> dispatch_db \<Rightarrow> dispatch_db" where
  "rebindDispatches source target db =
     (if source = [] \<or> target = [] \<or> source = target then db
      else (update_dispatches (\<lambda>r. sd_callbackSessionId r = Some source)
              (\<lambda>r. r\<lparr>sd_callbackSessionId := Some target, sd_updatedAt := sd_clock db\<rparr>)
           (update_dispatches (\<lambda>r. sd_workerSessionId r = source)
              (\<lambda>r. r\<lparr>sd_workerSessionId := target, sd_updatedAt := sd_clock db\<rparr>) db))
           \<lparr>sd_wakes := rebind_wakes source target (sd_clock db) (sd_wakes db)\<rparr>)"

definition generation :: "string \<Rightarrow> dispatch_db \<Rightarrow> nat" where
  "generation sid db = fold max (map cu_generation
     (filter (\<lambda>c. cu_scope c = ''callbacks'' \<and> cu_sessionId c = sid) (sd_cutoffs db))) 0"

record notification_cutoff =
  nc_callbacks :: "(uuid \<times> string option) list"
  nc_wakeFingerprint :: "string option"
  nc_wakeAttemptCount :: "nat option"

definition captureNotificationCutoff :: "string \<Rightarrow> dispatch_db \<Rightarrow> notification_cutoff" where
  "captureNotificationCutoff sid db =
     \<lparr>nc_callbacks = map (\<lambda>r. (sd_dispatchId r, sd_terminalFingerprint r)) (listUnresolvedCallbacks sid db),
      nc_wakeFingerprint = map_option wk_inboxFingerprint (getWake sid db),
      nc_wakeAttemptCount = map_option wk_attemptCount (getWake sid db)\<rparr>"

text \<open>A callback and a wake-up are retired when they are of the snapshot, or there is none.\<close>

definition in_cutoff :: "notification_cutoff option \<Rightarrow> session_dispatch \<Rightarrow> bool" where
  "in_cutoff snap r = (case snap of None \<Rightarrow> True
     | Some c \<Rightarrow> (sd_dispatchId r, sd_terminalFingerprint r) \<in> set (nc_callbacks c))"

definition wake_in_cutoff :: "notification_cutoff option \<Rightarrow> wake_row \<Rightarrow> bool" where
  "wake_in_cutoff snap w = (case snap of None \<Rightarrow> True
     | Some c \<Rightarrow> nc_wakeFingerprint c = Some (wk_inboxFingerprint w) \<and> nc_wakeAttemptCount c = Some (wk_attemptCount w))"

definition retired_wake :: "string \<Rightarrow> nat \<Rightarrow> wake_row \<Rightarrow> wake_row" where
  "retired_wake trigger clk w = w\<lparr>wk_state := WakeResolved, wk_claimedAt := None, wk_submittedAt := None,
     wk_busyObservedAt := None, wk_leaseExpiresAt := None, wk_nextRetryAt := None,
     wk_lastError := Some (''Superseded by fresh human trigger '' @ trigger), wk_updatedAt := clk\<rparr>"

definition retired_callback :: "string \<Rightarrow> nat \<Rightarrow> session_dispatch \<Rightarrow> session_dispatch" where
  "retired_callback trigger clk r = r\<lparr>sd_state := DispatchSuperseded, sd_updatedAt := clk,
     sd_callbackNextAttemptAt := None, sd_callbackExpiresAt := None,
     sd_lastError := Some (''Notification superseded by fresh human trigger '' @ trigger @
       ''; worker result not reviewed'')\<rparr>"

definition retireNotifications :: "string \<Rightarrow> string \<Rightarrow> notification_cutoff option \<Rightarrow> dispatch_db \<Rightarrow> dispatch_db" where
  "retireNotifications sid trigger snap db =
     (if list_ex (\<lambda>c. cu_scope c = ''callbacks'' \<and> cu_sessionId c = sid \<and> cu_triggerId c = trigger) (sd_cutoffs db)
      then db
      else let clk = sd_clock db; cutoff = fold max (map sd_rowid (sd_rows db)) 0
           in (update_dispatches (\<lambda>r. unresolved sid r \<and> sd_rowid r \<le> cutoff \<and> in_cutoff snap r)
                 (retired_callback trigger clk) db)
              \<lparr>sd_cutoffs := sd_cutoffs db @ [\<lparr>cu_scope = ''callbacks'', cu_sessionId = sid, cu_triggerId = trigger,
                 cu_generation = generation sid db + 1, cu_rowCutoff = cutoff, cu_createdAt = clk\<rparr>],
               sd_wakes := map (\<lambda>w. if wk_callbackSessionId w = sid \<and> wake_in_cutoff snap w
                 then retired_wake trigger clk w else w) (sd_wakes db)\<rparr>)"

end
