(* ===== verification/Dispatch_Inbox.thy ===== *)
theory Dispatch_Inbox
  imports Session_Dispatches Prompt_Readiness
begin

text \<open>
  The coordinator of callback wake-ups (\<open>src/session-dispatch/session-dispatch-inbox.ts\<close>). A session
  with unresolved callbacks is woken by a message; the wake-up is claimed for a while, marked as
  uncertain when the message leaves, submitted when the agent took it, and judged when the turn is
  over: an inbox that changed starts anew, an unchanged one is woken again after a pause, and blocked
  after the allowed number of attempts.
\<close>

section \<open>Policy\<close>

record wake_policy =
  ip_maxAttempts :: "nat option"
  ip_leaseMs :: "nat option"
  ip_retryInitialMs :: "nat option"
  ip_retryMaxMs :: "nat option"

definition pol_maxAttempts :: "wake_policy \<Rightarrow> nat" where
  "pol_maxAttempts p = (case ip_maxAttempts p of Some n \<Rightarrow> n | None \<Rightarrow> 3)"

definition pol_leaseMs :: "wake_policy \<Rightarrow> nat" where
  "pol_leaseMs p = (case ip_leaseMs p of Some n \<Rightarrow> n | None \<Rightarrow> 5 * 60000)"

definition pol_retryInitialMs :: "wake_policy \<Rightarrow> nat" where
  "pol_retryInitialMs p = (case ip_retryInitialMs p of Some n \<Rightarrow> n | None \<Rightarrow> 5000)"

definition pol_retryMaxMs :: "wake_policy \<Rightarrow> nat" where
  "pol_retryMaxMs p = (case ip_retryMaxMs p of Some n \<Rightarrow> n | None \<Rightarrow> 5 * 60000)"

text \<open>\<open>Number.parseInt(s, 10)\<close>: white space, a sign and the digits that follow; \<open>None\<close> is NaN.\<close>

definition parse_int :: "string \<Rightarrow> int option" where
  "parse_int s0 =
     (let s = dropWhile is_space s0;
          neg = (case s of c # _ \<Rightarrow> c = CHR ''-'' | [] \<Rightarrow> False);
          t = (case s of c # cs \<Rightarrow> if c = CHR ''-'' \<or> c = CHR ''+'' then cs else s | [] \<Rightarrow> []);
          ds = takeWhile is_digit t
      in if ds = [] then None
         else Some ((if neg then -1 else 1) * int (digits_value 10 0 ds)))"

definition positiveInteger :: "string option \<Rightarrow> nat \<Rightarrow> nat" where
  "positiveInteger value fallback =
     (case parse_int (case value of Some s \<Rightarrow> s | None \<Rightarrow> []) of
        Some n \<Rightarrow> if n > 0 then nat n else fallback | None \<Rightarrow> fallback)"

definition env_read :: "(string \<Rightarrow> string option) \<Rightarrow> string \<Rightarrow> string option" where
  "env_read env k = (case env k of Some v \<Rightarrow> Some v | None \<Rightarrow> env (''WINGMAN_'' @ k))"

definition resolveDispatchInboxWakePolicy :: "(string \<Rightarrow> string option) \<Rightarrow> wake_policy" where
  "resolveDispatchInboxWakePolicy env =
     \<lparr>ip_maxAttempts = Some (positiveInteger (env_read env ''DISPATCH_INBOX_WAKE_MAX_ATTEMPTS'') 3),
      ip_leaseMs = Some (positiveInteger (env_read env ''DISPATCH_INBOX_WAKE_LEASE_MS'') (5 * 60000)),
      ip_retryInitialMs = Some (positiveInteger (env_read env ''DISPATCH_INBOX_WAKE_RETRY_INITIAL_MS'') 5000),
      ip_retryMaxMs = Some (positiveInteger (env_read env ''DISPATCH_INBOX_WAKE_RETRY_MAX_MS'') (5 * 60000))\<rparr>"

definition retryDelayMs :: "wake_policy \<Rightarrow> nat \<Rightarrow> nat" where
  "retryDelayMs p n = min (pol_retryInitialMs p * 2 ^ (n - 1)) (pol_retryMaxMs p)"

definition leaseExpired :: "wake_row \<Rightarrow> nat \<Rightarrow> bool" where
  "leaseExpired w clk = (case wk_leaseExpiresAt w of Some t \<Rightarrow> clk \<ge> t | None \<Rightarrow> False)"

section \<open>Reading\<close>

record wake_claim =
  wc_generation :: nat
  wc_callbackSessionId :: string
  wc_inboxFingerprint :: string
  wc_attemptCount :: nat

definition inspect :: "string \<Rightarrow> dispatch_db \<Rightarrow> session_dispatch list \<times> wake_row option \<times> string option" where
  "inspect sid db = (listUnresolvedCallbacks sid db, getWake sid db, getInboxFingerprint sid db)"

definition hasUnresolved :: "string \<Rightarrow> dispatch_db \<Rightarrow> bool" where
  "hasUnresolved sid db = (getInboxFingerprint sid db \<noteq> None)"

text \<open>\<open>saveWake({ ...wake, ... })\<close> passes on the times the record has.\<close>

definition resave :: "wake_row \<Rightarrow> wake_row dispatch_op" where
  "resave w = saveWake (Some (wk_createdAt w)) (Some (wk_updatedAt w)) w"

section \<open>The end of an attempt\<close>

definition restarted_wake :: "wake_row \<Rightarrow> wake_row" where
  "restarted_wake w = w\<lparr>wk_state := WakePending, wk_claimedAt := None, wk_submittedAt := None,
     wk_busyObservedAt := None, wk_leaseExpiresAt := None\<rparr>"

definition recordFailedAttempt :: "wake_policy \<Rightarrow> wake_row \<Rightarrow> string \<Rightarrow> nat \<Rightarrow> wake_row dispatch_op" where
  "recordFailedAttempt p w e clk =
     (if wk_attemptCount w \<ge> pol_maxAttempts p
      then resave (w\<lparr>wk_state := WakeBlocked, wk_leaseExpiresAt := None, wk_nextRetryAt := None,
             wk_lastError := Some e, wk_updatedAt := clk\<rparr>)
      else resave ((restarted_wake w)\<lparr>wk_nextRetryAt := Some (clk + retryDelayMs p (wk_attemptCount w)),
             wk_lastError := Some e, wk_updatedAt := clk\<rparr>))"

definition completeSubmittedTurn :: "wake_policy \<Rightarrow> wake_row \<Rightarrow> string \<Rightarrow> nat \<Rightarrow> wake_row dispatch_op" where
  "completeSubmittedTurn p w fp clk =
     (if wk_inboxFingerprint w \<noteq> fp
      then resave ((restarted_wake w)\<lparr>wk_inboxFingerprint := fp, wk_attemptCount := 0, wk_nextRetryAt := None,
             wk_lastError := None, wk_updatedAt := clk\<rparr>)
      else if wk_attemptCount w \<ge> pol_maxAttempts p
      then resave (w\<lparr>wk_state := WakeBlocked, wk_leaseExpiresAt := None, wk_nextRetryAt := None,
             wk_lastError := Some (''Inbox remained unchanged after '' @ nat_string (wk_attemptCount w) @ '' wake turns''),
             wk_updatedAt := clk\<rparr>)
      else resave ((restarted_wake w)\<lparr>wk_nextRetryAt := Some (clk + retryDelayMs p (wk_attemptCount w)),
             wk_lastError := Some ''Previous wake turn made no inbox progress'', wk_updatedAt := clk\<rparr>))"

section \<open>Claims\<close>

definition noteSessionBusy :: "string \<Rightarrow> unit dispatch_op" where
  "noteSessionBusy sid = bnd (reads (getWake sid)) (\<lambda>wake. case wake of
     None \<Rightarrow> ret ()
   | Some w \<Rightarrow> if wk_state w \<noteq> WakeSubmitted \<or> wk_busyObservedAt w \<noteq> None then ret ()
       else bnd (reads sd_clock) (\<lambda>clk. bnd (resave (w\<lparr>wk_busyObservedAt := Some clk\<rparr>)) (\<lambda>_. ret ())))"

text \<open>The wake-up of an inbox that has nothing left is resolved.\<close>

definition resolve_idle :: "string \<Rightarrow> nat \<Rightarrow> unit dispatch_op" where
  "resolve_idle sid clk = bnd (reads (getWake sid)) (\<lambda>wake. case wake of
     None \<Rightarrow> ret ()
   | Some w \<Rightarrow> if wk_state w = WakeResolved then ret ()
       else bnd (resave ((restarted_wake w)\<lparr>wk_state := WakeResolved, wk_nextRetryAt := None, wk_lastError := None,
              wk_updatedAt := clk\<rparr>)) (\<lambda>_. ret ()))"

text \<open>What the earlier wake-up has come to; \<open>None\<close> is the early return of an active turn.\<close>

definition settle_wake :: "wake_policy \<Rightarrow> string \<Rightarrow> string \<Rightarrow> nat \<Rightarrow> wake_row option option dispatch_op" where
  "settle_wake p sid fp clk = bnd (reads (getWake sid)) (\<lambda>wake. case wake of
     None \<Rightarrow> ret (Some None)
   | Some w \<Rightarrow>
       if wk_state w = WakeClaimed \<and> leaseExpired w clk
       then bnd (recordFailedAttempt p w ''Wake claim lease expired before submission'' clk) (\<lambda>k. ret (Some (Some k)))
       else if wk_state w = WakeSubmitted
       then (if wk_busyObservedAt w = None \<and> \<not> leaseExpired w clk then ret None
             else bnd (completeSubmittedTurn p w fp clk) (\<lambda>k. ret (Some (Some k))))
       else ret (Some (Some w)))"

definition may_claim :: "string \<Rightarrow> nat \<Rightarrow> wake_row option \<Rightarrow> bool" where
  "may_claim fp clk wake = (case wake of None \<Rightarrow> True
     | Some w \<Rightarrow> wk_state w \<noteq> WakeClaimed \<and> wk_state w \<noteq> WakeSubmitted \<and>
         \<not> (wk_state w = WakeBlocked \<and> wk_inboxFingerprint w = fp) \<and>
         (case wk_nextRetryAt w of Some t \<Rightarrow> clk \<ge> t | None \<Rightarrow> True))"

definition claimForStableSession :: "wake_policy \<Rightarrow> string \<Rightarrow> wake_claim option dispatch_op" where
  "claimForStableSession p sid =
     bnd (reads sd_clock) (\<lambda>clk.
     bnd (reads (getInboxFingerprint sid)) (\<lambda>fingerprint. case fingerprint of
       None \<Rightarrow> bnd (resolve_idle sid clk) (\<lambda>_. ret None)
     | Some fp \<Rightarrow> bnd (settle_wake p sid fp clk) (\<lambda>settled. case settled of
         None \<Rightarrow> ret None
       | Some wake \<Rightarrow>
           if \<not> may_claim fp clk wake then ret None
           else bnd (claimWake sid fp clk (clk + pol_leaseMs p)) (\<lambda>claimed. case claimed of
             None \<Rightarrow> ret None
           | Some w \<Rightarrow> bnd (reads (generation sid)) (\<lambda>g.
               ret (Some \<lparr>wc_generation = g, wc_callbackSessionId = sid, wc_inboxFingerprint = fp,
                          wc_attemptCount = wk_attemptCount w\<rparr>))))))"

definition reconcileHandledCallbacks :: "string \<Rightarrow> unit dispatch_op" where
  "reconcileHandledCallbacks sid = bnd (reads (getWake sid)) (\<lambda>wake. case wake of
     None \<Rightarrow> ret ()
   | Some w \<Rightarrow> bnd (reads (getInboxFingerprint sid)) (\<lambda>fp.
       if fp = Some (wk_inboxFingerprint w) then ret ()
       else bnd (reads sd_clock) (\<lambda>clk.
         bnd (resave ((restarted_wake w)\<lparr>
           wk_inboxFingerprint := (case fp of Some f \<Rightarrow> f | None \<Rightarrow> wk_inboxFingerprint w),
           wk_state := (if fp \<noteq> None then WakePending else WakeResolved), wk_attemptCount := 0,
           wk_nextRetryAt := None, wk_lastError := None, wk_updatedAt := clk\<rparr>)) (\<lambda>_. ret ()))))"

definition validateClaim :: "wake_claim \<Rightarrow> bool dispatch_op" where
  "validateClaim c = bnd (reads (generation (wc_callbackSessionId c))) (\<lambda>g.
     if wc_generation c \<noteq> g then ret False
     else bnd (reconcileHandledCallbacks (wc_callbackSessionId c)) (\<lambda>_.
          bnd (reads (getWake (wc_callbackSessionId c))) (\<lambda>wake. bnd (reads sd_clock) (\<lambda>clk.
          ret (case wake of None \<Rightarrow> False
             | Some w \<Rightarrow> wk_state w = WakeClaimed \<and> wk_inboxFingerprint w = wc_inboxFingerprint c \<and>
                 wk_attemptCount w = wc_attemptCount c \<and> \<not> leaseExpired w clk)))))"

definition markDeliveryUncertain :: "wake_claim \<Rightarrow> unit dispatch_op" where
  "markDeliveryUncertain c = bnd (validateClaim c) (\<lambda>valid.
     if \<not> valid then throw ''Wake claim changed before delivery''
     else bnd (reads (getWake (wc_callbackSessionId c))) (\<lambda>wake. case wake of
       None \<Rightarrow> throw ''null is not an object''
     | Some w \<Rightarrow> bnd (reads sd_clock) (\<lambda>clk.
         bnd (resave (w\<lparr>wk_state := WakeBlocked, wk_leaseExpiresAt := None, wk_nextRetryAt := None,
           wk_lastError := Some ''Delivery may have been accepted; inspect receiver before explicit retry'',
           wk_updatedAt := clk\<rparr>)) (\<lambda>_. ret ()))))"

text \<open>The wake-up a claim stands for, in one of the given states; the others change nothing.\<close>

definition on_claim :: "wake_claim \<Rightarrow> wake_state list \<Rightarrow> (wake_row \<Rightarrow> unit dispatch_op) \<Rightarrow> unit dispatch_op" where
  "on_claim c states f = bnd (reads (generation (wc_callbackSessionId c))) (\<lambda>g.
     if wc_generation c \<noteq> g then ret ()
     else bnd (reads (getWake (wc_callbackSessionId c))) (\<lambda>wake. case wake of
       None \<Rightarrow> ret ()
     | Some w \<Rightarrow> if wk_state w \<notin> set states \<or> wk_inboxFingerprint w \<noteq> wc_inboxFingerprint c \<or>
           wk_attemptCount w \<noteq> wc_attemptCount c then ret () else f w))"

definition releaseRejectedDelivery :: "wake_claim \<Rightarrow> unit dispatch_op" where
  "releaseRejectedDelivery c = on_claim c [WakeBlocked] (\<lambda>w.
     bnd (resave (w\<lparr>wk_state := WakeClaimed, wk_lastError := None\<rparr>)) (\<lambda>_. ret ()))"

definition markSubmitted :: "wake_claim \<Rightarrow> unit dispatch_op" where
  "markSubmitted c = on_claim c [WakeClaimed, WakeBlocked] (\<lambda>w. bnd (reads sd_clock) (\<lambda>clk.
     bnd (resave (w\<lparr>wk_state := WakeSubmitted, wk_submittedAt := Some clk, wk_lastError := None\<rparr>)) (\<lambda>_. ret ())))"

definition markSubmissionFailed :: "wake_policy \<Rightarrow> wake_claim \<Rightarrow> string \<Rightarrow> unit dispatch_op" where
  "markSubmissionFailed p c e = on_claim c [WakeClaimed] (\<lambda>w. bnd (reads sd_clock) (\<lambda>clk.
     bnd (recordFailedAttempt p w e clk) (\<lambda>_. ret ())))"

section \<open>Legacy callbacks\<close>

text \<open>Both stores: the queue drops the prompts of the old kind, the dispatches become pending.\<close>

definition migrateLegacyCallbacks :: "queue_db \<Rightarrow> dispatch_db \<Rightarrow> (queue_error + nat \<times> nat) \<times> queue_db \<times> dispatch_db" where
  "migrateLegacyCallbacks q db = (case deletePromptsByType ''dispatch_callback'' q of
     (Inl e, q') \<Rightarrow> (Inl e, q', db)
   | (Inr n, q') \<Rightarrow> (case migrateLegacyDeliveredCallbacks db of
       (r, db') \<Rightarrow> (case r of Inl e \<Rightarrow> (Inl (QueueError e), q', db') | Inr m \<Rightarrow> (Inr (n, m), q', db'))))"

end
