(* ===== verification/Prompt_Dispatch.thy ===== *)
theory Prompt_Dispatch
  imports Prompt_Queue Prompt_Readiness Dispatch_Inbox
begin

text \<open>
  The dispatch of queued prompts (\<open>src/server/prompt-dispatch.ts\<close>,
  \<open>src/server/session-agent-message.ts\<close>, \<open>src/agents/prompt-submission.ts\<close>,
  \<open>src/agents/session-admission.ts\<close>). What the agent, its adapter and the network answer is an
  argument of a dispatch, and so is what other handlers of the server do while the dispatch awaits
  an answer: the queue they leave is the queue the dispatch goes on with. The list of the prompts
  that an agent took is not state of the program; it is what the program cannot see and what the
  properties are about, as is the list of the wake-ups it took. A dispatch's local \<open>acceptanceObserved\<close> is the membership of its claim
  token in a list.
\<close>

section \<open>The world\<close>

record world =
  w_db :: queue_db
  w_taken :: "uuid list"
  w_inflight :: "string set"
  w_cooldowns :: "(string \<times> nat) list"
  w_started :: "string list"
  w_watch :: "string list"
  w_draining :: bool
  w_observed :: "uuid list"
  w_inbox :: dispatch_db
  w_woken :: "wake_claim list"
  w_checking :: bool

record session_info =
  si_id :: string
  si_agent :: string
  si_status :: string
  si_runtime :: "string option"
  si_role :: "string option"
  si_chargeTo :: "string option"
  si_npub :: "string option"

datatype payload =
    NoPayload
  | ApprovalRequired
  | UnresolvedClaim uuid
  | ClaimedPrompt queued_prompt
  | SentPrompt queued_prompt
  | FailedPrompt queued_prompt

text \<open>\<open>QueueDispatchError\<close>, and the message of any other error.\<close>

datatype dispatch_error = Dispatch string nat payload | Thrown string

type_synonym 'a dispatch = "(dispatch_error, 'a, world) sx"

fun error_message :: "dispatch_error \<Rightarrow> string" where
  "error_message (Dispatch msg _ _) = msg"
| "error_message (Thrown msg) = msg"

fun queue_message :: "queue_error \<Rightarrow> string" where
  "queue_message (QueueError msg) = msg"
| "queue_message (QueueConflict msg _) = msg"

definition on_queue :: "'a queue_op \<Rightarrow> 'a dispatch" where
  "on_queue m = (\<lambda>w. case m (w_db w) of
     (Inl e, db) \<Rightarrow> (Inl (Thrown (queue_message e)), w\<lparr>w_db := db\<rparr>)
   | (Inr x, db) \<Rightarrow> (Inr x, w\<lparr>w_db := db\<rparr>))"

text \<open>The inbox of callbacks; both stores read one clock.\<close>

definition on_inbox :: "'a dispatch_op \<Rightarrow> 'a dispatch" where
  "on_inbox m = (\<lambda>w. case m ((w_inbox w)\<lparr>sd_clock := q_clock (w_db w)\<rparr>) of
     (Inl e, db) \<Rightarrow> (Inl (Thrown e), w\<lparr>w_inbox := db\<rparr>)
   | (Inr x, db) \<Rightarrow> (Inr x, w\<lparr>w_inbox := db\<rparr>))"

section \<open>Delivery\<close>

datatype certainty = Unsent | Rejected | Uncertain | Accepted

fun certainty_text :: "certainty \<Rightarrow> string" where
  "certainty_text Unsent = ''unsent''"
| "certainty_text Rejected = ''rejected''"
| "certainty_text Uncertain = ''uncertain''"
| "certainty_text Accepted = ''accepted''"

record message_result =
  mr_certainty :: certainty
  mr_ok :: bool
  mr_status :: nat
  mr_message :: string

text \<open>A response with its status and the message parsed from it, or a failed request.\<close>

datatype http_answer = Answered nat string | NoAnswer string

record surroundings =
  su_adapter :: bool
  su_direct :: bool
  su_readiness :: "string + readiness option"
  su_wait :: "string option"
  su_url :: "string option"
  su_answer :: http_answer
  su_echo :: bool
  su_send :: "string option"
  su_takes :: bool
  su_ready :: "string + unit"
  su_bridge :: "string option"
  su_initial :: nat
  su_counts :: "nat \<Rightarrow> nat"
  su_view :: "session_view option"
  su_unpublished :: bool
  su_others :: "nat \<Rightarrow> world \<Rightarrow> world"

definition result :: "certainty \<Rightarrow> bool \<Rightarrow> nat \<Rightarrow> string \<Rightarrow> message_result" where
  "result c ok status msg = \<lparr>mr_certainty = c, mr_ok = ok, mr_status = status, mr_message = msg\<rparr>"

text \<open>Only a client error other than 408 proves that the message was not accepted.\<close>

definition read_answer :: "http_answer \<Rightarrow> message_result" where
  "read_answer a = (case a of
     NoAnswer e \<Rightarrow> result Uncertain False 502 e
   | Answered st msg \<Rightarrow>
       if 200 \<le> st \<and> st < 300 then result Accepted True st []
       else result (if 400 \<le> st \<and> st < 500 \<and> st \<noteq> 408 then Rejected else Uncertain) False st msg)"

definition not_current :: message_result where
  "not_current = result Unsent False 409 ''Delivery claim is no longer current''"

text \<open>
  The message leaves: the agent takes it, which \<open>mark\<close> records, or not, and others run until the
  answer is there.
\<close>

definition transmit :: "surroundings \<Rightarrow> (world \<Rightarrow> world) \<Rightarrow> world \<Rightarrow> world" where
  "transmit su mark w = su_others su 2 (if su_takes su then mark w else w)"

definition takes_prompt :: "uuid \<Rightarrow> world \<Rightarrow> world" where
  "takes_prompt i w = w\<lparr>w_taken := i # w_taken w\<rparr>"

definition takes_wake :: "wake_claim \<Rightarrow> world \<Rightarrow> world" where
  "takes_wake c w = w\<lparr>w_woken := c # w_woken w\<rparr>"

definition submitOnce ::
  "surroundings \<Rightarrow> (world \<Rightarrow> world) \<Rightarrow> bool dispatch \<Rightarrow> unit dispatch \<Rightarrow> message_result dispatch" where
  "submitOnce su mark beforeSend onSending = (\<lambda>w. case beforeSend w of
     (Inl e, w) \<Rightarrow> (Inr (result Unsent False 502 (''Error: '' @ error_message e)), w)
   | (Inr current, w) \<Rightarrow>
       if \<not> current then (Inr not_current, w)
       else (case su_url su of
         Some e \<Rightarrow> (Inr (result Unsent False 502 e), w)
       | None \<Rightarrow> (case onSending w of
           (Inl e, w) \<Rightarrow> (Inr (result Unsent False 502 (''Error: '' @ error_message e)), w)
         | (Inr _, w) \<Rightarrow> (Inr (read_answer (su_answer su)), transmit su mark w))))"

text \<open>
  \<open>submitAdapterPrompt\<close>: the record of the user's message ends the wait; an error of
  \<open>sendMessage\<close> counts only before it.
\<close>

definition submitAdapterPrompt :: "surroundings \<Rightarrow> string option" where
  "submitAdapterPrompt su = (if su_echo su then None else su_send su)"

definition adapter_failure :: "bool \<Rightarrow> string \<Rightarrow> message_result" where
  "adapter_failure sending msg =
     (if instr (to_lower msg) ''still processing a prompt''
      then result (if sending then Uncertain else Rejected) False 409 ''Agent working''
      else result (if sending then Uncertain else Unsent) False 502 (''Failed to contact agent: '' @ msg))"

definition deliverDirectly ::
  "surroundings \<Rightarrow> (world \<Rightarrow> world) \<Rightarrow> bool dispatch \<Rightarrow> unit dispatch \<Rightarrow> message_result dispatch" where
  "deliverDirectly su mark beforeSend onSending = (case su_readiness su of
     Inl e \<Rightarrow> ret (adapter_failure False e)
   | Inr ready \<Rightarrow>
       if (case ready of Some r \<Rightarrow> rd_state r = Busy \<or> rd_state r = Starting | None \<Rightarrow> False)
       then ret (result Rejected False 409 ''Agent working'')
       else (case su_wait su of
         Some e \<Rightarrow> ret (adapter_failure False e)
       | None \<Rightarrow> bnd (modify (su_others su 1)) (\<lambda>_. \<lambda>w. case beforeSend w of
           (Inl e, w) \<Rightarrow> (Inr (adapter_failure False (error_message e)), w)
         | (Inr current, w) \<Rightarrow>
             if \<not> current then (Inr not_current, w)
             else (case onSending w of
               (Inl e, w) \<Rightarrow> (Inr (adapter_failure False (error_message e)), w)
             | (Inr _, w) \<Rightarrow> (Inr (case submitAdapterPrompt su of
                   Some e \<Rightarrow> adapter_failure True e | None \<Rightarrow> result Accepted True 200 []),
                 transmit su mark w)))))"

definition deliverSessionAgentMessage ::
  "surroundings \<Rightarrow> bool \<Rightarrow> (world \<Rightarrow> world) \<Rightarrow> bool dispatch \<Rightarrow> unit dispatch \<Rightarrow> message_result dispatch" where
  "deliverSessionAgentMessage su raw mark beforeSend onSending =
     (if \<not> raw \<and> su_adapter su \<and> su_direct su then deliverDirectly su mark beforeSend onSending
      else if su_adapter su then (case su_wait su of
          Some e \<Rightarrow> ret (result Unsent False 502 (''Failed to contact agent: '' @ e))
        | None \<Rightarrow> bnd (modify (su_others su 1)) (\<lambda>_. submitOnce su mark beforeSend onSending))
      else submitOnce su mark beforeSend onSending)"

section \<open>Dispatch\<close>

definition completed_turn :: "session_info \<Rightarrow> bool" where
  "completed_turn ses = (si_role ses = Some ''completed-turn'')"

definition managed_only :: dispatch_error where
  "managed_only = Dispatch ''Dedicated builders accept only managed completed turns'' 409 NoPayload"

text \<open>\<open>waitForMessageUpdate\<close>: one read and a read every 250 ms of the 20 s that follow.\<close>

fun waitForMessageUpdate :: "(nat \<Rightarrow> nat) \<Rightarrow> nat \<Rightarrow> nat \<Rightarrow> nat \<Rightarrow> nat" where
  "waitForMessageUpdate counts initial k 0 = counts k"
| "waitForMessageUpdate counts initial k (Suc n) =
     (if counts k > initial then counts k else waitForMessageUpdate counts initial (Suc k) n)"

definition deliverAcceptedPrompt ::
  "surroundings \<Rightarrow> session_info \<Rightarrow> (world \<Rightarrow> world) \<Rightarrow> bool dispatch \<Rightarrow> unit dispatch \<Rightarrow> (certainty \<Rightarrow> unit dispatch) \<Rightarrow>
     unit dispatch \<Rightarrow> nat dispatch" where
  "deliverAcceptedPrompt su ses mark beforeSend onSending onRejected onAccepted =
     (if completed_turn ses then throw managed_only
      else bnd (reads w_draining) (\<lambda>draining.
        if draining then throw (Thrown ''Controlled restart drain is active; prompt execution is temporarily unavailable'')
        else bnd (deliverSessionAgentMessage su False mark beforeSend onSending) (\<lambda>r.
          if \<not> mr_ok r then
            bnd (if mr_certainty r = Unsent \<or> mr_certainty r = Rejected then onRejected (mr_certainty r) else ret ()) (\<lambda>_.
            throw (Dispatch (mr_message r) (mr_status r) NoPayload))
          else bnd onAccepted (\<lambda>_. case su_bridge su of
              Some e \<Rightarrow> throw (Thrown e)
            | None \<Rightarrow> bnd (modify (su_others su 3)) (\<lambda>_.
                ret (waitForMessageUpdate (su_counts su) (su_initial su) 0 80))))))"

definition clear_cooldown :: "string \<Rightarrow> world \<Rightarrow> world" where
  "clear_cooldown sid w = w\<lparr>w_cooldowns := AList.delete sid (w_cooldowns w)\<rparr>"

definition markQueueDispatchCooldown :: "string \<Rightarrow> nat \<Rightarrow> world \<Rightarrow> world" where
  "markQueueDispatchCooldown sid ms w =
     w\<lparr>w_cooldowns := AList.update sid (q_clock (w_db w) + max ms 250) (w_cooldowns w)\<rparr>"

definition ensureSessionReadyForPromptDispatch :: "surroundings \<Rightarrow> session_info \<Rightarrow> unit dispatch" where
  "ensureSessionReadyForPromptDispatch su ses =
     bnd (modify (su_others su 0)) (\<lambda>_. case su_ready su of
       Inl e \<Rightarrow> throw (Thrown e)
     | Inr _ \<Rightarrow> modify (\<lambda>w. w\<lparr>w_started := si_id ses # w_started w\<rparr>))"

definition the_token :: "queued_prompt \<Rightarrow> uuid" where
  "the_token p = (case qp_claimToken p of Some t \<Rightarrow> t | None \<Rightarrow> 0)"

definition accept_claim :: "string \<Rightarrow> uuid \<Rightarrow> uuid \<Rightarrow> unit dispatch" where
  "accept_claim sid i token =
     bnd (modify (\<lambda>w. w\<lparr>w_observed := token # w_observed w\<rparr>)) (\<lambda>_.
     bnd (on_queue (recordClaimAcceptance sid i token)) (\<lambda>_.
     on_queue (completeClaim sid i token)))"

definition deliver_claim :: "surroundings \<Rightarrow> session_info \<Rightarrow> queued_prompt \<Rightarrow> nat dispatch" where
  "deliver_claim su ses p =
     bnd (deliverAcceptedPrompt su ses (takes_prompt (qp_id p)) (ret True)
       (on_queue (markClaimSending (si_id ses) (qp_id p) (the_token p)))
       (\<lambda>c. on_queue (releaseRejectedClaim (si_id ses) (qp_id p) (the_token p) (certainty_text c)))
       (accept_claim (si_id ses) (qp_id p) (the_token p))) (\<lambda>n.
     bnd (modify (clear_cooldown (si_id ses))) (\<lambda>_. ret n))"

text \<open>The \<open>catch\<close> of a dispatch: a claim whose message never left goes back to the queue.\<close>

definition failed_dispatch :: "string \<Rightarrow> queued_prompt \<Rightarrow> dispatch_error \<Rightarrow> 'a dispatch" where
  "failed_dispatch sid p e =
     bnd (on_queue (getSessionQueue sid)) (\<lambda>q.
       let current = List.find (\<lambda>x. qp_id x = qp_id p) q;
           claimed = (case current of Some c \<Rightarrow> qp_state c = Claimed | None \<Rightarrow> False);
           unsent = (case current of Some c \<Rightarrow> qp_deliveryState c = Some ''unsent'' | None \<Rightarrow> False)
       in bnd (if claimed \<and> unsent then on_queue (releaseRejectedClaim sid (qp_id p) (the_token p) ''unsent'') else ret ()) (\<lambda>_.
          bnd (reads (\<lambda>w. the_token p \<in> set (w_observed w))) (\<lambda>accepted.
            let pl = (case current of
                 Some c \<Rightarrow> if claimed \<and> \<not> unsent then ClaimedPrompt c
                   else if accepted then SentPrompt p else FailedPrompt p
               | None \<Rightarrow> if accepted then SentPrompt p else FailedPrompt p)
            in throw (case e of
                 Dispatch msg st extra \<Rightarrow> Dispatch msg st (if extra = NoPayload then pl else extra)
               | Thrown msg \<Rightarrow> Dispatch (''Failed to contact agent: '' @ msg) 502 pl))))"

definition dispatchQueuedPromptWithClaim ::
  "surroundings \<Rightarrow> (string \<Rightarrow> bool) \<Rightarrow> session_info \<Rightarrow> string option \<Rightarrow> (queued_prompt \<times> nat) dispatch" where
  "dispatchQueuedPromptWithClaim su approved ses user =
     (if completed_turn ses then throw managed_only
      else case nonempty user of
        None \<Rightarrow> throw (Dispatch ''Sign in to send messages'' 403 NoPayload)
      | Some npub \<Rightarrow>
          if \<not> approved npub then throw (Dispatch ''User is not approved to use Wingman'' 403 ApprovalRequired)
          else bnd (handle (ensureSessionReadyForPromptDispatch su ses) (\<lambda>e.
                 throw (Dispatch (''Session is not ready for prompt dispatch: '' @ error_message e) 503 NoPayload))) (\<lambda>_.
               bnd (on_queue (claimNextPrompt (si_id ses))) (\<lambda>next'. case next' of
                 None \<Rightarrow> bnd (reads (\<lambda>w. getNextQueuedPrompt (si_id ses) (w_db w))) (\<lambda>head.
                   throw (case head of
                     Some h \<Rightarrow> if qp_state h = Claimed
                       then Dispatch ''Queued prompt has an unresolved dispatch claim; inspect delivery before operator recovery''
                              409 (UnresolvedClaim (qp_id h))
                       else Dispatch ''No prompts in queue'' 404 NoPayload
                   | None \<Rightarrow> Dispatch ''No prompts in queue'' 404 NoPayload))
               | Some p \<Rightarrow> handle (bnd (deliver_claim su ses p) (\<lambda>n. ret (p, n))) (failed_dispatch (si_id ses) p))))"

definition dispatchNextQueuedPromptForSession ::
  "surroundings \<Rightarrow> (string \<Rightarrow> bool) \<Rightarrow> session_info \<Rightarrow> string option \<Rightarrow> (queued_prompt \<times> nat) dispatch" where
  "dispatchNextQueuedPromptForSession su approved ses user =
     bnd (reads (\<lambda>w. si_id ses \<in> w_inflight w)) (\<lambda>busy.
     if busy then throw (Dispatch ''A queued delivery is already in progress'' 409 NoPayload)
     else bnd (modify (\<lambda>w. w\<lparr>w_inflight := insert (si_id ses) (w_inflight w)\<rparr>)) (\<lambda>_.
          finally_do (dispatchQueuedPromptWithClaim su approved ses user)
            (modify (\<lambda>w. w\<lparr>w_inflight := w_inflight w - {si_id ses}\<rparr>))))"

section \<open>Wake-ups\<close>

definition deliver_wake :: "surroundings \<Rightarrow> session_info \<Rightarrow> wake_claim \<Rightarrow> unit dispatch" where
  "deliver_wake su ses c =
     bnd (ensureSessionReadyForPromptDispatch su ses) (\<lambda>_.
     bnd (on_inbox (validateClaim c)) (\<lambda>valid.
     if \<not> valid then ret ()
     else bnd (deliverAcceptedPrompt su ses (takes_wake c) (on_inbox (validateClaim c))
            (on_inbox (markDeliveryUncertain c)) (\<lambda>_. on_inbox (releaseRejectedDelivery c))
            (on_inbox (markSubmitted c))) (\<lambda>n.
          bnd (if n > su_initial su then on_inbox (noteSessionBusy (si_id ses)) else ret ()) (\<lambda>_.
          modify (clear_cooldown (si_id ses))))))"

definition dispatchInboxWake :: "wake_policy \<Rightarrow> surroundings \<Rightarrow> session_info \<Rightarrow> wake_claim \<Rightarrow> unit dispatch" where
  "dispatchInboxWake pol su ses c =
     (if completed_turn ses then throw managed_only
      else handle (deliver_wake su ses c) (\<lambda>e.
        bnd (on_inbox (markSubmissionFailed pol c (error_message e))) (\<lambda>_. throw e)))"

section \<open>Automatic dispatch\<close>

definition shouldAutoDispatchSession :: "session_info \<Rightarrow> bool" where
  "shouldAutoDispatchSession ses = (si_status ses = ''running'' \<and> \<not> completed_turn ses)"

definition resolveSessionChargeNpub :: "session_info \<Rightarrow> string option" where
  "resolveSessionChargeNpub ses =
     (case trimmed (si_chargeTo ses) of Some npub \<Rightarrow> Some npub | None \<Rightarrow> trimmed (si_npub ses))"

definition auto_failed :: "session_info \<Rightarrow> dispatch_error \<Rightarrow> unit dispatch" where
  "auto_failed ses e = modify (case e of
     Dispatch msg st pl \<Rightarrow> if st = 404 then clear_cooldown (si_id ses) else markQueueDispatchCooldown (si_id ses) 5000
   | Thrown msg \<Rightarrow> markQueueDispatchCooldown (si_id ses) 5000)"

definition night_watch :: "session_info \<Rightarrow> world \<Rightarrow> world" where
  "night_watch ses w = w\<lparr>w_watch := si_id ses # w_watch w\<rparr>"

definition wake_attempt :: "wake_policy \<Rightarrow> surroundings \<Rightarrow> session_info \<Rightarrow> bool \<Rightarrow> unit dispatch" where
  "wake_attempt pol su ses hasCallbacks =
     (if hasCallbacks \<and> si_runtime ses \<noteq> Some ''stable'' then on_inbox (noteSessionBusy (si_id ses))
      else bnd (on_inbox (claimForStableSession pol (si_id ses))) (\<lambda>claim. case claim of
        Some c \<Rightarrow> dispatchInboxWake pol su ses c
      | None \<Rightarrow> if \<not> hasCallbacks then modify (night_watch ses) else ret ()))"

definition auto_attempt ::
  "wake_policy \<Rightarrow> surroundings \<Rightarrow> (string \<Rightarrow> bool) \<Rightarrow> session_info \<Rightarrow> string \<Rightarrow> nat \<Rightarrow> bool \<Rightarrow> unit dispatch" where
  "auto_attempt pol su approved ses npub count hasCallbacks =
     bnd (modify (su_others su 4)) (\<lambda>_.
       let ready = getSessionPromptReadiness (su_view su) in
       if rd_state ready \<noteq> Ready
       then bnd (if rd_state ready = Busy then on_inbox (noteSessionBusy (si_id ses)) else ret ()) (\<lambda>_.
            modify (markQueueDispatchCooldown (si_id ses) (rd_retryAfterMs ready)))
       else if count > 0 then bnd (dispatchQueuedPromptWithClaim su approved ses (Some npub)) (\<lambda>_. ret ())
       else wake_attempt pol su ses hasCallbacks)"

definition cooling :: "string \<Rightarrow> world \<Rightarrow> bool" where
  "cooling sid w = (case map_of (w_cooldowns w) sid of Some t \<Rightarrow> t > q_clock (w_db w) | None \<Rightarrow> False)"

definition maybeAutoDispatchQueuedPrompt ::
  "wake_policy \<Rightarrow> surroundings \<Rightarrow> (string \<Rightarrow> bool) \<Rightarrow> session_info option \<Rightarrow> unit dispatch" where
  "maybeAutoDispatchQueuedPrompt pol su approved session = (case session of
     None \<Rightarrow> ret ()
   | Some ses \<Rightarrow> (\<lambda>w.
       let count = getQueueCount (si_id ses) (w_db w); hasCallbacks = hasUnresolved (si_id ses) (w_inbox w)
       in if w_draining w then (Inr (), w)
          else if si_id ses \<in> w_inflight w
          then (if si_runtime ses = Some ''running'' then on_inbox (noteSessionBusy (si_id ses)) w else (Inr (), w))
          else if \<not> shouldAutoDispatchSession ses then (Inr (), w)
          else if count = 0 \<and> \<not> hasCallbacks
          then (Inr (), if si_runtime ses = Some ''stable'' then night_watch ses w else w)
          else if count = 0 \<and> hasCallbacks \<and> su_unpublished su then (Inr (), w)
          else (case resolveSessionChargeNpub ses of
            None \<Rightarrow> (Inr (), w)
          | Some npub \<Rightarrow>
              if cooling (si_id ses) w then (Inr (), w)
              else finally_do (handle (auto_attempt pol su approved ses npub count hasCallbacks) (auto_failed ses))
                     (modify (\<lambda>w. w\<lparr>w_inflight := w_inflight w - {si_id ses}\<rparr>))
                     (w\<lparr>w_inflight := insert (si_id ses) (w_inflight w)\<rparr>))))"

end
