(* ===== verification/Dispatch_Service.thy ===== *)
theory Dispatch_Service
  imports Prompt_Dispatch
begin

text \<open>
  The service of supervised dispatches (\<open>src/session-dispatch/session-dispatch-service.ts\<close>,
  \<open>worker-context.ts\<close>, \<open>src/sessions/session-ownership.ts\<close>, parts of
  \<open>src/agents/native-sdk-contract.ts\<close>): a worker session is started with a prompt, its end is
  captured with the answer of its last turn, and the session that asked is called back until it has
  acknowledged and closed the dispatch. The session manager, the adapter of a worker, the readers of
  transcripts and the dispatch of prompts are arguments.
\<close>

section \<open>Sessions and owners\<close>

record session_snapshot =
  sn_id :: string
  sn_agent :: string
  sn_status :: string
  sn_npub :: "string option"
  sn_metadata :: obj

definition normaliseNpub :: "string option \<Rightarrow> string option" where
  "normaliseNpub x = trimmed x"

definition resolveSessionOwnerNpub :: "session_snapshot \<Rightarrow> string option" where
  "resolveSessionOwnerNpub s =
     (case (case get (sn_metadata s) ''ownerNpub'' of JStr x \<Rightarrow> normaliseNpub (Some x) | _ \<Rightarrow> None) of
        Some ow \<Rightarrow> Some ow | None \<Rightarrow> normaliseNpub (sn_npub s))"

section \<open>The context of a worker\<close>

definition single_task :: "obj \<Rightarrow> jval" where
  "single_task meta = (case get meta ''taskIds'' of JArr [v] \<Rightarrow> v | _ \<Rightarrow> JUndef)"

definition hint_fields :: "(string \<times> string) list" where
  "hint_fields = [(''workspaceId'', ''flightdeckWorkspaceId''), (''channelId'', ''flightdeckChannelId''),
     (''threadId'', ''flightdeckThreadId'')]"

definition inherited_fields :: "string list" where
  "inherited_fields = [''agentProfileId'', ''agentChatAgentId'', ''flightdeckSubscriptionId'',
     ''flightdeckBackendConnectionId'', ''flightdeckTowerServiceNpub'', ''flightdeckWorkspaceId'',
     ''flightdeckScopeId'', ''flightdeckChannelId'', ''flightdeckThreadId'']"

definition mismatched_hint :: "obj \<Rightarrow> obj \<Rightarrow> string option" where
  "mismatched_hint reporting meta = map_option fst (List.find (\<lambda>(hint, f).
     get reporting hint \<noteq> JUndef \<and> \<not> strict_eq (get reporting hint) (get meta f)) hint_fields)"

definition reported_task :: "obj \<Rightarrow> obj \<Rightarrow> jval" where
  "reported_task reporting meta = coalesce (get reporting ''taskId'')
     (if strict_eq (get meta ''bindingType'') (JStr ''task'') then get meta ''bindingId'' else single_task meta)"

definition with_task :: "jval \<Rightarrow> obj \<Rightarrow> string + obj" where
  "with_task task ctx = (case task of
     JUndef \<Rightarrow> Inr ctx
   | JStr t \<Rightarrow> if trim t = [] then Inl ''Reporting taskId must be a nonempty string''
       else Inr (overwrite ctx [(''bindingType'', JStr ''task''), (''bindingId'', JStr (trim t)),
              (''taskIds'', JArr [JStr (trim t)])])
   | _ \<Rightarrow> Inl ''Reporting taskId must be a nonempty string'')"

definition inheritWorkerContext ::
  "session_snapshot option \<Rightarrow> obj \<Rightarrow> (session_snapshot \<Rightarrow> string + bool) option \<Rightarrow> string + obj" where
  "inheritWorkerContext parent' reporting validateParent = (case parent' of
     None \<Rightarrow> Inr []
   | Some p \<Rightarrow>
       let meta = sn_metadata p;
           bot = coalesce (get meta ''agentChatBotNpub'') (get meta ''flightdeckAgentNpub'');
           agent = get meta ''flightdeckAgentNpub''
       in if \<not> list_ex (\<lambda>k. truthy (get meta k)) [''flightdeckTowerServiceNpub'', ''flightdeckWorkspaceId'',
               ''flightdeckSubscriptionId'', ''flightdeckBackendConnectionId''] then Inr []
          else if resolveSessionOwnerNpub p = None then Inl ''Flight Deck parent owner is required''
          else if \<not> truthy bot \<or> (truthy agent \<and> \<not> strict_eq agent bot)
          then Inl ''Flight Deck parent bot identity is inconsistent''
          else if \<not> truthy (get meta ''flightdeckTowerServiceNpub'') \<or> \<not> truthy (get meta ''flightdeckWorkspaceId'')
          then Inl ''Flight Deck parent transport must match an active owner subscription''
          else (case (case validateParent of None \<Rightarrow> Inr False | Some f \<Rightarrow> f p) of
            Inl e \<Rightarrow> Inl e
          | Inr valid \<Rightarrow>
              if \<not> valid then Inl ''Flight Deck parent transport must match an active owner subscription''
              else (case mismatched_hint reporting meta of
                Some hint \<Rightarrow> Inl (''Reporting '' @ hint @ '' does not match trusted parent context'')
              | None \<Rightarrow> with_task (reported_task reporting meta)
                  (overwrite [(''agentChatBotNpub'', bot), (''flightdeckAgentNpub'', bot)]
                    (map (\<lambda>k. (k, get meta k)) (filter (\<lambda>k. truthy (get meta k)) inherited_fields))))))"

definition inheritReportingContext :: "session_snapshot \<Rightarrow> obj" where
  "inheritReportingContext s = (let meta = sn_metadata s; taken = (\<lambda>k f. if truthy (get meta f) then [(k, get meta f)] else []) in
     taken ''workspaceId'' ''flightdeckWorkspaceId'' @ taken ''channelId'' ''flightdeckChannelId'' @
     taken ''threadId'' ''flightdeckThreadId'' @
     (if strict_eq (get meta ''bindingType'') (JStr ''task'') \<and> truthy (get meta ''bindingId'')
      then [(''taskId'', get meta ''bindingId'')]
      else (case get meta ''taskIds'' of JArr [v] \<Rightarrow> [(''taskId'', v)] | _ \<Rightarrow> [])))"

section \<open>Creation\<close>

record create_input =
  ci_agent :: string
  ci_directory :: "string option"
  ci_name :: "string option"
  ci_prompt :: string
  ci_callbackSessionId :: "string option"
  ci_callbackEnabled :: bool
  ci_reportingContext :: "obj option"
  ci_callerSessionId :: "string option"

text \<open>The collaborators of the service; \<open>se_others\<close> is what others do while it awaits a session.\<close>

record service_env =
  se_session :: "string \<Rightarrow> session_snapshot option"
  se_createSession :: "create_input \<Rightarrow> string option \<Rightarrow> obj \<Rightarrow> string + session_snapshot"
  se_validate :: "(session_snapshot \<Rightarrow> string + bool) option"
  se_snapshotOrigin :: "session_snapshot \<Rightarrow> string \<Rightarrow> string option"
  se_dispatchQueuedPrompt :: "session_snapshot \<Rightarrow> unit dispatch"
  se_requestNextTurn :: "string \<Rightarrow> unit dispatch"
  se_closeWorker :: "string \<Rightarrow> unit dispatch"
  se_others :: "nat \<Rightarrow> world \<Rightarrow> world"

abbreviation fails :: "string \<Rightarrow> 'a dispatch" where
  "fails msg \<equiv> throw (Thrown msg)"

definition lift_error :: "string + 'a \<Rightarrow> 'a dispatch" where
  "lift_error r = (case r of Inl e \<Rightarrow> fails e | Inr x \<Rightarrow> ret x)"

definition requireSession :: "service_env \<Rightarrow> string \<Rightarrow> session_snapshot dispatch" where
  "requireSession se sid = (case se_session se sid of
     Some s \<Rightarrow> ret s | None \<Rightarrow> fails (''Session not found: '' @ sid))"

definition optional_session :: "service_env \<Rightarrow> string option \<Rightarrow> session_snapshot option dispatch" where
  "optional_session se sid = (case nonempty sid of
     None \<Rightarrow> ret None | Some s \<Rightarrow> bnd (requireSession se s) (\<lambda>x. ret (Some x)))"

definition new_dispatch :: "string \<Rightarrow> string option \<Rightarrow> string option \<Rightarrow> string \<Rightarrow> nat \<Rightarrow> obj \<Rightarrow> session_dispatch" where
  "new_dispatch worker callback owner prompt queuedAt reporting =
     \<lparr>sd_rowid = 0, sd_dispatchId = 0, sd_workerSessionId = worker, sd_callbackSessionId = callback,
      sd_ownerNpub = owner, sd_state = Working, sd_prompt = prompt, sd_promptQueuedAt = queuedAt,
      sd_reportingContext = reporting, sd_terminalStatus = None, sd_terminalMessage = None,
      sd_terminalMessageCreatedAt = None, sd_terminalFingerprint = None, sd_callbackPrompt = None,
      sd_discoveryStartedAt = None, sd_discoveryNextAttemptAt = None, sd_discoveryAttemptCount = 0,
      sd_discoveryLastError = None, sd_callbackAttemptCount = 0, sd_callbackNextAttemptAt = None,
      sd_callbackExpiresAt = None, sd_callbackQueuedAt = None, sd_callbackAcknowledgedAt = None,
      sd_closedAt = None, sd_lastError = None, sd_createdAt = 0, sd_updatedAt = 0\<rparr>"

definition same_owner :: "service_env \<Rightarrow> create_input \<Rightarrow> session_snapshot option \<Rightarrow> string option \<Rightarrow> unit dispatch" where
  "same_owner se inp callback owner =
     (if callback = None then ret ()
      else case nonempty (ci_callerSessionId inp) of
        None \<Rightarrow> ret ()
      | Some caller \<Rightarrow> bnd (requireSession se caller) (\<lambda>s.
          if owner = None \<or> resolveSessionOwnerNpub s \<noteq> owner
          then fails ''Caller and callback session must have the same owner'' else ret ()))"

definition worker_metadata :: "obj \<Rightarrow> string option \<Rightarrow> obj" where
  "worker_metadata ctx callback = overwrite ctx [(''role'', JStr ''dispatched-worker''),
     (''callbackSessionId'', case callback of Some s \<Rightarrow> JStr s | None \<Rightarrow> JUndef)]"

text \<open>The prompt of the worker is queued and handed over; a failure marks the dispatch as failed.\<close>

definition queue_worker_prompt ::
  "service_env \<Rightarrow> session_snapshot option \<Rightarrow> session_snapshot \<Rightarrow> session_dispatch \<Rightarrow> unit dispatch" where
  "queue_worker_prompt se callback worker r =
     handle
       (bnd (case callback of None \<Rightarrow> ret ()
             | Some c \<Rightarrow> (case se_snapshotOrigin se c (sn_id worker) of Some e \<Rightarrow> fails e | None \<Rightarrow> ret ())) (\<lambda>_.
        bnd (on_queue (addPrompt (sn_id worker) \<lparr>pi_content = sd_prompt r, pi_type = Some ''session_dispatch'',
               pi_dedupeKey = None,
               pi_payload = Some [(''dispatchId'', JStr (dispatch_id_text (sd_dispatchId r)))]\<rparr>)) (\<lambda>queued.
        if queued = None then fails ''worker prompt was empty or duplicated''
        else se_dispatchQueuedPrompt se worker)))
       (\<lambda>e. bnd (on_inbox (updateDispatch (sd_dispatchId r)
              (\<lambda>x. x\<lparr>sd_state := DispatchFailed, sd_lastError := Some (error_message e)\<rparr>))) (\<lambda>_.
            fails (''Dispatch '' @ dispatch_id_text (sd_dispatchId r) @ '' created worker '' @ sn_id worker @
              '', but its prompt could not be queued: '' @ error_message e)))"

definition create_for :: "service_env \<Rightarrow> create_input \<Rightarrow> session_snapshot option \<Rightarrow> session_dispatch dispatch" where
  "create_for se inp callback =
     (let owner = (case callback of Some c \<Rightarrow> resolveSessionOwnerNpub c | None \<Rightarrow> None);
          reporting = (case ci_reportingContext inp of Some o' \<Rightarrow> o'
            | None \<Rightarrow> (case callback of Some c \<Rightarrow> inheritReportingContext c | None \<Rightarrow> []))
      in bnd (same_owner se inp callback owner) (\<lambda>_.
         bnd (lift_error (inheritWorkerContext callback reporting (se_validate se))) (\<lambda>ctx.
         bnd (modify (se_others se 0)) (\<lambda>_.
         bnd (lift_error (se_createSession se inp owner (worker_metadata ctx (ci_callbackSessionId inp)))) (\<lambda>worker.
         if callback \<noteq> None \<and> resolveSessionOwnerNpub worker \<noteq> owner
         then fails ''Worker and callback session must have the same owner''
         else bnd (reads (\<lambda>w. q_clock (w_db w))) (\<lambda>queuedAt.
              bnd (on_inbox (createDispatch (new_dispatch (sn_id worker)
                (if ci_callbackEnabled inp then ci_callbackSessionId inp else None) owner (trim (ci_prompt inp))
                queuedAt reporting))) (\<lambda>r.
              bnd (queue_worker_prompt se callback worker r) (\<lambda>_. ret r))))))))"

definition create :: "service_env \<Rightarrow> create_input \<Rightarrow> session_dispatch dispatch" where
  "create se inp =
     (if trim (ci_prompt inp) = [] then fails ''prompt is required''
      else if ci_callbackEnabled inp \<and> nonempty (ci_callbackSessionId inp) = None
      then fails ''callbackSessionId is required when callbacks are enabled''
      else bnd (optional_session se (ci_callbackSessionId inp)) (create_for se inp))"

end
