(* ===== verification/Dispatch_Closeout.thy ===== *)
theory Dispatch_Closeout
  imports Dispatch_Service
begin

text \<open>
  The rest of the service of supervised dispatches (\<open>session-dispatch-service.ts\<close>): reading,
  acknowledging, closing and retrying a dispatch, and the check that captures the end of its worker.
  What a worker's session, its adapter and its transcript show at a check is an argument.
\<close>

section \<open>Reading and reviewing\<close>

definition assertOwner :: "service_env \<Rightarrow> session_dispatch \<Rightarrow> string option \<Rightarrow> unit dispatch" where
  "assertOwner se r caller = (case nonempty caller of
     None \<Rightarrow> ret ()
   | Some sid \<Rightarrow> bnd (requireSession se sid) (\<lambda>s.
       if resolveSessionOwnerNpub s \<noteq> sd_ownerNpub r then fails ''Dispatch belongs to another owner'' else ret ()))"

definition service_get :: "service_env \<Rightarrow> uuid \<Rightarrow> string option \<Rightarrow> session_dispatch dispatch" where
  "service_get se i caller = bnd (on_inbox (reads (getDispatch i))) (\<lambda>found. case found of
     None \<Rightarrow> fails ''Dispatch not found''
   | Some r \<Rightarrow> bnd (assertOwner se r caller) (\<lambda>_. ret r))"

definition service_list :: "service_env \<Rightarrow> string option \<Rightarrow> dispatch_state option \<Rightarrow> session_dispatch list dispatch" where
  "service_list se caller state = bnd (optional_session se caller) (\<lambda>s.
     on_inbox (reads (listDispatches None state (map_option resolveSessionOwnerNpub s))))"

definition getInbox ::
  "service_env \<Rightarrow> string \<Rightarrow> (session_dispatch list \<times> wake_row option \<times> string option) dispatch" where
  "getInbox se caller = bnd (requireSession se caller) (\<lambda>_. on_inbox (reads (inspect caller)))"

definition acknowledge :: "service_env \<Rightarrow> uuid \<Rightarrow> string \<Rightarrow> session_dispatch dispatch" where
  "acknowledge se i caller = bnd (service_get se i (Some caller)) (\<lambda>r.
     if sd_callbackSessionId r \<noteq> Some caller then fails ''Only the callback session can acknowledge this dispatch''
     else if sd_state r \<notin> {CallbackPending, CallbackDelivered, Acknowledged}
     then fails (''Cannot acknowledge dispatch in '' @ dispatch_state_text (sd_state r))
     else bnd (reads (\<lambda>w. q_clock (w_db w))) (\<lambda>clk.
       bnd (on_inbox (updateDispatch i (\<lambda>x. x\<lparr>sd_state := Acknowledged, sd_callbackExpiresAt := None,
         sd_callbackAcknowledgedAt := (case sd_callbackAcknowledgedAt r of Some t \<Rightarrow> Some t | None \<Rightarrow> Some clk)\<rparr>))) (\<lambda>updated.
       bnd (on_inbox (reconcileHandledCallbacks caller)) (\<lambda>_. ret updated))))"

definition close_dispatch :: "service_env \<Rightarrow> uuid \<Rightarrow> string \<Rightarrow> session_dispatch dispatch" where
  "close_dispatch se i caller = bnd (service_get se i (Some caller)) (\<lambda>r.
     if sd_callbackSessionId r \<noteq> Some caller then fails ''Only the callback session can close this dispatch''
     else if sd_state r \<noteq> Acknowledged \<and> sd_state r \<noteq> DispatchClosed
     then fails ''A dispatch must be acknowledged before it is closed''
     else bnd (reads (\<lambda>w. q_clock (w_db w))) (\<lambda>clk.
       bnd (on_inbox (updateDispatch i (\<lambda>x. x\<lparr>sd_state := DispatchClosed,
         sd_closedAt := (case sd_closedAt r of Some t \<Rightarrow> Some t | None \<Rightarrow> Some clk)\<rparr>))) (\<lambda>updated.
       bnd (on_inbox (reconcileHandledCallbacks caller)) (\<lambda>_. ret updated))))"

definition reset_callback :: "session_dispatch \<Rightarrow> session_dispatch" where
  "reset_callback x = x\<lparr>sd_state := CallbackPending, sd_lastError := None, sd_callbackAttemptCount := 0,
     sd_callbackNextAttemptAt := None, sd_callbackExpiresAt := None, sd_callbackQueuedAt := None,
     sd_callbackAcknowledgedAt := None, sd_closedAt := None\<rparr>"

definition retryCallback :: "service_env \<Rightarrow> uuid \<Rightarrow> string \<Rightarrow> session_dispatch dispatch" where
  "retryCallback se i caller = bnd (service_get se i (Some caller)) (\<lambda>r.
     if sd_callbackSessionId r \<noteq> Some caller then fails ''Only the callback session can retry this dispatch''
     else if nonempty (sd_terminalFingerprint r) = None then fails ''Dispatch has no terminal callback to retry''
     else bnd (on_inbox (updateDispatch i reset_callback)) (\<lambda>pending.
       bnd (se_requestNextTurn se caller) (\<lambda>_. ret pending)))"

section \<open>The end of a worker\<close>

definition pad :: "nat \<Rightarrow> nat \<Rightarrow> string" where
  "pad n k = (let s = nat_string k in replicate (n - length s) (CHR ''0'') @ s)"

text \<open>\<open>toISOString()\<close> of a time from 1970 on: the civil date of a day number.\<close>

definition toISOString :: "nat \<Rightarrow> string" where
  "toISOString ms =
     (let z = ms div 86400000 + 719468; era = z div 146097; doe = z mod 146097;
          yoe = (doe - doe div 1460 + doe div 36524 - doe div 146096) div 365;
          doy = doe - (365 * yoe + yoe div 4 - yoe div 100); mp = (5 * doy + 2) div 153;
          day = doy - (153 * mp + 2) div 5 + 1; month = (if mp < 10 then mp + 3 else mp - 9);
          year = yoe + era * 400 + (if month \<le> 2 then 1 else 0); t = ms mod 86400000
      in pad 4 year @ ''-'' @ pad 2 month @ ''-'' @ pad 2 day @ ''T'' @ pad 2 (t div 3600000) @ '':'' @
         pad 2 (t div 60000 mod 60) @ '':'' @ pad 2 (t div 1000 mod 60) @ ''.'' @ pad 3 (t mod 1000) @ ''Z'')"

definition terminal_fingerprint :: "(string \<Rightarrow> string) \<Rightarrow> terminal_status \<Rightarrow> string option \<Rightarrow> string option \<Rightarrow> string" where
  "terminal_fingerprint sha status message createdAt = sha (terminal_status_text status @ [CHR 0x00] @
     (case createdAt of Some t \<Rightarrow> t | None \<Rightarrow> []) @ [CHR 0x00] @ (case message of Some m \<Rightarrow> m | None \<Rightarrow> []))"

definition closeTerminalWorker :: "service_env \<Rightarrow> session_dispatch \<Rightarrow> unit dispatch" where
  "closeTerminalWorker se r = handle (se_closeWorker se (sd_workerSessionId r)) (\<lambda>e.
     bnd (on_inbox (updateDispatch (sd_dispatchId r)
       (\<lambda>x. x\<lparr>sd_lastError := Some (''Worker closeout failed: '' @ error_message e)\<rparr>))) (\<lambda>_. ret ()))"

text \<open>The patch of a captured end, with the callback session where there is one.\<close>

definition captured ::
  "terminal_status \<Rightarrow> string option \<Rightarrow> string option \<Rightarrow> string \<Rightarrow> nat \<Rightarrow> bool \<Rightarrow> session_dispatch \<Rightarrow> session_dispatch" where
  "captured status message createdAt fp clk callback x =
     (let y = x\<lparr>sd_terminalStatus := Some status, sd_terminalMessage := message,
                sd_terminalMessageCreatedAt := createdAt, sd_terminalFingerprint := Some fp\<rparr>
      in if callback
         then y\<lparr>sd_state := CallbackPending, sd_callbackPrompt := None, sd_callbackNextAttemptAt := None,
                sd_callbackExpiresAt := None, sd_lastError := None\<rparr>
         else y\<lparr>sd_state := DispatchClosed, sd_closedAt := Some clk\<rparr>)"

definition capture_end ::
  "service_env \<Rightarrow> session_dispatch \<Rightarrow> terminal_status \<Rightarrow> string option \<Rightarrow> string option \<Rightarrow> unit dispatch" where
  "capture_end se r status message createdAt =
     bnd (reads (\<lambda>w. terminal_fingerprint (sd_sha (w_inbox w)) status message createdAt)) (\<lambda>fp.
     if sd_terminalFingerprint r = Some fp then ret ()
     else bnd (reads (\<lambda>w. q_clock (w_db w))) (\<lambda>clk.
       bnd (on_inbox (updateDispatch (sd_dispatchId r)
              (captured status message createdAt fp clk (nonempty (sd_callbackSessionId r) \<noteq> None)))) (\<lambda>_.
       bnd (closeTerminalWorker se r) (\<lambda>_. case nonempty (sd_callbackSessionId r) of
         None \<Rightarrow> ret ()
       | Some callback \<Rightarrow> se_requestNextTurn se callback))))"

section \<open>What a check sees\<close>

record turn_message =
  tm_role :: string
  tm_content :: string
  tm_createdAt :: string

record worker_view =
  wv_session :: "session_snapshot option"
  wv_adapter :: bool
  wv_direct :: bool
  wv_discover :: "(string + bool) option"
  wv_sessionAfter :: "session_snapshot option"
  wv_fetched :: "(string option \<times> turn_message list) option"
  wv_authoritative :: "string + turn_message list"

record closeout_policy =
  cp_retryInitialMs :: "nat option"
  cp_retryMaxMs :: "nat option"
  cp_timeoutMs :: "nat option"

definition isNativeSdkTransport :: "jval \<Rightarrow> bool" where
  "isNativeSdkTransport transport = (transport = JStr ''codex-sdk'' \<or> transport = JStr ''claude-sdk'')"

definition isNativeFinalReady :: "bool \<Rightarrow> jval \<Rightarrow> string option \<Rightarrow> bool" where
  "isNativeFinalReady transcript transport status =
     (status = Some ''stable'' \<or> (transcript \<and> \<not> isNativeSdkTransport transport))"

definition find_last :: "('a \<Rightarrow> bool) \<Rightarrow> 'a list \<Rightarrow> 'a option" where
  "find_last p xs = List.find p (rev xs)"

definition findNativeTurnFinal :: "turn_message list \<Rightarrow> turn_message option" where
  "findNativeTurnFinal ms =
     (case find_last (\<lambda>m. tm_role m \<in> {''assistant'', ''agent'', ''agent-error''} \<and> trim (tm_content m) \<noteq> []) ms of
        None \<Rightarrow> None | Some m \<Rightarrow> if tm_role m = ''agent-error'' then None else Some m)"

text \<open>The messages after the last one that satisfies the predicate, none where no message does.\<close>

definition after_last :: "('a \<Rightarrow> bool) \<Rightarrow> 'a list \<Rightarrow> 'a list" where
  "after_last p xs = (if list_ex p xs then rev (takeWhile (\<lambda>x. \<not> p x) (rev xs)) else [])"

definition native_session_id :: "session_snapshot \<Rightarrow> bool" where
  "native_session_id s = truthy (field (get (sn_metadata s) ''nativeAgentSession'') ''sessionId'')"

definition policy_or :: "nat option \<Rightarrow> nat \<Rightarrow> nat" where
  "policy_or x d = (case x of Some n \<Rightarrow> n | None \<Rightarrow> d)"

definition nativeDiscoveryRetryDelayMs :: "closeout_policy \<Rightarrow> nat \<Rightarrow> nat" where
  "nativeDiscoveryRetryDelayMs cp n =
     min (policy_or (cp_retryInitialMs cp) 1000 * 2 ^ (n - 1)) (policy_or (cp_retryMaxMs cp) 30000)"

definition discovered_patch ::
  "closeout_policy \<Rightarrow> nat \<Rightarrow> nat \<Rightarrow> nat \<Rightarrow> string + bool \<Rightarrow> session_dispatch \<Rightarrow> session_dispatch" where
  "discovered_patch cp startedAt clk n outcome x =
     x\<lparr>sd_discoveryStartedAt := Some startedAt, sd_discoveryAttemptCount := n,
       sd_discoveryNextAttemptAt := (if outcome = Inr True then None else Some (clk + nativeDiscoveryRetryDelayMs cp n)),
       sd_discoveryLastError := (case outcome of Inl e \<Rightarrow> Some e
         | Inr ok \<Rightarrow> if ok then None else Some ''Codex native transcript is not available yet'')\<rparr>"

definition discoverNativeCodexSession ::
  "service_env \<Rightarrow> closeout_policy \<Rightarrow> worker_view \<Rightarrow> session_dispatch \<Rightarrow> bool dispatch" where
  "discoverNativeCodexSession se cp wv r =
     bnd (reads (\<lambda>w. q_clock (w_db w))) (\<lambda>clk.
       let startedAt = (case sd_discoveryStartedAt r of Some t \<Rightarrow> t | None \<Rightarrow> clk) in
       if int clk - int startedAt \<ge> int (policy_or (cp_timeoutMs cp) (30 * 60000))
       then bnd (capture_end se r TermFailed (Some
              ''Codex completed without a discoverable native transcript; the completion callback could not be verified.'')
              (Some (toISOString clk))) (\<lambda>_. ret False)
       else if (case sd_discoveryNextAttemptAt r of Some t \<Rightarrow> clk < t | None \<Rightarrow> False) then ret False
       else (case wv_discover wv of
         None \<Rightarrow> bnd (capture_end se r TermFailed (Some
              ''Codex native-session discovery is unavailable; the completion callback could not be verified.'')
              (Some (toISOString clk))) (\<lambda>_. ret False)
       | Some outcome \<Rightarrow>
           bnd (modify (se_others se 1)) (\<lambda>_.
           bnd (on_inbox (updateDispatch (sd_dispatchId r)
             (discovered_patch cp startedAt clk (sd_discoveryAttemptCount r + 1) outcome))) (\<lambda>_.
           ret (outcome = Inr True)))))"

text \<open>What the adapter and the transcript say about the last turn.\<close>

definition judge_turn :: "service_env \<Rightarrow> worker_view \<Rightarrow> session_snapshot \<Rightarrow> session_dispatch \<Rightarrow> unit dispatch" where
  "judge_turn se wv s r = (case wv_fetched wv of
     None \<Rightarrow> ret ()
   | Some (status, messages) \<Rightarrow>
       let transport = get (sn_metadata s) ''agentTransport'';
           nativeCodex = (sn_agent s = ''codex'' \<and> native_session_id s);
           authoritative = (if nativeCodex \<and> \<not> isNativeSdkTransport transport
             then (case wv_authoritative wv of Inl _ \<Rightarrow> [] | Inr ms \<Rightarrow> ms)
             else if wv_direct wv then messages else []);
           turn = after_last (\<lambda>m. tm_role m = ''user'' \<and> tm_content m = sd_prompt r) authoritative;
           failure = find_last (\<lambda>m. tm_role m = ''agent-error'') turn;
           ended = (if sn_status s = ''error'' then capture_end se r TermFailed None None
             else if sn_status s = ''stopped'' then capture_end se r TermStopped None None else ret ());
           failed = (case failure of
               Some e \<Rightarrow> if status = Some ''stable'' \<and> isNativeSdkTransport transport
                 then capture_end se r TermFailed (Some (tm_content e)) (Some (tm_createdAt e)) else ended
             | None \<Rightarrow> ended)
       in bnd (modify (se_others se 2)) (\<lambda>_. case findNativeTurnFinal turn of
            Some m \<Rightarrow> if isNativeFinalReady nativeCodex transport status
              then capture_end se r TermCompleted (Some (tm_content m)) (Some (tm_createdAt m)) else failed
          | None \<Rightarrow> failed))"

definition captureIfTerminal ::
  "service_env \<Rightarrow> closeout_policy \<Rightarrow> worker_view \<Rightarrow> session_dispatch \<Rightarrow> unit dispatch" where
  "captureIfTerminal se cp wv r = (case wv_session wv of
     None \<Rightarrow> ret ()
   | Some s \<Rightarrow>
       if \<not> wv_adapter wv
       then (if sn_status s = ''error'' then capture_end se r TermFailed None None
             else if sn_status s = ''stopped'' then capture_end se r TermStopped None None else ret ())
       else if sn_agent s = ''codex'' \<and> \<not> wv_direct wv \<and> \<not> native_session_id s
       then bnd (discoverNativeCodexSession se cp wv r) (\<lambda>discovered.
              if \<not> discovered then ret ()
              else (case wv_sessionAfter wv of
                None \<Rightarrow> ret ()
              | Some s' \<Rightarrow> if native_session_id s' then judge_turn se wv s' r else ret ()))
       else judge_turn se wv s r)"

fun check_each :: "service_env \<Rightarrow> closeout_policy \<Rightarrow> (uuid \<Rightarrow> worker_view) \<Rightarrow> session_dispatch list \<Rightarrow> unit dispatch" where
  "check_each se cp views [] = ret ()"
| "check_each se cp views (r # rs) =
     bnd (if sd_state r = Working then captureIfTerminal se cp (views (sd_dispatchId r)) r else ret ()) (\<lambda>_.
     check_each se cp views rs)"

text \<open>The records are the ones listed when the check begins.\<close>

definition checkRunning :: "service_env \<Rightarrow> closeout_policy \<Rightarrow> (uuid \<Rightarrow> worker_view) \<Rightarrow> unit dispatch" where
  "checkRunning se cp views =
     bnd (reads w_checking) (\<lambda>checking.
     if checking then ret ()
     else bnd (modify (\<lambda>w. w\<lparr>w_checking := True\<rparr>)) (\<lambda>_.
       finally_do (bnd (on_inbox (reads (listDispatches None None None))) (check_each se cp views))
         (modify (\<lambda>w. w\<lparr>w_checking := False\<rparr>))))"

section \<open>The closing of a worker\<close>

text \<open>\<open>closeDispatchedWorker\<close>: the status of the session, how it is stopped and archived.\<close>

definition closeDispatchedWorker ::
  "(string \<Rightarrow> string option) \<Rightarrow> (string \<Rightarrow> unit dispatch) \<Rightarrow> (string \<Rightarrow> unit dispatch) \<Rightarrow> string \<Rightarrow> unit dispatch" where
  "closeDispatchedWorker status stopSession scheduleArchive sid = (case status sid of
     None \<Rightarrow> ret ()
   | Some st \<Rightarrow> bnd (if st = ''running'' \<or> st = ''starting'' then stopSession sid else ret ()) (\<lambda>_. scheduleArchive sid))"

end
