(* ===== verification/Inbox_Laws.thy ===== *)
theory Inbox_Laws
  imports Dispatch_Inbox
begin

text \<open>
  What the operations of the inbox coordinator do to the wake-up of a session: each is a function of
  the wake-up, the fingerprint of the inbox, the generation of the session and the time, and leaves
  the dispatches and the wake-ups of other sessions alone.
\<close>

section \<open>Saving a wake-up\<close>

definition set_wake :: "wake_row \<Rightarrow> dispatch_db \<Rightarrow> dispatch_db" where
  "set_wake k db = db\<lparr>sd_wakes := put_wake k (sd_wakes db)\<rparr>"

lemma set_wake_simps [simp]:
  "sd_rows (set_wake k db) = sd_rows db" "sd_cutoffs (set_wake k db) = sd_cutoffs db" "sd_nextId (set_wake k db) = sd_nextId db"
  "sd_clock (set_wake k db) = sd_clock db" "sd_sha (set_wake k db) = sd_sha db"
  by (simp_all add: set_wake_def)

lemma row_key: "row key x rs = Some r \<Longrightarrow> key r = x \<and> r \<in> set rs"
  by (induction rs) (auto simp: row_Cons row_Nil split: if_splits)

lemma row_put_other: "x \<noteq> wk_callbackSessionId k \<Longrightarrow>
    row wk_callbackSessionId x (put_wake k ws) = row wk_callbackSessionId x ws"
proof -
  assume x: "x \<noteq> wk_callbackSessionId k"
  have "row wk_callbackSessionId x (map (\<lambda>w. if wk_callbackSessionId w = wk_callbackSessionId k
      then k\<lparr>wk_createdAt := wk_createdAt w\<rparr> else w) ws) = row wk_callbackSessionId x ws"
    using x by (induction ws) (auto simp: row_Cons row_Nil)
  with x show ?thesis by (auto simp: put_wake_def row_append row_Cons row_Nil split: option.split)
qed

lemma row_put_same:
  "row wk_callbackSessionId (wk_callbackSessionId k) (put_wake k ws) =
     Some (case row wk_callbackSessionId (wk_callbackSessionId k) ws of None \<Rightarrow> k | Some w \<Rightarrow> k\<lparr>wk_createdAt := wk_createdAt w\<rparr>)"
proof (cases "row wk_callbackSessionId (wk_callbackSessionId k) ws")
  case None
  then show ?thesis by (simp add: put_wake_def row_append row_Cons)
next
  case (Some w)
  then have "row wk_callbackSessionId (wk_callbackSessionId k) (map (\<lambda>w. if wk_callbackSessionId w = wk_callbackSessionId k
      then k\<lparr>wk_createdAt := wk_createdAt w\<rparr> else w) ws) = Some (k\<lparr>wk_createdAt := wk_createdAt w\<rparr>)"
    by (induction ws) (auto simp: row_Cons row_Nil split: if_splits)
  with Some show ?thesis by (simp add: put_wake_def)
qed

lemma getWake_key: "getWake sid db = Some w \<Longrightarrow> wk_callbackSessionId w = sid"
  unfolding getWake_def by (drule row_key) simp

text \<open>A wake-up that is there is replaced, and keeps the time it was created at.\<close>

lemma getWake_set:
  assumes "getWake (wk_callbackSessionId k) db = Some w" "wk_createdAt k = wk_createdAt w"
  shows "getWake sid (set_wake k db) = (if sid = wk_callbackSessionId k then Some k else getWake sid db)"
  using assms row_put_same [of k "sd_wakes db"] row_put_other [of sid k "sd_wakes db"]
  by (simp add: getWake_def set_wake_def)

lemma getWake_new:
  "getWake (wk_callbackSessionId k) db = None \<Longrightarrow>
     getWake sid (set_wake k db) = (if sid = wk_callbackSessionId k then Some k else getWake sid db)"
  using row_put_same [of k "sd_wakes db"] row_put_other [of sid k "sd_wakes db"]
  by (simp add: getWake_def set_wake_def)

lemma resave_run: "resave k db = (Inr k, set_wake k db)"
  by (simp add: resave_def saveWake_def Let_def set_wake_def)

lemma fingerprint_set [simp]: "getInboxFingerprint sid (set_wake k db) = getInboxFingerprint sid db"
  by (simp add: getInboxFingerprint_def listUnresolvedCallbacks_def cong: list.case_cong)

lemma generation_set [simp]: "generation sid (set_wake k db) = generation sid db"
  by (simp add: generation_def)

section \<open>The steps of a wake-up\<close>

text \<open>After a failed attempt.\<close>

definition failed_wake :: "wake_policy \<Rightarrow> string \<Rightarrow> nat \<Rightarrow> wake_row \<Rightarrow> wake_row" where
  "failed_wake p e clk w = (if wk_attemptCount w \<ge> pol_maxAttempts p
     then w\<lparr>wk_state := WakeBlocked, wk_leaseExpiresAt := None, wk_nextRetryAt := None,
            wk_lastError := Some e, wk_updatedAt := clk\<rparr>
     else (restarted_wake w)\<lparr>wk_nextRetryAt := Some (clk + retryDelayMs p (wk_attemptCount w)),
            wk_lastError := Some e, wk_updatedAt := clk\<rparr>)"

lemma recordFailedAttempt_run: "recordFailedAttempt p w e clk db = (Inr (failed_wake p e clk w), set_wake (failed_wake p e clk w) db)"
  by (simp add: recordFailedAttempt_def failed_wake_def resave_run)

text \<open>After the turn of a submitted wake-up.\<close>

definition judged_wake :: "wake_policy \<Rightarrow> string \<Rightarrow> nat \<Rightarrow> wake_row \<Rightarrow> wake_row" where
  "judged_wake p fp clk w = (if wk_inboxFingerprint w \<noteq> fp
     then (restarted_wake w)\<lparr>wk_inboxFingerprint := fp, wk_attemptCount := 0, wk_nextRetryAt := None,
            wk_lastError := None, wk_updatedAt := clk\<rparr>
     else if wk_attemptCount w \<ge> pol_maxAttempts p
     then w\<lparr>wk_state := WakeBlocked, wk_leaseExpiresAt := None, wk_nextRetryAt := None,
            wk_lastError := Some (''Inbox remained unchanged after '' @ nat_string (wk_attemptCount w) @ '' wake turns''),
            wk_updatedAt := clk\<rparr>
     else (restarted_wake w)\<lparr>wk_nextRetryAt := Some (clk + retryDelayMs p (wk_attemptCount w)),
            wk_lastError := Some ''Previous wake turn made no inbox progress'', wk_updatedAt := clk\<rparr>)"

lemma completeSubmittedTurn_run: "completeSubmittedTurn p w fp clk db = (Inr (judged_wake p fp clk w), set_wake (judged_wake p fp clk w) db)"
  by (simp add: completeSubmittedTurn_def judged_wake_def resave_run)

lemma step_keys [simp]:
  "wk_callbackSessionId (failed_wake p e clk w) = wk_callbackSessionId w" "wk_createdAt (failed_wake p e clk w) = wk_createdAt w"
  "wk_callbackSessionId (judged_wake p fp clk w) = wk_callbackSessionId w" "wk_createdAt (judged_wake p fp clk w) = wk_createdAt w"
  "wk_callbackSessionId (restarted_wake w) = wk_callbackSessionId w" "wk_createdAt (restarted_wake w) = wk_createdAt w"
  by (simp_all add: failed_wake_def judged_wake_def restarted_wake_def)

text \<open>What is left of the wake-up before a claim; \<open>None\<close> while a turn is active.\<close>

definition settled :: "wake_policy \<Rightarrow> string \<Rightarrow> nat \<Rightarrow> wake_row option \<Rightarrow> wake_row option option" where
  "settled p fp clk wake = (case wake of None \<Rightarrow> Some None
   | Some w \<Rightarrow>
       if wk_state w = WakeClaimed \<and> leaseExpired w clk
       then Some (Some (failed_wake p ''Wake claim lease expired before submission'' clk w))
       else if wk_state w = WakeSubmitted
       then (if wk_busyObservedAt w = None \<and> \<not> leaseExpired w clk then None else Some (Some (judged_wake p fp clk w)))
       else Some (Some w))"

definition store_wake :: "wake_row option \<Rightarrow> dispatch_db \<Rightarrow> dispatch_db" where
  "store_wake wake db = (case wake of Some k \<Rightarrow> set_wake k db | None \<Rightarrow> db)"

text \<open>A wake-up written again as it is.\<close>

lemma only_key:
  assumes "distinct (map key xs)" "x \<in> set xs" "y \<in> set xs" "key x = key y"
  shows "x = y"
  using assms unfolding distinct_map by (auto dest: inj_onD)

lemma put_same:
  assumes d: "distinct (map wk_callbackSessionId ws)" and r: "row wk_callbackSessionId sid ws = Some w"
  shows "put_wake w ws = ws"
proof -
  have w: "wk_callbackSessionId w = sid" "w \<in> set ws" using row_key [OF r] by simp_all
  have "(if wk_callbackSessionId x = wk_callbackSessionId w then w\<lparr>wk_createdAt := wk_createdAt x\<rparr> else x) = x"
    if "x \<in> set ws" for x
  proof (cases "wk_callbackSessionId x = wk_callbackSessionId w")
    case True
    with only_key [OF d that w(2)] have "x = w" by simp
    then show ?thesis by simp
  qed simp
  then have "map (\<lambda>x. if wk_callbackSessionId x = wk_callbackSessionId w then w\<lparr>wk_createdAt := wk_createdAt x\<rparr> else x) ws = ws"
    by (rule map_idI)
  with r w(1) show ?thesis by (simp add: put_wake_def)
qed

lemma settle_run:
  assumes "distinct (map wk_callbackSessionId (sd_wakes db))"
  shows "settle_wake p sid fp clk db = (Inr (settled p fp clk (getWake sid db)),
    case settled p fp clk (getWake sid db) of Some wake \<Rightarrow> store_wake wake db | None \<Rightarrow> db)"
proof (cases "getWake sid db")
  case None
  then show ?thesis by (simp add: settle_wake_def settled_def bnd_run store_wake_def)
next
  case (Some w)
  then have same: "set_wake w db = db"
    using put_same [OF assms] by (simp add: set_wake_def getWake_def)
  consider (expired) "wk_state w = WakeClaimed" "leaseExpired w clk"
    | (active) "wk_state w = WakeSubmitted" "wk_busyObservedAt w = None" "\<not> leaseExpired w clk"
    | (turned) "wk_state w = WakeSubmitted" "\<not> (wk_busyObservedAt w = None \<and> \<not> leaseExpired w clk)"
    | (other) "\<not> (wk_state w = WakeClaimed \<and> leaseExpired w clk)" "wk_state w \<noteq> WakeSubmitted"
    by metis
  then show ?thesis
  proof cases
    case expired
    with Some show ?thesis
      by (simp add: settle_wake_def settled_def bnd_run store_wake_def recordFailedAttempt_run)
  next
    case active
    with Some show ?thesis by (simp add: settle_wake_def settled_def bnd_run)
  next
    case turned
    with Some show ?thesis
      by (simp add: settle_wake_def settled_def bnd_run store_wake_def completeSubmittedTurn_run)
  next
    case other
    with Some same show ?thesis by (auto simp: settle_wake_def settled_def bnd_run store_wake_def)
  qed
qed

text \<open>The claim of a wake-up: a fresh one for another inbox, then pending and due.\<close>

definition fresh_wake :: "string \<Rightarrow> string \<Rightarrow> nat \<Rightarrow> wake_row option \<Rightarrow> wake_row" where
  "fresh_wake sid fp clk wake = (case wake of
     Some w \<Rightarrow> if wk_inboxFingerprint w = fp then w
       else (new_wake sid fp)\<lparr>wk_createdAt := wk_createdAt w, wk_updatedAt := clk\<rparr>
   | None \<Rightarrow> (new_wake sid fp)\<lparr>wk_createdAt := clk, wk_updatedAt := clk\<rparr>)"

definition due :: "nat \<Rightarrow> wake_row \<Rightarrow> bool" where
  "due clk w = (wk_state w = WakePending \<and> (case wk_nextRetryAt w of Some t \<Rightarrow> t \<le> clk | None \<Rightarrow> True))"

lemma fresh_wake_key:
  "getWake sid db = wake \<Longrightarrow> wk_callbackSessionId (fresh_wake sid fp clk wake) = sid \<and> wk_inboxFingerprint (fresh_wake sid fp clk wake) = fp"
  by (cases wake) (auto simp: fresh_wake_def new_wake_def dest: getWake_key)

lemma claim_keys [simp]: "wk_callbackSessionId (set_wake_claimed clk lease k) = wk_callbackSessionId k"
  "wk_createdAt (set_wake_claimed clk lease k) = wk_createdAt k"
  "wk_attemptCount (set_wake_claimed clk lease k) = wk_attemptCount k + 1"
  by (simp_all add: set_wake_claimed_def)

lemma save_new:
  "saveWake None (Some clk) (new_wake sid fp) db =
    (Inr ((new_wake sid fp)\<lparr>wk_createdAt := (case getWake sid db of Some w \<Rightarrow> wk_createdAt w | None \<Rightarrow> clk), wk_updatedAt := clk\<rparr>),
     set_wake ((new_wake sid fp)\<lparr>wk_createdAt := (case getWake sid db of Some w \<Rightarrow> wk_createdAt w | None \<Rightarrow> clk), wk_updatedAt := clk\<rparr>) db)"
  by (simp add: saveWake_def Let_def set_wake_def new_wake_def)

lemma set_wake_claimed_map:
  assumes "distinct (map wk_callbackSessionId ws)" "row wk_callbackSessionId sid ws = Some k"
    "wk_inboxFingerprint k = fp" "wk_state k = WakePending"
  shows "map (\<lambda>x. if wk_callbackSessionId x = sid \<and> wk_inboxFingerprint x = fp \<and> wk_state x = WakePending
      then set_wake_claimed clk lease x else x) ws = put_wake (set_wake_claimed clk lease k) ws"
proof -
  have k: "wk_callbackSessionId k = sid" "k \<in> set ws" using row_key [OF assms(2)] by simp_all
  have only: "x = k" if "x \<in> set ws" "wk_callbackSessionId x = sid" for x
    using only_key [OF assms(1) that(1) k(2)] that k by simp
  have "(set_wake_claimed clk lease k)\<lparr>wk_createdAt := wk_createdAt k\<rparr> = set_wake_claimed clk lease k"
    by (simp add: set_wake_claimed_def)
  then have "map (\<lambda>x. if wk_callbackSessionId x = sid \<and> wk_inboxFingerprint x = fp \<and> wk_state x = WakePending
      then set_wake_claimed clk lease x else x) ws =
      map (\<lambda>x. if wk_callbackSessionId x = sid then (set_wake_claimed clk lease k)\<lparr>wk_createdAt := wk_createdAt x\<rparr> else x) ws"
    using only assms(3,4) by (intro map_cong) auto
  with assms(2) k(1) show ?thesis by (simp add: put_wake_def)
qed

lemma claimWake_run:
  fixes db sid fp clk
  defines "k \<equiv> fresh_wake sid fp clk (getWake sid db)"
  assumes "distinct (map wk_callbackSessionId (sd_wakes db))"
  shows "claimWake sid fp clk lease db = (if due clk k
    then (Inr (Some (set_wake_claimed clk lease k)), set_wake (set_wake_claimed clk lease k) (set_wake k db))
    else (Inr None, set_wake k db))"
proof -
  have key: "wk_callbackSessionId k = sid" "wk_inboxFingerprint k = fp" using fresh_wake_key [OF refl] by (simp_all add: k_def)
  let ?prep = "(if (case getWake sid db of None \<Rightarrow> True | Some w \<Rightarrow> wk_inboxFingerprint w \<noteq> fp)
          then bnd (saveWake None (Some clk) (new_wake sid fp)) (\<lambda>_. ret ()) else ret ()) :: unit dispatch_op"
  have same: "getWake sid db = Some w \<Longrightarrow> set_wake w db = db" for w
    using put_same [OF assms(2)] by (simp add: set_wake_def getWake_def)
  have prep: "?prep db = (Inr (), set_wake k db)"
    using same by (cases "getWake sid db") (auto simp: bnd_run save_new k_def fresh_wake_def)
  have got: "getWake sid (set_wake k db) = Some k"
    using row_put_same [of k "sd_wakes db"] key
    by (auto simp: getWake_def set_wake_def k_def fresh_wake_def new_wake_def split: option.splits)
  have dist: "distinct (map wk_callbackSessionId (sd_wakes (set_wake k db)))"
  proof -
    have "map wk_callbackSessionId (map (\<lambda>w. if wk_callbackSessionId w = wk_callbackSessionId k then k\<lparr>wk_createdAt := wk_createdAt w\<rparr> else w) ws) =
        map wk_callbackSessionId ws" for ws by simp
    moreover have "row wk_callbackSessionId x ws = None \<Longrightarrow> x \<notin> wk_callbackSessionId ` set ws" for x and ws :: "wake_row list"
      by (induction ws) (auto simp: row_Cons split: if_splits)
    ultimately show ?thesis using assms(2) by (simp add: set_wake_def put_wake_def comp_def del: map_map)
  qed
  have upd: "(set_wake k db)\<lparr>sd_wakes := map (\<lambda>x. if wk_callbackSessionId x = sid \<and> wk_inboxFingerprint x = fp \<and> wk_state x = WakePending
      then set_wake_claimed clk lease x else x) (sd_wakes (set_wake k db))\<rparr> = set_wake (set_wake_claimed clk lease k) (set_wake k db)"
    if "wk_state k = WakePending"
    using set_wake_claimed_map [OF dist _ key(2) that, of sid clk lease] got
    by (simp add: getWake_def) (simp add: set_wake_def)
  have got': "getWake sid (set_wake (set_wake_claimed clk lease k) (set_wake k db)) = Some (set_wake_claimed clk lease k)"
    using getWake_set [of "set_wake_claimed clk lease k" "set_wake k db" k sid] got key by simp
  show ?thesis
    unfolding claimWake_def
    apply (simp only: bnd_run [of "reads _"] reads_run prod.case sum.case bnd_run [of ?prep] prep got option.case)
    using upd got' by (auto simp: due_def bnd_run split: option.splits)
qed

end
