(* ===== verification/Inbox_Invariant.thy ===== *)
theory Inbox_Invariant
  imports Inbox_Laws
begin

text \<open>
  The invariant of the wake-ups: one for each session, with at most the allowed number of attempts,
  fewer while it is pending, at least one while it is claimed, submitted or blocked; a lease and the
  time of a retry only where they belong. Every operation keeps it. An operation of the coordinator
  moreover leaves the attempts at an inbox as they are, unless it is a claim, which adds one.
\<close>

section \<open>The invariant\<close>

definition wake_ok :: "wake_policy \<Rightarrow> wake_row \<Rightarrow> bool" where
  "wake_ok p w \<longleftrightarrow> wk_attemptCount w \<le> pol_maxAttempts p \<and>
     (wk_state w = WakePending \<longrightarrow> wk_attemptCount w < pol_maxAttempts p) \<and>
     (wk_state w \<in> {WakeClaimed, WakeSubmitted, WakeBlocked} \<longrightarrow> 0 < wk_attemptCount w) \<and>
     (wk_leaseExpiresAt w \<noteq> None \<longrightarrow> wk_state w \<in> {WakeClaimed, WakeSubmitted}) \<and>
     (wk_nextRetryAt w \<noteq> None \<longrightarrow> wk_state w = WakePending)"

definition wakes_ok :: "wake_policy \<Rightarrow> dispatch_db \<Rightarrow> bool" where
  "wakes_ok p db \<longleftrightarrow> distinct (map wk_callbackSessionId (sd_wakes db)) \<and> (\<forall>w \<in> set (sd_wakes db). wake_ok p w)"

lemma wakes_okD: "wakes_ok p db \<Longrightarrow> getWake sid db = Some w \<Longrightarrow> wake_ok p w"
  by (auto simp: wakes_ok_def getWake_def dest: row_key)

lemma wakes_distinct: "wakes_ok p db \<Longrightarrow> distinct (map wk_callbackSessionId (sd_wakes db))"
  by (simp add: wakes_ok_def)

lemma wake_ok_created [simp]: "wake_ok p (k\<lparr>wk_createdAt := t\<rparr>) = wake_ok p k"
  by (simp add: wake_ok_def)

lemma row_None: "row key x rs = None \<longleftrightarrow> x \<notin> key ` set rs"
  by (induction rs) (auto simp: row_Cons row_Nil)

lemma wakes_ok_set: "wakes_ok p db \<Longrightarrow> wake_ok p k \<Longrightarrow> wakes_ok p (set_wake k db)"
proof -
  assume ok: "wakes_ok p db" and k: "wake_ok p k"
  have "map wk_callbackSessionId (map (\<lambda>w. if wk_callbackSessionId w = wk_callbackSessionId k
      then k\<lparr>wk_createdAt := wk_createdAt w\<rparr> else w) ws) = map wk_callbackSessionId ws" for ws
    by simp
  with ok k show ?thesis
    by (auto simp: wakes_ok_def set_wake_def put_wake_def row_None comp_def simp del: map_map)
qed

text \<open>The attempts made at an inbox, as its fingerprint has it.\<close>

definition tries :: "string \<Rightarrow> wake_row option \<Rightarrow> nat" where
  "tries fp wake = (case wake of Some w \<Rightarrow> if wk_inboxFingerprint w = fp then wk_attemptCount w else 0 | None \<Rightarrow> 0)"

lemma tries_set:
  "tries fp (getWake sid (set_wake k db)) = (if sid = wk_callbackSessionId k then tries fp (Some k) else tries fp (getWake sid db))"
  using row_put_same [of k "sd_wakes db"] row_put_other [of sid k "sd_wakes db"]
  by (auto simp: getWake_def set_wake_def tries_def split: option.splits)

section \<open>The steps\<close>

lemma ok_failed: "wake_ok p w \<Longrightarrow> 0 < wk_attemptCount w \<Longrightarrow> wake_ok p (failed_wake p e clk w)"
  by (auto simp: wake_ok_def failed_wake_def restarted_wake_def)

lemma ok_judged: "wake_ok p w \<Longrightarrow> wk_state w = WakeSubmitted \<Longrightarrow> 0 < pol_maxAttempts p \<Longrightarrow> wake_ok p (judged_wake p fp clk w)"
  by (auto simp: wake_ok_def judged_wake_def restarted_wake_def)

lemma ok_fresh: "(case wake of Some w \<Rightarrow> wake_ok p w | None \<Rightarrow> True) \<Longrightarrow> 0 < pol_maxAttempts p \<Longrightarrow> wake_ok p (fresh_wake sid fp clk wake)"
  by (auto simp: fresh_wake_def new_wake_def wake_ok_def split: option.splits)

lemma ok_claimed: "wake_ok p w \<Longrightarrow> wk_state w = WakePending \<Longrightarrow> wake_ok p (set_wake_claimed clk lease w)"
  by (auto simp: wake_ok_def set_wake_claimed_def)

lemma tries_failed: "tries fp (Some (failed_wake p e clk w)) = tries fp (Some w)"
  by (simp add: tries_def failed_wake_def restarted_wake_def)

lemma tries_judged: "tries fp (Some (judged_wake p fp clk w)) = tries fp (Some w)"
  by (simp add: tries_def judged_wake_def restarted_wake_def)

lemma tries_fresh: "tries fp (Some (fresh_wake sid fp clk wake)) = tries fp wake"
  by (simp add: tries_def fresh_wake_def new_wake_def split: option.split)

text \<open>What the coordinator changes: wake-ups, and the attempts at the inbox of a session not.\<close>

definition steady :: "wake_policy \<Rightarrow> string \<Rightarrow> string option \<Rightarrow> dispatch_db \<Rightarrow> dispatch_db \<Rightarrow> bool" where
  "steady p sid fp db db' \<longleftrightarrow> sd_rows db' = sd_rows db \<and> sd_cutoffs db' = sd_cutoffs db \<and> sd_sha db' = sd_sha db \<and>
     sd_nextId db' = sd_nextId db \<and> (wakes_ok p db \<longrightarrow> wakes_ok p db') \<and>
     (case fp of Some f \<Rightarrow> getInboxFingerprint sid db = Some f \<longrightarrow> tries f (getWake sid db') = tries f (getWake sid db) | None \<Rightarrow> True)"

lemma fingerprint_rows: "sd_rows db' = sd_rows db \<Longrightarrow> sd_sha db' = sd_sha db \<Longrightarrow> getInboxFingerprint sid db' = getInboxFingerprint sid db"
  by (simp add: getInboxFingerprint_def listUnresolvedCallbacks_def cong: list.case_cong)

interpretation steadily: progress_order "steady p sid fp"
proof
  show "steady p sid fp db db" for db by (simp add: steady_def split: option.split)
  show "steady p sid fp a c" if "steady p sid fp a b" "steady p sid fp b c" for a b c
    using that fingerprint_rows [of b a sid] by (auto simp: steady_def split: option.splits)
qed

lemma steady_set:
  assumes "wakes_ok p db \<Longrightarrow> wake_ok p k"
    and "\<And>f. wk_callbackSessionId k = sid \<Longrightarrow> fp = Some f \<Longrightarrow> getInboxFingerprint sid db = Some f \<Longrightarrow>
      tries f (Some k) = tries f (getWake sid db)"
  shows "steady p sid fp db (set_wake k db)"
  using assms by (auto simp: steady_def tries_set wakes_ok_set split: option.split)

text \<open>A wake-up that is there, with other marks.\<close>

lemma steady_change:
  assumes "getWake s db = Some w" and "wakes_ok p db \<Longrightarrow> wake_ok p w \<Longrightarrow> wake_ok p k"
    and "wk_callbackSessionId k = wk_callbackSessionId w" "wk_inboxFingerprint k = wk_inboxFingerprint w" "wk_attemptCount k = wk_attemptCount w"
  shows "steady p sid fp db (set_wake k db)"
proof (rule steady_set)
  show "wake_ok p k" if "wakes_ok p db" using assms(2) that wakes_okD [OF that assms(1)] by blast
  show "tries f (Some k) = tries f (getWake sid db)" if "wk_callbackSessionId k = sid" for f
    using assms that getWake_key [OF assms(1)] by (simp add: tries_def)
qed

lemma steady_busy: "keeps (steady p sid fp) (noteSessionBusy s)"
proof -
  have "steady p sid fp db (snd (noteSessionBusy s db))" for db
  proof (cases "getWake s db")
    case None
    then show ?thesis by (simp add: noteSessionBusy_def bnd_run steadily.R_refl)
  next
    case (Some w)
    then show ?thesis
      by (auto simp: noteSessionBusy_def bnd_run resave_run steadily.R_refl wake_ok_def intro!: steady_change)
  qed
  then show ?thesis by (simp add: keeps_def)
qed

lemma steady_reconcile: "0 < pol_maxAttempts p \<Longrightarrow> keeps (steady p sid fp) (reconcileHandledCallbacks s)"
proof -
  assume max: "0 < pol_maxAttempts p"
  have "steady p sid fp db (snd (reconcileHandledCallbacks s db))" for db
  proof (cases "getWake s db")
    case None
    then show ?thesis by (simp add: reconcileHandledCallbacks_def bnd_run steadily.R_refl)
  next
    case (Some w)
    note key = getWake_key [OF Some]
    show ?thesis
    proof (cases "getInboxFingerprint s db = Some (wk_inboxFingerprint w)")
      case True
      with Some show ?thesis by (simp add: reconcileHandledCallbacks_def bnd_run steadily.R_refl)
    next
      case False
      let ?k = "(restarted_wake w)\<lparr>
           wk_inboxFingerprint := (case getInboxFingerprint s db of Some f \<Rightarrow> f | None \<Rightarrow> wk_inboxFingerprint w),
           wk_state := (if getInboxFingerprint s db \<noteq> None then WakePending else WakeResolved), wk_attemptCount := 0,
           wk_nextRetryAt := None, wk_lastError := None, wk_updatedAt := sd_clock db\<rparr>"
      have run: "snd (reconcileHandledCallbacks s db) = set_wake ?k db"
        using Some False by (simp add: reconcileHandledCallbacks_def bnd_run resave_run)
      show ?thesis
        unfolding run
      proof (rule steady_set)
        show "wake_ok p ?k" using max by (simp add: wake_ok_def restarted_wake_def)
        show "tries f (Some ?k) = tries f (getWake sid db)"
          if "wk_callbackSessionId ?k = sid" "getInboxFingerprint sid db = Some f" for f
          using that Some False key by (auto simp: tries_def)
      qed
    qed
  qed
  then show ?thesis by (simp add: keeps_def)
qed

lemma steady_validate: "0 < pol_maxAttempts p \<Longrightarrow> keeps (steady p sid fp) (validateClaim c)"
  unfolding validateClaim_def by (intro steadily.keeps_intros steady_reconcile)

text \<open>A claim that is valid stands for a claimed wake-up.\<close>

lemma valid_claim:
  assumes "validateClaim c db = (Inr True, db')"
  obtains w where "getWake (wc_callbackSessionId c) db' = Some w" "wk_state w = WakeClaimed"
    "wk_inboxFingerprint w = wc_inboxFingerprint c" "wk_attemptCount w = wc_attemptCount c" "\<not> leaseExpired w (sd_clock db')"
  using assms by (auto simp: validateClaim_def bnd_run split: if_splits prod.splits sum.splits option.splits)

lemma validate_returns: "\<exists>b db'. validateClaim c db = (Inr b, db')"
proof -
  have "\<exists>db'. reconcileHandledCallbacks s db = (Inr (), db')" for s
    by (auto simp: reconcileHandledCallbacks_def bnd_run resave_run split: option.split)
  then obtain db' where "reconcileHandledCallbacks (wc_callbackSessionId c) db = (Inr (), db')" by blast
  then show ?thesis by (auto simp: validateClaim_def bnd_run)
qed

lemma steady_sending:
  assumes max: "0 < pol_maxAttempts p"
  shows "keeps (steady p sid fp) (markDeliveryUncertain c)"
  unfolding keeps_def
proof
  fix db
  obtain b db' where v: "validateClaim c db = (Inr b, db')" using validate_returns by blast
  then have st: "steady p sid fp db db'" using steady_validate [OF max, of sid fp c] by (metis keeps_def snd_conv)
  show "steady p sid fp db (snd (markDeliveryUncertain c db))"
  proof (cases b)
    case False
    with v st show ?thesis by (simp add: markDeliveryUncertain_def bnd_run)
  next
    case True
    obtain w where w: "getWake (wc_callbackSessionId c) db' = Some w" "wk_state w = WakeClaimed"
      using valid_claim v True by metis
    have "steady p sid fp db' (snd (markDeliveryUncertain c db))"
      using v w True
      by (auto simp: markDeliveryUncertain_def bnd_run resave_run wake_ok_def intro!: steady_change)
    with st show ?thesis by (rule steadily.R_trans)
  qed
qed

lemma steady_on_claim:
  assumes "\<And>w db. getWake (wc_callbackSessionId c) db = Some w \<Longrightarrow> wk_state w \<in> set states \<Longrightarrow> steady p sid fp db (snd (f w db))"
  shows "keeps (steady p sid fp) (on_claim c states f)"
  using assms by (auto simp: keeps_def on_claim_def bnd_run steadily.R_refl split: option.split)

lemma steady_release: "keeps (steady p sid fp) (releaseRejectedDelivery c)"
  unfolding releaseRejectedDelivery_def
  by (intro steady_on_claim) (auto simp: bnd_run resave_run wake_ok_def intro!: steady_change)

lemma steady_submitted: "keeps (steady p sid fp) (markSubmitted c)"
  unfolding markSubmitted_def
  by (intro steady_on_claim) (auto simp: bnd_run resave_run wake_ok_def intro!: steady_change)

lemma steady_failed: "keeps (steady p sid fp) (markSubmissionFailed p c e)"
  unfolding markSubmissionFailed_def
proof (intro steady_on_claim)
  fix w db assume w: "getWake (wc_callbackSessionId c) db = Some w" "wk_state w \<in> set [WakeClaimed]"
  have "steady p sid fp db (set_wake (failed_wake p e (sd_clock db) w) db)"
  proof (rule steady_set)
    show "wake_ok p (failed_wake p e (sd_clock db) w)" if "wakes_ok p db"
      using wakes_okD [OF that w(1)] w(2) by (intro ok_failed) (auto simp: wake_ok_def)
    show "tries f (Some (failed_wake p e (sd_clock db) w)) = tries f (getWake sid db)"
      if "wk_callbackSessionId (failed_wake p e (sd_clock db) w) = sid" for f
      using that w(1) getWake_key [OF w(1)] by (simp add: tries_failed)
  qed
  then show "steady p sid fp db (snd (bnd (reads sd_clock) (\<lambda>clk. bnd (recordFailedAttempt p w e clk) (\<lambda>_. ret ())) db))"
    by (simp add: bnd_run recordFailedAttempt_run)
qed

section \<open>A claim\<close>

lemma steady_settled:
  assumes ok: "wakes_ok p db" and max: "0 < pol_maxAttempts p" and s: "settled p f clk (getWake s db) = Some wake"
    and f: "getInboxFingerprint s db = Some f"
  shows "steady p sid fp db (store_wake wake db)" "(case wake of Some w \<Rightarrow> wake_ok p w | None \<Rightarrow> True)"
    "tries f wake = tries f (getWake s db)" "(case wake of Some w \<Rightarrow> wk_callbackSessionId w = s | None \<Rightarrow> getWake s db = None)"
    "getWake s (store_wake wake db) = wake"
proof -
  have all: "steady p sid fp db (store_wake wake db) \<and> (case wake of Some w \<Rightarrow> wake_ok p w | None \<Rightarrow> True) \<and>
      tries f wake = tries f (getWake s db) \<and> (case wake of Some w \<Rightarrow> wk_callbackSessionId w = s | None \<Rightarrow> getWake s db = None) \<and>
      getWake s (store_wake wake db) = wake"
  proof (cases "getWake s db")
    case None
    with s show ?thesis by (simp add: settled_def store_wake_def steadily.R_refl)
  next
    case (Some w)
    note key = getWake_key [OF Some] and w = wakes_okD [OF ok Some]
    consider (failed) "wake = Some (failed_wake p ''Wake claim lease expired before submission'' clk w)" "wk_state w = WakeClaimed"
      | (judged) "wake = Some (judged_wake p f clk w)" "wk_state w = WakeSubmitted" | (same) "wake = Some w"
      using s Some by (auto simp: settled_def split: if_splits)
    then show ?thesis
    proof cases
      case failed
      have "wake_ok p (failed_wake p ''Wake claim lease expired before submission'' clk w)"
        using w failed(2) by (intro ok_failed) (auto simp: wake_ok_def)
      with failed key Some show ?thesis
        by (auto simp: store_wake_def tries_failed getWake_set intro!: steady_set)
    next
      case judged
      have "wake_ok p (judged_wake p f clk w)" using w judged(2) max by (rule ok_judged)
      moreover have "steady p sid fp db (set_wake (judged_wake p f clk w) db)"
        using calculation Some key f by (intro steady_set) (auto simp: tries_judged)
      ultimately show ?thesis
        using judged key Some by (simp add: store_wake_def tries_judged getWake_set)
    next
      case same
      have "set_wake w db = db" using put_same [OF wakes_distinct [OF ok]] Some by (simp add: set_wake_def getWake_def)
      with same Some w key show ?thesis by (simp add: store_wake_def steadily.R_refl)
    qed
  qed
  show "steady p sid fp db (store_wake wake db)" "(case wake of Some w \<Rightarrow> wake_ok p w | None \<Rightarrow> True)"
    "tries f wake = tries f (getWake s db)" "(case wake of Some w \<Rightarrow> wk_callbackSessionId w = s | None \<Rightarrow> getWake s db = None)"
    "getWake s (store_wake wake db) = wake"
    using all by blast+
qed

text \<open>The whole of a claim, as a function of the wake-up.\<close>

lemma claim_run_inbox:
  assumes ok: "wakes_ok p db" and max: "0 < pol_maxAttempts p" and f: "getInboxFingerprint s db = Some f"
  shows "claimForStableSession p s db = (case settled p f (sd_clock db) (getWake s db) of
     None \<Rightarrow> (Inr None, db)
   | Some wake \<Rightarrow> if \<not> may_claim f (sd_clock db) wake then (Inr None, store_wake wake db)
       else let k = fresh_wake s f (sd_clock db) wake; db' = set_wake k (store_wake wake db);
                k' = set_wake_claimed (sd_clock db) (sd_clock db + pol_leaseMs p) k
            in if due (sd_clock db) k
               then (Inr (Some \<lparr>wc_generation = generation s db, wc_callbackSessionId = s, wc_inboxFingerprint = f,
                        wc_attemptCount = wk_attemptCount k + 1\<rparr>), set_wake k' db')
               else (Inr None, db'))"
proof -
  let ?clk = "sd_clock db"
  note settle = settle_run [OF wakes_distinct [OF ok], of p s f ?clk]
  show ?thesis
  proof (cases "settled p f ?clk (getWake s db)")
    case None
    with f settle show ?thesis by (simp add: claimForStableSession_def bnd_run)
  next
    case (Some wake)
    note st = steady_settled [OF ok max Some f]
    have ok': "wakes_ok p (store_wake wake db)" using st(1) ok by (simp add: steady_def)
    have g: "generation x (store_wake wake db) = generation x db" for x
      by (simp add: store_wake_def split: option.split)
    note claim = claimWake_run [OF wakes_distinct [OF ok'], of s f ?clk "?clk + pol_leaseMs p", unfolded st(5)]
    show ?thesis
    proof (cases "may_claim f ?clk wake")
      case False
      with f settle Some show ?thesis by (simp add: claimForStableSession_def bnd_run)
    next
      case True
      show ?thesis
      proof (cases "due ?clk (fresh_wake s f ?clk wake)")
        case False
        with True f settle Some claim show ?thesis by (simp add: claimForStableSession_def bnd_run Let_def)
      next
        case due: True
        with True f settle Some claim g show ?thesis by (simp add: claimForStableSession_def bnd_run Let_def)
      qed
    qed
  qed
qed

lemma steady_resolve: "0 < pol_maxAttempts p \<Longrightarrow> keeps (steady p sid fp) (resolve_idle s clk)"
proof -
  assume max: "0 < pol_maxAttempts p"
  have "steady p sid fp db (snd (resolve_idle s clk db))" for db
  proof (cases "getWake s db")
    case None
    then show ?thesis by (simp add: resolve_idle_def bnd_run steadily.R_refl)
  next
    case (Some w)
    then show ?thesis
      by (auto simp: resolve_idle_def bnd_run resave_run steadily.R_refl wake_ok_def restarted_wake_def intro!: steady_change)
  qed
  then show ?thesis by (simp add: keeps_def)
qed

text \<open>A claim is refused and changes no count, or it is the next attempt at the inbox.\<close>

lemma claim_counts:
  assumes ok: "wakes_ok p db" and max: "0 < pol_maxAttempts p"
  obtains (refused) db' where "claimForStableSession p s db = (Inr None, db')" "\<And>sid fp. steady p sid fp db db'"
  | (granted) f db' where "getInboxFingerprint s db = Some f"
      "claimForStableSession p s db = (Inr (Some \<lparr>wc_generation = generation s db, wc_callbackSessionId = s,
         wc_inboxFingerprint = f, wc_attemptCount = tries f (getWake s db) + 1\<rparr>), db')"
      "tries f (getWake s db) < pol_maxAttempts p" "tries f (getWake s db') = tries f (getWake s db) + 1"
      "\<And>sid fp. sid \<noteq> s \<Longrightarrow> steady p sid fp db db'" "steady p s None db db'"
proof (cases "getInboxFingerprint s db")
  case None
  have run: "resolve_idle s (sd_clock db) db = (Inr (), snd (resolve_idle s (sd_clock db) db))"
    by (simp add: resolve_idle_def bnd_run resave_run split: option.split)
  have "claimForStableSession p s db = (Inr None, snd (resolve_idle s (sd_clock db) db))"
    unfolding claimForStableSession_def by (simp add: None bnd_run) (subst run, simp)
  then show thesis using steady_resolve [OF max] by (intro refused) (auto simp: keeps_def)
next
  case (Some f)
  let ?clk = "sd_clock db"
  note run = claim_run_inbox [OF ok max Some]
  show thesis
  proof (cases "settled p f ?clk (getWake s db)")
    case None
    with run show thesis by (intro refused [of db]) (simp_all add: steadily.R_refl)
  next
    case wake: (Some wake)
    note st = steady_settled [OF ok max wake Some]
    let ?k = "fresh_wake s f ?clk wake" and ?db = "store_wake wake db"
    have key: "wk_callbackSessionId ?k = s" "wk_inboxFingerprint ?k = f"
      using fresh_wake_key [OF st(5), of f ?clk] by simp_all
    have okk: "wake_ok p ?k" by (rule ok_fresh [OF st(2) max])
    have fp: "getInboxFingerprint s ?db = Some f" using Some by (simp add: store_wake_def split: option.split)
    have fresh: "steady p sid g ?db (set_wake ?k ?db)" for sid g
      using okk key fp st(5) by (intro steady_set) (auto simp: tries_fresh)
    have up: "steady p sid g db (set_wake ?k ?db)" for sid g using st(1) fresh by (rule steadily.R_trans)
    consider (no) "\<not> may_claim f ?clk wake" | (early) "may_claim f ?clk wake" "\<not> due ?clk ?k"
      | (yes) "may_claim f ?clk wake" "due ?clk ?k" by blast
    then show thesis
    proof cases
      case no
      with run wake st(1) show thesis by (intro refused [of ?db]) simp_all
    next
      case early
      with run wake up show thesis by (intro refused [of "set_wake ?k ?db"]) (simp_all add: Let_def)
    next
      case yes
      let ?k' = "set_wake_claimed ?clk (?clk + pol_leaseMs p) ?k" and ?d = "set_wake ?k ?db"
      have pend: "wk_state ?k = WakePending" using yes(2) by (simp add: due_def)
      have t: "wk_attemptCount ?k = tries f (getWake s db)"
        using tries_fresh [of f s ?clk wake] st(3) key(2) by (simp add: tries_def)
      have okk': "wake_ok p ?k'" by (rule ok_claimed [OF okk pend])
      have other: "steady p sid g ?d (set_wake ?k' ?d)" if "sid \<noteq> s" for sid g
        using okk' key(1) that by (intro steady_set) auto
      have none: "steady p s None ?d (set_wake ?k' ?d)"
        using okk' by (intro steady_set) auto
      show thesis
      proof (rule granted [OF Some])
        show "claimForStableSession p s db = (Inr (Some \<lparr>wc_generation = generation s db, wc_callbackSessionId = s,
         wc_inboxFingerprint = f, wc_attemptCount = tries f (getWake s db) + 1\<rparr>), set_wake ?k' ?d)"
          using run wake yes t by (simp add: Let_def)
        show "tries f (getWake s db) < pol_maxAttempts p" using okk pend t by (simp add: wake_ok_def)
        show "tries f (getWake s (set_wake ?k' ?d)) = tries f (getWake s db) + 1"
          using key t by (simp add: tries_set) (simp add: tries_def set_wake_claimed_def)
        show "steady p sid g db (set_wake ?k' ?d)" if "sid \<noteq> s" for sid g
          using up other [OF that] by (rule steadily.R_trans)
        show "steady p s None db (set_wake ?k' ?d)" using up none by (rule steadily.R_trans)
      qed
    qed
  qed
qed

end
