(* ===== verification/Service_Rely.thy ===== *)
theory Service_Rely
  imports Dispatch_Closeout Inbox_Invariant
begin

text \<open>
  What the service of supervised dispatches may rely on and what it guarantees. A dispatch keeps its
  identity, it never goes back to running, and its result is recorded once: while a check of the
  running workers is in progress nobody else records a result. The relation is reflexive and
  transitive, and every operation of the service, of the coordinator and of the store keeps it.
\<close>

section \<open>The life of a dispatch\<close>

definition dispatch_ok :: "session_dispatch \<Rightarrow> bool" where
  "dispatch_ok r \<longleftrightarrow> sd_callbackSessionId r \<noteq> Some [] \<and> sd_state r \<noteq> Creating \<and>
     (sd_state r = Working \<longrightarrow> sd_terminalFingerprint r = None) \<and>
     (sd_state r \<notin> {Working, DispatchFailed} \<longrightarrow> sd_terminalFingerprint r \<noteq> None \<and> sd_terminalStatus r \<noteq> None) \<and>
     (sd_state r \<in> {CallbackPending, CallbackDelivered, Acknowledged, DispatchSuperseded} \<longrightarrow> sd_callbackSessionId r \<noteq> None) \<and>
     (sd_state r = Acknowledged \<longrightarrow> sd_callbackAcknowledgedAt r \<noteq> None) \<and>
     (sd_state r = DispatchClosed \<longrightarrow> sd_closedAt r \<noteq> None \<and>
        (sd_callbackSessionId r \<noteq> None \<longrightarrow> sd_callbackAcknowledgedAt r \<noteq> None)) \<and>
     (sd_terminalFingerprint r \<noteq> None \<longrightarrow> sd_terminalStatus r \<noteq> None)"

lemma ok_result: "dispatch_ok r \<Longrightarrow> sd_state r \<noteq> Working \<Longrightarrow> sd_state r \<noteq> DispatchFailed \<Longrightarrow> sd_terminalFingerprint r \<noteq> None"
  by (simp add: dispatch_ok_def)

definition dispatches_ok :: "dispatch_db \<Rightarrow> bool" where
  "dispatches_ok db \<longleftrightarrow> distinct (map sd_dispatchId (sd_rows db)) \<and>
     (\<forall>r \<in> set (sd_rows db). dispatch_ok r \<and> sd_dispatchId r < sd_nextId db)"

definition evolves :: "session_dispatch \<Rightarrow> session_dispatch \<Rightarrow> bool" where
  "evolves r r' \<longleftrightarrow> sd_dispatchId r' = sd_dispatchId r \<and> sd_ownerNpub r' = sd_ownerNpub r \<and> sd_prompt r' = sd_prompt r \<and>
     sd_reportingContext r' = sd_reportingContext r \<and> sd_createdAt r' = sd_createdAt r \<and>
     (sd_callbackSessionId r' = None \<longleftrightarrow> sd_callbackSessionId r = None) \<and>
     (sd_state r' = Working \<longrightarrow> sd_state r = Working) \<and>
     (sd_terminalFingerprint r \<noteq> None \<longrightarrow> sd_terminalFingerprint r' = sd_terminalFingerprint r \<and>
        sd_terminalStatus r' = sd_terminalStatus r \<and> sd_terminalMessage r' = sd_terminalMessage r \<and>
        sd_terminalMessageCreatedAt r' = sd_terminalMessageCreatedAt r)"

lemma evolves_refl: "evolves r r"
  by (simp add: evolves_def)

lemma evolves_trans: "evolves r s \<Longrightarrow> evolves s t \<Longrightarrow> evolves r t"
  by (auto simp: evolves_def)

text \<open>Nobody has recorded a result where there was none.\<close>

definition uncaptured :: "dispatch_db \<Rightarrow> dispatch_db \<Rightarrow> bool" where
  "uncaptured db db' \<longleftrightarrow> (\<forall>r \<in> set (sd_rows db). \<forall>r' \<in> set (sd_rows db').
     sd_dispatchId r' = sd_dispatchId r \<and> sd_terminalFingerprint r = None \<longrightarrow> sd_terminalFingerprint r' = None)"

definition inbox_ok :: "wake_policy \<Rightarrow> dispatch_db \<Rightarrow> bool" where
  "inbox_ok p db \<longleftrightarrow> dispatches_ok db \<and> wakes_ok p db"

definition advances :: "wake_policy \<Rightarrow> world \<Rightarrow> world \<Rightarrow> bool" where
  "advances p w w' \<longleftrightarrow> (inbox_ok p (w_inbox w) \<longrightarrow> inbox_ok p (w_inbox w') \<and>
     (\<forall>r \<in> set (sd_rows (w_inbox w)). \<exists>r' \<in> set (sd_rows (w_inbox w')). evolves r r') \<and>
     (w_checking w \<longrightarrow> w_checking w' \<and> uncaptured (w_inbox w) (w_inbox w')))"

lemma one_dispatch: "dispatches_ok db \<Longrightarrow> r \<in> set (sd_rows db) \<Longrightarrow> s \<in> set (sd_rows db) \<Longrightarrow> sd_dispatchId r = sd_dispatchId s \<Longrightarrow> r = s"
  unfolding dispatches_ok_def using only_key by metis

interpretation advance: progress_order "advances p"
proof
  show "advances p w w" for w
    unfolding advances_def using evolves_refl one_dispatch [of "w_inbox w"]
    by (auto simp: uncaptured_def inbox_ok_def)
  fix u v w assume uv: "advances p u v" and vw: "advances p v w"
  show "advances p u w"
    unfolding advances_def
  proof (intro impI)
    assume ok: "inbox_ok p (w_inbox u)"
    then have okv: "inbox_ok p (w_inbox v)" using uv by (simp add: advances_def)
    have 1: "\<exists>s \<in> set (sd_rows (w_inbox v)). evolves r s" if "r \<in> set (sd_rows (w_inbox u))" for r
      using uv ok that by (auto simp: advances_def)
    have 2: "\<exists>s \<in> set (sd_rows (w_inbox w)). evolves r s" if "r \<in> set (sd_rows (w_inbox v))" for r
      using vw okv that by (auto simp: advances_def)
    have "\<exists>t \<in> set (sd_rows (w_inbox w)). evolves r t" if "r \<in> set (sd_rows (w_inbox u))" for r
      using 1 [OF that] 2 evolves_trans by meson
    moreover have "uncaptured (w_inbox u) (w_inbox w) \<and> w_checking w" if "w_checking u"
    proof -
      have v: "w_checking v" "uncaptured (w_inbox u) (w_inbox v)" using uv ok that by (simp_all add: advances_def)
      then have "w_checking w" "uncaptured (w_inbox v) (w_inbox w)" using vw okv by (simp_all add: advances_def)
      with v 1 show ?thesis unfolding uncaptured_def evolves_def by metis
    qed
    ultimately show "inbox_ok p (w_inbox w) \<and> (\<forall>r \<in> set (sd_rows (w_inbox u)). \<exists>r' \<in> set (sd_rows (w_inbox w)). evolves r r') \<and>
        (w_checking u \<longrightarrow> w_checking w \<and> uncaptured (w_inbox u) (w_inbox w))"
      using vw okv by (simp add: advances_def)
  qed
qed

section \<open>Steps of the parts\<close>

lemma advances_frame: "w_inbox w' = w_inbox w \<Longrightarrow> w_checking w' = w_checking w \<Longrightarrow> advances p w w'"
  using advance.R_refl [of p w] by (simp add: advances_def)

lemma adv_queue: "keeps (advances p) (on_queue m)"
  unfolding keeps_def on_queue_def by (auto split: prod.split sum.split intro!: advances_frame)

text \<open>A change of the dispatches row by row, with the wake-ups in order.\<close>

lemma advances_rows:
  assumes rows: "sd_rows (w_inbox w') = map f (sd_rows (w_inbox w))" and n: "sd_nextId (w_inbox w') = sd_nextId (w_inbox w)"
    and f: "\<And>r. r \<in> set (sd_rows (w_inbox w)) \<Longrightarrow> dispatch_ok r \<Longrightarrow> dispatch_ok (f r) \<and> evolves r (f r)"
    and wakes: "wakes_ok p (w_inbox w) \<Longrightarrow> wakes_ok p (w_inbox w')" and c: "w_checking w' = w_checking w"
    and quiet: "\<And>r. r \<in> set (sd_rows (w_inbox w)) \<Longrightarrow> dispatch_ok r \<Longrightarrow> w_checking w \<Longrightarrow> sd_terminalFingerprint r = None \<Longrightarrow>
      sd_terminalFingerprint (f r) = None"
  shows "advances p w w'"
  unfolding advances_def
proof (intro impI)
  let ?rs = "sd_rows (w_inbox w)"
  assume ok: "inbox_ok p (w_inbox w)"
  have r: "dispatch_ok (f r) \<and> evolves r (f r)" if "r \<in> set ?rs" for r
    using ok that f by (auto simp: inbox_ok_def dispatches_ok_def)
  then have "map sd_dispatchId (map f ?rs) = map sd_dispatchId ?rs" by (auto simp: evolves_def)
  then have "dispatches_ok (w_inbox w')"
    using ok r rows n by (auto simp: inbox_ok_def dispatches_ok_def evolves_def simp del: map_map)
  moreover have "uncaptured (w_inbox w) (w_inbox w')" if "w_checking w"
    unfolding uncaptured_def rows
  proof (intro ballI impI)
    fix s s' assume s: "s \<in> set ?rs" "s' \<in> set (map f ?rs)" "sd_dispatchId s' = sd_dispatchId s \<and> sd_terminalFingerprint s = None"
    then obtain x where x: "x \<in> set ?rs" "s' = f x" by auto
    have "sd_dispatchId x = sd_dispatchId s" using r [OF x(1)] x(2) s(3) by (simp add: evolves_def)
    then have "x = s" using one_dispatch [of "w_inbox w"] ok x(1) s(1) by (simp add: inbox_ok_def)
    then show "sd_terminalFingerprint s' = None" using quiet [OF x(1)] s x that ok by (auto simp: inbox_ok_def dispatches_ok_def)
  qed
  ultimately show "inbox_ok p (w_inbox w') \<and> (\<forall>r \<in> set ?rs. \<exists>r' \<in> set (sd_rows (w_inbox w')). evolves r r') \<and>
     (w_checking w \<longrightarrow> w_checking w' \<and> uncaptured (w_inbox w) (w_inbox w'))"
    using ok r rows wakes c by (auto simp: inbox_ok_def)
qed

lemma wakes_clock [simp]: "wakes_ok p (db\<lparr>sd_clock := t\<rparr>) = wakes_ok p db"
  by (simp add: wakes_ok_def)

lemma on_inbox_snd:
  "snd (on_inbox m w) = w\<lparr>w_inbox := snd (m ((w_inbox w)\<lparr>sd_clock := q_clock (w_db w)\<rparr>))\<rparr>"
  by (simp add: on_inbox_def split: prod.split sum.split)

lemma adv_steady: "keeps (steady p [] None) m \<Longrightarrow> keeps (advances p) (on_inbox m)"
  unfolding keeps_def
proof
  fix w :: world
  assume "\<forall>db. steady p [] None db (snd (m db))"
  then have st: "steady p [] None ((w_inbox w)\<lparr>sd_clock := q_clock (w_db w)\<rparr>) (snd (m ((w_inbox w)\<lparr>sd_clock := q_clock (w_db w)\<rparr>)))"
    by blast
  show "advances p w (snd (on_inbox m w))"
    unfolding on_inbox_snd
    by (rule advances_rows [where f = id]) (use st in \<open>simp_all add: steady_def evolves_refl\<close>)
qed

lemma adv_reads: "keeps (advances p) (on_inbox (reads f))"
  by (rule adv_steady) (rule steadily.keeps_reads)

text \<open>An update of one dispatch.\<close>

lemma written_simps [simp]:
  "sd_dispatchId (written n r) = sd_dispatchId r" "sd_ownerNpub (written n r) = sd_ownerNpub r"
  "sd_prompt (written n r) = sd_prompt r" "sd_reportingContext (written n r) = sd_reportingContext r"
  "sd_createdAt (written n r) = sd_createdAt r" "sd_callbackSessionId (written n r) = sd_callbackSessionId r"
  "sd_state (written n r) = sd_state n" "sd_terminalFingerprint (written n r) = sd_terminalFingerprint n"
  "sd_terminalStatus (written n r) = sd_terminalStatus n" "sd_terminalMessage (written n r) = sd_terminalMessage n"
  "sd_terminalMessageCreatedAt (written n r) = sd_terminalMessageCreatedAt n"
  "sd_callbackAcknowledgedAt (written n r) = sd_callbackAcknowledgedAt n" "sd_closedAt (written n r) = sd_closedAt n"
  "sd_lastError (written n r) = sd_lastError n" "sd_callbackPrompt (written n r) = sd_callbackPrompt n"
  "sd_workerSessionId (written n r) = sd_workerSessionId r"
  by (simp_all add: written_def)

lemma getDispatch_in: "getDispatch i db = Some r \<Longrightarrow> r \<in> set (sd_rows db) \<and> sd_dispatchId r = i"
  unfolding getDispatch_def by (drule row_key) simp

text \<open>What a patch may do to a dispatch, with the check in progress or not.\<close>

definition proper :: "bool \<Rightarrow> session_dispatch \<Rightarrow> session_dispatch \<Rightarrow> bool" where
  "proper checking r n \<longleftrightarrow> (dispatch_ok r \<longrightarrow> dispatch_ok (written n r) \<and> evolves r (written n r) \<and>
     (checking \<and> sd_terminalFingerprint r = None \<longrightarrow> sd_terminalFingerprint n = None))"

lemma advances_update:
  assumes "\<And>r t. r \<in> set (sd_rows (w_inbox w)) \<Longrightarrow> sd_dispatchId r = i \<Longrightarrow>
    proper (w_checking w) r ((patch r)\<lparr>sd_dispatchId := i, sd_updatedAt := t\<rparr>)"
  shows "advances p w (snd (on_inbox (updateDispatch i patch) w))"
proof (cases "getDispatch i (w_inbox w)")
  case None
  then show ?thesis
    unfolding on_inbox_snd updateDispatch_def
    by (intro advances_rows [where f = id]) (simp_all add: getDispatch_def evolves_refl)
next
  case (Some r)
  let ?n = "(patch r)\<lparr>sd_dispatchId := i, sd_updatedAt := q_clock (w_db w)\<rparr>"
  have r: "r \<in> set (sd_rows (w_inbox w))" "sd_dispatchId r = i" using getDispatch_in [OF Some] by simp_all
  have prop': "proper (w_checking w) r ?n" by (rule assms [OF r])
  show ?thesis
  proof (cases "dispatches_ok (w_inbox w)")
    case False
    then show ?thesis by (simp add: advances_def inbox_ok_def)
  next
    case True
    have only: "x = r" if "x \<in> set (sd_rows (w_inbox w))" "sd_dispatchId x = i" for x
      by (rule one_dispatch [OF True that(1) r(1)]) (use that r in simp)
    have run: "snd (on_inbox (updateDispatch i patch) w) =
        w\<lparr>w_inbox := update_dispatches (\<lambda>r. sd_dispatchId r = i) (written ?n) ((w_inbox w)\<lparr>sd_clock := q_clock (w_db w)\<rparr>)\<rparr>"
      using Some by (simp add: on_inbox_snd updateDispatch_def getDispatch_def Let_def)
    show ?thesis
      unfolding run
      by (rule advances_rows [where f = "\<lambda>r. if sd_dispatchId r = i then written ?n r else r"])
        (use only prop' in \<open>auto simp: update_dispatches_def wakes_ok_def proper_def evolves_refl\<close>)
  qed
qed

end
