(* ===== verification/Delivery_Order.thy ===== *)
theory Delivery_Order
  imports Prompt_Dispatch
begin

text \<open>
  A delivery among other handlers, for any reflexive and transitive relation between worlds: when the
  others keep it, and so do the checks before the send, the marks around it and the agent's taking of
  the message, the whole delivery keeps it.
\<close>

locale delivery_order = progress_order R for R :: "world \<Rightarrow> world \<Rightarrow> bool" +
  fixes mark :: "world \<Rightarrow> world"
  assumes marks: "R w (mark w)"
begin

lemma keeps_pause: "(\<And>k v. R v (su_others su k v)) \<Longrightarrow> keeps R (modify (su_others su k))"
  by (rule keeps_modify)

lemma transmits:
  assumes "\<And>k v. R v (su_others su k v)"
  shows "R w (transmit su mark w)"
  unfolding transmit_def using assms R_trans [OF marks assms] by simp

lemma sends:
  assumes b: "keeps R b" and s: "keeps R s" and x: "\<And>w. R w (k w)"
  shows "R w (snd (case b w of (Inl e, w) \<Rightarrow> (r1 e, w)
      | (Inr current, w) \<Rightarrow> if \<not> current then (r2, w)
          else (case s w of (Inl e, w) \<Rightarrow> (r3 e, w) | (Inr _, w) \<Rightarrow> (r4, k w))))"
  using b s x R_trans unfolding keeps_def
  by (auto split: prod.split sum.split) (metis snd_conv)+

lemma keeps_message:
  assumes others: "\<And>k v. R v (su_others su k v)" and b: "keeps R before" and s: "keeps R sending"
  shows "keeps R (deliverSessionAgentMessage su raw mark before sending)"
proof -
  have once: "keeps R (submitOnce su mark before sending)"
    unfolding keeps_def
  proof
    fix w :: world
    show "R w (snd (submitOnce su mark before sending w))"
    proof (cases "su_url su")
      case None
      show ?thesis
        unfolding submitOnce_def None option.case by (rule sends [OF b s transmits [OF others]])
    next
      case (Some e)
      have "R w (snd (before w))" using b unfolding keeps_def by blast
      with Some show ?thesis unfolding submitOnce_def by (auto split: prod.split sum.split)
    qed
  qed
  have direct: "keeps R (\<lambda>w. case before w of
           (Inl e, w) \<Rightarrow> (Inr (adapter_failure False (error_message e)), w)
         | (Inr current, w) \<Rightarrow>
             if \<not> current then (Inr not_current, w)
             else (case sending w of
               (Inl e, w) \<Rightarrow> (Inr (adapter_failure False (error_message e)), w)
             | (Inr _, w) \<Rightarrow> (Inr x, transmit su mark w)))" for x
    unfolding keeps_def by (intro allI sends [OF b s transmits [OF others]])
  show ?thesis
    unfolding deliverSessionAgentMessage_def deliverDirectly_def
    by (cases "su_readiness su"; simp only: sum.case)
      (rule keeps_pause [OF others] keeps_intros once direct)+
qed

lemma keeps_accepted:
  assumes others: "\<And>k v. R v (su_others su k v)" and b: "keeps R before" and s: "keeps R sending"
    and r: "\<And>x. keeps R (rejected x)" and a: "keeps R accepted"
  shows "keeps R (deliverAcceptedPrompt su ses mark before sending rejected accepted)"
  unfolding deliverAcceptedPrompt_def managed_only_def
  by (rule keeps_pause [OF others] keeps_intros keeps_message [OF others b s] r a)+

end

end
