(* ===== verification/Service_Safety.thy ===== *)
theory Service_Safety
  imports Service_Rely Delivery_Order
begin

text \<open>
  Every operation of the service of supervised dispatches, of the dispatch engine and of the store of
  dispatches keeps \<open>advances\<close> when the handlers it runs beside do.
\<close>

section \<open>The dispatch engine\<close>

interpretation prompting: delivery_order "advances p" "takes_prompt i" for p i
  by unfold_locales (simp add: advances_frame takes_prompt_def)

interpretation calling: delivery_order "advances p" "takes_wake c" for p c
  by unfold_locales (simp add: advances_frame takes_wake_def)

lemma adv_frame: "(\<And>w. w_inbox (f w) = w_inbox w \<and> w_checking (f w) = w_checking w) \<Longrightarrow> keeps (advances p) (modify f)"
  by (intro advance.keeps_modify advances_frame) auto

lemma adv_ready: "(\<And>k v. advances p v (su_others su k v)) \<Longrightarrow> keeps (advances p) (ensureSessionReadyForPromptDispatch su ses)"
  unfolding ensureSessionReadyForPromptDispatch_def
  by (cases "su_ready su"; simp only: sum.case) (rule prompting.keeps_pause advance.keeps_intros | assumption | rule adv_frame, simp)+

lemma adv_accept: "keeps (advances p) (accept_claim sid i t)"
  unfolding accept_claim_def by (rule advance.keeps_intros adv_queue | rule adv_frame, simp)+

lemma adv_deliver: "(\<And>k v. advances p v (su_others su k v)) \<Longrightarrow> keeps (advances p) (deliver_claim su ses q)"
  unfolding deliver_claim_def
  by (rule prompting.keeps_accepted advance.keeps_intros adv_queue adv_accept | assumption
      | rule adv_frame, simp add: clear_cooldown_def)+

lemma adv_failed_dispatch: "keeps (advances p) (failed_dispatch sid q e)"
  unfolding failed_dispatch_def Let_def by (rule advance.keeps_intros adv_queue)+

lemma adv_dispatch:
  assumes "\<And>k v. advances p v (su_others su k v)"
  shows "keeps (advances p) (dispatchQueuedPromptWithClaim su approved ses user)"
  unfolding dispatchQueuedPromptWithClaim_def managed_only_def
  by (rule advance.keeps_intros adv_queue adv_ready [OF assms] adv_deliver [OF assms] adv_failed_dispatch)+

lemma adv_dispatchNext:
  assumes "\<And>k v. advances p v (su_others su k v)"
  shows "keeps (advances p) (dispatchNextQueuedPromptForSession su approved ses user)"
  unfolding dispatchNextQueuedPromptForSession_def
  by (rule advance.keeps_intros adv_dispatch [OF assms] | rule adv_frame, simp)+

section \<open>The coordinator\<close>

lemma steady_claim: "0 < pol_maxAttempts p \<Longrightarrow> wakes_ok p db \<Longrightarrow> steady p [] None db (snd (claimForStableSession p s db))"
  by (cases rule: claim_counts [of p db s]) (auto simp: steady_def)

lemma adv_claim:
  assumes max: "0 < pol_maxAttempts p"
  shows "keeps (advances p) (on_inbox (claimForStableSession p s))"
  unfolding keeps_def
proof
  fix w :: world
  let ?db = "(w_inbox w)\<lparr>sd_clock := q_clock (w_db w)\<rparr>"
  show "advances p w (snd (on_inbox (claimForStableSession p s) w))"
  proof (cases "wakes_ok p (w_inbox w)")
    case False
    then show ?thesis by (simp add: advances_def inbox_ok_def)
  next
    case True
    then have st: "steady p [] None ?db (snd (claimForStableSession p s ?db))" by (intro steady_claim [OF max]) simp
    show ?thesis
      unfolding on_inbox_snd
      by (rule advances_rows [where f = id]) (use st True in \<open>simp_all add: steady_def evolves_refl\<close>)
  qed
qed

lemmas adv_coordinator =
  steady_busy [THEN adv_steady] steady_release [THEN adv_steady] steady_submitted [THEN adv_steady] steady_failed [THEN adv_steady]

lemmas adv_coordinator_max =
  steady_reconcile [THEN adv_steady] steady_validate [THEN adv_steady] steady_sending [THEN adv_steady]

lemma adv_wake:
  assumes others: "\<And>k v. advances p v (su_others su k v)" and max: "0 < pol_maxAttempts p"
  shows "keeps (advances p) (dispatchInboxWake p su ses c)"
  unfolding dispatchInboxWake_def deliver_wake_def managed_only_def
  by (rule calling.keeps_accepted [OF others] adv_ready [OF others] advance.keeps_intros adv_coordinator adv_coordinator_max [OF max]
      | rule adv_frame, simp add: clear_cooldown_def)+

lemma adv_auto:
  assumes others: "\<And>k v. advances p v (su_others su k v)" and max: "0 < pol_maxAttempts p"
  shows "keeps (advances p) (maybeAutoDispatchQueuedPrompt p su approved session)"
proof (cases session)
  case None
  then show ?thesis by (simp add: maybeAutoDispatchQueuedPrompt_def advance.keeps_ret del: ret_run)
next
  case (Some ses)
  have mark: "keeps (advances p) (modify (markQueueDispatchCooldown (si_id ses) n) :: unit dispatch)"
    "keeps (advances p) (modify (clear_cooldown (si_id ses)) :: unit dispatch)"
    "keeps (advances p) (modify (night_watch ses) :: unit dispatch)" for n
    by (rule adv_frame, simp add: markQueueDispatchCooldown_def clear_cooldown_def night_watch_def)+
  have att: "keeps (advances p) (wake_attempt p su ses cbs)" for cbs
    unfolding wake_attempt_def
    by (rule advance.keeps_intros adv_coordinator adv_claim [OF max] adv_wake [OF assms] mark)+
  have failed: "keeps (advances p) (auto_failed ses e)" for e
    unfolding auto_failed_def by (cases e) (simp_all add: mark)
  have attempt: "keeps (advances p) (auto_attempt p su approved ses npub count cbs)" for npub count cbs
    unfolding auto_attempt_def Let_def
    by (rule prompting.keeps_pause [OF others] advance.keeps_intros mark adv_dispatch [OF others] adv_coordinator att)+
  have "keeps (advances p) (finally_do (handle (auto_attempt p su approved ses npub count cbs) (auto_failed ses))
                  (modify (\<lambda>w. w\<lparr>w_inflight := w_inflight w - {si_id ses}\<rparr>)))" for npub count cbs
    by (rule advance.keeps_intros attempt failed | rule adv_frame, simp)+
  then have "advances p v (snd (finally_do (handle (auto_attempt p su approved ses npub count cbs) (auto_failed ses))
                  (modify (\<lambda>w. w\<lparr>w_inflight := w_inflight w - {si_id ses}\<rparr>)) (v\<lparr>w_inflight := x\<rparr>)))" for npub count cbs v x
    unfolding keeps_def using advance.R_trans advances_frame [of "v\<lparr>w_inflight := x\<rparr>" v p] by fastforce
  moreover have "advances p w (night_watch ses w)" for w by (rule advances_frame) (simp_all add: night_watch_def)
  moreover have "advances p w (snd (on_inbox (noteSessionBusy (si_id ses)) w))" for w using adv_coordinator(1) unfolding keeps_def by blast
  ultimately show ?thesis
    unfolding keeps_def maybeAutoDispatchQueuedPrompt_def Some Let_def
    by (auto simp: advance.R_refl split: option.split)
qed

section \<open>The store\<close>

lemma adv_update:
  "(\<And>b r t. proper b r ((patch r)\<lparr>sd_dispatchId := i, sd_updatedAt := t\<rparr>)) \<Longrightarrow> keeps (advances p) (on_inbox (updateDispatch i patch))"
  unfolding keeps_def by (intro allI advances_update) blast

lemma proper_error: "proper b r (r\<lparr>sd_lastError := x, sd_dispatchId := i, sd_updatedAt := t\<rparr>)"
  by (auto simp: proper_def dispatch_ok_def evolves_def)

lemma proper_failed: "proper b r (r\<lparr>sd_state := DispatchFailed, sd_lastError := x, sd_dispatchId := i, sd_updatedAt := t\<rparr>)"
  by (auto simp: proper_def dispatch_ok_def evolves_def)

lemma proper_discovered: "proper b r ((discovered_patch cp s clk n outcome r)\<lparr>sd_dispatchId := i, sd_updatedAt := t\<rparr>)"
  by (auto simp: proper_def dispatch_ok_def evolves_def discovered_patch_def)

text \<open>A new dispatch.\<close>

lemma advances_create:
  assumes r: "dispatch_ok r" "sd_terminalFingerprint r = None"
  shows "advances p w (snd (on_inbox (createDispatch r) w))"
  unfolding advances_def
proof (intro impI)
  assume ok: "inbox_ok p (w_inbox w)"
  let ?w = "snd (on_inbox (createDispatch r) w)"
  have rows: "\<exists>r'. sd_rows (w_inbox ?w) = sd_rows (w_inbox w) @ [r'] \<and> sd_dispatchId r' = sd_nextId (w_inbox w) \<and>
      dispatch_ok r' \<and> sd_terminalFingerprint r' = None"
    using r by (simp add: on_inbox_snd createDispatch_def Let_def dispatch_ok_def)
  then obtain r' where r': "sd_rows (w_inbox ?w) = sd_rows (w_inbox w) @ [r']" "sd_dispatchId r' = sd_nextId (w_inbox w)"
      "dispatch_ok r'" "sd_terminalFingerprint r' = None" by blast
  have w: "sd_nextId (w_inbox ?w) = Suc (sd_nextId (w_inbox w))" "sd_wakes (w_inbox ?w) = sd_wakes (w_inbox w)" "w_checking ?w = w_checking w"
    by (simp_all add: on_inbox_snd createDispatch_def Let_def)
  have "dispatches_ok (w_inbox ?w)"
    using ok r' w by (fastforce simp: inbox_ok_def dispatches_ok_def)
  moreover have "wakes_ok p (w_inbox ?w)" using ok w by (simp add: inbox_ok_def wakes_ok_def)
  moreover have "uncaptured (w_inbox w) (w_inbox ?w)"
    unfolding uncaptured_def
  proof (intro ballI impI)
    fix s s' assume s: "s \<in> set (sd_rows (w_inbox w))" "s' \<in> set (sd_rows (w_inbox ?w))"
      "sd_dispatchId s' = sd_dispatchId s \<and> sd_terminalFingerprint s = None"
    show "sd_terminalFingerprint s' = None"
    proof (cases "s' = r'")
      case False
      then have "s' \<in> set (sd_rows (w_inbox w))" using s(2) r'(1) by simp
      then have "s' = s" using one_dispatch [of "w_inbox w"] ok s by (simp add: inbox_ok_def)
      with s(3) show ?thesis by simp
    qed (use r' in simp)
  qed
  ultimately show "inbox_ok p (w_inbox ?w) \<and> (\<forall>r \<in> set (sd_rows (w_inbox w)). \<exists>r' \<in> set (sd_rows (w_inbox ?w)). evolves r r') \<and>
      (w_checking w \<longrightarrow> w_checking ?w \<and> uncaptured (w_inbox w) (w_inbox ?w))"
    using r'(1) w evolves_refl by (auto simp: inbox_ok_def)
qed

lemma adv_create: "dispatch_ok r \<Longrightarrow> sd_terminalFingerprint r = None \<Longrightarrow> keeps (advances p) (on_inbox (createDispatch r))"
  unfolding keeps_def by (simp add: advances_create)

lemma row_filter: "x \<noteq> y \<Longrightarrow> row key x (filter (\<lambda>k. key k \<noteq> y) rs) = row key x rs"
  by (induction rs) (auto simp: row_Cons row_Nil)

lemma wakes_ok_rebind: "0 < pol_maxAttempts p \<Longrightarrow> wakes_ok p db \<Longrightarrow> wakes_ok p (rebindDispatches source target db)"
  by (auto simp: rebindDispatches_def wakes_ok_def rebind_wakes_def Let_def update_dispatches_def row_None rebound_wake_def
      new_wake_def wake_ok_def distinct_map_filter split: option.split)

lemma advances_rebind:
  assumes max: "0 < pol_maxAttempts p"
  shows "advances p w (w\<lparr>w_inbox := rebindDispatches source target (w_inbox w)\<rparr>)"
proof (cases "source = [] \<or> target = [] \<or> source = target")
  case True
  then show ?thesis by (simp add: rebindDispatches_def advance.R_refl)
next
  case False
  let ?t = "sd_clock (w_inbox w)"
  let ?g = "\<lambda>r. if sd_workerSessionId r = source then r\<lparr>sd_workerSessionId := target, sd_updatedAt := ?t\<rparr> else r"
  let ?f = "\<lambda>r. if sd_callbackSessionId r = Some source then r\<lparr>sd_callbackSessionId := Some target, sd_updatedAt := ?t\<rparr> else r"
  have wk: "wakes_ok p (w_inbox w) \<Longrightarrow> wakes_ok p (w_inbox (w\<lparr>w_inbox := rebindDispatches source target (w_inbox w)\<rparr>))"
    using wakes_ok_rebind [OF max] by simp
  show ?thesis
    by (rule advances_rows [where f = "?f \<circ> ?g", OF _ _ _ wk])
      (use False in \<open>auto simp: rebindDispatches_def update_dispatches_def dispatch_ok_def evolves_def\<close>)
qed

lemma wake_ok_retired: "wake_ok p w \<Longrightarrow> wake_ok p (retired_wake trigger clk w)"
  by (simp add: wake_ok_def retired_wake_def)

lemma advances_retire: "advances p w (w\<lparr>w_inbox := retireNotifications sid trigger snap (w_inbox w)\<rparr>)"
proof (cases "list_ex (\<lambda>c. cu_scope c = ''callbacks'' \<and> cu_sessionId c = sid \<and> cu_triggerId c = trigger) (sd_cutoffs (w_inbox w))")
  case True
  then show ?thesis by (simp add: retireNotifications_def advance.R_refl)
next
  case False
  let ?db = "w_inbox w"
  have "map wk_callbackSessionId (map (\<lambda>w. if P w then retired_wake trigger c w else w) ws) = map wk_callbackSessionId ws" for P c ws
    by (simp add: retired_wake_def)
  then have "wakes_ok p (retireNotifications sid trigger snap ?db)" if "wakes_ok p ?db"
    using that False
    by (auto simp: retireNotifications_def Let_def update_dispatches_def wakes_ok_def wake_ok_retired simp del: map_map)
  then show ?thesis
    by (intro advances_rows [where f = "\<lambda>r. if unresolved sid r \<and> sd_rowid r \<le> fold max (map sd_rowid (sd_rows ?db)) 0 \<and> in_cutoff snap r
          then retired_callback trigger (sd_clock ?db) r else r"])
      (use False in \<open>auto simp: retireNotifications_def Let_def update_dispatches_def retired_callback_def unresolved_def dispatch_ok_def evolves_def\<close>)
qed

lemma advances_migrate: "advances p w (snd (on_inbox migrateLegacyDeliveredCallbacks w))"
  unfolding on_inbox_snd
  by (rule advances_rows [where f = "\<lambda>r. if sd_state r = CallbackDelivered \<and> sd_terminalFingerprint r \<noteq> None \<and>
      sd_callbackAcknowledgedAt r = None then r\<lparr>sd_state := CallbackPending, sd_callbackNextAttemptAt := None,
           sd_callbackExpiresAt := None, sd_lastError := None, sd_updatedAt := q_clock (w_db w)\<rparr> else r"])
    (auto simp: migrateLegacyDeliveredCallbacks_def Let_def update_dispatches_def dispatch_ok_def evolves_def wakes_ok_def)

end
