(* ===== verification/Service_Guarantee.thy ===== *)
theory Service_Guarantee
  imports Service_Safety
begin

text \<open>
  The operations of the service of supervised dispatches keep \<open>advances\<close>. The check of the running
  workers does it as a whole: while it holds the \<open>checking\<close> flag, the dispatches it has still to look
  at have no result, since nobody else records one.
\<close>

definition cooperative :: "wake_policy \<Rightarrow> service_env \<Rightarrow> bool" where
  "cooperative p se \<longleftrightarrow> (\<forall>k v. advances p v (se_others se k v)) \<and> (\<forall>s. keeps (advances p) (se_dispatchQueuedPrompt se s)) \<and>
     (\<forall>s. keeps (advances p) (se_requestNextTurn se s)) \<and> (\<forall>s. keeps (advances p) (se_closeWorker se s))"

section \<open>Requests\<close>

lemma adv_lift: "keeps (advances p) (lift_error x)"
  by (cases x) (simp_all add: lift_error_def advance.keeps_ret advance.keeps_throw del: ret_run throw_run)

lemma adv_require: "keeps (advances p) (requireSession se s)"
  unfolding requireSession_def by (rule advance.keeps_intros)+

lemma adv_optional: "keeps (advances p) (optional_session se s)"
  unfolding optional_session_def by (rule advance.keeps_intros adv_require)+

lemma adv_same_owner: "keeps (advances p) (same_owner se inp callback owner)"
  unfolding same_owner_def by (rule advance.keeps_intros adv_require)+

lemma adv_queue_worker:
  assumes "cooperative p se"
  shows "keeps (advances p) (queue_worker_prompt se callback worker r)"
proof -
  have d: "keeps (advances p) (se_dispatchQueuedPrompt se worker)" using assms by (simp add: cooperative_def)
  have u: "keeps (advances p) (on_inbox (updateDispatch i (\<lambda>x. x\<lparr>sd_state := DispatchFailed, sd_lastError := e\<rparr>)))" for i e
    by (rule adv_update) (rule proper_failed)
  show ?thesis
    unfolding queue_worker_prompt_def by (rule advance.keeps_intros adv_queue d u)+
qed

lemma adv_create_for:
  assumes co: "cooperative p se" and cb: "ci_callbackEnabled inp \<longrightarrow> nonempty (ci_callbackSessionId inp) \<noteq> None"
  shows "keeps (advances p) (create_for se inp callback)"
proof -
  have o': "keeps (advances p) (modify (se_others se k))" for k
    using co by (intro advance.keeps_modify) (simp add: cooperative_def)
  have "ci_callbackEnabled inp \<Longrightarrow> ci_callbackSessionId inp \<noteq> Some []"
    using cb by (auto simp: nonempty_def)
  then have c: "keeps (advances p) (on_inbox (createDispatch (new_dispatch s (if ci_callbackEnabled inp then ci_callbackSessionId inp else None) x y z u)))"
    for s x y z u
    by (intro adv_create) (auto simp: new_dispatch_def dispatch_ok_def)
  show ?thesis
    unfolding create_for_def Let_def
    by (rule advance.keeps_intros adv_same_owner adv_lift o' c adv_queue_worker [OF co])+
qed

lemma adv_service_create: "cooperative p se \<Longrightarrow> keeps (advances p) (create se inp)"
  unfolding create_def by (rule advance.keeps_intros adv_optional adv_create_for | assumption | simp)+

text \<open>What a request reads is the current row.\<close>

lemma service_get_run:
  "service_get se i caller w = (res, w') \<Longrightarrow> w' = w\<lparr>w_inbox := (w_inbox w)\<lparr>sd_clock := q_clock (w_db w)\<rparr>\<rparr> \<and>
     (case res of Inr r \<Rightarrow> getDispatch i (w_inbox w) = Some r | Inl e \<Rightarrow> True)"
  by (auto simp: service_get_def bnd_run on_inbox_def getDispatch_def assertOwner_def requireSession_def split: option.splits if_splits sum.splits)

lemma advances_clock: "advances p w (w\<lparr>w_inbox := (w_inbox w)\<lparr>sd_clock := t\<rparr>\<rparr>)"
  by (rule advances_rows [where f = id]) (simp_all add: evolves_refl)

lemma after_get:
  assumes "\<And>r v. getDispatch i (w_inbox v) = Some r \<Longrightarrow> advances p v (snd (f r v))"
  shows "keeps (advances p) (bnd (service_get se i caller) f)"
  unfolding keeps_def
proof
  fix w
  obtain res w' where g: "service_get se i caller w = (res, w')" by (cases "service_get se i caller w")
  note run = service_get_run [OF g]
  have w': "advances p w w'" using run advances_clock by simp
  show "advances p w (snd (bnd (service_get se i caller) f w))"
  proof (cases res)
    case (Inl e)
    with g w' show ?thesis by (simp add: bnd_run)
  next
    case (Inr r)
    with run have "getDispatch i (w_inbox w') = Some r" by (simp add: getDispatch_def)
    from advance.R_trans [OF w' assms [OF this]] g Inr show ?thesis by (simp add: bnd_run)
  qed
qed

text \<open>An update of the current row and what follows it.\<close>

lemma update_then:
  assumes "getDispatch i (w_inbox v) = Some r" and "\<And>t. proper (w_checking v) r ((patch r)\<lparr>sd_dispatchId := i, sd_updatedAt := t\<rparr>)"
    and "\<And>x. keeps (advances p) (f x)"
  shows "advances p v (snd (bnd (on_inbox (updateDispatch i patch)) f v))"
proof (cases "dispatches_ok (w_inbox v)")
  case False
  then show ?thesis by (simp add: advances_def inbox_ok_def)
next
  case True
  have r: "r \<in> set (sd_rows (w_inbox v))" "sd_dispatchId r = i" using getDispatch_in [OF assms(1)] by simp_all
  have u: "advances p v (snd (on_inbox (updateDispatch i patch) v))"
    by (rule advances_update) (use one_dispatch [OF True _ r(1)] r(2) assms(2) in auto)
  show ?thesis
  proof (cases "on_inbox (updateDispatch i patch) v")
    case (Pair res v')
    have "advances p v' (snd (f x v'))" for x using assms(3) unfolding keeps_def by blast
    with u Pair show ?thesis by (cases res) (auto simp: bnd_run intro: advance.R_trans)
  qed
qed

lemma adv_if: "(b \<Longrightarrow> advances p v (snd (m v))) \<Longrightarrow> (\<not> b \<Longrightarrow> advances p v (snd (n v))) \<Longrightarrow> advances p v (snd ((if b then m else n) v))"
  by simp

lemma adv_throw: "advances p v (snd (throw e v))"
  by (simp add: advance.R_refl)

lemma adv_read: "(\<And>x. advances p v (snd (f x v))) \<Longrightarrow> advances p v (snd (bnd (reads g) f v))"
  by (simp add: bnd_run)

lemma proper_acknowledged: "sd_state r \<in> {CallbackPending, CallbackDelivered, Acknowledged} \<Longrightarrow>
    proper b r (r\<lparr>sd_state := Acknowledged, sd_callbackExpiresAt := None,
         sd_callbackAcknowledgedAt := (case sd_callbackAcknowledgedAt r of Some t \<Rightarrow> Some t | None \<Rightarrow> Some clk),
         sd_dispatchId := i, sd_updatedAt := t\<rparr>)"
  by (cases "sd_state r"; cases "sd_callbackAcknowledgedAt r") (simp_all add: proper_def dispatch_ok_def evolves_def)

lemma proper_closed: "sd_state r = Acknowledged \<or> sd_state r = DispatchClosed \<Longrightarrow>
    proper b r (r\<lparr>sd_state := DispatchClosed,
         sd_closedAt := (case sd_closedAt r of Some t \<Rightarrow> Some t | None \<Rightarrow> Some clk), sd_dispatchId := i, sd_updatedAt := t\<rparr>)"
  by (cases "sd_state r"; cases "sd_closedAt r") (simp_all add: proper_def dispatch_ok_def evolves_def)

lemma proper_reset: "sd_callbackSessionId r = Some caller \<Longrightarrow> nonempty (sd_terminalFingerprint r) \<noteq> None \<Longrightarrow>
    proper b r ((reset_callback r)\<lparr>sd_dispatchId := i, sd_updatedAt := t\<rparr>)"
  by (auto simp: proper_def dispatch_ok_def evolves_def reset_callback_def nonempty_def split: option.splits)

lemma adv_reconciled: "0 < pol_maxAttempts p \<Longrightarrow> keeps (advances p) (bnd (on_inbox (reconcileHandledCallbacks caller)) (\<lambda>_. ret x))"
  by (rule advance.keeps_intros adv_coordinator_max | assumption)+

lemma adv_acknowledge: "0 < pol_maxAttempts p \<Longrightarrow> keeps (advances p) (acknowledge se i caller)"
  unfolding acknowledge_def
  apply (rule after_get)
  apply (intro adv_if adv_throw adv_read update_then)
    apply assumption
   apply (rule proper_acknowledged, simp)
  apply (rule adv_reconciled, assumption)
  done

lemma adv_close: "0 < pol_maxAttempts p \<Longrightarrow> keeps (advances p) (close_dispatch se i caller)"
  unfolding close_dispatch_def
  apply (rule after_get)
  apply (intro adv_if adv_throw adv_read update_then)
    apply assumption
   apply (rule proper_closed, blast)
  apply (rule adv_reconciled, assumption)
  done

lemma adv_retry:
  assumes next_turn: "\<And>s. keeps (advances p) (se_requestNextTurn se s)"
  shows "keeps (advances p) (retryCallback se i caller)"
proof -
  have turn: "keeps (advances p) (bnd (se_requestNextTurn se caller) (\<lambda>_. ret x))" for x :: session_dispatch
    by (intro advance.keeps_intros next_turn)
  show ?thesis
    unfolding retryCallback_def
    apply (rule after_get)
    apply (intro adv_if adv_throw update_then)
      apply assumption
     apply (rule proper_reset; simp)
    apply (rule turn)
    done
qed

section \<open>The check of the running workers\<close>

text \<open>The dispatches in \<open>rs\<close> that were running have no result yet.\<close>

definition checking_inv :: "wake_policy \<Rightarrow> world \<Rightarrow> session_dispatch list \<Rightarrow> world \<Rightarrow> bool" where
  "checking_inv p w0 rs w \<longleftrightarrow> inbox_ok p (w_inbox w) \<and> w_checking w \<and>
     (\<forall>r \<in> set (sd_rows (w_inbox w0)). \<exists>r' \<in> set (sd_rows (w_inbox w)). evolves r r') \<and>
     (\<forall>r \<in> set rs. sd_state r = Working \<longrightarrow> r \<in> set (sd_rows (w_inbox w0)) \<and>
        (\<forall>r' \<in> set (sd_rows (w_inbox w)). sd_dispatchId r' = sd_dispatchId r \<longrightarrow> sd_terminalFingerprint r' = None))"

lemma inv_tail: "checking_inv p w0 (r # rs) w \<Longrightarrow> checking_inv p w0 rs w"
  by (simp add: checking_inv_def)

lemma inv_none: "checking_inv p w0 rs w \<Longrightarrow> checking_inv p w0 [] w"
  by (simp add: checking_inv_def)

lemma invD:
  assumes "checking_inv p w0 rs w"
  shows "inbox_ok p (w_inbox w)" "w_checking w"
    "\<forall>r \<in> set (sd_rows (w_inbox w0)). \<exists>x \<in> set (sd_rows (w_inbox w)). evolves r x"
    "\<forall>r \<in> set rs. sd_state r = Working \<longrightarrow> r \<in> set (sd_rows (w_inbox w0)) \<and>
        (\<forall>r' \<in> set (sd_rows (w_inbox w)). sd_dispatchId r' = sd_dispatchId r \<longrightarrow> sd_terminalFingerprint r' = None)"
  using assms unfolding checking_inv_def by - (elim conjE, assumption)+

lemma inv_step:
  assumes inv: "checking_inv p w0 rs w" and adv: "advances p w w'"
  shows "checking_inv p w0 rs w'"
proof -
  note ok = invD(1,2) [OF inv] and old = invD(3) [OF inv] and open_rows = invD(4) [OF inv]
  then have s: "inbox_ok p (w_inbox w')" "w_checking w'" "uncaptured (w_inbox w) (w_inbox w')"
      "\<forall>r \<in> set (sd_rows (w_inbox w)). \<exists>r' \<in> set (sd_rows (w_inbox w')). evolves r r'"
    using adv by (simp_all add: advances_def)
  have ev: "\<forall>r \<in> set (sd_rows (w_inbox w0)). \<exists>r' \<in> set (sd_rows (w_inbox w')). evolves r r'"
    using old s(4) evolves_trans by meson
  have "sd_terminalFingerprint r' = None"
    if r: "r \<in> set rs" "sd_state r = Working" "r' \<in> set (sd_rows (w_inbox w'))" "sd_dispatchId r' = sd_dispatchId r" for r r'
  proof -
    have "r \<in> set (sd_rows (w_inbox w0))" using open_rows r by blast
    then obtain x where x: "x \<in> set (sd_rows (w_inbox w))" "evolves r x" using old by blast
    have "sd_dispatchId x = sd_dispatchId r" using x(2) by (simp add: evolves_def)
    then have "sd_terminalFingerprint x = None" using open_rows r(1,2) x(1) by blast
    with s(3) x r(3,4) show ?thesis by (auto simp: uncaptured_def evolves_def)
  qed
  then show ?thesis
    unfolding checking_inv_def using s(1,2) ev open_rows by blast
qed

text \<open>An operation that leads from one assertion to another, whether it returns or throws.\<close>

definition leads :: "(world \<Rightarrow> bool) \<Rightarrow> 'a dispatch \<Rightarrow> (world \<Rightarrow> bool) \<Rightarrow> bool" where
  "leads P m Q \<longleftrightarrow> (\<forall>w. P w \<longrightarrow> Q (snd (m w)))"

lemma leads_keeps: "keeps (advances p) m \<Longrightarrow> leads (checking_inv p w0 rs) m (checking_inv p w0 rs)"
  unfolding leads_def keeps_def using inv_step by blast

lemma leads_bnd: "leads P m P \<Longrightarrow> (\<And>x. leads P (f x) Q) \<Longrightarrow> (\<And>w. P w \<Longrightarrow> Q w) \<Longrightarrow> leads P (bnd m f) Q"
  unfolding leads_def by (fastforce simp: bnd_run split: prod.split sum.split)

lemma leads_last: "leads P m Q \<Longrightarrow> (\<And>x. leads Q (f x) Q) \<Longrightarrow> leads P (bnd m f) Q"
  unfolding leads_def by (fastforce simp: bnd_run split: prod.split sum.split)

lemma leads_seq: "leads P m Q \<Longrightarrow> (\<And>x. leads Q (f x) S) \<Longrightarrow> (\<And>w. Q w \<Longrightarrow> S w) \<Longrightarrow> leads P (bnd m f) S"
  unfolding leads_def by (fastforce simp: bnd_run split: prod.split sum.split)

lemma leads_case_option: "(x = None \<Longrightarrow> leads P m Q) \<Longrightarrow> (\<And>y. x = Some y \<Longrightarrow> leads P (f y) Q) \<Longrightarrow>
    leads P (case x of None \<Rightarrow> m | Some y \<Rightarrow> f y) Q"
  by (cases x) auto

lemma leads_if: "(b \<Longrightarrow> leads P m Q) \<Longrightarrow> (\<not> b \<Longrightarrow> leads P n Q) \<Longrightarrow> leads P (if b then m else n) Q"
  by simp

lemma leads_done: "(\<And>w. P w \<Longrightarrow> Q w) \<Longrightarrow> leads P (ret x) Q"
  by (simp add: leads_def)

lemma leads_read: "(\<And>x. leads P (f x) Q) \<Longrightarrow> leads P (bnd (reads g) f) Q"
  by (simp add: leads_def bnd_run)

text \<open>The same with an assertion on what is returned.\<close>

definition yields :: "(world \<Rightarrow> bool) \<Rightarrow> 'a dispatch \<Rightarrow> (world \<Rightarrow> bool) \<Rightarrow> ('a \<Rightarrow> world \<Rightarrow> bool) \<Rightarrow> bool" where
  "yields P m Q R \<longleftrightarrow> (\<forall>w. P w \<longrightarrow> (case m w of (Inl e, w') \<Rightarrow> Q w' | (Inr x, w') \<Rightarrow> R x w'))"

lemma leads_yields: "yields P m Q R \<Longrightarrow> (\<And>x. leads (R x) (f x) Q) \<Longrightarrow> leads P (bnd m f) Q"
  unfolding leads_def yields_def by (fastforce simp: bnd_run split: prod.splits sum.splits)

lemma yields_leads: "leads P m Q \<Longrightarrow> yields P (bnd m (\<lambda>_. ret x)) Q (\<lambda>y. if y = x then Q else R y)"
  unfolding leads_def yields_def by (fastforce simp: bnd_run split: prod.splits sum.splits)

lemma yields_ret: "(\<And>w. P w \<Longrightarrow> R x w) \<Longrightarrow> yields P (ret x) Q R"
  by (simp add: yields_def)

lemma yields_bnd: "leads P m P \<Longrightarrow> (\<And>w. P w \<Longrightarrow> Q w) \<Longrightarrow> (\<And>x. yields P (f x) Q R) \<Longrightarrow> yields P (bnd m f) Q R"
  unfolding leads_def yields_def by (fastforce simp: bnd_run split: prod.splits sum.splits)

lemma yields_read: "(\<And>x. yields P (f x) Q R) \<Longrightarrow> yields P (bnd (reads g) f) Q R"
  by (simp add: yields_def bnd_run)

lemma yields_if: "(b \<Longrightarrow> yields P m Q R) \<Longrightarrow> (\<not> b \<Longrightarrow> yields P n Q R) \<Longrightarrow> yields P (if b then m else n) Q R"
  by simp

lemma yields_case_option: "(x = None \<Longrightarrow> yields P m Q R) \<Longrightarrow> (\<And>y. x = Some y \<Longrightarrow> yields P (f y) Q R) \<Longrightarrow>
    yields P (case x of None \<Rightarrow> m | Some y \<Rightarrow> f y) Q R"
  by (cases x) auto

text \<open>The record of a result.\<close>

lemma updated_others:
  "r' \<in> set (sd_rows (w_inbox (snd (on_inbox (updateDispatch i patch) w)))) \<Longrightarrow> sd_dispatchId r' \<noteq> i \<Longrightarrow>
     r' \<in> set (sd_rows (w_inbox w))"
  by (auto simp: on_inbox_snd updateDispatch_def update_dispatches_def Let_def split: option.splits if_splits)

lemma proper_captured:
  assumes "sd_terminalFingerprint r = None" and "b \<longleftrightarrow> sd_callbackSessionId r \<noteq> None"
  shows "proper False r ((captured status message createdAt fp clk b r)\<lparr>sd_dispatchId := i, sd_updatedAt := t\<rparr>)"
  using assms by (cases b) (simp_all add: proper_def dispatch_ok_def evolves_def captured_def Let_def)

lemma inv_captured:
  assumes inv: "checking_inv p w0 (r # rs) w" and r: "sd_state r = Working" "dispatch_ok r" and new: "sd_dispatchId r \<notin> sd_dispatchId ` set rs"
  shows "checking_inv p w0 rs (snd (on_inbox (updateDispatch (sd_dispatchId r)
    (captured status message createdAt fp clk (nonempty (sd_callbackSessionId r) \<noteq> None))) w))"
proof -
  let ?m = "updateDispatch (sd_dispatchId r) (captured status message createdAt fp clk (nonempty (sd_callbackSessionId r) \<noteq> None))"
  let ?w1 = "w\<lparr>w_checking := False\<rparr>" and ?w' = "snd (on_inbox ?m w)"
  note ok = invD(1,2) [OF inv] and old = invD(3) [OF inv] and rows = invD(4) [OF inv]
  have r0: "r \<in> set (sd_rows (w_inbox w0))" using rows r(1) by simp
  have b: "nonempty (sd_callbackSessionId r) \<noteq> None \<longleftrightarrow> sd_callbackSessionId r \<noteq> None"
    using r(2) by (auto simp: dispatch_ok_def nonempty_def split: option.splits)
  have "proper (w_checking ?w1) x ((captured status message createdAt fp clk (nonempty (sd_callbackSessionId r) \<noteq> None) x)
      \<lparr>sd_dispatchId := sd_dispatchId r, sd_updatedAt := t\<rparr>)" if x: "x \<in> set (sd_rows (w_inbox ?w1))" "sd_dispatchId x = sd_dispatchId r" for x t
  proof -
    obtain y where y: "y \<in> set (sd_rows (w_inbox w))" "evolves r y" using old r0 by blast
    have "y = x" by (rule one_dispatch [of "w_inbox w"]) (use ok y x in \<open>simp_all add: inbox_ok_def evolves_def\<close>)
    then have "sd_callbackSessionId x = None \<longleftrightarrow> sd_callbackSessionId r = None" using y(2) by (simp add: evolves_def)
    moreover have "sd_terminalFingerprint x = None" using rows r(1) x by simp
    ultimately have "proper False x ((captured status message createdAt fp clk (nonempty (sd_callbackSessionId r) \<noteq> None) x)
      \<lparr>sd_dispatchId := sd_dispatchId r, sd_updatedAt := t\<rparr>)" using b by (intro proper_captured) simp_all
    then show ?thesis by simp
  qed
  then have "advances p ?w1 (snd (on_inbox ?m ?w1))" by (rule advances_update)
  moreover have same: "w_inbox (snd (on_inbox ?m ?w1)) = w_inbox ?w'" "w_checking ?w' = w_checking w"
    by (simp_all add: on_inbox_snd)
  ultimately have "inbox_ok p (w_inbox ?w')" "\<forall>x \<in> set (sd_rows (w_inbox w)). \<exists>y \<in> set (sd_rows (w_inbox ?w')). evolves x y"
    using ok(1) by (simp_all add: advances_def)
  moreover from this(2) have "\<forall>x \<in> set (sd_rows (w_inbox w0)). \<exists>y \<in> set (sd_rows (w_inbox ?w')). evolves x y"
    using old evolves_trans by meson
  moreover have "sd_terminalFingerprint x = None"
    if "s \<in> set rs" "sd_state s = Working" "x \<in> set (sd_rows (w_inbox ?w'))" "sd_dispatchId x = sd_dispatchId s" for s x
  proof -
    have "sd_dispatchId x \<noteq> sd_dispatchId r" using new that(1,4) by (metis imageI)
    then have "x \<in> set (sd_rows (w_inbox w))" using updated_others that(3) by blast
    with rows that show ?thesis by simp
  qed
  moreover have "\<forall>s \<in> set rs. sd_state s = Working \<longrightarrow> s \<in> set (sd_rows (w_inbox w0))" using rows by simp
  moreover have "w_checking ?w'" using same(2) ok(2) by simp
  ultimately show ?thesis
    unfolding checking_inv_def by blast
qed

lemma leads_capture:
  assumes co: "cooperative p se" and r: "sd_state r = Working" "dispatch_ok r" and new: "sd_dispatchId r \<notin> sd_dispatchId ` set rs"
  shows "leads (checking_inv p w0 (r # rs)) (capture_end se r status message createdAt) (checking_inv p w0 rs)"
proof -
  have upd: "leads (checking_inv p w0 (r # rs)) (on_inbox (updateDispatch (sd_dispatchId r)
    (captured status message createdAt fp clk (nonempty (sd_callbackSessionId r) \<noteq> None)))) (checking_inv p w0 rs)" for fp clk
    using inv_captured [OF _ r new] by (simp add: leads_def)
  have err: "keeps (advances p) (on_inbox (updateDispatch (sd_dispatchId r) (\<lambda>x. x\<lparr>sd_lastError := e\<rparr>)))" for e
    by (rule adv_update) (rule proper_error)
  have "keeps (advances p) (closeTerminalWorker se r)"
    unfolding closeTerminalWorker_def
    using co by (intro advance.keeps_intros err) (simp add: cooperative_def)
  moreover have "keeps (advances p) (case nonempty (sd_callbackSessionId r) of None \<Rightarrow> ret () | Some c \<Rightarrow> se_requestNextTurn se c)"
    using co by (intro advance.keeps_intros) (simp add: cooperative_def)
  ultimately have rest: "leads (checking_inv p w0 rs) (bnd (closeTerminalWorker se r) (\<lambda>_. case nonempty (sd_callbackSessionId r) of
         None \<Rightarrow> ret () | Some callback \<Rightarrow> se_requestNextTurn se callback)) (checking_inv p w0 rs)"
    by (intro leads_keeps advance.keeps_bnd)
  show ?thesis
    unfolding capture_end_def by (assumption | erule inv_tail | rule leads_read leads_if leads_last upd rest leads_done)+
qed

lemma leads_judge:
  assumes co: "cooperative p se" and r: "sd_state r = Working" "dispatch_ok r" and new: "sd_dispatchId r \<notin> sd_dispatchId ` set rs"
  shows "leads (checking_inv p w0 (r # rs)) (judge_turn se wv s r) (checking_inv p w0 rs)"
proof -
  have o': "leads (checking_inv p w0 (r # rs)) (modify (se_others se k)) (checking_inv p w0 (r # rs))" for k
    using co by (intro leads_keeps advance.keeps_modify) (simp add: cooperative_def)
  show ?thesis
    unfolding judge_turn_def Let_def
    by (cases "wv_fetched wv"; (simp only: option.case split: prod.split)?; (intro allI impI)?)
      (assumption | erule inv_tail | rule leads_capture [OF co r new] leads_bnd o' leads_if leads_case_option leads_done)+
qed

lemma yields_discover:
  assumes co: "cooperative p se" and r: "sd_state r = Working" "dispatch_ok r" and new: "sd_dispatchId r \<notin> sd_dispatchId ` set rs"
  shows "yields (checking_inv p w0 (r # rs)) (discoverNativeCodexSession se cp wv r) (checking_inv p w0 rs)
    (\<lambda>found. if found then checking_inv p w0 (r # rs) else checking_inv p w0 rs)"
proof -
  have o': "leads (checking_inv p w0 (r # rs)) (modify (se_others se k)) (checking_inv p w0 (r # rs))" for k
    using co by (intro leads_keeps advance.keeps_modify) (simp add: cooperative_def)
  have upd: "leads (checking_inv p w0 (r # rs)) (on_inbox (updateDispatch (sd_dispatchId r) (discovered_patch cp a b n outcome)))
      (checking_inv p w0 (r # rs))" for a b n outcome
    by (intro leads_keeps adv_update proper_discovered)
  have cap: "yields (checking_inv p w0 (r # rs)) (bnd (capture_end se r st m c) (\<lambda>_. ret False)) (checking_inv p w0 rs)
      (\<lambda>found. if found then checking_inv p w0 (r # rs) else checking_inv p w0 rs)" for st m c
    using leads_capture [OF co r new, of w0 st m c] unfolding leads_def yields_def by (fastforce simp: bnd_run split: prod.splits sum.splits)
  have fin: "yields (checking_inv p w0 (r # rs)) (ret found) (checking_inv p w0 rs)
      (\<lambda>found. if found then checking_inv p w0 (r # rs) else checking_inv p w0 rs)" for found
    by (rule yields_ret) (simp add: inv_tail)
  show ?thesis
    unfolding discoverNativeCodexSession_def Let_def
    by (assumption | erule inv_tail | rule yields_read cap fin o' upd yields_if yields_case_option yields_bnd)+
qed

lemma leads_check:
  assumes co: "cooperative p se" and r: "sd_state r = Working" "dispatch_ok r" and new: "sd_dispatchId r \<notin> sd_dispatchId ` set rs"
  shows "leads (checking_inv p w0 (r # rs)) (captureIfTerminal se cp wv r) (checking_inv p w0 rs)"
proof -
  have after: "leads (if found then checking_inv p w0 (r # rs) else checking_inv p w0 rs)
      (if \<not> found then ret () else (case wv_sessionAfter wv of None \<Rightarrow> ret ()
         | Some s' \<Rightarrow> if native_session_id s' then judge_turn se wv s' r else ret ())) (checking_inv p w0 rs)" for found
    by (cases found; simp only: if_True if_False not_True_eq_False not_False_eq_True)
      (assumption | erule inv_tail | rule leads_case_option leads_if leads_judge [OF co r new] leads_done)+
  show ?thesis
    unfolding captureIfTerminal_def
    by (assumption | erule inv_tail | rule leads_case_option leads_if leads_capture [OF co r new] leads_judge [OF co r new]
        leads_yields [OF yields_discover [OF co r new] after] leads_done)+
qed

lemma leads_check_each:
  assumes co: "cooperative p se" and ok: "inbox_ok p (w_inbox w0)"
    and rs: "distinct (map sd_dispatchId rs)" "set rs \<subseteq> set (sd_rows (w_inbox w0))"
  shows "leads (checking_inv p w0 rs) (check_each se cp views rs) (checking_inv p w0 [])"
  using rs
proof (induction rs)
  case Nil
  show ?case by (simp add: leads_def)
next
  case (Cons r rs)
  have "r \<in> set (sd_rows (w_inbox w0))" using Cons.prems(2) by simp
  then have r: "dispatch_ok r" using ok by (auto simp: inbox_ok_def dispatches_ok_def)
  have new: "sd_dispatchId r \<notin> sd_dispatchId ` set rs" using Cons.prems(1) by simp
  have "leads (checking_inv p w0 (r # rs)) (if sd_state r = Working then captureIfTerminal se cp (views (sd_dispatchId r)) r else ret ())
      (checking_inv p w0 rs)"
    by (rule leads_if, rule leads_check [OF co _ r new], assumption, rule leads_done, erule inv_tail)
  moreover have "leads (checking_inv p w0 rs) (check_each se cp views rs) (checking_inv p w0 [])"
    using Cons by simp
  ultimately show ?case
    by (simp only: check_each.simps) (rule leads_seq, assumption, assumption, erule inv_none)
qed

lemma adv_checkRunning:
  assumes co: "cooperative p se"
  shows "keeps (advances p) (checkRunning se cp views)"
  unfolding keeps_def
proof
  fix w :: world
  show "advances p w (snd (checkRunning se cp views w))"
  proof (cases "w_checking w \<or> \<not> inbox_ok p (w_inbox w)")
    case True
    then show ?thesis
    proof
      assume "w_checking w"
      then show ?thesis by (simp add: checkRunning_def bnd_run advance.R_refl)
    qed (simp add: advances_def)
  next
    case False
    let ?w = "w\<lparr>w_checking := True, w_inbox := (w_inbox w)\<lparr>sd_clock := q_clock (w_db w)\<rparr>\<rparr>"
    let ?rs = "listDispatches None None None (w_inbox ?w)"
    have rs: "set ?rs = set (sd_rows (w_inbox w))" by (simp add: listDispatches_def nonempty_def)
    have ok: "inbox_ok p (w_inbox ?w)" using False by (simp add: inbox_ok_def dispatches_ok_def wakes_ok_def)
    have dist: "distinct (map sd_dispatchId ?rs)"
      using False by (simp add: listDispatches_def nonempty_def inbox_ok_def dispatches_ok_def distinct_map)
    have d: "dispatches_ok (w_inbox ?w)" using ok by (simp add: inbox_ok_def)
    have "sd_terminalFingerprint x = None"
      if "r \<in> set (sd_rows (w_inbox w))" "sd_state r = Working" "x \<in> set (sd_rows (w_inbox ?w))" "sd_dispatchId x = sd_dispatchId r" for r x
    proof -
      have "x = r" using one_dispatch [OF d that(3)] that by simp
      then show ?thesis using d that by (simp add: dispatches_ok_def dispatch_ok_def)
    qed
    then have inv: "checking_inv p ?w ?rs ?w"
      unfolding checking_inv_def rs using ok evolves_refl by auto
    have "checking_inv p ?w [] (snd (check_each se cp views ?rs ?w))"
      using leads_check_each [OF co ok dist] rs inv by (simp add: leads_def)
    then have "inbox_ok p (w_inbox (snd (check_each se cp views ?rs ?w)))"
      "\<forall>r \<in> set (sd_rows (w_inbox w)). \<exists>x \<in> set (sd_rows (w_inbox (snd (check_each se cp views ?rs ?w)))). evolves r x"
      by (simp_all add: checking_inv_def)
    moreover have "snd (checkRunning se cp views w) = (snd (check_each se cp views ?rs ?w))\<lparr>w_checking := False\<rparr>"
      using False by (simp add: checkRunning_def bnd_run finally_run on_inbox_def split: prod.split sum.split)
    ultimately show ?thesis using False by (simp add: advances_def)
  qed
qed

end
