(* ===== verification/Inbox_Contract.thy ===== *)
theory Inbox_Contract
  imports Service_Guarantee
begin

text \<open>
  What supervised dispatches promise: a dispatch lives from running to closed and its result is
  recorded once, an unchanged inbox wakes its session a bounded number of times, and where the wake-ups
  of a session come to an end too early.
\<close>

section \<open>Histories\<close>

text \<open>
  A stretch of the server's life, as far as dispatches and wake-ups go: requests to the service, checks
  of the workers, automatic and requested dispatches, replaced sessions and fresh triggers, any change
  of the prompt queue and of time, one after the other and inside each other's awaits.
\<close>

inductive service_history :: "wake_policy \<Rightarrow> world \<Rightarrow> world \<Rightarrow> bool" for p where
  nothing: "service_history p w w"
| queue_change: "service_history p w (w\<lparr>w_db := db\<rparr>)"
| created: "(\<And>k v. service_history p v (se_others se k v)) \<Longrightarrow>
    (\<And>s v. service_history p v (snd (se_dispatchQueuedPrompt se s v))) \<Longrightarrow>
    (\<And>s v. service_history p v (snd (se_requestNextTurn se s v))) \<Longrightarrow>
    (\<And>s v. service_history p v (snd (se_closeWorker se s v))) \<Longrightarrow>
    service_history p w (snd (create se inp w))"
| acknowledged: "service_history p w (snd (acknowledge se i caller w))"
| closed_by: "service_history p w (snd (close_dispatch se i caller w))"
| retried: "(\<And>s v. service_history p v (snd (se_requestNextTurn se s v))) \<Longrightarrow>
    service_history p w (snd (retryCallback se i caller w))"
| checked: "(\<And>k v. service_history p v (se_others se k v)) \<Longrightarrow>
    (\<And>s v. service_history p v (snd (se_dispatchQueuedPrompt se s v))) \<Longrightarrow>
    (\<And>s v. service_history p v (snd (se_requestNextTurn se s v))) \<Longrightarrow>
    (\<And>s v. service_history p v (snd (se_closeWorker se s v))) \<Longrightarrow>
    service_history p w (snd (checkRunning se cp views w))"
| automatic: "(\<And>k v. service_history p v (su_others su k v)) \<Longrightarrow>
    service_history p w (snd (maybeAutoDispatchQueuedPrompt p su approved session w))"
| requested: "(\<And>k v. service_history p v (su_others su k v)) \<Longrightarrow>
    service_history p w (snd (dispatchNextQueuedPromptForSession su approved ses user w))"
| rebound: "service_history p w (w\<lparr>w_inbox := rebindDispatches source target (w_inbox w)\<rparr>)"
| retired: "service_history p w (w\<lparr>w_inbox := retireNotifications sid trigger snap (w_inbox w)\<rparr>)"
| migrated: "service_history p w (snd (on_inbox migrateLegacyDeliveredCallbacks w))"
| followed: "service_history p u v \<Longrightarrow> service_history p v w \<Longrightarrow> service_history p u w"

inductive_cases service_start: "service_history p u v"

lemma cooperativeI:
  assumes "\<And>k v. advances p v (se_others se k v)" "\<And>s v. advances p v (snd (se_dispatchQueuedPrompt se s v))"
    "\<And>s v. advances p v (snd (se_requestNextTurn se s v))" "\<And>s v. advances p v (snd (se_closeWorker se s v))"
  shows "cooperative p se"
  unfolding cooperative_def keeps_def using assms by blast

lemma at_world: "keeps (advances p) m \<Longrightarrow> advances p w (snd (m w))"
  unfolding keeps_def by blast

lemma history_advances: "service_history p u v \<Longrightarrow> 0 < pol_maxAttempts p \<Longrightarrow> advances p u v"
proof (induction rule: service_history.induct)
  case (created se w inp)
  have "cooperative p se" by (rule cooperativeI; (rule created.IH created.prems)+)
  then show ?case by (intro at_world adv_service_create)
next
  case (checked se w cp views)
  have "cooperative p se" by (rule cooperativeI; (rule checked.IH checked.prems)+)
  then show ?case by (intro at_world adv_checkRunning)
next
  case (retried se w i caller)
  have "keeps (advances p) (se_requestNextTurn se s)" for s
    unfolding keeps_def by (intro allI retried.IH retried.prems)
  then show ?case by (intro at_world adv_retry)
next
  case (automatic su w approved session)
  show ?case by (rule at_world, rule adv_auto; (rule automatic.IH automatic.prems)+)
next
  case (requested su w approved ses user)
  show ?case by (rule at_world, rule adv_dispatchNext; (rule requested.IH requested.prems)+)
next
  case (queue_change w db)
  show ?case by (rule advances_frame) simp_all
qed (auto intro: advance.R_refl advance.R_trans at_world adv_acknowledge adv_close advances_rebind advances_retire advances_migrate)

definition nothing_dispatched :: "dispatch_db \<Rightarrow> bool" where
  "nothing_dispatched db = (sd_rows db = [] \<and> sd_wakes db = [])"

lemma history_ok:
  assumes "service_history p u v" "nothing_dispatched (w_inbox u)" "0 < pol_maxAttempts p"
  shows "inbox_ok p (w_inbox v)"
proof -
  have "inbox_ok p (w_inbox u)" using assms(2) by (simp add: nothing_dispatched_def inbox_ok_def dispatches_ok_def wakes_ok_def)
  with history_advances [OF assms(1,3)] show ?thesis by (simp add: advances_def)
qed

text \<open>C3: In whatever order requests, checks, dispatches and other handlers run and interleave, a
  dispatch is never lost or merged with another: it keeps its owner, its prompt and whether it is
  monitored, and never goes back to running. Its result is recorded once and stays. A monitored
  dispatch is closed only after it was acknowledged, and acknowledged only when it has a result. Every
  session has at most one wake-up, with at most the allowed number of attempts.\<close>

theorem dispatch_lifecycle:
  assumes "service_history p u v" and "service_history p v w" and "nothing_dispatched (w_inbox u)" and "0 < pol_maxAttempts p"
  shows "(\<forall>r \<in> set (sd_rows (w_inbox v)). \<exists>r' \<in> set (sd_rows (w_inbox w)). evolves r r') \<and>
    dispatches_ok (w_inbox w) \<and> wakes_ok p (w_inbox w)"
  using history_advances [OF assms(2,4)] history_ok [OF assms(1,3,4)] by (auto simp: advances_def inbox_ok_def)

section \<open>The number of wake-ups\<close>

text \<open>The calls of the coordinator, and the claims they return.\<close>

datatype inbox_call = StableCall string | BusyCall string | ValidateCall wake_claim | SendingCall wake_claim
  | RejectedCall wake_claim | SubmittedCall wake_claim | FailedCall wake_claim string | HandledCall string | LaterCall nat

fun inbox_step :: "wake_policy \<Rightarrow> inbox_call \<Rightarrow> dispatch_db \<Rightarrow> wake_claim list \<times> dispatch_db" where
  "inbox_step p (StableCall sid) db = (case claimForStableSession p sid db of
     (Inr (Some c), db') \<Rightarrow> ([c], db') | (_, db') \<Rightarrow> ([], db'))"
| "inbox_step p (BusyCall sid) db = ([], snd (noteSessionBusy sid db))"
| "inbox_step p (ValidateCall c) db = ([], snd (validateClaim c db))"
| "inbox_step p (SendingCall c) db = ([], snd (markDeliveryUncertain c db))"
| "inbox_step p (RejectedCall c) db = ([], snd (releaseRejectedDelivery c db))"
| "inbox_step p (SubmittedCall c) db = ([], snd (markSubmitted c db))"
| "inbox_step p (FailedCall c e) db = ([], snd (markSubmissionFailed p c e db))"
| "inbox_step p (HandledCall sid) db = ([], snd (reconcileHandledCallbacks sid db))"
| "inbox_step p (LaterCall ms) db = ([], db\<lparr>sd_clock := sd_clock db + ms\<rparr>)"

fun inbox_run :: "wake_policy \<Rightarrow> inbox_call list \<Rightarrow> dispatch_db \<Rightarrow> wake_claim list \<times> dispatch_db" where
  "inbox_run p [] db = ([], db)"
| "inbox_run p (c # cs) db = (case inbox_step p c db of (xs, db') \<Rightarrow>
     (case inbox_run p cs db' of (ys, db'') \<Rightarrow> (xs @ ys, db'')))"

lemma at_db: "keeps (steady p sid fp) m \<Longrightarrow> steady p sid fp db (snd (m db))"
  unfolding keeps_def by blast

lemma steadyD:
  assumes "steady p sid fp db db'" and "wakes_ok p db"
  shows "wakes_ok p db'" "getInboxFingerprint s db' = getInboxFingerprint s db"
    "fp = Some f \<Longrightarrow> getInboxFingerprint sid db = Some f \<Longrightarrow> tries f (getWake sid db') = tries f (getWake sid db)"
  using assms fingerprint_rows [of db' db s] by (simp_all add: steady_def)

text \<open>A step gives no claim for a session and leaves its count, or the next claim.\<close>

lemma step_counts:
  assumes ok: "wakes_ok p db" and max: "0 < pol_maxAttempts p" and f: "getInboxFingerprint sid db = Some f"
  obtains (none) "filter (\<lambda>c. wc_callbackSessionId c = sid) (fst (inbox_step p c db)) = []"
      "tries f (getWake sid (snd (inbox_step p c db))) = tries f (getWake sid db)"
      "wakes_ok p (snd (inbox_step p c db))" "getInboxFingerprint sid (snd (inbox_step p c db)) = Some f"
  | (claim) g where "fst (inbox_step p c db) = [\<lparr>wc_generation = g, wc_callbackSessionId = sid, wc_inboxFingerprint = f,
         wc_attemptCount = tries f (getWake sid db) + 1\<rparr>]"
      "tries f (getWake sid (snd (inbox_step p c db))) = tries f (getWake sid db) + 1"
      "tries f (getWake sid db) < pol_maxAttempts p"
      "wakes_ok p (snd (inbox_step p c db))" "getInboxFingerprint sid (snd (inbox_step p c db)) = Some f"
proof (cases "\<exists>s. c = StableCall s")
  case False
  then have "fst (inbox_step p c db) = []" by (cases c) simp_all
  moreover note at = steady_busy [THEN at_db] steady_release [THEN at_db] steady_submitted [THEN at_db] steady_failed [THEN at_db]
    steady_reconcile [OF max, THEN at_db] steady_validate [OF max, THEN at_db] steady_sending [OF max, THEN at_db]
  have st: "steady p sid (Some f) db (snd (inbox_step p c db))"
  proof (cases c)
    case (LaterCall ms)
    then show ?thesis using ok by (simp add: steady_def getWake_def)
  qed (use False in \<open>simp_all add: at\<close>)
  ultimately show thesis using steadyD [OF st ok] f by (intro none) simp_all
next
  case True
  then obtain s where c: "c = StableCall s" by blast
  show thesis
  proof (cases rule: claim_counts [OF ok max, of s, case_names refused granted])
    case (refused db')
    then have st: "steady p sid (Some f) db db'" by blast
    show thesis using refused(1) c steadyD [OF st ok] f by (intro none) simp_all
  next
    case (granted g db')
    show thesis
    proof (cases "s = sid")
      case True
      then have "g = f" using granted(1) f by simp
      have st: "steady p sid None db db'" using granted(6) True by simp
      show thesis
      proof (rule claim)
        show "fst (inbox_step p c db) = [\<lparr>wc_generation = generation s db, wc_callbackSessionId = sid, wc_inboxFingerprint = f,
            wc_attemptCount = tries f (getWake sid db) + 1\<rparr>]" using granted(2) c True \<open>g = f\<close> by simp
        have db': "snd (inbox_step p c db) = db'" using granted(2) c True by simp
        show "tries f (getWake sid (snd (inbox_step p c db))) = tries f (getWake sid db) + 1"
          unfolding db' using granted(4) True \<open>g = f\<close> by simp
        show "tries f (getWake sid db) < pol_maxAttempts p" using granted(3) True \<open>g = f\<close> by simp
        show "wakes_ok p (snd (inbox_step p c db))" unfolding db' by (rule steadyD(1) [OF st ok])
        show "getInboxFingerprint sid (snd (inbox_step p c db)) = Some f" unfolding db' steadyD(2) [OF st ok] by (rule f)
      qed
    next
      case False
      have st: "steady p sid (Some f) db db'" by (rule granted(5)) (use False in simp)
      have run: "inbox_step p c db = ([\<lparr>wc_generation = generation s db, wc_callbackSessionId = s, wc_inboxFingerprint = g,
            wc_attemptCount = tries g (getWake s db) + 1\<rparr>], db')" using granted(2) c by simp
      show thesis
      proof (rule none)
        show "filter (\<lambda>c. wc_callbackSessionId c = sid) (fst (inbox_step p c db)) = []" unfolding run using False by simp
        show "tries f (getWake sid (snd (inbox_step p c db))) = tries f (getWake sid db)"
          unfolding run snd_conv by (rule steadyD(3) [OF st ok refl f])
        show "wakes_ok p (snd (inbox_step p c db))" unfolding run snd_conv by (rule steadyD(1) [OF st ok])
        show "getInboxFingerprint sid (snd (inbox_step p c db)) = Some f" unfolding run snd_conv steadyD(2) [OF st ok] by (rule f)
      qed
    qed
  qed
qed

text \<open>C19: However the calls of the coordinator follow each other, whatever fails, expires or is
  retried, as long as nobody reviews a callback or adds one, the wake-ups a session is given are
  numbered one after the other, from the number of those it had for this inbox, and there are never
  more than the policy allows.\<close>

theorem wake_attempts_bounded:
  assumes "service_history p u w" and "nothing_dispatched (w_inbox u)" and max: "0 < pol_maxAttempts p"
    and "getInboxFingerprint sid (w_inbox w) = Some f"
  shows "\<exists>k \<le> pol_maxAttempts p. map wc_attemptCount (filter (\<lambda>c. wc_callbackSessionId c = sid) (fst (inbox_run p cs (w_inbox w)))) =
    [Suc (tries f (getWake sid (w_inbox w))) ..< Suc k]"
proof -
  have "\<exists>k \<ge> tries f (getWake sid db). k \<le> pol_maxAttempts p \<and>
      map wc_attemptCount (filter (\<lambda>c. wc_callbackSessionId c = sid) (fst (inbox_run p cs db))) = [Suc (tries f (getWake sid db)) ..< Suc k]"
    if "wakes_ok p db" "getInboxFingerprint sid db = Some f" for db
    using that
  proof (induction cs arbitrary: db)
    case Nil
    have "tries f (getWake sid db) \<le> pol_maxAttempts p"
      using wakes_okD [OF Nil(1)] by (auto simp: tries_def wake_ok_def split: option.split)
    then show ?case by (intro exI [of _ "tries f (getWake sid db)"]) simp
  next
    case (Cons c cs)
    obtain ys db'' where run: "inbox_run p cs (snd (inbox_step p c db)) = (ys, db'')" by (cases "inbox_run p cs (snd (inbox_step p c db))")
    have fst: "fst (inbox_run p (c # cs) db) = fst (inbox_step p c db) @ ys"
      using run by (cases "inbox_step p c db") simp
    show ?case
    proof (cases rule: step_counts [OF Cons.prems(1) max Cons.prems(2), of c, case_names none claim])
      case none
      with Cons.IH [OF none(3,4)] run fst show ?thesis by simp
    next
      case (claim g)
      obtain k where k: "k \<ge> Suc (tries f (getWake sid db))" "k \<le> pol_maxAttempts p"
          "map wc_attemptCount (filter (\<lambda>c. wc_callbackSessionId c = sid) ys) = [Suc (Suc (tries f (getWake sid db))) ..< Suc k]"
        using Cons.IH [OF claim(4,5)] run claim(2) by auto
      then have "map wc_attemptCount (filter (\<lambda>c. wc_callbackSessionId c = sid) (fst (inbox_run p (c # cs) db))) =
          Suc (tries f (getWake sid db)) # [Suc (Suc (tries f (getWake sid db))) ..< Suc k]"
        using fst claim(1) by simp
      also have "\<dots> = [Suc (tries f (getWake sid db)) ..< Suc k]" using k(1) by (simp add: upt_conv_Cons)
      finally show ?thesis using k by (intro exI [of _ k]) simp
    qed
  qed
  moreover have "wakes_ok p (w_inbox w)" using history_ok [OF assms(1-3)] by (simp add: inbox_ok_def)
  ultimately show ?thesis using assms(4) by blast
qed

end
