(* ===== verification/Review_Laws.thy ===== *)
theory Review_Laws
  imports Inbox_Contract
begin

text \<open>
  The requests of a supervising session as functions of the row they are about: who may make them,
  what they write, and what they answer otherwise.
\<close>

section \<open>Who may ask\<close>

definition permitted :: "service_env \<Rightarrow> session_dispatch \<Rightarrow> string option \<Rightarrow> bool" where
  "permitted se r caller = (case nonempty caller of None \<Rightarrow> True
     | Some sid \<Rightarrow> (case se_session se sid of None \<Rightarrow> False | Some s \<Rightarrow> resolveSessionOwnerNpub s = sd_ownerNpub r))"

definition owner_error :: "service_env \<Rightarrow> string option \<Rightarrow> string" where
  "owner_error se caller = (case nonempty caller of None \<Rightarrow> []
     | Some sid \<Rightarrow> if se_session se sid = None then ''Session not found: '' @ sid else ''Dispatch belongs to another owner'')"

lemma permitted_owner:
  assumes "sd_ownerNpub r' = sd_ownerNpub r"
  shows "permitted se r' caller = permitted se r caller"
  unfolding permitted_def assms by (rule refl)

definition clocked :: "world \<Rightarrow> world" where
  "clocked w = w\<lparr>w_inbox := (w_inbox w)\<lparr>sd_clock := q_clock (w_db w)\<rparr>\<rparr>"

lemma clocked_simps [simp]:
  "w_db (clocked w) = w_db w" "sd_rows (w_inbox (clocked w)) = sd_rows (w_inbox w)" "sd_wakes (w_inbox (clocked w)) = sd_wakes (w_inbox w)"
  "sd_clock (w_inbox (clocked w)) = q_clock (w_db w)" "clocked (clocked w) = clocked w" "getDispatch i (w_inbox (clocked w)) = getDispatch i (w_inbox w)"
  "sd_sha (w_inbox (clocked w)) = sd_sha (w_inbox w)" "sd_cutoffs (w_inbox (clocked w)) = sd_cutoffs (w_inbox w)"
  by (simp_all add: clocked_def getDispatch_def)

lemma owner_run: "assertOwner se r caller w = (if permitted se r caller then Inr () else Inl (Thrown (owner_error se caller)), w)"
  by (auto simp: assertOwner_def permitted_def owner_error_def requireSession_def bnd_run split: option.split)

lemma get_run:
  "service_get se i caller w = (case getDispatch i (w_inbox w) of None \<Rightarrow> Inl (Thrown ''Dispatch not found'')
     | Some r \<Rightarrow> if permitted se r caller then Inr r else Inl (Thrown (owner_error se caller)), clocked w)"
  by (auto simp: service_get_def bnd_run on_inbox_def clocked_def owner_run getDispatch_def split: option.split)

section \<open>What they write\<close>

definition put_dispatch :: "session_dispatch \<Rightarrow> dispatch_db \<Rightarrow> dispatch_db" where
  "put_dispatch n db = update_dispatches (\<lambda>r. sd_dispatchId r = sd_dispatchId n) (written n) db"

lemma update_run:
  assumes "getDispatch i (w_inbox w) = Some r"
  shows "on_inbox (updateDispatch i patch) w =
    (let n = (patch r)\<lparr>sd_dispatchId := i, sd_updatedAt := q_clock (w_db w)\<rparr>
     in (Inr n, (clocked w)\<lparr>w_inbox := put_dispatch n (w_inbox (clocked w))\<rparr>))"
  using assms by (simp add: on_inbox_def updateDispatch_def getDispatch_def Let_def put_dispatch_def clocked_def)

lemma get_put:
  assumes "getDispatch i db = Some r" "sd_dispatchId n = i"
  shows "getDispatch j (put_dispatch n db) = (if j = i then Some (written n r) else getDispatch j db)"
proof -
  have "row sd_dispatchId j (map (\<lambda>x. if sd_dispatchId x = i then written n x else x) rs) =
      (if j = i then map_option (written n) (row sd_dispatchId j rs) else row sd_dispatchId j rs)" for rs
    by (induction rs) (auto simp: row_Cons row_Nil)
  with assms show ?thesis by (simp add: getDispatch_def put_dispatch_def update_dispatches_def)
qed

lemma put_simps [simp]: "sd_wakes (put_dispatch n db) = sd_wakes db" "sd_sha (put_dispatch n db) = sd_sha db"
  "sd_clock (put_dispatch n db) = sd_clock db" "sd_cutoffs (put_dispatch n db) = sd_cutoffs db"
  by (simp_all add: put_dispatch_def update_dispatches_def)

text \<open>The reconciliation of the wake-up as a function of the tables.\<close>

definition reconciled :: "string \<Rightarrow> dispatch_db \<Rightarrow> dispatch_db" where
  "reconciled sid db = snd (reconcileHandledCallbacks sid db)"

lemma reconcile_run: "reconcileHandledCallbacks sid db = (Inr (), reconciled sid db)"
  by (simp add: reconciled_def reconcileHandledCallbacks_def bnd_run resave_run split: option.split)

lemma reconciled_rows [simp]: "sd_rows (reconciled sid db) = sd_rows db" "sd_sha (reconciled sid db) = sd_sha db"
  "sd_cutoffs (reconciled sid db) = sd_cutoffs db" "getDispatch i (reconciled sid db) = getDispatch i db" "sd_clock (reconciled sid db) = sd_clock db"
  by (simp_all add: reconciled_def reconcileHandledCallbacks_def bnd_run resave_run getDispatch_def split: option.split)

text \<open>A wake-up after its inbox was emptied.\<close>

lemma reconciled_empty:
  assumes "getInboxFingerprint sid db = None" "getWake sid db = Some k"
  shows "\<exists>k'. getWake sid (reconciled sid db) = Some k' \<and> wk_state k' = WakeResolved \<and>
    wk_inboxFingerprint k' = wk_inboxFingerprint k \<and> wk_nextRetryAt k' = None"
proof -
  let ?k = "(restarted_wake k)\<lparr>wk_state := WakeResolved, wk_attemptCount := 0, wk_nextRetryAt := None, wk_lastError := None,
    wk_updatedAt := sd_clock db\<rparr>"
  have "reconciled sid db = set_wake ?k db"
    using assms by (simp add: reconciled_def reconcileHandledCallbacks_def bnd_run resave_run restarted_wake_def)
  moreover have "getWake sid (set_wake ?k db) = Some ?k"
    using getWake_set [of ?k db k sid] assms(2) getWake_key [OF assms(2)] by simp
  ultimately show ?thesis by (simp add: restarted_wake_def)
qed

text \<open>A wake-up after its inbox was changed, or not.\<close>

lemma reconciled_changed:
  assumes "getInboxFingerprint sid db = Some f" "getWake sid db = Some k"
  shows "\<exists>k'. getWake sid (reconciled sid db) = Some k' \<and> wk_inboxFingerprint k' = f \<and>
    (f \<noteq> wk_inboxFingerprint k \<longrightarrow> wk_state k' = WakePending \<and> wk_attemptCount k' = 0)"
proof (cases "f = wk_inboxFingerprint k")
  case True
  with assms show ?thesis by (simp add: reconciled_def reconcileHandledCallbacks_def bnd_run)
next
  case False
  let ?k = "(restarted_wake k)\<lparr>wk_inboxFingerprint := f, wk_state := WakePending, wk_attemptCount := 0, wk_nextRetryAt := None,
    wk_lastError := None, wk_updatedAt := sd_clock db\<rparr>"
  have "reconciled sid db = set_wake ?k db"
    using assms False by (simp add: reconciled_def reconcileHandledCallbacks_def bnd_run resave_run restarted_wake_def)
  moreover have "getWake sid (set_wake ?k db) = Some ?k"
    using getWake_set [of ?k db k sid] assms(2) getWake_key [OF assms(2)] by simp
  ultimately show ?thesis by (simp add: restarted_wake_def)
qed

definition acked :: "nat \<Rightarrow> session_dispatch \<Rightarrow> session_dispatch" where
  "acked clk r = r\<lparr>sd_state := Acknowledged, sd_callbackExpiresAt := None,
     sd_callbackAcknowledgedAt := (case sd_callbackAcknowledgedAt r of Some t \<Rightarrow> Some t | None \<Rightarrow> Some clk), sd_updatedAt := clk\<rparr>"

definition closed_row :: "nat \<Rightarrow> session_dispatch \<Rightarrow> session_dispatch" where
  "closed_row clk r = r\<lparr>sd_state := DispatchClosed,
     sd_closedAt := (case sd_closedAt r of Some t \<Rightarrow> Some t | None \<Rightarrow> Some clk), sd_updatedAt := clk\<rparr>"

lemma row_id: "getDispatch i db = Some r \<Longrightarrow> r\<lparr>sd_dispatchId := i\<rparr> = r"
  by (drule getDispatch_in) (cases r, simp)

lemma acknowledge_run:
  "acknowledge se i caller w = (case getDispatch i (w_inbox w) of
     None \<Rightarrow> (Inl (Thrown ''Dispatch not found''), clocked w)
   | Some r \<Rightarrow>
       if \<not> permitted se r (Some caller) then (Inl (Thrown (owner_error se (Some caller))), clocked w)
       else if sd_callbackSessionId r \<noteq> Some caller
       then (Inl (Thrown ''Only the callback session can acknowledge this dispatch''), clocked w)
       else if sd_state r \<notin> {CallbackPending, CallbackDelivered, Acknowledged}
       then (Inl (Thrown (''Cannot acknowledge dispatch in '' @ dispatch_state_text (sd_state r))), clocked w)
       else (Inr (acked (q_clock (w_db w)) r),
         (clocked w)\<lparr>w_inbox := reconciled caller (put_dispatch (acked (q_clock (w_db w)) r) (w_inbox (clocked w)))\<rparr>))"
proof (cases "getDispatch i (w_inbox w)")
  case (Some r)
  have clk: "(w_inbox (clocked w))\<lparr>sd_clock := q_clock (w_db w)\<rparr> = w_inbox (clocked w)" by (simp add: clocked_def)
  let ?n = "(r\<lparr>sd_state := Acknowledged, sd_callbackExpiresAt := None,
         sd_callbackAcknowledgedAt := (case sd_callbackAcknowledgedAt r of Some t \<Rightarrow> Some t | None \<Rightarrow> Some (q_clock (w_db w)))\<rparr>)
       \<lparr>sd_dispatchId := i, sd_updatedAt := q_clock (w_db w)\<rparr>"
  have n: "?n = acked (q_clock (w_db w)) r"
    using getDispatch_in [OF Some] by (cases r) (simp add: acked_def)
  have put: "(put_dispatch x (w_inbox (clocked w)))\<lparr>sd_clock := q_clock (w_db w)\<rparr> = put_dispatch x (w_inbox (clocked w))" for x
    by (simp add: put_dispatch_def update_dispatches_def clocked_def)
  show ?thesis
    using Some
    by (simp add: acknowledge_def bnd_run get_run update_run [where w = "clocked w" and r = r] Let_def)
      (simp add: n [symmetric] on_inbox_def reconcile_run put)
qed (simp add: acknowledge_def bnd_run get_run)

lemma close_run:
  "close_dispatch se i caller w = (case getDispatch i (w_inbox w) of
     None \<Rightarrow> (Inl (Thrown ''Dispatch not found''), clocked w)
   | Some r \<Rightarrow>
       if \<not> permitted se r (Some caller) then (Inl (Thrown (owner_error se (Some caller))), clocked w)
       else if sd_callbackSessionId r \<noteq> Some caller
       then (Inl (Thrown ''Only the callback session can close this dispatch''), clocked w)
       else if sd_state r \<noteq> Acknowledged \<and> sd_state r \<noteq> DispatchClosed
       then (Inl (Thrown ''A dispatch must be acknowledged before it is closed''), clocked w)
       else (Inr (closed_row (q_clock (w_db w)) r),
         (clocked w)\<lparr>w_inbox := reconciled caller (put_dispatch (closed_row (q_clock (w_db w)) r) (w_inbox (clocked w)))\<rparr>))"
proof (cases "getDispatch i (w_inbox w)")
  case (Some r)
  let ?n = "(r\<lparr>sd_state := DispatchClosed, sd_closedAt := (case sd_closedAt r of Some t \<Rightarrow> Some t | None \<Rightarrow> Some (q_clock (w_db w)))\<rparr>)
       \<lparr>sd_dispatchId := i, sd_updatedAt := q_clock (w_db w)\<rparr>"
  have n: "?n = closed_row (q_clock (w_db w)) r"
    using getDispatch_in [OF Some] by (cases r) (simp add: closed_row_def)
  have put: "(put_dispatch x (w_inbox (clocked w)))\<lparr>sd_clock := q_clock (w_db w)\<rparr> = put_dispatch x (w_inbox (clocked w))" for x
    by (simp add: put_dispatch_def update_dispatches_def clocked_def)
  show ?thesis
    using Some
    by (simp add: close_dispatch_def bnd_run get_run update_run [where w = "clocked w" and r = r] Let_def)
      (simp add: n [symmetric] on_inbox_def reconcile_run put)
qed (simp add: close_dispatch_def bnd_run get_run)

lemma retry_run:
  assumes "getDispatch i (w_inbox w) = Some r" "permitted se r (Some caller)" "sd_callbackSessionId r = Some caller"
    "nonempty (sd_terminalFingerprint r) \<noteq> None"
  shows "retryCallback se i caller w = (let n = (reset_callback r)\<lparr>sd_updatedAt := q_clock (w_db w)\<rparr> in
    bnd (se_requestNextTurn se caller) (\<lambda>_. ret n) ((clocked w)\<lparr>w_inbox := put_dispatch n (w_inbox (clocked w))\<rparr>))"
proof -
  have n: "(reset_callback r)\<lparr>sd_dispatchId := i, sd_updatedAt := t\<rparr> = (reset_callback r)\<lparr>sd_updatedAt := t\<rparr>" for t
    using getDispatch_in [OF assms(1)] by (cases r) (simp add: reset_callback_def)
  show ?thesis
    using assms by (auto simp: retryCallback_def bnd_run [of "service_get se i (Some caller)"] get_run
        bnd_run [of "on_inbox _"] update_run [where w = "clocked w" and r = r] Let_def n)
qed

end
