(* ===== verification/Dispatch_Rely.thy ===== *)
theory Dispatch_Rely
  imports Prompt_Dispatch Queue_Fifo
begin

text \<open>
  What a dispatch may rely on and what it guarantees to the handlers it runs beside. The invariant
  of the world is that a prompt an agent took is never waiting again. \<open>upholds\<close> relates the
  worlds before and after a step of anyone: the invariant stays, tokens stay fresh, and nobody but
  the owner of a token has an agent take the prompt it holds. It is reflexive and transitive, and
  every operation of the queue keeps it but an operator's decision to retry.
\<close>

section \<open>The invariant\<close>

definition spent :: "uuid list \<Rightarrow> queued_prompt \<Rightarrow> bool" where
  "spent taken r = (qp_id r \<in> set taken \<longrightarrow>
     qp_state r \<noteq> Pending \<and> (qp_state r = Claimed \<longrightarrow> qp_deliveryState r \<noteq> Some ''unsent''))"

definition tokens_ok :: "queue_db \<Rightarrow> bool" where
  "tokens_ok db = (\<forall>r \<in> set (q_rows db). case qp_claimToken r of Some t \<Rightarrow> t < q_nextId db | None \<Rightarrow> True)"

definition deliveries_ok :: "world \<Rightarrow> bool" where
  "deliveries_ok w \<longleftrightarrow> queue_ok (w_db w) \<and> tokens_ok (w_db w) \<and> distinct (w_taken w) \<and>
     (\<forall>i \<in> set (w_taken w). i < q_nextId (w_db w)) \<and> (\<forall>r \<in> set (q_rows (w_db w)). spent (w_taken w) r)"

definition held_by :: "uuid \<Rightarrow> uuid \<Rightarrow> queue_db \<Rightarrow> bool" where
  "held_by t i db = (\<exists>r \<in> set (q_rows db). qp_id r = i \<and> qp_state r = Claimed \<and> qp_claimToken r = Some t)"

text \<open>What a step leaves of the claim of a token.\<close>

definition undisturbed :: "uuid \<Rightarrow> world \<Rightarrow> world \<Rightarrow> bool" where
  "undisturbed t w w' \<longleftrightarrow> (\<forall>i. held_by t i (w_db w') \<longrightarrow>
     held_by t i (w_db w) \<and> (i \<in> set (w_taken w') \<longrightarrow> i \<in> set (w_taken w)))"

definition upholds :: "world \<Rightarrow> world \<Rightarrow> bool" where
  "upholds w w' \<longleftrightarrow> (deliveries_ok w \<longrightarrow> deliveries_ok w' \<and> q_nextId (w_db w) \<le> q_nextId (w_db w') \<and>
     (\<forall>t < q_nextId (w_db w). undisturbed t w w'))"

interpretation uphold: progress_order upholds
proof unfold_locales
  show "upholds w w" for w by (simp add: upholds_def undisturbed_def)
next
  fix w u v assume "upholds w u" "upholds u v"
  then show "upholds w v"
    unfolding upholds_def undisturbed_def by (meson less_le_trans order_trans)
qed

lemma upholdsD:
  assumes "upholds w w'" "deliveries_ok w"
  shows "deliveries_ok w'" "q_nextId (w_db w) \<le> q_nextId (w_db w')"
    "t < q_nextId (w_db w) \<Longrightarrow> held_by t i (w_db w') \<Longrightarrow> held_by t i (w_db w)"
    "t < q_nextId (w_db w) \<Longrightarrow> held_by t i (w_db w') \<Longrightarrow> i \<in> set (w_taken w') \<Longrightarrow> i \<in> set (w_taken w)"
  using assms by (auto simp: upholds_def undisturbed_def)

text \<open>Only the queue and the taken prompts matter.\<close>

lemma upholds_frame:
  "w_db w' = w_db w \<Longrightarrow> w_taken w' = w_taken w \<Longrightarrow> upholds w w'"
  by (simp add: upholds_def undisturbed_def deliveries_ok_def)

section \<open>Operations of the queue\<close>

text \<open>
  A change of the queue: rows disappear, are rewritten or are added. A rewritten row waits only if
  it waited before or its message had not left, and gains no old token.
\<close>

definition waiting :: "queued_prompt \<Rightarrow> bool" where
  "waiting r = (qp_state r = Pending \<or> qp_state r = Claimed \<and> qp_deliveryState r = Some ''unsent'')"

definition fresh_token :: "nat \<Rightarrow> nat \<Rightarrow> uuid option \<Rightarrow> bool" where
  "fresh_token n n' x = (case x of Some t \<Rightarrow> n \<le> t \<and> t < n' | None \<Rightarrow> True)"

definition row_step :: "nat \<Rightarrow> nat \<Rightarrow> queued_prompt \<Rightarrow> queued_prompt \<Rightarrow> bool" where
  "row_step n n' r r' \<longleftrightarrow> qp_id r' = qp_id r \<and> (waiting r' \<longrightarrow> waiting r) \<and>
     (qp_claimToken r' = qp_claimToken r \<and> (qp_state r' = Claimed \<longrightarrow> qp_state r = Claimed)
      \<or> fresh_token n n' (qp_claimToken r') \<and> (qp_state r' = Claimed \<longrightarrow> waiting r \<and> qp_claimToken r' \<noteq> None))"

definition row_moves :: "queue_db \<Rightarrow> queue_db \<Rightarrow> bool" where
  "row_moves db db' \<longleftrightarrow> q_nextId db \<le> q_nextId db' \<and>
     (\<forall>r' \<in> set (q_rows db'). (\<exists>r \<in> set (q_rows db). row_step (q_nextId db) (q_nextId db') r r') \<or>
        q_nextId db \<le> qp_id r' \<and> fresh_token (q_nextId db) (q_nextId db') (qp_claimToken r'))"

lemma row_step_refl: "row_step n n' r r"
  by (simp add: row_step_def)

lemma fresh_token_mono: "fresh_token m m' x \<Longrightarrow> n \<le> m \<Longrightarrow> m' \<le> n' \<Longrightarrow> fresh_token n n' x"
  by (auto simp: fresh_token_def split: option.splits)

lemma row_step_trans:
  assumes 1: "row_step n m r u" and 2: "row_step m n' u v" and le: "n \<le> m" "m \<le> n'"
  shows "row_step n n' r v"
proof -
  have w: "waiting v \<longrightarrow> waiting u" "waiting u \<longrightarrow> waiting r" "qp_id v = qp_id r" using 1 2 by (simp_all add: row_step_def)
  have f: "fresh_token n m x \<Longrightarrow> fresh_token n n' x" "fresh_token m n' x \<Longrightarrow> fresh_token n n' x" for x
    using le by (auto intro: fresh_token_mono)
  from 1 2 w f show ?thesis unfolding row_step_def by metis
qed

interpretation move: progress_order row_moves
proof unfold_locales
  show "row_moves db db" for db unfolding row_moves_def using row_step_refl by blast
next
  fix a b c assume ab: "row_moves a b" and bc: "row_moves b c"
  have le: "q_nextId a \<le> q_nextId b" "q_nextId b \<le> q_nextId c" using ab bc by (simp_all add: row_moves_def)
  show "row_moves a c"
    unfolding row_moves_def
  proof (intro conjI ballI)
    fix v assume "v \<in> set (q_rows c)"
    with bc consider (step) u where "u \<in> set (q_rows b)" "row_step (q_nextId b) (q_nextId c) u v"
      | (new) "q_nextId b \<le> qp_id v" "fresh_token (q_nextId b) (q_nextId c) (qp_claimToken v)"
      unfolding row_moves_def by blast
    then show "(\<exists>r \<in> set (q_rows a). row_step (q_nextId a) (q_nextId c) r v) \<or>
        q_nextId a \<le> qp_id v \<and> fresh_token (q_nextId a) (q_nextId c) (qp_claimToken v)"
    proof cases
      case new
      with le show ?thesis using fresh_token_mono le_trans by blast
    next
      case step
      from ab step(1) consider (old) r where "r \<in> set (q_rows a)" "row_step (q_nextId a) (q_nextId b) r u"
        | (added) "q_nextId a \<le> qp_id u" "fresh_token (q_nextId a) (q_nextId b) (qp_claimToken u)"
        unfolding row_moves_def by blast
      then show ?thesis
      proof cases
        case old
        with step(2) le show ?thesis using row_step_trans by blast
      next
        case added
        moreover have "qp_id v = qp_id u" "qp_claimToken v = qp_claimToken u \<or> fresh_token (q_nextId b) (q_nextId c) (qp_claimToken v)"
          using step(2) by (auto simp: row_step_def)
        ultimately have "q_nextId a \<le> qp_id v" "fresh_token (q_nextId a) (q_nextId c) (qp_claimToken v)"
          using le by (auto intro: fresh_token_mono)
        then show ?thesis by blast
      qed
    qed
  qed (use le in simp)
qed

lemma moves_upholds:
  assumes "row_moves (w_db w) (w_db w')" "queue_ok (w_db w) \<Longrightarrow> queue_ok (w_db w')" "w_taken w' = w_taken w"
  shows "upholds w w'"
  unfolding upholds_def
proof (intro impI conjI allI)
  let ?db = "w_db w" and ?db' = "w_db w'" and ?n = "q_nextId (w_db w)" and ?n' = "q_nextId (w_db w')"
  assume ok: "deliveries_ok w"
  show n: "?n \<le> ?n'" using assms by (simp add: row_moves_def)
  have old: "(\<exists>r \<in> set (q_rows ?db). row_step ?n ?n' r r') \<or> ?n \<le> qp_id r' \<and> fresh_token ?n ?n' (qp_claimToken r')"
    if "r' \<in> set (q_rows ?db')" for r'
    using assms(1) that unfolding row_moves_def by blast
  have token: "t < ?n" if "r \<in> set (q_rows ?db)" "qp_claimToken r = Some t" for r t
    using ok that by (auto simp: deliveries_ok_def tokens_ok_def dest!: bspec)
  have "case qp_claimToken r' of Some t \<Rightarrow> t < ?n' | None \<Rightarrow> True" if r': "r' \<in> set (q_rows ?db')" for r'
  proof (cases "qp_claimToken r'")
    case (Some t)
    from old [OF r'] have "fresh_token ?n ?n' (qp_claimToken r') \<or> (\<exists>r \<in> set (q_rows ?db). qp_claimToken r = Some t)"
      unfolding row_step_def by (metis Some)
    with token n Some show ?thesis by (auto simp: fresh_token_def intro: less_le_trans)
  qed simp
  moreover have "spent (w_taken w') r'" if r': "r' \<in> set (q_rows ?db')" for r'
    unfolding spent_def assms(3)
  proof
    assume t: "qp_id r' \<in> set (w_taken w)"
    then have "qp_id r' < ?n" using ok by (auto simp: deliveries_ok_def)
    with old [OF r'] obtain r where r: "r \<in> set (q_rows ?db)" "row_step ?n ?n' r r'" by auto
    have "spent (w_taken w) r" using ok r(1) by (simp add: deliveries_ok_def)
    with t r(2) have "\<not> waiting r'" by (auto simp: spent_def row_step_def waiting_def)
    then show "qp_state r' \<noteq> Pending \<and> (qp_state r' = Claimed \<longrightarrow> qp_deliveryState r' \<noteq> Some ''unsent'')"
      by (simp add: waiting_def)
  qed
  moreover have "\<forall>i \<in> set (w_taken w'). i < ?n'"
    using ok n assms(3) by (auto simp: deliveries_ok_def)
  ultimately show "deliveries_ok w'"
    using ok assms by (simp add: deliveries_ok_def tokens_ok_def)
  fix t assume t: "t < ?n"
  have "held_by t i ?db" if h: "held_by t i ?db'" for i
  proof -
    from h obtain r' where r': "r' \<in> set (q_rows ?db')" "qp_id r' = i" "qp_state r' = Claimed" "qp_claimToken r' = Some t"
      by (auto simp: held_by_def)
    have f: "\<not> fresh_token ?n ?n' (qp_claimToken r')" using r'(4) t by (simp add: fresh_token_def)
    with old [OF r'(1)] obtain r where r: "r \<in> set (q_rows ?db)" "row_step ?n ?n' r r'" by blast
    then have "qp_id r = i" "qp_state r = Claimed" "qp_claimToken r = Some t"
      using r'(2-4) f unfolding row_step_def by auto
    with r(1) show ?thesis unfolding held_by_def by blast
  qed
  then show "undisturbed t w w'" by (simp add: undisturbed_def assms(3))
qed

section \<open>Every operation of the queue\<close>

lemma moves_rows:
  "q_nextId db \<le> q_nextId db' \<Longrightarrow> (\<And>r'. r' \<in> set (q_rows db') \<Longrightarrow>
     \<exists>r \<in> set (q_rows db). row_step (q_nextId db) (q_nextId db') r r') \<Longrightarrow> row_moves db db'"
  unfolding row_moves_def by blast

lemma moves_same: "q_rows db' = q_rows db \<Longrightarrow> q_nextId db \<le> q_nextId db' \<Longrightarrow> row_moves db db'"
  by (rule moves_rows) (simp_all, use row_step_refl in blast)

lemma moves_delete: "row_moves db (delete_rows p db)"
  by (rule moves_rows) (auto simp: delete_rows_def intro: row_step_refl)

lemma moves_map:
  "q_nextId db' = q_nextId db \<Longrightarrow> q_rows db' = map f (q_rows db) \<Longrightarrow> (\<And>r. row_step (q_nextId db) (q_nextId db) r (f r)) \<Longrightarrow>
     row_moves db db'"
  by (rule moves_rows) auto

lemma moves_update:
  "(\<And>r n. p r \<Longrightarrow> row_step n n r (f r)) \<Longrightarrow> row_moves db (update_rows p f db)"
  by (rule moves_map [where f = "\<lambda>r. if p r then f r else r"]) (auto simp: update_rows_def intro: row_step_refl)

lemma moves_prune: "row_moves db (prunePromptQueueHistory sid db)"
proof (rule moves_rows)
  fix r' assume "r' \<in> set (q_rows (prunePromptQueueHistory sid db))"
  then obtain r where "r \<in> set (q_rows db)" "r' = r \<or> r' = r\<lparr>qp_content := [], qp_payload := None\<rparr>"
    by (auto simp: prunePromptQueueHistory_def Let_def blank_rows_def prune_rows_def split: if_splits)
  then show "\<exists>r \<in> set (q_rows db). row_step (q_nextId db) (q_nextId (prunePromptQueueHistory sid db)) r r'"
    by (auto simp: row_step_def waiting_def)
qed simp

lemma moves_reordered: "row_moves db (reordered sid db)"
proof -
  have "row_step n n r (number_of ps r)" for n ps r
    by (simp add: row_step_def waiting_def)
  then have "row_moves (prunePromptQueueHistory sid db) (reordered sid db)"
    by (intro moves_map [where f = "number_of (queue_of sid (prunePromptQueueHistory sid db))"])
      (simp_all add: reordered_def Let_def renumber_map)
  with moves_prune show ?thesis by (rule move.R_trans)
qed

lemma keeps_transaction: "keeps row_moves m \<Longrightarrow> keeps row_moves (transaction m)"
  by (auto simp: keeps_def transaction_run move.R_refl split: sum.split prod.split) (metis snd_conv)

lemma keeps_reorder: "keeps row_moves (reorderQueue sid)"
  by (simp add: keeps_def moves_reordered)

lemma keeps_prune: "keeps row_moves (modify (prunePromptQueueHistory sid))"
  by (intro move.keeps_modify moves_prune)

lemma keeps_delete: "keeps row_moves (modify (delete_rows p))"
  by (intro move.keeps_modify moves_delete)

lemma keeps_update: "(\<And>r n. p r \<Longrightarrow> row_step n n r (f r)) \<Longrightarrow> keeps row_moves (modify (update_rows p f))"
  by (intro move.keeps_modify moves_update)

lemma keeps_same: "(\<And>db. q_rows (f db) = q_rows db \<and> q_nextId db \<le> q_nextId (f db)) \<Longrightarrow> keeps row_moves (modify f)"
  by (intro move.keeps_modify moves_same) auto

text \<open>A row that leaves the queue, or keeps its claim.\<close>

lemma row_step_end: "qp_id r' = qp_id r \<Longrightarrow> qp_claimToken r' = qp_claimToken r \<Longrightarrow> qp_state r' \<noteq> Pending \<Longrightarrow> qp_state r' \<noteq> Claimed \<Longrightarrow>
    row_step n n' r r'"
  by (simp add: row_step_def waiting_def)

lemma row_step_keep: "qp_id r' = qp_id r \<Longrightarrow> qp_claimToken r' = qp_claimToken r \<Longrightarrow> qp_state r' = qp_state r \<Longrightarrow>
    qp_deliveryState r' = qp_deliveryState r \<Longrightarrow> row_step n n' r r'"
  by (simp add: row_step_def waiting_def)

lemmas keeps_queue = keeps_transaction keeps_reorder keeps_prune keeps_delete keeps_update keeps_same move.keeps_intros

lemma keeps_read: "keeps row_moves (getSessionQueue sid)" "keeps row_moves (getHandledPrompts sid)"
  unfolding getSessionQueue_def getHandledPrompts_def by (intro keeps_queue)+

lemma keeps_capture: "keeps row_moves (captureFreshHumanCutoff sid)"
  unfolding captureFreshHumanCutoff_def by (intro keeps_queue keeps_read)

lemma keeps_updateContent: "keeps row_moves (updatePromptContent sid i content)"
  unfolding updatePromptContent_def by (intro keeps_queue row_step_keep) simp_all

lemma keeps_deletePrompt: "keeps row_moves (deletePromptById sid i)"
  unfolding deletePromptById_def by (intro keeps_queue)

lemma keeps_clear: "keeps row_moves (clearSessionQueue sid)"
  unfolding clearSessionQueue_def by (intro keeps_queue)

lemma keeps_removeNext: "keeps row_moves (removeNextPrompt sid)"
  unfolding removeNextPrompt_def by (intro keeps_queue keeps_deletePrompt)

lemma keeps_deleteByType: "keeps row_moves (deletePromptsByType ty)"
proof -
  have "keeps row_moves (foldr (\<lambda>sid k. bnd (reorderQueue sid) (\<lambda>_. k)) sids (ret n))" for sids and n :: nat
    by (induction sids) (auto intro!: keeps_queue simp only: foldr.simps o_apply id_apply)
  then show ?thesis unfolding deletePromptsByType_def Let_def by (intro keeps_queue)
qed

lemma keeps_acknowledge: "keeps row_moves (acknowledgePrompt sid i rvn actor reason)"
  unfolding acknowledgePrompt_def by (intro keeps_queue row_step_end) simp_all

lemma keeps_supersede: "keeps row_moves (supersedeDedicatedPending sid b)"
proof -
  have "q_rows (fold (\<lambda>r. add_recovery sid r x y z u) rs db) = q_rows db \<and>
      q_nextId (fold (\<lambda>r. add_recovery sid r x y z u) rs db) = q_nextId db" for x y z u rs db
    by (induction rs arbitrary: db) (simp_all add: add_recovery_def)
  then show ?thesis
    unfolding supersedeDedicatedPending_def Let_def by (intro keeps_queue row_step_end) simp_all
qed

lemma keeps_retire: "keeps row_moves (retireForFreshHumanTrigger sid trigger snap)"
  unfolding retireForFreshHumanTrigger_def retireSessionWork_def by (intro keeps_queue row_step_end) simp_all

lemma keeps_rebind: "keeps row_moves (rebindSession source target)"
  unfolding rebindSession_def by (intro keeps_queue row_step_keep) simp_all

lemma moves_claim: "row_moves db (snd (claimNextPrompt sid db))"
proof (cases "getNextQueuedPrompt sid db")
  case (Some r)
  let ?p = "\<lambda>x. qp_id x = qp_id r \<and> qp_state x = Pending"
  have "row_moves db ((update_rows ?p (set_claimed (q_nextId db) c) db)\<lparr>q_nextId := Suc (q_nextId db)\<rparr>)" for c
  proof (rule moves_rows)
    fix r' assume "r' \<in> set (q_rows ((update_rows ?p (set_claimed (q_nextId db) c) db)\<lparr>q_nextId := Suc (q_nextId db)\<rparr>))"
    then obtain x where x: "x \<in> set (q_rows db)" "r' = (if ?p x then set_claimed (q_nextId db) c x else x)"
      by (auto simp: update_rows_def)
    then have "row_step (q_nextId db) (Suc (q_nextId db)) x r'"
      by (auto simp: row_step_refl) (simp add: row_step_def set_claimed_def waiting_def fresh_token_def)
    with x show "\<exists>r \<in> set (q_rows db). row_step (q_nextId db)
        (q_nextId ((update_rows ?p (set_claimed (q_nextId db) c) db)\<lparr>q_nextId := Suc (q_nextId db)\<rparr>)) r r'"
      by auto
  qed simp
  with Some show ?thesis by (simp add: claim_run move.R_refl)
qed (simp add: claim_run move.R_refl)

lemma moves_add: "row_moves db (snd (addPrompt sid inp db))"
proof -
  let ?db = "prunePromptQueueHistory sid db"
  have "row_moves ?db (insert_prompt (new_prompt sid inp c ?db) ?db)" for c
    using row_step_refl by (auto simp: row_moves_def insert_prompt_def new_prompt_def fresh_token_def)
  moreover have "row_moves ?db (?db\<lparr>q_nextId := Suc (q_nextId ?db)\<rparr>)" by (rule moves_same) simp_all
  ultimately have "row_moves ?db (snd (addPrompt sid inp db))"
    by (simp add: add_run Let_def move.R_refl)
  with moves_prune show ?thesis by (rule move.R_trans)
qed

text \<open>A claim an operator found accepted.\<close>

lemma keeps_reconcile: "keeps row_moves (reconcileClaim sid i rvn token ''accepted'' actor reason)"
proof -
  have r: "row_step n n r (set_reconciled True a b c r)" for n r a b c
    by (simp add: row_step_def set_reconciled_def waiting_def fresh_token_def)
  show ?thesis unfolding reconcileClaim_def by (intro keeps_queue) (simp_all add: r add_recovery_def)
qed

text \<open>The marks of a delivery and its completion.\<close>

lemma keeps_marks: "keeps row_moves (recordClaimAcceptance sid i t)" "keeps row_moves (markClaimSending sid i t)"
  by (auto simp: keeps_def recordClaimAcceptance_def markClaimSending_def guarded_run move.R_refl row_step_def waiting_def
      claim_row_def intro!: moves_update)

lemma keeps_complete: "keeps row_moves (completeClaim sid i t)"
  unfolding keeps_def complete_run
  using move.R_trans [OF moves_update moves_reordered] by (auto simp: move.R_refl row_step_end)

end
