(* ===== verification/Dispatch_Safety.thy ===== *)
theory Dispatch_Safety
  imports Dispatch_Rely Delivery_Order
begin

text \<open>
  A dispatch in which all others keep \<open>upholds\<close> keeps it too: its claim is its own until it
  settles it, the agent takes the prompt only after the send was marked, and the claim goes back to
  the queue only when the agent has not taken it.
\<close>

section \<open>A dispatch among others\<close>

lemma keeps_on_queue:
  "keeps row_moves m \<Longrightarrow> (\<And>db. queue_ok db \<Longrightarrow> queue_ok (snd (m db))) \<Longrightarrow> keeps upholds (on_queue m)"
  unfolding keeps_def
proof
  fix w :: world
  assume m: "\<forall>db. row_moves db (snd (m db))" and ok: "\<And>db. queue_ok db \<Longrightarrow> queue_ok (snd (m db))"
  have "row_moves (w_db w) (snd (m (w_db w)))" using m by blast
  moreover have "queue_ok (snd (m (w_db w)))" if "queue_ok (w_db w)" using that by (rule ok)
  ultimately show "upholds w (snd (on_queue m w))"
    by (intro moves_upholds) (auto simp: on_queue_def split: prod.splits sum.splits)
qed

lemma keeps_frame: "(\<And>w. w_db (f w) = w_db w \<and> w_taken (f w) = w_taken w) \<Longrightarrow> keeps upholds (modify f)"
  by (intro uphold.keeps_modify upholds_frame) auto

text \<open>What the transport and the other handlers are trusted with.\<close>

definition honest :: "surroundings \<Rightarrow> bool" where
  "honest su = (\<not> (su_adapter su \<and> su_direct su) \<longrightarrow> (case su_answer su of
     Answered st msg \<Rightarrow> 400 \<le> st \<and> st < 500 \<and> st \<noteq> 408 \<longrightarrow> \<not> su_takes su | NoAnswer e \<Rightarrow> True))"

lemma honest_rejected:
  "honest su \<Longrightarrow> \<not> (su_adapter su \<and> su_direct su) \<Longrightarrow> mr_certainty (read_answer (su_answer su)) = Rejected \<Longrightarrow> \<not> su_takes su"
  by (cases "su_answer su") (auto simp: honest_def read_answer_def result_def split: if_splits)

text \<open>The agent has not taken the prompt of a claim.\<close>

definition untaken :: "uuid \<Rightarrow> uuid \<Rightarrow> world \<Rightarrow> bool" where
  "untaken t i w \<longleftrightarrow> t < q_nextId (w_db w) \<and> (held_by t i (w_db w) \<longrightarrow> i \<notin> set (w_taken w))"

lemma untaken_step: "untaken t i w \<Longrightarrow> upholds w w' \<Longrightarrow> deliveries_ok w \<Longrightarrow> untaken t i w'"
  unfolding untaken_def using upholdsD by (meson less_le_trans)

lemma upholds_ok: "upholds w0 w \<Longrightarrow> deliveries_ok w0 \<Longrightarrow> deliveries_ok w"
  by (rule upholdsD)

lemma one_holder: "deliveries_ok w \<Longrightarrow> held_by t i (w_db w) \<Longrightarrow> held_by u i (w_db w) \<Longrightarrow> t = u"
  unfolding held_by_def deliveries_ok_def using one_row [of "w_db w"] by (fastforce simp: queue_ok_ids)

lemma release_upholds:
  assumes "held_by t i (w_db w) \<longrightarrow> i \<notin> set (w_taken w)"
  shows "upholds w (snd (on_queue (releaseRejectedClaim sid i t certainty) w))"
proof -
  let ?f = "\<lambda>r. r\<lparr>qp_state := Pending, qp_deliveryState := Some certainty, qp_claimToken := None\<rparr>"
  let ?db = "update_rows (claim_row sid i t) ?f (w_db w)"
  have run: "snd (on_queue (releaseRejectedClaim sid i t certainty) w) = w\<lparr>w_db := ?db\<rparr>"
    by (simp add: on_queue_def releaseRejectedClaim_def)
  show ?thesis
    unfolding run upholds_def
  proof (intro impI conjI allI)
    assume ok: "deliveries_ok w"
    have rows: "\<exists>r \<in> set (q_rows (w_db w)). r' = (if claim_row sid i t r then ?f r else r)" if "r' \<in> set (q_rows ?db)" for r'
      using that by (auto simp: update_rows_def)
    have "queue_ok ?db" using ok_release [of "w_db w" sid i t certainty] ok
      by (simp add: deliveries_ok_def releaseRejectedClaim_def)
    moreover have "tokens_ok ?db"
    proof -
      have "q_nextId ?db = q_nextId (w_db w)" by (simp add: update_rows_def)
      moreover have "\<forall>r \<in> set (q_rows (w_db w)). case qp_claimToken r of Some t \<Rightarrow> t < q_nextId (w_db w) | None \<Rightarrow> True"
        using ok by (simp add: deliveries_ok_def tokens_ok_def)
      ultimately show ?thesis unfolding tokens_ok_def by (auto simp: update_rows_def split: option.split)
    qed
    moreover have "\<forall>r' \<in> set (q_rows ?db). spent (w_taken w) r'"
    proof
      fix r' assume "r' \<in> set (q_rows ?db)"
      with rows obtain r where r: "r \<in> set (q_rows (w_db w))" "r' = (if claim_row sid i t r then ?f r else r)" by blast
      show "spent (w_taken w) r'"
      proof (cases "claim_row sid i t r")
        case True
        then have "held_by t i (w_db w)" using r(1) by (auto simp: held_by_def claim_row_def)
        with assms True r(2) show ?thesis by (simp add: spent_def claim_row_def)
      qed (use ok r in \<open>simp add: deliveries_ok_def\<close>)
    qed
    ultimately show "deliveries_ok (w\<lparr>w_db := ?db\<rparr>)"
      using ok by (simp add: deliveries_ok_def update_rows_def)
    show "undisturbed u w (w\<lparr>w_db := ?db\<rparr>)" for u
      by (auto simp: undisturbed_def held_by_def update_rows_def split: if_splits)
  qed (simp add: update_rows_def)
qed

text \<open>The mark of the send: it fails and leaves the world, or the claim is current.\<close>

lemma sending_cases:
  assumes ok: "deliveries_ok w"
  obtains (failed) e where "on_queue (markClaimSending sid i t) w = (Inl e, w)"
  | (marked) w' where "on_queue (markClaimSending sid i t) w = (Inr (), w')" "upholds w w'" "w_taken w' = w_taken w"
      "i \<notin> set (w_taken w')" "held_by t i (w_db w')"
      "\<forall>r \<in> set (q_rows (w_db w')). qp_id r = i \<longrightarrow> \<not> waiting r" "q_nextId (w_db w') = q_nextId (w_db w)"
proof -
  let ?p = "\<lambda>r. claim_row sid i t r \<and> qp_deliveryState r = Some ''unsent''"
  let ?f = "\<lambda>r. r\<lparr>qp_deliveryState := Some ''uncertain'', qp_deliveryUpdatedAt := Some (q_clock (w_db w))\<rparr>"
  let ?w = "w\<lparr>w_db := update_rows ?p ?f (w_db w)\<rparr>"
  show thesis
  proof (cases "changes ?p (w_db w) = 0")
    case True
    then have "on_queue (markClaimSending sid i t) w = (Inl (Thrown ''Dispatch claim changed''), w)"
      by (simp add: on_queue_def markClaimSending_def guarded_run)
    then show thesis by (rule failed)
  next
    case False
    then have run: "on_queue (markClaimSending sid i t) w = (Inr (), ?w)"
      by (simp add: on_queue_def markClaimSending_def guarded_run)
    from False obtain r where r: "r \<in> set (q_rows (w_db w))" "?p r" by (auto simp: changes_def filter_empty_conv)
    have only: "x = r" if "x \<in> set (q_rows (w_db w))" "qp_id x = i" for x
      using one_row [of "w_db w" x r] ok that r by (simp add: deliveries_ok_def queue_ok_ids claim_row_def)
    have "row_moves (w_db w) (update_rows ?p ?f (w_db w))"
      by (rule moves_update) (simp add: row_step_def waiting_def)
    moreover have "queue_ok (update_rows ?p ?f (w_db w))" if "queue_ok (w_db w)"
      using ok_sending [OF that, of sid i t] False by (simp add: markClaimSending_def guarded_run)
    ultimately have "upholds w ?w" by (intro moves_upholds) simp_all
    moreover have "i \<notin> set (w_taken w)"
      using ok r by (auto simp: deliveries_ok_def spent_def claim_row_def dest!: bspec)
    moreover have "held_by t i (w_db ?w)"
      using r unfolding held_by_def by (auto simp: claim_row_def update_rows_def intro!: bexI [of _ "?f r"] image_eqI [of _ _ r])
    moreover have "\<forall>x \<in> set (q_rows (w_db ?w)). qp_id x = i \<longrightarrow> \<not> waiting x"
      using only r by (auto simp: update_rows_def waiting_def claim_row_def)
    ultimately show thesis using run by (intro marked [of ?w]) (simp_all add: update_rows_def)
  qed
qed

text \<open>The agent takes the prompt of a marked claim whose token is younger than the dispatch.\<close>

lemma take_upholds:
  assumes ok: "deliveries_ok w0" and up: "upholds w0 w" and held: "held_by t i (w_db w)" and young: "q_nextId (w_db w0) \<le> t"
    and new: "i \<notin> set (w_taken w)" and sent: "\<forall>r \<in> set (q_rows (w_db w)). qp_id r = i \<longrightarrow> \<not> waiting r"
  shows "upholds w0 (w\<lparr>w_taken := i # w_taken w\<rparr>)"
  unfolding upholds_def
proof (intro impI conjI allI)
  have w: "deliveries_ok w" by (rule upholds_ok [OF up ok])
  have "i < q_nextId (w_db w)" using held w by (auto simp: held_by_def deliveries_ok_def queue_ok_def)
  moreover have "spent (i # w_taken w) r" if "r \<in> set (q_rows (w_db w))" for r
    using w sent that by (auto simp: deliveries_ok_def spent_def waiting_def)
  ultimately show "deliveries_ok (w\<lparr>w_taken := i # w_taken w\<rparr>)"
    using w new by (simp add: deliveries_ok_def)
  show "q_nextId (w_db w0) \<le> q_nextId (w_db (w\<lparr>w_taken := i # w_taken w\<rparr>))" using upholdsD [OF up ok] by simp
  fix u assume u: "u < q_nextId (w_db w0)"
  show "undisturbed u w0 (w\<lparr>w_taken := i # w_taken w\<rparr>)"
    unfolding undisturbed_def
  proof (intro allI impI conjI)
    fix j assume h: "held_by u j (w_db (w\<lparr>w_taken := i # w_taken w\<rparr>))"
    then have h: "held_by u j (w_db w)" by simp
    show "held_by u j (w_db w0)" by (rule upholdsD(3) [OF up ok u h])
    assume j: "j \<in> set (w_taken (w\<lparr>w_taken := i # w_taken w\<rparr>))"
    have "j \<noteq> i" using one_holder [OF w held, of u] h young u by auto
    with j have "j \<in> set (w_taken w)" by simp
    then show "j \<in> set (w_taken w0)" by (rule upholdsD(4) [OF up ok u h])
  qed
qed

text \<open>The worlds a dispatch goes through are related to the one it started in.\<close>

lemma sending_transmit:
  assumes ok: "deliveries_ok w0" and up: "upholds w0 w" and young: "q_nextId (w_db w0) \<le> t" and un: "untaken t i w"
    and others: "\<And>k v. upholds v (su_others su k v)"
  obtains (failed) e where "on_queue (markClaimSending sid i t) w = (Inl e, w)"
  | (sent) w' where "on_queue (markClaimSending sid i t) w = (Inr (), w')" "upholds w0 (transmit su (takes_prompt i) w')"
      "\<not> su_takes su \<Longrightarrow> untaken t i (transmit su (takes_prompt i) w')"
proof -
  have w: "deliveries_ok w" by (rule upholds_ok [OF up ok])
  then show thesis
  proof (cases rule: sending_cases [of w sid i t])
    case (failed e)
    then show thesis by (rule that(1))
  next
    case (marked w')
    have up': "upholds w0 w'" by (rule uphold.R_trans [OF up marked(2)])
    let ?v = "if su_takes su then takes_prompt i w' else w'"
    have v: "upholds w0 ?v"
      using up' take_upholds [OF ok up' marked(5) young marked(4) marked(6)] by (simp add: takes_prompt_def)
    have "upholds w0 (transmit su (takes_prompt i) w')"
      unfolding transmit_def by (rule uphold.R_trans [OF v others])
    moreover have "untaken t i (transmit su (takes_prompt i) w')" if "\<not> su_takes su"
    proof -
      have "untaken t i w'" using un marked(4,7) by (simp add: untaken_def)
      then show ?thesis
        unfolding transmit_def using that others upholds_ok [OF up' ok] by (simp add: untaken_step)
    qed
    ultimately show thesis by (rule that(2) [OF marked(1)])
  qed
qed

lemma read_answer_ok: "mr_ok (read_answer a) \<Longrightarrow> mr_certainty (read_answer a) = Accepted"
  "mr_certainty (read_answer a) \<noteq> Unsent"
  by (cases a; auto simp: read_answer_def result_def split: if_splits)+

lemma adapter_failure_certainty: "mr_certainty (adapter_failure True e) = Uncertain"
  by (simp add: adapter_failure_def result_def)

lemma submitOnce_upholds:
  assumes ok: "deliveries_ok w0" and up: "upholds w0 w" and young: "q_nextId (w_db w0) \<le> t" and un: "untaken t i w"
    and others: "\<And>k v. upholds v (su_others su k v)" and honest: "honest su" "\<not> (su_adapter su \<and> su_direct su)"
  obtains r w' where "submitOnce su (takes_prompt i) (ret True) (on_queue (markClaimSending sid i t)) w = (Inr r, w')"
    "upholds w0 w'" "mr_certainty r = Unsent \<or> mr_certainty r = Rejected \<Longrightarrow> untaken t i w'"
proof (cases "su_url su")
  case (Some e)
  then show thesis using up un by (intro that) (simp_all add: submitOnce_def)
next
  case None
  show thesis
  proof (cases rule: sending_transmit [OF ok up young un others, of sid, case_names failed sent])
    case (failed e)
    then show thesis using up un None by (intro that) (simp_all add: submitOnce_def)
  next
    case (sent w')
    show thesis
    proof (rule that)
      show "submitOnce su (takes_prompt i) (ret True) (on_queue (markClaimSending sid i t)) w = (Inr (read_answer (su_answer su)), transmit su (takes_prompt i) w')"
        using sent(1) None by (simp add: submitOnce_def)
      show "untaken t i (transmit su (takes_prompt i) w')" if "mr_certainty (read_answer (su_answer su)) = Unsent \<or> mr_certainty (read_answer (su_answer su)) = Rejected"
        using that honest_rejected [OF honest] read_answer_ok(2) sent(3) by blast
    qed (rule sent(2))
  qed
qed

lemma direct_upholds:
  assumes ok: "deliveries_ok w0" and up: "upholds w0 w" and young: "q_nextId (w_db w0) \<le> t" and un: "untaken t i w"
    and others: "\<And>k v. upholds v (su_others su k v)"
  obtains r w' where "deliverDirectly su (takes_prompt i) (ret True) (on_queue (markClaimSending sid i t)) w = (Inr r, w')"
    "upholds w0 w'" "mr_certainty r = Unsent \<or> mr_certainty r = Rejected \<Longrightarrow> untaken t i w'"
proof -
  let ?w = "su_others su 1 w"
  have up': "upholds w0 ?w" by (rule uphold.R_trans [OF up others])
  have un': "untaken t i ?w" by (rule untaken_step [OF un others upholds_ok [OF up ok]])
  let ?run = "case on_queue (markClaimSending sid i t) ?w of
             (Inl e, w') \<Rightarrow> (Inr (adapter_failure False (error_message e)), w')
           | (Inr _, w') \<Rightarrow> (Inr (case submitAdapterPrompt su of
                 Some e \<Rightarrow> adapter_failure True e | None \<Rightarrow> result Accepted True 200 []), transmit su (takes_prompt i) w')"
  consider (early) r where "deliverDirectly su (takes_prompt i) (ret True) (on_queue (markClaimSending sid i t)) w = (Inr r, w)"
    | (send) "deliverDirectly su (takes_prompt i) (ret True) (on_queue (markClaimSending sid i t)) w = ?run"
  proof (cases "su_readiness su")
    case (Inl e)
    then show thesis by (intro early) (simp add: deliverDirectly_def)
  next
    case (Inr ready)
    show thesis
    proof (cases "case ready of Some r \<Rightarrow> rd_state r = Busy \<or> rd_state r = Starting | None \<Rightarrow> False")
      case True
      with Inr show thesis by (intro early) (simp add: deliverDirectly_def)
    next
      case False
      show thesis
      proof (cases "su_wait su")
        case None
        with Inr False show thesis by (intro send) (simp add: deliverDirectly_def bnd_run)
      next
        case (Some e)
        with Inr False show thesis by (intro early) (simp add: deliverDirectly_def)
      qed
    qed
  qed
  then show thesis
  proof cases
    case early
    then show thesis using up un by (intro that) simp_all
  next
    case send
    show thesis
    proof (cases rule: sending_transmit [OF ok up' young un' others, of sid, case_names failed sent])
      case (failed e)
      then show thesis using send up' un' by (intro that) simp_all
    next
      case (sent w')
      let ?r = "case submitAdapterPrompt su of Some e \<Rightarrow> adapter_failure True e | None \<Rightarrow> result Accepted True 200 []"
      have "mr_certainty ?r \<noteq> Unsent \<and> mr_certainty ?r \<noteq> Rejected"
        by (simp add: adapter_failure_certainty split: option.split) (simp add: result_def)
      with send sent(1,2) show thesis by (intro that [of ?r "transmit su (takes_prompt i) w'"]) simp_all
    qed
  qed
qed

lemma delivery_upholds:
  assumes ok: "deliveries_ok w0" and up: "upholds w0 w" and young: "q_nextId (w_db w0) \<le> t" and un: "untaken t i w"
    and others: "\<And>k v. upholds v (su_others su k v)" and honest: "honest su"
  obtains r w' where "deliverSessionAgentMessage su False (takes_prompt i) (ret True) (on_queue (markClaimSending sid i t)) w = (Inr r, w')"
    "upholds w0 w'" "mr_certainty r = Unsent \<or> mr_certainty r = Rejected \<Longrightarrow> untaken t i w'"
proof (cases "su_adapter su \<and> su_direct su")
  case True
  obtain r w' where "deliverDirectly su (takes_prompt i) (ret True) (on_queue (markClaimSending sid i t)) w = (Inr r, w')"
    "upholds w0 w'" "mr_certainty r = Unsent \<or> mr_certainty r = Rejected \<Longrightarrow> untaken t i w'"
    by (rule direct_upholds [OF ok up young un others, of sid]) blast
  with True show thesis by (intro that [of r w']) (simp_all add: deliverSessionAgentMessage_def)
next
  case False
  note nd = this
  have up': "upholds w0 (su_others su 1 w)" by (rule uphold.R_trans [OF up others])
  have un': "untaken t i (su_others su 1 w)" by (rule untaken_step [OF un others upholds_ok [OF up ok]])
  obtain r w' where a: "submitOnce su (takes_prompt i) (ret True) (on_queue (markClaimSending sid i t)) w = (Inr r, w')"
    "upholds w0 w'" "mr_certainty r = Unsent \<or> mr_certainty r = Rejected \<Longrightarrow> untaken t i w'"
    by (rule submitOnce_upholds [OF ok up young un others honest nd, of sid]) blast
  obtain r2 w2 where b: "submitOnce su (takes_prompt i) (ret True) (on_queue (markClaimSending sid i t)) (su_others su 1 w) = (Inr r2, w2)"
    "upholds w0 w2" "mr_certainty r2 = Unsent \<or> mr_certainty r2 = Rejected \<Longrightarrow> untaken t i w2"
    by (rule submitOnce_upholds [OF ok up' young un' others honest nd, of sid]) blast
  show thesis
  proof (cases "su_adapter su")
    case no: False
    with a nd show thesis by (intro that [of r w']) (simp_all add: deliverSessionAgentMessage_def)
  next
    case True
    show thesis
    proof (cases "su_wait su")
      case None
      with True b nd show thesis by (intro that [of r2 w2]) (simp_all add: deliverSessionAgentMessage_def bnd_run)
    next
      case (Some e)
      with True nd up un show thesis
        by (intro that [of "result Unsent False 502 (''Failed to contact agent: '' @ e)" w]) (simp_all add: deliverSessionAgentMessage_def)
    qed
  qed
qed

lemma keeps_accept_claim: "keeps upholds (accept_claim sid i t)"
  unfolding accept_claim_def
  by (intro uphold.keeps_intros keeps_on_queue keeps_frame ok_accept ok_complete keeps_marks keeps_complete) simp_all

lemma keeps_read_queue: "keeps upholds (on_queue (getSessionQueue sid))"
  by (intro keeps_on_queue keeps_read) (simp add: getSessionQueue_def bnd_run ok_prune)

lemma found_in: "List.find P xs = Some x \<Longrightarrow> x \<in> set xs \<and> P x"
  by (auto simp: find_Some_iff)

lemma queued_row: "r \<in> set (queue_of sid db) \<Longrightarrow> r \<in> set (q_rows db)"
  by (simp add: queue_of_rows)

lemma claim_returns: "\<exists>x w'. on_queue (claimNextPrompt sid) w = (Inr x, w')"
  by (cases "getNextQueuedPrompt sid (w_db w)") (simp_all add: on_queue_def claim_run)

lemma snd_rethrow: "snd (bnd m (\<lambda>_. bnd (reads f) (\<lambda>x. throw (g x))) w) = snd (m w)"
  by (simp add: bnd_run split: prod.split sum.split)

lemma keeps_others: "(\<And>k v. upholds v (su_others su k v)) \<Longrightarrow> keeps upholds (modify (su_others su k))"
  by (rule uphold.keeps_modify)

lemma keeps_failed_dispatch: "keeps upholds (failed_dispatch sid p e)"
  unfolding keeps_def
proof
  fix w :: world
  let ?u = "w\<lparr>w_db := prunePromptQueueHistory sid (w_db w)\<rparr>"
  have read: "on_queue (getSessionQueue sid) w = (Inr (queue_of sid (w_db ?u)), ?u)"
    by (simp add: on_queue_def getSessionQueue_def bnd_run)
  have up: "upholds w ?u" using keeps_read_queue [of sid] read by (metis keeps_def snd_conv)
  let ?cur = "List.find (\<lambda>x. qp_id x = qp_id p) (queue_of sid (w_db ?u))"
  let ?released = "(case ?cur of Some c \<Rightarrow> qp_state c = Claimed | None \<Rightarrow> False) \<and>
    (case ?cur of Some c \<Rightarrow> qp_deliveryState c = Some ''unsent'' | None \<Rightarrow> False)"
  have run: "snd (failed_dispatch sid p e w) =
      (if ?released then snd (on_queue (releaseRejectedClaim sid (qp_id p) (the_token p) ''unsent'') ?u) else ?u)"
    by (simp only: failed_dispatch_def bnd_run [of "on_queue (getSessionQueue sid)"] read prod.case sum.case Let_def
        snd_rethrow if_distrib [of "\<lambda>m. snd (m ?u)"] ret_run snd_conv)
  show "upholds w (snd (failed_dispatch sid p e w))"
  proof (cases ?released)
    case True
    then obtain c where "?cur = Some c" and c: "qp_state c = Claimed" "qp_deliveryState c = Some ''unsent''"
      by (auto split: option.splits)
    then have "c \<in> set (queue_of sid (w_db ?u))" and i: "qp_id c = qp_id p" by (auto dest: found_in)
    then have m: "c \<in> set (q_rows (w_db ?u))" "qp_id c = qp_id p" by (blast intro: queued_row)+
    have "upholds ?u (snd (on_queue (releaseRejectedClaim sid (qp_id p) (the_token p) ''unsent'') ?u))" if "deliveries_ok ?u"
    proof (rule release_upholds)
      have "spent (w_taken ?u) c" using that m(1) unfolding deliveries_ok_def by blast
      with c m(2) have "qp_id p \<notin> set (w_taken ?u)" by (auto simp: spent_def)
      then show "held_by (the_token p) (qp_id p) (w_db ?u) \<longrightarrow> qp_id p \<notin> set (w_taken ?u)" by blast
    qed
    then have "upholds ?u (snd (failed_dispatch sid p e w))"
      unfolding run using True by (cases "deliveries_ok ?u") (simp_all add: upholds_def)
    with up show ?thesis by (rule uphold.R_trans)
  next
    case False
    then have "snd (failed_dispatch sid p e w) = ?u" unfolding run by (rule if_not_P)
    with up show ?thesis by metis
  qed
qed

lemma deliver_claim_upholds:
  assumes ok: "deliveries_ok w0" and up: "upholds w0 w" and young: "q_nextId (w_db w0) \<le> the_token p"
    and un: "untaken (the_token p) (qp_id p) w" and others: "\<And>k v. upholds v (su_others su k v)" and honest: "honest su"
  shows "upholds w0 (snd (deliver_claim su ses p w))"
proof -
  obtain r w' where d: "deliverSessionAgentMessage su False (takes_prompt (qp_id p)) (ret True)
        (on_queue (markClaimSending (si_id ses) (qp_id p) (the_token p))) w = (Inr r, w')"
      "upholds w0 w'" "mr_certainty r = Unsent \<or> mr_certainty r = Rejected \<Longrightarrow> untaken (the_token p) (qp_id p) w'"
    by (rule delivery_upholds [OF ok up young un others honest, of "si_id ses"]) blast
  consider (closed) "completed_turn ses \<or> w_draining w" | (refused) "\<not> completed_turn ses" "\<not> w_draining w" "\<not> mr_ok r"
    | (sent) "\<not> completed_turn ses" "\<not> w_draining w" "mr_ok r" by blast
  then show ?thesis
  proof cases
    case closed
    then have "snd (deliver_claim su ses p w) = w"
      by (auto simp: deliver_claim_def deliverAcceptedPrompt_def bnd_run)
    with up show ?thesis by simp
  next
    case refused
    let ?released = "mr_certainty r = Unsent \<or> mr_certainty r = Rejected"
    have run: "snd (deliver_claim su ses p w) = (if ?released then snd (on_queue (releaseRejectedClaim (si_id ses) (qp_id p)
        (the_token p) (certainty_text (mr_certainty r))) w') else w')"
      using refused d(1) by (simp add: deliver_claim_def deliverAcceptedPrompt_def bnd_run on_queue_def releaseRejectedClaim_def)
    show ?thesis
    proof (cases ?released)
      case True
      have "upholds w' (snd (on_queue (releaseRejectedClaim (si_id ses) (qp_id p) (the_token p) (certainty_text (mr_certainty r))) w'))"
        by (rule release_upholds) (use d(3) [OF True] in \<open>simp add: untaken_def\<close>)
      with d(2) show ?thesis unfolding run using True uphold.R_trans by simp
    qed (use run d(2) in simp)
  next
    case sent
    let ?after = "bnd (accept_claim (si_id ses) (qp_id p) (the_token p)) (\<lambda>_. case su_bridge su of
              Some e \<Rightarrow> throw (Thrown e)
            | None \<Rightarrow> bnd (modify (su_others su 3)) (\<lambda>_.
                ret (waitForMessageUpdate (su_counts su) (su_initial su) 0 80)))"
    have "keeps upholds (bnd ?after (\<lambda>n. bnd (modify (clear_cooldown (si_id ses))) (\<lambda>_. ret n)))"
      by (rule keeps_others [OF others] uphold.keeps_intros keeps_accept_claim | rule keeps_frame, simp add: clear_cooldown_def)+
    then have "upholds w' (snd (bnd ?after (\<lambda>n. bnd (modify (clear_cooldown (si_id ses))) (\<lambda>_. ret n)) w'))"
      unfolding keeps_def by blast
    moreover have "deliver_claim su ses p w = bnd ?after (\<lambda>n. bnd (modify (clear_cooldown (si_id ses))) (\<lambda>_. ret n)) w'"
      using sent d(1) by (simp add: deliver_claim_def deliverAcceptedPrompt_def bnd_run)
    ultimately show ?thesis using d(2) uphold.R_trans by metis
  qed
qed

lemma claim_world:
  assumes ok: "deliveries_ok w" and c: "on_queue (claimNextPrompt sid) w = (Inr (Some p), w')"
  shows "the_token p = q_nextId (w_db w)" "untaken (the_token p) (qp_id p) w'" "upholds w w'"
proof -
  show up: "upholds w w'"
    using keeps_on_queue [of "claimNextPrompt sid"] moves_claim ok_claim c by (metis keeps_def snd_conv)
  obtain r where r: "getNextQueuedPrompt sid (w_db w) = Some r" "qp_state r = Pending"
      "p = r\<lparr>qp_state := Claimed, qp_claimToken := Some (q_nextId (w_db w)), qp_deliveryState := Some ''unsent'',
        qp_deliveryId := Some (q_nextId (w_db w))\<rparr>"
      and w': "q_nextId (w_db w') = Suc (q_nextId (w_db w))" "w_taken w' = w_taken w"
    using c by (auto simp: on_queue_def claim_run split: option.splits if_splits)
  show t: "the_token p = q_nextId (w_db w)" by (simp add: the_token_def r(3))
  have "spent (w_taken w) r" using ok head_in [OF r(1)] by (auto simp: deliveries_ok_def)
  then have "qp_id p \<notin> set (w_taken w)" using r(2,3) by (auto simp: spent_def)
  then show "untaken (the_token p) (qp_id p) w'" by (simp add: untaken_def t w')
qed

lemma ready_upholds:
  "(\<And>k v. upholds v (su_others su k v)) \<Longrightarrow> keeps upholds (ensureSessionReadyForPromptDispatch su ses)"
  unfolding ensureSessionReadyForPromptDispatch_def
  by (cases "su_ready su"; simp only: sum.case) (rule keeps_others uphold.keeps_intros | assumption | rule keeps_frame, simp)+

lemma dispatch_upholds:
  assumes others: "\<And>k v. upholds v (su_others su k v)" and honest: "honest su"
  shows "keeps upholds (dispatchQueuedPromptWithClaim su approved ses user)"
proof -
  note ready = ready_upholds [OF others]
  let ?rest = "bnd (on_queue (claimNextPrompt (si_id ses))) (\<lambda>next'. case next' of
                 None \<Rightarrow> bnd (reads (\<lambda>w. getNextQueuedPrompt (si_id ses) (w_db w))) (\<lambda>head.
                   throw (case head of
                     Some h \<Rightarrow> if qp_state h = Claimed
                       then Dispatch ''Queued prompt has an unresolved dispatch claim; inspect delivery before operator recovery''
                              409 (UnresolvedClaim (qp_id h))
                       else Dispatch ''No prompts in queue'' 404 NoPayload
                   | None \<Rightarrow> Dispatch ''No prompts in queue'' 404 NoPayload))
               | Some p \<Rightarrow> handle (bnd (deliver_claim su ses p) (\<lambda>n. ret (p, n))) (failed_dispatch (si_id ses) p))"
  have "keeps upholds ?rest"
    unfolding keeps_def
  proof
    fix w :: world
    show "upholds w (snd (?rest w))"
    proof (cases "deliveries_ok w")
      case False
      then show ?thesis by (simp add: upholds_def)
    next
      case ok: True
      obtain x w' where c: "on_queue (claimNextPrompt (si_id ses)) w = (Inr x, w')"
        using claim_returns by blast
      have up: "upholds w w'"
        using keeps_on_queue [of "claimNextPrompt (si_id ses)"] moves_claim ok_claim c by (metis keeps_def snd_conv)
      show ?thesis
      proof (cases x)
        case None
        with c up show ?thesis by (simp add: bnd_run)
      next
        case (Some p)
        note cl = claim_world [OF ok c [unfolded Some]]
        have "upholds w (snd (deliver_claim su ses p w'))"
          by (rule deliver_claim_upholds [OF ok up _ cl(2) others honest]) (simp add: cl(1))
        moreover have "keeps upholds (failed_dispatch (si_id ses) p e)" for e :: dispatch_error
          by (rule keeps_failed_dispatch)
        ultimately have "upholds w (snd (handle (bnd (deliver_claim su ses p) (\<lambda>n. ret (p, n))) (failed_dispatch (si_id ses) p) w'))"
        proof (cases "deliver_claim su ses p w'")
          case (Pair r v)
          assume u: "upholds w (snd (deliver_claim su ses p w'))"
            and f: "\<And>e :: dispatch_error. keeps upholds (failed_dispatch (si_id ses) p e :: (queued_prompt \<times> nat) dispatch)"
          show ?thesis
          proof (cases r)
            case (Inl e)
            have "upholds v (snd (failed_dispatch (si_id ses) p e v :: (dispatch_error + queued_prompt \<times> nat) \<times> world))"
              using f unfolding keeps_def by blast
            with u Pair Inl uphold.R_trans show ?thesis by (simp add: handle_run bnd_run)
          qed (use u Pair in \<open>simp add: handle_run bnd_run\<close>)
        qed
        with c Some show ?thesis by (simp add: bnd_run)
      qed
    qed
  qed
  note rest = this
  show ?thesis
    unfolding dispatchQueuedPromptWithClaim_def managed_only_def by (rule rest ready uphold.keeps_intros)+
qed

lemma dispatchNext_upholds:
  assumes "\<And>k v. upholds v (su_others su k v)" "honest su"
  shows "keeps upholds (dispatchNextQueuedPromptForSession su approved ses user)"
  unfolding dispatchNextQueuedPromptForSession_def
  by (intro uphold.keeps_intros keeps_frame dispatch_upholds [OF assms]) simp_all

lemma keeps_on_inbox: "keeps upholds (on_inbox m)"
  unfolding keeps_def on_inbox_def
  by (auto split: prod.split sum.split intro!: upholds_frame)

text \<open>A wake-up touches no prompt.\<close>

interpretation waking: delivery_order upholds "takes_wake c" for c
  by unfold_locales (simp add: upholds_frame takes_wake_def)

lemma wake_upholds:
  assumes others: "\<And>k v. upholds v (su_others su k v)"
  shows "keeps upholds (dispatchInboxWake pol su ses c)"
  unfolding dispatchInboxWake_def deliver_wake_def managed_only_def
  by (rule waking.keeps_accepted [OF others] ready_upholds [OF others] uphold.keeps_intros keeps_on_inbox | rule keeps_frame, simp add: clear_cooldown_def)+

lemma wake_attempt_upholds:
  assumes others: "\<And>k v. upholds v (su_others su k v)"
  shows "keeps upholds (wake_attempt pol su ses cbs)"
  unfolding wake_attempt_def
  by (rule uphold.keeps_intros keeps_on_inbox wake_upholds [OF others] | rule keeps_frame, simp add: night_watch_def)+

lemma auto_upholds:
  assumes others: "\<And>k v. upholds v (su_others su k v)" and "honest su"
  shows "keeps upholds (maybeAutoDispatchQueuedPrompt pol su approved session)"
proof (cases session)
  case None
  then show ?thesis by (simp add: maybeAutoDispatchQueuedPrompt_def uphold.keeps_ret del: ret_run)
next
  case (Some ses)
  have mark: "keeps upholds (modify (markQueueDispatchCooldown (si_id ses) n) :: unit dispatch)"
    "keeps upholds (modify (clear_cooldown (si_id ses)) :: unit dispatch)" for n
    by (intro keeps_frame; simp add: markQueueDispatchCooldown_def clear_cooldown_def)+
  have "keeps upholds (finally_do (handle (auto_attempt pol su approved ses npub count cbs) (auto_failed ses))
                  (modify (\<lambda>w. w\<lparr>w_inflight := w_inflight w - {si_id ses}\<rparr>)))" for npub count cbs
  proof -
    have "keeps upholds (auto_failed ses e)" for e
      unfolding auto_failed_def by (cases e) (simp_all add: mark)
    moreover have "keeps upholds (auto_attempt pol su approved ses npub count cbs)"
      unfolding auto_attempt_def Let_def
      by (rule keeps_others [OF others] uphold.keeps_intros mark dispatch_upholds [OF assms] keeps_on_inbox
          wake_attempt_upholds [OF others])+
    ultimately show ?thesis by (intro uphold.keeps_intros keeps_frame) simp_all
  qed
  then have "upholds v (snd (finally_do (handle (auto_attempt pol su approved ses npub count cbs) (auto_failed ses))
                  (modify (\<lambda>w. w\<lparr>w_inflight := w_inflight w - {si_id ses}\<rparr>)) (v\<lparr>w_inflight := x\<rparr>)))" for npub count cbs v x
    unfolding keeps_def using uphold.R_trans upholds_frame [of "v\<lparr>w_inflight := x\<rparr>" v] by fastforce
  moreover have "upholds w (night_watch ses w)" for w by (rule upholds_frame) (simp_all add: night_watch_def)
  moreover have "upholds w (snd (on_inbox (noteSessionBusy (si_id ses)) w))" for w using keeps_on_inbox unfolding keeps_def by blast
  ultimately show ?thesis
    unfolding keeps_def maybeAutoDispatchQueuedPrompt_def Some Let_def
    by (auto simp: uphold.R_refl split: option.split)
qed

end
