(* ===== verification/Dispatch_Contract.thy ===== *)
theory Dispatch_Contract
  imports Dispatch_Safety Queue_Contract
begin

text \<open>
  What the dispatch of queued prompts promises: readiness is a run of consecutive ready answers, a
  dispatch settles its claim by what the transport proved, and over any interleaving of dispatches
  and other handlers every prompt reaches an agent at most once.
\<close>

section \<open>Readiness\<close>

text \<open>C36: A wait for readiness succeeds if and only if, among the polls before the deadline, the
  required number of consecutive ones answered ready; the loop always ends.\<close>

theorem ready_when_stable:
  assumes "requiredStablePolls \<noteq> None \<longrightarrow> the requiredStablePolls > 0"
  shows "waitForSessionPromptReadiness probe sid timeoutMs pollIntervalMs requiredStablePolls clk = Inr () \<longleftrightarrow>
    ready_run (or_default requiredStablePolls 3)
      (polls probe (or_default pollIntervalMs 250) (clk + or_default timeoutMs 60000) 0 clk)"
proof -
  have "or_default requiredStablePolls 3 > 0" using assms by (cases requiredStablePolls) (simp_all add: or_default_def)
  then show ?thesis
    unfolding waitForSessionPromptReadiness_def by (subst poll_ready_iff) simp_all
qed

theorem ready_when_stable_witness:
  "waitForSessionPromptReadiness (\<lambda>k. (if k = 1 then busyPromptReadiness ''b'' else readyPromptReadiness ''r'', 5)) ''s''
     (Some 3000) (Some 250) (Some 2) 0 = Inr ()"
proof -
  let ?probe = "\<lambda>k. (if k = (1::nat) then busyPromptReadiness ''b'' else readyPromptReadiness ''r'', 5::nat)"
  have "polls ?probe 250 3000 0 0 = Ready # Busy # Ready # Ready # polls ?probe 250 3000 4 (1770::nat)"
    by (simp add: polls.simps [of _ 250] pause_def busyPromptReadiness_def readyPromptReadiness_def)
  then have "ready_run 2 (polls ?probe 250 3000 0 0)"
    unfolding ready_run_iff by (intro exI [of _ "[Ready, Busy]"] exI [of _ "polls ?probe 250 3000 4 1770"])
      (simp add: numeral_2_eq_2)
  then show ?thesis by (subst ready_when_stable) (simp_all add: or_default_def)
qed

section \<open>Histories of the server\<close>

text \<open>
  The calls that anyone may make beside the dispatchers: all but the release of a claim, which only
  its dispatcher makes, and the decision of an operator to retry a prompt whose delivery is unknown.
\<close>

fun ordinary :: "queue_call \<Rightarrow> bool" where
  "ordinary (Release _ _ _ _) = False"
| "ordinary (Reconcile _ _ _ _ resolution _ _) = (resolution \<noteq> ''retry'')"
| "ordinary _ = True"

text \<open>
  A stretch of the server's life: calls, changes of any kind to the inbox of callbacks, requested
  dispatches and automatic ones, one after the other and inside each other's awaits.
\<close>

inductive activity :: "world \<Rightarrow> world \<Rightarrow> bool" where
  nothing: "activity w w"
| called: "ordinary c \<Longrightarrow> admissible c (w_db w) \<Longrightarrow> activity w (w\<lparr>w_db := run_call c (w_db w)\<rparr>)"
| callbacks: "activity w (w\<lparr>w_inbox := db\<rparr>)"
| requested: "(\<And>k v. activity v (su_others su k v)) \<Longrightarrow> honest su \<Longrightarrow>
    activity w (snd (dispatchNextQueuedPromptForSession su approved ses user w))"
| automatic: "(\<And>k v. activity v (su_others su k v)) \<Longrightarrow> honest su \<Longrightarrow>
    activity w (snd (maybeAutoDispatchQueuedPrompt pol su approved session w))"
| followed: "activity u v \<Longrightarrow> activity v w \<Longrightarrow> activity u w"

inductive_cases activity_start: "activity u v"

lemma moves_call: "ordinary c \<Longrightarrow> row_moves db (run_call c db)"
proof (cases c)
  case (Reconcile sid i rvn token resolution actor reason)
  assume "ordinary c"
  then have nr: "resolution \<noteq> ''retry''" using Reconcile by simp
  show ?thesis
  proof (cases "resolution = ''accepted''")
    case True
    with Reconcile show ?thesis using keeps_reconcile by (simp add: keeps_def)
  next
    case False
    with nr Reconcile show ?thesis by (simp add: reconcileClaim_def move.R_refl)
  qed
next
  case (Later ms)
  then show ?thesis by (simp add: moves_same)
qed (use moves_claim moves_add keeps_updateContent keeps_deletePrompt keeps_removeNext keeps_clear keeps_deleteByType
    keeps_acknowledge keeps_supersede keeps_retire keeps_rebind keeps_read(1) keeps_marks keeps_complete in
    \<open>simp_all add: keeps_def\<close>)

lemma activity_upholds: "activity w w' \<Longrightarrow> upholds w w'"
proof (induction rule: activity.induct)
  case (called c w)
  show ?case
    by (rule moves_upholds) (use called in \<open>simp_all add: moves_call ok_call\<close>)
next
  case (callbacks w db)
  show ?case by (rule upholds_frame) simp_all
next
  case (requested su w approved ses user)
  then have "keeps upholds (dispatchNextQueuedPromptForSession su approved ses user)" by (intro dispatchNext_upholds) blast+
  then show ?case unfolding keeps_def by blast
next
  case (automatic su w pol approved session)
  then have "keeps upholds (maybeAutoDispatchQueuedPrompt pol su approved session)" by (intro auto_upholds) blast+
  then show ?case unfolding keeps_def by blast
qed (blast intro: uphold.R_refl uphold.R_trans)+

lemma start_ok: "q_rows (w_db w) = [] \<Longrightarrow> w_taken w = [] \<Longrightarrow> deliveries_ok w"
  by (simp add: deliveries_ok_def ok_empty tokens_ok_def)

lemma free_not_taken:
  assumes ok: "deliveries_ok w" and x: "x \<in> set (fifo sid (w_db w))" "snd (snd x) = None"
  shows "fst x \<notin> set (w_taken w)"
proof -
  have q: "queue_ok (w_db w)" using ok by (simp add: deliveries_ok_def)
  from x(1) obtain r where r: "r \<in> set (queue_of sid (w_db w))" "x = item_of r" by (auto simp: fifo_def)
  then have "pending_row sid (qp_id r) r" using pending_item [OF q r(1)] x(2) by (simp add: item_of_def)
  moreover have "spent (w_taken w) r" using ok queued_row [OF r(1)] unfolding deliveries_ok_def by blast
  ultimately show ?thesis using r(2) by (auto simp: spent_def pending_row_def item_of_def)
qed

section \<open>A dispatch alone\<close>

definition http :: "surroundings \<Rightarrow> bool" where
  "http su = (\<not> (su_adapter su \<and> su_direct su) \<and> (su_adapter su \<longrightarrow> su_wait su = None) \<and> su_url su = None)"

lemma claim_first:
  assumes ok: "queue_ok db" and f: "fifo sid db = (i, c, None) # q"
  obtains p where "claimNextPrompt sid db = (Inr (Some p), snd (claimNextPrompt sid db))" "qp_id p = i" "qp_content p = c"
    "the_token p = q_nextId db"
    "changes (\<lambda>r. claim_row sid i (q_nextId db) r \<and> qp_deliveryState r = Some ''unsent'') (snd (claimNextPrompt sid db)) > 0"
proof -
  from first_item [OF ok, of sid] f obtain r where r: "getNextQueuedPrompt sid db = Some r" "qp_state r = Pending"
      "qp_id r = i" "qp_content r = c" by (auto split: option.splits if_splits)
  let ?p = "r\<lparr>qp_state := Claimed, qp_claimToken := Some (q_nextId db), qp_deliveryState := Some ''unsent'',
    qp_deliveryId := Some (q_nextId db)\<rparr>"
  have run: "claimNextPrompt sid db = (Inr (Some ?p), snd (claimNextPrompt sid db))" using r by (simp add: claim_run)
  have m: "r \<in> set (q_rows db)" "live sid r" using head_in [OF r(1)] by simp_all
  have "set_claimed (q_nextId db) (q_clock db) r \<in> set (q_rows (snd (claimNextPrompt sid db)))"
    using r m by (auto simp: claim_run update_rows_def intro!: image_eqI [of _ _ r])
  moreover have "claim_row sid i (q_nextId db) (set_claimed (q_nextId db) (q_clock db) r)"
    using r(3) m(2) by (simp add: claim_row_def set_claimed_def live_def)
  moreover have "qp_deliveryState (set_claimed (q_nextId db) (q_clock db) r) = Some ''unsent''" by (simp add: set_claimed_def)
  ultimately have "changes (\<lambda>r. claim_row sid i (q_nextId db) r \<and> qp_deliveryState r = Some ''unsent'')
      (snd (claimNextPrompt sid db)) > 0"
    by (auto simp: changes_def filter_empty_conv)
  with run r show thesis by (intro that [of ?p]) (simp_all add: the_token_def)
qed

text \<open>The queue after the send was marked.\<close>

definition marked_db :: "string \<Rightarrow> uuid \<Rightarrow> queue_db \<Rightarrow> queue_db" where
  "marked_db sid i db = snd (markClaimSending sid i (q_nextId db) (snd (claimNextPrompt sid db)))"

lemma marked:
  assumes ok: "queue_ok db" and f: "fifo sid db = (i, c, None) # q"
  shows "queue_ok (marked_db sid i db)" "fifo sid (marked_db sid i db) = (i, c, Some (q_nextId db)) # q"
    "\<exists>r ps. queue_of sid (marked_db sid i db) = r # ps \<and> qp_id r = i \<and> qp_state r = Claimed \<and> qp_deliveryState r = Some ''uncertain''"
proof -
  let ?t = "q_nextId db" and ?d = "snd (claimNextPrompt sid db)"
  let ?p = "\<lambda>r. claim_row sid i ?t r \<and> qp_deliveryState r = Some ''unsent''"
  let ?f = "\<lambda>r. r\<lparr>qp_deliveryState := Some ''uncertain'', qp_deliveryUpdatedAt := Some (q_clock ?d)\<rparr>"
  have okd: "queue_ok ?d" by (rule ok_claim [OF ok])
  show okm: "queue_ok (marked_db sid i db)" unfolding marked_db_def by (rule ok_sending [OF okd])
  have fd: "fifo sid ?d = (i, c, Some ?t) # q" using fifo_claimNext [OF ok, of sid sid] f by simp
  then show "fifo sid (marked_db sid i db) = (i, c, Some ?t) # q" by (simp add: marked_db_def fifo_marks [OF okd])
  obtain p where "changes ?p ?d > 0" by (rule claim_first [OF ok f]) blast
  then obtain r where r: "r \<in> set (q_rows ?d)" "?p r" by (auto simp: changes_def filter_empty_conv)
  obtain ps where ps: "queue_of sid ?d = r # ps" by (rule claim_row_first [OF okd r(1), of sid i ?t]) (use r in simp)
  have run: "marked_db sid i db = update_rows ?p ?f ?d"
    using \<open>changes ?p ?d > 0\<close> by (simp add: marked_db_def markClaimSending_def guarded_run)
  have "stays ?p ?f ?d" by (rule stays_claim) auto
  from queue_stays [OF this, of sid] ps r(2)
  have "\<exists>ps. queue_of sid (marked_db sid i db) = ?f r # ps" by (simp add: run)
  with r(2) show "\<exists>r ps. queue_of sid (marked_db sid i db) = r # ps \<and> qp_id r = i \<and> qp_state r = Claimed \<and>
      qp_deliveryState r = Some ''uncertain''"
    by (auto simp: claim_row_def)
qed

lemma rethrown:
  assumes q: "queue_of sid (w_db w) = r # ps" "qp_id r = qp_id p" and e: "e = Dispatch msg st NoPayload"
  shows "qp_state r = Claimed \<Longrightarrow> qp_deliveryState r = Some ''uncertain'' \<Longrightarrow> failed_dispatch sid p e w =
      (Inl (Dispatch msg st (ClaimedPrompt r)), w\<lparr>w_db := prunePromptQueueHistory sid (w_db w)\<rparr>)"
    and "qp_state r = Pending \<Longrightarrow> the_token p \<notin> set (w_observed w) \<Longrightarrow> failed_dispatch sid p e w =
      (Inl (Dispatch msg st (FailedPrompt p)), w\<lparr>w_db := prunePromptQueueHistory sid (w_db w)\<rparr>)"
  using q by (simp_all add: failed_dispatch_def bnd_run on_queue_def getSessionQueue_def e)

lemma released_first:
  assumes ok: "queue_ok db" and f: "fifo sid db = (i, c, Some t) # q"
  shows "fifo sid (snd (releaseRejectedClaim sid i t certainty db)) = (i, c, None) # q"
    "\<exists>r ps. queue_of sid (snd (releaseRejectedClaim sid i t certainty db)) = r # ps \<and> qp_id r = i \<and> qp_state r = Pending"
proof -
  let ?d = "snd (releaseRejectedClaim sid i t certainty db)"
  have "i \<notin> fst ` set q" using ids_fifo [OF ok, of sid] f by simp
  then have "map (\<lambda>(j, c, held). (j, c, if j = i then None else held)) q = q" by (intro map_idI) force
  then show fd: "fifo sid ?d = (i, c, None) # q"
    using fifo_releaseClaim [OF ok, of sid sid i t certainty] f by (simp add: fifo_release_def)
  have okd: "queue_ok ?d" by (rule ok_release [OF ok])
  from fd obtain r ps where r: "queue_of sid ?d = r # ps" "item_of r = (i, c, None)" by (auto simp: fifo_def)
  then have "pending_row sid i r" using pending_item [OF okd, of r sid i] by simp
  with r show "\<exists>r ps. queue_of sid ?d = r # ps \<and> qp_id r = i \<and> qp_state r = Pending"
    by (auto simp: pending_row_def)
qed

lemma on_queue_Inr: "m (w_db w) = (Inr x, db) \<Longrightarrow> on_queue m w = (Inr x, w\<lparr>w_db := db\<rparr>)"
  by (simp add: on_queue_def)

lemma accepted_first:
  assumes ok: "queue_ok db" and f: "fifo sid db = (i, c, Some t) # q" and w: "w_db w = db"
  obtains d where "accept_claim sid i t w = (Inr (), w\<lparr>w_observed := t # w_observed w, w_db := d\<rparr>)" "fifo sid d = q"
    "queue_ok d" "q_nextId d = q_nextId db"
proof -
  let ?d = "snd (recordClaimAcceptance sid i t db)" let ?e = "snd (completeClaim sid i t ?d)"
  have okd: "queue_ok ?d" by (rule ok_accept [OF ok])
  have fd: "fifo sid ?d = (i, c, Some t) # q" using f by (simp add: fifo_marks [OF ok])
  have "changes (claim_row sid i t) db > 0" "changes (claim_row sid i t) ?d > 0"
    using holds_iff [OF ok, of i t sid] holds_iff [OF okd, of i t sid] f fd by simp_all
  then have "recordClaimAcceptance sid i t db = (Inr (), ?d)" "completeClaim sid i t ?d = (Inr (), ?e)"
    and n: "q_nextId ?e = q_nextId db"
    by (simp_all add: recordClaimAcceptance_def guarded_run complete_run update_rows_def)
  then obtain d e where de: "recordClaimAcceptance sid i t db = (Inr (), d)" "completeClaim sid i t d = (Inr (), e)" "e = ?e"
    by blast
  then have "accept_claim sid i t w = (Inr (), w\<lparr>w_observed := t # w_observed w, w_db := e\<rparr>)"
    using w by (simp add: accept_claim_def bnd_run on_queue_Inr)
  then have a: "accept_claim sid i t w = (Inr (), w\<lparr>w_observed := t # w_observed w, w_db := ?e\<rparr>)"
    using de(3) by simp
  have "fifo sid ?e = q" using fifo_complete [OF okd, of sid sid i t] fd by (simp add: fifo_settle_def)
  then show thesis using ok_complete [OF okd] n by (intro that [OF a])
qed

lemma delivered_http:
  assumes "http su" "\<forall>k v. su_others su k v = v" "on_queue (markClaimSending sid i t) w = (Inr (), w')"
  shows "deliverSessionAgentMessage su False (takes_prompt i) (ret True) (on_queue (markClaimSending sid i t)) w =
    (Inr (read_answer (su_answer su)), if su_takes su then w'\<lparr>w_taken := i # w_taken w'\<rparr> else w')"
  using assms by (cases "su_adapter su") (simp_all add: http_def deliverSessionAgentMessage_def submitOnce_def transmit_def takes_prompt_def bnd_run)

lemma read_answer_cases: "mr_certainty (read_answer x) = Accepted \<and> mr_ok (read_answer x) \<or>
    mr_certainty (read_answer x) = Rejected \<and> \<not> mr_ok (read_answer x) \<or>
    mr_certainty (read_answer x) = Uncertain \<and> \<not> mr_ok (read_answer x)"
  by (cases x) (auto simp: read_answer_def result_def)

lemma dispatch_alone:
  assumes ok: "queue_ok (w_db w)" and f: "fifo (si_id ses) (w_db w) = (i, c, None) # q"
    and alone: "\<forall>k v. su_others su k v = v" and via: "http su" and up: "su_ready su = Inr ()" "su_bridge su = None"
    and who: "nonempty user = Some npub" "approved npub" "\<not> completed_turn ses"
    and free: "\<not> w_draining w" "si_id ses \<notin> w_inflight w"
  obtains p w1 w3 where "qp_id p = i" "qp_content p = c" "the_token p = q_nextId (w_db w)"
    "w_db w3 = marked_db (si_id ses) i (w_db w)" "w_taken w3 = (if su_takes su then i # w_taken w else w_taken w)"
    "w_inflight w3 = insert (si_id ses) (w_inflight w)" "w_observed w3 = w_observed w" "\<not> w_draining w3"
    "dispatchNextQueuedPromptForSession su approved ses user w =
      (case handle (bnd (deliver_claim su ses p) (\<lambda>n. ret (p, n))) (failed_dispatch (si_id ses) p) w1 of
         (res, v) \<Rightarrow> (res, v\<lparr>w_inflight := w_inflight v - {si_id ses}\<rparr>))"
    "deliver_claim su ses p w1 = (if \<not> mr_ok (read_answer (su_answer su))
      then (Inl (Dispatch (mr_message (read_answer (su_answer su))) (mr_status (read_answer (su_answer su))) NoPayload),
            if mr_certainty (read_answer (su_answer su)) = Rejected
            then snd (on_queue (releaseRejectedClaim (si_id ses) i (q_nextId (w_db w)) ''rejected'') w3) else w3)
      else (case accept_claim (si_id ses) i (q_nextId (w_db w)) w3 of (Inl e, v) \<Rightarrow> (Inl e, v)
        | (Inr _, v) \<Rightarrow> (Inr (waitForMessageUpdate (su_counts su) (su_initial su) 0 80), clear_cooldown (si_id ses) v)))"
proof -
  let ?sid = "si_id ses" and ?t = "q_nextId (w_db w)" and ?a = "read_answer (su_answer su)"
  obtain p where p: "claimNextPrompt ?sid (w_db w) = (Inr (Some p), snd (claimNextPrompt ?sid (w_db w)))"
      "qp_id p = i" "qp_content p = c" "the_token p = ?t"
      "changes (\<lambda>r. claim_row ?sid i ?t r \<and> qp_deliveryState r = Some ''unsent'') (snd (claimNextPrompt ?sid (w_db w))) > 0"
    by (rule claim_first [OF ok f]) blast
  let ?m = "marked_db ?sid i (w_db w)"
  note m = marked [OF ok f]
  define w1 where "w1 = w\<lparr>w_inflight := insert ?sid (w_inflight w), w_started := ?sid # w_started w,
    w_db := snd (claimNextPrompt ?sid (w_db w))\<rparr>"
  define w2 where "w2 = w1\<lparr>w_db := ?m\<rparr>"
  define w3 where "w3 = (if su_takes su then w2\<lparr>w_taken := i # w_taken w2\<rparr> else w2)"
  have w3: "w_db w3 = ?m" "w_taken w3 = (if su_takes su then i # w_taken w else w_taken w)"
      "w_inflight w3 = insert ?sid (w_inflight w)" "w_observed w3 = w_observed w" "\<not> w_draining w3"
    using free by (simp_all add: w3_def w2_def w1_def)
  have "on_queue (markClaimSending ?sid i ?t) w1 = (Inr (), w2)"
    using p(5) by (simp add: on_queue_def markClaimSending_def guarded_run w1_def w2_def marked_db_def)
  from delivered_http [OF via alone this]
  have d: "deliverSessionAgentMessage su False (takes_prompt i) (ret True) (on_queue (markClaimSending ?sid i ?t)) w1 = (Inr ?a, w3)"
    by (simp add: w3_def)
  have alone': "su_others su = (\<lambda>_ v. v)" using alone by (simp add: fun_eq_iff)
  have "on_queue (claimNextPrompt ?sid) (w\<lparr>w_inflight := insert ?sid (w_inflight w), w_started := ?sid # w_started w\<rparr>) = (Inr (Some p), w1)"
    using on_queue_Inr [of "claimNextPrompt ?sid" "w\<lparr>w_inflight := insert ?sid (w_inflight w), w_started := ?sid # w_started w\<rparr>"] p(1)
    by (simp add: w1_def)
  note claimed = this
  have ready: "ensureSessionReadyForPromptDispatch su ses (w\<lparr>w_inflight := insert ?sid (w_inflight w)\<rparr>) =
      (Inr (), w\<lparr>w_inflight := insert ?sid (w_inflight w), w_started := ?sid # w_started w\<rparr>)"
    using up by (simp add: ensureSessionReadyForPromptDispatch_def alone' bnd_run)
  have "dispatchQueuedPromptWithClaim su approved ses user (w\<lparr>w_inflight := insert ?sid (w_inflight w)\<rparr>) =
      handle (bnd (deliver_claim su ses p) (\<lambda>n. ret (p, n))) (failed_dispatch ?sid p) w1"
    using who claimed
    by (simp add: dispatchQueuedPromptWithClaim_def bnd_run [of "handle (ensureSessionReadyForPromptDispatch _ _) _"]
        handle_run [of "ensureSessionReadyForPromptDispatch _ _"] ready bnd_run [of "on_queue _"])
  then have run: "dispatchNextQueuedPromptForSession su approved ses user w =
      (case handle (bnd (deliver_claim su ses p) (\<lambda>n. ret (p, n))) (failed_dispatch ?sid p) w1 of
         (res, v) \<Rightarrow> (res, v\<lparr>w_inflight := w_inflight v - {?sid}\<rparr>))"
    using free(2) by (simp add: dispatchNextQueuedPromptForSession_def finally_run bnd_run [of "reads _"] bnd_run [of "modify _"]
        split: prod.split)
  have deliver: "deliver_claim su ses p w1 = (if \<not> mr_ok ?a
      then (Inl (Dispatch (mr_message ?a) (mr_status ?a) NoPayload),
            if mr_certainty ?a = Rejected then snd (on_queue (releaseRejectedClaim ?sid i ?t ''rejected'') w3) else w3)
      else (case accept_claim ?sid i ?t w3 of (Inl e, v) \<Rightarrow> (Inl e, v)
        | (Inr _, v) \<Rightarrow> (Inr (waitForMessageUpdate (su_counts su) (su_initial su) 0 80), clear_cooldown ?sid v)))"
    using who(3) free(1) d read_answer_ok(2) [of "su_answer su"] up(2)
    by (simp add: deliver_claim_def deliverAcceptedPrompt_def bnd_run p(2,4) w1_def [symmetric] alone'
        on_queue_def releaseRejectedClaim_def split: prod.split sum.split) (simp add: w1_def)
  show thesis by (rule that [OF p(2,3,4) w3 run deliver])
qed

lemma accepted_alone:
  assumes ok: "queue_ok (w_db w)" and f: "fifo (si_id ses) (w_db w) = (i, c, None) # q"
    and alone: "\<forall>k v. su_others su k v = v" and via: "http su" and up: "su_ready su = Inr ()" "su_bridge su = None"
    and who: "nonempty user = Some npub" "approved npub" "\<not> completed_turn ses"
    and free: "\<not> w_draining w" "si_id ses \<notin> w_inflight w"
    and acc: "mr_certainty (read_answer (su_answer su)) = Accepted"
  obtains p n w' where "dispatchNextQueuedPromptForSession su approved ses user w = (Inr (p, n), w')" "qp_id p = i"
    "qp_content p = c" "fifo (si_id ses) (w_db w') = q" "queue_ok (w_db w')"
    "w_taken w' = (if su_takes su then i # w_taken w else w_taken w)" "w_inflight w' = w_inflight w" "\<not> w_draining w'"
proof -
  obtain p w1 w3 where d: "qp_id p = i" "qp_content p = c" "the_token p = q_nextId (w_db w)"
    "w_db w3 = marked_db (si_id ses) i (w_db w)" "w_taken w3 = (if su_takes su then i # w_taken w else w_taken w)"
    "w_inflight w3 = insert (si_id ses) (w_inflight w)" "w_observed w3 = w_observed w" "\<not> w_draining w3"
    "dispatchNextQueuedPromptForSession su approved ses user w =
      (case handle (bnd (deliver_claim su ses p) (\<lambda>n. ret (p, n))) (failed_dispatch (si_id ses) p) w1 of
         (res, v) \<Rightarrow> (res, v\<lparr>w_inflight := w_inflight v - {si_id ses}\<rparr>))"
    "deliver_claim su ses p w1 = (if \<not> mr_ok (read_answer (su_answer su))
      then (Inl (Dispatch (mr_message (read_answer (su_answer su))) (mr_status (read_answer (su_answer su))) NoPayload),
            if mr_certainty (read_answer (su_answer su)) = Rejected
            then snd (on_queue (releaseRejectedClaim (si_id ses) i (q_nextId (w_db w)) ''rejected'') w3) else w3)
      else (case accept_claim (si_id ses) i (q_nextId (w_db w)) w3 of (Inl e, v) \<Rightarrow> (Inl e, v)
        | (Inr _, v) \<Rightarrow> (Inr (waitForMessageUpdate (su_counts su) (su_initial su) 0 80), clear_cooldown (si_id ses) v)))"
    by (rule dispatch_alone [where approved = approved and npub = npub, OF ok f alone via up who free])
  note m = marked [OF ok f]
  obtain e where e: "accept_claim (si_id ses) i (q_nextId (w_db w)) w3 =
      (Inr (), w3\<lparr>w_observed := q_nextId (w_db w) # w_observed w3, w_db := e\<rparr>)" "fifo (si_id ses) e = q" "queue_ok e"
    by (rule accepted_first [OF m(1,2) d(4)]) blast
  have "mr_ok (read_answer (su_answer su))" using acc read_answer_cases [of "su_answer su"] by auto
  with d e free show thesis
    by (intro that [of p "waitForMessageUpdate (su_counts su) (su_initial su) 0 80" "(clear_cooldown (si_id ses)
        (w3\<lparr>w_observed := q_nextId (w_db w) # w_observed w3, w_db := e\<rparr>))\<lparr>w_inflight := w_inflight w\<rparr>"])
      (simp_all add: handle_run bnd_run clear_cooldown_def)
qed

text \<open>C32: A dispatch that runs alone over HTTP, for a session with a free first prompt, settles the
  claim by what the answer proves. An accepted prompt leaves the queue; after an explicit rejection it
  is first in the queue again and the error hands it back; after any other answer, or none, it
  stays claimed and the error asks for a review. The agent takes this prompt and no other.\<close>

theorem dispatch_outcome:
  assumes ok: "queue_ok (w_db w)" and f: "fifo (si_id ses) (w_db w) = (i, c, None) # q"
    and alone: "\<forall>k v. su_others su k v = v" and via: "http su" and up: "su_ready su = Inr ()" "su_bridge su = None"
    and who: "nonempty user = Some npub" "approved npub" "\<not> completed_turn ses"
    and free: "\<not> w_draining w" "si_id ses \<notin> w_inflight w" "q_nextId (w_db w) \<notin> set (w_observed w)"
  shows "case dispatchNextQueuedPromptForSession su approved ses user w of (res, w') \<Rightarrow>
    w_taken w' = (if su_takes su then i # w_taken w else w_taken w) \<and> w_inflight w' = w_inflight w \<and>
    (let a = read_answer (su_answer su) in case mr_certainty a of
      Accepted \<Rightarrow> (\<exists>p n. res = Inr (p, n) \<and> qp_id p = i \<and> qp_content p = c) \<and> fifo (si_id ses) (w_db w') = q
    | Rejected \<Rightarrow> (\<exists>p. res = Inl (Dispatch (mr_message a) (mr_status a) (FailedPrompt p)) \<and> qp_id p = i) \<and>
        fifo (si_id ses) (w_db w') = (i, c, None) # q
    | Uncertain \<Rightarrow> (\<exists>p. res = Inl (Dispatch (mr_message a) (mr_status a) (ClaimedPrompt p)) \<and> qp_id p = i) \<and>
        fifo (si_id ses) (w_db w') = (i, c, Some (q_nextId (w_db w))) # q
    | Unsent \<Rightarrow> False)"
proof -
  let ?sid = "si_id ses" and ?t = "q_nextId (w_db w)" and ?a = "read_answer (su_answer su)"
  obtain p w1 w3 where p: "qp_id p = i" "qp_content p = c" "the_token p = ?t"
    and w3: "w_db w3 = marked_db ?sid i (w_db w)" "w_taken w3 = (if su_takes su then i # w_taken w else w_taken w)"
      "w_inflight w3 = insert ?sid (w_inflight w)" "w_observed w3 = w_observed w" "\<not> w_draining w3"
    and run: "dispatchNextQueuedPromptForSession su approved ses user w =
      (case handle (bnd (deliver_claim su ses p) (\<lambda>n. ret (p, n))) (failed_dispatch ?sid p) w1 of
         (res, v) \<Rightarrow> (res, v\<lparr>w_inflight := w_inflight v - {?sid}\<rparr>))"
    and deliver: "deliver_claim su ses p w1 = (if \<not> mr_ok ?a
      then (Inl (Dispatch (mr_message ?a) (mr_status ?a) NoPayload),
            if mr_certainty ?a = Rejected then snd (on_queue (releaseRejectedClaim ?sid i ?t ''rejected'') w3) else w3)
      else (case accept_claim ?sid i ?t w3 of (Inl e, v) \<Rightarrow> (Inl e, v)
        | (Inr _, v) \<Rightarrow> (Inr (waitForMessageUpdate (su_counts su) (su_initial su) 0 80), clear_cooldown ?sid v)))"
    by (rule dispatch_alone [where approved = approved and npub = npub, OF ok f alone via up who free(1,2)])
  let ?m = "marked_db ?sid i (w_db w)"
  note m = marked [OF ok f]
  have inflight: "insert ?sid (w_inflight w) - {?sid} = w_inflight w" using free by simp
  have prune_q: "fifo ?sid (prunePromptQueueHistory ?sid db) = fifo ?sid db" for db by simp
  consider (acc) "mr_certainty ?a = Accepted" "mr_ok ?a" | (rej) "mr_certainty ?a = Rejected" "\<not> mr_ok ?a"
    | (unk) "mr_certainty ?a = Uncertain" "\<not> mr_ok ?a"
    using read_answer_cases [of "su_answer su"] by blast
  then show ?thesis
  proof cases
    case acc
    obtain p n w' where "dispatchNextQueuedPromptForSession su approved ses user w = (Inr (p, n), w')" "qp_id p = i"
        "qp_content p = c" "fifo ?sid (w_db w') = q" "w_taken w' = (if su_takes su then i # w_taken w else w_taken w)"
        "w_inflight w' = w_inflight w"
      by (rule accepted_alone [where approved = approved and npub = npub, OF ok f alone via up who free(1,2) acc(1)]) blast
    with acc show ?thesis by simp
  next
    case rej
    let ?v = "w3\<lparr>w_db := snd (releaseRejectedClaim ?sid i ?t ''rejected'' ?m)\<rparr>"
    have v: "snd (on_queue (releaseRejectedClaim ?sid i ?t ''rejected'') w3) = ?v"
      using w3(1) by (simp add: on_queue_def releaseRejectedClaim_def)
    obtain r ps where r: "queue_of ?sid (w_db ?v) = r # ps" "qp_id r = i" "qp_state r = Pending"
      using released_first(2) [OF m(1,2), of "''rejected''"] by auto
    have "(failed_dispatch ?sid p (Dispatch (mr_message ?a) (mr_status ?a) NoPayload) :: (queued_prompt \<times> nat) dispatch) ?v =
        (Inl (Dispatch (mr_message ?a) (mr_status ?a) (FailedPrompt p)), ?v\<lparr>w_db := prunePromptQueueHistory ?sid (w_db ?v)\<rparr>)"
      by (rule rethrown(2) [OF r(1)]) (use r p w3 free in simp_all)
    with rej deliver run v w3 p(1) inflight released_first(1) [OF m(1,2), of "''rejected''"] show ?thesis
      by (simp add: handle_run bnd_run)
  next
    case unk
    obtain r ps where r: "queue_of ?sid (w_db w3) = r # ps" "qp_id r = i" "qp_state r = Claimed" "qp_deliveryState r = Some ''uncertain''"
      using m(3) w3(1) by auto
    have "(failed_dispatch ?sid p (Dispatch (mr_message ?a) (mr_status ?a) NoPayload) :: (queued_prompt \<times> nat) dispatch) w3 =
        (Inl (Dispatch (mr_message ?a) (mr_status ?a) (ClaimedPrompt r)), w3\<lparr>w_db := prunePromptQueueHistory ?sid (w_db w3)\<rparr>)"
      by (rule rethrown(1) [OF r(1)]) (use r p in simp_all)
    with unk deliver run w3 r(2) inflight m(2) show ?thesis
      by (simp add: handle_run bnd_run)
  qed
qed

text \<open>A session, an agent behind HTTP, and a server with two prompts for the session.\<close>

definition session_s :: session_info where
  "session_s = \<lparr>si_id = ''s'', si_agent = ''codex'', si_status = ''running'', si_runtime = Some ''stable'',
     si_role = None, si_chargeTo = None, si_npub = Some ''npub1''\<rparr>"

definition agent_with :: "http_answer \<Rightarrow> bool \<Rightarrow> surroundings" where
  "agent_with answer takes = \<lparr>su_adapter = False, su_direct = False, su_readiness = Inr None, su_wait = None, su_url = None,
     su_answer = answer, su_echo = False, su_send = None, su_takes = takes, su_ready = Inr (), su_bridge = None,
     su_initial = 0, su_counts = (\<lambda>_. 1), su_view = None, su_unpublished = False, su_others = (\<lambda>_ v. v)\<rparr>"

definition no_dispatches :: dispatch_db where
  "no_dispatches = \<lparr>sd_rows = [], sd_wakes = [], sd_cutoffs = [], sd_nextId = 1, sd_clock = 0, sd_sha = (\<lambda>s. s)\<rparr>"

definition fresh_world :: world where
  "fresh_world = \<lparr>w_db = no_prompts, w_taken = [], w_inflight = {}, w_cooldowns = [], w_started = [], w_watch = [],
     w_draining = False, w_observed = [], w_inbox = no_dispatches, w_woken = [], w_checking = False\<rparr>"

definition world_two :: world where
  "world_two = fresh_world\<lparr>w_db := two_prompts\<rparr>"

lemma world_two_simps: "w_db world_two = two_prompts" "w_inflight world_two = {}" "\<not> w_draining world_two"
  "w_observed world_two = []" "w_taken world_two = []" "si_id session_s = ''s''" "\<not> completed_turn session_s"
  by (simp_all add: world_two_def fresh_world_def session_s_def completed_turn_def)

lemma two_fifo: "fifo ''s'' two_prompts = [(1, ''first'', None), (2, ''second'', None)]"
  by code_simp

lemma agent_with_simps: "su_answer (agent_with a b) = a" "su_takes (agent_with a b) = b" "su_others (agent_with a b) = (\<lambda>_ v. v)"
  "http (agent_with a b)" "su_ready (agent_with a b) = Inr ()" "su_bridge (agent_with a b) = None"
  by (simp_all add: agent_with_def http_def)

theorem dispatch_outcome_witness:
  "case dispatchNextQueuedPromptForSession (agent_with (Answered 409 ''busy'') False) (\<lambda>_. True) session_s (Some ''npub1'') world_two of
     (res, w') \<Rightarrow> (\<exists>p. res = Inl (Dispatch ''busy'' 409 (FailedPrompt p)) \<and> qp_id p = 1) \<and>
       fifo ''s'' (w_db w') = [(1, ''first'', None), (2, ''second'', None)]"
proof -
  have "nonempty (Some ''npub1'') = Some ''npub1''" by code_simp
  with dispatch_outcome [where w = world_two and ses = session_s and su = "agent_with (Answered 409 ''busy'') False"
      and approved = "\<lambda>_. True" and npub = "''npub1''" and user = "Some ''npub1''" and i = 1 and c = "''first''"
      and q = "[(2, ''second'', None)]"]
  show ?thesis
    by (simp add: world_two_simps two_ok two_fifo agent_with_simps read_answer_def result_def split: prod.splits)
qed

section \<open>At most once\<close>

text \<open>C2: Whatever the order and the nesting of requested and automatic dispatches, of additions,
  edits, deletions, acknowledgements, takeovers, moves to new sessions and retentions, no prompt is
  taken by an agent twice, and a prompt an agent took is never waiting in a queue again. The
  transport is trusted with one thing: a message refused with a client error other than 408 was not
  taken. Only an operator's decision to retry a prompt of unknown fate can repeat it.\<close>

theorem at_most_once:
  assumes "activity w w'" and "q_rows (w_db w) = []" and "w_taken w = []"
  shows "distinct (w_taken w') \<and> (\<forall>sid. list_all (\<lambda>(i, c, held). \<not> (held = None \<and> i \<in> set (w_taken w'))) (fifo sid (w_db w')))"
proof -
  have ok: "deliveries_ok w'"
    by (rule upholds_ok [OF activity_upholds [OF assms(1)] start_ok [OF assms(2,3)]])
  then have "distinct (w_taken w')" by (simp add: deliveries_ok_def)
  moreover have "list_all (\<lambda>(i, c, held). \<not> (held = None \<and> i \<in> set (w_taken w'))) (fifo sid (w_db w'))" for sid
    unfolding list_all_iff using free_not_taken [OF ok] by fastforce
  ultimately show ?thesis by blast
qed

theorem at_most_once_witness:
  "distinct (w_taken (snd (dispatchNextQueuedPromptForSession (agent_with (Answered 200 []) True) (\<lambda>_. True) session_s (Some ''npub1'')
     (fresh_world\<lparr>w_db := run_call (Add ''s'' (prompt ''first'')) no_prompts\<rparr>))))"
proof -
  let ?w = "fresh_world\<lparr>w_db := run_call (Add ''s'' (prompt ''first'')) no_prompts\<rparr>"
  have "activity fresh_world (fresh_world\<lparr>w_db := run_call (Add ''s'' (prompt ''first'')) (w_db fresh_world)\<rparr>)"
    by (rule activity.called) simp_all
  then have "activity fresh_world ?w" by (simp add: fresh_world_def)
  moreover have "activity ?w (snd (dispatchNextQueuedPromptForSession (agent_with (Answered 200 []) True) (\<lambda>_. True) session_s
      (Some ''npub1'') ?w))"
    by (rule activity.requested) (simp_all add: agent_with_simps activity.nothing honest_def)
  ultimately have "activity fresh_world (snd (dispatchNextQueuedPromptForSession (agent_with (Answered 200 []) True) (\<lambda>_. True)
      session_s (Some ''npub1'') ?w))"
    by (rule activity.followed)
  from at_most_once [OF this] show ?thesis by (simp add: fresh_world_def no_prompts_def)
qed

fun dispatches :: "nat \<Rightarrow> surroundings \<Rightarrow> (string \<Rightarrow> bool) \<Rightarrow> session_info \<Rightarrow> string option \<Rightarrow> world \<Rightarrow> world" where
  "dispatches 0 su approved ses user w = w"
| "dispatches (Suc n) su approved ses user w =
     dispatches n su approved ses user (snd (dispatchNextQueuedPromptForSession su approved ses user w))"

text \<open>C35: With an agent that accepts what it is sent and nothing else running, dispatching as often as
  the queue is long hands over every prompt of the session, in the order of the queue, and leaves the
  queue empty.\<close>

theorem queue_drains:
  assumes "queue_ok (w_db w)" and "list_all (\<lambda>(i, c, held). held = None) (fifo (si_id ses) (w_db w))"
    and "\<forall>k v. su_others su k v = v" and "http su" and "su_ready su = Inr ()" and "su_bridge su = None"
    and "nonempty user = Some npub" and "approved npub" and "\<not> completed_turn ses"
    and "\<not> w_draining w" and "si_id ses \<notin> w_inflight w"
    and "mr_certainty (read_answer (su_answer su)) = Accepted" and "su_takes su"
  shows "fifo (si_id ses) (w_db (dispatches (length (fifo (si_id ses) (w_db w))) su approved ses user w)) = [] \<and>
    w_taken (dispatches (length (fifo (si_id ses) (w_db w))) su approved ses user w) =
      rev (map fst (fifo (si_id ses) (w_db w))) @ w_taken w"
  using assms
proof (induction "fifo (si_id ses) (w_db w)" arbitrary: w)
  case Nil
  then show ?case by (simp flip: Nil.hyps)
next
  case (Cons x q)
  obtain i c held where x: "x = (i, c, held)" by (cases x)
  have "held = None" using Cons.prems(2) by (simp add: x flip: Cons.hyps(2))
  with x have f: "fifo (si_id ses) (w_db w) = (i, c, None) # q" using Cons.hyps(2) by simp
  obtain p n w' where d: "dispatchNextQueuedPromptForSession su approved ses user w = (Inr (p, n), w')"
      "fifo (si_id ses) (w_db w') = q" "queue_ok (w_db w')"
      "w_taken w' = (if su_takes su then i # w_taken w else w_taken w)" "w_inflight w' = w_inflight w" "\<not> w_draining w'"
    by (rule accepted_alone [where approved = approved and npub = npub, OF Cons.prems(1) f Cons.prems(3-12)]) blast
  have "list_all (\<lambda>(i, c, held). held = None) (fifo (si_id ses) (w_db w'))" using Cons.prems(2) f d(2) by simp
  with Cons.hyps(1) [of w'] Cons.prems d
  have "fifo (si_id ses) (w_db (dispatches (length q) su approved ses user w')) = [] \<and>
      w_taken (dispatches (length q) su approved ses user w') = rev (map fst q) @ w_taken w'" by simp
  with d f Cons.prems(13) show ?case by simp
qed

theorem queue_drains_witness:
  "w_taken (dispatches 2 (agent_with (Answered 200 []) True) (\<lambda>_. True) session_s (Some ''npub1'') world_two) = [2, 1]"
proof -
  have "nonempty (Some ''npub1'') = Some ''npub1''" by code_simp
  with queue_drains [where w = world_two and ses = session_s and su = "agent_with (Answered 200 []) True"
      and approved = "\<lambda>_. True" and npub = "''npub1''" and user = "Some ''npub1''"]
  show ?thesis
    by (simp add: world_two_simps two_ok two_fifo agent_with_simps read_answer_def result_def numeral_2_eq_2)
qed

end
