(* ===== verification/Wake_Contract.thy ===== *)
theory Wake_Contract
  imports Review_Laws Dispatch_Contract
begin

text \<open>
  The way of one wake-up: a session with callbacks to review is woken when it is stable, and two ways
  in which its wake-ups come to an end too early.
\<close>

section \<open>One wake-up\<close>

text \<open>The wake-up a claim stands for.\<close>

definition stands :: "wake_claim \<Rightarrow> wake_state \<Rightarrow> dispatch_db \<Rightarrow> wake_row \<Rightarrow> bool" where
  "stands c st db k \<longleftrightarrow> getWake (wc_callbackSessionId c) db = Some k \<and> wk_state k = st \<and>
     wk_inboxFingerprint k = wc_inboxFingerprint c \<and> wk_attemptCount k = wc_attemptCount c \<and>
     wc_generation c = generation (wc_callbackSessionId c) db"

lemma validate_stands:
  assumes "stands c WakeClaimed db k" "\<not> leaseExpired k (sd_clock db)"
    "getInboxFingerprint (wc_callbackSessionId c) db = Some (wc_inboxFingerprint c)"
  shows "validateClaim c db = (Inr True, db)"
  using assms by (simp add: validateClaim_def reconcileHandledCallbacks_def stands_def bnd_run)

definition uncertain_wake :: "nat \<Rightarrow> wake_row \<Rightarrow> wake_row" where
  "uncertain_wake clk k = k\<lparr>wk_state := WakeBlocked, wk_leaseExpiresAt := None, wk_nextRetryAt := None,
     wk_lastError := Some ''Delivery may have been accepted; inspect receiver before explicit retry'', wk_updatedAt := clk\<rparr>"

lemma stands_set:
  "stands c st db k \<Longrightarrow> wk_callbackSessionId k' = wk_callbackSessionId k \<Longrightarrow> wk_createdAt k' = wk_createdAt k \<Longrightarrow>
     wk_inboxFingerprint k' = wk_inboxFingerprint k \<Longrightarrow> wk_attemptCount k' = wk_attemptCount k \<Longrightarrow>
     stands c (wk_state k') (set_wake k' db) k'"
  using getWake_key [of "wc_callbackSessionId c" db k] getWake_set [of k' db k "wc_callbackSessionId c"] by (simp add: stands_def)

lemma uncertain_stands:
  assumes "stands c WakeClaimed db k" "\<not> leaseExpired k (sd_clock db)"
    "getInboxFingerprint (wc_callbackSessionId c) db = Some (wc_inboxFingerprint c)"
  shows "markDeliveryUncertain c db = (Inr (), set_wake (uncertain_wake (sd_clock db) k) db)"
    "stands c WakeBlocked (set_wake (uncertain_wake (sd_clock db) k) db) (uncertain_wake (sd_clock db) k)"
proof -
  show "markDeliveryUncertain c db = (Inr (), set_wake (uncertain_wake (sd_clock db) k) db)"
    using assms validate_stands [OF assms]
    by (simp add: markDeliveryUncertain_def bnd_run resave_run uncertain_wake_def stands_def)
  show "stands c WakeBlocked (set_wake (uncertain_wake (sd_clock db) k) db) (uncertain_wake (sd_clock db) k)"
    using stands_set [OF assms(1), of "uncertain_wake (sd_clock db) k"] by (simp add: uncertain_wake_def)
qed

lemma submitted_stands:
  assumes "stands c st db k" "st = WakeClaimed \<or> st = WakeBlocked"
  shows "markSubmitted c db = (Inr (), set_wake (k\<lparr>wk_state := WakeSubmitted, wk_submittedAt := Some (sd_clock db), wk_lastError := None\<rparr>) db)"
  using assms by (auto simp: markSubmitted_def on_claim_def stands_def bnd_run resave_run)

section \<open>A wake-up that was sent waits for a turn\<close>

lemma granted_stands:
  assumes "wakes_ok p db" "0 < pol_maxAttempts p" "claimForStableSession p sid db = (Inr (Some c), db')"
  obtains k where "stands c WakeClaimed db' k" "wk_busyObservedAt k = None" "wk_leaseExpiresAt k = Some (sd_clock db + pol_leaseMs p)"
    "wc_callbackSessionId c = sid" "getInboxFingerprint sid db' = Some (wc_inboxFingerprint c)" "sd_clock db' = sd_clock db"
proof (cases "getInboxFingerprint sid db")
  case None
  have "resolve_idle sid (sd_clock db) db = (Inr (), snd (resolve_idle sid (sd_clock db) db))"
    by (simp add: resolve_idle_def bnd_run resave_run split: option.split)
  with None assms(3) show thesis by (simp add: claimForStableSession_def bnd_run split: prod.splits)
next
  case (Some f)
  note run = claim_run_inbox [OF assms(1,2) Some] assms(3)
  then obtain wake where w: "settled p f (sd_clock db) (getWake sid db) = Some wake" by (auto split: option.splits)
  let ?k = "fresh_wake sid f (sd_clock db) wake"
  let ?k' = "set_wake_claimed (sd_clock db) (sd_clock db + pol_leaseMs p) ?k" and ?d = "set_wake ?k (store_wake wake db)"
  note st = steady_settled [OF assms(1,2) w Some]
  have key: "wk_callbackSessionId ?k = sid" "wk_inboxFingerprint ?k = f"
    using fresh_wake_key [OF st(5), of f "sd_clock db"] by simp_all
  have c: "c = \<lparr>wc_generation = generation sid db, wc_callbackSessionId = sid, wc_inboxFingerprint = f,
      wc_attemptCount = wk_attemptCount ?k + 1\<rparr>" "db' = set_wake ?k' ?d"
    using run w by (auto simp: Let_def split: if_splits)
  have "getWake sid ?d = Some ?k"
    using row_put_same [of ?k "sd_wakes (store_wake wake db)"] key(1) st(4,5)
    by (auto simp: getWake_def set_wake_def fresh_wake_def new_wake_def split: option.splits if_splits)
  then have g: "getWake sid db' = Some ?k'" using getWake_set [of ?k' ?d ?k sid] key c(2) by simp
  have same: "generation sid db' = generation sid db" "getInboxFingerprint sid db' = Some f" "sd_clock db' = sd_clock db"
    using Some c(2) by (simp_all add: store_wake_def split: option.split)
  show thesis
    by (rule that [of ?k']) (use g same c(1) key in \<open>simp_all add: stands_def set_wake_claimed_def\<close>)
qed

text \<open>C25: A wake-up that was claimed, marked as leaving and then submitted has no lease any more. Until
  its session is seen busy, no other wake-up of the session is claimed: not after any time, and not
  for any callbacks that arrive.\<close>

theorem sent_wake_waits_for_turn:
  assumes "service_history p u w" and "nothing_dispatched (w_inbox u)" and "0 < pol_maxAttempts p"
    and "claimForStableSession p sid (w_inbox w) = (Inr (Some c), d0)"
    and "markDeliveryUncertain c (d0\<lparr>sd_clock := t1\<rparr>) = (Inr (), d1)"
    and "markSubmitted c (d1\<lparr>sd_clock := t2\<rparr>) = (Inr (), d2)"
    and later: "getInboxFingerprint sid (d2\<lparr>sd_rows := rows, sd_clock := t3\<rparr>) \<noteq> None"
  shows "claimForStableSession p sid (d2\<lparr>sd_rows := rows, sd_clock := t3\<rparr>) = (Inr None, d2\<lparr>sd_rows := rows, sd_clock := t3\<rparr>)"
proof -
  have "wakes_ok p (w_inbox w)" using history_ok [OF assms(1-3)] by (simp add: inbox_ok_def)
  then obtain k where k: "stands c WakeClaimed d0 k" "wk_busyObservedAt k = None" "wc_callbackSessionId c = sid"
      "getInboxFingerprint sid d0 = Some (wc_inboxFingerprint c)"
    by (rule granted_stands [OF _ assms(3,4)]) blast
  have wakes: "getWake x (db\<lparr>sd_rows := rs\<rparr>) = getWake x db" "getWake x (db\<lparr>sd_rows := rs, sd_clock := t\<rparr>) = getWake x db" "getWake x (db\<lparr>sd_clock := t\<rparr>) = getWake x db"
    "generation x (db\<lparr>sd_clock := t\<rparr>) = generation x db" for x db rs t
    by (simp_all add: getWake_def generation_def)
  let ?d0 = "d0\<lparr>sd_clock := t1\<rparr>"
  have s0: "stands c WakeClaimed ?d0 k" using k(1) by (simp add: stands_def wakes)
  have f0: "getInboxFingerprint sid ?d0 = Some (wc_inboxFingerprint c)" using fingerprint_rows [of ?d0 d0 sid] k(4) by simp
  have "\<not> leaseExpired k t1"
  proof
    assume "leaseExpired k t1"
    then have "validateClaim c ?d0 = (Inr False, ?d0)"
      using s0 f0 k(3) by (simp add: validateClaim_def reconcileHandledCallbacks_def stands_def bnd_run)
    with assms(5) show False by (simp add: markDeliveryUncertain_def bnd_run)
  qed
  then have d1: "d1 = set_wake (uncertain_wake t1 k) ?d0" and s1: "stands c WakeBlocked d1 (uncertain_wake t1 k)"
    using uncertain_stands [OF s0] f0 k(3) assms(5) by simp_all
  let ?d1 = "d1\<lparr>sd_clock := t2\<rparr>" and ?k = "(uncertain_wake t1 k)\<lparr>wk_state := WakeSubmitted, wk_submittedAt := Some t2, wk_lastError := None\<rparr>"
  have s1': "stands c WakeBlocked ?d1 (uncertain_wake t1 k)" using s1 by (simp add: stands_def wakes)
  have d2: "d2 = set_wake ?k ?d1" using submitted_stands [OF s1'] assms(6) by simp
  have "stands c WakeSubmitted d2 ?k" unfolding d2 using stands_set [OF s1', of ?k] by simp
  then have "getWake sid (d2\<lparr>sd_rows := rows, sd_clock := t3\<rparr>) = Some ?k" using k(3) by (simp add: stands_def wakes)
  then have "settle_wake p sid f t (d2\<lparr>sd_rows := rows, sd_clock := t3\<rparr>) = (Inr None, d2\<lparr>sd_rows := rows, sd_clock := t3\<rparr>)" for f t
    using k(2) by (simp add: settle_wake_def bnd_run wakes uncertain_wake_def leaseExpired_def)
  with later show ?thesis by (auto simp: claimForStableSession_def bnd_run)
qed

section \<open>A callback that is retried after its review\<close>

lemma unresolved_alone:
  assumes "distinct (map sd_dispatchId rows)" "filter (unresolved sid) rows = []" "r \<in> set rows" "sd_dispatchId r = i" "unresolved sid (f r)"
    "sd_dispatchId (f r) = i"
  shows "filter (unresolved sid) (map (\<lambda>x. if sd_dispatchId x = i then f x else x) rows) = [f r]"
  using assms
proof (induction rows)
  case (Cons x xs)
  show ?case
  proof (cases "sd_dispatchId x = i")
    case True
    then have "x = r" using Cons.prems(1,3,4) by (auto simp: image_iff)
    moreover have "map (\<lambda>x. if sd_dispatchId x = i then f x else x) xs = xs"
      using Cons.prems(1) True by (intro map_idI) (auto simp: image_iff)
    ultimately show ?thesis using Cons.prems True by (auto split: if_splits)
  next
    case False
    with Cons show ?thesis by (auto split: if_splits)
  qed
qed simp

lemma filter_one:
  "distinct xs \<Longrightarrow> r \<in> set xs \<Longrightarrow> P r \<Longrightarrow> (\<And>y. y \<in> set xs \<Longrightarrow> P y \<Longrightarrow> y = r) \<Longrightarrow> filter P xs = [r]"
proof (induction xs)
  case (Cons x xs)
  show ?case
  proof (cases "x = r")
    case True
    then have "\<not> P y" if "y \<in> set xs" for y
      using Cons.prems(4) [of y] Cons.prems(1) that by (metis distinct.simps(2) list.set_intros(2))
    with True Cons.prems(3) show ?thesis by (simp add: filter_empty_conv)
  next
    case False
    then have not: "\<not> P x" using Cons.prems(4) [of x] by force
    have "filter P xs = [r]" by (rule Cons.IH) (use Cons.prems False in \<open>simp_all\<close>)
    with not show ?thesis by simp
  qed
qed simp

lemma fingerprint_of_one:
  "filter (unresolved sid) (sd_rows db) = [r] \<Longrightarrow> getInboxFingerprint sid db = Some (sd_sha db (inbox_material [r]))"
  by (simp add: getInboxFingerprint_def listUnresolvedCallbacks_def)

lemma fingerprint_none: "getInboxFingerprint sid db = None \<longleftrightarrow> filter (unresolved sid) (sd_rows db) = []"
proof -
  have "getInboxFingerprint sid db = None \<longleftrightarrow> listUnresolvedCallbacks sid db = []"
    by (simp add: getInboxFingerprint_def split: list.split)
  also have "\<dots> \<longleftrightarrow> set (listUnresolvedCallbacks sid db) = {}" by simp
  also have "\<dots> \<longleftrightarrow> filter (unresolved sid) (sd_rows db) = []"
    by (auto simp: listUnresolvedCallbacks_def filter_empty_conv)
  finally show ?thesis .
qed

lemma resolved_unclaimed:
  assumes "getInboxFingerprint sid db = Some (wk_inboxFingerprint k)" "getWake sid db = Some k" "wk_state k = WakeResolved" "wk_nextRetryAt k = None"
  shows "claimForStableSession p sid (db\<lparr>sd_clock := t\<rparr>) = (Inr None, db\<lparr>sd_clock := t\<rparr>)"
proof -
  have "getInboxFingerprint sid (db\<lparr>sd_clock := t\<rparr>) = Some (wk_inboxFingerprint k)"
    using assms(1) fingerprint_rows [of "db\<lparr>sd_clock := t\<rparr>" db sid] by simp
  moreover have "getWake sid (db\<lparr>sd_clock := t\<rparr>) = Some k" using assms(2) by (simp add: getWake_def)
  ultimately show ?thesis
    using assms(3,4) by (simp add: claimForStableSession_def bnd_run settle_wake_def may_claim_def claimWake_def)
qed

text \<open>What an acknowledgement of the last callback leaves: its dispatch, and a resolved wake-up.\<close>

lemma last_acknowledged:
  assumes ok: "inbox_ok p (w_inbox w)" and woken: "getWake sid (w_inbox w) = Some k"
    and ack: "acknowledge se i sid w = (Inr x, w')" and only: "\<not> hasUnresolved sid (w_inbox w')"
  obtains r k' where "getDispatch i (w_inbox w) = Some r" "permitted se r (Some sid)" "sd_callbackSessionId r = Some sid"
    "sd_terminalFingerprint r \<noteq> None" "sd_terminalFingerprint x = sd_terminalFingerprint r"
    "sd_rows (w_inbox w') = map (\<lambda>y. if sd_dispatchId y = i then written (acked (q_clock (w_db w)) r) y else y) (sd_rows (w_inbox w))"
    "getDispatch i (w_inbox w') = Some (written (acked (q_clock (w_db w)) r) r)" "sd_sha (w_inbox w') = sd_sha (w_inbox w)"
    "getWake sid (w_inbox w') = Some k'" "wk_state k' = WakeResolved" "wk_inboxFingerprint k' = wk_inboxFingerprint k" "wk_nextRetryAt k' = None"
proof -
  let ?t = "q_clock (w_db w)"
  obtain r where r: "getDispatch i (w_inbox w) = Some r" "permitted se r (Some sid)" "sd_callbackSessionId r = Some sid"
      "sd_state r \<in> {CallbackPending, CallbackDelivered, Acknowledged}" "x = acked ?t r"
      "w' = (clocked w)\<lparr>w_inbox := reconciled sid (put_dispatch (acked ?t r) (w_inbox (clocked w)))\<rparr>"
    using ack unfolding acknowledge_run by (auto split: option.splits if_splits)
  have rin: "r \<in> set (sd_rows (w_inbox w))" "sd_dispatchId r = i" using getDispatch_in [OF r(1)] by simp_all
  have id: "sd_dispatchId (acked ?t r) = i" using rin by (simp add: acked_def)
  let ?d1 = "put_dispatch (acked ?t r) (w_inbox (clocked w))"
  have in1: "w_inbox w' = reconciled sid ?d1" by (simp add: r(6))
  have f1: "getInboxFingerprint sid ?d1 = None"
    using only fingerprint_rows [of "w_inbox w'" ?d1 sid] by (simp add: in1 hasUnresolved_def)
  have "getWake sid ?d1 = Some k" using woken by (simp add: getWake_def)
  from reconciled_empty [OF f1 this] obtain k' where k': "getWake sid (w_inbox w') = Some k'" "wk_state k' = WakeResolved"
      "wk_inboxFingerprint k' = wk_inboxFingerprint k" "wk_nextRetryAt k' = None" by (auto simp: in1)
  have "dispatch_ok r" using ok rin by (simp add: inbox_ok_def dispatches_ok_def)
  moreover have "sd_state r \<noteq> Working" "sd_state r \<noteq> DispatchFailed" using r(4) by auto
  ultimately have fpr: "sd_terminalFingerprint r \<noteq> None" by (rule ok_result)
  show thesis
    by (rule that [OF r(1-3) fpr _ _ _ _ k'])
      (use get_put [of i "w_inbox (clocked w)" r "acked ?t r" i] r(1,5) id in
        \<open>simp_all add: in1 put_dispatch_def update_dispatches_def acked_def\<close>)
qed

text \<open>Where one callback was the last, it is the only one once it is unresolved again.\<close>

lemma only_callback:
  assumes d: "dispatches_ok db" and r: "r \<in> set (sd_rows db)" "sd_dispatchId r = i" and some: "getInboxFingerprint sid db \<noteq> None"
    and rows: "sd_rows db' = map (\<lambda>y. if sd_dispatchId y = i then g y else y) (sd_rows db)" and none: "getInboxFingerprint sid db' = None"
  shows "filter (unresolved sid) (sd_rows db) = [r]"
proof -
  have only_r: "y = r" if y: "y \<in> set (sd_rows db)" "unresolved sid y" for y
  proof (rule one_dispatch [OF d y(1) r(1)], rule ccontr)
    assume "sd_dispatchId y \<noteq> sd_dispatchId r"
    then have "y \<in> set (sd_rows db')" unfolding rows using y(1) r(2) by (auto simp: image_iff intro!: bexI [of _ y])
    with y(2) none [unfolded fingerprint_none] show False by (simp add: filter_empty_conv)
  qed
  have "filter (unresolved sid) (sd_rows db) \<noteq> []" using some fingerprint_none [of sid db] by simp
  then obtain y where "y \<in> set (sd_rows db)" "unresolved sid y" by (auto simp: filter_empty_conv)
  then have "unresolved sid r" using only_r by metis
  moreover have "distinct (sd_rows db)" using d by (simp add: dispatches_ok_def distinct_map)
  ultimately show ?thesis using only_r r(1) by (intro filter_one)
qed

text \<open>C24: A session was woken for the only callback it has, and acknowledges it. When it retries the
  callback afterwards, the callback is unresolved again, but the inbox has the fingerprint of the
  wake-up that is already resolved: from the moment the next turn is requested, at any time, no
  wake-up is claimed and nothing changes.\<close>

theorem retried_callback_never_wakes:
  assumes "service_history p u w" and "nothing_dispatched (w_inbox u)" and "0 < pol_maxAttempts p"
    and woken: "getWake sid (w_inbox w) = Some k" "getInboxFingerprint sid (w_inbox w) = Some (wk_inboxFingerprint k)"
    and ack: "acknowledge se i sid w = (Inr x, w')" and only: "\<not> hasUnresolved sid (w_inbox w')"
    and fp: "sd_terminalFingerprint x \<noteq> Some []"
  shows "\<exists>y v. retryCallback se i sid (w'\<lparr>w_db := q\<rparr>) = bnd (se_requestNextTurn se sid) (\<lambda>_. ret y) v \<and> hasUnresolved sid (w_inbox v) \<and>
    (\<forall>t. claimForStableSession p sid ((w_inbox v)\<lparr>sd_clock := t\<rparr>) = (Inr None, (w_inbox v)\<lparr>sd_clock := t\<rparr>))"
proof -
  let ?db = "w_inbox w" and ?w' = "w'\<lparr>w_db := q\<rparr>"
  have ok: "inbox_ok p ?db" by (rule history_ok [OF assms(1-3)])
  then have d: "dispatches_ok ?db" by (simp add: inbox_ok_def)
  obtain r k' where r: "getDispatch i ?db = Some r" "permitted se r (Some sid)" "sd_callbackSessionId r = Some sid"
      "sd_terminalFingerprint r \<noteq> None" "sd_terminalFingerprint x = sd_terminalFingerprint r"
    and rows1: "sd_rows (w_inbox w') = map (\<lambda>y. if sd_dispatchId y = i then written (acked (q_clock (w_db w)) r) y else y) (sd_rows ?db)"
    and row1: "getDispatch i (w_inbox w') = Some (written (acked (q_clock (w_db w)) r) r)" and sha: "sd_sha (w_inbox w') = sd_sha ?db"
    and k': "getWake sid (w_inbox w') = Some k'" "wk_state k' = WakeResolved" "wk_inboxFingerprint k' = wk_inboxFingerprint k" "wk_nextRetryAt k' = None"
    by (rule last_acknowledged [OF ok woken(1) ack only])
  let ?r1 = "written (acked (q_clock (w_db w)) r) r"
  have rin: "r \<in> set (sd_rows ?db)" "sd_dispatchId r = i" using getDispatch_in [OF r(1)] by simp_all
  have none1: "getInboxFingerprint sid (w_inbox w') = None" using only by (simp add: hasUnresolved_def)
  have one0: "filter (unresolved sid) (sd_rows ?db) = [r]" by (rule only_callback [OF d rin _ rows1 none1]) (simp add: woken(2))
  have r1: "permitted se ?r1 (Some sid)" "sd_callbackSessionId ?r1 = Some sid" "sd_terminalFingerprint ?r1 = sd_terminalFingerprint r"
      "sd_dispatchId ?r1 = i"
    using r(2,3) rin permitted_owner [of ?r1 r] by (simp_all add: acked_def)
  have ne: "nonempty (sd_terminalFingerprint ?r1) \<noteq> None" using r(4,5) r1(3) fp by (auto simp: nonempty_def)
  let ?n = "(reset_callback ?r1)\<lparr>sd_updatedAt := q_clock q\<rparr>"
  let ?v = "(clocked ?w')\<lparr>w_inbox := put_dispatch ?n (w_inbox (clocked ?w'))\<rparr>"
  have "getDispatch i (w_inbox ?w') = Some ?r1" using row1 by simp
  then have run: "retryCallback se i sid ?w' = bnd (se_requestNextTurn se sid) (\<lambda>_. ret ?n) ?v"
    using retry_run [OF _ r1(1,2) ne] by (simp add: Let_def)
  have un: "unresolved sid (written ?n ?r1)" "sd_terminalFingerprint (written ?n ?r1) = sd_terminalFingerprint r"
    using r1(2,3) r(4,5) fp by (simp_all add: unresolved_def reset_callback_def)
  have "distinct (map sd_dispatchId (sd_rows (w_inbox w')))"
  proof -
    have "map sd_dispatchId (sd_rows (w_inbox w')) = map sd_dispatchId (sd_rows ?db)" unfolding rows1 by simp
    with d show ?thesis by (simp add: dispatches_ok_def)
  qed
  moreover have "?r1 \<in> set (sd_rows (w_inbox w'))" using getDispatch_in [OF row1] by simp
  ultimately have "filter (unresolved sid) (map (\<lambda>y. if sd_dispatchId y = i then written ?n y else y) (sd_rows (w_inbox w'))) = [written ?n ?r1]"
    using none1 un(1) r1(4) by (intro unresolved_alone) (simp_all add: fingerprint_none)
  moreover have idn: "sd_dispatchId ?n = i" using r1(4) by (simp add: reset_callback_def)
  moreover have "sd_rows (w_inbox ?v) = map (\<lambda>y. if sd_dispatchId y = i then written ?n y else y) (sd_rows (w_inbox w'))"
    by (simp add: put_dispatch_def update_dispatches_def idn)
  ultimately have one2: "filter (unresolved sid) (sd_rows (w_inbox ?v)) = [written ?n ?r1]" by simp
  have "inbox_material [written ?n ?r1] = inbox_material [r]" using un(2) rin(2) r1(4) by (simp add: inbox_material_def)
  then have fp2: "getInboxFingerprint sid (w_inbox ?v) = Some (wk_inboxFingerprint k')"
    using fingerprint_of_one [OF one2] fingerprint_of_one [OF one0] woken(2) sha k'(3) by simp
  have wake2: "getWake sid (w_inbox ?v) = Some k'" using k'(1) by (simp add: getWake_def)
  have "hasUnresolved sid (w_inbox ?v)" using fp2 by (simp add: hasUnresolved_def)
  with run resolved_unclaimed [OF fp2 wake2 k'(2,4)] show ?thesis by blast
qed

end
