(* ===== verification/Wake_Progress.thy ===== *)
theory Wake_Progress
  imports Wake_Contract
begin

text \<open>
  A wake-up arrives: a stable session with callbacks to review, no prompt of its own and a wake-up that
  is due is sent one, once.
\<close>

section \<open>The claim\<close>

text \<open>When the next wake-up of a session may be claimed, for the callbacks it has now.\<close>

definition wake_open :: "string \<Rightarrow> nat \<Rightarrow> wake_row option \<Rightarrow> bool" where
  "wake_open f clk wake = (case wake of None \<Rightarrow> True
     | Some k \<Rightarrow> (case wk_state k of
         WakePending \<Rightarrow> (case wk_nextRetryAt k of Some t \<Rightarrow> t \<le> clk | None \<Rightarrow> True)
       | WakeClaimed \<Rightarrow> False
       | WakeSubmitted \<Rightarrow> wk_busyObservedAt k \<noteq> None \<and> wk_inboxFingerprint k \<noteq> f
       | WakeBlocked \<Rightarrow> wk_inboxFingerprint k \<noteq> f
       | WakeResolved \<Rightarrow> wk_inboxFingerprint k \<noteq> f))"

lemma open_settles:
  assumes "case wake of Some k \<Rightarrow> wake_ok p k | None \<Rightarrow> True" and "wake_open f clk wake"
  obtains k where "settled p f clk wake = Some k" "may_claim f clk k" "due clk (fresh_wake sid f clk k)"
proof (cases wake)
  case None
  then show thesis
    by (intro that [of None]) (simp_all add: settled_def may_claim_def due_def fresh_wake_def new_wake_def)
next
  case (Some k)
  have retry: "wk_state k \<noteq> WakePending \<Longrightarrow> wk_nextRetryAt k = None" using assms(1) Some by (auto simp: wake_ok_def)
  show thesis
  proof (cases "wk_state k = WakeSubmitted")
    case True
    with assms(2) Some show thesis
      by (intro that [of "Some (judged_wake p f clk k)"])
        (auto simp: wake_open_def settled_def judged_wake_def restarted_wake_def may_claim_def due_def fresh_wake_def)
  next
    case False
    then show thesis
      using assms(2) Some retry
      by (intro that [of "Some k"])
        (auto simp: wake_open_def settled_def may_claim_def due_def fresh_wake_def new_wake_def split: wake_state.splits)
  qed
qed

lemma open_claimed:
  assumes ok: "wakes_ok p db" and max: "0 < pol_maxAttempts p" and f: "getInboxFingerprint s db = Some f"
    and free: "wake_open f (sd_clock db) (getWake s db)"
  obtains db' where "claimForStableSession p s db = (Inr (Some \<lparr>wc_generation = generation s db, wc_callbackSessionId = s,
    wc_inboxFingerprint = f, wc_attemptCount = tries f (getWake s db) + 1\<rparr>), db')"
proof -
  have "case getWake s db of Some k \<Rightarrow> wake_ok p k | None \<Rightarrow> True" using wakes_okD [OF ok] by (simp split: option.split)
  from open_settles [OF this free] obtain k where "settled p f (sd_clock db) (getWake s db) = Some k" "may_claim f (sd_clock db) k"
      "due (sd_clock db) (fresh_wake s f (sd_clock db) k)" by blast
  with claim_run_inbox [OF ok max f] have some: "\<exists>c db'. claimForStableSession p s db = (Inr (Some c), db')"
    by (simp add: Let_def)
  show thesis
  proof (cases rule: claim_counts [OF ok max, of s, case_names refused granted])
    case (refused db')
    with some show thesis by simp
  next
    case (granted g db')
    with f show thesis by (intro that [of db']) simp
  qed
qed

section \<open>The delivery\<close>

lemma on_inbox_run:
  "m ((w_inbox w)\<lparr>sd_clock := q_clock (w_db w)\<rparr>) = (Inr x, db) \<Longrightarrow> on_inbox m w = (Inr x, w\<lparr>w_inbox := db\<rparr>)"
  by (simp add: on_inbox_def)

lemma same_clock: "sd_clock (w_inbox w) = q_clock (w_db w) \<Longrightarrow> (w_inbox w)\<lparr>sd_clock := q_clock (w_db w)\<rparr> = w_inbox w"
  by (cases "w_inbox w") simp

lemma http_once:
  assumes "http su" "\<forall>k v. su_others su k v = v" "beforeSend w = (Inr True, v)" "onSending v = (Inr (), v')"
  shows "deliverSessionAgentMessage su False mark beforeSend onSending w =
    (Inr (read_answer (su_answer su)), if su_takes su then mark v' else v')"
  using assms by (cases "su_adapter su") (simp_all add: http_def deliverSessionAgentMessage_def submitOnce_def transmit_def bnd_run)

lemma busy_noted:
  assumes "getWake s db = Some k" "wk_state k = WakeSubmitted"
  obtains k' where "noteSessionBusy s db = (Inr (), snd (noteSessionBusy s db))" "getWake s (snd (noteSessionBusy s db)) = Some k'"
    "wk_state k' = WakeSubmitted" "wk_attemptCount k' = wk_attemptCount k"
proof (cases "wk_busyObservedAt k")
  case (Some t)
  with assms show thesis by (intro that [of k]) (simp_all add: noteSessionBusy_def bnd_run)
next
  case None
  let ?k = "k\<lparr>wk_busyObservedAt := Some (sd_clock db)\<rparr>"
  have "noteSessionBusy s db = (Inr (), set_wake ?k db)" using assms None by (simp add: noteSessionBusy_def bnd_run resave_run)
  moreover have "getWake s (set_wake ?k db) = Some ?k"
    using getWake_set [of ?k db k s] getWake_key [OF assms(1)] assms(1) by simp
  ultimately show thesis using assms(2) by (intro that [of ?k]) simp_all
qed

text \<open>The wake-up of a claim that stands is sent, and then submitted.\<close>

lemma wake_delivered:
  assumes k: "stands c WakeClaimed (w_inbox w) k" "\<not> leaseExpired k (q_clock (w_db w))"
    and f: "getInboxFingerprint (si_id ses) (w_inbox w) = Some (wc_inboxFingerprint c)" and sid: "wc_callbackSessionId c = si_id ses"
    and clk: "sd_clock (w_inbox w) = q_clock (w_db w)"
    and alone: "\<forall>k v. su_others su k v = v" and via: "http su" and up: "su_ready su = Inr ()" "su_bridge su = None"
    and acc: "mr_certainty (read_answer (su_answer su)) = Accepted" and free: "\<not> completed_turn ses" "\<not> w_draining w"
  obtains w' k' where "deliver_wake su ses c w = (Inr (), w')" "w_woken w' = (if su_takes su then c # w_woken w else w_woken w)"
    "w_inflight w' = w_inflight w" "w_db w' = w_db w" "w_taken w' = w_taken w"
    "getWake (si_id ses) (w_inbox w') = Some k'" "wk_state k' = WakeSubmitted" "wk_attemptCount k' = wc_attemptCount c"
proof -
  let ?s = "si_id ses" and ?t = "q_clock (w_db w)"
  define w0 where "w0 = w\<lparr>w_started := ?s # w_started w\<rparr>"
  have w0: "w_inbox w0 = w_inbox w" "w_db w0 = w_db w" "\<not> w_draining w0" "w_woken w0 = w_woken w" "w_inflight w0 = w_inflight w" "w_taken w0 = w_taken w"
    using free(2) by (simp_all add: w0_def)
  have ready: "ensureSessionReadyForPromptDispatch su ses w = (Inr (), w0)"
    using alone up by (simp add: ensureSessionReadyForPromptDispatch_def bnd_run w0_def)
  have same: "(w_inbox w0)\<lparr>sd_clock := q_clock (w_db w0)\<rparr> = w_inbox w" using same_clock [of w] clk w0 by simp
  note now' = k(1) k(2) [folded clk] f [folded sid]
  have "on_inbox (validateClaim c) w0 = (Inr True, w0\<lparr>w_inbox := w_inbox w\<rparr>)"
    by (rule on_inbox_run) (use validate_stands [OF now'] same in simp)
  then have valid: "on_inbox (validateClaim c) w0 = (Inr True, w0)" by (simp add: w0_def)
  let ?d1 = "set_wake (uncertain_wake ?t k) (w_inbox w)" and ?v1 = "w0\<lparr>w_inbox := set_wake (uncertain_wake ?t k) (w_inbox w)\<rparr>"
  note unc = uncertain_stands [OF now', unfolded clk]
  have sending: "on_inbox (markDeliveryUncertain c) w0 = (Inr (), ?v1)" by (rule on_inbox_run) (use unc(1) same in simp)
  define v2 where "v2 = (if su_takes su then takes_wake c ?v1 else ?v1)"
  have v2: "w_inbox v2 = ?d1" "w_db v2 = w_db w" "w_woken v2 = (if su_takes su then c # w_woken w else w_woken w)" "w_inflight v2 = w_inflight w"
      "w_taken v2 = w_taken w"
    using w0 by (simp_all add: v2_def takes_wake_def)
  have sent: "deliverSessionAgentMessage su False (takes_wake c) (on_inbox (validateClaim c)) (on_inbox (markDeliveryUncertain c)) w0 =
      (Inr (read_answer (su_answer su)), v2)"
    unfolding v2_def using via alone valid sending by (rule http_once)
  let ?k = "(uncertain_wake ?t k)\<lparr>wk_state := WakeSubmitted, wk_submittedAt := Some ?t, wk_lastError := None\<rparr>"
  have same2: "(w_inbox v2)\<lparr>sd_clock := q_clock (w_db v2)\<rparr> = ?d1" using v2 clk same_clock [of v2] by simp
  define v3 where "v3 = v2\<lparr>w_inbox := set_wake ?k ?d1\<rparr>"
  have sub: "on_inbox (markSubmitted c) v2 = (Inr (), v3)"
    unfolding v3_def by (rule on_inbox_run) (use submitted_stands [OF unc(2)] same2 clk in simp)
  have g3: "getWake ?s (w_inbox v3) = Some ?k"
    using stands_set [OF unc(2), of ?k] sid by (simp add: v3_def stands_def)
  have ok: "mr_ok (read_answer (su_answer su))" using acc read_answer_cases [of "su_answer su"] by auto
  let ?n = "waitForMessageUpdate (su_counts su) (su_initial su) 0 80"
  have acpt: "deliverAcceptedPrompt su ses (takes_wake c) (on_inbox (validateClaim c)) (on_inbox (markDeliveryUncertain c))
      (\<lambda>_. on_inbox (releaseRejectedDelivery c)) (on_inbox (markSubmitted c)) w0 = (Inr ?n, v3)"
    using free(1) w0(3) sent ok sub up(2) alone by (simp add: deliverAcceptedPrompt_def bnd_run)
  have same3: "(w_inbox v3)\<lparr>sd_clock := q_clock (w_db v3)\<rparr> = w_inbox v3" using clk v2 by (intro same_clock) (simp add: v3_def)
  obtain k' where b: "noteSessionBusy ?s (w_inbox v3) = (Inr (), snd (noteSessionBusy ?s (w_inbox v3)))"
      "getWake ?s (snd (noteSessionBusy ?s (w_inbox v3))) = Some k'" "wk_state k' = WakeSubmitted" "wk_attemptCount k' = wk_attemptCount ?k"
    by (rule busy_noted [OF g3]) simp
  define v4 where "v4 = (if ?n > su_initial su then v3\<lparr>w_inbox := snd (noteSessionBusy ?s (w_inbox v3))\<rparr> else v3)"
  have "on_inbox (noteSessionBusy ?s) v3 = (Inr (), v3\<lparr>w_inbox := snd (noteSessionBusy ?s (w_inbox v3))\<rparr>)"
    by (rule on_inbox_run) (use same3 b(1) in simp)
  then have busy: "(if ?n > su_initial su then on_inbox (noteSessionBusy ?s) else ret ()) v3 = (Inr (), v4)"
    by (simp add: v4_def)
  have run: "deliver_wake su ses c w = (Inr (), clear_cooldown ?s v4)"
    using ready valid acpt busy by (simp add: deliver_wake_def bnd_run)
  have att: "wk_attemptCount ?k = wc_attemptCount c" using k(1) by (simp add: stands_def uncertain_wake_def)
  have fin: "w_woken (clear_cooldown ?s v4) = w_woken v2" "w_inflight (clear_cooldown ?s v4) = w_inflight v2"
      "w_db (clear_cooldown ?s v4) = w_db v2" "w_taken (clear_cooldown ?s v4) = w_taken v2" "w_inbox (clear_cooldown ?s v4) = w_inbox v4"
    by (simp_all add: clear_cooldown_def v4_def v3_def)
  obtain k4 where k4: "getWake ?s (w_inbox v4) = Some k4" "wk_state k4 = WakeSubmitted" "wk_attemptCount k4 = wc_attemptCount c"
  proof (cases "?n > su_initial su")
    case True
    with b att show thesis by (intro that [of k']) (simp_all add: v4_def)
  next
    case False
    with g3 att show thesis by (intro that [of ?k]) (simp_all add: v4_def)
  qed
  show thesis by (rule that [OF run]) (use fin v2 k4 in simp_all)
qed

section \<open>The wake-up\<close>

text \<open>C20: A running, stable session that has callbacks to review, no prompts of its own, and no wake-up
  that is claimed, in its turn, blocked for these callbacks or paused, is woken by the next automatic
  dispatch: over HTTP, with an agent that accepts, the agent takes exactly one wake-up, numbered after
  the attempts already made for these callbacks, no prompt, and the wake-up is submitted.\<close>

theorem callback_wakes_supervisor:
  assumes ok: "service_history p u w" "nothing_dispatched (w_inbox u)" "0 < pol_maxAttempts p" "0 < pol_leaseMs p"
    and f: "getInboxFingerprint (si_id ses) (w_inbox w) = Some f"
    and due: "wake_open f (q_clock (w_db w)) (getWake (si_id ses) (w_inbox w))"
    and ses: "shouldAutoDispatchSession ses" "si_runtime ses = Some ''stable''" "resolveSessionChargeNpub ses = Some npub"
    and free: "getQueueCount (si_id ses) (w_db w) = 0" "\<not> su_unpublished su" "\<not> w_draining w" "si_id ses \<notin> w_inflight w" "\<not> cooling (si_id ses) w"
    and alone: "\<forall>k v. su_others su k v = v" and via: "http su" and up: "su_ready su = Inr ()" "su_bridge su = None"
    and view: "rd_state (getSessionPromptReadiness (su_view su)) = Ready"
    and acc: "mr_certainty (read_answer (su_answer su)) = Accepted" "su_takes su"
  shows "\<exists>w' k. maybeAutoDispatchQueuedPrompt p su approved (Some ses) w = (Inr (), w') \<and>
    w_woken w' = \<lparr>wc_generation = generation (si_id ses) (w_inbox w), wc_callbackSessionId = si_id ses, wc_inboxFingerprint = f,
       wc_attemptCount = tries f (getWake (si_id ses) (w_inbox w)) + 1\<rparr> # w_woken w \<and>
    w_taken w' = w_taken w \<and> w_inflight w' = w_inflight w \<and>
    getWake (si_id ses) (w_inbox w') = Some k \<and> wk_state k = WakeSubmitted \<and>
    wk_attemptCount k = tries f (getWake (si_id ses) (w_inbox w)) + 1"
proof -
  let ?s = "si_id ses" and ?t = "q_clock (w_db w)"
  let ?db = "(w_inbox w)\<lparr>sd_clock := ?t\<rparr>"
  have db: "getInboxFingerprint ?s ?db = Some f" "getWake ?s ?db = getWake ?s (w_inbox w)" "generation ?s ?db = generation ?s (w_inbox w)"
    using f fingerprint_rows [of ?db "w_inbox w" ?s] by (simp_all add: getWake_def generation_def)
  have "wakes_ok p (w_inbox w)" using history_ok [OF ok(1-3)] by (simp add: inbox_ok_def)
  then have wok: "wakes_ok p ?db" by (simp add: wakes_ok_def)
  let ?c = "\<lparr>wc_generation = generation ?s (w_inbox w), wc_callbackSessionId = ?s, wc_inboxFingerprint = f,
       wc_attemptCount = tries f (getWake ?s (w_inbox w)) + 1\<rparr>"
  obtain db' where claim: "claimForStableSession p ?s ?db = (Inr (Some ?c), db')"
    using open_claimed [OF wok ok(3) db(1)] due db(2,3) by auto
  obtain k where k: "stands ?c WakeClaimed db' k" "wk_leaseExpiresAt k = Some (?t + pol_leaseMs p)" "getInboxFingerprint ?s db' = Some f"
      "sd_clock db' = ?t"
    using granted_stands [OF wok ok(3) claim] by auto
  let ?w0 = "w\<lparr>w_inflight := insert ?s (w_inflight w)\<rparr>"
  let ?w1 = "?w0\<lparr>w_inbox := db'\<rparr>"
  have c1: "on_inbox (claimForStableSession p ?s) ?w0 = (Inr (Some ?c), ?w1)" by (rule on_inbox_run) (use claim in simp)
  have live: "\<not> leaseExpired k ?t" using k(2) ok(4) by (simp add: leaseExpired_def)
  have not_turn: "\<not> completed_turn ses" using ses(1) by (simp add: shouldAutoDispatchSession_def)
  obtain w' k' where d: "deliver_wake su ses ?c ?w1 = (Inr (), w')" "w_woken w' = ?c # w_woken w" "w_inflight w' = insert ?s (w_inflight w)"
      "w_taken w' = w_taken w" "getWake ?s (w_inbox w') = Some k'" "wk_state k' = WakeSubmitted" "wk_attemptCount k' = wc_attemptCount ?c"
    by (rule wake_delivered [where w = ?w1 and c = ?c and k = k and ses = ses and su = su])
      (use k live not_turn free(3) alone via up acc in simp_all)
  have wake: "dispatchInboxWake p su ses ?c ?w1 = (Inr (), w')"
    using not_turn d(1) by (simp add: dispatchInboxWake_def handle_run)
  have has: "hasUnresolved ?s (w_inbox w)" using f by (simp add: hasUnresolved_def)
  have "wake_attempt p su ses True ?w0 = (Inr (), w')" using ses(2) c1 wake by (simp add: wake_attempt_def bnd_run)
  then have att: "auto_attempt p su approved ses npub 0 True ?w0 = (Inr (), w')"
    using alone view by (simp add: auto_attempt_def bnd_run)
  have "maybeAutoDispatchQueuedPrompt p su approved (Some ses) w = (Inr (), w'\<lparr>w_inflight := w_inflight w' - {?s}\<rparr>)"
    using free has ses(1,3) att by (simp add: maybeAutoDispatchQueuedPrompt_def finally_run handle_run)
  then show ?thesis using d free(4) by (intro exI [of _ "w'\<lparr>w_inflight := w_inflight w' - {?s}\<rparr>"] exI [of _ k']) simp
qed

end
