(* ===== verification/Review_Contract.thy ===== *)
theory Review_Contract
  imports Review_Laws
begin

text \<open>
  What a worker is given and what comes back from it: the identity it inherits, the answer that is
  captured when its turn is over, and the review that takes the callback out of the inbox.
\<close>

section \<open>The identity of a worker\<close>

lemma get_overwrite:
  "distinct (map fst ys) \<Longrightarrow> get (overwrite xs ys) k = (case map_of ys k of Some v \<Rightarrow> v | None \<Rightarrow> get xs k)"
  by (simp add: get_def map_of_overwrite map_add_def split: option.split)

lemma task_fields:
  assumes "with_task task ctx = Inr ctx'" "k \<notin> {''bindingType'', ''bindingId'', ''taskIds''}"
  shows "get ctx' k = get ctx k"
proof (cases task)
  case (JStr t)
  then have "ctx' = overwrite ctx [(''bindingType'', JStr ''task''), (''bindingId'', JStr (trim t)), (''taskIds'', JArr [JStr (trim t)])]"
    using assms(1) by (simp add: with_task_def split: if_splits)
  then show ?thesis using assms(2) by simp
qed (use assms(1) in \<open>simp_all add: with_task_def\<close>)

lemma map_of_own: "map_of (map (\<lambda>k. (k, f k)) ks) k = (if k \<in> set ks then Some (f k) else None)"
  by (induction ks) auto

text \<open>C22: A worker that is given the context of its parent acts as the parent's bot, in the parent's
  workspace and with the parent's subscription: each of these fields is the parent's own, the parent
  has an owner and was validated, and a hint of the request that differs from the parent is refused.
  What the request says selects the task, nothing else.\<close>

theorem worker_identity_from_parent:
  assumes "inheritWorkerContext (Some p) reporting v = Inr ctx" and "ctx \<noteq> []"
  shows "(\<exists>f. v = Some f \<and> f p = Inr True) \<and> resolveSessionOwnerNpub p \<noteq> None \<and>
    (let bot = coalesce (get (sn_metadata p) ''agentChatBotNpub'') (get (sn_metadata p) ''flightdeckAgentNpub'') in
      truthy bot \<and> (\<forall>k. k \<notin> {''bindingType'', ''bindingId'', ''taskIds''} \<longrightarrow> get ctx k =
        (if k \<in> {''agentChatBotNpub'', ''flightdeckAgentNpub''} then bot
         else if k \<in> set inherited_fields \<and> truthy (get (sn_metadata p) k) then get (sn_metadata p) k else JUndef))) \<and>
    (\<forall>(hint, k) \<in> set hint_fields. get reporting hint = JUndef \<or> strict_eq (get reporting hint) (get (sn_metadata p) k))"
proof -
  let ?m = "sn_metadata p"
  let ?bot = "coalesce (get ?m ''agentChatBotNpub'') (get ?m ''flightdeckAgentNpub'')"
  let ?own = "map (\<lambda>k. (k, get ?m k)) (filter (\<lambda>k. truthy (get ?m k)) inherited_fields)"
  let ?ctx = "overwrite [(''agentChatBotNpub'', ?bot), (''flightdeckAgentNpub'', ?bot)] ?own"
  have run: "resolveSessionOwnerNpub p \<noteq> None" "truthy ?bot" "\<exists>f. v = Some f \<and> f p = Inr True" "mismatched_hint reporting ?m = None"
      "with_task (reported_task reporting ?m) ?ctx = Inr ctx"
    using assms unfolding inheritWorkerContext_def option.case Let_def
    by (auto split: if_splits sum.splits option.splits)
  have "distinct inherited_fields" by (simp add: inherited_fields_def)
  then have d: "distinct (map fst ?own)" by (simp add: comp_def)
  have bot_fields: "''agentChatBotNpub'' \<notin> set inherited_fields" "''flightdeckAgentNpub'' \<notin> set inherited_fields"
    by (simp_all add: inherited_fields_def)
  have base: "get ?ctx k = (if k \<in> {''agentChatBotNpub'', ''flightdeckAgentNpub''} then ?bot
      else if k \<in> set inherited_fields \<and> truthy (get ?m k) then get ?m k else JUndef)" for k
    unfolding get_overwrite [OF d] using bot_fields by (simp add: map_of_own get_def)
  have "get reporting hint = JUndef \<or> strict_eq (get reporting hint) (get ?m k)" if "(hint, k) \<in> set hint_fields" for hint k
    using run(4) that by (auto simp: mismatched_hint_def find_None_iff)
  then have hints: "\<forall>(hint, k) \<in> set hint_fields. get reporting hint = JUndef \<or> strict_eq (get reporting hint) (get ?m k)" by blast
  have "\<forall>k. k \<notin> {''bindingType'', ''bindingId'', ''taskIds''} \<longrightarrow> get ctx k =
      (if k \<in> {''agentChatBotNpub'', ''flightdeckAgentNpub''} then ?bot
       else if k \<in> set inherited_fields \<and> truthy (get ?m k) then get ?m k else JUndef)"
    using task_fields [OF run(5)] by (simp only: base) blast
  with hints run(1-3) show ?thesis unfolding Let_def by blast
qed

section \<open>The answer of a worker\<close>

lemma after_last_split:
  assumes "p u" and "\<And>x. x \<in> set post \<Longrightarrow> \<not> p x"
  shows "after_last p (pre @ u # post) = post"
proof -
  have "takeWhile (\<lambda>x. \<not> p x) (rev post @ u # rev pre) = rev post"
    using assms by (subst takeWhile_append2) auto
  then show ?thesis using assms(1) by (simp add: after_last_def)
qed

lemma after_last_none: "(\<And>x. x \<in> set xs \<Longrightarrow> \<not> p x) \<Longrightarrow> after_last p xs = []"
  by (auto simp: after_last_def list_ex_iff)

lemma find_last_split:
  assumes "p m" and "\<And>x. x \<in> set post \<Longrightarrow> \<not> p x"
  shows "find_last p (pre @ m # post) = Some m"
proof -
  have "List.find p (ys @ m # zs) = Some m" if "\<And>x. x \<in> set ys \<Longrightarrow> \<not> p x" for ys zs
    using that by (induction ys) (simp_all add: assms(1))
  from this [of "rev post"] assms(2) show ?thesis by (simp add: find_last_def)
qed

lemma find_last_none: "(\<And>x. x \<in> set xs \<Longrightarrow> \<not> p x) \<Longrightarrow> find_last p xs = None"
  by (auto simp: find_last_def find_None_iff)

text \<open>A message that can be the answer of a turn, or the error in its place.\<close>

definition answering :: "turn_message \<Rightarrow> bool" where
  "answering m \<longleftrightarrow> tm_role m \<in> {''assistant'', ''agent'', ''agent-error''} \<and> trim (tm_content m) \<noteq> []"

lemma final_answering: "findNativeTurnFinal ms = (case find_last answering ms of None \<Rightarrow> None
    | Some m \<Rightarrow> if tm_role m = ''agent-error'' then None else Some m)"
  unfolding findNativeTurnFinal_def answering_def by (rule refl)

text \<open>The record of an end that is captured.\<close>

lemma capture_run:
  assumes "getDispatch (sd_dispatchId r) (w_inbox w) = Some r" "sd_terminalFingerprint r = None"
  obtains v x where "capture_end se r status message createdAt w = bnd (closeTerminalWorker se r) (\<lambda>_. case nonempty (sd_callbackSessionId r) of
       None \<Rightarrow> ret () | Some c \<Rightarrow> se_requestNextTurn se c) v"
    "getDispatch (sd_dispatchId r) (w_inbox v) = Some x" "sd_terminalStatus x = Some status" "sd_terminalMessage x = message"
    "sd_terminalMessageCreatedAt x = createdAt"
    "case nonempty (sd_callbackSessionId r) of None \<Rightarrow> sd_state x = DispatchClosed | Some c \<Rightarrow> unresolved c x"
    "\<And>j. j \<noteq> sd_dispatchId r \<Longrightarrow> getDispatch j (w_inbox v) = getDispatch j (w_inbox w)"
proof -
  let ?i = "sd_dispatchId r" and ?fp = "terminal_fingerprint (sd_sha (w_inbox w)) status message createdAt" and ?t = "q_clock (w_db w)"
  let ?cb = "nonempty (sd_callbackSessionId r)"
  define n where "n = (captured status message createdAt ?fp ?t (?cb \<noteq> None) r)\<lparr>sd_dispatchId := ?i, sd_updatedAt := ?t\<rparr>"
  let ?v = "(clocked w)\<lparr>w_inbox := put_dispatch n (w_inbox (clocked w))\<rparr>"
  have upd: "on_inbox (updateDispatch ?i (captured status message createdAt ?fp ?t (?cb \<noteq> None))) w = (Inr n, ?v)"
    using update_run [OF assms(1)] by (simp add: Let_def n_def)
  have run: "capture_end se r status message createdAt w = bnd (closeTerminalWorker se r) (\<lambda>_. case ?cb of
       None \<Rightarrow> ret () | Some c \<Rightarrow> se_requestNextTurn se c) ?v"
    unfolding capture_end_def using assms(2) upd by (simp add: bnd_run)
  have n: "sd_dispatchId n = ?i" "sd_terminalStatus n = Some status" "sd_terminalMessage n = message" "sd_terminalMessageCreatedAt n = createdAt"
      "sd_terminalFingerprint n = Some ?fp" "sd_state n = (if ?cb = None then DispatchClosed else CallbackPending)"
    by (simp_all add: n_def captured_def Let_def)
  have g: "getDispatch j (put_dispatch n (w_inbox (clocked w))) = (if j = ?i then Some (written n r) else getDispatch j (w_inbox w))" for j
    using get_put [of ?i "w_inbox (clocked w)" r n j] assms(1) n(1) by simp
  have "case ?cb of None \<Rightarrow> sd_state (written n r) = DispatchClosed | Some c \<Rightarrow> unresolved c (written n r)"
    using n by (auto simp: unresolved_def written_def nonempty_def split: option.splits if_splits)
  then show thesis using run g n by (intro that [of ?v "written n r"]) (simp_all add: written_def)
qed

lemma judged_sdk:
  assumes "wv_session wv = Some s" "wv_adapter wv" "wv_direct wv" "isNativeSdkTransport (get (sn_metadata s) ''agentTransport'')"
    "wv_fetched wv = Some (status, ms)"
  shows "captureIfTerminal se cp wv r = judge_turn se wv s r"
    "(if sn_agent s = ''codex'' \<and> native_session_id s \<and> \<not> isNativeSdkTransport (get (sn_metadata s) ''agentTransport'')
       then (case wv_authoritative wv of Inl _ \<Rightarrow> [] | Inr ms \<Rightarrow> ms) else if wv_direct wv then ms else []) = ms"
  using assms by (simp_all add: captureIfTerminal_def)

text \<open>C21: When the worker of a running dispatch, behind an SDK adapter, is stable, and the last time
  the prompt occurs in its messages is followed by an answer, the check records the last such
  answer as the result, touches no other dispatch, closes the worker, and then asks for the next turn
  of the session that is called back, in whose inbox the dispatch now is. Without one, it is closed.\<close>

theorem worker_answer_captured:
  assumes "service_history p u w" and "nothing_dispatched (w_inbox u)" and "0 < pol_maxAttempts p"
    and r: "getDispatch (sd_dispatchId r) (w_inbox w) = Some r" "sd_state r = Working"
    and s: "wv_session wv = Some s" "wv_adapter wv" "wv_direct wv" "isNativeSdkTransport (get (sn_metadata s) ''agentTransport'')"
    and ms: "wv_fetched wv = Some (Some ''stable'', pre @ q # mid @ m # post)"
    and q: "tm_role q = ''user''" "tm_content q = sd_prompt r" "\<forall>x \<in> set (mid @ m # post). \<not> (tm_role x = ''user'' \<and> tm_content x = sd_prompt r)"
    and m: "tm_role m = ''assistant'' \<or> tm_role m = ''agent''" "trim (tm_content m) \<noteq> []" "\<forall>x \<in> set post. \<not> answering x"
    and alone: "\<forall>k v. se_others se k v = v"
  shows "\<exists>v x. captureIfTerminal se cp wv r w = bnd (closeTerminalWorker se r) (\<lambda>_. case nonempty (sd_callbackSessionId r) of
       None \<Rightarrow> ret () | Some c \<Rightarrow> se_requestNextTurn se c) v \<and>
    getDispatch (sd_dispatchId r) (w_inbox v) = Some x \<and> sd_terminalStatus x = Some TermCompleted \<and>
    sd_terminalMessage x = Some (tm_content m) \<and> sd_terminalMessageCreatedAt x = Some (tm_createdAt m) \<and>
    (case nonempty (sd_callbackSessionId r) of None \<Rightarrow> sd_state x = DispatchClosed | Some c \<Rightarrow> unresolved c x) \<and>
    (\<forall>j. j \<noteq> sd_dispatchId r \<longrightarrow> getDispatch j (w_inbox v) = getDispatch j (w_inbox w))"
proof -
  let ?p = "\<lambda>m. tm_role m = ''user'' \<and> tm_content m = sd_prompt r"
  have turn: "after_last ?p (pre @ q # mid @ m # post) = mid @ m # post" using q by (intro after_last_split) auto
  have "find_last answering (mid @ m # post) = Some m" using m by (intro find_last_split) (auto simp: answering_def)
  then have final: "findNativeTurnFinal (mid @ m # post) = Some m" using m(1) by (auto simp: final_answering)
  have ready: "isNativeFinalReady b t (Some ''stable'')" for b t by (simp add: isNativeFinalReady_def)
  have id: "se_others se 2 w = w" using alone by simp
  have run: "captureIfTerminal se cp wv r w = capture_end se r TermCompleted (Some (tm_content m)) (Some (tm_createdAt m)) w"
    unfolding judged_sdk(1) [OF s ms] judge_turn_def
    by (simp add: ms Let_def judged_sdk(2) [OF s ms] turn final ready bnd_run id s(3,4))
  have "r \<in> set (sd_rows (w_inbox w))" using getDispatch_in [OF r(1)] by simp
  then have "dispatch_ok r" using history_ok [OF assms(1-3)] by (simp add: inbox_ok_def dispatches_ok_def)
  then have "sd_terminalFingerprint r = None" using r(2) by (simp add: dispatch_ok_def)
  from capture_run [OF r(1) this, of se TermCompleted "Some (tm_content m)" "Some (tm_createdAt m)"] show ?thesis
    unfolding run by metis
qed


section \<open>The review\<close>

text \<open>C23: An acknowledgement that succeeds comes from the session that is called back, which may speak
  for the owner. It takes this callback out of that session's inbox, leaves all others there in their
  order and every other inbox as it is; and when the inbox is empty then, the wake-up is resolved,
  when it changed, the wake-up is pending anew for what is left.\<close>

theorem review_clears_callback:
  assumes "service_history p u w" and "nothing_dispatched (w_inbox u)" and "0 < pol_maxAttempts p"
    and ack: "acknowledge se i sid w = (Inr x, w')"
  shows "(\<exists>r. getDispatch i (w_inbox w) = Some r \<and> permitted se r (Some sid) \<and> sd_callbackSessionId r = Some sid \<and> sd_terminalFingerprint r \<noteq> None) \<and>
    (\<forall>s. listUnresolvedCallbacks s (w_inbox w') = filter (\<lambda>r. sd_dispatchId r \<noteq> i) (listUnresolvedCallbacks s (w_inbox w))) \<and>
    (\<forall>k. getWake sid (w_inbox w) = Some k \<longrightarrow> (\<exists>k'. getWake sid (w_inbox w') = Some k' \<and>
      (case getInboxFingerprint sid (w_inbox w') of None \<Rightarrow> wk_state k' = WakeResolved
       | Some f \<Rightarrow> wk_inboxFingerprint k' = f \<and> (f \<noteq> wk_inboxFingerprint k \<longrightarrow> wk_state k' = WakePending \<and> wk_attemptCount k' = 0))))"
proof -
  let ?t = "q_clock (w_db w)"
  have ok: "inbox_ok p (w_inbox w)" by (rule history_ok [OF assms(1-3)])
  obtain r where r: "getDispatch i (w_inbox w) = Some r" "permitted se r (Some sid)" "sd_callbackSessionId r = Some sid"
      "sd_state r \<in> {CallbackPending, CallbackDelivered, Acknowledged}"
      "w' = (clocked w)\<lparr>w_inbox := reconciled sid (put_dispatch (acked ?t r) (w_inbox (clocked w)))\<rparr>"
    using ack unfolding acknowledge_run by (auto split: option.splits if_splits)
  have rin: "r \<in> set (sd_rows (w_inbox w))" "sd_dispatchId r = i" using getDispatch_in [OF r(1)] by simp_all
  let ?d = "put_dispatch (acked ?t r) (w_inbox (clocked w))"
  have "dispatch_ok r" using ok rin by (simp add: inbox_ok_def dispatches_ok_def)
  moreover have "sd_state r \<noteq> Working" "sd_state r \<noteq> DispatchFailed" using r(4) by auto
  ultimately have fp: "sd_terminalFingerprint r \<noteq> None" by (rule ok_result)
  have rows: "sd_rows (w_inbox w') = map (\<lambda>y. if sd_dispatchId y = i then written (acked ?t r) y else y) (sd_rows (w_inbox w))"
    using rin(2) by (simp add: r(5) put_dispatch_def update_dispatches_def acked_def)
  have cut: "filter (unresolved s) (map (\<lambda>y. if sd_dispatchId y = i then written (acked ?t r) y else y) rs) =
      filter (\<lambda>r. sd_dispatchId r \<noteq> i) (filter (unresolved s) rs)" for s rs
    by (induction rs) (auto simp: unresolved_def written_def acked_def)
  have lists: "listUnresolvedCallbacks s (w_inbox w') = filter (\<lambda>r. sd_dispatchId r \<noteq> i) (listUnresolvedCallbacks s (w_inbox w))" for s
    by (simp add: listUnresolvedCallbacks_def rows cut filter_sort)
  have wake: "\<exists>k'. getWake sid (w_inbox w') = Some k' \<and>
      (case getInboxFingerprint sid (w_inbox w') of None \<Rightarrow> wk_state k' = WakeResolved
       | Some f \<Rightarrow> wk_inboxFingerprint k' = f \<and> (f \<noteq> wk_inboxFingerprint k \<longrightarrow> wk_state k' = WakePending \<and> wk_attemptCount k' = 0))"
    if k: "getWake sid (w_inbox w) = Some k" for k
  proof -
    have k': "getWake sid ?d = Some k" using k by (simp add: getWake_def)
    have f: "getInboxFingerprint sid (w_inbox w') = getInboxFingerprint sid ?d"
      using fingerprint_rows [of "w_inbox w'" ?d sid] by (simp add: r(5))
    show ?thesis
    proof (cases "getInboxFingerprint sid ?d")
      case None
      from reconciled_empty [OF this k'] None f r(5) show ?thesis by auto
    next
      case (Some g)
      from reconciled_changed [OF Some k'] Some f r(5) show ?thesis by auto
    qed
  qed
  show ?thesis using r(1-3) fp lists wake by blast
qed

end
