(* ===== verification/Inbox_Samples.thy ===== *)
theory Inbox_Samples
  imports Wake_Progress Review_Contract
begin

text \<open>
  One supervised dispatch on concrete data, from its creation to the review of its result: the
  theorems about dispatches and wake-ups apply to it at every stage.
\<close>

section \<open>The stages\<close>

definition quiet_world :: world where
  "quiet_world = fresh_world\<lparr>w_db := no_prompts\<lparr>q_clock := 3\<rparr>\<rparr>"

definition few_tries :: wake_policy where
  "few_tries = \<lparr>ip_maxAttempts = Some 2, ip_leaseMs = Some 9, ip_retryInitialMs = Some 4, ip_retryMaxMs = Some 8\<rparr>"

definition session_named :: "string \<Rightarrow> session_snapshot" where
  "session_named sid = \<lparr>sn_id = sid, sn_agent = ''claude'', sn_status = ''running'', sn_npub = Some ''npub1'',
     sn_metadata = [(''agentTransport'', JStr ''claude-sdk'')]\<rparr>"

definition calm_service :: service_env where
  "calm_service = \<lparr>se_session = (\<lambda>sid. Some (session_named sid)), se_createSession = (\<lambda>_ _ _. Inr (session_named ''v'')),
     se_validate = None, se_snapshotOrigin = (\<lambda>_ _. None), se_dispatchQueuedPrompt = (\<lambda>_. ret ()),
     se_requestNextTurn = (\<lambda>_. ret ()), se_closeWorker = (\<lambda>_. ret ()), se_others = (\<lambda>_ v. v)\<rparr>"

definition request_s :: create_input where
  "request_s = \<lparr>ci_agent = ''claude'', ci_directory = None, ci_name = None, ci_prompt = ''do it'',
     ci_callbackSessionId = Some ''s'', ci_callbackEnabled = True, ci_reportingContext = None, ci_callerSessionId = None\<rparr>"

definition answered_view :: worker_view where
  "answered_view = \<lparr>wv_session = Some (session_named ''v''), wv_adapter = True, wv_direct = True, wv_discover = None,
     wv_sessionAfter = None,
     wv_fetched = Some (Some ''stable'', [\<lparr>tm_role = ''user'', tm_content = ''do it'', tm_createdAt = ''t1''\<rparr>,
       \<lparr>tm_role = ''assistant'', tm_content = ''on it'', tm_createdAt = ''t2''\<rparr>,
       \<lparr>tm_role = ''assistant'', tm_content = ''done'', tm_createdAt = ''t3''\<rparr>]),
     wv_authoritative = Inr []\<rparr>"

definition no_closeout :: closeout_policy where
  "no_closeout = \<lparr>cp_retryInitialMs = None, cp_retryMaxMs = None, cp_timeoutMs = None\<rparr>"

definition world_created :: world where
  "world_created = snd (create calm_service request_s quiet_world)"

definition world_called :: world where
  "world_called = snd (checkRunning calm_service no_closeout (\<lambda>_. answered_view) world_created)"

definition waking_agent :: surroundings where
  "waking_agent = (agent_with (Answered 200 []) True)\<lparr>su_view := Some \<lparr>sv_status = ''running'',
     sv_adapter = Some \<lparr>aa_readiness = None, aa_status = Inr ''stable''\<rparr>\<rparr>\<rparr>"

definition world_woken :: world where
  "world_woken = snd (maybeAutoDispatchQueuedPrompt few_tries waking_agent (\<lambda>_. True) (Some session_s) world_called)"

definition world_acked :: world where
  "world_acked = snd (acknowledge calm_service 1 ''s'' world_woken)"

lemma stage_created: "case sd_rows (w_inbox world_created) of [r] \<Rightarrow> getDispatch (sd_dispatchId r) (w_inbox world_created) = Some r \<and>
    sd_state r = Working \<and> sd_prompt r = ''do it'' \<and> sd_callbackSessionId r = Some ''s'' | _ \<Rightarrow> False"
  by code_simp

lemma stage_called: "getWake ''s'' (w_inbox world_called) = None \<and> getInboxFingerprint ''s'' (w_inbox world_called) \<noteq> None \<and>
    getQueueCount ''s'' (w_db world_called) = 0 \<and> \<not> w_draining world_called \<and> w_inflight world_called = {} \<and>
    \<not> cooling ''s'' world_called \<and> w_woken world_called = []"
  by code_simp

lemma stage_woken: "case maybeAutoDispatchQueuedPrompt few_tries waking_agent (\<lambda>_. True) (Some session_s) world_called of (_, w) \<Rightarrow>
    (case getWake ''s'' (w_inbox w) of Some k \<Rightarrow> getInboxFingerprint ''s'' (w_inbox w) = Some (wk_inboxFingerprint k) | None \<Rightarrow> False) \<and>
    (case acknowledge calm_service 1 ''s'' w of (Inr x, v) \<Rightarrow> sd_terminalFingerprint x \<noteq> Some [] \<and> \<not> hasUnresolved ''s'' (w_inbox v)
     | (Inl _, _) \<Rightarrow> False)"
  by code_simp

lemma woken_wake: "case getWake ''s'' (w_inbox world_woken) of
    Some k \<Rightarrow> getInboxFingerprint ''s'' (w_inbox world_woken) = Some (wk_inboxFingerprint k) | None \<Rightarrow> False"
  using stage_woken unfolding world_woken_def by (simp only: split_beta)

lemma woken_acked: "case acknowledge calm_service 1 ''s'' world_woken of
    (Inr x, v) \<Rightarrow> sd_terminalFingerprint x \<noteq> Some [] \<and> \<not> hasUnresolved ''s'' (w_inbox v) | (Inl _, _) \<Rightarrow> False"
  using stage_woken unfolding world_woken_def by (simp only: split_beta [of _ "maybeAutoDispatchQueuedPrompt _ _ _ _ _"])

lemma acked_run:
  obtains x where "acknowledge calm_service 1 ''s'' world_woken = (Inr x, world_acked)" "sd_terminalFingerprint x \<noteq> Some []"
    "\<not> hasUnresolved ''s'' (w_inbox world_acked)"
  using woken_acked
  by (cases "acknowledge calm_service 1 ''s'' world_woken") (auto simp: world_acked_def split: sum.splits)

lemma tried: "0 < pol_maxAttempts few_tries" "0 < pol_leaseMs few_tries" "pol_maxAttempts few_tries = 2"
  by (simp_all add: few_tries_def pol_maxAttempts_def pol_leaseMs_def)

lemma calm: "se_others calm_service k v = v" "snd (se_dispatchQueuedPrompt calm_service x v) = v"
  "snd (se_requestNextTurn calm_service sid v) = v" "snd (se_closeWorker calm_service sid v) = v"
  by (simp_all add: calm_service_def)

lemma waking: "su_others waking_agent = (\<lambda>_ v. v)" "http waking_agent" "su_ready waking_agent = Inr ()" "su_bridge waking_agent = None"
  "\<not> su_unpublished waking_agent" "su_takes waking_agent" "mr_certainty (read_answer (su_answer waking_agent)) = Accepted"
  "rd_state (getSessionPromptReadiness (su_view waking_agent)) = Ready"
  by (simp_all add: waking_agent_def agent_with_def http_def read_answer_def result_def getSessionPromptReadiness_def
      readyPromptReadiness_def)

lemma created_history: "service_history few_tries quiet_world world_created"
  unfolding world_created_def by (rule service_history.created) (simp_all add: calm service_history.nothing)

lemma checked_history: "service_history few_tries world_created world_called"
  unfolding world_called_def by (rule service_history.checked) (simp_all add: calm service_history.nothing)

lemma called_history: "service_history few_tries quiet_world world_called"
  by (rule service_history.followed [OF created_history checked_history])

lemma woken_history: "service_history few_tries quiet_world world_woken"
  by (rule service_history.followed [OF called_history])
    (unfold world_woken_def, rule service_history.automatic, simp add: waking service_history.nothing)

lemma quiet: "nothing_dispatched (w_inbox quiet_world)"
  by (simp add: quiet_world_def fresh_world_def no_dispatches_def nothing_dispatched_def)

section \<open>Dispatches and wake-ups\<close>

lemma some_created: "sd_rows (w_inbox world_created) \<noteq> []"
  using stage_created by (auto split: list.splits)

theorem dispatch_lifecycle_witness:
  "\<exists>r \<in> set (sd_rows (w_inbox world_created)). \<exists>r' \<in> set (sd_rows (w_inbox world_called)). evolves r r'"
  using dispatch_lifecycle [OF created_history checked_history quiet tried(1)] some_created
  by (meson last_in_set)

theorem wake_attempts_bounded_witness:
  "\<exists>k \<le> 2. map wc_attemptCount (filter (\<lambda>c. wc_callbackSessionId c = ''s'') (fst (inbox_run few_tries
     [StableCall ''s'', LaterCall 30, StableCall ''s'', LaterCall 30, StableCall ''s''] (w_inbox world_called)))) = [1 ..< Suc k]"
proof -
  obtain f where "getInboxFingerprint ''s'' (w_inbox world_called) = Some f" using stage_called by blast
  from wake_attempts_bounded [OF called_history quiet tried(1) this] show ?thesis
    unfolding tried(3) stage_called [THEN conjunct1] tries_def option.case One_nat_def .
qed

theorem callback_wakes_supervisor_witness: "\<exists>c. w_woken world_woken = [c] \<and> wc_attemptCount c = 1"
proof -
  obtain f where "getInboxFingerprint (si_id session_s) (w_inbox world_called) = Some f"
    using stage_called by (auto simp: session_s_def)
  moreover have "shouldAutoDispatchSession session_s" "si_runtime session_s = Some ''stable''" by code_simp+
  moreover have "resolveSessionChargeNpub session_s = Some ''npub1''" by code_simp
  ultimately have "\<exists>w' k. maybeAutoDispatchQueuedPrompt few_tries waking_agent (\<lambda>_. True) (Some session_s) world_called = (Inr (), w') \<and>
    w_woken w' = \<lparr>wc_generation = generation (si_id session_s) (w_inbox world_called), wc_callbackSessionId = si_id session_s,
       wc_inboxFingerprint = f, wc_attemptCount = tries f (getWake (si_id session_s) (w_inbox world_called)) + 1\<rparr> # w_woken world_called \<and>
    w_taken w' = w_taken world_called \<and> w_inflight w' = w_inflight world_called \<and>
    getWake (si_id session_s) (w_inbox w') = Some k \<and> wk_state k = WakeSubmitted \<and>
    wk_attemptCount k = tries f (getWake (si_id session_s) (w_inbox world_called)) + 1"
    by (intro callback_wakes_supervisor [OF called_history quiet tried(1,2)])
      (use stage_called waking in \<open>simp_all add: session_s_def wake_open_def\<close>)
  then show ?thesis
    using stage_called by (auto simp: world_woken_def tries_def session_s_def)
qed

definition sent_wake :: dispatch_db where
  "sent_wake = (case claimForStableSession few_tries ''s'' (w_inbox world_called) of
     (Inr (Some c), d0) \<Rightarrow> snd (markSubmitted c (snd (markDeliveryUncertain c d0))) | (_, d0) \<Rightarrow> d0)"

lemma stage_sent: "case claimForStableSession few_tries ''s'' (w_inbox world_called) of
    (Inr (Some c), d0) \<Rightarrow> (case markDeliveryUncertain c d0 of (Inr _, d1) \<Rightarrow> (case markSubmitted c d1 of
      (Inr _, d2) \<Rightarrow> getInboxFingerprint ''s'' (d2\<lparr>sd_clock := 99\<rparr>) \<noteq> None | (Inl _, _) \<Rightarrow> False) | (Inl _, _) \<Rightarrow> False) | _ \<Rightarrow> False"
  by code_simp

theorem sent_wake_waits_for_turn_witness:
  "claimForStableSession few_tries ''s'' (sent_wake\<lparr>sd_clock := 99\<rparr>) = (Inr None, sent_wake\<lparr>sd_clock := 99\<rparr>)"
proof -
  obtain r0 d0 where 0: "claimForStableSession few_tries ''s'' (w_inbox world_called) = (r0, d0)" by fastforce
  with stage_sent obtain c where c: "r0 = Inr (Some c)" by (auto split: sum.splits option.splits)
  obtain r1 d1 where 1: "markDeliveryUncertain c d0 = (r1, d1)" by fastforce
  with stage_sent 0 c have r1: "r1 = Inr ()" by (cases r1) simp_all
  obtain r2 d2 where 2: "markSubmitted c d1 = (r2, d2)" by fastforce
  with stage_sent 0 c 1 r1 have r2: "r2 = Inr ()" by (cases r2) simp_all
  have sent: "sent_wake = d2" using 0 c 1 2 by (simp add: sent_wake_def)
  have f: "getInboxFingerprint ''s'' (d2\<lparr>sd_clock := 99\<rparr>) \<noteq> None" using stage_sent 0 c 1 2 r1 r2 by simp
  have same: "d\<lparr>sd_clock := sd_clock d\<rparr> = d" "d\<lparr>sd_rows := sd_rows d, sd_clock := t\<rparr> = d\<lparr>sd_clock := t\<rparr>" for d :: dispatch_db and t
    by (cases d, simp)+
  show ?thesis
    using sent_wake_waits_for_turn [OF called_history quiet tried(1) 0 [unfolded c], where ?t1.0 = "sd_clock d0" and ?d1.0 = d1 and
        ?t2.0 = "sd_clock d1" and ?d2.0 = d2 and rows = "sd_rows d2" and ?t3.0 = 99] 1 2 f
    unfolding same sent r1 r2 by blast
qed

theorem retried_callback_never_wakes_witness:
  "\<exists>y v. retryCallback calm_service 1 ''s'' world_acked = bnd (ret ()) (\<lambda>_. ret y) v \<and> hasUnresolved ''s'' (w_inbox v) \<and>
    (\<forall>t. claimForStableSession few_tries ''s'' ((w_inbox v)\<lparr>sd_clock := t\<rparr>) = (Inr None, (w_inbox v)\<lparr>sd_clock := t\<rparr>))"
proof -
  obtain k where k: "getWake ''s'' (w_inbox world_woken) = Some k"
      "getInboxFingerprint ''s'' (w_inbox world_woken) = Some (wk_inboxFingerprint k)"
    using woken_wake by (auto split: option.splits)
  obtain x where x: "acknowledge calm_service 1 ''s'' world_woken = (Inr x, world_acked)" "sd_terminalFingerprint x \<noteq> Some []"
      "\<not> hasUnresolved ''s'' (w_inbox world_acked)"
    by (rule acked_run)
  have "world_acked\<lparr>w_db := w_db world_acked\<rparr> = world_acked" by (cases world_acked) simp
  with retried_callback_never_wakes [OF woken_history quiet tried(1) k x(1,3,2), of "w_db world_acked"] show ?thesis
    by (simp add: calm_service_def)
qed

section \<open>Workers and reviews\<close>

theorem worker_identity_from_parent_witness:
  "case inheritWorkerContext (Some ((session_named ''s'')\<lparr>sn_metadata := [(''flightdeckTowerServiceNpub'', JStr ''tower''),
       (''flightdeckWorkspaceId'', JStr ''ws''), (''agentChatBotNpub'', JStr ''bot'')]\<rparr>))
     [(''workspaceId'', JStr ''ws''), (''taskId'', JStr ''task1''), (''flightdeckSubscriptionId'', JStr ''other'')] (Some (\<lambda>_. Inr True)) of
     Inr ctx \<Rightarrow> get ctx ''flightdeckWorkspaceId'' = JStr ''ws'' \<and> get ctx ''flightdeckSubscriptionId'' = JUndef | Inl _ \<Rightarrow> False"
    (is "case ?run of Inr ctx \<Rightarrow> ?P ctx | Inl _ \<Rightarrow> False")
proof -
  have "case ?run of Inr ctx \<Rightarrow> ctx \<noteq> [] | Inl _ \<Rightarrow> False" by code_simp
  then obtain ctx where ctx: "?run = Inr ctx" "ctx \<noteq> []" by (auto split: sum.splits)
  have "?P ctx"
    using worker_identity_from_parent [OF ctx] by (simp add: Let_def inherited_fields_def get_def)
  with ctx(1) show ?thesis by simp
qed

theorem worker_answer_captured_witness:
  "\<exists>v x. captureIfTerminal calm_service no_closeout answered_view (hd (sd_rows (w_inbox world_created))) world_created =
      bnd (closeTerminalWorker calm_service (hd (sd_rows (w_inbox world_created)))) (\<lambda>_. se_requestNextTurn calm_service ''s'') v \<and>
    sd_terminalMessage x = Some ''done'' \<and> unresolved ''s'' x"
proof -
  obtain r where r: "sd_rows (w_inbox world_created) = [r]" "getDispatch (sd_dispatchId r) (w_inbox world_created) = Some r"
      "sd_state r = Working" "sd_prompt r = ''do it''" "sd_callbackSessionId r = Some ''s''"
    using stage_created by (auto split: list.splits)
  have sdk: "isNativeSdkTransport (get (sn_metadata (session_named ''v'')) ''agentTransport'')" by code_simp
  have near: "nonempty (sd_callbackSessionId r) = Some ''s''" unfolding r(5) by code_simp
  have views: "wv_session answered_view = Some (session_named ''v'')" "wv_adapter answered_view" "wv_direct answered_view"
    "wv_fetched answered_view = Some (Some ''stable'', [] @ \<lparr>tm_role = ''user'', tm_content = ''do it'', tm_createdAt = ''t1''\<rparr> #
       [\<lparr>tm_role = ''assistant'', tm_content = ''on it'', tm_createdAt = ''t2''\<rparr>] @
       \<lparr>tm_role = ''assistant'', tm_content = ''done'', tm_createdAt = ''t3''\<rparr> # [])"
    by (simp_all add: answered_view_def)
  have blank: "trim ''done'' \<noteq> []" by code_simp
  have first: "hd (sd_rows (w_inbox world_created)) = r" by (simp add: r(1))
  have "\<exists>v x. captureIfTerminal calm_service no_closeout answered_view r world_created =
      bnd (closeTerminalWorker calm_service r) (\<lambda>_. case nonempty (sd_callbackSessionId r) of
        None \<Rightarrow> ret () | Some c \<Rightarrow> se_requestNextTurn calm_service c) v \<and>
    getDispatch (sd_dispatchId r) (w_inbox v) = Some x \<and> sd_terminalStatus x = Some TermCompleted \<and>
    sd_terminalMessage x = Some ''done'' \<and> sd_terminalMessageCreatedAt x = Some ''t3'' \<and>
    (case nonempty (sd_callbackSessionId r) of None \<Rightarrow> sd_state x = DispatchClosed | Some c \<Rightarrow> unresolved c x) \<and>
    (\<forall>j. j \<noteq> sd_dispatchId r \<longrightarrow> getDispatch j (w_inbox v) = getDispatch j (w_inbox world_created))"
    using worker_answer_captured [OF created_history quiet tried(1) r(2,3) views(1-3) sdk views(4), of calm_service no_closeout]
    by (simp add: r(4) blank calm)
  then show ?thesis unfolding near option.case first by blast
qed


theorem review_clears_callback_witness:
  "listUnresolvedCallbacks ''s'' (w_inbox world_acked) = filter (\<lambda>r. sd_dispatchId r \<noteq> 1) (listUnresolvedCallbacks ''s'' (w_inbox world_woken))"
proof -
  obtain x where "acknowledge calm_service 1 ''s'' world_woken = (Inr x, world_acked)" by (rule acked_run)
  from review_clears_callback [OF woken_history quiet tried(1) this] show ?thesis by blast
qed

end
