(* ===== verification/Turn_Store.thy ===== *)
theory Turn_Store
  imports Pipeline_Store
begin

text \<open>
  The database of completed turns (\<open>src/sessions/completed-turn-store.ts\<close>). A pipeline step hands a
  prompt to the agent of a conversation and gets the answer with evidence of it; the turns of a
  conversation are numbered and taken in that order. One table binds a conversation to its session,
  one holds the receipts of the turns, one the conversations that were given up, one those that
  were deleted. A table is the list of its rows in insertion order, an identifier or token the next
  number of a counter, a time a number of ms. A column that holds the JSON text of a record is the
  record: two texts are equal exactly when the records are.
\<close>

section \<open>Requests, rows and tables\<close>

datatype turn_agent = Codex | Goose | Claude

record turn_request =
  tr_agent :: "turn_agent option"
  tr_conversationKey :: string
  tr_requestId :: string
  tr_projectId :: string
  tr_prompt :: string
  tr_directory :: string
  tr_sessionId :: "string option"
  tr_model :: "string option"
  tr_executionProfile :: "string option"
  tr_projectFiles :: "obj list option"
  tr_durationMs :: "nat option"

datatype turn_status =
  TurnQueued | TurnPreparing | TurnSending | TurnCompleted | TurnUncertain | TurnAbandoned | TurnAbandoning

record turn_config =
  cf_agent :: "turn_agent option"
  cf_directory :: string
  cf_model :: "string option"
  cf_projectId :: string
  cf_executionProfile :: "string option"

record turn_binding =
  tb_owner :: string
  tb_conversationKey :: string
  tb_config :: turn_config
  tb_sessionId :: "string option"
  tb_executionId :: "string option"

record turn_row =
  tu_receiptId :: uuid
  tu_owner :: string
  tu_conversationKey :: string
  tu_requestId :: string
  tu_projectId :: string
  tu_runId :: string
  tu_stepId :: string
  tu_request :: turn_request
  tu_prompt :: string
  tu_sequence :: nat
  tu_sessionId :: "string option"
  tu_executionId :: "string option"
  tu_nativeSessionId :: "string option"
  tu_checkpoint :: "nat option"
  tu_output :: "obj option"
  tu_status :: turn_status
  tu_reply :: "string option"
  tu_error :: "string option"
  tu_claimToken :: "uuid option"
  tu_leaseUntil :: nat
  tu_senderToken :: "uuid option"
  tu_senderLeaseUntil :: nat

record retirement_row =
  re_owner :: string
  re_conversationKey :: string
  re_receiptId :: uuid

record deletion_request =
  dr_conversationKey :: string
  dr_projectId :: string
  dr_directory :: string
  dr_requestId :: string
  dr_confirmation :: string

record deletion_row =
  dl_owner :: string
  dl_conversationKey :: string
  dl_request :: deletion_request
  dl_receiptId :: uuid
  dl_sessionId :: string
  dl_receipt :: "obj option"

record turn_db =
  tt_rows :: "turn_row list"
  tt_bindings :: "turn_binding list"
  tt_retirements :: "retirement_row list"
  tt_deletions :: "deletion_row list"
  tt_nextId :: nat
  tt_clock :: nat

text \<open>What the operations throw is the message of the error.\<close>

type_synonym 'a turn_op = "(string, 'a, turn_db) sx"

definition fresh_turn_id :: "uuid turn_op" where
  "fresh_turn_id = (\<lambda>db. (Inr (tt_nextId db), db\<lparr>tt_nextId := Suc (tt_nextId db)\<rparr>))"

text \<open>\<open>UPDATE ... WHERE receiptId = i AND g\<close>, with whether one row was changed.\<close>

definition update_turn :: "uuid \<Rightarrow> (turn_row \<Rightarrow> bool) \<Rightarrow> (turn_row \<Rightarrow> turn_row) \<Rightarrow> bool turn_op" where
  "update_turn i g f = (\<lambda>db.
     (Inr (length (filter (\<lambda>r. tu_receiptId r = i \<and> g r) (tt_rows db)) = 1),
      db\<lparr>tt_rows := change tu_receiptId i g f (tt_rows db)\<rparr>))"

section \<open>Reading\<close>

definition turn_get :: "uuid \<Rightarrow> turn_db \<Rightarrow> turn_row option" where
  "turn_get i db = row tu_receiptId i (tt_rows db)"

definition turn_binding_for :: "string \<Rightarrow> string \<Rightarrow> turn_db \<Rightarrow> turn_binding option" where
  "turn_binding_for owner key db = find (\<lambda>b. tb_owner b = owner \<and> tb_conversationKey b = key) (tt_bindings db)"

definition of_conversation :: "string \<Rightarrow> string \<Rightarrow> turn_row \<Rightarrow> bool" where
  "of_conversation owner key r = (tu_owner r = owner \<and> tu_conversationKey r = key)"

definition turn_ended :: "turn_row \<Rightarrow> bool" where
  "turn_ended r = (tu_status r = TurnCompleted \<or> tu_status r = TurnAbandoned)"

text \<open>The first turn in the order of the sequence numbers that has not ended.\<close>

definition turn_head :: "string \<Rightarrow> string \<Rightarrow> turn_db \<Rightarrow> turn_row option" where
  "turn_head owner key db =
     (case sort_key tu_sequence (filter (\<lambda>r. of_conversation owner key r \<and> \<not> turn_ended r) (tt_rows db)) of
        [] \<Rightarrow> None | r # _ \<Rightarrow> Some r)"

definition turn_of_request :: "string \<Rightarrow> string \<Rightarrow> turn_db \<Rightarrow> turn_row option" where
  "turn_of_request owner i db = find (\<lambda>r. tu_owner r = owner \<and> tu_requestId r = i) (tt_rows db)"

definition activeForSession :: "string \<Rightarrow> turn_db \<Rightarrow> turn_row option" where
  "activeForSession sid db =
     (case filter (\<lambda>r. tu_sessionId r = Some sid \<and> tu_status r = TurnSending \<and> tu_claimToken r \<noteq> None \<and>
                       tu_leaseUntil r > tt_clock db) (tt_rows db) of
        [r] \<Rightarrow> turn_get (tu_receiptId r) db | _ \<Rightarrow> None)"

definition is_retired :: "string \<Rightarrow> string \<Rightarrow> turn_db \<Rightarrow> bool" where
  "is_retired owner key db = (\<exists>e \<in> set (tt_retirements db). re_owner e = owner \<and> re_conversationKey e = key)"

definition deletion_of :: "string \<Rightarrow> string \<Rightarrow> turn_db \<Rightarrow> deletion_row option" where
  "deletion_of owner key db = find (\<lambda>d. dl_owner d = owner \<and> dl_conversationKey d = key) (tt_deletions db)"

section \<open>A turn is asked for\<close>

definition config_of :: "turn_request \<Rightarrow> turn_config" where
  "config_of q = \<lparr>cf_agent = (if tr_agent q = Some Goose then Some Goose else None), cf_directory = tr_directory q,
     cf_model = tr_model q, cf_projectId = tr_projectId q, cf_executionProfile = tr_executionProfile q\<rparr>"

definition insert_binding :: "string \<Rightarrow> turn_request \<Rightarrow> turn_db \<Rightarrow> turn_db" where
  "insert_binding owner q db =
     (if turn_binding_for owner (tr_conversationKey q) db \<noteq> None then db
      else db\<lparr>tt_bindings := tt_bindings db @
             [\<lparr>tb_owner = owner, tb_conversationKey = tr_conversationKey q, tb_config = config_of q,
               tb_sessionId = tr_sessionId q, tb_executionId = None\<rparr>]\<rparr>)"

definition last_sequence :: "string \<Rightarrow> string \<Rightarrow> turn_db \<Rightarrow> nat" where
  "last_sequence owner key db =
     foldr max (map tu_sequence (filter (of_conversation owner key) (tt_rows db))) 0"

definition new_turn :: "string \<Rightarrow> turn_request \<Rightarrow> string \<Rightarrow> string \<Rightarrow> turn_db \<Rightarrow> turn_row" where
  "new_turn owner q runId stepId db =
     \<lparr>tu_receiptId = tt_nextId db, tu_owner = owner, tu_conversationKey = tr_conversationKey q,
      tu_requestId = tr_requestId q, tu_projectId = tr_projectId q, tu_runId = runId, tu_stepId = stepId,
      tu_request = q, tu_prompt = tr_prompt q,
      tu_sequence = last_sequence owner (tr_conversationKey q) db + 1, tu_sessionId = None, tu_executionId = None,
      tu_nativeSessionId = None, tu_checkpoint = None, tu_output = None, tu_status = TurnQueued, tu_reply = None,
      tu_error = None, tu_claimToken = None, tu_leaseUntil = 0, tu_senderToken = None, tu_senderLeaseUntil = 0\<rparr>"

definition turn_row_of :: "uuid \<Rightarrow> turn_row turn_op" where
  "turn_row_of i = bnd (reads (turn_get i)) (\<lambda>x. case x of Some r \<Rightarrow> ret r | None \<Rightarrow> throw ''TypeError'')"

definition enqueue_turn :: "string \<Rightarrow> turn_request \<Rightarrow> string \<Rightarrow> string \<Rightarrow> turn_row turn_op" where
  "enqueue_turn owner q runId stepId =
     (if owner = [] then throw ''Completed turns require an authenticated pipeline owner'' else
      bnd (reads (deletion_of owner (tr_conversationKey q))) (\<lambda>deleted.
      if deleted \<noteq> None then throw ''Deleted conversation requires a new generation'' else
      transaction (
        bnd (modify (insert_binding owner q)) (\<lambda>_.
        bnd (reads (deletion_of owner (tr_conversationKey q))) (\<lambda>deleted.
        if deleted \<noteq> None then throw ''Deleted conversation requires a new generation'' else
        bnd (reads (turn_binding_for owner (tr_conversationKey q))) (\<lambda>found.
        case found of None \<Rightarrow> throw ''TypeError'' | Some b \<Rightarrow>
        if tb_config b \<noteq> config_of q then throw ''Completed-turn conversation binding conflict'' else
        if nonempty (tr_sessionId q) \<noteq> None \<and> tb_sessionId b \<noteq> tr_sessionId q
        then throw ''Completed-turn stale session binding'' else
        bnd (reads (turn_of_request owner (tr_requestId q))) (\<lambda>existing. case existing of
          Some r \<Rightarrow> if tu_request r \<noteq> q then throw ''Completed-turn request idempotency conflict''
                    else turn_row_of (tu_receiptId r)
        | None \<Rightarrow>
            bnd (reads (is_retired owner (tr_conversationKey q))) (\<lambda>retired.
            if retired then throw ''Abandoned conversation requires a fresh generation'' else
            bnd (reads (new_turn owner q runId stepId)) (\<lambda>r.
            bnd fresh_turn_id (\<lambda>i.
            bnd (modify (\<lambda>db. db\<lparr>tt_rows := tt_rows db @ [r]\<rparr>)) (\<lambda>_. turn_row_of i)))))))))))"

section \<open>A turn is carried out\<close>

definition claim_turn :: "uuid \<Rightarrow> uuid \<Rightarrow> bool turn_op" where
  "claim_turn i token = bnd (reads tt_clock) (\<lambda>clk.
     update_turn i
       (\<lambda>r. tu_status r \<notin> {TurnCompleted, TurnAbandoned, TurnAbandoning} \<and> tu_leaseUntil r \<le> clk)
       (\<lambda>r. r\<lparr>tu_status := (if tu_status r = TurnQueued then TurnPreparing else tu_status r),
              tu_claimToken := Some token, tu_leaseUntil := clk + 30000, tu_error := None,
              tu_senderToken := None, tu_senderLeaseUntil := 0\<rparr>))"

definition renew_turn :: "uuid \<Rightarrow> uuid \<Rightarrow> unit turn_op" where
  "renew_turn i token = bnd (reads tt_clock) (\<lambda>clk.
     bnd (update_turn i (\<lambda>r. tu_claimToken r = Some token \<and> tu_status r \<noteq> TurnCompleted)
       (\<lambda>r. r\<lparr>tu_leaseUntil := clk + 30000,
              tu_senderLeaseUntil := (if tu_status r = TurnSending \<and> tu_senderToken r = Some token
                                      then clk + 120000 else tu_senderLeaseUntil r)\<rparr>))
     (\<lambda>one. if one then ret () else throw ''Completed-turn lease changed''))"

definition bind_turn :: "uuid \<Rightarrow> uuid \<Rightarrow> string \<Rightarrow> string option \<Rightarrow> unit turn_op" where
  "bind_turn i token executionId sessionId = transaction (
     bnd (turn_row_of i) (\<lambda>r.
     if tu_claimToken r \<noteq> Some token \<or> tu_status r \<noteq> TurnPreparing then throw ''Completed-turn claim changed'' else
     bnd (modify (\<lambda>db. db\<lparr>tt_bindings := map (\<lambda>b.
            if tb_owner b = tu_owner r \<and> tb_conversationKey b = tu_conversationKey r
            then b\<lparr>tb_sessionId := sessionId, tb_executionId := Some executionId\<rparr> else b) (tt_bindings db)\<rparr>)) (\<lambda>_.
     bnd (update_turn i (\<lambda>r. tu_status r = TurnPreparing)
            (\<lambda>r. r\<lparr>tu_sessionId := sessionId, tu_executionId := Some executionId\<rparr>)) (\<lambda>_. ret ()))))"

definition sending_turn :: "uuid \<Rightarrow> uuid \<Rightarrow> string option \<Rightarrow> nat \<Rightarrow> unit turn_op" where
  "sending_turn i token nativeId checkpoint = bnd (reads tt_clock) (\<lambda>clk.
     bnd (update_turn i (\<lambda>r. tu_claimToken r = Some token \<and> tu_status r = TurnPreparing)
       (\<lambda>r. r\<lparr>tu_status := TurnSending, tu_nativeSessionId := nativeId, tu_checkpoint := Some checkpoint,
              tu_senderToken := Some token, tu_senderLeaseUntil := clk + 120000\<rparr>))
     (\<lambda>one. if one then ret () else throw ''Completed-turn claim changed''))"

definition uncertain_turn :: "uuid \<Rightarrow> uuid \<Rightarrow> string \<Rightarrow> unit turn_op" where
  "uncertain_turn i token message =
     bnd (update_turn i (\<lambda>r. tu_claimToken r = Some token \<and> tu_status r \<noteq> TurnCompleted)
       (\<lambda>r. r\<lparr>tu_error := Some message, tu_leaseUntil := 0, tu_claimToken := None, tu_senderToken := None,
              tu_senderLeaseUntil := 0,
              tu_status := (if tu_status r = TurnSending then TurnUncertain else tu_status r)\<rparr>)) (\<lambda>_. ret ())"

definition complete_turn :: "uuid \<Rightarrow> uuid \<Rightarrow> string \<Rightarrow> string \<Rightarrow> obj option \<Rightarrow> unit turn_op" where
  "complete_turn i token reply nativeId output =
     (if trim reply = [] \<or> nativeId = [] then throw ''Native completed-turn evidence missing'' else
      bnd (update_turn i (\<lambda>r. tu_claimToken r = Some token \<and> tu_status r \<in> {TurnSending, TurnUncertain})
        (\<lambda>r. r\<lparr>tu_status := TurnCompleted, tu_reply := Some reply, tu_nativeSessionId := Some nativeId,
               tu_output := map_option stored output, tu_error := None, tu_leaseUntil := 0, tu_claimToken := None,
               tu_senderToken := None, tu_senderLeaseUntil := 0\<rparr>))
      (\<lambda>one. if one then ret () else throw ''Completed-turn completion claim changed''))"

definition refreshActiveSenderForSession :: "string \<Rightarrow> turn_row option turn_op" where
  "refreshActiveSenderForSession sid = transaction (
     bnd (reads tt_clock) (\<lambda>clk.
     bnd (reads (\<lambda>db. filter (\<lambda>r. tu_sessionId r = Some sid \<and> tu_status r = TurnSending \<and>
            tu_claimToken r = tu_senderToken r \<and> tu_senderToken r \<noteq> None \<and> tu_senderLeaseUntil r > clk) (tt_rows db)))
     (\<lambda>rs. case rs of
        [r] \<Rightarrow> bnd (update_turn (tu_receiptId r)
                 (\<lambda>x. tu_sessionId x = Some sid \<and> tu_status x = TurnSending \<and> tu_claimToken x = tu_senderToken r \<and>
                      tu_senderToken x = tu_senderToken r \<and> tu_senderLeaseUntil x > clk)
                 (\<lambda>x. x\<lparr>tu_leaseUntil := clk + 30000\<rparr>))
               (\<lambda>one. if one then reads (turn_get (tu_receiptId r)) else ret None)
      | _ \<Rightarrow> ret None)))"

section \<open>Recovery, abandonment, deletion\<close>

definition untouched :: "turn_row \<Rightarrow> bool" where
  "untouched r = (nonempty (tu_sessionId r) = None \<and> nonempty (tu_executionId r) = None \<and>
     nonempty (tu_nativeSessionId r) = None \<and> tu_checkpoint r = None \<and> tu_claimToken r = None \<and>
     tu_leaseUntil r = 0 \<and> tu_senderToken r = None \<and> tu_senderLeaseUntil r = 0)"

definition recoverMissingPreparation :: "string \<Rightarrow> turn_request \<Rightarrow> unit turn_op" where
  "recoverMissingPreparation owner q = transaction (
     bnd (reads (turn_of_request owner (tr_requestId q))) (\<lambda>found. case found of
       None \<Rightarrow> throw ''Preparation recovery request binding denied''
     | Some r \<Rightarrow>
         if tu_request r \<noteq> q then throw ''Preparation recovery request binding denied'' else
         if tu_status r = TurnCompleted \<or> tu_status r = TurnQueued then ret () else
         if tu_status r \<noteq> TurnPreparing \<or> tu_error r \<noteq> Some ''Completed-turn bound session unavailable'' \<or> \<not> untouched r
         then throw ''Preparation recovery denied: launch or send outcome is not proven absent'' else
         bnd (update_turn (tu_receiptId r) (\<lambda>_. True) (\<lambda>r. r\<lparr>tu_status := TurnQueued, tu_error := None\<rparr>)) (\<lambda>_. ret ())))"

definition retire_conversation :: "turn_row \<Rightarrow> turn_db \<Rightarrow> turn_db" where
  "retire_conversation r db = (if is_retired (tu_owner r) (tu_conversationKey r) db then db
     else db\<lparr>tt_retirements := tt_retirements db @
            [\<lparr>re_owner = tu_owner r, re_conversationKey = tu_conversationKey r, re_receiptId = tu_receiptId r\<rparr>]\<rparr>)"

definition claimAbandonment :: "uuid \<Rightarrow> uuid \<Rightarrow> bool turn_op" where
  "claimAbandonment i token = transaction (
     bnd (reads tt_clock) (\<lambda>clk.
     bnd (turn_row_of i) (\<lambda>r.
     if tu_status r = TurnAbandoning \<and> tu_leaseUntil r > clk then ret False else
     if tu_status r \<notin> {TurnPreparing, TurnSending, TurnUncertain, TurnAbandoning} then ret False else
     bnd (modify (retire_conversation r)) (\<lambda>_.
     update_turn i (\<lambda>r. tu_status r \<notin> {TurnCompleted, TurnAbandoned})
       (\<lambda>r. r\<lparr>tu_status := TurnAbandoning, tu_claimToken := Some token, tu_leaseUntil := clk + 30000,
              tu_senderToken := None, tu_senderLeaseUntil := 0\<rparr>)))))"

definition abandon_turn :: "uuid \<Rightarrow> uuid \<Rightarrow> obj \<Rightarrow> unit turn_op" where
  "abandon_turn i token evidence = transaction (
     bnd (turn_row_of i) (\<lambda>r.
     if tu_claimToken r \<noteq> Some token \<or> tu_status r \<noteq> TurnAbandoning then throw ''Abandonment claim changed'' else
     bnd (modify (retire_conversation r)) (\<lambda>_.
     modify (\<lambda>db. db\<lparr>tt_rows := map (\<lambda>x.
       if of_conversation (tu_owner r) (tu_conversationKey r) x \<and> tu_status x \<noteq> TurnCompleted
       then x\<lparr>tu_status := TurnAbandoned, tu_output := Some (stored evidence), tu_error := None, tu_leaseUntil := 0,
              tu_claimToken := None, tu_senderToken := None, tu_senderLeaseUntil := 0\<rparr>
       else x) (tt_rows db)\<rparr>))))"

definition beginDeletion :: "string \<Rightarrow> deletion_request \<Rightarrow> deletion_row turn_op" where
  "beginDeletion owner q = transaction (
     bnd (reads (deletion_of owner (dr_conversationKey q))) (\<lambda>previous. case previous of
       Some d \<Rightarrow> if dl_request d \<noteq> q then throw ''Conversation deletion idempotency conflict'' else ret d
     | None \<Rightarrow>
         bnd (reads (turn_binding_for owner (dr_conversationKey q))) (\<lambda>found.
         case (case found of None \<Rightarrow> None | Some b \<Rightarrow>
                 if cf_projectId (tb_config b) = dr_projectId q \<and> cf_directory (tb_config b) = dr_directory q \<and>
                    nonempty (cf_executionProfile (tb_config b)) = None
                 then nonempty (tb_sessionId b) else None) of
           None \<Rightarrow> throw ''Conversation deletion binding denied''
         | Some sid \<Rightarrow>
             bnd (reads (turn_head owner (dr_conversationKey q))) (\<lambda>head.
             if head \<noteq> None then throw ''Active or uncertain conversation turn prevents deletion'' else
             bnd fresh_turn_id (\<lambda>i.
             let d = \<lparr>dl_owner = owner, dl_conversationKey = dr_conversationKey q, dl_request = q, dl_receiptId = i,
                      dl_sessionId = sid, dl_receipt = None\<rparr>
             in bnd (modify (\<lambda>db. db\<lparr>tt_deletions := tt_deletions db @ [d]\<rparr>)) (\<lambda>_. ret d))))))"

definition finishDeletion :: "string \<Rightarrow> string \<Rightarrow> obj \<Rightarrow> turn_db \<Rightarrow> turn_db" where
  "finishDeletion owner key receipt db = db\<lparr>tt_deletions := map (\<lambda>d.
     if dl_owner d = owner \<and> dl_conversationKey d = key \<and> dl_receipt d = None
     then d\<lparr>dl_receipt := Some (stored receipt)\<rparr> else d) (tt_deletions db)\<rparr>"

end
