(* ===== verification/Turn_Service.thy ===== *)
theory Turn_Service
  imports Turn_Store
begin

text \<open>
  Completed turns (\<open>src/sessions/completed-turn-service.ts\<close>, \<open>completed-turn-abandonment.ts\<close>,
  \<open>conversation-deletion.ts\<close> and the recovery of \<open>src/pipelines/completed-turn-function.ts\<close>): the
  host drains a conversation in the order of its turns until the asked one has ended. A turn is
  claimed for a while, prepared, marked as sending and only then handed to the agent; while the host
  awaits, other handlers and hosts run and a timer renews the claim. What the agent runtime answers
  is an argument, and so are the handlers that run meanwhile, and whether the host survives the
  await: a host that dies leaves its claim behind.
\<close>

section \<open>The world and its environment\<close>

text \<open>Besides the database, the receipts whose prompt was handed to the agent, the newest first.\<close>

record turn_world =
  tv_db :: turn_db
  tv_sent :: "uuid list"

datatype turn_error = TurnFailed string | HostDied | TurnsDiverged

type_synonym 'a turn_io = "(turn_error, 'a, turn_world) sx"

datatype turn_await = AtAuthorize | AtLock | AtRecover | AtPrepare | AtReady | AtCheckpoint | AtHandover | AtSend | AtAbandon
  | AtRemove

record turn_evidence =
  te_reply :: string
  te_nativeId :: string
  te_result :: "obj option"

text \<open>
  \<open>te_waits\<close> are the pieces of work of others during an await; the timer of the claim fires between
  two of them. \<open>CompletedTurnRuntime.prepare\<close> answers with one identifier for execution and session
  or with both.
\<close>

record turn_env =
  te_waits :: "turn_await \<Rightarrow> turn_world \<Rightarrow> (turn_world \<Rightarrow> turn_world) list"
  te_dies :: "turn_await \<Rightarrow> turn_world \<Rightarrow> bool"
  te_authorize :: "turn_request \<Rightarrow> string \<Rightarrow> turn_world \<Rightarrow> string + unit"
  te_prepare :: "turn_binding \<Rightarrow> turn_request \<Rightarrow> bool \<Rightarrow> turn_world \<Rightarrow> string + (string + string \<times> string option)"
  te_onSession :: "turn_row \<Rightarrow> string option \<Rightarrow> string \<Rightarrow> turn_world \<Rightarrow> string + unit"
  te_ready :: "string \<Rightarrow> turn_world \<Rightarrow> string + unit"
  te_checkpoint :: "string \<Rightarrow> turn_world \<Rightarrow> string + (string option \<times> nat)"
  te_send :: "string \<Rightarrow> string \<Rightarrow> turn_world \<Rightarrow> string + turn_evidence"
  te_recover :: "turn_row \<Rightarrow> turn_world \<Rightarrow> string + turn_evidence option"
  te_abandon :: "(turn_row \<Rightarrow> turn_world \<Rightarrow> string + obj) option"
  te_remove :: "string \<Rightarrow> deletion_request \<Rightarrow> string \<Rightarrow> turn_world \<Rightarrow> string + obj"

definition on_turns :: "'a turn_op \<Rightarrow> 'a turn_io" where
  "on_turns m = (\<lambda>w. case m (tv_db w) of
     (Inl e, d) \<Rightarrow> (Inl (TurnFailed e), w\<lparr>tv_db := d\<rparr>) | (Inr x, d) \<Rightarrow> (Inr x, w\<lparr>tv_db := d\<rparr>))"

definition answered :: "(turn_world \<Rightarrow> string + 'a) \<Rightarrow> 'a turn_io" where
  "answered f = (\<lambda>w. case f w of Inl e \<Rightarrow> (Inl (TurnFailed e), w) | Inr x \<Rightarrow> (Inr x, w))"

definition survives :: "turn_env \<Rightarrow> turn_await \<Rightarrow> unit turn_io" where
  "survives e k = (\<lambda>w. if te_dies e k w then (Inl HostDied, w) else (Inr (), w))"

text \<open>An await without a claim.\<close>

definition awaits :: "turn_env \<Rightarrow> turn_await \<Rightarrow> unit turn_io" where
  "awaits e k = bnd (modify (\<lambda>w. fold (\<lambda>g v. g v) (te_waits e k w) w)) (\<lambda>_. survives e k)"

text \<open>
  An await with the timer of the claim: between two pieces of work of others the claim is renewed,
  and the error of a renewal is kept in \<open>leaseError\<close>.
\<close>

fun beats :: "uuid \<Rightarrow> uuid \<Rightarrow> (turn_world \<Rightarrow> turn_world) list \<Rightarrow> string option \<Rightarrow> turn_world \<Rightarrow> string option \<times> turn_world" where
  "beats i token [] leaseError w = (leaseError, w)"
| "beats i token [g] leaseError w = (leaseError, g w)"
| "beats i token (g # h # gs) leaseError w =
     (case renew_turn i token (tv_db (g w)) of
        (Inl e, d) \<Rightarrow> beats i token (h # gs) (Some e) ((g w)\<lparr>tv_db := d\<rparr>)
      | (Inr _, d) \<Rightarrow> beats i token (h # gs) leaseError ((g w)\<lparr>tv_db := d\<rparr>))"

definition awaits_claimed :: "turn_env \<Rightarrow> turn_await \<Rightarrow> uuid \<Rightarrow> uuid \<Rightarrow> string option \<Rightarrow> string option turn_io" where
  "awaits_claimed e k i token leaseError = (\<lambda>w. case beats i token (te_waits e k w) leaseError w of
     (leaseError', w') \<Rightarrow> bnd (survives e k) (\<lambda>_. ret leaseError') w')"

definition lease_checked :: "string option \<Rightarrow> unit turn_io" where
  "lease_checked leaseError = (case leaseError of Some e \<Rightarrow> throw (TurnFailed e) | None \<Rightarrow> ret ())"

section \<open>One turn\<close>

record turn_receipt =
  rc_receiptId :: uuid
  rc_conversationKey :: string
  rc_requestId :: string
  rc_projectId :: string
  rc_runId :: string
  rc_stepId :: string
  rc_sessionId :: "string option"
  rc_executionId :: "string option"
  rc_nativeSessionId :: "string option"
  rc_status :: turn_status
  rc_sequence :: nat
  rc_reply :: "string option"
  rc_error :: "string option"
  rc_output :: "obj option"

definition publicTurnReceipt :: "turn_row \<Rightarrow> turn_receipt" where
  "publicTurnReceipt r =
     \<lparr>rc_receiptId = tu_receiptId r, rc_conversationKey = tu_conversationKey r, rc_requestId = tu_requestId r,
      rc_projectId = tu_projectId r, rc_runId = tu_runId r, rc_stepId = tu_stepId r, rc_sessionId = tu_sessionId r,
      rc_executionId = tu_executionId r, rc_nativeSessionId = tu_nativeSessionId r, rc_status = tu_status r,
      rc_sequence = tu_sequence r, rc_reply = tu_reply r, rc_error = tu_error r, rc_output = tu_output r\<rparr>"

text \<open>The mark before the prompt is handed over, and the hand-over: the call of \<open>send\<close>.\<close>

definition hand_over :: "turn_env \<Rightarrow> turn_row \<Rightarrow> uuid \<Rightarrow> string option \<Rightarrow> nat \<Rightarrow> unit turn_io" where
  "hand_over e head token nativeId count =
     bnd (on_turns (sending_turn (tu_receiptId head) token nativeId count)) (\<lambda>_.
     bnd (survives e AtHandover) (\<lambda>_.
     modify (\<lambda>w. w\<lparr>tv_sent := tu_receiptId head # tv_sent w\<rparr>)))"

definition recover_turn :: "turn_env \<Rightarrow> turn_row \<Rightarrow> uuid \<Rightarrow> unit turn_io" where
  "recover_turn e head token =
     bnd (awaits_claimed e AtRecover (tu_receiptId head) token None) (\<lambda>_.
     bnd (answered (te_recover e head)) (\<lambda>found. case found of
       None \<Rightarrow> throw (TurnFailed ''Native completed-turn outcome uncertain; no prompt was replayed'')
     | Some ev \<Rightarrow> on_turns (complete_turn (tu_receiptId head) token (te_reply ev) (te_nativeId ev) (te_result ev))))"

definition send_turn :: "turn_env \<Rightarrow> string \<Rightarrow> turn_request \<Rightarrow> turn_row \<Rightarrow> uuid \<Rightarrow> unit turn_io" where
  "send_turn e owner q head token = (let i = tu_receiptId head in
     bnd (reads (\<lambda>w. turn_binding_for owner (tr_conversationKey q) (tv_db w))) (\<lambda>found.
     case found of None \<Rightarrow> throw (TurnFailed ''TypeError'') | Some b \<Rightarrow>
     bnd (awaits_claimed e AtPrepare i token None) (\<lambda>lost.
     bnd (answered (te_prepare e b (tu_request head)
            (tu_status head \<noteq> TurnQueued \<and> nonempty (tu_executionId head) = None))) (\<lambda>prepared.
     case (case prepared of Inl x \<Rightarrow> (x, Some x) | Inr ids \<Rightarrow> ids) of (executionId, sessionId) \<Rightarrow>
     bnd (on_turns (bind_turn i token executionId sessionId)) (\<lambda>_.
     bnd (answered (te_onSession e head sessionId executionId)) (\<lambda>_.
     bnd (awaits_claimed e AtReady i token lost) (\<lambda>lost.
     bnd (answered (te_ready e executionId)) (\<lambda>_.
     bnd (awaits_claimed e AtCheckpoint i token lost) (\<lambda>lost.
     bnd (answered (te_checkpoint e executionId)) (\<lambda>(nativeId, count).
     bnd (lease_checked lost) (\<lambda>_.
     bnd (on_turns (renew_turn i token)) (\<lambda>_.
     bnd (hand_over e head token nativeId count) (\<lambda>_.
     bnd (awaits_claimed e AtSend i token lost) (\<lambda>lost.
     bnd (answered (te_send e executionId (tu_prompt head))) (\<lambda>ev.
     bnd (lease_checked lost) (\<lambda>_.
     if nonempty nativeId \<noteq> None \<and> nativeId \<noteq> Some (te_nativeId ev)
     then throw (TurnFailed ''Native conversation changed during completed turn; continuity lost'')
     else on_turns (complete_turn i token (te_reply ev) (te_nativeId ev) (te_result ev))))))))))))))))))"

section \<open>The loop of a host\<close>

definition target_row :: "uuid \<Rightarrow> turn_row turn_io" where
  "target_row i = bnd (reads (\<lambda>w. turn_get i (tv_db w))) (\<lambda>found.
     case found of Some r \<Rightarrow> ret r | None \<Rightarrow> throw (TurnFailed ''TypeError''))"

text \<open>The answer to the caller: the receipt of its turn, and the other turn it waits for.\<close>

type_synonym turn_answer = "turn_receipt \<times> uuid option"

text \<open>
  The attempt at the claimed head: \<open>None\<close> when it completed, else the uncertainty is stored and the
  answer given. A host that dies stores nothing.
\<close>

definition try_turn :: "turn_env \<Rightarrow> string \<Rightarrow> turn_request \<Rightarrow> uuid \<Rightarrow> turn_row \<Rightarrow> uuid \<Rightarrow> turn_answer option turn_io" where
  "try_turn e owner q target head token =
     handle
       (bnd (if tu_status head = TurnSending \<or> tu_status head = TurnUncertain then recover_turn e head token
             else send_turn e owner q head token) (\<lambda>_. ret None))
       (\<lambda>x. case x of
          TurnFailed m \<Rightarrow>
            bnd (on_turns (uncertain_turn (tu_receiptId head) token m)) (\<lambda>_.
            bnd (target_row target) (\<lambda>r.
            ret (Some (publicTurnReceipt r, if tu_receiptId head = target then None else Some (tu_receiptId head)))))
        | _ \<Rightarrow> throw x)"

text \<open>
  The number bounds the rounds; with too few the loop says so. The head is read and claimed in one
  step: the code has two statements with nothing awaited between them, which only another process on
  the same database could part; the claim is guarded by the state of the turn and its lease.
\<close>

fun turn_loop :: "nat \<Rightarrow> turn_env \<Rightarrow> string \<Rightarrow> turn_request \<Rightarrow> uuid \<Rightarrow> turn_answer turn_io" where
  "turn_loop 0 e owner q target = throw TurnsDiverged"
| "turn_loop (Suc n) e owner q target =
     bnd (target_row target) (\<lambda>t.
     if turn_ended t then ret (publicTurnReceipt t, None) else
     bnd (reads (\<lambda>w. turn_head owner (tr_conversationKey q) (tv_db w))) (\<lambda>found.
     case found of None \<Rightarrow> throw (TurnFailed ''TypeError'') | Some head \<Rightarrow>
     bnd (on_turns fresh_turn_id) (\<lambda>token.
     bnd (on_turns (claim_turn (tu_receiptId head) token)) (\<lambda>claimed.
     if \<not> claimed
     then bnd (target_row target) (\<lambda>r. ret (publicTurnReceipt r, Some (tu_receiptId head)))
     else bnd (try_turn e owner q target head token) (\<lambda>answer. case answer of
            Some x \<Rightarrow> ret x
          | None \<Rightarrow> turn_loop n e owner q target)))))"

text \<open>
  The lock of the host serializes its calls for a conversation; waiting for it is one more await,
  and nothing below depends on it.
\<close>

definition executeCompletedTurn ::
  "nat \<Rightarrow> turn_env \<Rightarrow> string \<Rightarrow> turn_request \<Rightarrow> string \<Rightarrow> string \<Rightarrow> turn_answer turn_io" where
  "executeCompletedTurn n e owner q runId stepId =
     (if owner = [] then throw (TurnFailed ''Completed turns require an authenticated pipeline owner'') else
      bnd (awaits e AtAuthorize) (\<lambda>_.
      bnd (answered (te_authorize e q owner)) (\<lambda>_.
      bnd (on_turns (enqueue_turn owner q runId stepId)) (\<lambda>target.
      bnd (awaits e AtLock) (\<lambda>_.
      turn_loop n e owner q (tu_receiptId target))))))"

section \<open>Abandonment, recovery and deletion\<close>

definition abandonCompletedTurn :: "turn_env \<Rightarrow> string \<Rightarrow> turn_request \<Rightarrow> turn_receipt turn_io" where
  "abandonCompletedTurn e owner q =
     (case te_abandon e of
        None \<Rightarrow> throw (TurnFailed ''Dedicated native abandonment required'')
      | Some stop \<Rightarrow>
        if owner = [] \<or> nonempty (tr_executionProfile q) \<noteq> None
        then throw (TurnFailed ''Dedicated native abandonment required'') else
        bnd (reads (\<lambda>w. turn_of_request owner (tr_requestId q) (tv_db w))) (\<lambda>found. case found of
          None \<Rightarrow> throw (TurnFailed ''Abandonment request binding denied'')
        | Some r \<Rightarrow>
            if tu_request r \<noteq> q then throw (TurnFailed ''Abandonment request binding denied'') else
            bnd (awaits e AtAuthorize) (\<lambda>_.
            bnd (answered (te_authorize e (q\<lparr>tr_sessionId := tu_sessionId r\<rparr>) owner)) (\<lambda>_.
            if turn_ended r then ret (publicTurnReceipt r) else
            bnd (reads (\<lambda>w. turn_head owner (tr_conversationKey q) (tv_db w))) (\<lambda>head.
            if map_option tu_receiptId head \<noteq> Some (tu_receiptId r) \<or> nonempty (tu_sessionId r) = None
            then throw (TurnFailed ''Failed head turn required for abandonment'') else
            bnd (on_turns fresh_turn_id) (\<lambda>token.
            bnd (on_turns (claimAbandonment (tu_receiptId r) token)) (\<lambda>claimed.
            if \<not> claimed then throw (TurnFailed ''Completed-turn delivery remains active; abandonment refused'') else
            handle
              (bnd (awaits_claimed e AtAbandon (tu_receiptId r) token None) (\<lambda>lost.
               bnd (answered (stop r)) (\<lambda>evidence.
               bnd (lease_checked lost) (\<lambda>_.
               bnd (on_turns (renew_turn (tu_receiptId r) token)) (\<lambda>_.
               bnd (on_turns (abandon_turn (tu_receiptId r) token evidence)) (\<lambda>_.
               bnd (target_row (tu_receiptId r)) (\<lambda>x. ret (publicTurnReceipt x))))))))
              (\<lambda>x. case x of
                 TurnFailed m \<Rightarrow> bnd (on_turns (uncertain_turn (tu_receiptId r) token m)) (\<lambda>_. throw x)
               | _ \<Rightarrow> throw x))))))))"

text \<open>The explicit recovery of a preparation that failed before anything was launched.\<close>

definition recoverPreparation :: "turn_env \<Rightarrow> string \<Rightarrow> turn_request \<Rightarrow> unit turn_io" where
  "recoverPreparation e owner q =
     (if nonempty (tr_executionProfile q) \<noteq> None then throw (TurnFailed ''Trusted native preparation recovery required'') else
      bnd (reads (\<lambda>w. turn_of_request owner (tr_requestId q) (tv_db w))) (\<lambda>found.
      bnd (reads (\<lambda>w. turn_binding_for owner (tr_conversationKey q) (tv_db w))) (\<lambda>b.
      case (found, b) of
        (Some _, Some b) \<Rightarrow>
          if nonempty (tb_sessionId b) = None then throw (TurnFailed ''Preparation recovery binding unavailable'') else
          bnd (awaits e AtAuthorize) (\<lambda>_.
          bnd (answered (te_authorize e (q\<lparr>tr_sessionId := tb_sessionId b\<rparr>) owner)) (\<lambda>_.
          on_turns (recoverMissingPreparation owner q)))
      | _ \<Rightarrow> throw (TurnFailed ''Preparation recovery binding unavailable''))))"

definition deletion_denied :: "string \<Rightarrow> deletion_request \<Rightarrow> bool" where
  "deletion_denied owner q = (owner = [] \<or> dr_confirmation q \<noteq> ''delete_native_transcript'' \<or>
     take 1 (dr_directory q) \<noteq> ''/'' \<or>
     (\<exists>s \<in> {dr_conversationKey q, dr_projectId q, dr_requestId q}. s = [] \<or> length s > 200))"

definition deletion_receipt :: "string \<Rightarrow> deletion_request \<Rightarrow> deletion_row \<Rightarrow> obj \<Rightarrow> obj" where
  "deletion_receipt owner q d outcome = overwrite outcome
     [(''owner'', JStr owner), (''conversationKey'', JStr (dr_conversationKey q)), (''projectId'', JStr (dr_projectId q)),
      (''requestId'', JStr (dr_requestId q)), (''sessionId'', JStr (dl_sessionId d)),
      (''receiptId'', JStr (uuid_text (dl_receiptId d))), (''status'', JStr ''deleted''),
      (''auditReceiptsPreserved'', JBool True)]"

definition deleteCompletedConversation :: "turn_env \<Rightarrow> string \<Rightarrow> deletion_request \<Rightarrow> obj turn_io" where
  "deleteCompletedConversation e owner q =
     (if deletion_denied owner q then throw (TurnFailed ''Conversation deletion request denied'') else
      bnd (on_turns (beginDeletion owner q)) (\<lambda>d. case dl_receipt d of
        Some receipt \<Rightarrow> ret receipt
      | None \<Rightarrow>
          bnd (awaits e AtRemove) (\<lambda>_.
          bnd (answered (te_remove e owner q (dl_sessionId d))) (\<lambda>outcome.
          let receipt = deletion_receipt owner q d outcome
          in bnd (modify (\<lambda>w. w\<lparr>tv_db := finishDeletion owner (dr_conversationKey q) receipt (tv_db w)\<rparr>)) (\<lambda>_. ret receipt)))))"

end
