(* ===== verification/Turn_Laws.thy ===== *)
theory Turn_Laws
  imports Turn_Service
begin

text \<open>
  What every operation on the completed turns keeps: the turns of a conversation are numbered, only
  ended ones stand before one that was begun, a conversation that was abandoned or deleted has ended
  turns only; and how a turn may change: its identity and order stay, it never goes back to a state
  before the hand-over, and an ended turn does not change any more.
\<close>

named_theorems turn_keeps "operations on the completed turns that keep the relation of the turns"

section \<open>The life of a turn\<close>

fun turn_stage :: "turn_status \<Rightarrow> nat" where
  "turn_stage TurnQueued = 0"
| "turn_stage TurnPreparing = 0"
| "turn_stage TurnSending = 1"
| "turn_stage TurnUncertain = 1"
| "turn_stage TurnAbandoning = 2"
| "turn_stage TurnCompleted = 3"
| "turn_stage TurnAbandoned = 3"

text \<open>The states of a turn in the order of its life.\<close>

instantiation turn_status :: preorder
begin

definition less_eq_turn_status :: "turn_status \<Rightarrow> turn_status \<Rightarrow> bool" where
  "less_eq_turn_status s t \<longleftrightarrow> turn_stage s \<le> turn_stage t"

definition less_turn_status :: "turn_status \<Rightarrow> turn_status \<Rightarrow> bool" where
  "less_turn_status s t \<longleftrightarrow> turn_stage s < turn_stage t"

instance
  by standard (auto simp: less_eq_turn_status_def less_turn_status_def)

end

declare less_eq_turn_status_def [simp]

definition turn_evolves :: "turn_row \<Rightarrow> turn_row \<Rightarrow> bool" where
  "turn_evolves r r' \<longleftrightarrow> tu_receiptId r' = tu_receiptId r \<and> tu_owner r' = tu_owner r \<and>
     tu_conversationKey r' = tu_conversationKey r \<and> tu_requestId r' = tu_requestId r \<and> tu_request r' = tu_request r \<and>
     tu_prompt r' = tu_prompt r \<and> tu_sequence r' = tu_sequence r \<and> tu_runId r' = tu_runId r \<and> tu_stepId r' = tu_stepId r \<and>
     tu_status r \<le> tu_status r' \<and> (turn_ended r \<longrightarrow> r' = r)"

lemma turn_evolves_refl: "turn_evolves r r"
  by (simp add: turn_evolves_def)

lemma ended_stage: "turn_ended r \<longleftrightarrow> turn_stage (tu_status r) = 3"
  by (cases "tu_status r") (simp_all add: turn_ended_def)

lemma turn_evolves_trans: "turn_evolves r s \<Longrightarrow> turn_evolves s t \<Longrightarrow> turn_evolves r t"
  by (auto simp: turn_evolves_def)

lemma evolves_ended: "turn_evolves r s \<Longrightarrow> turn_ended r \<Longrightarrow> turn_ended s"
  by (auto simp: turn_evolves_def)

definition same_conversation :: "turn_row \<Rightarrow> turn_row \<Rightarrow> bool" where
  "same_conversation r s \<longleftrightarrow> tu_owner r = tu_owner s \<and> tu_conversationKey r = tu_conversationKey s"

text \<open>The columns that repeat the request.\<close>

definition turn_fits :: "turn_row \<Rightarrow> bool" where
  "turn_fits r \<longleftrightarrow> tu_conversationKey r = tr_conversationKey (tu_request r) \<and> tu_requestId r = tr_requestId (tu_request r) \<and>
     tu_prompt r = tr_prompt (tu_request r)"

text \<open>The settings a conversation is bound to.\<close>

definition turn_config_of :: "string \<Rightarrow> string \<Rightarrow> turn_db \<Rightarrow> turn_config option" where
  "turn_config_of v key db = map_option tb_config (turn_binding_for v key db)"

definition turn_alone_ok :: "turn_db \<Rightarrow> turn_row \<Rightarrow> bool" where
  "turn_alone_ok db r \<longleftrightarrow> tu_receiptId r < tt_nextId db \<and> turn_fits r \<and> (turn_ended r \<longrightarrow> tu_claimToken r = None) \<and>
     (tu_status r = TurnQueued \<longrightarrow> tu_claimToken r = None \<and> tu_leaseUntil r = 0) \<and>
     (tu_status r = TurnCompleted \<longrightarrow> (\<exists>s. tu_reply r = Some s \<and> trim s \<noteq> []) \<and> nonempty (tu_nativeSessionId r) \<noteq> None) \<and>
     (tu_status r \<in> {TurnAbandoning, TurnAbandoned} \<longrightarrow> is_retired (tu_owner r) (tu_conversationKey r) db) \<and>
     (deletion_of (tu_owner r) (tu_conversationKey r) db \<noteq> None \<longrightarrow> turn_ended r) \<and>
     turn_config_of (tu_owner r) (tu_conversationKey r) db = Some (config_of (tu_request r))"

definition turns_agree :: "turn_row \<Rightarrow> turn_row \<Rightarrow> bool" where
  "turns_agree r s \<longleftrightarrow> (tu_owner r = tu_owner s \<and> tu_requestId r = tu_requestId s \<longrightarrow> tu_receiptId r = tu_receiptId s) \<and>
     (same_conversation r s \<longrightarrow>
        (tu_sequence r = tu_sequence s \<longrightarrow> tu_receiptId r = tu_receiptId s) \<and>
        (tu_sequence r < tu_sequence s \<and> tu_status s \<noteq> TurnQueued \<longrightarrow> turn_ended r) \<and>
        (tu_status r = TurnAbandoned \<longrightarrow> turn_ended s))"

definition turns_ok :: "turn_db \<Rightarrow> bool" where
  "turns_ok db \<longleftrightarrow> distinct (map tu_receiptId (tt_rows db)) \<and> (\<forall>r \<in> set (tt_rows db). turn_alone_ok db r) \<and>
     (\<forall>r \<in> set (tt_rows db). \<forall>s \<in> set (tt_rows db). turns_agree r s)"

definition turns_follow :: "turn_db \<Rightarrow> turn_db \<Rightarrow> bool" where
  "turns_follow db db' \<longleftrightarrow> (turns_ok db \<longrightarrow> turns_ok db' \<and>
     (\<forall>r \<in> set (tt_rows db). \<exists>r' \<in> set (tt_rows db'). turn_evolves r r'))"

interpretation follow: progress_order turns_follow
proof
  show "turns_follow s s" for s
    unfolding turns_follow_def using turn_evolves_refl by blast
  show "turns_follow s t \<Longrightarrow> turns_follow t u \<Longrightarrow> turns_follow s u" for s t u
    unfolding turns_follow_def using turn_evolves_trans by meson
qed

lemmas turn_ok_defs = turns_ok_def turn_alone_ok_def turns_agree_def

lemma one_turn: "turns_ok db \<Longrightarrow> r \<in> set (tt_rows db) \<Longrightarrow> s \<in> set (tt_rows db) \<Longrightarrow> tu_receiptId r = tu_receiptId s \<Longrightarrow> r = s"
  unfolding turns_ok_def by (metis distinct_map inj_on_def)

lemma get_in: "turn_get i db = Some r \<Longrightarrow> r \<in> set (tt_rows db) \<and> tu_receiptId r = i"
  unfolding turn_get_def using row_SomeD by metis

lemma get_some: "turns_ok db \<Longrightarrow> r \<in> set (tt_rows db) \<Longrightarrow> turn_get (tu_receiptId r) db = Some r"
  unfolding turn_get_def turns_ok_def by (simp add: row_distinct)

section \<open>One row changes\<close>

definition turn_step :: "turn_db \<Rightarrow> turn_row \<Rightarrow> turn_row \<Rightarrow> bool" where
  "turn_step db r r' \<longleftrightarrow> \<not> turn_ended r \<and> turn_evolves r r' \<and> tu_status r' \<noteq> TurnAbandoned \<and>
     (tu_status r' \<noteq> TurnQueued \<longrightarrow> tu_status r \<noteq> TurnQueued \<or>
        (\<forall>s \<in> set (tt_rows db). same_conversation s r \<and> tu_sequence s < tu_sequence r \<longrightarrow> turn_ended s)) \<and>
     (turn_ended r' \<longrightarrow> tu_claimToken r' = None) \<and>
     (tu_status r' = TurnQueued \<longrightarrow> tu_claimToken r' = None \<and> tu_leaseUntil r' = 0) \<and>
     (tu_status r' = TurnCompleted \<longrightarrow> (\<exists>s. tu_reply r' = Some s \<and> trim s \<noteq> []) \<and> nonempty (tu_nativeSessionId r') \<noteq> None) \<and>
     (tu_status r' = TurnAbandoning \<longrightarrow> is_retired (tu_owner r) (tu_conversationKey r) db)"

lemma evolves_fields:
  "turn_evolves r r' \<Longrightarrow> tu_receiptId r' = tu_receiptId r \<and> tu_owner r' = tu_owner r \<and>
     tu_conversationKey r' = tu_conversationKey r \<and> tu_requestId r' = tu_requestId r \<and> tu_sequence r' = tu_sequence r \<and>
     tu_request r' = tu_request r \<and> turn_fits r' = turn_fits r"
  by (simp add: turn_fits_def turn_evolves_def)

lemma evolves_same: "turn_evolves r r' \<Longrightarrow> turn_evolves s s' \<Longrightarrow> same_conversation r' s' = same_conversation r s"
  by (simp add: turn_evolves_def same_conversation_def)

text \<open>
  Rows that each evolve, where one that leaves the queue has only ended ones before it, and where an
  abandoned one comes with the end of its whole conversation.
\<close>

lemma rows_evolve:
  assumes ok: "turns_ok db" and rows: "tt_rows db' = map f (tt_rows db)" and num: "tt_nextId db \<le> tt_nextId db'"
    and evo: "\<And>r. r \<in> set (tt_rows db) \<Longrightarrow> turn_evolves r (f r)"
    and alone: "\<And>r. r \<in> set (tt_rows db) \<Longrightarrow> turn_alone_ok db' (f r)"
    and leaves: "\<And>r s. r \<in> set (tt_rows db) \<Longrightarrow> s \<in> set (tt_rows db) \<Longrightarrow> same_conversation r s \<Longrightarrow>
       tu_sequence r < tu_sequence s \<Longrightarrow> tu_status s = TurnQueued \<Longrightarrow> tu_status (f s) \<noteq> TurnQueued \<Longrightarrow> turn_ended (f r)"
    and gone: "\<And>r s. r \<in> set (tt_rows db) \<Longrightarrow> s \<in> set (tt_rows db) \<Longrightarrow> same_conversation r s \<Longrightarrow>
       tu_status r \<noteq> TurnAbandoned \<Longrightarrow> tu_status (f r) = TurnAbandoned \<Longrightarrow> turn_ended (f s)"
  shows "turns_ok db' \<and> (\<forall>r \<in> set (tt_rows db). \<exists>r' \<in> set (tt_rows db'). turn_evolves r r')"
proof -
  have fields: "tu_receiptId (f r) = tu_receiptId r" if "r \<in> set (tt_rows db)" for r
    using evolves_fields [OF evo [OF that]] by simp
  have "map tu_receiptId (tt_rows db') = map tu_receiptId (tt_rows db)"
    unfolding rows by (simp add: fields)
  then have "distinct (map tu_receiptId (tt_rows db'))" using ok by (simp add: turns_ok_def)
  moreover have "turns_agree (f r) (f s)" if r: "r \<in> set (tt_rows db)" and s: "s \<in> set (tt_rows db)" for r s
  proof -
    have agree: "turns_agree r s" using ok r s by (simp add: turns_ok_def)
    note er = evo [OF r] and es = evo [OF s]
    note fr = evolves_fields [OF er] and fs = evolves_fields [OF es] and same = evolves_same [OF er es]
    have "turn_ended (f r)" if "same_conversation r s" "tu_sequence r < tu_sequence s" "tu_status (f s) \<noteq> TurnQueued"
    proof (cases "tu_status s = TurnQueued")
      case True with leaves [OF r s] that show ?thesis by simp
    next
      case False with agree that evolves_ended [OF er] show ?thesis by (simp add: turns_agree_def)
    qed
    moreover have "turn_ended (f s)" if "same_conversation r s" "tu_status (f r) = TurnAbandoned"
    proof (cases "tu_status r = TurnAbandoned")
      case True with agree that evolves_ended [OF es] show ?thesis by (simp add: turns_agree_def)
    next
      case False with gone [OF r s] that show ?thesis by simp
    qed
    ultimately show ?thesis using agree unfolding turns_agree_def same using fr fs by simp
  qed
  ultimately have "turns_ok db'" using alone by (auto simp: turns_ok_def rows)
  moreover have "\<exists>r' \<in> set (tt_rows db'). turn_evolves r r'" if "r \<in> set (tt_rows db)" for r
    unfolding rows using evo [OF that] that by force
  ultimately show ?thesis by blast
qed

lemma update_returns:
  assumes "update_turn i g f db = (Inr True, db')"
  shows "\<exists>r \<in> set (tt_rows db). tu_receiptId r = i \<and> g r \<and> f r \<in> set (tt_rows db')"
proof -
  have one: "length (filter (\<lambda>r. tu_receiptId r = i \<and> g r) (tt_rows db)) = 1"
    and rows: "tt_rows db' = change tu_receiptId i g f (tt_rows db)"
    using assms by (auto simp: update_turn_def)
  from one obtain r where "r \<in> set (filter (\<lambda>r. tu_receiptId r = i \<and> g r) (tt_rows db))"
    by (metis length_0_conv list.set_intros(1) neq_Nil_conv zero_neq_one)
  then have "r \<in> set (tt_rows db)" "tu_receiptId r = i" "g r" by auto
  moreover have "f r \<in> set (tt_rows db')" unfolding rows change_def using calculation by force
  ultimately show ?thesis by blast
qed

lemma step_alone: "turn_alone_ok db r \<Longrightarrow> turn_step db r r' \<Longrightarrow> turn_alone_ok db r'"
  unfolding turn_alone_ok_def turn_step_def using evolves_fields [of r r'] by (elim conjE) (simp; blast)

lemma one_row_steps:
  assumes "\<And>r. turns_ok db \<Longrightarrow> r \<in> set (tt_rows db) \<Longrightarrow> tu_receiptId r = i \<Longrightarrow> g r \<Longrightarrow> turn_step db r (f r)"
  shows "turns_follow db (snd (update_turn i g f db))"
  unfolding turns_follow_def
proof
  assume ok: "turns_ok db"
  define h where "h = (\<lambda>r. if tu_receiptId r = i \<and> g r then f r else r)"
  let ?db = "snd (update_turn i g f db)"
  have step: "turn_step db r (h r) \<or> h r = r" if "r \<in> set (tt_rows db)" for r
    using assms [OF ok] that by (simp add: h_def)
  have evo: "turn_evolves r (h r)" if "r \<in> set (tt_rows db)" for r
    using step [OF that] turn_evolves_refl by (auto simp: turn_step_def)
  have tables: "tt_rows ?db = map h (tt_rows db)" "tt_nextId ?db = tt_nextId db" "tt_bindings ?db = tt_bindings db"
    "tt_retirements ?db = tt_retirements db" "tt_deletions ?db = tt_deletions db"
    by (simp_all add: update_turn_def change_def h_def)
  show "turns_ok ?db \<and> (\<forall>r \<in> set (tt_rows db). \<exists>r' \<in> set (tt_rows ?db). turn_evolves r r')"
  proof (rule rows_evolve [OF ok tables(1) _ evo])
    fix r assume r: "r \<in> set (tt_rows db)"
    then have "turn_alone_ok db r" using ok by (simp add: turns_ok_def)
    then have "turn_alone_ok db (h r)" using step [OF r] step_alone [of db r "h r"] by auto
    then show "turn_alone_ok ?db (h r)"
      by (simp add: turn_alone_ok_def is_retired_def deletion_of_def turn_config_of_def turn_binding_for_def tables)
  next
    fix r s assume "r \<in> set (tt_rows db)" "s \<in> set (tt_rows db)" "same_conversation r s" "tu_sequence r < tu_sequence s"
      "tu_status s = TurnQueued" "tu_status (h s) \<noteq> TurnQueued"
    then have "turn_ended r" using step [of s] by (auto simp: turn_step_def)
    then show "turn_ended (h r)" using evolves_ended evo \<open>r \<in> set (tt_rows db)\<close> by blast
  next
    fix r s assume "r \<in> set (tt_rows db)" "tu_status r \<noteq> TurnAbandoned" "tu_status (h r) = TurnAbandoned"
    then show "turn_ended (h s)" using step [of r] by (auto simp: turn_step_def)
  qed (simp_all add: tables)
qed

section \<open>The statements of the store\<close>

lemma follow_frame: "tt_rows db' = tt_rows db \<Longrightarrow> tt_nextId db \<le> tt_nextId db' \<Longrightarrow>
    (\<And>v k c. turn_config_of v k db = Some c \<Longrightarrow> turn_config_of v k db' = Some c) \<Longrightarrow>
    (\<And>v k. is_retired v k db \<Longrightarrow> is_retired v k db') \<Longrightarrow>
    (\<And>r. r \<in> set (tt_rows db) \<Longrightarrow> deletion_of (tu_owner r) (tu_conversationKey r) db' \<noteq> None \<Longrightarrow>
       deletion_of (tu_owner r) (tu_conversationKey r) db \<noteq> None \<or> turn_ended r) \<Longrightarrow> turns_follow db db'"
proof -
  assume rows: "tt_rows db' = tt_rows db" and num: "tt_nextId db \<le> tt_nextId db'"
    and tables: "\<And>v k c. turn_config_of v k db = Some c \<Longrightarrow> turn_config_of v k db' = Some c"
      "\<And>v k. is_retired v k db \<Longrightarrow> is_retired v k db'"
      "\<And>r. r \<in> set (tt_rows db) \<Longrightarrow> deletion_of (tu_owner r) (tu_conversationKey r) db' \<noteq> None \<Longrightarrow>
         deletion_of (tu_owner r) (tu_conversationKey r) db \<noteq> None \<or> turn_ended r"
  have "turn_alone_ok db' r" if "turn_alone_ok db r" "r \<in> set (tt_rows db)" for r
    unfolding turn_alone_ok_def
  proof (intro conjI impI)
    note ok = that(1) [unfolded turn_alone_ok_def]
    show "tu_receiptId r < tt_nextId db'" using ok num by simp
    show "turn_ended r" if "deletion_of (tu_owner r) (tu_conversationKey r) db' \<noteq> None"
      using tables(3) [OF \<open>r \<in> set (tt_rows db)\<close> that] ok by blast
  qed (use that(1) tables(1,2) in \<open>simp_all add: turn_alone_ok_def\<close>)
  then show ?thesis
    unfolding turns_follow_def turns_ok_def rows using turn_evolves_refl by blast
qed

lemma follow_transaction: "keeps turns_follow m \<Longrightarrow> keeps turns_follow (transaction m)"
  by (auto simp: keeps_def transaction_run follow.R_refl split: sum.split prod.split) (metis snd_conv)

lemma follow_update:
  assumes "\<And>db r. turns_ok db \<Longrightarrow> turn_alone_ok db r \<Longrightarrow> g r \<Longrightarrow> turn_step db r (f r)"
  shows "keeps turns_follow (update_turn i g f)"
  unfolding keeps_def by (intro allI one_row_steps assms) (simp_all add: turns_ok_def)

lemma follow_turn_row [turn_keeps]: "keeps turns_follow (turn_row_of i)"
  unfolding turn_row_of_def by (intro follow.keeps_intros)

lemma follow_fresh [turn_keeps]: "keeps turns_follow fresh_turn_id"
  unfolding keeps_def fresh_turn_id_def
  by (intro allI follow_frame) (simp_all add: turn_config_of_def turn_binding_for_def is_retired_def deletion_of_def)

lemmas turn_step_simps = turn_step_def turn_evolves_def turn_ended_def turn_alone_ok_def nonempty_def

lemma follow_renew [turn_keeps]: "keeps turns_follow (renew_turn i token)"
  unfolding renew_turn_def
  by (intro follow.keeps_intros follow_update) (auto simp: turn_step_simps)

lemma follow_sending [turn_keeps]: "keeps turns_follow (sending_turn i token nativeId count)"
  unfolding sending_turn_def
  by (intro follow.keeps_intros follow_update) (auto simp: turn_step_simps)

lemma follow_uncertain [turn_keeps]: "keeps turns_follow (uncertain_turn i token message)"
  unfolding uncertain_turn_def
  by (intro follow.keeps_intros follow_update) (auto simp: turn_step_simps)

lemma follow_complete [turn_keeps]: "keeps turns_follow (complete_turn i token reply nativeId output)"
  unfolding complete_turn_def
  by (intro follow.keeps_intros follow_update) (auto simp: turn_step_simps)

lemma follow_refresh [turn_keeps]: "keeps turns_follow (refreshActiveSenderForSession sid)"
  unfolding refreshActiveSenderForSession_def
  by (intro follow_transaction follow.keeps_intros follow_update) (auto simp: turn_step_simps)

lemma follow_if_ok: "(turns_ok db \<Longrightarrow> turns_follow db db') \<Longrightarrow> turns_follow db db'"
  by (auto simp: turns_follow_def)

lemma follow_transaction_at: "turns_follow db (snd (m db)) \<Longrightarrow> turns_follow db (snd (transaction m db))"
  by (cases "m db"; cases "fst (m db)") (simp_all add: transaction_run follow.R_refl)

lemma snd_then_ret: "snd (bnd m (\<lambda>x. ret (f x)) s) = snd (m s)"
  by (simp add: bnd_run split: prod.split sum.split)

lemma bnd_reads: "bnd (reads g) k s = k (g s) s"
  by (simp add: bnd_run)

lemma bnd_returned: "m s = (Inr x, s') \<Longrightarrow> bnd m k s = k x s'"
  by (simp add: bnd_run)

lemma bnd_failed: "m s = (Inl x, s') \<Longrightarrow> bnd m k s = (Inl x, s')"
  by (simp add: bnd_run)

lemma bnd_modify: "bnd (modify g) k s = k () (g s)"
  by (simp add: bnd_run)

lemma of_request_in: "turn_of_request owner i db = Some r \<Longrightarrow> r \<in> set (tt_rows db) \<and> tu_owner r = owner \<and> tu_requestId r = i"
  unfolding turn_of_request_def by (auto simp: find_Some_iff)

lemma follow_recover [turn_keeps]: "keeps turns_follow (recoverMissingPreparation owner q)"
  unfolding keeps_def
proof (rule allI, rule follow_if_ok)
  fix db assume ok: "turns_ok db"
  have "turns_follow db (snd (update_turn (tu_receiptId r) (\<lambda>_. True) (\<lambda>r. r\<lparr>tu_status := TurnQueued, tu_error := None\<rparr>) db))"
    if "r \<in> set (tt_rows db)" "tu_status r = TurnPreparing" "untouched r" for r
  proof (rule one_row_steps)
    fix x assume "x \<in> set (tt_rows db)" "tu_receiptId x = tu_receiptId r"
    then have "x = r" using one_turn ok that(1) by blast
    with that(2,3) show "turn_step db x (x\<lparr>tu_status := TurnQueued, tu_error := None\<rparr>)" by (simp add: turn_step_simps untouched_def)
  qed
  note changed = this
  show "turns_follow db (snd (recoverMissingPreparation owner q db))"
  proof (cases "turn_of_request owner (tr_requestId q) db")
    case None
    then show ?thesis
      unfolding recoverMissingPreparation_def by (intro follow_transaction_at) (simp add: bnd_reads follow.R_refl)
  next
    case (Some r)
    then have "r \<in> set (tt_rows db)" using of_request_in by blast
    with changed have "tu_status r = TurnPreparing \<Longrightarrow> untouched r \<Longrightarrow> turns_follow db (snd (update_turn (tu_receiptId r) (\<lambda>_. True)
        (\<lambda>r. r\<lparr>tu_status := TurnQueued, tu_error := None\<rparr>) db))" by blast
    with Some show ?thesis
      unfolding recoverMissingPreparation_def
      by (intro follow_transaction_at) (simp add: bnd_reads snd_then_ret follow.R_refl)
  qed
qed

lemma find_mapped: "(\<And>x. P (f x) = P x) \<Longrightarrow> find P (map f xs) = map_option f (find P xs)"
  by (induction xs) auto

lemma follow_bindings:
  "(\<And>b. tb_owner (f b) = tb_owner b \<and> tb_conversationKey (f b) = tb_conversationKey b \<and> tb_config (f b) = tb_config b) \<Longrightarrow>
   turns_follow db (db\<lparr>tt_bindings := map f (tt_bindings db)\<rparr>)"
  by (rule follow_frame) (auto simp: turn_config_of_def turn_binding_for_def find_mapped is_retired_def deletion_of_def)

lemma follow_bind [turn_keeps]: "keeps turns_follow (bind_turn i token executionId sessionId)"
  unfolding bind_turn_def
  by (intro follow_transaction follow.keeps_intros follow.keeps_modify follow_bindings follow_turn_row follow_update)
    (auto simp: turn_step_simps)

lemma follow_retire: "turns_follow db (retire_conversation r db)"
  unfolding retire_conversation_def
  by (cases "is_retired (tu_owner r) (tu_conversationKey r) db"; simp add: follow.R_refl)
    (rule follow_frame; auto simp: turn_config_of_def turn_binding_for_def is_retired_def deletion_of_def)

lemma retired_now: "is_retired (tu_owner r) (tu_conversationKey r) (retire_conversation r db)"
  by (auto simp: retire_conversation_def is_retired_def)

lemma retire_rows: "tt_rows (retire_conversation r db) = tt_rows db"
  by (simp add: retire_conversation_def)

lemma follow_claimAbandonment [turn_keeps]: "keeps turns_follow (claimAbandonment i token)"
  unfolding keeps_def
proof
  fix db
  have "turns_follow (retire_conversation r db) (snd (update_turn i (\<lambda>r. tu_status r \<notin> {TurnCompleted, TurnAbandoned})
       (\<lambda>r. r\<lparr>tu_status := TurnAbandoning, tu_claimToken := Some token, tu_leaseUntil := t,
              tu_senderToken := None, tu_senderLeaseUntil := 0\<rparr>) (retire_conversation r db)))"
    if "turn_get i db = Some r" "tu_status r \<in> {TurnPreparing, TurnSending, TurnUncertain, TurnAbandoning}" for r t
  proof (rule one_row_steps)
    fix x assume "turns_ok (retire_conversation r db)" "x \<in> set (tt_rows (retire_conversation r db))" "tu_receiptId x = i"
    then have "x = r" using one_turn [of "retire_conversation r db"] get_in [OF that(1)] by (simp add: retire_rows)
    then show "turn_step (retire_conversation r db) x (x\<lparr>tu_status := TurnAbandoning, tu_claimToken := Some token,
        tu_leaseUntil := t, tu_senderToken := None, tu_senderLeaseUntil := 0\<rparr>)"
      using that(2) retired_now [of r db] by (auto simp: turn_step_simps)
  qed
  then have "turns_follow db (snd (update_turn i (\<lambda>r. tu_status r \<notin> {TurnCompleted, TurnAbandoned})
       (\<lambda>r. r\<lparr>tu_status := TurnAbandoning, tu_claimToken := Some token, tu_leaseUntil := t,
              tu_senderToken := None, tu_senderLeaseUntil := 0\<rparr>) (retire_conversation r db)))"
    if "turn_get i db = Some r" "tu_status r \<in> {TurnPreparing, TurnSending, TurnUncertain, TurnAbandoning}" for r t
    using that follow_retire follow.R_trans by blast
  then show "turns_follow db (snd (claimAbandonment i token db))"
    unfolding claimAbandonment_def turn_row_of_def
    by (intro follow_transaction_at)
      (simp add: bnd_reads bnd_modify bnd_assoc follow.R_refl split: option.split)
qed

lemma follow_abandon [turn_keeps]: "keeps turns_follow (abandon_turn i token evidence)"
  unfolding keeps_def
proof
  fix db
  show "turns_follow db (snd (abandon_turn i token evidence db))"
  proof (cases "turn_get i db")
    case None
    then show ?thesis
      unfolding abandon_turn_def turn_row_of_def
      by (intro follow_transaction_at) (simp add: bnd_reads bnd_assoc follow.R_refl)
  next
    case (Some r)
    let ?db = "retire_conversation r db"
    define f where "f = (\<lambda>x. if of_conversation (tu_owner r) (tu_conversationKey r) x \<and> tu_status x \<noteq> TurnCompleted
       then x\<lparr>tu_status := TurnAbandoned, tu_output := Some (stored evidence), tu_error := None, tu_leaseUntil := 0,
              tu_claimToken := None, tu_senderToken := None, tu_senderLeaseUntil := 0\<rparr> else x)"
    have "turns_follow ?db (?db\<lparr>tt_rows := map f (tt_rows ?db)\<rparr>)" if st: "tu_status r = TurnAbandoning"
      unfolding turns_follow_def
    proof
      assume ok: "turns_ok ?db"
      have r: "r \<in> set (tt_rows ?db)" using get_in [OF Some] by (simp add: retire_rows)
      have alive: "tu_status x \<noteq> TurnAbandoned" if "x \<in> set (tt_rows ?db)" "of_conversation (tu_owner r) (tu_conversationKey r) x" for x
      proof
        assume "tu_status x = TurnAbandoned"
        moreover have "turns_agree x r" using ok r that(1) by (simp add: turns_ok_def)
        ultimately have "turn_ended r" using that(2) by (simp add: turns_agree_def same_conversation_def of_conversation_def)
        then show False using st by (simp add: turn_ended_def)
      qed
      show "turns_ok (?db\<lparr>tt_rows := map f (tt_rows ?db)\<rparr>) \<and> (\<forall>x \<in> set (tt_rows ?db).
          \<exists>x' \<in> set (tt_rows (?db\<lparr>tt_rows := map f (tt_rows ?db)\<rparr>)). turn_evolves x x')"
      proof (rule rows_evolve [OF ok])
        fix x assume x: "x \<in> set (tt_rows ?db)"
        show "turn_evolves x (f x)"
          using alive [OF x] ended_stage [of x] by (auto simp: f_def turn_evolves_def turn_ended_def)
            (cases "tu_status x", simp_all)+
        have "turn_alone_ok ?db x" "turn_fits (f x) = turn_fits x"
          using ok x by (simp_all add: turns_ok_def turn_fits_def f_def)
        then show "turn_alone_ok (?db\<lparr>tt_rows := map f (tt_rows ?db)\<rparr>) (f x)"
          using retired_now [of r db]
          by (auto simp: f_def turn_alone_ok_def turn_ended_def is_retired_def deletion_of_def turn_config_of_def turn_binding_for_def of_conversation_def)
      qed (auto simp: f_def turn_ended_def same_conversation_def of_conversation_def split: if_splits)
    qed
    with follow_retire [of db r] follow.R_trans
    have "turns_follow db (?db\<lparr>tt_rows := map f (tt_rows ?db)\<rparr>)" if "tu_status r = TurnAbandoning"
      using that by blast
    with Some show ?thesis
      unfolding abandon_turn_def turn_row_of_def
      by (intro follow_transaction_at) (simp add: bnd_reads bnd_modify bnd_assoc follow.R_refl f_def)
  qed
qed

lemma head_none: "turn_head owner key db = None \<Longrightarrow> r \<in> set (tt_rows db) \<Longrightarrow> of_conversation owner key r \<Longrightarrow> turn_ended r"
proof (rule ccontr)
  assume "turn_head owner key db = None" "r \<in> set (tt_rows db)" "of_conversation owner key r" "\<not> turn_ended r"
  then have r: "r \<in> set (sort_key tu_sequence (filter (\<lambda>r. of_conversation owner key r \<and> \<not> turn_ended r) (tt_rows db)))" by simp
  have "sort_key tu_sequence (filter (\<lambda>r. of_conversation owner key r \<and> \<not> turn_ended r) (tt_rows db)) = []"
    using \<open>turn_head owner key db = None\<close> by (simp add: turn_head_def split: list.splits)
  with r show False by (metis empty_iff list.set(1))
qed

lemma head_first:
  assumes "turn_head owner key db = Some h"
  shows "h \<in> set (tt_rows db) \<and> of_conversation owner key h \<and> \<not> turn_ended h \<and>
    (\<forall>r \<in> set (tt_rows db). of_conversation owner key r \<and> tu_sequence r < tu_sequence h \<longrightarrow> turn_ended r)"
proof -
  let ?rs = "filter (\<lambda>r. of_conversation owner key r \<and> \<not> turn_ended r) (tt_rows db)"
  obtain rs where rs: "sort_key tu_sequence ?rs = h # rs" using assms by (auto simp: turn_head_def split: list.splits)
  have all: "set ?rs = set (h # rs)" unfolding rs [symmetric] by simp
  have "sorted (map tu_sequence (h # rs))" unfolding rs [symmetric] by simp
  then have "tu_sequence h \<le> tu_sequence r" if "r \<in> set ?rs" for r using that unfolding all by auto
  moreover have "h \<in> set ?rs" unfolding all by simp
  ultimately show ?thesis by fastforce
qed

lemma follow_begin [turn_keeps]: "keeps turns_follow (beginDeletion owner q)"
  unfolding keeps_def
proof
  fix db
  have put: "turns_follow db (db\<lparr>tt_nextId := Suc (tt_nextId db), tt_deletions := tt_deletions db @ [d]\<rparr>)"
    if "turn_head owner (dr_conversationKey q) db = None" "dl_owner d = owner" "dl_conversationKey d = dr_conversationKey q" for d
  proof (rule follow_frame)
    fix r assume "r \<in> set (tt_rows db)"
      "deletion_of (tu_owner r) (tu_conversationKey r) (db\<lparr>tt_nextId := Suc (tt_nextId db), tt_deletions := tt_deletions db @ [d]\<rparr>) \<noteq> None"
    then show "deletion_of (tu_owner r) (tu_conversationKey r) db \<noteq> None \<or> turn_ended r"
      using head_none [OF that(1), of r] that(2,3) by (auto simp: deletion_of_def of_conversation_def find_None_iff)
  qed (simp_all add: turn_config_of_def turn_binding_for_def is_retired_def)
  show "turns_follow db (snd (beginDeletion owner q db))"
    unfolding beginDeletion_def
    by (rule follow_transaction_at)
      (auto simp: bnd_reads fresh_turn_id_def bnd_run Let_def follow.R_refl put split: option.split)
qed

lemma follow_finish: "turns_follow db (finishDeletion owner key receipt db)"
proof (rule follow_frame)
  fix r :: turn_row assume "deletion_of (tu_owner r) (tu_conversationKey r) (finishDeletion owner key receipt db) \<noteq> None"
  then show "deletion_of (tu_owner r) (tu_conversationKey r) db \<noteq> None \<or> turn_ended r"
    by (auto simp: deletion_of_def finishDeletion_def find_mapped)
qed (simp_all add: finishDeletion_def turn_config_of_def turn_binding_for_def is_retired_def)

section \<open>A new turn\<close>

lemma find_append: "find P (xs @ ys) = (case find P xs of Some x \<Rightarrow> Some x | None \<Rightarrow> find P ys)"
  by (induction xs) auto

lemma find_append_last: "find P xs = None \<Longrightarrow> P x \<Longrightarrow> find P (xs @ [x]) = Some x"
  by (simp add: find_append)

lemma bindings_grow: "turn_binding_for v k db = Some b \<Longrightarrow> turn_binding_for v k (insert_binding owner q db) = Some b"
  by (simp add: insert_binding_def turn_binding_for_def find_append)

lemma binding_there: "turn_binding_for owner (tr_conversationKey q) (insert_binding owner q db) \<noteq> None"
  by (auto simp: insert_binding_def turn_binding_for_def find_append split: option.split)

lemma inserted_tables: "tt_rows (insert_binding owner q db) = tt_rows db" "tt_nextId (insert_binding owner q db) = tt_nextId db"
    "tt_retirements (insert_binding owner q db) = tt_retirements db" "tt_deletions (insert_binding owner q db) = tt_deletions db"
  by (simp_all add: insert_binding_def)

lemma follow_insert_binding: "turns_follow db (insert_binding owner q db)"
  by (rule follow_frame) (use bindings_grow in \<open>auto simp: turn_config_of_def inserted_tables is_retired_def deletion_of_def\<close>)

lemma last_sequence_ge: "r \<in> set (tt_rows db) \<Longrightarrow> of_conversation owner key r \<Longrightarrow> tu_sequence r \<le> last_sequence owner key db"
proof -
  have "x \<le> foldr max xs 0" if "x \<in> set xs" for x :: nat and xs using that by (induction xs) auto
  then show "r \<in> set (tt_rows db) \<Longrightarrow> of_conversation owner key r \<Longrightarrow> tu_sequence r \<le> last_sequence owner key db"
    unfolding last_sequence_def by simp
qed

lemma follow_new_row:
  assumes "deletion_of owner (tr_conversationKey q) db = None" "turn_config_of owner (tr_conversationKey q) db = Some (config_of q)"
    and "turn_of_request owner (tr_requestId q) db = None" "\<not> is_retired owner (tr_conversationKey q) db"
  shows "turns_follow db (db\<lparr>tt_nextId := Suc (tt_nextId db), tt_rows := tt_rows db @ [new_turn owner q runId stepId db]\<rparr>)"
    (is "turns_follow db ?db")
  unfolding turns_follow_def
proof
  assume ok: "turns_ok db"
  let ?n = "new_turn owner q runId stepId db"
  have alone: "turn_alone_ok db r" if "r \<in> set (tt_rows db)" for r using ok that by (simp add: turns_ok_def)
  have "turn_alone_ok ?db r" if "r \<in> set (tt_rows db)" for r
    using alone [OF that] by (auto simp: turn_alone_ok_def is_retired_def deletion_of_def turn_config_of_def turn_binding_for_def)
  moreover have "turn_alone_ok ?db ?n"
    using assms(1,2) by (simp add: turn_alone_ok_def new_turn_def turn_fits_def turn_ended_def deletion_of_def turn_config_of_def turn_binding_for_def)
  moreover have "turns_agree r ?n \<and> turns_agree ?n r" if r: "r \<in> set (tt_rows db)" for r
  proof -
    have "\<not> (tu_owner r = owner \<and> tu_requestId r = tr_requestId q)"
      using assms(3) r by (auto simp: turn_of_request_def find_None_iff)
    moreover have "tu_sequence r < tu_sequence ?n \<and> tu_status r \<noteq> TurnAbandoned" if "same_conversation r ?n"
      using that last_sequence_ge [OF r] alone [OF r] assms(4)
      by (auto simp: same_conversation_def new_turn_def of_conversation_def turn_alone_ok_def le_imp_less_Suc)
    ultimately show ?thesis by (auto simp: turns_agree_def new_turn_def same_conversation_def)
  qed
  moreover have "turns_agree ?n ?n" by (simp add: turns_agree_def new_turn_def)
  moreover have "tu_receiptId ?n \<notin> tu_receiptId ` set (tt_rows db)"
    using alone by (fastforce simp: new_turn_def turn_alone_ok_def)
  ultimately have "turns_ok ?db" using ok by (auto simp: turns_ok_def)
  then show "turns_ok ?db \<and> (\<forall>r \<in> set (tt_rows db). \<exists>r' \<in> set (tt_rows ?db). turn_evolves r r')"
    using turn_evolves_refl by (metis UnI1 set_append turn_db.select_convs(1) turn_db.surjective turn_db.update_convs(1,5))
qed

lemma follow_enqueue [turn_keeps]: "keeps turns_follow (enqueue_turn owner q runId stepId)"
  unfolding keeps_def
proof
  fix db
  let ?db = "insert_binding owner q db"
  have put: "turns_follow db (?db\<lparr>tt_nextId := Suc (tt_nextId ?db), tt_rows := tt_rows ?db @ [new_turn owner q runId stepId ?db]\<rparr>)"
    if "deletion_of owner (tr_conversationKey q) ?db = None" "turn_binding_for owner (tr_conversationKey q) ?db = Some b"
      "tb_config b = config_of q" "turn_of_request owner (tr_requestId q) ?db = None"
      "\<not> is_retired owner (tr_conversationKey q) ?db" for b
    by (rule follow.R_trans [OF follow_insert_binding follow_new_row [OF that(1) _ that(4,5)]])
      (simp add: turn_config_of_def that(2,3))
  show "turns_follow db (snd (enqueue_turn owner q runId stepId db))"
    unfolding enqueue_turn_def turn_row_of_def fresh_turn_id_def
    by (auto simp: bnd_reads bnd_run follow.R_refl follow_insert_binding put split: option.split
        intro!: follow_transaction_at)
qed

end
