(* ===== verification/Turn_Rely.thy ===== *)
theory Turn_Rely
  imports Turn_Laws
begin

text \<open>
  What a host relies on while it awaits, and what it guarantees: the turns evolve, the prompts handed
  to the agent stay handed over, none is handed over again, and within a conversation they were
  handed over in order. The relation is reflexive and transitive, and every service keeps it when
  the handlers that run meanwhile do.
\<close>

section \<open>The prompts that were handed over\<close>

definition later_turn :: "turn_db \<Rightarrow> uuid \<Rightarrow> uuid \<Rightarrow> bool" where
  "later_turn db i j \<longleftrightarrow> (\<forall>r \<in> set (tt_rows db). \<forall>s \<in> set (tt_rows db).
     tu_receiptId r = i \<and> tu_receiptId s = j \<and> same_conversation r s \<longrightarrow> tu_sequence s < tu_sequence r)"

definition sent_ok :: "turn_db \<Rightarrow> uuid list \<Rightarrow> bool" where
  "sent_ok db xs \<longleftrightarrow> distinct xs \<and> sorted_wrt (later_turn db) xs \<and>
     (\<forall>i \<in> set xs. \<exists>r \<in> set (tt_rows db). tu_receiptId r = i \<and> 1 \<le> turn_stage (tu_status r))"

definition turn_world_ok :: "turn_world \<Rightarrow> bool" where
  "turn_world_ok w \<longleftrightarrow> turns_ok (tv_db w) \<and> sent_ok (tv_db w) (tv_sent w)"

definition turn_moves :: "turn_world \<Rightarrow> turn_world \<Rightarrow> bool" where
  "turn_moves w w' \<longleftrightarrow> (turn_world_ok w \<longrightarrow> turn_world_ok w' \<and>
     (\<forall>r \<in> set (tt_rows (tv_db w)). \<exists>r' \<in> set (tt_rows (tv_db w')). turn_evolves r r') \<and>
     suffix (tv_sent w) (tv_sent w'))"

interpretation turns_move: progress_order turn_moves
proof
  show "turn_moves s s" for s
    unfolding turn_moves_def using turn_evolves_refl by blast
  show "turn_moves s t \<Longrightarrow> turn_moves t u \<Longrightarrow> turn_moves s u" for s t u
    unfolding turn_moves_def using turn_evolves_trans by (meson suffix_order.trans)
qed

lemma later_kept:
  assumes ok: "turns_ok db'" and evo: "\<And>r. r \<in> set (tt_rows db) \<Longrightarrow> \<exists>r' \<in> set (tt_rows db'). turn_evolves r r'"
    and there: "i \<in> tu_receiptId ` set (tt_rows db)" "j \<in> tu_receiptId ` set (tt_rows db)" and later: "later_turn db i j"
  shows "later_turn db' i j"
  unfolding later_turn_def
proof (intro ballI impI)
  fix r' s' assume r': "r' \<in> set (tt_rows db')" and s': "s' \<in> set (tt_rows db')"
    and ids: "tu_receiptId r' = i \<and> tu_receiptId s' = j \<and> same_conversation r' s'"
  obtain r s where r: "r \<in> set (tt_rows db)" "tu_receiptId r = i" and s: "s \<in> set (tt_rows db)" "tu_receiptId s = j"
    using there by auto
  obtain r1 s1 where r1: "r1 \<in> set (tt_rows db')" "turn_evolves r r1" and s1: "s1 \<in> set (tt_rows db')" "turn_evolves s s1"
    using evo r(1) s(1) by blast
  have "r1 = r'" "s1 = s'"
    using one_turn [OF ok r1(1) r'] one_turn [OF ok s1(1) s'] evolves_fields [OF r1(2)] evolves_fields [OF s1(2)] r(2) s(2) ids
    by simp_all
  then have "turn_evolves r r'" "turn_evolves s s'" using r1(2) s1(2) by simp_all
  then show "tu_sequence s' < tu_sequence r'"
    using later r s ids evolves_same [of r r' s s'] evolves_fields [of r r'] evolves_fields [of s s']
    by (simp add: later_turn_def)
qed

lemma sent_kept:
  assumes ok: "turns_ok db'" and evo: "\<And>r. r \<in> set (tt_rows db) \<Longrightarrow> \<exists>r' \<in> set (tt_rows db'). turn_evolves r r'"
    and sent: "sent_ok db xs"
  shows "sent_ok db' xs"
proof -
  have there: "i \<in> tu_receiptId ` set (tt_rows db)" if "i \<in> set xs" for i
    using sent that by (auto simp: sent_ok_def)
  have "sorted_wrt (later_turn db') xs"
    using sent later_kept [OF ok evo there there] unfolding sent_ok_def by (blast intro: sorted_wrt_mono_rel)
  moreover have "\<exists>r \<in> set (tt_rows db'). tu_receiptId r = i \<and> 1 \<le> turn_stage (tu_status r)" if i: "i \<in> set xs" for i
  proof -
    obtain r where r: "r \<in> set (tt_rows db)" "tu_receiptId r = i" "1 \<le> turn_stage (tu_status r)"
      using sent i by (auto simp: sent_ok_def)
    then obtain r' where "r' \<in> set (tt_rows db')" "turn_evolves r r'" using evo by blast
    with r show ?thesis by (auto simp: turn_evolves_def intro!: bexI [of _ r'])
  qed
  ultimately show ?thesis using sent by (simp add: sent_ok_def)
qed

lemma moves_db: "turns_follow (tv_db w) db' \<Longrightarrow> turn_moves w (w\<lparr>tv_db := db'\<rparr>)"
  unfolding turn_moves_def turns_follow_def turn_world_ok_def using sent_kept [of db' "tv_db w"] by auto

lemma moves_on_turns: "keeps turns_follow m \<Longrightarrow> keeps turn_moves (on_turns m)"
  unfolding keeps_def on_turns_def using moves_db by (auto split: prod.split sum.split) (metis snd_conv)+

lemma moves_answered: "keeps turn_moves (answered f)"
  by (auto simp: keeps_def answered_def turns_move.R_refl split: sum.split)

lemma moves_survives: "keeps turn_moves (survives e k)"
  by (auto simp: keeps_def survives_def turns_move.R_refl)

lemma moves_lease_checked: "keeps turn_moves (lease_checked x)"
  unfolding lease_checked_def by (intro turns_move.keeps_intros)

lemma moves_target: "keeps turn_moves (target_row i)"
  unfolding target_row_def by (intro turns_move.keeps_intros)

section \<open>The others\<close>

definition turn_rely :: "turn_env \<Rightarrow> bool" where
  "turn_rely e \<longleftrightarrow> (\<forall>k u g v. g \<in> set (te_waits e k u) \<longrightarrow> turn_moves v (g v))"

lemma moves_fold: "(\<And>g v. g \<in> set gs \<Longrightarrow> turn_moves v (g v)) \<Longrightarrow> turn_moves w (fold (\<lambda>g v. g v) gs w)"
  by (induction gs arbitrary: w) (auto simp: turns_move.R_refl intro: turns_move.R_trans)

lemma moves_awaits: "turn_rely e \<Longrightarrow> keeps turn_moves (awaits e k)"
  unfolding awaits_def turn_rely_def
  by (intro turns_move.keeps_intros moves_survives) (simp add: keeps_def moves_fold)

lemma moves_renewed: "turn_moves w (w\<lparr>tv_db := snd (renew_turn i token (tv_db w))\<rparr>)"
  using follow_renew by (intro moves_db) (simp add: keeps_def)

lemma moves_beats: "(\<And>g v. g \<in> set gs \<Longrightarrow> turn_moves v (g v)) \<Longrightarrow> turn_moves w (snd (beats i token gs x w))"
proof (induction i token gs x w rule: beats.induct)
  case (3 i token g h gs x w)
  have "turn_moves w (g w)" using 3(3) by simp
  then have "turn_moves w ((g w)\<lparr>tv_db := snd (renew_turn i token (tv_db (g w)))\<rparr>)"
    using moves_renewed turns_move.R_trans by blast
  moreover have "turn_moves ((g w)\<lparr>tv_db := snd (renew_turn i token (tv_db (g w)))\<rparr>)
      (snd (beats i token (g # h # gs) x w))"
    using 3 by (auto split: prod.split sum.split)
  ultimately show ?case by (rule turns_move.R_trans)
qed (simp_all add: turns_move.R_refl)

lemma moves_awaits_claimed: "turn_rely e \<Longrightarrow> keeps turn_moves (awaits_claimed e k i token x)"
proof -
  assume e: "turn_rely e"
  have "turn_moves w (snd (beats i token (te_waits e k w) x w))" for w
    using e by (intro moves_beats) (auto simp: turn_rely_def)
  moreover have "snd (survives e k v) = v" for v by (simp add: survives_def)
  ultimately show ?thesis by (simp add: keeps_def awaits_claimed_def split_beta snd_then_ret)
qed

section \<open>The services\<close>

text \<open>
  The hand-over: the turn was prepared, so its prompt had not been handed over, and every turn before
  it has ended.
\<close>

lemma sending_run:
  assumes "sending_turn i token nativeId count db = (Inr x, db')"
  obtains r where "r \<in> set (tt_rows db)" "tu_receiptId r = i" "tu_status r = TurnPreparing"
    and "\<And>r'. r' \<in> set (tt_rows db') \<Longrightarrow> tu_receiptId r' = i \<Longrightarrow> distinct (map tu_receiptId (tt_rows db)) \<Longrightarrow> tu_status r' = TurnSending"
    and "i \<in> tu_receiptId ` set (tt_rows db')"
proof -
  let ?g = "\<lambda>r. tu_receiptId r = i \<and> tu_claimToken r = Some token \<and> tu_status r = TurnPreparing"
  have "length (filter ?g (tt_rows db)) = 1"
    using assms by (auto simp: sending_turn_def bnd_run update_turn_def conj_assoc split: if_splits)
  then obtain r where "filter ?g (tt_rows db) = [r]" by (auto simp: length_Suc_conv)
  then have "r \<in> set (filter ?g (tt_rows db))" by simp
  then have r: "r \<in> set (tt_rows db)" "?g r" by auto
  define h :: "turn_row \<Rightarrow> turn_row" where "h = (\<lambda>r. if tu_receiptId r = i \<and> tu_claimToken r = Some token \<and> tu_status r = TurnPreparing
     then r\<lparr>tu_status := TurnSending, tu_nativeSessionId := nativeId, tu_checkpoint := Some count,
            tu_senderToken := Some token, tu_senderLeaseUntil := tt_clock db + 120000\<rparr> else r)"
  have rows: "tt_rows db' = map h (tt_rows db)"
    using assms by (auto simp: sending_turn_def bnd_run update_turn_def change_def h_def split: if_splits)
  have h: "tu_receiptId (h y) = tu_receiptId y" for y by (simp add: h_def)
  have hr: "tu_status (h r) = TurnSending" using r(2) by (simp add: h_def)
  show thesis
  proof (rule that [OF r(1)])
    fix r' assume "r' \<in> set (tt_rows db')" "tu_receiptId r' = i" "distinct (map tu_receiptId (tt_rows db))"
    then obtain y where y: "y \<in> set (tt_rows db)" "tu_receiptId y = i" "r' = h y" unfolding rows using h by auto
    then have "y = r" using r \<open>distinct (map tu_receiptId (tt_rows db))\<close> by (metis distinct_map inj_on_def)
    with y(3) hr show "tu_status r' = TurnSending" by simp
  next
    show "i \<in> tu_receiptId ` set (tt_rows db')" unfolding rows set_map using imageI [OF imageI [OF r(1)], of tu_receiptId h] r(2) h by simp
  qed (use r(2) in simp_all)
qed

lemma sent_more:
  assumes ok: "turns_ok db'" and sent: "sent_ok db' xs" and fresh: "i \<notin> set xs"
    and r: "r \<in> set (tt_rows db')" "tu_receiptId r = i" "tu_status r = TurnSending"
  shows "sent_ok db' (i # xs)"
proof -
  have "later_turn db' i j" if j: "j \<in> set xs" for j
    unfolding later_turn_def
  proof (intro ballI impI)
    fix r' s assume "r' \<in> set (tt_rows db')" and s: "s \<in> set (tt_rows db')"
      and ids: "tu_receiptId r' = i \<and> tu_receiptId s = j \<and> same_conversation r' s"
    then have "r' = r" using one_turn [OF ok _ r(1)] r(2) by simp
    then have agree: "turns_agree r s" "same_conversation r s" using ok r(1) s ids by (simp_all add: turns_ok_def)
    obtain s' where "s' \<in> set (tt_rows db')" "tu_receiptId s' = j" "1 \<le> turn_stage (tu_status s')"
      using sent j by (auto simp: sent_ok_def)
    then have "1 \<le> turn_stage (tu_status s)" using one_turn [OF ok _ s] ids by metis
    then have "tu_status s \<noteq> TurnQueued" by auto
    moreover have "\<not> turn_ended r" using r(3) by (simp add: turn_ended_def)
    moreover have "tu_receiptId r \<noteq> tu_receiptId s" using ids r(2) fresh j by auto
    ultimately show "tu_sequence s < tu_sequence r'"
      using agree \<open>r' = r\<close> unfolding turns_agree_def by (metis linorder_neqE_nat)
  qed
  then show ?thesis using sent fresh r by (auto simp: sent_ok_def intro!: bexI [of _ r])
qed

lemma moves_hand_over: "keeps turn_moves (hand_over e head token nativeId count)"
  unfolding keeps_def
proof
  fix w :: turn_world
  let ?i = "tu_receiptId head"
  obtain x db' where run: "sending_turn ?i token nativeId count (tv_db w) = (x, db')" by fastforce
  have follow: "turns_follow (tv_db w) db'"
    using follow_sending [of ?i token nativeId count] run by (auto simp: keeps_def dest: spec [of _ "tv_db w"])
  then have kept: "turn_moves w (w\<lparr>tv_db := db'\<rparr>)" by (rule moves_db)
  have sent: "turn_moves (w\<lparr>tv_db := db'\<rparr>) (w\<lparr>tv_db := db', tv_sent := ?i # tv_sent w\<rparr>)"
    if "x = Inr ()" "turn_world_ok w"
  proof -
    have ok: "turns_ok (tv_db w)" "turns_ok db'" "sent_ok (tv_db w) (tv_sent w)" "sent_ok db' (tv_sent w)"
      using that(2) kept by (auto simp: turn_world_ok_def turn_moves_def)
    have run': "sending_turn ?i token nativeId count (tv_db w) = (Inr (), db')" using run that(1) by simp
    have distinct: "distinct (map tu_receiptId (tt_rows (tv_db w)))" using ok(1) by (simp add: turns_ok_def)
    obtain r where r: "r \<in> set (tt_rows (tv_db w))" "tu_receiptId r = ?i" "tu_status r = TurnPreparing"
      and done_row: "\<And>r'. r' \<in> set (tt_rows db') \<Longrightarrow> tu_receiptId r' = ?i \<Longrightarrow> tu_status r' = TurnSending"
      and there: "?i \<in> tu_receiptId ` set (tt_rows db')"
      using sending_run [OF run'] distinct by metis
    have fresh: "?i \<notin> set (tv_sent w)"
    proof
      assume "?i \<in> set (tv_sent w)"
      then obtain s where "s \<in> set (tt_rows (tv_db w))" "tu_receiptId s = ?i" "1 \<le> turn_stage (tu_status s)"
        using ok(3) by (auto simp: sent_ok_def)
      then show False using one_turn [OF ok(1) _ r(1)] r by force
    qed
    obtain r' where "r' \<in> set (tt_rows db')" "tu_receiptId r' = ?i" using there by auto
    then have "sent_ok db' (?i # tv_sent w)" using sent_more [OF ok(2,4) fresh] done_row by blast
    then show ?thesis
      unfolding turn_moves_def turn_world_ok_def using turn_evolves_refl ok(2) by (auto simp: suffix_Cons)
  qed
  have "turn_moves w (w\<lparr>tv_db := db', tv_sent := ?i # tv_sent w\<rparr>)" if "x = Inr ()"
  proof (cases "turn_world_ok w")
    case True
    show ?thesis by (rule turns_move.R_trans [OF kept sent [OF that True]])
  qed (simp add: turn_moves_def)
  then show "turn_moves w (snd (hand_over e head token nativeId count w))"
    using kept run by (cases x) (simp_all add: hand_over_def bnd_run on_turns_def survives_def)
qed

text \<open>The head is claimed in the turn of the event loop in which it was read.\<close>

lemma follow_claim_head:
  assumes "turn_head owner key db = Some h"
  shows "turns_follow db (snd (claim_turn (tu_receiptId h) token db))"
proof -
  have head: "h \<in> set (tt_rows db)" "of_conversation owner key h" "\<not> turn_ended h"
    "\<And>r. r \<in> set (tt_rows db) \<Longrightarrow> of_conversation owner key r \<Longrightarrow> tu_sequence r < tu_sequence h \<Longrightarrow> turn_ended r"
    using head_first [OF assms] by blast+
  have "turns_follow db (snd (update_turn (tu_receiptId h)
       (\<lambda>r. tu_status r \<notin> {TurnCompleted, TurnAbandoned, TurnAbandoning} \<and> tu_leaseUntil r \<le> tt_clock db)
       (\<lambda>r. r\<lparr>tu_status := (if tu_status r = TurnQueued then TurnPreparing else tu_status r),
              tu_claimToken := Some token, tu_leaseUntil := tt_clock db + 30000, tu_error := None,
              tu_senderToken := None, tu_senderLeaseUntil := 0\<rparr>) db))"
  proof (rule one_row_steps)
    fix r assume "turns_ok db" and r: "r \<in> set (tt_rows db)" "tu_receiptId r = tu_receiptId h"
      and g: "tu_status r \<notin> {TurnCompleted, TurnAbandoned, TurnAbandoning} \<and> tu_leaseUntil r \<le> tt_clock db"
    then have "r = h" using one_turn head(1) by blast
    then have "turn_ended s" if "s \<in> set (tt_rows db)" "same_conversation s r \<and> tu_sequence s < tu_sequence r" for s
      using that head(2,4) by (auto simp: same_conversation_def of_conversation_def)
    with g show "turn_step db r (r\<lparr>tu_status := (if tu_status r = TurnQueued then TurnPreparing else tu_status r),
              tu_claimToken := Some token, tu_leaseUntil := tt_clock db + 30000, tu_error := None,
              tu_senderToken := None, tu_senderLeaseUntil := 0\<rparr>)"
      by (simp add: turn_step_simps)
  qed
  then show ?thesis by (simp add: claim_turn_def bnd_reads)
qed

lemma claim_head_run:
  assumes "turn_head owner key (tv_db w) = Some h"
  shows "\<exists>token ok w'. turn_moves w w' \<and> (\<forall>k.
    bnd (on_turns fresh_turn_id) (\<lambda>token. bnd (on_turns (claim_turn (tu_receiptId h) token)) (k token)) w = k token ok w')"
proof -
  let ?t = "tt_nextId (tv_db w)" and ?d = "(tv_db w)\<lparr>tt_nextId := Suc (tt_nextId (tv_db w))\<rparr>"
  obtain ok d' where c: "claim_turn (tu_receiptId h) ?t ?d = (Inr ok, d')"
    by (simp add: claim_turn_def bnd_reads update_turn_def)
  have "turn_head owner key ?d = Some h" using assms by (simp add: turn_head_def)
  then have claimed: "turns_follow ?d d'" using follow_claim_head c by (metis snd_conv)
  have "turns_follow (tv_db w) ?d" using follow_fresh by (auto simp: keeps_def fresh_turn_id_def)
  then have moved: "turn_moves w (w\<lparr>tv_db := d'\<rparr>)" using claimed follow.R_trans moves_db by blast
  have 1: "on_turns fresh_turn_id w = (Inr ?t, w\<lparr>tv_db := ?d\<rparr>)"
    by (simp add: on_turns_def fresh_turn_id_def)
  have 2: "on_turns (claim_turn (tu_receiptId h) ?t) (w\<lparr>tv_db := ?d\<rparr>) = (Inr ok, w\<lparr>tv_db := d'\<rparr>)"
    using c by (simp add: on_turns_def)
  show ?thesis
    by (intro exI [of _ ?t] exI [of _ ok] exI [of _ "w\<lparr>tv_db := d'\<rparr>"])
      (simp add: bnd_run [of "on_turns m" for m] 1 2 moved)
qed

lemma moves_claim_head:
  assumes "\<And>h token ok. keeps turn_moves (k h token ok)"
  shows "keeps turn_moves (bnd (reads (\<lambda>w. turn_head owner key (tv_db w))) (\<lambda>found.
     case found of None \<Rightarrow> throw (TurnFailed ''TypeError'') | Some h \<Rightarrow>
     bnd (on_turns fresh_turn_id) (\<lambda>token. bnd (on_turns (claim_turn (tu_receiptId h) token)) (k h token))))"
  unfolding keeps_def
proof
  fix w
  show "turn_moves w (snd (bnd (reads (\<lambda>w. turn_head owner key (tv_db w))) (\<lambda>found.
     case found of None \<Rightarrow> throw (TurnFailed ''TypeError'') | Some h \<Rightarrow>
     bnd (on_turns fresh_turn_id) (\<lambda>token. bnd (on_turns (claim_turn (tu_receiptId h) token)) (k h token))) w))"
  proof (cases "turn_head owner key (tv_db w)")
    case (Some h)
    obtain token ok w' where moved: "turn_moves w w'"
      and run: "bnd (on_turns fresh_turn_id) (\<lambda>token. bnd (on_turns (claim_turn (tu_receiptId h) token)) (k h token)) w = k h token ok w'"
      using claim_head_run [OF Some] by blast
    have "turn_moves w' (snd (k h token ok w'))" using assms by (simp add: keeps_def)
    with moved have "turn_moves w (snd (k h token ok w'))" by (rule turns_move.R_trans)
    then show ?thesis unfolding bnd_reads Some option.case run .
  qed (simp add: bnd_reads turns_move.R_refl)
qed

lemmas turn_moves_keeps = moves_on_turns moves_answered moves_survives moves_lease_checked moves_target moves_awaits
  moves_awaits_claimed moves_hand_over turns_move.keeps_intros

lemma moves_recover_turn: "turn_rely e \<Longrightarrow> keeps turn_moves (recover_turn e head token)"
  unfolding recover_turn_def by (intro turn_moves_keeps turn_keeps)

lemma moves_send_turn: "turn_rely e \<Longrightarrow> keeps turn_moves (send_turn e owner q head token)"
  unfolding send_turn_def Let_def by (intro turn_moves_keeps turn_keeps)

lemma moves_try_turn:
  assumes "turn_rely e"
  shows "keeps turn_moves (try_turn e owner q target head token)"
proof -
  have "keeps turn_moves (case x of TurnFailed m \<Rightarrow>
            bnd (on_turns (uncertain_turn (tu_receiptId head) token m)) (\<lambda>_.
            bnd (target_row target) (\<lambda>r.
            ret (Some (publicTurnReceipt r, if tu_receiptId head = target then None else Some (tu_receiptId head)))))
        | _ \<Rightarrow> throw x)" for x
    by (cases x) (simp_all only: turn_error.case, (intro turn_moves_keeps turn_keeps)+)
  then show ?thesis
    unfolding try_turn_def using assms by (intro turn_moves_keeps moves_recover_turn moves_send_turn)
qed

lemma moves_turn_loop: "turn_rely e \<Longrightarrow> keeps turn_moves (turn_loop n e owner q target)"
proof (induction n)
  case (Suc n)
  show ?case
    unfolding turn_loop.simps
    by (intro turns_move.keeps_bnd moves_target turns_move.keeps_if turns_move.keeps_ret moves_claim_head
        turns_move.keeps_case_option moves_try_turn Suc)
qed (simp add: turns_move.keeps_throw)

lemma moves_execute: "turn_rely e \<Longrightarrow> keeps turn_moves (executeCompletedTurn n e owner q runId stepId)"
  unfolding executeCompletedTurn_def by (intro turn_moves_keeps turn_keeps moves_turn_loop)

lemma moves_abandon:
  assumes "turn_rely e"
  shows "keeps turn_moves (abandonCompletedTurn e owner q)"
proof -
  have "keeps turn_moves (case x of TurnFailed m \<Rightarrow> bnd (on_turns (uncertain_turn i token m)) (\<lambda>_. throw x) | _ \<Rightarrow> throw x)"
    for x :: turn_error and i token
    by (cases x) (simp_all only: turn_error.case, (intro turn_moves_keeps turn_keeps)+)
  then show ?thesis
    unfolding abandonCompletedTurn_def by (intro turn_moves_keeps turn_keeps assms)
qed

lemma moves_recoverPreparation: "turn_rely e \<Longrightarrow> keeps turn_moves (recoverPreparation e owner q)"
  unfolding recoverPreparation_def by (intro turn_moves_keeps turn_keeps)

lemma moves_deletion: "turn_rely e \<Longrightarrow> keeps turn_moves (deleteCompletedConversation e owner q)"
proof -
  have "turn_moves w (w\<lparr>tv_db := finishDeletion owner key receipt (tv_db w)\<rparr>)" for w key receipt
    by (rule moves_db) (rule follow_finish)
  then show "turn_rely e \<Longrightarrow> ?thesis"
    unfolding deleteCompletedConversation_def Let_def
    by (intro turn_moves_keeps turn_keeps turns_move.keeps_modify)
qed

end
