(* ===== verification/Turn_Contract.thy ===== *)
theory Turn_Contract
  imports Turn_Rely
begin

text \<open>
  What the completed turns promise over every history of calls: requests, abandonments, recoveries
  and deletions by any number of hosts, interleaved at every await, with hosts that die at an await
  and leave their claims behind. A prompt is handed to its agent at most once, the turns of a
  conversation one after the other in the order in which they were asked for; a call ends; and in a
  calm environment it comes back with the answer.
\<close>

section \<open>Histories\<close>

inductive turn_history :: "turn_world \<Rightarrow> turn_world \<Rightarrow> bool" where
  turns_idle: "turn_history w w"
| turns_later: "tt_clock (tv_db w) \<le> t \<Longrightarrow> turn_history w (w\<lparr>tv_db := (tv_db w)\<lparr>tt_clock := t\<rparr>\<rparr>)"
| turns_executed: "(\<And>k u g v. g \<in> set (te_waits e k u) \<Longrightarrow> turn_history v (g v)) \<Longrightarrow>
    turn_history w (snd (executeCompletedTurn n e owner q runId stepId w))"
| turns_abandoned: "(\<And>k u g v. g \<in> set (te_waits e k u) \<Longrightarrow> turn_history v (g v)) \<Longrightarrow>
    turn_history w (snd (abandonCompletedTurn e owner q w))"
| turns_recovered: "(\<And>k u g v. g \<in> set (te_waits e k u) \<Longrightarrow> turn_history v (g v)) \<Longrightarrow>
    turn_history w (snd (recoverPreparation e owner q w))"
| turns_deleted: "(\<And>k u g v. g \<in> set (te_waits e k u) \<Longrightarrow> turn_history v (g v)) \<Longrightarrow>
    turn_history w (snd (deleteCompletedConversation e owner dq w))"
| turns_refreshed: "turn_history w (snd (on_turns (refreshActiveSenderForSession sid) w))"
| turns_followed: "turn_history u v \<Longrightarrow> turn_history v w \<Longrightarrow> turn_history u w"

lemma moves_later: "turn_moves w (w\<lparr>tv_db := (tv_db w)\<lparr>tt_clock := t\<rparr>\<rparr>)"
  by (rule moves_db, rule follow_frame) (simp_all add: turn_config_of_def turn_binding_for_def is_retired_def deletion_of_def)

lemma turn_relyI: "(\<And>k u g v. g \<in> set (te_waits e k u) \<Longrightarrow> turn_moves v (g v)) \<Longrightarrow> turn_rely e"
  unfolding turn_rely_def by blast

lemma moved_world: "keeps turn_moves m \<Longrightarrow> turn_moves w (snd (m w))"
  by (simp add: keeps_def)

lemma history_moves: "turn_history u v \<Longrightarrow> turn_moves u v"
proof (induction rule: turn_history.induct)
  case (turns_executed e w n owner q runId stepId)
  then show ?case by (intro moved_world moves_execute turn_relyI)
next
  case (turns_abandoned e w owner q)
  then show ?case by (intro moved_world moves_abandon turn_relyI)
next
  case (turns_recovered e w owner q)
  then show ?case by (intro moved_world moves_recoverPreparation turn_relyI)
next
  case (turns_deleted e w owner dq)
  then show ?case by (intro moved_world moves_deletion turn_relyI)
next
  case (turns_refreshed w sid)
  show ?case by (intro moved_world moves_on_turns follow_refresh)
next
  case (turns_followed u v w)
  show ?case by (rule turns_move.R_trans [OF turns_followed.IH])
qed (simp_all add: turns_move.R_refl moves_later)

definition no_turns :: "turn_world \<Rightarrow> bool" where
  "no_turns w \<longleftrightarrow> tt_rows (tv_db w) = [] \<and> tv_sent w = []"

lemma turn_history_ok: "turn_history u v \<Longrightarrow> no_turns u \<Longrightarrow> turn_world_ok v"
proof -
  assume "turn_history u v" "no_turns u"
  moreover have "turn_world_ok u" using \<open>no_turns u\<close> by (simp add: no_turns_def turn_world_ok_def turns_ok_def sent_ok_def)
  ultimately show ?thesis using history_moves [of u v] by (simp add: turn_moves_def)
qed

section \<open>At most once, in order\<close>

text \<open>
  C4: Over any history, however hosts, retries, recoveries and abandonments interleave and whichever
  of them die, no prompt is handed to its agent twice, and within a conversation every prompt is
  handed over after those that were asked for before it.
\<close>

theorem turns_sent_once:
  assumes "turn_history w w'" and "no_turns w"
  shows "distinct (tv_sent w') \<and>
    (\<forall>xs ys i. tv_sent w' = xs @ i # ys \<longrightarrow> (\<forall>j \<in> set ys. later_turn (tv_db w') i j))"
proof -
  have "sent_ok (tv_db w') (tv_sent w')" using turn_history_ok [OF assms] by (simp add: turn_world_ok_def)
  then show ?thesis by (auto simp: sent_ok_def sorted_wrt_append)
qed

text \<open>
  C5: Whatever happens later, a turn keeps its identity, its place and its prompt, an ended one does
  not change at all, and one that was handed over never returns to the queue; at any time every turn
  before one that was begun has ended, so that at most one turn of a conversation is in progress, and
  a completed turn has a reply and the session that gave it.
\<close>

theorem turn_lifecycle:
  assumes "turn_history w u" and "no_turns w" and "turn_history u v"
  shows "(\<forall>r \<in> set (tt_rows (tv_db u)). \<exists>r' \<in> set (tt_rows (tv_db v)). turn_evolves r r') \<and>
    (\<forall>r \<in> set (tt_rows (tv_db u)). \<forall>s \<in> set (tt_rows (tv_db u)).
       same_conversation r s \<and> tu_sequence r < tu_sequence s \<and> tu_status s \<noteq> TurnQueued \<longrightarrow> turn_ended r) \<and>
    (\<forall>r \<in> set (tt_rows (tv_db u)). tu_status r = TurnCompleted \<longrightarrow>
       (\<exists>s. tu_reply r = Some s \<and> trim s \<noteq> []) \<and> nonempty (tu_nativeSessionId r) \<noteq> None)"
proof (intro conjI)
  have ok: "turn_world_ok u" by (rule turn_history_ok [OF assms(1,2)])
  with history_moves [OF assms(3)]
  show "\<forall>r \<in> set (tt_rows (tv_db u)). \<exists>r' \<in> set (tt_rows (tv_db v)). turn_evolves r r'"
    by (simp add: turn_moves_def)
  have turns: "turns_ok (tv_db u)" using ok by (simp add: turn_world_ok_def)
  then show "\<forall>r \<in> set (tt_rows (tv_db u)). \<forall>s \<in> set (tt_rows (tv_db u)).
       same_conversation r s \<and> tu_sequence r < tu_sequence s \<and> tu_status s \<noteq> TurnQueued \<longrightarrow> turn_ended r"
    unfolding turns_ok_def turns_agree_def by blast
  show "\<forall>r \<in> set (tt_rows (tv_db u)). tu_status r = TurnCompleted \<longrightarrow>
       (\<exists>s. tu_reply r = Some s \<and> trim s \<noteq> []) \<and> nonempty (tu_nativeSessionId r) \<noteq> None"
    using turns unfolding turns_ok_def turn_alone_ok_def by blast
qed

section \<open>A call ends\<close>

text \<open>A part of the program never answers that it ran out of rounds.\<close>

definition no_diverge :: "(turn_error, 'a, 's) sx \<Rightarrow> bool" where
  "no_diverge m \<longleftrightarrow> (\<forall>s. fst (m s) \<noteq> Inl TurnsDiverged)"

text \<open>What holds of the state whenever the part of the program returns normally.\<close>

definition returns_with :: "('s \<Rightarrow> bool) \<Rightarrow> ('e, 'a, 's) sx \<Rightarrow> bool" where
  "returns_with P m \<longleftrightarrow> (\<forall>s x s'. m s = (Inr x, s') \<longrightarrow> P s')"

named_theorems diverge_free "parts that never run out of rounds"

lemma no_diverge_bnd [diverge_free]: "no_diverge m \<Longrightarrow> (\<And>x. no_diverge (f x)) \<Longrightarrow> no_diverge (bnd m f)"
  unfolding no_diverge_def bnd_run by (auto split: prod.split sum.split) (metis fst_conv)+

lemma no_diverge_simple [diverge_free]: "no_diverge (ret x)" "no_diverge (reads f)" "no_diverge (modify g)"
    "no_diverge (throw (TurnFailed a))" "no_diverge (on_turns k)" "no_diverge (answered h)" "no_diverge (survives e p)"
  by (auto simp: no_diverge_def on_turns_def answered_def survives_def split: prod.split sum.split)

lemma no_diverge_cases [diverge_free]: "(b \<Longrightarrow> no_diverge m) \<Longrightarrow> (\<not> b \<Longrightarrow> no_diverge n) \<Longrightarrow> no_diverge (if b then m else n)"
    "(v = None \<Longrightarrow> no_diverge m) \<Longrightarrow> (\<And>y. v = Some y \<Longrightarrow> no_diverge (f y)) \<Longrightarrow> no_diverge (case v of None \<Rightarrow> m | Some y \<Rightarrow> f y)"
    "(\<And>a c. p = (a, c) \<Longrightarrow> no_diverge (g a c)) \<Longrightarrow> no_diverge (case p of (a, c) \<Rightarrow> g a c)"
  by (auto split: option.split prod.split)

lemma no_diverge_handle [diverge_free]: "no_diverge m \<Longrightarrow> (\<And>x. x \<noteq> TurnsDiverged \<Longrightarrow> no_diverge (f x)) \<Longrightarrow> no_diverge (handle m f)"
  unfolding no_diverge_def handle_run by (auto split: prod.split sum.split) (metis fst_conv)

lemma no_diverge_awaits [diverge_free]: "no_diverge (awaits e k)" "no_diverge (lease_checked x)" "no_diverge (target_row i)"
    "no_diverge (hand_over e head token v c)"
  unfolding awaits_def lease_checked_def target_row_def hand_over_def by (intro diverge_free)+

lemma no_diverge_claimed [diverge_free]: "no_diverge (awaits_claimed e k i token x)"
  by (auto simp: no_diverge_def awaits_claimed_def bnd_run survives_def split: prod.split sum.split)

lemma no_diverge_error [diverge_free]: "x \<noteq> TurnsDiverged \<Longrightarrow> (\<And>m. no_diverge (f m)) \<Longrightarrow>
    no_diverge (case x of TurnFailed m \<Rightarrow> f m | _ \<Rightarrow> throw x)"
  by (cases x) (auto simp: no_diverge_def)

lemma no_diverge_try: "no_diverge (try_turn e owner q target head token)"
  unfolding try_turn_def recover_turn_def send_turn_def Let_def
  by (intro diverge_free) (assumption | intro diverge_free)+

lemma returns_bnd: "(\<And>x. returns_with P (f x)) \<Longrightarrow> returns_with P (bnd m f)"
  unfolding returns_with_def bnd_run by (auto split: prod.splits sum.splits)

lemma returns_throw: "returns_with P (throw x)"
  by (simp add: returns_with_def)

lemma returns_cases: "(b \<Longrightarrow> returns_with P m) \<Longrightarrow> (\<not> b \<Longrightarrow> returns_with P n) \<Longrightarrow> returns_with P (if b then m else n)"
    "(v = None \<Longrightarrow> returns_with P m) \<Longrightarrow> (\<And>y. v = Some y \<Longrightarrow> returns_with P (g y)) \<Longrightarrow> returns_with P (case v of None \<Rightarrow> m | Some y \<Rightarrow> g y)"
    "(\<And>a c. p = (a, c) \<Longrightarrow> returns_with P (h a c)) \<Longrightarrow> returns_with P (case p of (a, c) \<Rightarrow> h a c)"
  by (auto split: option.split prod.split)

definition has_completed :: "uuid \<Rightarrow> turn_world \<Rightarrow> bool" where
  "has_completed i w \<longleftrightarrow> (\<exists>r \<in> set (tt_rows (tv_db w)). tu_receiptId r = i \<and> tu_status r = TurnCompleted)"

lemma on_turns_returns: "on_turns m w = (Inr x, w') \<Longrightarrow> m (tv_db w) = (Inr x, tv_db w')"
  by (auto simp: on_turns_def split: prod.splits sum.splits)

lemma returns_complete: "returns_with (has_completed i) (on_turns (complete_turn i token reply nativeId output))"
  unfolding returns_with_def
proof (intro allI impI)
  fix w x w'
  let ?g = "\<lambda>r. tu_claimToken r = Some token \<and> tu_status r \<in> {TurnSending, TurnUncertain}"
  let ?f = "\<lambda>r. r\<lparr>tu_status := TurnCompleted, tu_reply := Some reply, tu_nativeSessionId := Some nativeId,
     tu_output := map_option stored output, tu_error := None, tu_leaseUntil := 0, tu_claimToken := None,
     tu_senderToken := None, tu_senderLeaseUntil := 0\<rparr>"
  assume "on_turns (complete_turn i token reply nativeId output) w = (Inr x, w')"
  then have run: "complete_turn i token reply nativeId output (tv_db w) = (Inr x, tv_db w')" by (rule on_turns_returns)
  obtain one db' where u: "update_turn i ?g ?f (tv_db w) = (Inr one, db')" by (simp add: update_turn_def)
  have "one" "db' = tv_db w'" using run u by (auto simp: complete_turn_def bnd_run split: if_splits)
  with u have "update_turn i ?g ?f (tv_db w) = (Inr True, tv_db w')" by simp
  then obtain r where "r \<in> set (tt_rows (tv_db w))" "tu_receiptId r = i" "?f r \<in> set (tt_rows (tv_db w'))"
    using update_returns by blast
  then show "has_completed i w'" unfolding has_completed_def by (intro bexI [of _ "?f r"]) simp_all
qed

lemma try_completes:
  assumes "try_turn e owner q target head token w = (Inr None, w')"
  shows "has_completed (tu_receiptId head) w'"
proof -
  have "returns_with (has_completed (tu_receiptId head))
     (if tu_status head = TurnSending \<or> tu_status head = TurnUncertain then recover_turn e head token else send_turn e owner q head token)"
    unfolding recover_turn_def send_turn_def Let_def
    by (intro returns_bnd returns_throw returns_cases returns_complete)
  with assms show ?thesis
    unfolding try_turn_def returns_with_def
    by (auto simp: handle_run bnd_run split: prod.splits sum.splits turn_error.splits)
qed

text \<open>The places of the ended turns up to a given one: the measure of the loop.\<close>

definition settled_places :: "string \<Rightarrow> string \<Rightarrow> nat \<Rightarrow> turn_world \<Rightarrow> nat set" where
  "settled_places owner key m w = {s. s \<le> m \<and> (\<exists>r \<in> set (tt_rows (tv_db w)).
     of_conversation owner key r \<and> tu_sequence r = s \<and> turn_ended r)}"

lemma settled_bound: "card (settled_places owner key m w) \<le> Suc m" "finite (settled_places owner key m w)"
proof -
  have sub: "settled_places owner key m w \<subseteq> {..m}" by (auto simp: settled_places_def)
  show "finite (settled_places owner key m w)" using finite_subset [OF sub] by simp
  show "card (settled_places owner key m w) \<le> Suc m" using card_mono [OF _ sub] by simp
qed

lemma settled_mono:
  assumes "turn_moves w w'" and "turn_world_ok w"
  shows "settled_places owner key m w \<subseteq> settled_places owner key m w'"
proof
  fix s assume "s \<in> settled_places owner key m w"
  then obtain r where r: "s \<le> m" "r \<in> set (tt_rows (tv_db w))" "of_conversation owner key r" "tu_sequence r = s" "turn_ended r"
    by (auto simp: settled_places_def)
  then obtain r' where "r' \<in> set (tt_rows (tv_db w'))" "turn_evolves r r'" using assms by (auto simp: turn_moves_def)
  then have "r \<in> set (tt_rows (tv_db w'))" using r(5) by (simp add: turn_evolves_def)
  with r show "s \<in> settled_places owner key m w'" by (auto simp: settled_places_def)
qed

lemma target_run: "turn_world_ok w \<Longrightarrow> t \<in> set (tt_rows (tv_db w)) \<Longrightarrow> target_row (tu_receiptId t) w = (Inr t, w)"
  by (simp add: target_row_def bnd_reads get_some turn_world_ok_def)

text \<open>Every round that goes on has settled one more place up to that of the target.\<close>

lemma round_settles:
  assumes ok: "turn_world_ok w" and t: "t \<in> set (tt_rows (tv_db w))" "of_conversation owner key t" "\<not> turn_ended t"
    and head: "turn_head owner key (tv_db w) = Some h"
    and moved: "turn_moves w w'" and completed: "has_completed (tu_receiptId h) w'"
  shows "card (settled_places owner key (tu_sequence t) w) < card (settled_places owner key (tu_sequence t) w')"
proof (rule psubset_card_mono [OF settled_bound(2)], rule psubsetI [OF settled_mono [OF moved ok]])
  have turns: "turns_ok (tv_db w)" "turns_ok (tv_db w')" using ok moved by (auto simp: turn_moves_def turn_world_ok_def)
  note h = head_first [OF head]
  have le: "tu_sequence h \<le> tu_sequence t" using h t by (meson leI)
  have "tu_sequence h \<notin> settled_places owner key (tu_sequence t) w"
  proof
    assume "tu_sequence h \<in> settled_places owner key (tu_sequence t) w"
    then obtain r where r: "r \<in> set (tt_rows (tv_db w))" "of_conversation owner key r" "tu_sequence r = tu_sequence h" "turn_ended r"
      by (auto simp: settled_places_def)
    then have "turns_agree r h" "same_conversation r h"
      using turns(1) h by (auto simp: turns_ok_def of_conversation_def same_conversation_def)
    then have "r = h" using r(1,3) h one_turn [OF turns(1)] by (auto simp: turns_agree_def)
    with r(4) h show False by blast
  qed
  moreover have "tu_sequence h \<in> settled_places owner key (tu_sequence t) w'"
  proof -
    obtain r where r: "r \<in> set (tt_rows (tv_db w'))" "tu_receiptId r = tu_receiptId h" "tu_status r = TurnCompleted"
      using completed by (auto simp: has_completed_def)
    obtain h' where h': "h' \<in> set (tt_rows (tv_db w'))" "turn_evolves h h'" using h ok moved by (auto simp: turn_moves_def)
    then have "h' = r" using r one_turn [OF turns(2)] by (auto simp: turn_evolves_def)
    with h h' r le show ?thesis
      by (auto simp: settled_places_def turn_evolves_def of_conversation_def turn_ended_def intro!: exI [of _ r])
  qed
  ultimately show "settled_places owner key (tu_sequence t) w \<noteq> settled_places owner key (tu_sequence t) w'" by blast
qed

lemma turn_loop_ends:
  assumes "turn_rely e" and "turn_world_ok w" and "t \<in> set (tt_rows (tv_db w))" and "of_conversation owner (tr_conversationKey q) t"
    and "Suc (tu_sequence t) < n + card (settled_places owner (tr_conversationKey q) (tu_sequence t) w)"
  shows "fst (turn_loop n e owner q (tu_receiptId t) w) \<noteq> Inl TurnsDiverged"
  using assms
proof (induction n arbitrary: w t)
  case 0
  then show ?case using settled_bound(1) [of owner "tr_conversationKey q" "tu_sequence t" w] by simp
next
  case (Suc n)
  note target = target_run [OF Suc.prems(2,3)]
  have first: "bnd (target_row (tu_receiptId t)) k w = k t w" for k :: "turn_row \<Rightarrow> turn_answer turn_io"
    using target by (rule bnd_returned)
  show ?case
  proof (cases "turn_ended t \<or> turn_head owner (tr_conversationKey q) (tv_db w) = None")
    case True
    then show ?thesis using target by (auto simp: bnd_run [of "target_row _"] bnd_reads)
  next
    case False
    then obtain h where h: "turn_head owner (tr_conversationKey q) (tv_db w) = Some h" by auto
    define k where "k = (\<lambda>token claimed. if \<not> claimed
       then bnd (target_row (tu_receiptId t)) (\<lambda>r. ret (publicTurnReceipt r, Some (tu_receiptId h)))
       else bnd (try_turn e owner q (tu_receiptId t) h token) (\<lambda>answer. case answer of
              Some x \<Rightarrow> ret x | None \<Rightarrow> turn_loop n e owner q (tu_receiptId t)))"
    obtain token ok w1 where m1: "turn_moves w w1" and run:
      "bnd (on_turns fresh_turn_id) (\<lambda>token. bnd (on_turns (claim_turn (tu_receiptId h) token)) (k token)) w = k token ok w1"
      using claim_head_run [OF h] by blast
    have loop: "turn_loop (Suc n) e owner q (tu_receiptId t) w = k token ok w1"
      using False unfolding turn_loop.simps first
      by (simp only: if_False de_Morgan_disj bnd_reads h option.case run [unfolded k_def] k_def)
    have "fst (bnd (target_row (tu_receiptId t)) (\<lambda>r. ret (publicTurnReceipt r, Some (tu_receiptId h))) w1) \<noteq> Inl TurnsDiverged"
      using diverge_free unfolding no_diverge_def by (metis (no_types, lifting))
    moreover have "fst (bnd (try_turn e owner q (tu_receiptId t) h token) (\<lambda>answer. case answer of
              Some x \<Rightarrow> ret x | None \<Rightarrow> turn_loop n e owner q (tu_receiptId t)) w1) \<noteq> Inl TurnsDiverged"
    proof -
      obtain x w2 where outcome: "try_turn e owner q (tu_receiptId t) h token w1 = (x, w2)" by fastforce
      have "x \<noteq> Inl TurnsDiverged" using no_diverge_try outcome unfolding no_diverge_def by (metis fst_conv)
      moreover have "fst (turn_loop n e owner q (tu_receiptId t) w2) \<noteq> Inl TurnsDiverged" if "x = Inr None"
      proof -
        have "turn_moves w1 w2" using moves_try_turn [OF Suc.prems(1)] outcome unfolding keeps_def by (metis snd_conv)
        with m1 have m2: "turn_moves w w2" by (rule turns_move.R_trans)
        obtain t' where t': "t' \<in> set (tt_rows (tv_db w2))" "turn_evolves t t'"
          using m2 Suc.prems(2,3) by (auto simp: turn_moves_def)
        have "turn_world_ok w2" using m2 Suc.prems(2) by (simp add: turn_moves_def)
        moreover have "card (settled_places owner (tr_conversationKey q) (tu_sequence t) w)
            < card (settled_places owner (tr_conversationKey q) (tu_sequence t) w2)"
          using round_settles [OF Suc.prems(2-4) _ h m2 try_completes] False outcome that by simp
        ultimately show ?thesis
          using Suc.IH [OF Suc.prems(1) _ t'(1)] t' Suc.prems(4,5) by (simp add: turn_evolves_def of_conversation_def)
      qed
      ultimately show ?thesis using outcome by (auto simp: bnd_run split: sum.split option.split)
    qed
    ultimately show ?thesis unfolding loop k_def
      by (cases ok) (simp_all only: if_False if_True not_True_eq_False not_False_eq_True not_False_eq_True simp_thms)
  qed
qed

lemma inserted_reads: "turn_of_request v i (insert_binding owner q db) = turn_of_request v i db"
    "is_retired v key (insert_binding owner q db) = is_retired v key db"
    "deletion_of v key (insert_binding owner q db) = deletion_of v key db"
    "turn_get n (insert_binding owner q db) = turn_get n db"
  by (simp_all add: turn_of_request_def is_retired_def deletion_of_def turn_get_def inserted_tables)

text \<open>The outcome of a successful request: the turn that is there, or a new one at the end of the queue.\<close>

lemma new_turn_read:
  "turns_ok db \<Longrightarrow> turn_get (tt_nextId db) (db\<lparr>tt_nextId := k, tt_rows := tt_rows db @ [new_turn owner q runId stepId (insert_binding owner q db)]\<rparr>) =
     Some (new_turn owner q runId stepId (insert_binding owner q db))"
proof -
  assume "turns_ok db"
  then have "row tu_receiptId (tt_nextId db) (tt_rows db) = None"
    by (fastforce simp: row_None_iff turns_ok_def turn_alone_ok_def)
  then show ?thesis by (simp add: turn_get_def row_append new_turn_def inserted_tables)
qed

lemma enqueue_run:
  assumes ok: "turns_ok db" and run: "enqueue_turn owner q runId stepId db = (Inr t, db')"
  shows "turn_of_request owner (tr_requestId q) db = Some t \<and> tu_request t = q \<and> db' = insert_binding owner q db \<or>
     turn_of_request owner (tr_requestId q) db = None \<and> t = new_turn owner q runId stepId (insert_binding owner q db) \<and>
     db' = (insert_binding owner q db)\<lparr>tt_nextId := Suc (tt_nextId db), tt_rows := tt_rows db @ [t]\<rparr>"
proof -
  have there: "turn_get (tu_receiptId r) db = Some r" if "turn_of_request owner (tr_requestId q) db = Some r" for r
    using get_some [OF ok] of_request_in [OF that] by blast
  have new: "turn_get (tt_nextId db) ((insert_binding owner q db)\<lparr>tt_nextId := Suc (tt_nextId db),
      tt_rows := tt_rows db @ [new_turn owner q runId stepId (insert_binding owner q db)]\<rparr>) =
      Some (new_turn owner q runId stepId (insert_binding owner q db))"
    using new_turn_read [OF ok, where k = "Suc (tt_nextId db)" and owner = owner and q = q and runId = runId and stepId = stepId] by (simp add: turn_get_def)
  show ?thesis
    using run unfolding enqueue_turn_def turn_row_of_def transaction_run fresh_turn_id_def
    by (cases "turn_of_request owner (tr_requestId q) db")
      (simp_all add: bnd_reads bnd_modify bnd_assoc bnd_returned inserted_reads inserted_tables there new
        split: if_splits option.splits, auto)
qed

lemma enqueue_returns:
  assumes "turns_ok db" and "enqueue_turn owner q runId stepId db = (Inr t, db')"
  shows "t \<in> set (tt_rows db') \<and> of_conversation owner (tr_conversationKey q) t \<and> tu_request t = q"
  using enqueue_run [OF assms]
proof (elim disjE conjE)
  assume "turn_of_request owner (tr_requestId q) db = Some t" and t: "tu_request t = q" "db' = insert_binding owner q db"
  then have "t \<in> set (tt_rows db)" "tu_owner t = owner" using of_request_in by blast+
  moreover have "turn_fits t" using assms(1) calculation(1) by (simp add: turns_ok_def turn_alone_ok_def)
  ultimately show ?thesis using t by (simp add: turn_fits_def of_conversation_def inserted_tables)
qed (simp add: new_turn_def of_conversation_def)

lemma request_found:
  assumes ok: "turns_ok db" and r: "r \<in> set (tt_rows db)" and same: "tu_owner r = owner" "tu_requestId r = i"
  shows "turn_of_request owner i db = Some r"
proof -
  have "t = r" if "turn_of_request owner i db = Some t" for t
  proof -
    have t: "t \<in> set (tt_rows db)" "tu_owner t = owner" "tu_requestId t = i" using of_request_in [OF that] by auto
    then have "turns_agree t r" using ok r by (simp add: turns_ok_def)
    then show ?thesis using one_turn [OF ok t(1) r] t same by (simp add: turns_agree_def)
  qed
  then show ?thesis
    using r same by (cases "turn_of_request owner i db") (auto simp: turn_of_request_def find_None_iff)
qed

text \<open>
  C18: A request is asked once: while its turn is there, asking again adds no turn. The same request gets
  the turn that is there, whatever its state and whoever asks from whichever run, unless the
  conversation was deleted or the request names a session that the conversation is not bound to; these and
  another request under the same identifier are refused without effect.
\<close>

theorem request_asked_once:
  assumes "turn_history w0 w" and "no_turns w0" and r: "r \<in> set (tt_rows (tv_db w))"
    and same: "tu_owner r = owner" "tu_requestId r = tr_requestId q" and "owner \<noteq> []"
    and run: "enqueue_turn owner q runId stepId (tv_db w) = (x, db')"
  shows "tt_rows db' = tt_rows (tv_db w) \<and> tt_nextId db' = tt_nextId (tv_db w) \<and>
    (tu_request r = q \<longrightarrow> db' = tv_db w \<and> (\<exists>b. turn_binding_for owner (tr_conversationKey q) (tv_db w) = Some b \<and>
       (x = Inr r \<longleftrightarrow> deletion_of owner (tr_conversationKey q) (tv_db w) = None \<and>
          (nonempty (tr_sessionId q) = None \<or> tb_sessionId b = tr_sessionId q)))) \<and>
    (tu_request r \<noteq> q \<longrightarrow> db' = tv_db w) \<and> (x = Inr r \<and> tu_request r = q \<or> (\<exists>m. x = Inl m))"
proof -
  have ok: "turns_ok (tv_db w)" using turn_history_ok [OF assms(1,2)] by (simp add: turn_world_ok_def)
  have found: "turn_of_request owner (tr_requestId q) (tv_db w) = Some r"
    using request_found [OF ok r same] .
  have again: "db' = tv_db w \<and> (\<exists>b. turn_binding_for owner (tr_conversationKey q) (tv_db w) = Some b \<and>
       (x = Inr r \<longleftrightarrow> deletion_of owner (tr_conversationKey q) (tv_db w) = None \<and>
          (nonempty (tr_sessionId q) = None \<or> tb_sessionId b = tr_sessionId q)))" if q: "tu_request r = q"
  proof -
    have "turn_alone_ok (tv_db w) r" using ok r by (simp add: turns_ok_def)
    then obtain b where b: "turn_binding_for owner (tr_conversationKey q) (tv_db w) = Some b" "tb_config b = config_of q"
      using q same by (auto simp: turn_alone_ok_def turn_config_of_def turn_fits_def)
    have ins: "insert_binding owner q (tv_db w) = tv_db w" using b(1) by (simp add: insert_binding_def)
    have "enqueue_turn owner q runId stepId (tv_db w) =
        (if deletion_of owner (tr_conversationKey q) (tv_db w) = None
         then if nonempty (tr_sessionId q) = None \<or> tb_sessionId b = tr_sessionId q then Inr r
           else Inl ''Completed-turn stale session binding''
         else Inl ''Deleted conversation requires a new generation'', tv_db w)"
      using assms(6) b ins found q get_some [OF ok r]
      by (simp add: enqueue_turn_def transaction_run bnd_reads bnd_modify turn_row_of_def)
    with run b(1) show ?thesis by (auto split: if_splits)
  qed
  show ?thesis
  proof (cases x)
    case (Inl m)
    have "db' = tv_db w"
      using run Inl unfolding enqueue_turn_def transaction_run
      by (auto simp: bnd_reads split: if_splits prod.splits sum.splits)
    with Inl again show ?thesis by blast
  next
    case (Inr t)
    then have "t = r \<and> tu_request t = q \<and> db' = insert_binding owner q (tv_db w)"
      using enqueue_run [OF ok, of owner q runId stepId t db'] run found by auto
    then have "t = r" "tu_request r = q" "db' = insert_binding owner q (tv_db w)" by blast+
    with Inr again show ?thesis by (simp add: inserted_tables)
  qed
qed

text \<open>The part of a call before its loop, and a request that got its turn.\<close>

definition ask_turn :: "turn_env \<Rightarrow> string \<Rightarrow> turn_request \<Rightarrow> string \<Rightarrow> string \<Rightarrow> turn_row turn_io" where
  "ask_turn e owner q runId stepId = bnd (awaits e AtAuthorize) (\<lambda>_. bnd (answered (te_authorize e q owner)) (\<lambda>_.
     on_turns (enqueue_turn owner q runId stepId)))"

lemma execute_asks: "executeCompletedTurn n e owner q runId stepId =
    (if owner = [] then throw (TurnFailed ''Completed turns require an authenticated pipeline owner'')
     else bnd (ask_turn e owner q runId stepId) (\<lambda>target. bnd (awaits e AtLock) (\<lambda>_. turn_loop n e owner q (tu_receiptId target))))"
  by (simp add: executeCompletedTurn_def ask_turn_def bnd_assoc)

lemma moves_ask: "turn_rely e \<Longrightarrow> keeps turn_moves (ask_turn e owner q runId stepId)"
  unfolding ask_turn_def by (intro turn_moves_keeps turn_keeps)

lemma ask_returns:
  assumes e: "turn_rely e" and ok: "turn_world_ok w" and run: "ask_turn e owner q runId stepId w = (Inr t, w')"
  shows "t \<in> set (tt_rows (tv_db w')) \<and> of_conversation owner (tr_conversationKey q) t"
proof -
  let ?a = "bnd (awaits e AtAuthorize) (\<lambda>_. answered (te_authorize e q owner))"
  obtain r v where a: "?a w = (r, v)" by fastforce
  then have "turn_moves w v"
    using moved_world [of ?a w] moves_awaits [OF e] moves_answered turns_move.keeps_bnd by (metis snd_conv)
  then have v: "turns_ok (tv_db v)" using ok by (simp add: turn_moves_def turn_world_ok_def)
  have "bnd ?a (\<lambda>_. on_turns (enqueue_turn owner q runId stepId)) w = (Inr t, w')" using run by (simp add: ask_turn_def bnd_assoc)
  then have "on_turns (enqueue_turn owner q runId stepId) v = (Inr t, w')"
    using a by (cases r) (simp_all add: bnd_run [of ?a])
  then have "enqueue_turn owner q runId stepId (tv_db v) = (Inr t, tv_db w')" by (rule on_turns_returns)
  then show ?thesis using enqueue_returns [OF v] by blast
qed

text \<open>
  C17: A call ends, whatever the agent answers and whatever other hosts do while it awaits: with
  enough rounds, bounded by the place of its turn in the conversation, it never runs out of them.
\<close>

theorem completed_turn_ends:
  assumes "turn_history w0 w" and "no_turns w0"
    and others: "\<And>k u g v. g \<in> set (te_waits e k u) \<Longrightarrow> turn_history v (g v)"
  shows "\<exists>m. \<forall>n \<ge> m. fst (executeCompletedTurn n e owner q runId stepId w) \<noteq> Inl TurnsDiverged"
proof -
  have e: "turn_rely e" by (rule turn_relyI) (rule history_moves [OF others])
  obtain x w1 where p: "ask_turn e owner q runId stepId w = (x, w1)" by fastforce
  obtain y w2 where l: "awaits e AtLock w1 = (y, w2)" by fastforce
  have "no_diverge (ask_turn e owner q runId stepId)" "no_diverge (awaits e AtLock)" unfolding ask_turn_def by (intro diverge_free)+
  then have xy: "x \<noteq> Inl TurnsDiverged" "y \<noteq> Inl TurnsDiverged" using p l unfolding no_diverge_def by (metis fst_conv)+
  have moves: "turn_moves w w1" "turn_moves w1 w2"
    using moved_world [OF moves_ask [OF e]] moved_world [OF moves_awaits [OF e]] p l by (metis snd_conv)+
  show ?thesis
  proof (cases "\<exists>t u. x = Inr t \<and> y = Inr u \<and> owner \<noteq> []")
    case False
    then have "fst (executeCompletedTurn n e owner q runId stepId w) \<noteq> Inl TurnsDiverged" for n
      unfolding execute_asks using xy p l by (auto simp: bnd_run split: sum.split)
    then show ?thesis by blast
  next
    case True
    then obtain t where t: "x = Inr t" and owner: "owner \<noteq> []" and y: "y = Inr ()" by auto
    have ok: "turn_world_ok w" by (rule turn_history_ok [OF assms(1,2)])
    then have oks: "turn_world_ok w1" "turn_world_ok w2" using moves by (auto simp: turn_moves_def)
    have "t \<in> set (tt_rows (tv_db w1))" "of_conversation owner (tr_conversationKey q) t"
      using ask_returns [OF e ok] p t by simp_all
    then obtain t' where t': "t' \<in> set (tt_rows (tv_db w2))" "turn_evolves t t'" "of_conversation owner (tr_conversationKey q) t'"
      using moves(2) oks(1) by (auto simp: turn_moves_def turn_evolves_def of_conversation_def)
    have "fst (executeCompletedTurn n e owner q runId stepId w) \<noteq> Inl TurnsDiverged" if "n \<ge> Suc (Suc (tu_sequence t'))" for n
    proof -
      have "executeCompletedTurn n e owner q runId stepId w = turn_loop n e owner q (tu_receiptId t') w2"
        unfolding execute_asks using p l t y owner t'(2) by (simp add: bnd_run turn_evolves_def)
      then show ?thesis using turn_loop_ends [OF e oks(2) t'(1,3)] that by simp
    qed
    then show ?thesis by blast
  qed
qed

end
