(* ===== verification/Turn_Progress.thy ===== *)
theory Turn_Progress
  imports Turn_Contract
begin

text \<open>
  In a calm environment, where the agent answers and nobody interferes, a request comes back with
  the answer: the queued turns of its conversation are handed over one after the other, and then its
  own.
\<close>

section \<open>A row that is there\<close>

definition at_turn :: "turn_row \<Rightarrow> turn_db \<Rightarrow> bool" where
  "at_turn r d \<longleftrightarrow> distinct (map tu_receiptId (tt_rows d)) \<and> r \<in> set (tt_rows d)"

text \<open>Only the row of this receipt differs, and what is bound stays bound.\<close>

definition set_turn :: "turn_row \<Rightarrow> turn_db \<Rightarrow> turn_db \<Rightarrow> bool" where
  "set_turn r d d' \<longleftrightarrow> tt_rows d' = map (\<lambda>x. if tu_receiptId x = tu_receiptId r then r else x) (tt_rows d) \<and>
     tt_clock d' = tt_clock d \<and> (\<forall>v k. turn_binding_for v k d \<noteq> None \<longrightarrow> turn_binding_for v k d' \<noteq> None)"

lemma at_turn_set: "at_turn r d \<Longrightarrow> set_turn s d d' \<Longrightarrow> tu_receiptId s = tu_receiptId r \<Longrightarrow> at_turn s d'"
proof -
  assume r: "at_turn r d" "set_turn s d d'" "tu_receiptId s = tu_receiptId r"
  have "map tu_receiptId (tt_rows d') = map tu_receiptId (tt_rows d)" using r(2) by (auto simp: set_turn_def)
  moreover have "s \<in> set (tt_rows d')" using r by (force simp: set_turn_def at_turn_def)
  ultimately show ?thesis using r(1) by (simp add: at_turn_def)
qed

lemma set_turn_trans: "set_turn r d d' \<Longrightarrow> set_turn s d' d'' \<Longrightarrow> tu_receiptId s = tu_receiptId r \<Longrightarrow> set_turn s d d''"
  by (auto simp: set_turn_def)

lemma only_turn: "at_turn r d \<Longrightarrow> x \<in> set (tt_rows d) \<Longrightarrow> tu_receiptId x = tu_receiptId r \<Longrightarrow> x = r"
  unfolding at_turn_def by (metis distinct_map inj_on_def)

lemma update_there:
  assumes r: "at_turn r d" and g: "g r" and same: "tu_receiptId (f r) = tu_receiptId r"
  shows "\<exists>d'. update_turn (tu_receiptId r) g f d = (Inr True, d') \<and> set_turn (f r) d d'"
proof -
  have "length (filter (\<lambda>x. tu_receiptId x = tu_receiptId r \<and> g x) (tt_rows d)) = 1"
  proof -
    have "filter (\<lambda>x. tu_receiptId x = tu_receiptId r \<and> g x) (tt_rows d) = filter (\<lambda>x. tu_receiptId x = tu_receiptId r) (tt_rows d)"
      using only_turn [OF r] g by (intro filter_cong) auto
    moreover have "map tu_receiptId (filter (\<lambda>x. tu_receiptId x = tu_receiptId r) (tt_rows d)) =
        filter (\<lambda>i. i = tu_receiptId r) (map tu_receiptId (tt_rows d))"
      by (simp add: filter_map comp_def)
    moreover have "length (filter (\<lambda>i. i = tu_receiptId r) (map tu_receiptId (tt_rows d))) = 1"
      using r distinct_length_filter [of "map tu_receiptId (tt_rows d)" "\<lambda>i. i = tu_receiptId r"]
      by (auto simp: at_turn_def card_1_singleton_iff intro!: exI [of _ "tu_receiptId r"])
    ultimately show ?thesis by (metis length_map)
  qed
  moreover have "change tu_receiptId (tu_receiptId r) g f (tt_rows d) =
      map (\<lambda>x. if tu_receiptId x = tu_receiptId (f r) then f r else x) (tt_rows d)"
    unfolding change_def same using only_turn [OF r] g by (intro map_cong) auto
  ultimately show ?thesis by (simp add: update_turn_def set_turn_def turn_binding_for_def)
qed

lemma get_there: "at_turn r d \<Longrightarrow> turn_get (tu_receiptId r) d = Some r"
  unfolding turn_get_def at_turn_def by (simp add: row_distinct)

lemma claim_there:
  assumes "at_turn r d" "tu_status r = TurnQueued" "tu_leaseUntil r = 0"
  shows "\<exists>d' s. claim_turn (tu_receiptId r) token d = (Inr True, d') \<and> set_turn s d d' \<and> turn_evolves r s \<and>
    tu_status s = TurnPreparing \<and> tu_claimToken s = Some token"
proof -
  let ?g = "\<lambda>r. tu_status r \<notin> {TurnCompleted, TurnAbandoned, TurnAbandoning} \<and> tu_leaseUntil r \<le> tt_clock d"
  let ?f = "\<lambda>r. r\<lparr>tu_status := (if tu_status r = TurnQueued then TurnPreparing else tu_status r),
              tu_claimToken := Some token, tu_leaseUntil := tt_clock d + 30000, tu_error := None,
              tu_senderToken := None, tu_senderLeaseUntil := 0\<rparr>"
  obtain d' where "update_turn (tu_receiptId r) ?g ?f d = (Inr True, d')" "set_turn (?f r) d d'"
    using update_there [of r d ?g ?f] assms by auto
  then show ?thesis
    using assms(2) by (intro exI [of _ d'] exI [of _ "?f r"]) (simp add: claim_turn_def bnd_reads turn_evolves_def turn_ended_def)
qed

lemma renew_there:
  assumes "at_turn r d" "tu_status r \<noteq> TurnCompleted" "tu_status r \<noteq> TurnAbandoned" "tu_claimToken r = Some token"
  shows "\<exists>d' s. renew_turn (tu_receiptId r) token d = (Inr (), d') \<and> set_turn s d d' \<and> turn_evolves r s \<and>
    tu_status s = tu_status r \<and> tu_claimToken s = Some token"
proof -
  let ?g = "\<lambda>r. tu_claimToken r = Some token \<and> tu_status r \<noteq> TurnCompleted"
  let ?f = "\<lambda>r. r\<lparr>tu_leaseUntil := tt_clock d + 30000, tu_senderLeaseUntil :=
      (if tu_status r = TurnSending \<and> tu_senderToken r = Some token then tt_clock d + 120000 else tu_senderLeaseUntil r)\<rparr>"
  obtain d' where "update_turn (tu_receiptId r) ?g ?f d = (Inr True, d')" "set_turn (?f r) d d'"
    using update_there [of r d ?g ?f] assms by auto
  then show ?thesis
    using assms by (intro exI [of _ d'] exI [of _ "?f r"]) (simp add: renew_turn_def bnd_reads bnd_returned turn_evolves_def turn_ended_def)
qed

lemma bind_there:
  assumes "at_turn r d" "tu_status r = TurnPreparing" "tu_claimToken r = Some token"
  shows "\<exists>d' s. bind_turn (tu_receiptId r) token executionId sessionId d = (Inr (), d') \<and> set_turn s d d' \<and> turn_evolves r s \<and>
    tu_status s = TurnPreparing \<and> tu_claimToken s = Some token"
proof -
  let ?b = "\<lambda>b. if tb_owner b = tu_owner r \<and> tb_conversationKey b = tu_conversationKey r
            then b\<lparr>tb_sessionId := sessionId, tb_executionId := Some executionId\<rparr> else b"
  let ?d = "d\<lparr>tt_bindings := map ?b (tt_bindings d)\<rparr>"
  let ?g = "\<lambda>r. tu_status r = TurnPreparing"
  let ?f = "\<lambda>r. r\<lparr>tu_sessionId := sessionId, tu_executionId := Some executionId\<rparr>"
  have "at_turn r ?d" using assms(1) by (simp add: at_turn_def)
  then obtain d' where d': "update_turn (tu_receiptId r) ?g ?f ?d = (Inr True, d')" "set_turn (?f r) ?d d'"
    using update_there [of r ?d ?g ?f] assms by auto
  have "set_turn (?f r) d d'"
    using d'(2) by (auto simp: set_turn_def turn_binding_for_def find_mapped)
  then show ?thesis
    using assms d'(1) by (intro exI [of _ d'] exI [of _ "?f r"])
      (simp add: bind_turn_def turn_row_of_def transaction_run bnd_reads bnd_modify bnd_assoc bnd_returned get_there turn_evolves_def turn_ended_def)
qed

lemma sending_there:
  assumes "at_turn r d" "tu_status r = TurnPreparing" "tu_claimToken r = Some token"
  shows "\<exists>d' s. sending_turn (tu_receiptId r) token nativeId count d = (Inr (), d') \<and> set_turn s d d' \<and> turn_evolves r s \<and>
    tu_status s = TurnSending \<and> tu_claimToken s = Some token"
proof -
  let ?g = "\<lambda>r. tu_claimToken r = Some token \<and> tu_status r = TurnPreparing"
  let ?f = "\<lambda>r. r\<lparr>tu_status := TurnSending, tu_nativeSessionId := nativeId, tu_checkpoint := Some count,
              tu_senderToken := Some token, tu_senderLeaseUntil := tt_clock d + 120000\<rparr>"
  obtain d' where "update_turn (tu_receiptId r) ?g ?f d = (Inr True, d')" "set_turn (?f r) d d'"
    using update_there [of r d ?g ?f] assms by auto
  then show ?thesis
    using assms by (intro exI [of _ d'] exI [of _ "?f r"]) (simp add: sending_turn_def bnd_reads bnd_returned turn_evolves_def turn_ended_def)
qed

lemma complete_there:
  assumes "at_turn r d" "tu_status r = TurnSending" "tu_claimToken r = Some token" "trim reply \<noteq> []" "nativeId \<noteq> []"
  shows "\<exists>d' s. complete_turn (tu_receiptId r) token reply nativeId output d = (Inr (), d') \<and> set_turn s d d' \<and> turn_evolves r s \<and>
    tu_status s = TurnCompleted \<and> tu_reply s = Some reply"
proof -
  let ?g = "\<lambda>r. tu_claimToken r = Some token \<and> tu_status r \<in> {TurnSending, TurnUncertain}"
  let ?f = "\<lambda>r. r\<lparr>tu_status := TurnCompleted, tu_reply := Some reply, tu_nativeSessionId := Some nativeId,
               tu_output := map_option stored output, tu_error := None, tu_leaseUntil := 0, tu_claimToken := None,
               tu_senderToken := None, tu_senderLeaseUntil := 0\<rparr>"
  obtain d' where "update_turn (tu_receiptId r) ?g ?f d = (Inr True, d')" "set_turn (?f r) d d'"
    using update_there [of r d ?g ?f] assms by auto
  then show ?thesis
    using assms by (intro exI [of _ d'] exI [of _ "?f r"]) (simp add: complete_turn_def bnd_returned turn_evolves_def turn_ended_def)
qed

section \<open>An agent that answers\<close>

text \<open>Nobody interferes, no host dies, and the runtime prepares the session and gives a proper answer.\<close>

definition serving :: "turn_env \<Rightarrow> (string \<Rightarrow> string \<Rightarrow> turn_world \<Rightarrow> turn_evidence) \<Rightarrow> bool" where
  "serving e answer \<longleftrightarrow> (\<forall>k w. te_waits e k w = []) \<and> (\<forall>k w. \<not> te_dies e k w) \<and>
     (\<forall>q v w. te_authorize e q v w = Inr ()) \<and> (\<forall>b q f w. \<exists>x. te_prepare e b q f w = Inr x) \<and>
     (\<forall>r s x w. te_onSession e r s x w = Inr ()) \<and> (\<forall>x w. te_ready e x w = Inr ()) \<and>
     (\<forall>x w. \<exists>v c. te_checkpoint e x w = Inr (v, c) \<and>
        (\<forall>p w'. nonempty v \<noteq> None \<longrightarrow> v = Some (te_nativeId (answer x p w')))) \<and>
     (\<forall>x p w. te_send e x p w = Inr (answer x p w) \<and> trim (te_reply (answer x p w)) \<noteq> [] \<and> te_nativeId (answer x p w) \<noteq> [])"

lemma serving_runs:
  assumes "serving e answer"
  shows "awaits e k w = (Inr (), w)" "awaits_claimed e k i token x w = (Inr x, w)" "survives e k w = (Inr (), w)"
    "answered (te_authorize e q v) w = (Inr (), w)" "answered (te_onSession e r s y) w = (Inr (), w)"
    "answered (te_ready e y) w = (Inr (), w)" "answered (te_send e y p) w = (Inr (answer y p w), w)"
  using assms by (simp_all add: serving_def awaits_def awaits_claimed_def survives_def answered_def bnd_modify bnd_run)

lemma on_turns_run: "m (tv_db w) = (Inr x, d) \<Longrightarrow> on_turns m w = (Inr x, w\<lparr>tv_db := d\<rparr>)"
  by (simp add: on_turns_def)

lemma send_there:
  assumes e: "serving e answer" and r: "at_turn r (tv_db w)" "tu_status r = TurnPreparing" "tu_claimToken r = Some token"
    and h: "tu_receiptId h = tu_receiptId r" and b: "turn_binding_for owner (tr_conversationKey q) (tv_db w) \<noteq> None"
  shows "\<exists>w' s x v. send_turn e owner q h token w = (Inr (), w') \<and> set_turn s (tv_db w) (tv_db w') \<and> turn_evolves r s \<and>
    tu_status s = TurnCompleted \<and> tu_reply s = Some (te_reply (answer x (tu_prompt h) v)) \<and>
    tv_sent w' = tu_receiptId h # tv_sent w"
proof -
  note run = serving_runs [OF e]
  obtain b' where b': "turn_binding_for owner (tr_conversationKey q) (tv_db w) = Some b'" using b by auto
  let ?rec = "tu_status h \<noteq> TurnQueued \<and> nonempty (tu_executionId h) = None"
  obtain p where "te_prepare e b' (tu_request h) ?rec w = Inr p" using e unfolding serving_def by meson
  then have p: "answered (te_prepare e b' (tu_request h) ?rec) w = (Inr p, w)" by (simp add: answered_def)
  obtain x sid where ids: "(case p of Inl x \<Rightarrow> (x, Some x) | Inr ids \<Rightarrow> ids) = (x, sid)" by fastforce
  obtain d1 r1 where 1: "bind_turn (tu_receiptId h) token x sid (tv_db w) = (Inr (), d1)" "set_turn r1 (tv_db w) d1" "turn_evolves r r1"
      "tu_status r1 = TurnPreparing" "tu_claimToken r1 = Some token"
    using bind_there [OF r, of x sid] h by auto
  let ?w1 = "w\<lparr>tv_db := d1\<rparr>"
  obtain v c where "te_checkpoint e x ?w1 = Inr (v, c)" and v: "\<And>p w'. nonempty v \<noteq> None \<Longrightarrow> v = Some (te_nativeId (answer x p w'))"
    using e unfolding serving_def by metis
  then have c: "answered (te_checkpoint e x) ?w1 = (Inr (v, c), ?w1)" by (simp add: answered_def)
  have i1: "tu_receiptId r1 = tu_receiptId r" using evolves_fields [OF 1(3)] by simp
  have a1: "at_turn r1 d1" by (rule at_turn_set [OF r(1) 1(2) i1])
  obtain d2 r2 where 2: "renew_turn (tu_receiptId h) token d1 = (Inr (), d2)" "set_turn r2 d1 d2" "turn_evolves r1 r2"
      "tu_status r2 = TurnPreparing" "tu_claimToken r2 = Some token"
    using renew_there [OF a1 _ _ 1(5)] h i1 1(4) by auto
  have i2: "tu_receiptId r2 = tu_receiptId r1" using evolves_fields [OF 2(3)] by simp
  have a2: "at_turn r2 d2" by (rule at_turn_set [OF a1 2(2) i2])
  obtain d3 r3 where 3: "sending_turn (tu_receiptId h) token v c d2 = (Inr (), d3)" "set_turn r3 d2 d3" "turn_evolves r2 r3"
      "tu_status r3 = TurnSending" "tu_claimToken r3 = Some token"
    using sending_there [OF a2 2(4,5), of v c] h i1 i2 by auto
  have i3: "tu_receiptId r3 = tu_receiptId r2" using evolves_fields [OF 3(3)] by simp
  have a3: "at_turn r3 d3" by (rule at_turn_set [OF a2 3(2) i3])
  let ?w3 = "w\<lparr>tv_db := d3, tv_sent := tu_receiptId h # tv_sent w\<rparr>"
  let ?ev = "answer x (tu_prompt h) ?w3"
  have ev: "trim (te_reply ?ev) \<noteq> []" "te_nativeId ?ev \<noteq> []" using e by (simp_all add: serving_def)
  obtain d4 r4 where 4: "complete_turn (tu_receiptId h) token (te_reply ?ev) (te_nativeId ?ev) (te_result ?ev) d3 = (Inr (), d4)"
      "set_turn r4 d3 d4" "turn_evolves r3 r4" "tu_status r4 = TurnCompleted" "tu_reply r4 = Some (te_reply ?ev)"
    using complete_there [OF a3 3(4,5) ev, of "te_result ?ev"] h i1 i2 i3 by auto
  have i4: "tu_receiptId r4 = tu_receiptId r3" using evolves_fields [OF 4(3)] by simp
  have "send_turn e owner q h token w = (Inr (), ?w3\<lparr>tv_db := d4\<rparr>)"
    using v [of "tu_prompt h" ?w3]
    by (simp add: send_turn_def Let_def bnd_reads b' bnd_returned run p ids c on_turns_run 1(1) 2(1) 3(1) 4(1)
      lease_checked_def hand_over_def bnd_assoc bnd_modify, blast)
  moreover have "set_turn r4 (tv_db w) d4"
    using set_turn_trans 1(2) 2(2) 3(2) 4(2) i1 i2 i3 i4 by (metis (no_types, lifting))
  moreover have "turn_evolves r r4" using 1(3) 2(3) 3(3) 4(3) turn_evolves_trans by blast
  ultimately show ?thesis using 4(4,5) by (intro exI [of _ "?w3\<lparr>tv_db := d4\<rparr>"] exI [of _ r4] exI [of _ x] exI [of _ ?w3]) simp
qed

section \<open>The queue of a conversation is worked off\<close>

definition well_answered :: "(string \<Rightarrow> string \<Rightarrow> turn_world \<Rightarrow> turn_evidence) \<Rightarrow> turn_row \<Rightarrow> bool" where
  "well_answered answer r \<longleftrightarrow> tu_status r = TurnCompleted \<and> (\<exists>x v. tu_reply r = Some (te_reply (answer x (tu_prompt r) v)))"

definition all_queued :: "string \<Rightarrow> string \<Rightarrow> turn_world \<Rightarrow> bool" where
  "all_queued owner key w \<longleftrightarrow> (\<forall>r \<in> set (tt_rows (tv_db w)). of_conversation owner key r \<and> \<not> turn_ended r \<longrightarrow> tu_status r = TurnQueued)"

lemma calm_rely: "serving e answer \<Longrightarrow> turn_rely e"
  by (simp add: serving_def turn_rely_def)

lemma at_turn_in: "turn_world_ok w \<Longrightarrow> r \<in> set (tt_rows (tv_db w)) \<Longrightarrow> at_turn r (tv_db w)"
  by (simp add: turn_world_ok_def turns_ok_def at_turn_def)

lemma calm_round:
  assumes e: "serving e answer" and ok: "turn_world_ok w"
    and t: "t \<in> set (tt_rows (tv_db w))" "\<not> turn_ended t"
    and h: "turn_head owner (tr_conversationKey q) (tv_db w) = Some h" "tu_status h = TurnQueued"
  shows "\<exists>w' s. turn_loop (Suc n) e owner q (tu_receiptId t) w = turn_loop n e owner q (tu_receiptId t) w' \<and>
    turn_moves w w' \<and> set_turn s (tv_db w) (tv_db w') \<and> turn_evolves h s \<and> well_answered answer s \<and>
    tv_sent w' = tu_receiptId h # tv_sent w"
proof -
  let ?d = "(tv_db w)\<lparr>tt_nextId := Suc (tt_nextId (tv_db w))\<rparr>" and ?tok = "tt_nextId (tv_db w)"
  have hin: "h \<in> set (tt_rows (tv_db w))" "of_conversation owner (tr_conversationKey q) h" using head_first [OF h(1)] by auto
  have alone: "turn_alone_ok (tv_db w) h" using ok hin(1) by (simp add: turn_world_ok_def turns_ok_def)
  have a: "at_turn h ?d" using at_turn_in [OF ok hin(1)] by (simp add: at_turn_def)
  have lease: "tu_leaseUntil h = 0" using alone h(2) by (simp add: turn_alone_ok_def)
  obtain d1 r1 where 1: "claim_turn (tu_receiptId h) ?tok ?d = (Inr True, d1)" "set_turn r1 ?d d1" "turn_evolves h r1"
      "tu_status r1 = TurnPreparing" "tu_claimToken r1 = Some ?tok"
    using claim_there [OF a h(2) lease] by blast
  have i1: "tu_receiptId r1 = tu_receiptId h" using evolves_fields [OF 1(3)] by simp
  let ?w1 = "w\<lparr>tv_db := d1\<rparr>"
  have a1: "at_turn r1 (tv_db ?w1)" using at_turn_set [OF a 1(2) i1] by simp
  have b1: "turn_binding_for owner (tr_conversationKey q) (tv_db ?w1) \<noteq> None"
    using alone hin(2) 1(2) by (auto simp: turn_alone_ok_def of_conversation_def set_turn_def turn_config_of_def turn_binding_for_def)
  obtain w' s x v where 2: "send_turn e owner q h ?tok ?w1 = (Inr (), w')" "set_turn s (tv_db ?w1) (tv_db w')" "turn_evolves r1 s"
      "tu_status s = TurnCompleted" "tu_reply s = Some (te_reply (answer x (tu_prompt h) v))" "tv_sent w' = tu_receiptId h # tv_sent ?w1"
    using send_there [OF e a1 1(4,5) i1 [symmetric] b1] by blast
  have hs: "turn_evolves h s" using 1(3) 2(3) turn_evolves_trans by blast
  have i2: "tu_receiptId s = tu_receiptId r1" using evolves_fields [OF 2(3)] by simp
  have tried: "try_turn e owner q (tu_receiptId t) h ?tok ?w1 = (Inr None, w')"
    using h(2) 2(1) by (simp add: try_turn_def handle_run bnd_run)
  have fresh: "on_turns fresh_turn_id w = (Inr ?tok, w\<lparr>tv_db := ?d\<rparr>)" by (simp add: on_turns_def fresh_turn_id_def)
  have claim: "on_turns (claim_turn (tu_receiptId h) ?tok) (w\<lparr>tv_db := ?d\<rparr>) = (Inr True, ?w1)" using 1(1) by (simp add: on_turns_def)
  have loop: "turn_loop (Suc n) e owner q (tu_receiptId t) w = turn_loop n e owner q (tu_receiptId t) w'"
    using t(2) by (simp add: bnd_run [of "target_row _"] target_run [OF ok t(1)] bnd_reads h(1) bnd_run [of "on_turns _"] fresh claim
      bnd_run [of "try_turn e owner q z z' z''" for z z' z''] tried)
  have "turn_moves w w'"
  proof -
    have "turns_follow (tv_db w) ?d" using follow_fresh by (auto simp: keeps_def fresh_turn_id_def)
    moreover have "turn_head owner (tr_conversationKey q) ?d = Some h" using h(1) by (simp add: turn_head_def)
    then have "turns_follow ?d d1" using follow_claim_head 1(1) by (metis snd_conv)
    ultimately have "turn_moves w ?w1" by (intro moves_db follow.R_trans [of "tv_db w" ?d d1])
    moreover have "turn_moves ?w1 w'" using moved_world [OF moves_send_turn [OF calm_rely [OF e]], of ?w1] 2(1) by (metis snd_conv)
    ultimately show ?thesis by (rule turns_move.R_trans)
  qed
  moreover have "set_turn s (tv_db w) (tv_db w')"
  proof -
    have "set_turn r1 (tv_db w) d1" using 1(2) by (simp add: set_turn_def turn_binding_for_def)
    then show ?thesis using 2(2) i2 by (simp add: set_turn_trans)
  qed
  moreover have "well_answered answer s" using 2(4,5) hs by (auto simp: well_answered_def turn_evolves_def)
  ultimately show ?thesis using loop hs 2(6) by auto
qed

lemma queue_worked_off:
  assumes "serving e answer" and "turn_world_ok w" and "t \<in> set (tt_rows (tv_db w))" and "of_conversation owner (tr_conversationKey q) t"
    and "all_queued owner (tr_conversationKey q) w" and "turn_ended t \<longrightarrow> well_answered answer t"
    and "Suc (tu_sequence t) < n + card (settled_places owner (tr_conversationKey q) (tu_sequence t) w)"
  shows "\<exists>r w'. turn_loop n e owner q (tu_receiptId t) w = (Inr (publicTurnReceipt r, None), w') \<and>
    turn_evolves t r \<and> well_answered answer r \<and> turn_get (tu_receiptId t) (tv_db w') = Some r \<and> suffix (tv_sent w) (tv_sent w') \<and>
    (if turn_ended t then w' = w else hd (tv_sent w') = tu_receiptId t)"
  using assms
proof (induction n arbitrary: w t)
  case 0
  then show ?case using settled_bound(1) [of owner "tr_conversationKey q" "tu_sequence t" w] by simp
next
  case (Suc n)
  show ?case
  proof (cases "turn_ended t")
    case True
    then show ?thesis
      using Suc.prems target_run [OF Suc.prems(2,3)] turn_evolves_refl
      by (intro exI [of _ t] exI [of _ w]) (simp add: bnd_returned get_there at_turn_in)
  next
    case False
    obtain h where h: "turn_head owner (tr_conversationKey q) (tv_db w) = Some h"
      using head_none [OF _ Suc.prems(3,4)] False by fastforce
    note hin = head_first [OF h]
    have queued: "tu_status h = TurnQueued" using Suc.prems(5) hin by (auto simp: all_queued_def)
    obtain w' s where loop: "turn_loop (Suc n) e owner q (tu_receiptId t) w = turn_loop n e owner q (tu_receiptId t) w'"
      and m: "turn_moves w w'" and s: "set_turn s (tv_db w) (tv_db w')" "turn_evolves h s" "well_answered answer s"
      and sent: "tv_sent w' = tu_receiptId h # tv_sent w"
      using calm_round [OF Suc.prems(1-3) False h queued] by blast
    have rows: "tt_rows (tv_db w') = map (\<lambda>x. if tu_receiptId x = tu_receiptId h then s else x) (tt_rows (tv_db w))"
      using s(1,2) by (simp add: set_turn_def turn_evolves_def)
    have ended: "turn_ended s" using s(3) by (simp add: well_answered_def turn_ended_def)
    define t' where "t' = (if tu_receiptId t = tu_receiptId h then s else t)"
    have "t = h" if "tu_receiptId t = tu_receiptId h"
      using only_turn [OF at_turn_in [OF Suc.prems(2)]] hin that Suc.prems(3) by blast
    then have t': "turn_evolves t t'" unfolding t'_def using s(2) turn_evolves_refl by metis
    note f = evolves_fields [OF t']
    have "t' \<in> set (tt_rows (tv_db w'))" unfolding rows t'_def using Suc.prems(3) by auto
    moreover have "of_conversation owner (tr_conversationKey q) t'" using f Suc.prems(4) by (simp add: of_conversation_def)
    moreover have "all_queued owner (tr_conversationKey q) w'"
      unfolding all_queued_def rows using Suc.prems(5) ended by (auto simp: all_queued_def)
    moreover have "turn_ended t' \<longrightarrow> well_answered answer t'" using False s(3) by (simp add: t'_def)
    moreover have "card (settled_places owner (tr_conversationKey q) (tu_sequence t) w) < card (settled_places owner (tr_conversationKey q) (tu_sequence t) w')"
    proof (rule round_settles [OF Suc.prems(2-4) False h m])
      show "has_completed (tu_receiptId h) w'"
        unfolding has_completed_def rows using hin s(2,3)
        by (intro bexI [of _ s]) (auto simp: well_answered_def turn_evolves_def image_iff intro!: bexI [of _ h])
    qed
    moreover have "turn_world_ok w'" using m Suc.prems(2) by (simp add: turn_moves_def)
    ultimately obtain r w'' where "turn_loop n e owner q (tu_receiptId t') w' = (Inr (publicTurnReceipt r, None), w'')"
        "turn_evolves t' r" "well_answered answer r" "turn_get (tu_receiptId t') (tv_db w'') = Some r" "suffix (tv_sent w') (tv_sent w'')"
        "if turn_ended t' then w'' = w' else hd (tv_sent w'') = tu_receiptId t'"
      using Suc.IH [OF Suc.prems(1), of w' t'] Suc.prems(7) f by auto
    note r = this
    have "hd (tv_sent w'') = tu_receiptId t"
    proof (cases "tu_receiptId t = tu_receiptId h")
      case True
      then have "turn_ended t'" using ended by (simp add: t'_def)
      with r(6) sent True show ?thesis by simp
    qed (use r(6) False in \<open>simp add: t'_def\<close>)
    moreover have "suffix (tv_sent w) (tv_sent w'')" using r(5) sent by (auto simp: suffix_def)
    ultimately show ?thesis
      using loop f False r(1-4) turn_evolves_trans [OF t'] by (intro exI [of _ r] exI [of _ w'']) simp
  qed
qed

lemma enqueue_new:
  assumes ok: "turns_ok db" and owner: "owner \<noteq> []"
    and free: "deletion_of owner (tr_conversationKey q) db = None" "\<not> is_retired owner (tr_conversationKey q) db"
      "turn_of_request owner (tr_requestId q) db = None"
    and bound: "turn_binding_for owner (tr_conversationKey q) db = None \<or>
      (\<exists>b. turn_binding_for owner (tr_conversationKey q) db = Some b \<and> tb_config b = config_of q \<and>
         (nonempty (tr_sessionId q) = None \<or> tb_sessionId b = tr_sessionId q))"
  shows "\<exists>db'. enqueue_turn owner q runId stepId db = (Inr (new_turn owner q runId stepId (insert_binding owner q db)), db')"
proof -
  obtain b where b: "turn_binding_for owner (tr_conversationKey q) (insert_binding owner q db) = Some b" "tb_config b = config_of q"
      "nonempty (tr_sessionId q) = None \<or> tb_sessionId b = tr_sessionId q"
  proof (cases "turn_binding_for owner (tr_conversationKey q) db")
    case None
    then show thesis
      using that [of "\<lparr>tb_owner = owner, tb_conversationKey = tr_conversationKey q, tb_config = config_of q,
               tb_sessionId = tr_sessionId q, tb_executionId = None\<rparr>"]
      by (simp add: insert_binding_def turn_binding_for_def find_append_last)
  next
    case (Some b)
    with bound that show thesis by (auto simp: insert_binding_def)
  qed
  have new: "turn_get (tt_nextId db) ((insert_binding owner q db)\<lparr>tt_nextId := Suc (tt_nextId db),
      tt_rows := tt_rows db @ [new_turn owner q runId stepId (insert_binding owner q db)]\<rparr>) =
      Some (new_turn owner q runId stepId (insert_binding owner q db))"
    using new_turn_read [OF ok, where k = "Suc (tt_nextId db)" and owner = owner and q = q and runId = runId and stepId = stepId]
    by (simp add: turn_get_def)
  show ?thesis
    unfolding enqueue_turn_def turn_row_of_def transaction_run fresh_turn_id_def
    using owner free b
    by (simp add: bnd_reads bnd_modify bnd_assoc bnd_returned inserted_reads inserted_tables new)
qed

text \<open>
  C16: A new request of a conversation whose unfinished turns are all queued is answered when the agent
  answers and nobody interferes: the call returns the completed receipt with the reply to its prompt,
  after the prompts that waited before it, and its own was the last one handed over.
\<close>

theorem turn_answered:
  assumes "turn_history w0 w" and "no_turns w0" and e: "serving e answer" and owner: "owner \<noteq> []"
    and free: "deletion_of owner (tr_conversationKey q) (tv_db w) = None" "\<not> is_retired owner (tr_conversationKey q) (tv_db w)"
      "turn_of_request owner (tr_requestId q) (tv_db w) = None"
    and bound: "turn_binding_for owner (tr_conversationKey q) (tv_db w) = None \<or>
      (\<exists>b. turn_binding_for owner (tr_conversationKey q) (tv_db w) = Some b \<and> tb_config b = config_of q \<and>
         (nonempty (tr_sessionId q) = None \<or> tb_sessionId b = tr_sessionId q))"
    and queued: "all_queued owner (tr_conversationKey q) w"
    and n: "Suc (Suc (last_sequence owner (tr_conversationKey q) (tv_db w))) < n"
  shows "\<exists>r w'. executeCompletedTurn n e owner q runId stepId w = (Inr (publicTurnReceipt r, None), w') \<and>
    tu_requestId r = tr_requestId q \<and> tu_status r = TurnCompleted \<and>
    (\<exists>x v. tu_reply r = Some (te_reply (answer x (tr_prompt q) v))) \<and> suffix (tv_sent w) (tv_sent w') \<and> hd (tv_sent w') = tu_receiptId r"
proof -
  have ok: "turn_world_ok w" by (rule turn_history_ok [OF assms(1,2)])
  let ?t = "new_turn owner q runId stepId (insert_binding owner q (tv_db w))"
  obtain d where enq: "enqueue_turn owner q runId stepId (tv_db w) = (Inr ?t, d)"
    using enqueue_new [OF _ owner free bound] ok by (auto simp: turn_world_ok_def)
  let ?w = "w\<lparr>tv_db := d\<rparr>"
  have rows: "tt_rows d = tt_rows (tv_db w) @ [?t]"
    using enqueue_run [OF _ enq] ok free(3) by (auto simp: turn_world_ok_def)
  have "turns_follow (tv_db w) d" using follow_enqueue [of owner q runId stepId] enq unfolding keeps_def by (metis snd_conv)
  then have ok': "turn_world_ok ?w" using moves_db ok by (auto simp: turn_moves_def)
  have t: "of_conversation owner (tr_conversationKey q) ?t" "\<not> turn_ended ?t" "tu_prompt ?t = tr_prompt q" "tu_requestId ?t = tr_requestId q"
      "tu_sequence ?t = Suc (last_sequence owner (tr_conversationKey q) (tv_db w))"
    by (simp_all add: new_turn_def of_conversation_def turn_ended_def last_sequence_def inserted_tables)
  have all: "all_queued owner (tr_conversationKey q) ?w"
    using queued by (auto simp: all_queued_def rows) (simp add: new_turn_def)
  obtain r w' where r: "turn_loop n e owner q (tu_receiptId ?t) ?w = (Inr (publicTurnReceipt r, None), w')"
      "turn_evolves ?t r" "well_answered answer r" "suffix (tv_sent ?w) (tv_sent w')" "hd (tv_sent w') = tu_receiptId ?t"
    using queue_worked_off [OF e ok' _ t(1) all, of n] t(2,5) n rows by auto
  have "executeCompletedTurn n e owner q runId stepId w = (Inr (publicTurnReceipt r, None), w')"
    using owner r(1) enq serving_runs(1,4) [OF e] by (simp add: executeCompletedTurn_def bnd_returned on_turns_run)
  then show ?thesis
    using r(2-5) t by (intro exI [of _ r] exI [of _ w']) (auto simp: turn_evolves_def well_answered_def)
qed

end
