(* ===== verification/Turn_Samples.thy ===== *)
theory Turn_Samples
  imports Turn_Progress
begin

text \<open>The properties of the completed turns at concrete requests.\<close>

definition quiet_turns :: turn_world where
  "quiet_turns = \<lparr>tv_db = \<lparr>tt_rows = [], tt_bindings = [], tt_retirements = [], tt_deletions = [], tt_nextId = 0, tt_clock = 0\<rparr>,
     tv_sent = []\<rparr>"

definition good_answer :: "string \<Rightarrow> string \<Rightarrow> turn_world \<Rightarrow> turn_evidence" where
  "good_answer x p w = \<lparr>te_reply = ''r'' @ p, te_nativeId = ''n'', te_result = None\<rparr>"

definition good_agent :: turn_env where
  "good_agent = \<lparr>te_waits = \<lambda>_ _. [], te_dies = \<lambda>_ _. False, te_authorize = \<lambda>_ _ _. Inr (),
     te_prepare = \<lambda>_ _ _ _. Inr (Inl ''s''), te_onSession = \<lambda>_ _ _ _. Inr (), te_ready = \<lambda>_ _. Inr (),
     te_checkpoint = \<lambda>_ _. Inr (Some ''n'', 1), te_send = \<lambda>x p w. Inr (good_answer x p w),
     te_recover = \<lambda>_ _. Inr None, te_abandon = None, te_remove = \<lambda>_ _ _ _. Inr []\<rparr>"

definition ask :: "string \<Rightarrow> turn_request" where
  "ask i = \<lparr>tr_agent = None, tr_conversationKey = ''c'', tr_requestId = i, tr_projectId = ''p'', tr_prompt = ''hi'',
     tr_directory = ''/d'', tr_sessionId = None, tr_model = None, tr_executionProfile = None, tr_projectFiles = None,
     tr_durationMs = None\<rparr>"

definition asked_once :: turn_world where
  "asked_once = snd (executeCompletedTurn 3 good_agent ''o'' (ask ''1'') ''run'' ''step'' quiet_turns)"

text \<open>The agent takes the prompt, but its answer is lost; then the turn is asked for again.\<close>

definition lost_agent :: turn_env where
  "lost_agent = good_agent\<lparr>te_send := \<lambda>_ _ _. Inl ''lost''\<rparr>"

definition asked_lost :: turn_world where
  "asked_lost = snd (executeCompletedTurn 3 lost_agent ''o'' (ask ''1'') ''run'' ''step'' quiet_turns)"

definition asked_again :: turn_world where
  "asked_again = snd (executeCompletedTurn 3 good_agent ''o'' (ask ''1'') ''run'' ''step'' asked_lost)"

lemma serving_good: "serving good_agent good_answer"
  by (auto simp: serving_def good_agent_def good_answer_def trim_def is_space_def nonempty_def)

lemmas good_runs = serving_runs [OF serving_good]

lemma good_prepare: "answered (te_prepare good_agent b q f) w = (Inr (Inl ''s''), w)"
    "answered (te_checkpoint good_agent x) w = (Inr (Some ''n'', 1), w)"
    "answered (te_recover good_agent r) w = (Inr None, w)"
  by (simp_all add: answered_def good_agent_def)

lemma lost_runs: "awaits lost_agent k w = (Inr (), w)" "awaits_claimed lost_agent k i token x w = (Inr x, w)"
    "survives lost_agent k w = (Inr (), w)" "answered (te_authorize lost_agent q v) w = (Inr (), w)"
    "answered (te_prepare lost_agent b q f) w = (Inr (Inl ''s''), w)" "answered (te_onSession lost_agent r s y) w = (Inr (), w)"
    "answered (te_ready lost_agent y) w = (Inr (), w)" "answered (te_checkpoint lost_agent x') w = (Inr (Some ''n'', 1), w)"
    "answered (te_send lost_agent y p) w = (Inl (TurnFailed ''lost''), w)"
  by (simp_all add: lost_agent_def good_agent_def awaits_def awaits_claimed_def survives_def answered_def bnd_modify bnd_run)

lemmas turn_reads = deletion_of_def insert_binding_def turn_binding_for_def ask_def config_of_def nonempty_def
  turn_of_request_def is_retired_def new_turn_def last_sequence_def turn_ended_def turn_head_def of_conversation_def turn_get_def

lemmas turn_updates = claim_turn_def bind_turn_def renew_turn_def sending_turn_def complete_turn_def uncertain_turn_def
  update_turn_def change_def turn_row_of_def transaction_run fresh_turn_id_def enqueue_turn_def

lemmas turn_service = executeCompletedTurn_def numeral_3_eq_3 bnd_returned bnd_failed on_turns_def bnd_reads bnd_modify target_row_def
  try_turn_def handle_run send_turn_def recover_turn_def Let_def lease_checked_def hand_over_def bnd_assoc good_answer_def trim_def is_space_def

definition first_turn :: turn_row where
  "first_turn = \<lparr>tu_receiptId = 0, tu_owner = ''o'', tu_conversationKey = ''c'', tu_requestId = ''1'', tu_projectId = ''p'',
     tu_runId = ''run'', tu_stepId = ''step'', tu_request = ask ''1'', tu_prompt = ''hi'', tu_sequence = 1,
     tu_sessionId = Some ''s'', tu_executionId = Some ''s'', tu_nativeSessionId = Some ''n'', tu_checkpoint = Some 1,
     tu_output = None, tu_status = TurnCompleted, tu_reply = Some ''rhi'', tu_error = None, tu_claimToken = None,
     tu_leaseUntil = 0, tu_senderToken = None, tu_senderLeaseUntil = 0\<rparr>"

lemma asked_once_is: "asked_once = \<lparr>tv_db = \<lparr>tt_rows = [first_turn],
     tt_bindings = [\<lparr>tb_owner = ''o'', tb_conversationKey = ''c'', tb_config = config_of (ask ''1''),
       tb_sessionId = Some ''s'', tb_executionId = Some ''s''\<rparr>],
     tt_retirements = [], tt_deletions = [], tt_nextId = 2, tt_clock = 0\<rparr>, tv_sent = [0]\<rparr>"
  by (simp add: asked_once_def quiet_turns_def first_turn_def turn_service good_runs good_prepare turn_reads turn_updates)

definition unsure_turn :: turn_row where
  "unsure_turn = first_turn\<lparr>tu_status := TurnUncertain, tu_reply := None, tu_error := Some ''lost''\<rparr>"

lemma asked_lost_is: "asked_lost = \<lparr>tv_db = \<lparr>tt_rows = [unsure_turn],
     tt_bindings = [\<lparr>tb_owner = ''o'', tb_conversationKey = ''c'', tb_config = config_of (ask ''1''),
       tb_sessionId = Some ''s'', tb_executionId = Some ''s''\<rparr>],
     tt_retirements = [], tt_deletions = [], tt_nextId = 2, tt_clock = 0\<rparr>, tv_sent = [0]\<rparr>"
  by (simp add: asked_lost_def quiet_turns_def unsure_turn_def first_turn_def turn_service lost_runs turn_reads turn_updates)

lemma asked_again_is: "tv_sent asked_again = [0] \<and> map tu_status (tt_rows (tv_db asked_again)) = [TurnUncertain]"
  by (simp add: asked_again_def asked_lost_is unsure_turn_def first_turn_def turn_service good_runs good_prepare turn_reads turn_updates)

section \<open>Histories\<close>

lemma no_others: "te_waits good_agent k u = []" "te_waits lost_agent k u = []"
  by (simp_all add: good_agent_def lost_agent_def)

lemma once_history: "turn_history quiet_turns asked_once"
  unfolding asked_once_def by (rule turns_executed) (simp add: no_others)

lemma lost_history: "turn_history quiet_turns asked_lost"
  unfolding asked_lost_def by (rule turns_executed) (simp add: no_others)

lemma again_history: "turn_history quiet_turns asked_again"
  unfolding asked_again_def by (rule turns_followed [OF lost_history], rule turns_executed) (simp add: no_others)

lemma quiet_start: "no_turns quiet_turns"
  by (simp add: no_turns_def quiet_turns_def)

text \<open>An agent during whose work, at every await, another host asks for a turn of the same conversation.\<close>

definition crowded :: turn_env where
  "crowded = good_agent\<lparr>te_waits := \<lambda>_ _. [\<lambda>v. snd (executeCompletedTurn 9 good_agent ''o'' (ask ''2'') ''run2'' ''step2'' v), \<lambda>v. v]\<rparr>"

lemma crowded_others: "g \<in> set (te_waits crowded k u) \<Longrightarrow> turn_history v (g v)"
  by (auto simp: crowded_def no_others intro: turns_idle turns_executed)

section \<open>The witnesses\<close>

theorem turns_sent_once_witness:
  "distinct (tv_sent asked_again) \<and> tv_sent asked_again = [0] \<and> map tu_status (tt_rows (tv_db asked_again)) = [TurnUncertain]"
  using turns_sent_once [OF again_history quiet_start] asked_again_is by blast

theorem turn_lifecycle_witness:
  "\<exists>r \<in> set (tt_rows (tv_db asked_lost)). \<exists>r' \<in> set (tt_rows (tv_db asked_again)). turn_evolves r r'"
proof -
  have "turn_history asked_lost asked_again" unfolding asked_again_def by (rule turns_executed) (simp add: no_others)
  from turn_lifecycle [OF lost_history quiet_start this]
  have "\<forall>r \<in> set (tt_rows (tv_db asked_lost)). \<exists>r' \<in> set (tt_rows (tv_db asked_again)). turn_evolves r r'" by blast
  moreover have "unsure_turn \<in> set (tt_rows (tv_db asked_lost))" by (simp add: asked_lost_is)
  ultimately show ?thesis by blast
qed

theorem request_asked_once_witness:
  "enqueue_turn ''o'' (ask ''1'') ''run2'' ''step2'' (tv_db asked_once) = (Inr first_turn, tv_db asked_once) \<and>
   (\<exists>m. enqueue_turn ''o'' ((ask ''1'')\<lparr>tr_prompt := ''other''\<rparr>) ''run2'' ''step2'' (tv_db asked_once) = (Inl m, tv_db asked_once))"
proof
  obtain x db' where run: "enqueue_turn ''o'' (ask ''1'') ''run2'' ''step2'' (tv_db asked_once) = (x, db')" by fastforce
  have "x = Inr first_turn \<and> db' = tv_db asked_once"
    using request_asked_once [OF once_history quiet_start _ _ _ _ run, of first_turn]
    by (simp add: asked_once_is first_turn_def ask_def deletion_of_def nonempty_def)
  with run show "enqueue_turn ''o'' (ask ''1'') ''run2'' ''step2'' (tv_db asked_once) = (Inr first_turn, tv_db asked_once)" by simp
next
  obtain x db' where run: "enqueue_turn ''o'' ((ask ''1'')\<lparr>tr_prompt := ''other''\<rparr>) ''run2'' ''step2'' (tv_db asked_once) = (x, db')"
    by fastforce
  have "(\<exists>m. x = Inl m) \<and> db' = tv_db asked_once"
    using request_asked_once [OF once_history quiet_start _ _ _ _ run, of first_turn]
    by (simp add: asked_once_is first_turn_def ask_def)
  with run show "\<exists>m. enqueue_turn ''o'' ((ask ''1'')\<lparr>tr_prompt := ''other''\<rparr>) ''run2'' ''step2'' (tv_db asked_once) = (Inl m, tv_db asked_once)" by blast
qed

theorem completed_turn_ends_witness:
  "\<exists>m. \<forall>n \<ge> m. fst (executeCompletedTurn n crowded ''o'' (ask ''1'') ''run'' ''step'' asked_lost) \<noteq> Inl TurnsDiverged"
  by (rule completed_turn_ends [OF lost_history quiet_start]) (rule crowded_others)

theorem turn_answered_witness:
  "\<exists>r w'. executeCompletedTurn 4 good_agent ''o'' (ask ''2'') ''run'' ''step'' asked_once = (Inr (publicTurnReceipt r, None), w') \<and>
    tu_status r = TurnCompleted \<and> tu_reply r = Some ''rhi'' \<and> hd (tv_sent w') = tu_receiptId r"
proof -
  have "\<exists>r w'. executeCompletedTurn 4 good_agent ''o'' (ask ''2'') ''run'' ''step'' asked_once = (Inr (publicTurnReceipt r, None), w') \<and>
    tu_requestId r = tr_requestId (ask ''2'') \<and> tu_status r = TurnCompleted \<and>
    (\<exists>x v. tu_reply r = Some (te_reply (good_answer x (tr_prompt (ask ''2'')) v))) \<and> suffix (tv_sent asked_once) (tv_sent w') \<and>
    hd (tv_sent w') = tu_receiptId r"
    by (rule turn_answered [OF once_history quiet_start serving_good])
      (simp_all add: asked_once_is first_turn_def turn_reads all_queued_def)
  then show ?thesis by (auto simp: good_answer_def ask_def)
qed

end
